(* ===== verification/Go_Prelude.thy ===== *)
theory Go_Prelude
  imports Main "HOL-Library.AList" "HOL-Library.Sublist" "HOL-Library.Monad_Syntax"
begin

text \<open>
  What the components share: the Go runtime (panics, pointers, fixed-width integers, maps with
  an explicit iteration order, the functions of \<^verbatim>\<open>strings\<close> and
  \<^verbatim>\<open>strconv\<close> the sources call) and the generic facts about lists that are kept
  by name.

  Go values are modelled as follows.
  \<^item> \<^verbatim>\<open>int\<close>, \<^verbatim>\<open>int32\<close> and
    \<^verbatim>\<open>int64\<close> are mathematical integers; every addition and every conversion that
    can leave the range goes through \<open>wrap32\<close> or \<open>wrap64\<close>.
  \<^item> A map is an association list with distinct keys (\<open>gomap\<close>). Its order is the iteration
    order, which Go leaves open; the theorems hold for every order.
  \<^item> A pointer whose identity matters carries an address (\<open>ptr\<close>); one that is only nil or not
    is an \<open>option\<close>.
  \<^item> A run-time panic is a value of \<open>go_panic\<close> on the left of a sum.
\<close>

section \<open>Collections of facts\<close>

named_theorems go_defs \<open>definitions of loop-free operations\<close>
named_theorems eval_simps \<open>equations that evaluate ground instances\<close>

section \<open>Panics and results\<close>

datatype go_panic =
    NilDereference | IndexOutOfRange | UncomparableType | TypeAssertion | LengthOutOfRange | NilMapWrite

type_synonym 'a go = "go_panic + 'a"

definition bind_go :: "'a go \<Rightarrow> ('a \<Rightarrow> 'b go) \<Rightarrow> 'b go" where
  "bind_go m f = (case m of Inl e \<Rightarrow> Inl e | Inr x \<Rightarrow> f x)"

text \<open>Dereferencing a pointer that may be nil.\<close>

definition deref :: "'a option \<Rightarrow> 'a go" where
  "deref p = (case p of None \<Rightarrow> Inl NilDereference | Some x \<Rightarrow> Inr x)"

text \<open>A \<^verbatim>\<open>for range\<close> loop whose body may panic, threading a state.\<close>

fun for_go :: "('s \<Rightarrow> 'a \<Rightarrow> 's go) \<Rightarrow> 's \<Rightarrow> 'a list \<Rightarrow> 's go" where
  "for_go f s [] = Inr s"
| "for_go f s (x # xs) = bind_go (f s x) (\<lambda>s'. for_go f s' xs)"

lemma bind_go_simps [simp]:
  "bind_go (Inl e) f = Inl e"
  "bind_go (Inr x) f = f x"
  by (simp_all add: bind_go_def)

lemma bind_go_eq_Inr: "bind_go m f = Inr y \<longleftrightarrow> (\<exists>x. m = Inr x \<and> f x = Inr y)"
  by (cases m) auto

lemma deref_simps [simp]: "deref (Some x) = Inr x" "deref None = Inl NilDereference"
  by (simp_all add: deref_def)

lemma for_go_map: "for_go f s (map g xs) = for_go (\<lambda>s x. f s (g x)) s xs"
proof (induction xs arbitrary: s)
  case (Cons x xs)
  then show ?case by (cases "f s (g x)") simp_all
qed simp

lemma for_go_append:
  "for_go f s (xs @ ys) = bind_go (for_go f s xs) (\<lambda>s'. for_go f s' ys)"
proof (induction xs arbitrary: s)
  case (Cons x xs)
  then show ?case by (cases "f s x") simp_all
qed simp

text \<open>A loop that keeps an invariant in every iteration keeps it altogether.\<close>

lemma for_go_invariant:
  assumes "for_go f s xs = Inr t" and "P s"
    and "\<And>u x v. x \<in> set xs \<Longrightarrow> P u \<Longrightarrow> f u x = Inr v \<Longrightarrow> P v"
  shows "P t"
  using assms
proof (induction xs arbitrary: s)
  case (Cons x xs)
  from Cons.prems(1) obtain u where u: "f s x = Inr u" and rest: "for_go f u xs = Inr t"
    by (auto simp: bind_go_eq_Inr)
  have "P u" using Cons.prems(2,3) u by (metis list.set_intros(1))
  moreover have "\<And>a b c. a \<in> set xs \<Longrightarrow> P b \<Longrightarrow> f b a = Inr c \<Longrightarrow> P c"
    using Cons.prems(3) by (metis list.set_intros(2))
  ultimately show ?case by (rule Cons.IH [OF rest])
qed simp

text \<open>A loop ends without a panic when every iteration does, from every state the invariant allows.\<close>

lemma for_go_total:
  assumes "P s" and "\<And>u x. x \<in> set xs \<Longrightarrow> P u \<Longrightarrow> \<exists>v. f u x = Inr v \<and> P v"
  shows "\<exists>t. for_go f s xs = Inr t \<and> P t"
  using assms
proof (induction xs arbitrary: s)
  case (Cons x xs)
  obtain v where v: "f s x = Inr v" "P v"
    using Cons.prems by (meson list.set_intros(1))
  have "\<exists>t. for_go f v xs = Inr t \<and> P t"
    by (rule Cons.IH [OF v(2)]) (meson Cons.prems(2) list.set_intros(2))
  with v show ?case
    by simp
qed simp

text \<open>A loop that adds the same entries for an element in every state adds all of them, in order.\<close>

lemma for_go_collect:
  assumes "for_go f s xs = Inr t" "\<And>u x v. x \<in> set xs \<Longrightarrow> f u x = Inr v \<Longrightarrow> h v = h u @ e x"
  shows "h t = h s @ concat (map e xs)"
  using assms
proof (induction xs arbitrary: s)
  case (Cons x xs)
  from Cons.prems(1) obtain u where u: "f s x = Inr u" "for_go f u xs = Inr t"
    by (auto simp: bind_go_eq_Inr)
  have "h t = h u @ concat (map e xs)"
    by (rule Cons.IH [OF u(2)]) (use Cons.prems(2) in simp)
  then show ?case
    using Cons.prems(2) [of x s u] u(1) by simp
qed simp

text \<open>A loop whose iterations correspond to those of another one under a map of the states.\<close>

lemma for_go_simulation:
  assumes "for_go f s xs = Inr t" "\<And>u x v. f u x = Inr v \<Longrightarrow> f' (h u) x = Inr (h v)"
  shows "for_go f' (h s) xs = Inr (h t)"
  using assms by (induction xs arbitrary: s) (auto simp: bind_go_eq_Inr)

text \<open>
  States that only grow: a loop whose iterations grow the state grows it, and what an iteration
  establishes for its element still holds at the end, when growing keeps it.
\<close>

locale growing_state =
  fixes grown :: "'s \<Rightarrow> 's \<Rightarrow> bool"
  assumes grown_refl: "grown s s"
    and grown_trans: "grown s t \<Longrightarrow> grown t u \<Longrightarrow> grown s u"
begin

lemma loop_grows:
  assumes "for_go f s xs = Inr t" "P s"
    and step: "\<And>u x v. x \<in> set xs \<Longrightarrow> P u \<Longrightarrow> f u x = Inr v \<Longrightarrow> P v \<and> grown u v"
  shows "P t \<and> grown s t"
proof (rule for_go_invariant [OF assms(1), of "\<lambda>u. P u \<and> grown s u"])
  show "P s \<and> grown s s"
    using assms(2) grown_refl by blast
  show "P v \<and> grown s v" if "x \<in> set xs" "P u \<and> grown s u" "f u x = Inr v" for u x v
    using that step [of x u v] grown_trans [of s u v] by blast
qed

lemma loop_establishes:
  assumes "for_go f s xs = Inr t" "P s"
    and step: "\<And>u x v. x \<in> set xs \<Longrightarrow> P u \<Longrightarrow> f u x = Inr v \<Longrightarrow> P v \<and> grown u v"
    and est: "\<And>u v. P u \<Longrightarrow> f u y = Inr v \<Longrightarrow> Q v"
    and mono: "\<And>u v. Q u \<Longrightarrow> grown u v \<Longrightarrow> Q v"
    and y: "y \<in> set xs"
  shows "Q t"
proof -
  obtain as bs where xs: "xs = as @ y # bs"
    using y by (meson split_list)
  then obtain u v where uv: "for_go f s as = Inr u" "f u y = Inr v" "for_go f v bs = Inr t"
    using assms(1) by (auto simp: for_go_append bind_go_eq_Inr)
  have "P u"
  proof (rule for_go_invariant [of f s as u P, OF uv(1) assms(2)])
    show "P b" if "x \<in> set as" "P a" "f a x = Inr b" for a x b
      using step [of x a b] that xs by simp
  qed
  then have "P v" "Q v"
    using step [OF y _ uv(2)] est uv(2) by auto
  moreover have "grown v t"
  proof (rule conjunct2 [OF loop_grows [of f v bs t P, OF uv(3) \<open>P v\<close>]])
    show "P b \<and> grown a b" if "x \<in> set bs" "P a" "f a x = Inr b" for a x b
      using step [of x a b] that xs by simp
  qed
  ultimately show ?thesis
    using mono by blast
qed

end

text \<open>Loops that look for an element, or check all of them, with a test that may panic.\<close>

fun any_go :: "('a \<Rightarrow> bool go) \<Rightarrow> 'a list \<Rightarrow> bool go" where
  "any_go f [] = Inr False"
| "any_go f (x # xs) = bind_go (f x) (\<lambda>b. if b then Inr True else any_go f xs)"

fun all_go :: "('a \<Rightarrow> bool go) \<Rightarrow> 'a list \<Rightarrow> bool go" where
  "all_go f [] = Inr True"
| "all_go f (x # xs) = bind_go (f x) (\<lambda>b. if b then all_go f xs else Inr False)"

lemma any_go_total: "(\<And>x. x \<in> set xs \<Longrightarrow> f x = Inr (P x)) \<Longrightarrow> any_go f xs = Inr (\<exists>x \<in> set xs. P x)"
  by (induction xs) auto

lemma all_go_total: "(\<And>x. x \<in> set xs \<Longrightarrow> f x = Inr (P x)) \<Longrightarrow> all_go f xs = Inr (\<forall>x \<in> set xs. P x)"
  by (induction xs) auto

lemma any_go_TrueD: "any_go f xs = Inr True \<Longrightarrow> \<exists>x \<in> set xs. f x = Inr True"
  by (induction xs) (auto simp: bind_go_eq_Inr split: if_splits)

lemma all_go_TrueD: "all_go f xs = Inr True \<Longrightarrow> \<forall>x \<in> set xs. f x = Inr True"
  by (induction xs) (auto simp: bind_go_eq_Inr split: if_splits)

section \<open>Fixed-width integers\<close>

definition wrap32 :: "int \<Rightarrow> int" where
  "wrap32 x = (x + 2147483648) mod 4294967296 - 2147483648"

definition wrap64 :: "int \<Rightarrow> int" where
  "wrap64 x = (x + 9223372036854775808) mod 18446744073709551616 - 9223372036854775808"

abbreviation int32_range :: "int \<Rightarrow> bool" where
  "int32_range x \<equiv> -2147483648 \<le> x \<and> x < 2147483648"

abbreviation int64_range :: "int \<Rightarrow> bool" where
  "int64_range x \<equiv> -9223372036854775808 \<le> x \<and> x < 9223372036854775808"

text \<open>Integer division truncates towards zero; \<open>x / 0\<close> is not used by the sources.\<close>

definition go_div :: "int \<Rightarrow> int \<Rightarrow> int" where
  "go_div a b = sgn a * sgn b * (\<bar>a\<bar> div \<bar>b\<bar>)"

lemma wrap32_id [simp]: "int32_range x \<Longrightarrow> wrap32 x = x"
  by (simp add: wrap32_def)

lemma wrap64_id [simp]: "int64_range x \<Longrightarrow> wrap64 x = x"
  by (simp add: wrap64_def)

lemma wrap32_range: "int32_range (wrap32 x)"
proof -
  have "0 \<le> (x + 2147483648) mod 4294967296" "(x + 2147483648) mod 4294967296 < 4294967296"
    by simp_all
  then show ?thesis unfolding wrap32_def by linarith
qed

lemma wrap64_range: "int64_range (wrap64 x)"
proof -
  have "0 \<le> (x + 9223372036854775808) mod 18446744073709551616"
    "(x + 9223372036854775808) mod 18446744073709551616 < 18446744073709551616"
    by simp_all
  then show ?thesis unfolding wrap64_def by linarith
qed

text \<open>Wrapping at every step of a sum is wrapping the sum once.\<close>

lemma wrap32_add_left [simp]: "wrap32 (wrap32 a + b) = wrap32 (a + b)"
proof -
  have "(wrap32 a + b + 2147483648) mod 4294967296 =
      ((a + 2147483648) mod 4294967296 + b) mod 4294967296"
    by (simp add: wrap32_def)
  also have "\<dots> = (a + b + 2147483648) mod 4294967296"
    by (simp add: mod_simps ac_simps)
  finally show ?thesis by (simp add: wrap32_def)
qed

lemma wrap32_add_right [simp]: "wrap32 (a + wrap32 b) = wrap32 (a + b)"
  by (metis add.commute wrap32_add_left)

lemma wrap64_add_left [simp]: "wrap64 (wrap64 a + b) = wrap64 (a + b)"
proof -
  have "(wrap64 a + b + 9223372036854775808) mod 18446744073709551616 =
      ((a + 9223372036854775808) mod 18446744073709551616 + b) mod 18446744073709551616"
    by (simp add: wrap64_def)
  also have "\<dots> = (a + b + 9223372036854775808) mod 18446744073709551616"
    by (simp add: mod_simps ac_simps)
  finally show ?thesis by (simp add: wrap64_def)
qed

lemma wrap64_add_right [simp]: "wrap64 (a + wrap64 b) = wrap64 (a + b)"
  by (metis add.commute wrap64_add_left)

lemma wrap64_wrap64 [simp]: "wrap64 (wrap64 a) = wrap64 a"
  using wrap64_add_left [of a 0] by simp

lemma foldl_wrap64:
  "foldl (\<lambda>acc x. wrap64 (acc + f x)) (wrap64 m) xs = wrap64 (m + sum_list (map f xs))"
proof (induction xs arbitrary: m)
  case (Cons x xs)
  show ?case using Cons.IH [of "m + f x"] by (simp add: ac_simps)
qed simp

lemma foldl_wrap64_zero:
  "foldl (\<lambda>acc x. wrap64 (acc + f x)) 0 xs = wrap64 (sum_list (map f xs))"
  using foldl_wrap64 [of f 0 xs] by simp

lemma go_div_nonneg: "0 \<le> a \<Longrightarrow> 0 < b \<Longrightarrow> go_div a b = a div b"
  by (cases "a = 0") (simp_all add: go_div_def)

section \<open>Maps with an explicit iteration order\<close>

type_synonym 'v gomap = "(string \<times> 'v) list"

abbreviation gm_wf :: "('k \<times> 'v) list \<Rightarrow> bool" where
  "gm_wf m \<equiv> distinct (map fst m)"

text \<open>Reading a missing key of a \<^verbatim>\<open>map[string]string\<close> gives the zero value.\<close>

definition gm_str :: "string gomap \<Rightarrow> string \<Rightarrow> string" where
  "gm_str m k = (case map_of m k of None \<Rightarrow> [] | Some v \<Rightarrow> v)"

text \<open>\<^verbatim>\<open>m[k] = append(m[k], v)\<close>, the idiom for multi-valued maps.\<close>

definition gm_append :: "string \<Rightarrow> 'a \<Rightarrow> 'a list gomap \<Rightarrow> 'a list gomap" where
  "gm_append k v m = AList.update k ((case map_of m k of None \<Rightarrow> [] | Some vs \<Rightarrow> vs) @ [v]) m"

text \<open>
  The test \<^verbatim>\<open>len(m) == len(n)\<close> together with a loop over \<open>m\<close> that looks every key up in \<open>n\<close>.
\<close>

definition gm_eq_by :: "('v \<Rightarrow> 'v \<Rightarrow> bool) \<Rightarrow> 'v gomap \<Rightarrow> 'v gomap \<Rightarrow> bool" where
  "gm_eq_by eq m n \<longleftrightarrow> length m = length n \<and>
     (\<forall>(k, v) \<in> set m. case map_of n k of None \<Rightarrow> False | Some w \<Rightarrow> eq v w)"

lemma gm_wf_update [simp]: "gm_wf m \<Longrightarrow> gm_wf (AList.update k v m)"
  by (rule distinct_update)

lemma gm_str_simps [simp]:
  "gm_str [] k = []"
  "gm_str ((k', v) # m) k = (if k = k' then v else gm_str m k)"
  by (simp_all add: gm_str_def)

lemma gm_str_mem: "gm_wf m \<Longrightarrow> (k, v) \<in> set m \<Longrightarrow> gm_str m k = v"
  by (simp add: gm_str_def map_of_eq_Some_iff [THEN iffD2])

lemma map_of_gm_append:
  "map_of (gm_append k v m) j =
     (if j = k then Some ((case map_of m k of None \<Rightarrow> [] | Some vs \<Rightarrow> vs) @ [v]) else map_of m j)"
  by (simp add: gm_append_def update_conv')

text \<open>
  For maps with distinct keys the asymmetric test decides equality of the maps: the keys of
  \<open>m\<close> are among those of \<open>n\<close>, and there are equally many.
\<close>

lemma gm_eq_by_iff:
  assumes m: "gm_wf m" and n: "gm_wf n"
  shows "gm_eq_by (=) m n \<longleftrightarrow> map_of m = map_of n"
proof
  assume eq: "gm_eq_by (=) m n"
  have sub: "map_of n k = Some v" if "map_of m k = Some v" for k v
    using eq map_of_SomeD [OF that] by (auto simp: gm_eq_by_def split: option.splits)
  have cards: "card (fst ` set m) = card (fst ` set n)"
    using eq m n by (simp add: gm_eq_by_def distinct_card flip: set_map)
  have "fst ` set m \<subseteq> fst ` set n"
    using sub by (metis domI dom_map_of_conv_image_fst subsetI domIff not_None_eq)
  then have "fst ` set m = fst ` set n"
    using cards by (simp add: card_subset_eq)
  then have dom: "dom (map_of m) = dom (map_of n)"
    by (simp add: dom_map_of_conv_image_fst)
  show "map_of m = map_of n"
  proof
    fix k
    show "map_of m k = map_of n k"
    proof (cases "map_of m k")
      case None
      then show ?thesis using dom by (metis domIff)
    next
      case (Some v)
      then show ?thesis using sub by simp
    qed
  qed
next
  assume eq: "map_of m = map_of n"
  then have "fst ` set m = fst ` set n"
    by (metis dom_map_of_conv_image_fst)
  then have "length m = length n"
    using m n by (metis distinct_card length_map set_map)
  moreover have "map_of n k = Some v" if "(k, v) \<in> set m" for k v
    using that m eq by (metis map_of_eq_Some_iff)
  ultimately show "gm_eq_by (=) m n"
    by (auto simp: gm_eq_by_def)
qed

section \<open>Pointers with identity\<close>

datatype 'a ptr = Nil_ptr | Ptr nat 'a

text \<open>\<^verbatim>\<open>p == q\<close> on pointers compares addresses.\<close>

fun ptr_eq :: "'a ptr \<Rightarrow> 'a ptr \<Rightarrow> bool" where
  "ptr_eq Nil_ptr Nil_ptr = True"
| "ptr_eq (Ptr a x) (Ptr b y) = (a = b)"
| "ptr_eq _ _ = False"

text \<open>
  The shape of every \<^verbatim>\<open>Equals\<close> method: identical pointers are equal, nil equals nothing
  else, two objects are compared field by field.
\<close>

definition ptr_equals :: "('a \<Rightarrow> 'a \<Rightarrow> bool) \<Rightarrow> 'a ptr \<Rightarrow> 'a ptr \<Rightarrow> bool" where
  "ptr_equals eq p q \<longleftrightarrow> ptr_eq p q \<or>
     (case (p, q) of (Ptr a x, Ptr b y) \<Rightarrow> eq x y | _ \<Rightarrow> False)"

text \<open>Two pointers are coherent when one address does not hold two different objects.\<close>

fun ptr_coherent :: "'a ptr \<Rightarrow> 'a ptr \<Rightarrow> bool" where
  "ptr_coherent (Ptr a x) (Ptr b y) = (a = b \<longrightarrow> x = y)"
| "ptr_coherent _ _ = True"

lemma ptr_equals_simps [simp]:
  "ptr_equals eq Nil_ptr Nil_ptr"
  "\<not> ptr_equals eq Nil_ptr (Ptr b y)"
  "\<not> ptr_equals eq (Ptr a x) Nil_ptr"
  "ptr_equals eq (Ptr a x) (Ptr b y) \<longleftrightarrow> a = b \<or> eq x y"
  by (simp_all add: ptr_equals_def)

text \<open>
  The double loop that looks for a partner of every element of \<open>xs\<close> in \<open>ys\<close>, after
  the lengths have been compared.
\<close>

definition all_matched :: "('a \<Rightarrow> 'b \<Rightarrow> bool) \<Rightarrow> 'a list \<Rightarrow> 'b list \<Rightarrow> bool" where
  "all_matched eq xs ys \<longleftrightarrow> length xs = length ys \<and> (\<forall>x \<in> set xs. \<exists>y \<in> set ys. eq x y)"

lemma all_matched_refl: "(\<And>x. x \<in> set xs \<Longrightarrow> eq x x) \<Longrightarrow> all_matched eq xs xs"
  by (auto simp: all_matched_def)

lemma all_matched_set: "all_matched (=) xs ys \<Longrightarrow> set xs \<subseteq> set ys"
  by (auto simp: all_matched_def)

text \<open>Without duplicates the test is exact up to order.\<close>

lemma all_matched_distinct:
  assumes "distinct xs" and "distinct ys"
  shows "all_matched (=) xs ys \<longleftrightarrow> set xs = set ys"
proof
  assume m: "all_matched (=) xs ys"
  then have "card (set xs) = card (set ys)"
    using assms by (simp add: all_matched_def distinct_card)
  then show "set xs = set ys"
    using all_matched_set [OF m] by (simp add: card_subset_eq)
next
  assume eq: "set xs = set ys"
  have "length xs = length ys"
    using distinct_card [OF assms(1)] distinct_card [OF assms(2)] eq by simp
  then show "all_matched (=) xs ys"
    by (simp add: all_matched_def eq)
qed

section \<open>Strings\<close>

text \<open>
  Strings are byte sequences. \<^verbatim>\<open>strings.Replace(s, old, new, 1)\<close> is
  \<open>replace_first\<close>; \<^verbatim>\<open>strings.Replace(s, c, new, -1)\<close> and
  \<^verbatim>\<open>strings.Split(s, c)\<close> are only called with a one-byte \<open>c\<close>.
\<close>

fun replace_first :: "string \<Rightarrow> string \<Rightarrow> string \<Rightarrow> string" where
  "replace_first old new [] = (if old = [] then new else [])"
| "replace_first old new (c # cs) =
     (if prefix old (c # cs) then new @ drop (length old) (c # cs)
      else c # replace_first old new cs)"

definition replace_byte :: "char \<Rightarrow> string \<Rightarrow> string \<Rightarrow> string" where
  "replace_byte c new s = concat (map (\<lambda>x. if x = c then new else [x]) s)"

fun split_byte :: "char \<Rightarrow> string \<Rightarrow> string list" where
  "split_byte c [] = [[]]"
| "split_byte c (x # xs) =
     (if x = c then [] # split_byte c xs
      else (case split_byte c xs of [] \<Rightarrow> [[x]] | y # ys \<Rightarrow> (x # y) # ys))"

definition str_contains :: "string \<Rightarrow> string \<Rightarrow> bool" where
  "str_contains s sub \<longleftrightarrow> sublist sub s"

text \<open>\<^verbatim>\<open>strings.TrimSpace\<close> on ASCII text.\<close>

definition ascii_space :: "char \<Rightarrow> bool" where
  "ascii_space c \<longleftrightarrow> c \<in> {CHR '' '', CHR 0x09, CHR 0x0A, CHR 0x0B, CHR 0x0C, CHR 0x0D}"

definition trim_space :: "string \<Rightarrow> string" where
  "trim_space s = rev (dropWhile ascii_space (rev (dropWhile ascii_space s)))"

lemma replace_byte_delete: "replace_byte c [] s = filter (\<lambda>x. x \<noteq> c) s"
  by (induction s) (auto simp: replace_byte_def)

lemma replace_first_prefix: "replace_first p new (p @ s) = new @ s"
proof (cases "p @ s")
  case (Cons c cs)
  have "prefix p (c # cs)" "drop (length p) (c # cs) = s"
    unfolding Cons [symmetric] by simp_all
  then show ?thesis by (simp add: Cons)
qed simp

lemma split_byte_nonempty [simp]: "split_byte c s \<noteq> []"
  by (induction s) (auto split: list.splits)

text \<open>The pieces joined by the separator give the string back, and no piece holds it.\<close>

fun join_byte :: "char \<Rightarrow> string list \<Rightarrow> string" where
  "join_byte c [] = []"
| "join_byte c [x] = x"
| "join_byte c (x # y # ys) = x @ c # join_byte c (y # ys)"

lemma join_byte_Cons_char: "join_byte c ((x # y) # ys) = x # join_byte c (y # ys)"
  by (cases ys) simp_all

lemma join_split_byte: "join_byte c (split_byte c s) = s"
proof (induction s)
  case (Cons x xs)
  then show ?case
    by (cases "split_byte c xs") (auto simp: join_byte_Cons_char)
qed simp

lemma split_byte_no_sep: "p \<in> set (split_byte c s) \<Longrightarrow> c \<notin> set p"
proof (induction s arbitrary: p)
  case (Cons x xs)
  then show ?case
    by (cases "split_byte c xs") (auto split: if_splits)
qed simp

lemma split_byte_none: "c \<notin> set s \<Longrightarrow> split_byte c s = [s]"
  by (induction s) auto

lemma split_byte_append: "c \<notin> set x \<Longrightarrow> split_byte c (x @ c # s) = x # split_byte c s"
  by (induction x) auto

text \<open>Conversely, joined pieces without the separator are split into the same pieces.\<close>

lemma split_join_byte:
  "xs \<noteq> [] \<Longrightarrow> \<forall>x \<in> set xs. c \<notin> set x \<Longrightarrow> split_byte c (join_byte c xs) = xs"
  by (induction c xs rule: join_byte.induct) (simp_all add: split_byte_none split_byte_append)

lemma set_piece_join: "p \<in> set xs \<Longrightarrow> set p \<subseteq> set (join_byte c xs)"
  by (induction c xs rule: join_byte.induct) auto

lemma set_split_byte: "p \<in> set (split_byte c s) \<Longrightarrow> set p \<subseteq> set s"
  using set_piece_join [of p "split_byte c s" c] by (simp add: join_split_byte)

lemma set_alist_update: "set (AList.update k v m) \<subseteq> insert (k, v) (set m)"
  by (induction m) auto

lemma set_join_byte: "set (join_byte c xs) \<subseteq> insert c (\<Union>x \<in> set xs. set x)"
  by (induction c xs rule: join_byte.induct) auto

subsection \<open>Decimal integers\<close>

definition digit_char :: "nat \<Rightarrow> char" where
  "digit_char d = char_of (48 + d)"

definition char_digit :: "char \<Rightarrow> nat option" where
  "char_digit c = (let n = of_char c :: nat in if 48 \<le> n \<and> n \<le> 57 then Some (n - 48) else None)"

fun nat_str :: "nat \<Rightarrow> string" where
  "nat_str n = (if n < 10 then [digit_char n] else nat_str (n div 10) @ [digit_char (n mod 10)])"

declare nat_str.simps [simp del]

definition go_itoa :: "int \<Rightarrow> string" where
  "go_itoa i = (if i < 0 then CHR ''-'' # nat_str (nat (- i)) else nat_str (nat i))"

fun digits_val :: "nat \<Rightarrow> string \<Rightarrow> nat option" where
  "digits_val acc [] = Some acc"
| "digits_val acc (c # cs) =
     (case char_digit c of None \<Rightarrow> None | Some d \<Rightarrow> digits_val (10 * acc + d) cs)"

datatype num_error = ErrSyntax | ErrRange

text \<open>
  \<^verbatim>\<open>strconv.Atoi\<close>: an optional sign and at least one digit. The value comes with the
  error: zero on a syntax error, the nearest bound on a range error.
\<close>

definition go_atoi :: "string \<Rightarrow> int \<times> num_error option" where
  "go_atoi s =
     (let neg = (s \<noteq> [] \<and> hd s = CHR ''-'');
          ds = (if s \<noteq> [] \<and> hd s \<in> {CHR ''-'', CHR ''+''} then tl s else s)
      in if ds = [] then (0, Some ErrSyntax)
         else case digits_val 0 ds of
           None \<Rightarrow> (0, Some ErrSyntax)
         | Some n \<Rightarrow>
             (let i = (if neg then - int n else int n)
              in if i < -9223372036854775808 then (-9223372036854775808, Some ErrRange)
                 else if 9223372036854775807 < i then (9223372036854775807, Some ErrRange)
                 else (i, None)))"

definition go_parse_bool :: "string \<Rightarrow> bool option" where
  "go_parse_bool s =
     (if s \<in> {''1'', ''t'', ''T'', ''TRUE'', ''true'', ''True''} then Some True
      else if s \<in> {''0'', ''f'', ''F'', ''FALSE'', ''false'', ''False''} then Some False
      else None)"

lemma char_digit_digit_char: "d < 10 \<Longrightarrow> char_digit (digit_char d) = Some d"
  by (simp add: char_digit_def digit_char_def)

lemma digits_val_append:
  "digits_val acc (xs @ ys) =
     (case digits_val acc xs of None \<Rightarrow> None | Some a \<Rightarrow> digits_val a ys)"
  by (induction xs arbitrary: acc) (auto split: option.splits)

lemma nat_str_nonempty [simp]: "nat_str n \<noteq> []"
  by (subst nat_str.simps) simp

lemma digits_val_nat_str: "digits_val 0 (nat_str n) = Some n"
proof (induction n rule: nat_str.induct)
  case (1 n)
  show ?case
  proof (cases "n < 10")
    case True
    then show ?thesis by (simp add: nat_str.simps [of n] char_digit_digit_char)
  next
    case False
    then show ?thesis
      by (simp add: nat_str.simps [of n] "1.IH" digits_val_append char_digit_digit_char)
  qed
qed

lemma nat_str_digits: "c \<in> set (nat_str n) \<Longrightarrow> char_digit c \<noteq> None"
proof (induction n rule: nat_str.induct)
  case (1 n)
  then show ?case
    by (cases "n < 10") (auto simp: nat_str.simps [of n] char_digit_digit_char)
qed

lemma nat_str_hd_not_sign: "hd (nat_str n) \<notin> {CHR ''-'', CHR ''+''}"
proof -
  have "char_digit (hd (nat_str n)) \<noteq> None"
    by (rule nat_str_digits [OF hd_in_set]) simp
  then show ?thesis by (auto simp: char_digit_def)
qed

theorem go_atoi_itoa:
  assumes "int64_range i"
  shows "go_atoi (go_itoa i) = (i, None)"
proof (cases "i < 0")
  case True
  then show ?thesis
    using assms by (simp add: go_atoi_def go_itoa_def digits_val_nat_str Let_def)
next
  case False
  then show ?thesis
    using assms nat_str_hd_not_sign [of "nat i"]
    by (simp add: go_atoi_def go_itoa_def digits_val_nat_str Let_def)
qed

lemma nat_str_inj: "nat_str m = nat_str n \<Longrightarrow> m = n"
  by (metis digits_val_nat_str option.inject)

lemma nat_str_no_minus: "nat_str n \<noteq> CHR ''-'' # cs"
  using nat_str_hd_not_sign [of n] by auto

lemma go_itoa_inj: "go_itoa i = go_itoa j \<Longrightarrow> i = j"
  using nat_str_no_minus nat_str_no_minus [symmetric]
  by (auto simp: go_itoa_def dest!: nat_str_inj split: if_splits)

end
