(* ===== verification/Named_Store.thy ===== *)
theory Named_Store
  imports Go_Prelude
begin

text \<open>
  Collections of Kubernetes objects that are kept by name. The sources repeat the same two loops
  for every kind of object: replace the first entry of the same name or append
  (\<open>set_named\<close>), and cut out the first entry of that name (\<open>del_named\<close>). The contract
  such a collection gives its clients is the locale \<open>named_store\<close>: between well-formed
  states it behaves as a finite map from names to objects, also after any sequence of informer
  events (\<open>run_events\<close> against \<open>abs_events\<close>).
\<close>

fun set_named :: "('o \<Rightarrow> string) \<Rightarrow> 'o \<Rightarrow> 'o list \<Rightarrow> 'o list" where
  "set_named nm d [] = [d]"
| "set_named nm d (x # xs) = (if nm x = nm d then d # xs else x # set_named nm d xs)"

fun del_named :: "('o \<Rightarrow> string) \<Rightarrow> string \<Rightarrow> 'o list \<Rightarrow> 'o list" where
  "del_named nm k [] = []"
| "del_named nm k (x # xs) = (if nm x = k then xs else x # del_named nm k xs)"

definition find_named :: "('o \<Rightarrow> string) \<Rightarrow> string \<Rightarrow> 'o list \<Rightarrow> 'o option" where
  "find_named nm k xs = find (\<lambda>x. nm x = k) xs"

abbreviation names_distinct :: "('o \<Rightarrow> string) \<Rightarrow> 'o list \<Rightarrow> bool" where
  "names_distinct nm xs \<equiv> distinct (map nm xs)"

datatype 'o informer_event = Upsert 'o | Remove 'o

fun run_events ::
  "('o \<Rightarrow> 's \<Rightarrow> 's) \<Rightarrow> ('o \<Rightarrow> 's \<Rightarrow> 's) \<Rightarrow> 'o informer_event list \<Rightarrow> 's \<Rightarrow> 's" where
  "run_events put del [] s = s"
| "run_events put del (Upsert x # es) s = run_events put del es (put x s)"
| "run_events put del (Remove x # es) s = run_events put del es (del x s)"

text \<open>The abstract object: a finite map from names to the object last seen under that name.\<close>

fun abs_events ::
  "('o \<Rightarrow> string) \<Rightarrow> 'o informer_event list \<Rightarrow> (string \<rightharpoonup> 'o) \<Rightarrow> (string \<rightharpoonup> 'o)" where
  "abs_events nm [] m = m"
| "abs_events nm (Upsert x # es) m = abs_events nm es (m(nm x \<mapsto> x))"
| "abs_events nm (Remove x # es) m = abs_events nm es (m(nm x := None))"

section \<open>The two loops\<close>

lemma find_named_Nil [simp]: "find_named nm k [] = None"
  by (simp add: find_named_def)

lemma find_named_Cons [simp]:
  "find_named nm k (x # xs) = (if nm x = k then Some x else find_named nm k xs)"
  by (simp add: find_named_def)

lemma find_named_None: "find_named nm k xs = None \<longleftrightarrow> k \<notin> nm ` set xs"
  by (induction xs) auto

lemma find_named_Some: "find_named nm k xs = Some x \<Longrightarrow> x \<in> set xs \<and> nm x = k"
  by (induction xs) (auto split: if_splits)

lemma find_named_mem: "names_distinct nm xs \<Longrightarrow> x \<in> set xs \<Longrightarrow> find_named nm (nm x) xs = Some x"
  by (induction xs) (auto simp: image_iff)

lemma find_set_named: "find_named nm k (set_named nm d xs) = ((\<lambda>k. find_named nm k xs)(nm d \<mapsto> d)) k"
  by (induction xs) auto

lemma names_set_named: "nm ` set (set_named nm d xs) = insert (nm d) (nm ` set xs)"
  by (induction xs) auto

lemma distinct_set_named: "names_distinct nm xs \<Longrightarrow> names_distinct nm (set_named nm d xs)"
proof (induction xs)
  case (Cons x xs)
  then show ?case using names_set_named [of nm d xs] by (auto simp: image_iff)
qed simp

lemma length_set_named:
  "length (set_named nm d xs) = (if nm d \<in> nm ` set xs then length xs else Suc (length xs))"
  by (induction xs) auto

lemma set_named_fresh: "nm d \<notin> nm ` set xs \<Longrightarrow> set_named nm d xs = xs @ [d]"
  by (induction xs) auto

lemma set_del_named_subset: "set (del_named nm k xs) \<subseteq> set xs"
  by (induction xs) auto

lemma distinct_del_named: "names_distinct nm xs \<Longrightarrow> names_distinct nm (del_named nm k xs)"
proof (induction xs)
  case (Cons x xs)
  then show ?case using set_del_named_subset [of nm k xs] by auto
qed simp

lemma find_del_named:
  "names_distinct nm xs \<Longrightarrow>
     find_named nm j (del_named nm k xs) = ((\<lambda>k. find_named nm k xs)(k := None)) j"
proof (induction xs)
  case (Cons x xs)
  have "find_named nm (nm x) xs = None"
    using Cons.prems by (simp add: find_named_None)
  with Cons show ?case by auto
qed simp

lemma del_named_filter: "names_distinct nm xs \<Longrightarrow> del_named nm k xs = filter (\<lambda>x. nm x \<noteq> k) xs"
proof (induction xs)
  case (Cons x xs)
  then have "filter (\<lambda>y. nm y \<noteq> nm x) xs = xs"
    by (intro filter_True) (auto simp: image_iff)
  with Cons show ?case by auto
qed simp

lemma del_set_named_fresh: "nm d \<notin> nm ` set xs \<Longrightarrow> del_named nm (nm d) (set_named nm d xs) = xs"
  by (induction xs) auto

lemmas named_list_simps = find_set_named find_del_named distinct_set_named distinct_del_named

section \<open>The contract\<close>

locale named_store =
  fixes lookup :: "'s \<Rightarrow> string \<Rightarrow> 'o option"
    and nm :: "'o \<Rightarrow> string"
    and put :: "'o \<Rightarrow> 's \<Rightarrow> 's"
    and del :: "'o \<Rightarrow> 's \<Rightarrow> 's"
    and inv :: "'s \<Rightarrow> bool"
  assumes lookup_put: "inv s \<Longrightarrow> lookup (put x s) = (lookup s)(nm x \<mapsto> x)"
    and lookup_del: "inv s \<Longrightarrow> lookup (del x s) = (lookup s)(nm x := None)"
    and inv_put: "inv s \<Longrightarrow> inv (put x s)"
    and inv_del: "inv s \<Longrightarrow> inv (del x s)"
begin

lemma run_inv: "inv s \<Longrightarrow> inv (run_events put del es s)"
proof (induction es arbitrary: s)
  case (Cons e es)
  then show ?case by (cases e) (simp_all add: inv_put inv_del)
qed simp

text \<open>Any sequence of events refines the same sequence on the abstract map.\<close>

lemma run_refines: "inv s \<Longrightarrow> lookup (run_events put del es s) = abs_events nm es (lookup s)"
proof (induction es arbitrary: s)
  case (Cons e es)
  then show ?case
    by (cases e) (simp_all add: inv_put inv_del lookup_put lookup_del fun_upd_def)
qed simp

lemma put_commutes:
  "inv s \<Longrightarrow> nm x \<noteq> nm y \<Longrightarrow> lookup (put x (put y s)) = lookup (put y (put x s))"
  by (simp add: inv_put lookup_put fun_upd_twist)

lemma put_overwrites: "inv s \<Longrightarrow> nm x = nm y \<Longrightarrow> lookup (put x (put y s)) = lookup (put x s)"
  by (simp add: inv_put lookup_put)

lemma put_del: "inv s \<Longrightarrow> lookup (del x (put x s)) = (lookup s)(nm x := None)"
  by (simp add: inv_put lookup_put lookup_del)

end

text \<open>
  The last event about a name decides what is stored under it: the abstract map has a closed
  form, independent of everything that happened to other names.
\<close>

fun last_event :: "('o \<Rightarrow> string) \<Rightarrow> string \<Rightarrow> 'o informer_event list \<Rightarrow> 'o option \<Rightarrow> 'o option" where
  "last_event nm k [] d = d"
| "last_event nm k (Upsert x # es) d = last_event nm k es (if nm x = k then Some x else d)"
| "last_event nm k (Remove x # es) d = last_event nm k es (if nm x = k then None else d)"

lemma abs_events_last: "abs_events nm es m k = last_event nm k es (m k)"
proof (induction es arbitrary: m)
  case (Cons e es)
  then show ?case by (cases e) auto
qed simp

text \<open>A store that is a list field of a record satisfies the contract.\<close>

locale list_field =
  fixes fld :: "'s \<Rightarrow> 'o list"
    and nm :: "'o \<Rightarrow> string"
    and put :: "'o \<Rightarrow> 's \<Rightarrow> 's"
    and del :: "'o \<Rightarrow> 's \<Rightarrow> 's"
  assumes fld_put: "fld (put x s) = set_named nm x (fld s)"
    and fld_del: "fld (del x s) = del_named nm (nm x) (fld s)"
begin

lemma field_named_store:
  "named_store (\<lambda>s k. find_named nm k (fld s)) nm put del (\<lambda>s. names_distinct nm (fld s))"
  by unfold_locales
    (simp_all add: fld_put fld_del named_list_simps fun_eq_iff)

end

sublocale list_field \<subseteq> st: named_store "\<lambda>s k. find_named nm k (fld s)" nm put del
    "\<lambda>s. names_distinct nm (fld s)"
  by (rule field_named_store)

end
