(* ===== verification/Kube_Objects.thy ===== *)
theory Kube_Objects
  imports Named_Store
begin

text \<open>
  The Kubernetes objects the sources read, with the fields they read. The types come from the
  Kubernetes client libraries; only their fields are data here. Resource quantities appear as the
  integers the library's accessors return: \<^verbatim>\<open>Memory().Value()\<close> in bytes and
  \<^verbatim>\<open>Cpu().MilliValue()\<close> in thousandths of a core. Times are integers ordered like
  \<^verbatim>\<open>metav1.Time\<close>.
\<close>

record object_meta =
  Name :: string
  Namespace :: string
  Labels :: "string gomap"
  Annotations :: "string gomap"
  CreationTimestamp :: int
  DeletionTimestamp :: "int option"
  ResourceVersion :: string

text \<open>A probe of a container is its initial delay in seconds.\<close>

record container =
  c_name :: string
  c_image :: string
  req_memory :: int
  req_cpu :: int
  lim_memory :: int
  lim_cpu :: int
  c_readiness :: "int option"
  c_liveness :: "int option"

record pod_template =
  t_labels :: "string gomap"
  Containers :: "container list"
  InitContainers :: "container list"

text \<open>Workloads carry their address: a record can hold the same object under two fields.\<close>

record deployment =
  d_addr :: nat
  d_kind :: string
  d_meta :: object_meta
  d_replicas :: "int option"
  d_template :: pod_template
  d_ready :: int

record statefulset =
  s_addr :: nat
  s_kind :: string
  s_meta :: object_meta
  s_replicas :: "int option"
  s_template :: pod_template
  s_ready :: int
  s_update_revision :: string

record replicaset =
  rs_meta :: object_meta
  rs_replicas :: int
  rs_ready :: int
  rs_available :: int

datatype pod_phase = PodPending | PodRunning | PodSucceeded | PodFailed | PodUnknown | PodOtherPhase

text \<open>A container status: the image, the exit code when the current state is terminated,
  whether the last state was a termination, whether it is ready, and the reason it waits for.\<close>

record container_status =
  cs_image :: string
  cs_terminated :: "int option"
  cs_last_terminated :: "int option"
  cs_ready :: bool
  cs_waiting :: "string option"

record pod_condition =
  cond_type :: string
  cond_status :: string

record pod =
  p_meta :: object_meta
  p_phase :: pod_phase
  p_reason :: string
  p_conditions :: "pod_condition list"
  p_containers :: "container list"
  p_node :: string
  ContainerStatuses :: "container_status list"
  InitContainerStatuses :: "container_status list"

record ep_subset =
  Addresses :: "string list"
  Ports :: "int list"

record endpoints_obj =
  e_meta :: object_meta
  Subsets :: "ep_subset list"

text \<open>Objects of which only the metadata is used.\<close>

record named_obj =
  o_meta :: object_meta
  o_data :: string

datatype component_phase = ComponentPending | ComponentRunning | ComponentFailed | ComponentNoPhase

record third_component =
  third_phase :: component_phase

text \<open>The resources of the API server, by the kind of their objects; \<open>OtherK\<close> are those the sources have no client for.\<close>

datatype api_kind = NamespaceK | ConfigMapK | ClaimK | StatefulSetK | DeploymentK | ServiceK | SecretK
  | IngressK | BetaIngressK | HpaK | MonitorK | PodK | EndpointsK | OtherK string

type_synonym api_key = "api_kind \<times> string \<times> string"

text \<open>An unstructured object of a component definition, which can be of every kind.\<close>

record manifest =
  mf_kind :: api_kind
  mf_obj :: named_obj

text \<open>
  \<^verbatim>\<open>client.Object\<close>: the kind of its type metadata and the concrete object behind the
  interface. An unstructured object holds its JSON document.
\<close>

datatype workload_obj =
  WDeployment deployment
| WStatefulSet statefulset
| WThird object_meta third_component
| WUnstructured api_kind object_meta string
| WOther api_kind object_meta

record workload =
  w_kind :: string
  w_obj :: workload_obj

text \<open>\<^verbatim>\<open>t.Before(&u)\<close> on timestamps that are present.\<close>

abbreviation time_before :: "int \<Rightarrow> int \<Rightarrow> bool" where
  "time_before t u \<equiv> t < u"

abbreviation obj_name :: "named_obj \<Rightarrow> string" where
  "obj_name x \<equiv> Name (o_meta x)"

abbreviation pod_name :: "pod \<Rightarrow> string" where
  "pod_name p \<equiv> Name (p_meta p)"

abbreviation rs_name :: "replicaset \<Rightarrow> string" where
  "rs_name r \<equiv> Name (rs_meta r)"

abbreviation ep_name :: "endpoints_obj \<Rightarrow> string" where
  "ep_name e \<equiv> Name (e_meta e)"

end
