(* ===== verification/App_Service.thy ===== *)
theory App_Service
  imports Kube_Objects
begin

text \<open>
  The application service of the worker (\<^verbatim>\<open>src/worker/appm/types/v1/v1.go\<close>): the
  in-memory record of one component and of the Kubernetes objects that belong to it, with the
  operations the informer callbacks and the conversion code use to fill it.

  Slices are lists. The copies that \<^verbatim>\<open>GetX(true)\<close> makes are equal lists, and a slice that was
  never assigned is the empty list. Objects are values: the operations here store the pointers
  they are given and read through them. \<^verbatim>\<open>SetPodTemplate\<close> writes through the
  pointers in \<open>statefulset\<close> and \<open>deployment\<close>; the write is also seen through
  \<open>workload\<close> when it holds the same object (\<open>write_deployment\<close>, \<open>write_statefulset\<close>).
\<close>

section \<open>State\<close>

record discovery_cfg =
  dc_service_id :: string
  dc_type :: string
  dc_servers :: string
  dc_key :: string
  dc_username :: string
  dc_password :: string

record app_service_base =
  TenantEnvID :: string
  TenantEnvName :: string
  AppID :: string
  ServiceID :: string
  ServiceAlias :: string
  ServiceType :: string
  ServiceKind :: string
  discoveryCfg :: "discovery_cfg option"
  DeployVersion :: string
  ContainerRequestCPU :: int
  ContainerCPU :: int
  ContainerRequestMemory :: int
  ContainerMemory :: int
  ContainerGPUType :: string
  ContainerGPU :: int
  UpgradeMethod :: string
  Replicas :: int
  NeedProxy :: bool
  IsWindowsService :: bool
  CreaterID :: string
  Dependces :: "string list"
  ExtensionSet :: "string gomap option"
  GovernanceMode :: string
  K8sApp :: string
  K8sComponentName :: string

record storage_class =
  sc_meta :: object_meta
  sc_provisioner :: string
  sc_binding_mode :: string
  sc_reclaim_policy :: string

record app_service = app_service_base +
  tenantEnv :: "named_obj option"
  statefulset :: "statefulset option"
  deployment :: "deployment option"
  workload :: "workload option"
  hpas :: "named_obj list"
  delHPAs :: "named_obj list"
  replicasets :: "replicaset list"
  services :: "named_obj list"
  delServices :: "named_obj list"
  endpoints :: "endpoints_obj list"
  configMaps :: "named_obj list"
  ingresses :: "named_obj list"
  delIngs :: "named_obj list"
  betaIngresses :: "named_obj list"
  delBetaIngresses :: "named_obj list"
  secrets :: "named_obj list"
  delSecrets :: "named_obj list"
  pods :: "pod list"
  claims :: "named_obj list"
  serviceMonitor :: "named_obj list"
  claimsmanual :: "named_obj list"
  podMemoryRequest :: int
  podCPURequest :: int
  BootSeqContainer :: "container option"
  storageClasses :: "storage_class list"
  UpgradePatch :: "string gomap"
  CustomParams :: "string gomap"
  envVarSecrets :: "named_obj list"
  manifests :: "manifest list"

abbreviation sc_name :: "storage_class \<Rightarrow> string" where
  "sc_name s \<equiv> Name (sc_meta s)"

text \<open>The zero values of the structs.\<close>

definition zero_meta :: object_meta where
  "zero_meta = \<lparr>Name = [], Namespace = [], Labels = [], Annotations = [], CreationTimestamp = 0,
     DeletionTimestamp = None, ResourceVersion = []\<rparr>"

definition zero_app :: app_service where
  "zero_app = \<lparr>TenantEnvID = [], TenantEnvName = [], AppID = [], ServiceID = [], ServiceAlias = [],
     ServiceType = [], ServiceKind = [], discoveryCfg = None, DeployVersion = [],
     ContainerRequestCPU = 0, ContainerCPU = 0, ContainerRequestMemory = 0, ContainerMemory = 0,
     ContainerGPUType = [], ContainerGPU = 0, UpgradeMethod = [], Replicas = 0, NeedProxy = False,
     IsWindowsService = False, CreaterID = [], Dependces = [], ExtensionSet = None,
     GovernanceMode = [], K8sApp = [], K8sComponentName = [], tenantEnv = None, statefulset = None,
     deployment = None, workload = None, hpas = [], delHPAs = [], replicasets = [], services = [],
     delServices = [], endpoints = [], configMaps = [], ingresses = [], delIngs = [],
     betaIngresses = [], delBetaIngresses = [], secrets = [], delSecrets = [], pods = [],
     claims = [], serviceMonitor = [], claimsmanual = [], podMemoryRequest = 0, podCPURequest = 0,
     BootSeqContainer = None, storageClasses = [], UpgradePatch = [], CustomParams = [],
     envVarSecrets = [], manifests = []\<rparr>"

section \<open>Kinds of components\<close>

definition ServiceKindThirdParty :: string where
  "ServiceKindThirdParty = ''third_party''"

definition ServiceKindInternal :: string where
  "ServiceKindInternal = ''internal''"

definition ServiceKindCustom :: string where
  "ServiceKindCustom = ''custom.componentdefinition.''"

definition GetComponentDefinitionName :: "('a) app_service_base_scheme \<Rightarrow> string" where
  "GetComponentDefinitionName a =
     (if prefix ServiceKindCustom (ServiceKind a)
      then replace_first ServiceKindCustom [] (ServiceKind a)
      else if ServiceKind a = ServiceKindThirdParty then ''core-thirdcomponent''
      else [])"

definition IsCustomComponent :: "('a) app_service_base_scheme \<Rightarrow> bool" where
  "IsCustomComponent a =
     (if prefix ServiceKindCustom (ServiceKind a) then True
      else if ServiceKind a = ServiceKindThirdParty then True
      else False)"

definition IsThirdComponent :: "('a) app_service_base_scheme \<Rightarrow> bool" where
  "IsThirdComponent a \<longleftrightarrow> ServiceKind a = ServiceKindThirdParty"

definition SetDiscoveryCfg :: "discovery_cfg option \<Rightarrow> app_service \<Rightarrow> app_service" where
  "SetDiscoveryCfg c a = a\<lparr>discoveryCfg := c\<rparr>"

definition GetK8sWorkloadName :: "('a) app_service_base_scheme \<Rightarrow> string" where
  "GetK8sWorkloadName a = K8sApp a @ ''-'' @ K8sComponentName a"

section \<open>Workload and resource accounting\<close>

text \<open>The loops of \<^verbatim>\<open>calculateComponentMemoryRequest\<close> over the containers of one template.\<close>

definition add_memory :: "int \<Rightarrow> container list \<Rightarrow> int" where
  "add_memory m cs = foldl (\<lambda>acc c. wrap64 (acc + go_div (go_div (req_memory c) 1024) 1024)) m cs"

definition add_cpu :: "int \<Rightarrow> container list \<Rightarrow> int" where
  "add_cpu m cs = foldl (\<lambda>acc c. wrap64 (acc + req_cpu c)) m cs"

definition calculateComponentMemoryRequest :: "app_service \<Rightarrow> app_service" where
  "calculateComponentMemoryRequest a =
     (let m0 = 0; c0 = 0;
          m1 = (case statefulset a of None \<Rightarrow> m0 | Some s \<Rightarrow> add_memory m0 (Containers (s_template s)));
          c1 = (case statefulset a of None \<Rightarrow> c0 | Some s \<Rightarrow> add_cpu c0 (Containers (s_template s)));
          m2 = (case deployment a of None \<Rightarrow> m1 | Some d \<Rightarrow> add_memory m1 (Containers (d_template d)));
          c2 = (case deployment a of None \<Rightarrow> c1 | Some d \<Rightarrow> add_cpu c1 (Containers (d_template d)))
      in a\<lparr>podMemoryRequest := m2, podCPURequest := c2\<rparr>)"

text \<open>The version label of a template overrides the deploy version when it is not empty.\<close>

definition version_from :: "string gomap \<Rightarrow> app_service \<Rightarrow> app_service" where
  "version_from ls a =
     (case map_of ls ''version'' of
        Some v \<Rightarrow> if v \<noteq> [] then a\<lparr>DeployVersion := v\<rparr> else a
      | None \<Rightarrow> a)"

definition GetDeployment :: "app_service \<Rightarrow> deployment option" where
  "GetDeployment a = deployment a"

definition SetDeployment :: "deployment \<Rightarrow> app_service \<Rightarrow> app_service go" where
  "SetDeployment d a =
     (let a1 = a\<lparr>deployment := Some d,
                 workload := Some \<lparr>w_kind = d_kind d, w_obj = WDeployment d\<rparr>\<rparr>;
          a2 = version_from (t_labels (d_template d)) a1
      in bind_go (deref (d_replicas d))
           (\<lambda>r. Inr (calculateComponentMemoryRequest (a2\<lparr>Replicas := r\<rparr>))))"

definition DeleteDeployment :: "deployment \<Rightarrow> app_service \<Rightarrow> app_service" where
  "DeleteDeployment d a = a\<lparr>deployment := None\<rparr>"

definition GetStatefulSet :: "app_service \<Rightarrow> statefulset option" where
  "GetStatefulSet a = statefulset a"

definition SetStatefulSet :: "statefulset \<Rightarrow> app_service \<Rightarrow> app_service go" where
  "SetStatefulSet d a =
     (let a1 = a\<lparr>statefulset := Some d,
                 workload := Some \<lparr>w_kind = s_kind d, w_obj = WStatefulSet d\<rparr>\<rparr>;
          a2 = version_from (t_labels (s_template d)) a1
      in bind_go (deref (s_replicas d))
           (\<lambda>r. Inr (calculateComponentMemoryRequest (a2\<lparr>Replicas := r\<rparr>))))"

definition DeleteStatefulSet :: "statefulset \<Rightarrow> app_service \<Rightarrow> app_service" where
  "DeleteStatefulSet d a = a\<lparr>statefulset := None\<rparr>"

text \<open>Writing an object through its pointer changes it under every field that holds it.\<close>

definition write_deployment :: "deployment \<Rightarrow> app_service \<Rightarrow> app_service" where
  "write_deployment d a =
     (let a1 = a\<lparr>deployment := Some d\<rparr>
      in case workload a of
           Some w \<Rightarrow> (case w_obj w of
             WDeployment d' \<Rightarrow>
               if d_addr d' = d_addr d then a1\<lparr>workload := Some (w\<lparr>w_obj := WDeployment d\<rparr>)\<rparr> else a1
           | _ \<Rightarrow> a1)
         | None \<Rightarrow> a1)"

definition write_statefulset :: "statefulset \<Rightarrow> app_service \<Rightarrow> app_service" where
  "write_statefulset d a =
     (let a1 = a\<lparr>statefulset := Some d\<rparr>
      in case workload a of
           Some w \<Rightarrow> (case w_obj w of
             WStatefulSet d' \<Rightarrow>
               if s_addr d' = s_addr d then a1\<lparr>workload := Some (w\<lparr>w_obj := WStatefulSet d\<rparr>)\<rparr> else a1
           | _ \<Rightarrow> a1)
         | None \<Rightarrow> a1)"

definition SetPodTemplate :: "pod_template \<Rightarrow> app_service \<Rightarrow> app_service" where
  "SetPodTemplate d a =
     (let a1 = (case statefulset a of None \<Rightarrow> a
                | Some s \<Rightarrow> write_statefulset (s\<lparr>s_template := d\<rparr>) a);
          a2 = (case deployment a1 of None \<Rightarrow> a1
                | Some x \<Rightarrow> write_deployment (x\<lparr>d_template := d\<rparr>) a1)
      in calculateComponentMemoryRequest a2)"

definition GetPodTemplate :: "app_service \<Rightarrow> pod_template option" where
  "GetPodTemplate a =
     (case statefulset a of Some s \<Rightarrow> Some (s_template s)
      | None \<Rightarrow> (case deployment a of Some d \<Rightarrow> Some (d_template d) | None \<Rightarrow> None))"

definition SetWorkload :: "workload option \<Rightarrow> app_service \<Rightarrow> app_service" where
  "SetWorkload w a = a\<lparr>workload := w\<rparr>"

definition GetWorkload :: "app_service \<Rightarrow> workload option" where
  "GetWorkload a = workload a"

definition DeleteWorkload :: "workload option \<Rightarrow> app_service \<Rightarrow> app_service" where
  "DeleteWorkload w a = a\<lparr>workload := None\<rparr>"

section \<open>Objects kept by name\<close>

definition SetReplicaSets :: "replicaset \<Rightarrow> app_service \<Rightarrow> app_service" where
  "SetReplicaSets d a = a\<lparr>replicasets := set_named rs_name d (replicasets a)\<rparr>"

definition DeleteReplicaSet :: "replicaset \<Rightarrow> app_service \<Rightarrow> app_service" where
  "DeleteReplicaSet d a = a\<lparr>replicasets := del_named rs_name (rs_name d) (replicasets a)\<rparr>"

definition GetReplicaSets :: "app_service \<Rightarrow> replicaset list" where
  "GetReplicaSets a = replicasets a"

definition SetConfigMap :: "named_obj \<Rightarrow> app_service \<Rightarrow> app_service" where
  "SetConfigMap d a = a\<lparr>configMaps := set_named obj_name d (configMaps a)\<rparr>"

definition GetConfigMaps :: "app_service \<Rightarrow> named_obj list" where
  "GetConfigMaps a = (if 0 < length (configMaps a) then configMaps a else [])"

definition DeleteConfigMaps :: "named_obj \<Rightarrow> app_service \<Rightarrow> app_service" where
  "DeleteConfigMaps d a = a\<lparr>configMaps := del_named obj_name (obj_name d) (configMaps a)\<rparr>"

definition SetService :: "named_obj \<Rightarrow> app_service \<Rightarrow> app_service" where
  "SetService d a = a\<lparr>services := set_named obj_name d (services a)\<rparr>"

definition SetServices :: "named_obj list \<Rightarrow> app_service \<Rightarrow> app_service" where
  "SetServices svcs a = a\<lparr>services := svcs\<rparr>"

definition GetServices :: "bool \<Rightarrow> app_service \<Rightarrow> named_obj list" where
  "GetServices canCopy a = (if canCopy then take 0 (services a) @ services a else services a)"

definition GetDelServices :: "app_service \<Rightarrow> named_obj list" where
  "GetDelServices a = delServices a"

definition DeleteServices :: "named_obj \<Rightarrow> app_service \<Rightarrow> app_service" where
  "DeleteServices d a = a\<lparr>services := del_named obj_name (obj_name d) (services a)\<rparr>"

definition AddEndpoints :: "endpoints_obj \<Rightarrow> app_service \<Rightarrow> app_service" where
  "AddEndpoints d a = a\<lparr>endpoints := set_named ep_name d (endpoints a)\<rparr>"

definition GetEndpoints :: "bool \<Rightarrow> app_service \<Rightarrow> endpoints_obj list" where
  "GetEndpoints canCopy a = (if canCopy then take 0 (endpoints a) @ endpoints a else endpoints a)"

definition GetEndpointsByName :: "string \<Rightarrow> app_service \<Rightarrow> endpoints_obj option" where
  "GetEndpointsByName n a = find_named ep_name n (endpoints a)"

definition DelEndpoints :: "endpoints_obj \<Rightarrow> app_service \<Rightarrow> app_service" where
  "DelEndpoints d a = a\<lparr>endpoints := del_named ep_name (ep_name d) (endpoints a)\<rparr>"

definition SetSecret :: "named_obj option \<Rightarrow> app_service \<Rightarrow> app_service" where
  "SetSecret d a = (case d of None \<Rightarrow> a
     | Some d \<Rightarrow> a\<lparr>secrets := set_named obj_name d (secrets a)\<rparr>)"

definition SetSecrets :: "named_obj list \<Rightarrow> app_service \<Rightarrow> app_service" where
  "SetSecrets s a = a\<lparr>secrets := s\<rparr>"

definition SetAllSecrets :: "named_obj list \<Rightarrow> app_service \<Rightarrow> app_service" where
  "SetAllSecrets s a = a\<lparr>secrets := s\<rparr>"

definition DeleteSecrets :: "named_obj \<Rightarrow> app_service \<Rightarrow> app_service" where
  "DeleteSecrets d a = a\<lparr>secrets := del_named obj_name (obj_name d) (secrets a)\<rparr>"

definition GetSecrets :: "bool \<Rightarrow> app_service \<Rightarrow> named_obj list" where
  "GetSecrets canCopy a = (if canCopy then take 0 (secrets a) @ secrets a else secrets a)"

definition GetDelSecrets :: "app_service \<Rightarrow> named_obj list" where
  "GetDelSecrets a = delSecrets a"

definition SetEnvVarSecrets :: "named_obj list \<Rightarrow> app_service \<Rightarrow> app_service" where
  "SetEnvVarSecrets s a = a\<lparr>envVarSecrets := s\<rparr>"

definition GetEnvVarSecrets :: "bool \<Rightarrow> app_service \<Rightarrow> named_obj list" where
  "GetEnvVarSecrets canCopy a =
     (if canCopy then take 0 (envVarSecrets a) @ envVarSecrets a else envVarSecrets a)"

definition SetPods :: "pod \<Rightarrow> app_service \<Rightarrow> app_service" where
  "SetPods d a = a\<lparr>pods := set_named pod_name d (pods a)\<rparr>"

definition DeletePods :: "pod \<Rightarrow> app_service \<Rightarrow> app_service" where
  "DeletePods d a = a\<lparr>pods := del_named pod_name (pod_name d) (pods a)\<rparr>"

definition GetPods :: "bool \<Rightarrow> app_service \<Rightarrow> pod list" where
  "GetPods canCopy a = (if canCopy then take 0 (pods a) @ pods a else pods a)"

definition GetPodsByName :: "string \<Rightarrow> app_service \<Rightarrow> pod option" where
  "GetPodsByName n a = find_named pod_name n (pods a)"

definition SetHPAs :: "named_obj list \<Rightarrow> app_service \<Rightarrow> app_service" where
  "SetHPAs hs a = a\<lparr>hpas := hs\<rparr>"

definition SetHPA :: "named_obj \<Rightarrow> app_service \<Rightarrow> app_service" where
  "SetHPA d a = a\<lparr>hpas := set_named obj_name d (hpas a)\<rparr>"

definition GetHPAs :: "app_service \<Rightarrow> named_obj list" where
  "GetHPAs a = hpas a"

definition GetDelHPAs :: "app_service \<Rightarrow> named_obj list" where
  "GetDelHPAs a = delHPAs a"

definition DelHPA :: "named_obj \<Rightarrow> app_service \<Rightarrow> app_service" where
  "DelHPA d a =
     (if length (hpas a) = 0 then a
      else a\<lparr>hpas := del_named obj_name (obj_name d) (hpas a)\<rparr>)"

definition SetServiceMonitor :: "named_obj \<Rightarrow> app_service \<Rightarrow> app_service" where
  "SetServiceMonitor d a = a\<lparr>serviceMonitor := set_named obj_name d (serviceMonitor a)\<rparr>"

definition DeleteServiceMonitor :: "named_obj \<Rightarrow> app_service \<Rightarrow> app_service" where
  "DeleteServiceMonitor d a =
     (if length (serviceMonitor a) = 0 then a
      else a\<lparr>serviceMonitor := del_named obj_name (obj_name d) (serviceMonitor a)\<rparr>)"

definition GetServiceMonitors :: "bool \<Rightarrow> app_service \<Rightarrow> named_obj list" where
  "GetServiceMonitors canCopy a =
     (if canCopy then take 0 (serviceMonitor a) @ serviceMonitor a else serviceMonitor a)"

subsection \<open>Ingresses\<close>

text \<open>The dynamic type behind \<^verbatim>\<open>interface{}\<close>.\<close>

datatype any_ingress = NetIngress named_obj | BetaIngress named_obj | NotIngress

text \<open>The loop of \<^verbatim>\<open>SetIngress\<close>: the entry of the same name is assigned to itself.\<close>

fun set_ingress_loop :: "named_obj \<Rightarrow> named_obj list \<Rightarrow> named_obj list" where
  "set_ingress_loop d [] = [d]"
| "set_ingress_loop d (x # xs) =
     (if obj_name x = obj_name d then x # xs else x # set_ingress_loop d xs)"

definition SetIngress :: "any_ingress \<Rightarrow> app_service \<Rightarrow> app_service" where
  "SetIngress i a = (case i of
       NetIngress d \<Rightarrow> a\<lparr>ingresses := set_ingress_loop d (ingresses a)\<rparr>
     | BetaIngress d \<Rightarrow> a\<lparr>betaIngresses := set_ingress_loop d (betaIngresses a)\<rparr>
     | NotIngress \<Rightarrow> a)"

definition SetIngresses :: "named_obj list \<Rightarrow> app_service \<Rightarrow> app_service" where
  "SetIngresses i a = a\<lparr>ingresses := i\<rparr>"

definition DeleteIngress :: "named_obj \<Rightarrow> app_service \<Rightarrow> app_service" where
  "DeleteIngress d a = a\<lparr>ingresses := del_named obj_name (obj_name d) (ingresses a)\<rparr>"

definition DeleteBetaIngress :: "named_obj \<Rightarrow> app_service \<Rightarrow> app_service" where
  "DeleteBetaIngress d a = a\<lparr>betaIngresses := del_named obj_name (obj_name d) (betaIngresses a)\<rparr>"

text \<open>
  \<open>high\<close> is \<^verbatim>\<open>k8s.IsHighVersion()\<close>, the version of the cluster; a nil slice is \<open>None\<close>.
\<close>

definition GetIngress ::
  "bool \<Rightarrow> bool \<Rightarrow> app_service \<Rightarrow> named_obj list option \<times> named_obj list option" where
  "GetIngress high canCopy a =
     (if high then (if canCopy then (Some (take (length (ingresses a)) (ingresses a)), None)
                    else (Some (ingresses a), None))
      else if canCopy then (None, Some (take (length (betaIngresses a)) (betaIngresses a)))
      else (None, Some (betaIngresses a)))"

definition GetDelIngs :: "app_service \<Rightarrow> named_obj list \<times> named_obj list" where
  "GetDelIngs a = (delIngs a, delBetaIngresses a)"

subsection \<open>Volume claims and storage classes\<close>

definition SetTenantEnv :: "named_obj option \<Rightarrow> app_service \<Rightarrow> app_service" where
  "SetTenantEnv d a = a\<lparr>tenantEnv := d\<rparr>"

definition GetTenantEnv :: "app_service \<Rightarrow> named_obj option" where
  "GetTenantEnv a = tenantEnv a"

definition GetNamespace :: "app_service \<Rightarrow> string go" where
  "GetNamespace a = bind_go (deref (tenantEnv a)) (\<lambda>t. Inr (obj_name t))"

definition in_namespace :: "string \<Rightarrow> named_obj \<Rightarrow> named_obj" where
  "in_namespace ns c = c\<lparr>o_meta := (o_meta c)\<lparr>Namespace := ns\<rparr>\<rparr>"

definition GetClaims :: "app_service \<Rightarrow> named_obj list" where
  "GetClaims a = claims a"

definition GetClaimsManually :: "app_service \<Rightarrow> named_obj list" where
  "GetClaimsManually a = claimsmanual a"

definition SetClaim :: "named_obj \<Rightarrow> app_service \<Rightarrow> app_service go" where
  "SetClaim c a = bind_go (GetNamespace a)
     (\<lambda>ns. Inr (a\<lparr>claims := set_named obj_name (in_namespace ns c) (claims a)\<rparr>))"

definition SetClaimManually :: "named_obj \<Rightarrow> app_service \<Rightarrow> app_service go" where
  "SetClaimManually c a = bind_go (GetNamespace a)
     (\<lambda>ns. Inr (a\<lparr>claimsmanual := set_named obj_name (in_namespace ns c) (claimsmanual a)\<rparr>))"

definition DeleteClaim :: "named_obj \<Rightarrow> app_service \<Rightarrow> app_service" where
  "DeleteClaim c a =
     (if length (claims a) = 0 then a
      else a\<lparr>claims := del_named obj_name (obj_name c) (claims a)\<rparr>)"

text \<open>The loop of \<^verbatim>\<open>SetStorageClass\<close> does not return after a replacement.\<close>

definition SetStorageClass :: "storage_class \<Rightarrow> app_service \<Rightarrow> app_service" where
  "SetStorageClass sc a =
     a\<lparr>storageClasses :=
        map (\<lambda>old. if sc_name old = sc_name sc then sc else old) (storageClasses a) @ [sc]\<rparr>"

definition DeleteStorageClass :: "storage_class \<Rightarrow> app_service \<Rightarrow> app_service" where
  "DeleteStorageClass sc a =
     (if length (storageClasses a) = 0 then a
      else a\<lparr>storageClasses := del_named sc_name (sc_name sc) (storageClasses a)\<rparr>)"

definition mk_storage_class :: "string \<Rightarrow> string \<Rightarrow> string \<Rightarrow> storage_class" where
  "mk_storage_class n prov mode =
     \<lparr>sc_meta = zero_meta\<lparr>Name := n\<rparr>,
      sc_provisioner = prov, sc_binding_mode = mode, sc_reclaim_policy = ''Retain''\<rparr>"

text \<open>\<open>allinone\<close> is whether the environment variable \<^verbatim>\<open>ALLINONE_MODE\<close> is \<^verbatim>\<open>true\<close>.\<close>

definition GetInitStorageClass :: "bool \<Rightarrow> storage_class list" where
  "GetInitStorageClass allinone =
     (if allinone
      then [mk_storage_class ''wutongsssc'' ''rancher.io/local-path'' ''WaitForFirstConsumer'',
            mk_storage_class ''wutongslsc'' ''rancher.io/local-path'' ''WaitForFirstConsumer'']
      else [mk_storage_class ''wutongsssc'' ''wutong.io/provisioner-sssc'' ''Immediate'',
            mk_storage_class ''wutongslsc'' ''wutong.io/provisioner-sslc'' ''WaitForFirstConsumer''])"

subsection \<open>Objects to delete\<close>

text \<open>The inner loop: is no new object called like \<open>o\<close>?\<close>

definition not_in_new :: "named_obj list \<Rightarrow> named_obj \<Rightarrow> bool" where
  "not_in_new ns old \<longleftrightarrow> \<not> (\<exists>n \<in> set ns. obj_name old = obj_name n)"

fun collect_deleted :: "named_obj list \<Rightarrow> named_obj list \<Rightarrow> named_obj list \<Rightarrow> named_obj list" where
  "collect_deleted ns acc [] = acc"
| "collect_deleted ns acc (x # xs) =
     collect_deleted ns (if not_in_new ns x then acc @ [x] else acc) xs"

definition SetDeletedResources :: "bool \<Rightarrow> app_service option \<Rightarrow> app_service \<Rightarrow> app_service" where
  "SetDeletedResources high old a = (case old of None \<Rightarrow> a | Some old \<Rightarrow>
     (let (oldNwk, oldBeta) = GetIngress high True old;
          (nwk, beta) = GetIngress high True a;
          a1 = (case (oldNwk, nwk) of
                  (Some os, Some ns) \<Rightarrow> a\<lparr>delIngs := collect_deleted ns (delIngs a) os\<rparr>
                | _ \<Rightarrow> (case (oldBeta, beta) of
                    (Some os, Some ns) \<Rightarrow>
                      a\<lparr>delBetaIngresses := collect_deleted ns (delBetaIngresses a) os\<rparr>
                  | _ \<Rightarrow> a));
          a2 = a1\<lparr>delSecrets := collect_deleted (GetSecrets True a1) (delSecrets a1) (GetSecrets True old)\<rparr>;
          a3 = a2\<lparr>delServices := collect_deleted (GetServices True a2) (delServices a2) (GetServices True old)\<rparr>;
          a4 = a3\<lparr>delHPAs := collect_deleted (GetHPAs a3) (delHPAs a3) (GetHPAs old)\<rparr>
      in a4))"

section \<open>Replica sets and pods\<close>

definition GetNewestReplicaSet :: "app_service \<Rightarrow> replicaset option" where
  "GetNewestReplicaSet a = (case replicasets a of [] \<Rightarrow> None
     | r # _ \<Rightarrow> Some (foldl (\<lambda>newest rs.
         if time_before (CreationTimestamp (rs_meta newest)) (CreationTimestamp (rs_meta rs))
         then rs else newest) r (replicasets a)))"

definition GetReplicaSetVersion :: "replicaset \<Rightarrow> int" where
  "GetReplicaSetVersion rs =
     (case map_of (Annotations (rs_meta rs)) ''deployment.kubernetes.io/revision'' of
        Some version \<Rightarrow> fst (go_atoi version)
      | None \<Rightarrow> 0)"

definition GetCurrentReplicaSet :: "app_service \<Rightarrow> replicaset option" where
  "GetCurrentReplicaSet a = (case deployment a of None \<Rightarrow> None
     | Some d \<Rightarrow> (case map_of (Annotations (d_meta d)) ''deployment.kubernetes.io/revision'' of
         None \<Rightarrow> None
       | Some revision \<Rightarrow>
           find (\<lambda>rs. gm_str (Annotations (rs_meta rs)) ''deployment.kubernetes.io/revision'' = revision)
             (replicasets a)))"

definition DistinguishPod :: "pod \<Rightarrow> app_service \<Rightarrow> bool" where
  "DistinguishPod p a = (case GetNewestReplicaSet a of None \<Rightarrow> True
     | Some rss \<Rightarrow>
         \<not> time_before (CreationTimestamp (p_meta p)) (CreationTimestamp (rs_meta rss)))"

record pod_resource =
  MemoryRequest :: int
  MemoryLimit :: int
  CPURequest :: int
  CPULimit :: int
  NodeName :: string

definition add_container :: "pod_resource \<Rightarrow> container \<Rightarrow> pod_resource" where
  "add_container pr c =
     pr\<lparr>MemoryRequest := wrap64 (MemoryRequest pr + req_memory c),
        CPURequest := wrap64 (CPURequest pr + req_cpu c),
        MemoryLimit := wrap64 (MemoryLimit pr + lim_memory c),
        CPULimit := wrap64 (CPULimit pr + lim_cpu c)\<rparr>"

definition no_resource :: pod_resource where
  "no_resource = \<lparr>MemoryRequest = 0, MemoryLimit = 0, CPURequest = 0, CPULimit = 0, NodeName = []\<rparr>"

definition CalculatePodResource :: "pod \<Rightarrow> pod_resource" where
  "CalculatePodResource p =
     (if \<exists>con \<in> set (p_conditions p). cond_type con = ''PodScheduled'' \<and> cond_status con = ''False''
      then no_resource
      else (foldl add_container no_resource (p_containers p))\<lparr>NodeName := p_node p\<rparr>)"

definition GetMemoryRequest :: "app_service \<Rightarrow> int" where
  "GetMemoryRequest a =
     foldl (\<lambda>res p. wrap64 (res + go_div (go_div (MemoryRequest (CalculatePodResource p)) 1024) 1024))
       0 (pods a)"

definition GetCPURequest :: "app_service \<Rightarrow> int" where
  "GetCPURequest a = foldl (\<lambda>res p. wrap64 (res + CPURequest (CalculatePodResource p))) 0 (pods a)"

definition GetManifests :: "app_service \<Rightarrow> manifest list" where
  "GetManifests a = manifests a"

definition SetManifests :: "manifest list \<Rightarrow> app_service \<Rightarrow> app_service" where
  "SetManifests m a = a\<lparr>manifests := m\<rparr>"

section \<open>Labels\<close>

text \<open>
  \<open>tenant\<close> is what \<^verbatim>\<open>TenantEnvDao().GetTenantEnvByUUID\<close> returns: the tenant's id and
  name, \<open>None\<close> on an error or a missing row.
\<close>

definition merge_labels :: "string gomap \<Rightarrow> string gomap list \<Rightarrow> string gomap" where
  "merge_labels r ls = foldl (\<lambda>r l. foldl (\<lambda>r (k, v). AList.update k v r) r l) r ls"

definition GetCommonLabels ::
  "(string \<Rightarrow> (string \<times> string) option) \<Rightarrow> string gomap list \<Rightarrow> app_service \<Rightarrow> string gomap" where
  "GetCommonLabels tenant ls a =
     (let (tenantID, tenantName) = (case tenant (TenantEnvID a) of None \<Rightarrow> ([], []) | Some t \<Rightarrow> t)
      in foldl (\<lambda>r (k, v). AList.update k v r) (merge_labels [] ls)
           [(''creator'', ''Wutong''),
            (''creater_id'', CreaterID a),
            (''service_id'', ServiceID a),
            (''workload_name'', GetK8sWorkloadName a),
            (''service_alias'', ServiceAlias a),
            (''tenant_id'', tenantID),
            (''tenant_name'', tenantName),
            (''tenant_env_id'', TenantEnvID a),
            (''tenant_env_name'', TenantEnvName a),
            (''app_id'', AppID a),
            (''app'', K8sApp a)])"

section \<open>The caches satisfy the contract of a named store\<close>

lemmas cache_defs =
  SetReplicaSets_def DeleteReplicaSet_def SetConfigMap_def DeleteConfigMaps_def
  SetService_def DeleteServices_def AddEndpoints_def DelEndpoints_def
  SetSecret_def DeleteSecrets_def SetPods_def DeletePods_def
  SetHPA_def DelHPA_def SetServiceMonitor_def DeleteServiceMonitor_def

interpretation rs_cache: list_field replicasets rs_name SetReplicaSets DeleteReplicaSet
  by unfold_locales (simp_all add: cache_defs)

interpretation cm_cache: list_field configMaps obj_name SetConfigMap DeleteConfigMaps
  by unfold_locales (simp_all add: cache_defs)

interpretation svc_cache: list_field services obj_name SetService DeleteServices
  by unfold_locales (simp_all add: cache_defs)

interpretation ep_cache: list_field endpoints ep_name AddEndpoints DelEndpoints
  by unfold_locales (simp_all add: cache_defs)

interpretation sec_cache: list_field secrets obj_name "\<lambda>d. SetSecret (Some d)" DeleteSecrets
  by unfold_locales (simp_all add: cache_defs)

interpretation pod_cache: list_field pods pod_name SetPods DeletePods
  by unfold_locales (simp_all add: cache_defs)

interpretation hpa_cache: list_field hpas obj_name SetHPA DelHPA
  by unfold_locales (simp_all add: cache_defs)

interpretation sm_cache: list_field serviceMonitor obj_name SetServiceMonitor DeleteServiceMonitor
  by unfold_locales (simp_all add: cache_defs)

text \<open>All caches are kept without duplicate names.\<close>

definition caches_wf :: "app_service \<Rightarrow> bool" where
  "caches_wf a \<longleftrightarrow>
     names_distinct rs_name (replicasets a) \<and> names_distinct obj_name (configMaps a) \<and>
     names_distinct obj_name (services a) \<and> names_distinct ep_name (endpoints a) \<and>
     names_distinct obj_name (secrets a) \<and> names_distinct pod_name (pods a) \<and>
     names_distinct obj_name (hpas a) \<and> names_distinct obj_name (serviceMonitor a) \<and>
     names_distinct obj_name (claims a) \<and> names_distinct obj_name (claimsmanual a)"

lemma caches_wf_put [simp]:
  assumes "caches_wf a"
  shows "caches_wf (SetReplicaSets r a)" "caches_wf (DeleteReplicaSet r a)"
    "caches_wf (SetConfigMap d a)" "caches_wf (DeleteConfigMaps d a)"
    "caches_wf (SetService d a)" "caches_wf (DeleteServices d a)"
    "caches_wf (AddEndpoints e a)" "caches_wf (DelEndpoints e a)"
    "caches_wf (SetSecret ds a)" "caches_wf (DeleteSecrets d a)"
    "caches_wf (SetPods p a)" "caches_wf (DeletePods p a)"
    "caches_wf (SetHPA d a)" "caches_wf (DelHPA d a)"
    "caches_wf (SetServiceMonitor d a)" "caches_wf (DeleteServiceMonitor d a)"
    "caches_wf (DeleteClaim d a)"
  using assms
  by (simp_all add: caches_wf_def cache_defs DeleteClaim_def distinct_set_named distinct_del_named
      split: option.splits)

lemma in_namespace_name [simp]: "obj_name (in_namespace ns c) = obj_name c"
  by (simp add: in_namespace_def)

lemma caches_wf_claim:
  assumes "caches_wf a"
  shows "SetClaim c a = Inr b \<Longrightarrow> caches_wf b" "SetClaimManually c a = Inr b \<Longrightarrow> caches_wf b"
  using assms
  by (auto simp: SetClaim_def SetClaimManually_def bind_go_eq_Inr caches_wf_def distinct_set_named)

lemma calculate_fields [simp]:
  "pods (calculateComponentMemoryRequest a) = pods a"
  "deployment (calculateComponentMemoryRequest a) = deployment a"
  "statefulset (calculateComponentMemoryRequest a) = statefulset a"
  "workload (calculateComponentMemoryRequest a) = workload a"
  "Replicas (calculateComponentMemoryRequest a) = Replicas a"
  "DeployVersion (calculateComponentMemoryRequest a) = DeployVersion a"
  "ServiceKind (calculateComponentMemoryRequest a) = ServiceKind a"
  "ServiceID (calculateComponentMemoryRequest a) = ServiceID a"
  "tenantEnv (calculateComponentMemoryRequest a) = tenantEnv a"
  "endpoints (calculateComponentMemoryRequest a) = endpoints a"
  "caches_wf (calculateComponentMemoryRequest a) = caches_wf a"
  by (simp_all add: calculateComponentMemoryRequest_def Let_def caches_wf_def)

lemma version_from_fields [simp]:
  "pods (version_from ls a) = pods a"
  "deployment (version_from ls a) = deployment a"
  "statefulset (version_from ls a) = statefulset a"
  "workload (version_from ls a) = workload a"
  "ServiceKind (version_from ls a) = ServiceKind a"
  "ServiceID (version_from ls a) = ServiceID a"
  "tenantEnv (version_from ls a) = tenantEnv a"
  "endpoints (version_from ls a) = endpoints a"
  "caches_wf (version_from ls a) = caches_wf a"
  "caches_wf (a\<lparr>Replicas := r\<rparr>) = caches_wf a"
  "caches_wf (a\<lparr>deployment := od\<rparr>) = caches_wf a"
  "caches_wf (a\<lparr>statefulset := os\<rparr>) = caches_wf a"
  "caches_wf (a\<lparr>workload := ow\<rparr>) = caches_wf a"
  by (simp_all add: version_from_def caches_wf_def split: option.splits)

section \<open>Sequences of informer events\<close>

datatype app_event =
  EvReplicaSet "replicaset informer_event"
| EvConfigMap "named_obj informer_event"
| EvService "named_obj informer_event"
| EvEndpoints "endpoints_obj informer_event"
| EvSecret "named_obj informer_event"
| EvPod "pod informer_event"
| EvHPA "named_obj informer_event"
| EvServiceMonitor "named_obj informer_event"

fun app_step :: "app_event \<Rightarrow> app_service \<Rightarrow> app_service" where
  "app_step (EvReplicaSet e) a = run_events SetReplicaSets DeleteReplicaSet [e] a"
| "app_step (EvConfigMap e) a = run_events SetConfigMap DeleteConfigMaps [e] a"
| "app_step (EvService e) a = run_events SetService DeleteServices [e] a"
| "app_step (EvEndpoints e) a = run_events AddEndpoints DelEndpoints [e] a"
| "app_step (EvSecret e) a = run_events (\<lambda>d. SetSecret (Some d)) DeleteSecrets [e] a"
| "app_step (EvPod e) a = run_events SetPods DeletePods [e] a"
| "app_step (EvHPA e) a = run_events SetHPA DelHPA [e] a"
| "app_step (EvServiceMonitor e) a = run_events SetServiceMonitor DeleteServiceMonitor [e] a"

fun pod_events :: "app_event list \<Rightarrow> pod informer_event list" where
  "pod_events [] = []"
| "pod_events (EvPod e # es) = e # pod_events es"
| "pod_events (_ # es) = pod_events es"

fun service_events :: "app_event list \<Rightarrow> named_obj informer_event list" where
  "service_events [] = []"
| "service_events (EvService e # es) = e # service_events es"
| "service_events (_ # es) = service_events es"

fun secret_events :: "app_event list \<Rightarrow> named_obj informer_event list" where
  "secret_events [] = []"
| "secret_events (EvSecret e # es) = e # secret_events es"
| "secret_events (_ # es) = secret_events es"

lemma run_events_single:
  "run_events put del [e] s = (case e of Upsert x \<Rightarrow> put x s | Remove x \<Rightarrow> del x s)"
  by (cases e) simp_all

lemma app_step_wf: "caches_wf a \<Longrightarrow> caches_wf (app_step e a)"
  by (cases e) (simp_all add: run_events_single split: informer_event.splits)

lemma app_run_wf: "caches_wf a \<Longrightarrow> caches_wf (fold app_step es a)"
  by (induction es arbitrary: a) (simp_all add: app_step_wf)

lemma app_step_frame:
  "pods (app_step e a) = pods (run_events SetPods DeletePods (pod_events [e]) a)"
  "services (app_step e a) = services (run_events SetService DeleteServices (service_events [e]) a)"
  "secrets (app_step e a) =
     secrets (run_events (\<lambda>d. SetSecret (Some d)) DeleteSecrets (secret_events [e]) a)"
  by (cases e; simp add: run_events_single cache_defs split: informer_event.splits)+

lemma last_event_append:
  "last_event nm k (xs @ ys) d = last_event nm k ys (last_event nm k xs d)"
proof (induction xs arbitrary: d)
  case (Cons x xs)
  then show ?case by (cases x) simp_all
qed simp

lemma event_filters_Cons:
  "pod_events (e # es) = pod_events [e] @ pod_events es"
  "service_events (e # es) = service_events [e] @ service_events es"
  "secret_events (e # es) = secret_events [e] @ secret_events es"
  by (cases e; simp)+

lemma app_step_lookup:
  assumes "caches_wf a"
  shows "find_named pod_name n (pods (app_step e a)) =
      last_event pod_name n (pod_events [e]) (find_named pod_name n (pods a))"
    and "find_named obj_name n (services (app_step e a)) =
      last_event obj_name n (service_events [e]) (find_named obj_name n (services a))"
    and "find_named obj_name n (secrets (app_step e a)) =
      last_event obj_name n (secret_events [e]) (find_named obj_name n (secrets a))"
  using assms pod_cache.st.run_refines [of a "pod_events [e]"]
    svc_cache.st.run_refines [of a "service_events [e]"]
    sec_cache.st.run_refines [of a "secret_events [e]"]
  by (simp_all add: app_step_frame caches_wf_def fun_eq_iff abs_events_last)

text \<open>
  After any interleaving of informer events for all kinds of objects, looking a pod, a service
  or a secret up by name returns what the last event about that name left there; events about
  other names and about other kinds of objects do not matter.
\<close>

theorem caches_follow_events:
  assumes "caches_wf a"
  shows "GetPodsByName n (fold app_step es a) =
      last_event pod_name n (pod_events es) (GetPodsByName n a) \<and>
    find_named obj_name n (GetServices True (fold app_step es a)) =
      last_event obj_name n (service_events es) (find_named obj_name n (GetServices True a)) \<and>
    find_named obj_name n (GetSecrets True (fold app_step es a)) =
      last_event obj_name n (secret_events es) (find_named obj_name n (GetSecrets True a))"
  using assms
proof (induction es arbitrary: a)
  case (Cons e es)
  note IH = Cons.IH [OF app_step_wf [OF Cons.prems], of e]
  show ?case
    using IH app_step_lookup [OF Cons.prems, of n e] event_filters_Cons [of e es]
    by (simp add: GetPodsByName_def GetServices_def GetSecrets_def last_event_append)
qed simp

section \<open>Objects to delete\<close>

lemma collect_deleted_filter:
  "collect_deleted ns acc xs = acc @ filter (\<lambda>x. obj_name x \<notin> obj_name ` set ns) xs"
  by (induction xs arbitrary: acc) (auto simp: not_in_new_def)

text \<open>
  When a component is redeployed, exactly the secrets, services, autoscalers and ingresses of
  the old state whose name the new state no longer has are appended to the deletion lists, in
  their order; on clusters of the older API only the beta ingresses are compared, on newer ones
  only the networking ingresses; without an old state nothing is scheduled.
\<close>

theorem deleted_resources_exact:
  "SetDeletedResources high None a = a \<and>
   SetDeletedResources high (Some old) a =
     a\<lparr>delIngs := delIngs a @
          (if high then filter (\<lambda>x. obj_name x \<notin> obj_name ` set (ingresses a)) (ingresses old) else []),
       delBetaIngresses := delBetaIngresses a @
          (if high then []
           else filter (\<lambda>x. obj_name x \<notin> obj_name ` set (betaIngresses a)) (betaIngresses old)),
       delSecrets := delSecrets a @
          filter (\<lambda>x. obj_name x \<notin> obj_name ` set (secrets a)) (secrets old),
       delServices := delServices a @
          filter (\<lambda>x. obj_name x \<notin> obj_name ` set (services a)) (services old),
       delHPAs := delHPAs a @ filter (\<lambda>x. obj_name x \<notin> obj_name ` set (hpas a)) (hpas old)\<rparr>"
  by (cases high)
    (simp_all add: SetDeletedResources_def GetIngress_def GetSecrets_def GetServices_def GetHPAs_def
      collect_deleted_filter)

section \<open>Replica sets and pods\<close>

lemma foldl_newest:
  "foldl (\<lambda>newest x. if t newest < t x then x else newest) r xs \<in> insert r (set xs) \<and>
   (\<forall>x \<in> insert r (set xs). t x \<le> (t (foldl (\<lambda>newest x. if t newest < t x then x else newest) r xs) :: int))"
proof (induction xs arbitrary: r)
  case (Cons y ys)
  show ?case
    using Cons.IH [of r] Cons.IH [of y] by auto
qed simp

lemma GetNewestReplicaSet_max:
  assumes "GetNewestReplicaSet a = Some r"
  shows "r \<in> set (replicasets a)"
    and "rs \<in> set (replicasets a) \<Longrightarrow> CreationTimestamp (rs_meta rs) \<le> CreationTimestamp (rs_meta r)"
proof -
  obtain r0 rest where rs: "replicasets a = r0 # rest"
    using assms by (auto simp: GetNewestReplicaSet_def split: list.splits)
  note newest = foldl_newest [of "\<lambda>x. CreationTimestamp (rs_meta x)" r0 "r0 # rest"]
  show "r \<in> set (replicasets a)"
    using assms newest by (auto simp: GetNewestReplicaSet_def rs)
  show "CreationTimestamp (rs_meta rs) \<le> CreationTimestamp (rs_meta r)"
    if "rs \<in> set (replicasets a)"
    using that assms newest by (auto simp: GetNewestReplicaSet_def rs)
qed

lemma GetNewestReplicaSet_None: "GetNewestReplicaSet a = None \<longleftrightarrow> replicasets a = []"
  by (simp add: GetNewestReplicaSet_def split: list.splits)

text \<open>
  A pod counts as new exactly when no replica set of the component was created after it.
\<close>

theorem DistinguishPod_iff:
  "DistinguishPod p a \<longleftrightarrow>
     (\<forall>rs \<in> set (GetReplicaSets a). CreationTimestamp (rs_meta rs) \<le> CreationTimestamp (p_meta p))"
proof (cases "GetNewestReplicaSet a")
  case None
  then have "replicasets a = []" by (simp only: GetNewestReplicaSet_None)
  with None show ?thesis by (simp add: DistinguishPod_def GetReplicaSets_def)
next
  case (Some r)
  show ?thesis
    using GetNewestReplicaSet_max [OF Some] Some
    by (auto simp: DistinguishPod_def GetReplicaSets_def not_less intro: order_trans)
qed

section \<open>Resource accounting\<close>

abbreviation mega :: "int \<Rightarrow> int" where
  "mega b \<equiv> go_div (go_div b 1024) 1024"

lemma add_memory_sum: "add_memory (wrap64 m) cs = wrap64 (m + (\<Sum>c\<leftarrow>cs. mega (req_memory c)))"
  unfolding add_memory_def by (rule foldl_wrap64)

lemma add_cpu_sum: "add_cpu (wrap64 m) cs = wrap64 (m + (\<Sum>c\<leftarrow>cs. req_cpu c))"
  unfolding add_cpu_def by (rule foldl_wrap64)

definition workload_containers :: "app_service \<Rightarrow> container list" where
  "workload_containers a =
     (case statefulset a of None \<Rightarrow> [] | Some s \<Rightarrow> Containers (s_template s)) @
     (case deployment a of None \<Rightarrow> [] | Some d \<Rightarrow> Containers (d_template d))"

lemma calculate_totals:
  "podMemoryRequest (calculateComponentMemoryRequest a) =
     wrap64 (\<Sum>c\<leftarrow>workload_containers a. mega (req_memory c))"
  "podCPURequest (calculateComponentMemoryRequest a) =
     wrap64 (\<Sum>c\<leftarrow>workload_containers a. req_cpu c)"
  using add_memory_sum [of 0] add_cpu_sum [of 0]
  by (simp_all add: calculateComponentMemoryRequest_def Let_def workload_containers_def
      add_memory_sum add_cpu_sum split: option.splits)

lemma workload_containers_frame [simp]:
  "workload_containers (calculateComponentMemoryRequest a) = workload_containers a"
  by (simp add: workload_containers_def)

definition accounted :: "app_service \<Rightarrow> bool" where
  "accounted a \<longleftrightarrow>
     podMemoryRequest a = wrap64 (\<Sum>c\<leftarrow>workload_containers a. mega (req_memory c)) \<and>
     podCPURequest a = wrap64 (\<Sum>c\<leftarrow>workload_containers a. req_cpu c)"

lemma accounted_calculate: "accounted (calculateComponentMemoryRequest a)"
  by (simp add: accounted_def calculate_totals)

text \<open>
  After a deployment or a stateful set is stored, and after the pod template is replaced, the
  recorded memory (in MiB, each container rounded down) and CPU requests are the sums over the
  containers of the workloads now held, modulo 2 to the 64; the workload's replica count is
  adopted, and a workload without a replica count panics.
\<close>

theorem workload_accounting:
  "accounted (SetPodTemplate t a) \<and>
   (case SetDeployment d a of
      Inr b \<Rightarrow> accounted b \<and> d_replicas d = Some (Replicas b) \<and> GetDeployment b = Some d
    | Inl e \<Rightarrow> e = NilDereference \<and> d_replicas d = None) \<and>
   (case SetStatefulSet s a of
      Inr b \<Rightarrow> accounted b \<and> s_replicas s = Some (Replicas b) \<and> GetStatefulSet b = Some s
    | Inl e \<Rightarrow> e = NilDereference \<and> s_replicas s = None)"
  by (cases "d_replicas d"; cases "s_replicas s")
    (simp_all add: SetPodTemplate_def SetDeployment_def SetStatefulSet_def Let_def
      accounted_calculate GetDeployment_def GetStatefulSet_def)

lemma foldl_add_container:
  "MemoryRequest (foldl add_container pr cs) = foldl (\<lambda>m c. wrap64 (m + req_memory c)) (MemoryRequest pr) cs"
  "CPURequest (foldl add_container pr cs) = foldl (\<lambda>m c. wrap64 (m + req_cpu c)) (CPURequest pr) cs"
  "MemoryLimit (foldl add_container pr cs) = foldl (\<lambda>m c. wrap64 (m + lim_memory c)) (MemoryLimit pr) cs"
  "CPULimit (foldl add_container pr cs) = foldl (\<lambda>m c. wrap64 (m + lim_cpu c)) (CPULimit pr) cs"
  by (induction cs arbitrary: pr) (simp_all add: add_container_def)

definition unscheduled :: "pod \<Rightarrow> bool" where
  "unscheduled p \<longleftrightarrow>
     (\<exists>con \<in> set (p_conditions p). cond_type con = ''PodScheduled'' \<and> cond_status con = ''False'')"

lemma CalculatePodResource_sums:
  "MemoryRequest (CalculatePodResource p) =
     (if unscheduled p then 0 else wrap64 (\<Sum>c\<leftarrow>p_containers p. req_memory c))"
  "CPURequest (CalculatePodResource p) =
     (if unscheduled p then 0 else wrap64 (\<Sum>c\<leftarrow>p_containers p. req_cpu c))"
  "MemoryLimit (CalculatePodResource p) =
     (if unscheduled p then 0 else wrap64 (\<Sum>c\<leftarrow>p_containers p. lim_memory c))"
  "CPULimit (CalculatePodResource p) =
     (if unscheduled p then 0 else wrap64 (\<Sum>c\<leftarrow>p_containers p. lim_cpu c))"
  by (simp_all add: CalculatePodResource_def no_resource_def foldl_add_container
      foldl_wrap64_zero flip: unscheduled_def)

text \<open>
  The CPU request of a component is the sum over its scheduled pods of the requests of their
  containers, modulo 2 to the 64; a pod that could not be scheduled contributes nothing.
\<close>

theorem GetCPURequest_sum:
  "GetCPURequest a =
     wrap64 (\<Sum>p\<leftarrow>filter (\<lambda>p. \<not> unscheduled p) (GetPods True a).
       wrap64 (\<Sum>c\<leftarrow>p_containers p. req_cpu c))"
proof -
  have "(\<Sum>p\<leftarrow>ps. CPURequest (CalculatePodResource p)) =
      (\<Sum>p\<leftarrow>filter (\<lambda>p. \<not> unscheduled p) ps. wrap64 (\<Sum>c\<leftarrow>p_containers p. req_cpu c))" for ps
    by (induction ps) (simp_all add: CalculatePodResource_sums)
  then show ?thesis
    by (simp add: GetCPURequest_def foldl_wrap64_zero GetPods_def)
qed

section \<open>Labels\<close>

lemma map_of_foldl_update:
  "map_of (foldl (\<lambda>r (k, v). AList.update k v r) r l) k =
     (case map_of (rev l) k of Some v \<Rightarrow> Some v | None \<Rightarrow> map_of r k)"
proof (induction l arbitrary: r)
  case (Cons x l)
  obtain j v where x: "x = (j, v)" by fastforce
  show ?case
    by (simp add: x Cons.IH update_conv' map_add_Some_iff map_of_append split: option.splits)
qed simp

lemma map_of_merge_labels:
  "map_of (merge_labels r ls) k =
     (case map_of (rev (concat ls)) k of Some v \<Rightarrow> Some v | None \<Rightarrow> map_of r k)"
proof (induction ls arbitrary: r)
  case (Cons l ls)
  have "merge_labels r (l # ls) = merge_labels (foldl (\<lambda>r (k, v). AList.update k v r) r l) ls"
    by (simp add: merge_labels_def)
  then show ?case
    by (simp add: Cons.IH map_of_foldl_update map_of_append map_add_def split: option.splits)
qed (simp add: merge_labels_def)

definition platform_label_keys :: "string set" where
  "platform_label_keys =
     {''creator'', ''creater_id'', ''service_id'', ''workload_name'', ''service_alias'', ''tenant_id'',
      ''tenant_name'', ''tenant_env_id'', ''tenant_env_name'', ''app_id'', ''app''}"

text \<open>
  The platform's labels cannot be overridden by the labels a caller passes: every key of the
  platform has the component's value, whatever was passed; for every other key the label passed
  last wins.
\<close>

theorem common_labels_protected:
  "map_of (GetCommonLabels tenant ls a) ''creator'' = Some ''Wutong'' \<and>
   map_of (GetCommonLabels tenant ls a) ''service_id'' = Some (ServiceID a) \<and>
   map_of (GetCommonLabels tenant ls a) ''app_id'' = Some (AppID a) \<and>
   map_of (GetCommonLabels tenant ls a) ''tenant_env_id'' = Some (TenantEnvID a) \<and>
   map_of (GetCommonLabels tenant ls a) ''workload_name'' =
     Some (K8sApp a @ ''-'' @ K8sComponentName a) \<and>
   (k \<notin> platform_label_keys \<longrightarrow>
      map_of (GetCommonLabels tenant ls a) k = map_of (rev (concat ls)) k)"
  by (simp add: GetCommonLabels_def Let_def split_def update_conv' GetK8sWorkloadName_def
      platform_label_keys_def map_of_merge_labels split: option.splits)

section \<open>Where the contract is broken\<close>

lemma set_ingress_loop_stale:
  "obj_name d \<in> obj_name ` set xs \<Longrightarrow> set_ingress_loop d xs = xs"
  by (induction xs) auto

lemma set_ingress_loop_fresh:
  "obj_name d \<notin> obj_name ` set xs \<Longrightarrow> set_ingress_loop d xs = xs @ [d]"
  by (induction xs) auto

text \<open>
  Storing an ingress under a name that is already known changes nothing: the entry of that name
  is assigned to itself and the new object is dropped, for both ingress APIs. Only an ingress with
  a new name is stored.
\<close>

theorem SetIngress_drops_updates:
  "SetIngress (NetIngress d) a =
     (if obj_name d \<in> obj_name ` set (ingresses a) then a else a\<lparr>ingresses := ingresses a @ [d]\<rparr>) \<and>
   SetIngress (BetaIngress d) a =
     (if obj_name d \<in> obj_name ` set (betaIngresses a) then a
      else a\<lparr>betaIngresses := betaIngresses a @ [d]\<rparr>)"
  by (simp add: SetIngress_def set_ingress_loop_stale set_ingress_loop_fresh)

text \<open>
  Storing a storage class whose name is already present replaces the old entries and appends
  the object once more, so the list grows with every update and the name occurs at least twice;
  one deletion afterwards does not remove the class.
\<close>

theorem SetStorageClass_duplicates:
  assumes "sc_name sc \<in> sc_name ` set (storageClasses a)"
  shows "length (storageClasses (SetStorageClass sc a)) = Suc (length (storageClasses a)) \<and>
    \<not> names_distinct sc_name (storageClasses (SetStorageClass sc a)) \<and>
    sc \<in> set (storageClasses (DeleteStorageClass sc (SetStorageClass sc a)))"
proof -
  let ?upd = "map (\<lambda>old. if sc_name old = sc_name sc then sc else old) (storageClasses a)"
  have mem: "sc \<in> set ?upd" using assms by force
  have del: "del_named nm k (xs @ [x]) = del_named nm k xs @ [x]" if "k \<in> nm ` set xs"
    for nm k xs and x :: storage_class
    using that by (induction xs) auto
  have "del_named sc_name (sc_name sc) (?upd @ [sc]) = del_named sc_name (sc_name sc) ?upd @ [sc]"
    by (rule del) (use mem in blast)
  with mem show ?thesis
    by (force simp: SetStorageClass_def DeleteStorageClass_def image_iff)
qed

section \<open>Witnesses\<close>

definition sample_pod :: "string \<Rightarrow> string \<Rightarrow> int \<Rightarrow> pod" where
  "sample_pod n v t = \<lparr>p_meta = zero_meta\<lparr>Name := n, Labels := [(''version'', v)], CreationTimestamp := t\<rparr>,
     p_phase = PodRunning, p_reason = [], p_conditions = [], p_containers = [], p_node = ''n1'',
     ContainerStatuses = [], InitContainerStatuses = []\<rparr>"

definition sample_obj :: "string \<Rightarrow> string \<Rightarrow> named_obj" where
  "sample_obj n d = \<lparr>o_meta = zero_meta\<lparr>Name := n\<rparr>, o_data = d\<rparr>"

definition sample_rs :: "string \<Rightarrow> int \<Rightarrow> replicaset" where
  "sample_rs n t = \<lparr>rs_meta = zero_meta\<lparr>Name := n, CreationTimestamp := t\<rparr>, rs_replicas = 0,
     rs_ready = 0, rs_available = 0\<rparr>"

lemmas sample_defs = sample_rs_def sample_pod_def sample_obj_def zero_meta_def zero_app_def

lemma caches_follow_events_witness:
  "caches_wf zero_app \<and>
   GetPodsByName ''a'' (fold app_step
     [EvPod (Upsert (sample_pod ''a'' ''1'' 0)), EvService (Upsert (sample_obj ''a'' ''x'')),
      EvPod (Upsert (sample_pod ''b'' ''1'' 0)), EvPod (Upsert (sample_pod ''a'' ''2'' 0)),
      EvSecret (Remove (sample_obj ''a'' ''x''))] zero_app) = Some (sample_pod ''a'' ''2'' 0)"
proof -
  have wf: "caches_wf zero_app" by (simp add: caches_wf_def zero_app_def)
  show ?thesis
    using wf caches_follow_events [OF wf, of "''a''"
      "[EvPod (Upsert (sample_pod ''a'' ''1'' 0)), EvService (Upsert (sample_obj ''a'' ''x'')),
      EvPod (Upsert (sample_pod ''b'' ''1'' 0)), EvPod (Upsert (sample_pod ''a'' ''2'' 0)),
      EvSecret (Remove (sample_obj ''a'' ''x''))]"]
    by (simp add: sample_defs del: fold_simps)
qed

lemma DistinguishPod_iff_witness:
  "\<not> DistinguishPod (sample_pod ''a'' ''1'' 5)
      (zero_app\<lparr>replicasets := [sample_rs ''x'' 3, sample_rs ''y'' 7]\<rparr>)"
  by (subst DistinguishPod_iff) (simp add: GetReplicaSets_def sample_defs)

lemma common_labels_protected_witness:
  "''team'' \<notin> platform_label_keys \<and>
   map_of (GetCommonLabels (\<lambda>_. None)
     [[(''creator'', ''Mallory''), (''team'', ''red'')], [(''team'', ''blue'')]] zero_app) ''team'' =
     Some ''blue''"
  using common_labels_protected [of "\<lambda>_. None"
    "[[(''creator'', ''Mallory''), (''team'', ''red'')], [(''team'', ''blue'')]]" zero_app "''team''"]
  by (simp add: platform_label_keys_def)

lemma SetStorageClass_duplicates_witness:
  "length (storageClasses (SetStorageClass (mk_storage_class ''c'' ''p2'' ''m'')
     (zero_app\<lparr>storageClasses := [mk_storage_class ''c'' ''p1'' ''m'']\<rparr>))) = 2"
  using SetStorageClass_duplicates [of "mk_storage_class ''c'' ''p2'' ''m''"
    "zero_app\<lparr>storageClasses := [mk_storage_class ''c'' ''p1'' ''m'']\<rparr>"]
  by (simp add: mk_storage_class_def zero_meta_def)

end
