(* ===== verification/App_Status.thy ===== *)
theory App_Status
  imports App_Service
begin

text \<open>
  The status of a component, computed from the cached Kubernetes objects
  (\<^verbatim>\<open>src/worker/appm/types/v1/status.go\<close> and \<^verbatim>\<open>pod_status.go\<close>). The status
  strings are the constructors of \<open>app_status\<close>; \<open>status_string\<close> gives the source's text.
  \<open>um\<close> stands for the conversion of an unstructured object's JSON document to a third
  component; \<open>probe\<close> is the image name of the start-up probe.
\<close>

datatype app_status =
  RUNNING | CLOSED | STARTING | STOPPING | ABNORMAL | SOMEABNORMAL | UNKNOW | UPGRADE
| BUILDING | BUILDEFAILURE | UNDEPLOY

fun status_string :: "app_status \<Rightarrow> string" where
  "status_string RUNNING = ''running''"
| "status_string CLOSED = ''closed''"
| "status_string STARTING = ''starting''"
| "status_string STOPPING = ''stopping''"
| "status_string ABNORMAL = ''abnormal''"
| "status_string SOMEABNORMAL = ''some_abnormal''"
| "status_string UNKNOW = ''unknow''"
| "status_string UPGRADE = ''upgrade''"
| "status_string BUILDING = ''building''"
| "status_string BUILDEFAILURE = ''build_failure''"
| "status_string UNDEPLOY = ''undeploy''"

section \<open>Pods\<close>

definition IsPodTerminated :: "pod \<Rightarrow> bool" where
  "IsPodTerminated p =
     (if p_phase p \<noteq> PodPending \<and> p_phase p \<noteq> PodRunning \<and> p_phase p \<noteq> PodUnknown
      then True else False)"

definition IsPodNodeLost :: "pod \<Rightarrow> bool" where
  "IsPodNodeLost p =
     (if DeletionTimestamp (p_meta p) \<noteq> None \<and> p_reason p = ''NodeLost'' then True else False)"

definition isHaveTerminatedContainer :: "pod list \<Rightarrow> bool" where
  "isHaveTerminatedContainer ps \<longleftrightarrow>
     (\<exists>p \<in> set ps. \<exists>con \<in> set (ContainerStatuses p).
        (case cs_terminated con of Some code \<Rightarrow> code \<noteq> 0 | None \<Rightarrow> False) \<or>
        cs_last_terminated con \<noteq> None)"

definition isHaveNormalTerminatedContainer :: "pod list \<Rightarrow> bool" where
  "isHaveNormalTerminatedContainer ps \<longleftrightarrow>
     (\<exists>p \<in> set ps. \<exists>con \<in> set (ContainerStatuses p). cs_terminated con = Some 0)"

section \<open>Predicates on the component\<close>

definition IsEmpty :: "app_service \<Rightarrow> bool" where
  "IsEmpty a =
     (let empty = (length (pods a) = 0)
      in if \<not> empty then (\<forall>p \<in> set (pods a). IsPodNodeLost p) else empty)"

definition IsClosed :: "app_service \<Rightarrow> bool" where
  "IsClosed a =
     (if IsCustomComponent a then workload a = None
      else if IsThirdComponent a then length (endpoints a) = 0
      else if IsEmpty a \<and> statefulset a = None \<and> deployment a = None then True
      else if IsEmpty a \<and>
        (case statefulset a of Some s \<Rightarrow> ResourceVersion (s_meta s) = [] | None \<Rightarrow> False) then True
      else if IsEmpty a \<and>
        (case deployment a of Some d \<Rightarrow> ResourceVersion (d_meta d) = [] | None \<Rightarrow> False) then True
      else False)"

definition Ready :: "app_service \<Rightarrow> bool" where
  "Ready a =
     (if (case statefulset a of Some s \<Rightarrow> wrap32 (Replicas a) \<le> s_ready s | None \<Rightarrow> False) then True
      else if (case deployment a of Some d \<Rightarrow> wrap32 (Replicas a) \<le> d_ready d | None \<Rightarrow> False) then True
      else False)"

definition UpgradeComlete :: "app_service \<Rightarrow> bool" where
  "UpgradeComlete a =
     (if \<exists>p \<in> set (pods a). gm_str (Labels (p_meta p)) ''version'' \<noteq> DeployVersion a then False
      else Ready a)"

definition GetReadyReplicas :: "app_service \<Rightarrow> int" where
  "GetReadyReplicas a =
     (case statefulset a of Some s \<Rightarrow> s_ready s
      | None \<Rightarrow> (case deployment a of Some d \<Rightarrow> d_ready d | None \<Rightarrow> 0))"

definition GetRunningVersion :: "app_service \<Rightarrow> string" where
  "GetRunningVersion a =
     (case statefulset a of Some s \<Rightarrow> gm_str (Labels (s_meta s)) ''version''
      | None \<Rightarrow> (case deployment a of Some d \<Rightarrow> gm_str (Labels (d_meta d)) ''version'' | None \<Rightarrow> []))"

text \<open>The containers the second half of \<^verbatim>\<open>IsWaitting\<close> inspects; \<open>None\<close> is an early return.\<close>

definition waiting_init_containers :: "app_service \<Rightarrow> container list option" where
  "waiting_init_containers a =
     (case statefulset a of
        Some s \<Rightarrow>
          (if length (InitContainers (s_template s)) = 0 then None
           else (case deployment a of
               Some d \<Rightarrow> (if length (InitContainers (d_template d)) = 0 then None
                          else Some (InitContainers (d_template d)))
             | None \<Rightarrow> Some (InitContainers (s_template s))))
      | None \<Rightarrow> (case deployment a of
               Some d \<Rightarrow> (if length (InitContainers (d_template d)) = 0 then None
                          else Some (InitContainers (d_template d)))
             | None \<Rightarrow> Some []))"

definition IsWaitting :: "string \<Rightarrow> app_service \<Rightarrow> bool" where
  "IsWaitting probe a =
     (case waiting_init_containers a of None \<Rightarrow> False
      | Some ics \<Rightarrow>
          (if \<exists>i \<in> set ics. c_image i = probe
           then (case pods a of [] \<Rightarrow> True
                 | firstPod # _ \<Rightarrow>
                     (\<exists>i \<in> set (InitContainerStatuses firstPod). cs_image i = probe \<and>
                        (case cs_terminated i of None \<Rightarrow> True | Some code \<Rightarrow> code \<noteq> 0)))
           else False))"

section \<open>The status function\<close>

definition conversionThirdComponent ::
  "(string \<Rightarrow> third_component option) \<Rightarrow> workload \<Rightarrow> third_component option" where
  "conversionThirdComponent um w = (case w_obj w of
       WThird m t \<Rightarrow> Some t
     | WUnstructured k m doc \<Rightarrow> um doc
     | _ \<Rightarrow> None)"

definition third_status :: "third_component option \<Rightarrow> app_status" where
  "third_status t = (case t of
       Some third \<Rightarrow> (case third_phase third of
           ComponentFailed \<Rightarrow> ABNORMAL
         | ComponentRunning \<Rightarrow> RUNNING
         | ComponentPending \<Rightarrow> STARTING
         | ComponentNoPhase \<Rightarrow> RUNNING)
     | None \<Rightarrow> RUNNING)"

definition ready_endpoint_size :: "endpoints_obj list \<Rightarrow> nat" where
  "ready_endpoint_size eds = (\<Sum>ed\<leftarrow>eds. \<Sum>s\<leftarrow>Subsets ed. length (Addresses s))"

text \<open>The tail shared by the partly-ready and the not-ready branches; \<open>bad\<close> is the status when a
  container has failed.\<close>

definition failing_status :: "app_status \<Rightarrow> app_service \<Rightarrow> app_status" where
  "failing_status bad a =
     (if isHaveTerminatedContainer (pods a) then bad
      else if isHaveNormalTerminatedContainer (pods a) then STOPPING
      else STARTING)"

definition opt_holds :: "'a option \<Rightarrow> ('a \<Rightarrow> bool) \<Rightarrow> bool" where
  "opt_holds x P = (case x of Some v \<Rightarrow> P v | None \<Rightarrow> False)"

text \<open>The receiver is a pointer: the first statement dereferences it.\<close>

definition GetServiceStatus ::
  "(string \<Rightarrow> third_component option) \<Rightarrow> app_service option \<Rightarrow> app_status go" where
  "GetServiceStatus um ap = bind_go (deref ap) (\<lambda>a. Inr (
     if IsCustomComponent a then
       (case workload a of
          Some w \<Rightarrow> (if w_kind w = ''ThirdComponent'' then third_status (conversionThirdComponent um w)
                     else RUNNING)
        | None \<Rightarrow> CLOSED)
     else if IsThirdComponent a then
       (let eds = GetEndpoints False a
        in if length eds = 0 then CLOSED
           else if 0 < ready_endpoint_size eds then RUNNING
           else ABNORMAL)
     else if IsClosed a then CLOSED
     else if statefulset a = None \<and> deployment a = None \<and> 0 < length (pods a) then STOPPING
     else if (statefulset a \<noteq> None \<or> deployment a \<noteq> None) \<and> int (length (pods a)) < Replicas a
       then STARTING
     else if opt_holds (statefulset a) (\<lambda>s. wrap32 (Replicas a) \<le> s_ready s)
       then (if UpgradeComlete a then RUNNING else UPGRADE)
     else if opt_holds (deployment a) (\<lambda>d. wrap32 (Replicas a) \<le> d_ready d)
       then (if UpgradeComlete a then RUNNING else UPGRADE)
     else if opt_holds (deployment a) (\<lambda>d. d_ready d < wrap32 (Replicas a) \<and> d_ready d \<noteq> 0)
       then failing_status SOMEABNORMAL a
     else if opt_holds (deployment a) (\<lambda>d. d_ready d = 0)
       then failing_status ABNORMAL a
     else if opt_holds (statefulset a) (\<lambda>s. s_ready s < wrap32 (Replicas a) \<and> s_ready s \<noteq> 0)
       then failing_status SOMEABNORMAL a
     else if opt_holds (statefulset a) (\<lambda>s. s_ready s = 0)
       then failing_status ABNORMAL a
     else UNKNOW))"

section \<open>Properties\<close>

lemma opt_holds_simps [simp]: "opt_holds None P = False" "opt_holds (Some x) P = P x"
  by (simp_all add: opt_holds_def)

lemma status_string_inj: "status_string s = status_string t \<Longrightarrow> s = t"
  by (cases s; cases t) simp_all

lemma third_is_custom: "IsThirdComponent a \<Longrightarrow> IsCustomComponent a"
  by (simp add: IsThirdComponent_def IsCustomComponent_def)

lemma IsEmpty_iff: "IsEmpty a \<longleftrightarrow> (\<forall>p \<in> set (pods a). IsPodNodeLost p)"
  by (auto simp: IsEmpty_def)

lemma failing_status_range:
  "failing_status bad a \<in> {bad, STOPPING, STARTING}"
  by (simp add: failing_status_def)

text \<open>The status of a component that is neither custom nor third-party, as one equation.\<close>

lemma GetServiceStatus_internal:
  assumes "\<not> IsCustomComponent a"
  shows "GetServiceStatus um (Some a) = Inr (
     if IsClosed a then CLOSED
     else if statefulset a = None \<and> deployment a = None \<and> 0 < length (pods a) then STOPPING
     else if (statefulset a \<noteq> None \<or> deployment a \<noteq> None) \<and> int (length (pods a)) < Replicas a
       then STARTING
     else if Ready a then (if UpgradeComlete a then RUNNING else UPGRADE)
     else failing_status (if opt_holds (deployment a) (\<lambda>d. d_ready d = 0) \<or>
             deployment a = None \<and> opt_holds (statefulset a) (\<lambda>s. s_ready s = 0)
           then ABNORMAL else SOMEABNORMAL) a)"
proof -
  have third: "\<not> IsThirdComponent a"
    using assms third_is_custom by blast
  have stuck: "IsClosed a" if "statefulset a = None" "deployment a = None" "pods a = []"
    using that assms third by (simp add: IsClosed_def IsEmpty_def)
  show ?thesis
    using assms third stuck
    by (cases "statefulset a"; cases "deployment a")
      (auto simp: GetServiceStatus_def Ready_def not_le)
qed

lemma GetServiceStatus_custom:
  assumes "IsCustomComponent a"
  shows "GetServiceStatus um (Some a) = Inr (case workload a of
      Some w \<Rightarrow> (if w_kind w = ''ThirdComponent'' then third_status (conversionThirdComponent um w)
                 else RUNNING)
    | None \<Rightarrow> CLOSED)"
  using assms by (simp add: GetServiceStatus_def)

lemma third_status_range: "third_status t \<in> {ABNORMAL, RUNNING, STARTING}"
  by (simp add: third_status_def split: option.splits component_phase.splits)

lemma third_status_not_closed [simp]: "third_status t \<noteq> CLOSED"
  using third_status_range [of t] by auto

lemmas status_cases = GetServiceStatus_custom GetServiceStatus_internal

text \<open>
  The status function returns for every component, and never with an indeterminate or a
  build status: the last branch, \<^verbatim>\<open>UNKNOW\<close>, is unreachable. Only the nil receiver panics.
\<close>

theorem status_determinate:
  "\<exists>st. GetServiceStatus um (Some a) = Inr st \<and>
     st \<in> {RUNNING, CLOSED, STARTING, STOPPING, ABNORMAL, SOMEABNORMAL, UPGRADE}"
proof (cases "IsCustomComponent a")
  case True
  then show ?thesis
    using third_status_range by (force simp: GetServiceStatus_custom split: option.splits)
next
  case False
  then show ?thesis
    by (simp add: GetServiceStatus_internal failing_status_def)
qed

text \<open>
  The status of a component is closed exactly when \<^verbatim>\<open>IsClosed\<close> says so, for custom,
  third-party and internal components alike.
\<close>

theorem status_closed_iff:
  "GetServiceStatus um (Some a) = Inr CLOSED \<longleftrightarrow> IsClosed a"
proof (cases "IsCustomComponent a")
  case True
  then show ?thesis
    by (simp add: GetServiceStatus_custom IsClosed_def split: option.splits)
next
  case False
  then show ?thesis
    by (simp add: GetServiceStatus_internal failing_status_def)
qed

text \<open>
  C5: An internal component is running exactly when it is not closed, has a workload with at least
  as many ready replicas as wanted (compared as 32-bit integers), at least as many pods as
  replicas, and every pod carries the deployed version; with a pod of another version it is
  upgrading instead.
\<close>

theorem status_running_iff:
  assumes "\<not> IsCustomComponent a"
  shows "(GetServiceStatus um (Some a) = Inr RUNNING \<longleftrightarrow>
      \<not> IsClosed a \<and> Ready a \<and> Replicas a \<le> int (length (pods a)) \<and>
      (\<forall>p \<in> set (pods a). gm_str (Labels (p_meta p)) ''version'' = DeployVersion a)) \<and>
    (GetServiceStatus um (Some a) = Inr UPGRADE \<longleftrightarrow>
      \<not> IsClosed a \<and> Ready a \<and> Replicas a \<le> int (length (pods a)) \<and>
      (\<exists>p \<in> set (pods a). gm_str (Labels (p_meta p)) ''version'' \<noteq> DeployVersion a))"
proof -
  have "statefulset a \<noteq> None \<or> deployment a \<noteq> None" if "Ready a"
    using that by (auto simp: Ready_def split: if_splits option.splits)
  then show ?thesis
    using assms
    by (auto simp: GetServiceStatus_internal UpgradeComlete_def failing_status_def not_less)
qed

text \<open>
  An internal component is reported abnormal, fully or partly, only when a container of one of
  its pods exited with an error or had terminated before, and only while it is not ready.
\<close>

theorem status_abnormal_sound:
  assumes "\<not> IsCustomComponent a"
    and "GetServiceStatus um (Some a) \<in> {Inr ABNORMAL, Inr SOMEABNORMAL}"
  shows "isHaveTerminatedContainer (pods a) \<and> \<not> Ready a \<and>
    Replicas a \<le> int (length (pods a)) \<and> (statefulset a \<noteq> None \<or> deployment a \<noteq> None)"
proof -
  have "IsClosed a \<or> pods a \<noteq> []" if "statefulset a = None" "deployment a = None"
    using that assms(1) third_is_custom [of a] by (auto simp: IsClosed_def IsEmpty_def)
  then show ?thesis
    using assms
    by (auto simp: GetServiceStatus_internal failing_status_def split: if_splits)
qed

text \<open>
  For a third-party component the endpoints never influence the status: every third-party
  component also counts as custom, so the endpoint branches of the status and of
  \<^verbatim>\<open>IsClosed\<close> are unreachable and only the workload object decides.
\<close>

theorem third_party_ignores_endpoints:
  assumes "IsThirdComponent a"
  shows "GetServiceStatus um (Some (a\<lparr>endpoints := eds\<rparr>)) = GetServiceStatus um (Some a) \<and>
    IsClosed (a\<lparr>endpoints := eds\<rparr>) = IsClosed a \<and>
    (workload a = None \<longrightarrow> GetServiceStatus um (Some (a\<lparr>endpoints := eds\<rparr>)) = Inr CLOSED)"
proof -
  have "IsCustomComponent a" "IsCustomComponent (a\<lparr>endpoints := eds\<rparr>)"
    using assms by (simp_all add: IsThirdComponent_def IsCustomComponent_def)
  then show ?thesis by (simp add: GetServiceStatus_custom IsClosed_def)
qed

section \<open>Shutting a component down\<close>

lemma fold_DeletePods:
  assumes "names_distinct pod_name (pods a)"
  shows "fold DeletePods ps a =
    a\<lparr>pods := filter (\<lambda>p. pod_name p \<notin> pod_name ` set ps) (pods a)\<rparr>"
  using assms
proof (induction ps arbitrary: a)
  case (Cons q ps)
  let ?a = "DeletePods q a"
  have pods: "pods ?a = filter (\<lambda>p. pod_name p \<noteq> pod_name q) (pods a)"
    using Cons.prems by (simp add: DeletePods_def del_named_filter)
  then have "names_distinct pod_name (pods ?a)"
    using Cons.prems by (simp add: distinct_map_filter)
  then have "fold DeletePods ps ?a =
      ?a\<lparr>pods := filter (\<lambda>p. pod_name p \<notin> pod_name ` set ps) (pods ?a)\<rparr>"
    by (rule Cons.IH)
  also have "filter (\<lambda>p. pod_name p \<notin> pod_name ` set ps) (pods ?a) =
      filter (\<lambda>p. pod_name p \<notin> pod_name ` set (q # ps)) (pods a)"
    unfolding pods filter_filter by (rule filter_cong) auto
  finally show ?case by (simp add: DeletePods_def)
qed simp

text \<open>
  C32: Once the workload objects of an internal component are gone, deleting pods in any order and
  any number of times leads to closed: the component is stopping as long as a pod remains that is
  not on a lost node, and closed from then on.
\<close>

theorem shutdown_closes:
  assumes "\<not> IsCustomComponent a" and "caches_wf a"
  shows "GetServiceStatus um
      (Some (fold DeletePods ps (DeleteDeployment d (DeleteStatefulSet s a)))) =
    Inr (if \<forall>p \<in> set (pods a). pod_name p \<in> pod_name ` set ps \<or> IsPodNodeLost p
         then CLOSED else STOPPING)"
proof -
  let ?a = "DeleteDeployment d (DeleteStatefulSet s a)"
  let ?ps = "filter (\<lambda>p. pod_name p \<notin> pod_name ` set ps) (pods a)"
  have run: "fold DeletePods ps ?a = ?a\<lparr>pods := ?ps\<rparr>"
    using assms(2) by (subst fold_DeletePods) (simp_all add: caches_wf_def DeleteDeployment_def
      DeleteStatefulSet_def)
  have custom: "\<not> IsCustomComponent (?a\<lparr>pods := ?ps\<rparr>)"
    using assms(1)
    by (simp add: IsCustomComponent_def DeleteDeployment_def DeleteStatefulSet_def split: if_splits)
  have none: "statefulset (?a\<lparr>pods := ?ps\<rparr>) = None" "deployment (?a\<lparr>pods := ?ps\<rparr>) = None"
    by (simp_all add: DeleteDeployment_def DeleteStatefulSet_def)
  have closed: "IsClosed (?a\<lparr>pods := ?ps\<rparr>) \<longleftrightarrow>
      (\<forall>p \<in> set (pods a). pod_name p \<in> pod_name ` set ps \<or> IsPodNodeLost p)"
    using custom none third_is_custom [of "?a\<lparr>pods := ?ps\<rparr>"]
    by (auto simp: IsClosed_def IsEmpty_iff)
  have "0 < length ?ps" if "\<not> IsClosed (?a\<lparr>pods := ?ps\<rparr>)"
    using that closed by (auto simp: filter_empty_conv)
  then show ?thesis
    unfolding run GetServiceStatus_internal [OF custom] using closed none by auto
qed

section \<open>Witnesses\<close>

definition sample_deployment :: "int \<Rightarrow> int \<Rightarrow> deployment" where
  "sample_deployment want ready = \<lparr>d_addr = 0, d_kind = [], d_meta = zero_meta\<lparr>ResourceVersion := ''7''\<rparr>,
     d_replicas = Some want,
     d_template = \<lparr>t_labels = [(''version'', ''2'')], Containers = [], InitContainers = []\<rparr>,
     d_ready = ready\<rparr>"

definition sample_statefulset :: statefulset where
  "sample_statefulset = \<lparr>s_addr = 1, s_kind = [], s_meta = zero_meta, s_replicas = Some 1,
     s_template = \<lparr>t_labels = [], Containers = [], InitContainers = []\<rparr>, s_ready = 0,
     s_update_revision = []\<rparr>"

definition sample_app :: "int \<Rightarrow> int \<Rightarrow> pod list \<Rightarrow> app_service" where
  "sample_app want ready ps = zero_app\<lparr>ServiceKind := ServiceKindInternal, DeployVersion := ''2'',
     Replicas := want, deployment := Some (sample_deployment want ready), pods := ps\<rparr>"

definition failed_pod :: "string \<Rightarrow> pod" where
  "failed_pod n = (sample_pod n ''2'' 0)\<lparr>ContainerStatuses :=
     [\<lparr>cs_image = ''i'', cs_terminated = Some 1, cs_last_terminated = None,
       cs_ready = False, cs_waiting = None\<rparr>]\<rparr>"

lemmas status_sample_defs = sample_defs sample_deployment_def sample_app_def failed_pod_def

lemma sample_app_internal [simp]: "\<not> IsCustomComponent (sample_app want ready ps)"
  by (simp add: IsCustomComponent_def sample_app_def ServiceKindInternal_def ServiceKindCustom_def
      ServiceKindThirdParty_def)

lemma sample_app_open [simp]: "\<not> IsClosed (sample_app want ready ps)"
  using sample_app_internal [of want ready ps] third_is_custom
  by (auto simp: IsClosed_def sample_app_def sample_deployment_def zero_app_def)

lemma status_running_iff_witness:
  "GetServiceStatus (\<lambda>_. None) (Some (sample_app 1 1 [sample_pod ''a'' ''2'' 0])) = Inr RUNNING \<and>
   GetServiceStatus (\<lambda>_. None) (Some (sample_app 1 1 [sample_pod ''a'' ''1'' 0])) = Inr UPGRADE"
  using status_running_iff [of "sample_app 1 1 [sample_pod ''a'' ''2'' 0]" "\<lambda>_. None"]
    status_running_iff [of "sample_app 1 1 [sample_pod ''a'' ''1'' 0]" "\<lambda>_. None"]
  by (simp add: Ready_def) (simp add: status_sample_defs)

lemma status_abnormal_sound_witness:
  "GetServiceStatus (\<lambda>_. None) (Some (sample_app 1 0 [failed_pod ''a''])) = Inr ABNORMAL \<and>
   isHaveTerminatedContainer (pods (sample_app 1 0 [failed_pod ''a'']))"
proof -
  have st: "GetServiceStatus (\<lambda>_. None) (Some (sample_app 1 0 [failed_pod ''a''])) = Inr ABNORMAL"
    by (simp add: GetServiceStatus_internal Ready_def failing_status_def isHaveTerminatedContainer_def)
      (simp add: status_sample_defs)
  then show ?thesis
    using status_abnormal_sound [of "sample_app 1 0 [failed_pod ''a'']" "\<lambda>_. None"] by simp
qed

lemma third_party_ignores_endpoints_witness:
  "GetServiceStatus (\<lambda>_. None) (Some (zero_app\<lparr>ServiceKind := ServiceKindThirdParty,
     endpoints := [\<lparr>e_meta = zero_meta, Subsets = [\<lparr>Addresses = [''10.0.0.1''], Ports = [80]\<rparr>]\<rparr>]\<rparr>)) =
   Inr CLOSED"
proof -
  have third: "IsThirdComponent (zero_app\<lparr>ServiceKind := ServiceKindThirdParty\<rparr>)"
    by (simp add: IsThirdComponent_def)
  have none: "workload (zero_app\<lparr>ServiceKind := ServiceKindThirdParty\<rparr>) = None"
    by (simp add: zero_app_def)
  show ?thesis
    using third_party_ignores_endpoints [OF third, of "\<lambda>_. None"
      "[\<lparr>e_meta = zero_meta, Subsets = [\<lparr>Addresses = [''10.0.0.1''], Ports = [80]\<rparr>]\<rparr>]"] none
    by blast
qed

lemma shutdown_closes_witness:
  "GetServiceStatus (\<lambda>_. None) (Some (fold DeletePods [sample_pod ''a'' ''2'' 0]
     (DeleteDeployment (sample_deployment 2 2) (DeleteStatefulSet sample_statefulset
       (sample_app 2 2 [sample_pod ''a'' ''2'' 0, sample_pod ''b'' ''2'' 0]))))) = Inr STOPPING \<and>
   GetServiceStatus (\<lambda>_. None) (Some (fold DeletePods [sample_pod ''b'' ''2'' 0, sample_pod ''a'' ''2'' 0]
     (DeleteDeployment (sample_deployment 2 2) (DeleteStatefulSet sample_statefulset
       (sample_app 2 2 [sample_pod ''a'' ''2'' 0, sample_pod ''b'' ''2'' 0]))))) = Inr CLOSED"
proof -
  let ?a = "sample_app 2 2 [sample_pod ''a'' ''2'' 0, sample_pod ''b'' ''2'' 0]"
  have wf: "caches_wf ?a" by (simp add: caches_wf_def status_sample_defs)
  show ?thesis
    unfolding shutdown_closes [OF sample_app_internal wf]
    by (simp add: sample_app_def IsPodNodeLost_def sample_pod_def zero_meta_def)
qed

end
