(* ===== verification/App_Init.thy ===== *)
theory App_Init
  imports App_Status
begin

text \<open>
  How a component enters the cache: \<^verbatim>\<open>InitCacheAppService\<close> of
  \<^verbatim>\<open>src/worker/appm/conversion/conversion.go\<close> builds its record from the database
  (\<^verbatim>\<open>service.go\<close> and the entry of \<^verbatim>\<open>gateway.go\<close>).

  The database is a record of tables with one failure flag per query. A query for one row scans the
  matching rows in order into the same struct, so the last one remains. What is not a table is a
  field of \<open>database\<close> too: the window label and discovery look-ups, the clock
  (\<open>time_version\<close>), the allocator (\<open>fresh_addr\<close>) and the builder of the services,
  ingresses and secrets of a component (\<open>k8s_build\<close>), whose result the code only stores and which
  can panic; the builder itself is modelled in \<open>Rule_Conversion\<close>.
\<close>

section \<open>The database\<close>

record service_row =
  sr_ID :: int
  sr_TenantEnvID :: string
  sr_ServiceID :: string
  sr_ServiceAlias :: string
  sr_ContainerRequestCPU :: int
  sr_ContainerCPU :: int
  sr_ContainerRequestMemory :: int
  sr_ContainerMemory :: int
  sr_ContainerGPUType :: string
  sr_ContainerGPU :: int
  sr_UpgradeMethod :: string
  sr_ExtendMethod :: string
  sr_Replicas :: int
  sr_DeployVersion :: string
  sr_Kind :: string
  sr_AppID :: string
  sr_K8sComponentName :: string

record env_row =
  er_UUID :: string
  er_Name :: string
  er_Namespace :: string
  er_TenantID :: string
  er_TenantName :: string

record application_row =
  ar_AppID :: string
  ar_GovernanceMode :: string
  ar_K8sApp :: string

record version_row =
  vr_ServiceID :: string
  vr_FinalStatus :: string

datatype db_query =
  QServiceByID | QServicesByIDs | QDeletedByID | QServicesByApp | QTenantEnv | QApplication
| QVersions | QVersionsByIDs

datatype db_error = RecordNotFound | DBFailure

type_synonym k8s_resources = "named_obj list \<times> any_ingress list \<times> named_obj list"

record database =
  tenant_env_services :: "service_row list"
  tenant_env_services_delete :: "service_row list"
  tenant_envs :: "env_row list"
  applications :: "application_row list"
  version_infos :: "version_row list"
  query_fails :: "db_query \<Rightarrow> bool"
  discovery_cfgs :: "string \<Rightarrow> discovery_cfg option"
  windows_label :: "string \<Rightarrow> bool"
  time_version :: string
  fresh_addr :: nat
  k8s_build :: "app_service \<Rightarrow> (string + k8s_resources option) go"

definition find_row :: "('r \<Rightarrow> bool) \<Rightarrow> 'r list \<Rightarrow> 'r option" where
  "find_row P rows = find P (rev rows)"

definition one_row :: "database \<Rightarrow> db_query \<Rightarrow> ('r \<Rightarrow> bool) \<Rightarrow> 'r list \<Rightarrow> db_error + 'r" where
  "one_row db q P rows =
     (if query_fails db q then Inl DBFailure
      else case find_row P rows of None \<Rightarrow> Inl RecordNotFound | Some r \<Rightarrow> Inr r)"

definition GetServiceByID :: "database \<Rightarrow> string \<Rightarrow> db_error + service_row" where
  "GetServiceByID db sid =
     one_row db QServiceByID (\<lambda>r. sr_ServiceID r = sid) (tenant_env_services db)"

definition GetDeletedServiceByID :: "database \<Rightarrow> string \<Rightarrow> db_error + service_row" where
  "GetDeletedServiceByID db sid =
     one_row db QDeletedByID (\<lambda>r. sr_ServiceID r = sid) (tenant_env_services_delete db)"

definition GetServiceByIDs :: "database \<Rightarrow> string list \<Rightarrow> db_error + service_row list" where
  "GetServiceByIDs db uids =
     (if query_fails db QServicesByIDs then Inl DBFailure
      else Inr (filter (\<lambda>r. sr_ServiceID r \<in> set uids) (tenant_env_services db)))"

definition ListByAppID :: "database \<Rightarrow> string \<Rightarrow> db_error + service_row list" where
  "ListByAppID db appID =
     (if query_fails db QServicesByApp then Inl DBFailure
      else Inr (filter (\<lambda>r. sr_AppID r = appID) (tenant_env_services db)))"

definition GetTenantEnvByUUID :: "database \<Rightarrow> string \<Rightarrow> db_error + env_row" where
  "GetTenantEnvByUUID db uuid = one_row db QTenantEnv (\<lambda>r. er_UUID r = uuid) (tenant_envs db)"

definition GetVersionByServiceID :: "database \<Rightarrow> string \<Rightarrow> db_error + version_row list" where
  "GetVersionByServiceID db sid =
     (if query_fails db QVersions then Inl DBFailure
      else Inr (filter (\<lambda>r. vr_ServiceID r = sid \<and> vr_FinalStatus r = ''success'') (version_infos db)))"

definition ListVersionsByComponentIDs :: "database \<Rightarrow> string list \<Rightarrow> db_error + version_row list" where
  "ListVersionsByComponentIDs db ids =
     (if query_fails db QVersionsByIDs then Inl DBFailure
      else Inr (filter (\<lambda>r. vr_ServiceID r \<in> set ids \<and> vr_FinalStatus r = ''success'') (version_infos db)))"

text \<open>
  \<^verbatim>\<open>ApplicationDao().GetByServiceID\<close>: the application whose id the service's row names; a missing
  row is \<^verbatim>\<open>ErrApplicationNotFound\<close>.
\<close>

definition GetByServiceID :: "database \<Rightarrow> string \<Rightarrow> db_error + application_row" where
  "GetByServiceID db sid =
     one_row db QApplication
       (\<lambda>r. (case find_row (\<lambda>s. sr_ServiceID s = sid) (tenant_env_services db) of
               None \<Rightarrow> False | Some s \<Rightarrow> ar_AppID r = sr_AppID s))
       (applications db)"

section \<open>Building the record\<close>

datatype init_error = ErrServiceNotFound | InitFailure string

definition GovernanceModeBuildInServiceMesh :: string where
  "GovernanceModeBuildInServiceMesh = ''BUILD_IN_SERVICE_MESH''"

definition GovernanceModeKubernetesNativeService :: string where
  "GovernanceModeKubernetesNativeService = ''KUBERNETES_NATIVE_SERVICE''"

definition GovernanceModeIstioServiceMesh :: string where
  "GovernanceModeIstioServiceMesh = ''ISTIO_SERVICE_MESH''"

text \<open>
  \<^verbatim>\<open>NewAppGoveranceModeHandler\<close> followed by \<^verbatim>\<open>GetInjectLabels\<close>: only the Istio
  mode has a label, an unknown mode is logged and has none.
\<close>

definition getInjectLabels :: "app_service \<Rightarrow> string gomap" where
  "getInjectLabels a =
     (if GovernanceMode a = GovernanceModeIstioServiceMesh then [(''sidecar.istio.io/inject'', ''true'')]
      else if GovernanceMode a = GovernanceModeBuildInServiceMesh then []
      else if GovernanceMode a = GovernanceModeKubernetesNativeService then []
      else [])"

definition ServiceType_IsState :: "string \<Rightarrow> bool" where
  "ServiceType_IsState s = (if s = ''state_multiple'' \<or> s = ''state_singleton'' then True else False)"

definition IsState :: "service_row \<Rightarrow> bool" where
  "IsState t = (if sr_ExtendMethod t = [] then False else ServiceType_IsState (sr_ExtendMethod t))"

definition initTenantEnv :: "env_row \<Rightarrow> app_service \<Rightarrow> init_error + app_service" where
  "initTenantEnv t a =
     (if er_Namespace t = [] then Inl (InitFailure ''tenant env is invalid'')
      else Inr (SetTenantEnv
        (Some \<lparr>o_meta = zero_meta\<lparr>Name := er_Namespace t, Labels := [(''creator'', ''Wutong'')]\<rparr>,
               o_data = []\<rparr>) a))"

text \<open>The tenant of an environment, as \<^verbatim>\<open>GetCommonLabels\<close> looks it up.\<close>

definition tenant_of :: "database \<Rightarrow> string \<Rightarrow> (string \<times> string) option" where
  "tenant_of db uuid = (case GetTenantEnvByUUID db uuid of
       Inl _ \<Rightarrow> None | Inr t \<Rightarrow> Some (er_TenantID t, er_TenantName t))"

definition empty_template :: pod_template where
  "empty_template = \<lparr>t_labels = [], Containers = [], InitContainers = []\<rparr>"

definition initBaseDeployment :: "database \<Rightarrow> service_row \<Rightarrow> app_service \<Rightarrow> app_service go" where
  "initBaseDeployment db service a0 =
     (let a = a0\<lparr>ServiceType := ''deployment''\<rparr>;
          d = (case GetDeployment a of Some d \<Rightarrow> d
               | None \<Rightarrow> \<lparr>d_addr = fresh_addr db, d_kind = [], d_meta = zero_meta, d_replicas = None,
                          d_template = empty_template, d_ready = 0\<rparr>)
      in bind_go (GetNamespace a) (\<lambda>ns.
           SetDeployment (d\<lparr>d_meta := (d_meta d)\<lparr>Namespace := ns, Name := GetK8sWorkloadName a,
               Labels := GetCommonLabels (tenant_of db)
                 [Labels (d_meta d),
                  [(''name'', sr_ServiceAlias service), (''version'', sr_DeployVersion service)],
                  getInjectLabels a] a\<rparr>,
             d_replicas := Some (wrap32 (sr_Replicas service))\<rparr>) a))"

definition initBaseStatefulSet :: "database \<Rightarrow> service_row \<Rightarrow> app_service \<Rightarrow> app_service go" where
  "initBaseStatefulSet db service a0 =
     (let a = a0\<lparr>ServiceType := ''statefulset''\<rparr>;
          d = (case GetStatefulSet a of Some d \<Rightarrow> d
               | None \<Rightarrow> \<lparr>s_addr = fresh_addr db, s_kind = [], s_meta = zero_meta, s_replicas = None,
                          s_template = empty_template, s_ready = 0, s_update_revision = []\<rparr>)
      in bind_go (GetNamespace a) (\<lambda>ns.
           SetStatefulSet (d\<lparr>s_meta := (s_meta d)\<lparr>Namespace := ns, Name := GetK8sWorkloadName a,
               Labels := GetCommonLabels (tenant_of db)
                 [Labels (s_meta d),
                  [(''name'', sr_ServiceAlias service), (''version'', sr_DeployVersion service)],
                  getInjectLabels a] a\<rparr>,
             s_replicas := Some (wrap32 (sr_Replicas service))\<rparr>) a))"

text \<open>The fields every kind of component gets, before the namespace is set up.\<close>

definition base_fields :: "database \<Rightarrow> service_row \<Rightarrow> env_row \<Rightarrow> app_service \<Rightarrow> app_service" where
  "base_fields db r t a =
     a\<lparr>ServiceKind := sr_Kind r,
       TenantEnvID := sr_TenantEnvID r,
       DeployVersion := (if DeployVersion a = [] then sr_DeployVersion r else DeployVersion a),
       AppID := sr_AppID r,
       ServiceAlias := sr_ServiceAlias r,
       UpgradeMethod := sr_UpgradeMethod r,
       K8sComponentName := (if sr_K8sComponentName r = [] then sr_ServiceAlias r else sr_K8sComponentName r),
       CreaterID := (if CreaterID a = [] then time_version db else CreaterID a),
       TenantEnvName := er_Name t\<rparr>"

definition resource_fields :: "database \<Rightarrow> service_row \<Rightarrow> app_service \<Rightarrow> app_service" where
  "resource_fields db r a =
     a\<lparr>IsWindowsService := (if windows_label db (ServiceID a) then True else IsWindowsService a),
       ContainerRequestCPU := sr_ContainerRequestCPU r,
       ContainerCPU := sr_ContainerCPU r,
       ContainerGPUType := sr_ContainerGPUType r,
       ContainerGPU := sr_ContainerGPU r,
       ContainerRequestMemory := sr_ContainerRequestMemory r,
       ContainerMemory := sr_ContainerMemory r,
       Replicas := sr_Replicas r\<rparr>"

definition TenantEnvServiceBase ::
  "database \<Rightarrow> app_service \<Rightarrow> (init_error + app_service) go" where
  "TenantEnvServiceBase db a = (case GetServiceByID db (ServiceID a) of
       Inl RecordNotFound \<Rightarrow> Inr (Inl ErrServiceNotFound)
     | Inl DBFailure \<Rightarrow> Inr (Inl (InitFailure ''error getting service base info''))
     | Inr r \<Rightarrow> (case GetTenantEnvByUUID db (sr_TenantEnvID r) of
         Inl _ \<Rightarrow> Inr (Inl (InitFailure ''get tenant env info failure''))
       | Inr t \<Rightarrow> (case initTenantEnv t (base_fields db r t a) of
           Inl _ \<Rightarrow> Inr (Inl (InitFailure ''conversion tenant env info failure''))
         | Inr a1 \<Rightarrow>
             (if sr_Kind r = ServiceKindThirdParty
              then Inr (Inr (SetDiscoveryCfg (discovery_cfgs db (ServiceID a1)) a1))
              else if sr_Kind r = ServiceKindCustom then Inr (Inr a1)
              else let a2 = resource_fields db r a1
                in if \<not> IsState r
                   then bind_go (initBaseDeployment db r a2) (\<lambda>b. Inr (Inr b))
                   else bind_go (initBaseStatefulSet db r a2) (\<lambda>b. Inr (Inr b))))))"

text \<open>\<^verbatim>\<open>AppServiceBuilder\<close> reads the two rows again; then the built objects are stored.\<close>

definition TenantEnvServiceRegist :: "database \<Rightarrow> app_service \<Rightarrow> (init_error + app_service) go" where
  "TenantEnvServiceRegist db a = (case GetServiceByID db (ServiceID a) of
       Inl _ \<Rightarrow> Inr (Inl (InitFailure ''find service error''))
     | Inr r \<Rightarrow> (case GetTenantEnvByUUID db (sr_TenantEnvID r) of
         Inl _ \<Rightarrow> Inr (Inl (InitFailure ''find tenant env error''))
       | Inr t \<Rightarrow> bind_go (k8s_build db a) (\<lambda>k8s. Inr (case k8s of
           Inl e \<Rightarrow> Inl (InitFailure e)
         | Inr None \<Rightarrow> Inr a
         | Inr (Some (svcs, ings, secs)) \<Rightarrow>
             (let a1 = fold SetService svcs a;
                  a2 = fold SetIngress ings a1;
                  a3 = fold (\<lambda>d. SetSecret (Some d)) secs a2
              in Inr a3)))))"

definition new_app :: "string \<Rightarrow> string \<Rightarrow> app_service" where
  "new_app serviceID creatorID =
     zero_app\<lparr>ServiceID := serviceID, CreaterID := creatorID, ExtensionSet := Some [],
       GovernanceMode := GovernanceModeBuildInServiceMesh\<rparr>"

definition InitCacheAppService ::
  "database \<Rightarrow> string \<Rightarrow> string \<Rightarrow> (init_error + app_service) go" where
  "InitCacheAppService db serviceID creatorID =
     (let a = new_app serviceID creatorID;
          with_app = (case GetByServiceID db serviceID of
              Inl DBFailure \<Rightarrow> None
            | Inl RecordNotFound \<Rightarrow> Some a
            | Inr app \<Rightarrow> Some (a\<lparr>GovernanceMode := ar_GovernanceMode app, K8sApp := ar_K8sApp app\<rparr>))
      in case with_app of
           None \<Rightarrow> Inr (Inl (InitFailure ''get app based on service id''))
         | Some a1 \<Rightarrow> bind_go (TenantEnvServiceBase db a1) (\<lambda>r. case r of
             Inl e \<Rightarrow> Inr (Inl e)
           | Inr a2 \<Rightarrow> (case GetServiceByID db serviceID of
               Inl _ \<Rightarrow> Inr (Inl (InitFailure ''get service''))
             | Inr svc \<Rightarrow>
                 (if sr_Kind svc = ServiceKindThirdParty
                  then TenantEnvServiceRegist db a2
                  else Inr (Inr a2)))))"

section \<open>What a freshly built record looks like\<close>

lemma SetDeployment_Some:
  "d_replicas d = Some r \<Longrightarrow> \<exists>b. SetDeployment d a = Inr b \<and> deployment b = Some d \<and>
     workload b = Some \<lparr>w_kind = d_kind d, w_obj = WDeployment d\<rparr> \<and> statefulset b = statefulset a \<and>
     pods b = pods a \<and> ServiceID b = ServiceID a \<and> ServiceKind b = ServiceKind a \<and>
     caches_wf b = caches_wf a \<and> tenantEnv b = tenantEnv a"
  by (simp add: SetDeployment_def Let_def calculateComponentMemoryRequest_def version_from_def
      caches_wf_def split: option.splits)

lemma SetStatefulSet_Some:
  "s_replicas d = Some r \<Longrightarrow> \<exists>b. SetStatefulSet d a = Inr b \<and> statefulset b = Some d \<and>
     workload b = Some \<lparr>w_kind = s_kind d, w_obj = WStatefulSet d\<rparr> \<and> deployment b = deployment a \<and>
     pods b = pods a \<and> ServiceID b = ServiceID a \<and> ServiceKind b = ServiceKind a \<and>
     caches_wf b = caches_wf a \<and> tenantEnv b = tenantEnv a"
  by (simp add: SetStatefulSet_def Let_def calculateComponentMemoryRequest_def version_from_def
      caches_wf_def split: option.splits)

text \<open>
  The state of a record that was built for the cache: which workload it has depends on the kind
  of the component alone.
\<close>

definition fresh_workload :: "service_row \<Rightarrow> app_service \<Rightarrow> bool" where
  "fresh_workload r a \<longleftrightarrow>
     (if sr_Kind r = ServiceKindThirdParty \<or> sr_Kind r = ServiceKindCustom
      then workload a = None \<and> deployment a = None \<and> statefulset a = None
      else if IsState r
      then deployment a = None \<and> (\<exists>s. statefulset a = Some s \<and> ResourceVersion (s_meta s) = [] \<and>
             workload a = Some \<lparr>w_kind = [], w_obj = WStatefulSet s\<rparr>)
      else statefulset a = None \<and> (\<exists>d. deployment a = Some d \<and> ResourceVersion (d_meta d) = [] \<and>
             workload a = Some \<lparr>w_kind = [], w_obj = WDeployment d\<rparr>))"

definition fresh_app :: "service_row \<Rightarrow> string \<Rightarrow> app_service \<Rightarrow> bool" where
  "fresh_app r sid a \<longleftrightarrow> ServiceID a = sid \<and> ServiceKind a = sr_Kind r \<and> pods a = [] \<and>
     tenantEnv a \<noteq> None \<and> caches_wf a \<and> fresh_workload r a"

lemma init_workload:
  assumes "deployment a = None" and "statefulset a = None" and "tenantEnv a \<noteq> None"
  shows "\<exists>b d. initBaseDeployment db r a = Inr b \<and> deployment b = Some d \<and>
      ResourceVersion (d_meta d) = [] \<and> workload b = Some \<lparr>w_kind = [], w_obj = WDeployment d\<rparr> \<and>
      statefulset b = None \<and> pods b = pods a \<and> ServiceID b = ServiceID a \<and>
      ServiceKind b = ServiceKind a \<and> caches_wf b = caches_wf a \<and> tenantEnv b = tenantEnv a"
    and "\<exists>b d. initBaseStatefulSet db r a = Inr b \<and> statefulset b = Some d \<and>
      ResourceVersion (s_meta d) = [] \<and> workload b = Some \<lparr>w_kind = [], w_obj = WStatefulSet d\<rparr> \<and>
      deployment b = None \<and> pods b = pods a \<and> ServiceID b = ServiceID a \<and>
      ServiceKind b = ServiceKind a \<and> caches_wf b = caches_wf a \<and> tenantEnv b = tenantEnv a"
  using assms
  by (auto simp: initBaseDeployment_def initBaseStatefulSet_def Let_def GetNamespace_def
      GetDeployment_def GetStatefulSet_def SetDeployment_def SetStatefulSet_def version_from_def
      empty_template_def calculateComponentMemoryRequest_def caches_wf_def zero_meta_def)

lemma caches_wf_SetIngress [simp]: "caches_wf (SetIngress i a) = caches_wf a"
  by (simp add: caches_wf_def SetIngress_def split: any_ingress.splits)

lemma fresh_app_store:
  assumes "fresh_app r sid a"
  shows "fresh_app r sid (SetService d a)" "fresh_app r sid (SetIngress i a)"
    "fresh_app r sid (SetSecret (Some d) a)"
proof -
  have cong: "fresh_app r sid b"
    if "ServiceID b = ServiceID a" "ServiceKind b = ServiceKind a" "pods b = pods a"
      "tenantEnv b = tenantEnv a" "workload b = workload a" "deployment b = deployment a"
      "statefulset b = statefulset a" "caches_wf b" for b
    using assms that(8) unfolding fresh_app_def fresh_workload_def that(1-7) by blast
  have wf: "caches_wf a" using assms by (simp add: fresh_app_def)
  show "fresh_app r sid (SetService d a)"
    by (rule cong) (simp_all add: wf, simp_all add: SetService_def)
  show "fresh_app r sid (SetIngress i a)"
    by (rule cong) (simp_all add: wf, simp_all add: SetIngress_def split: any_ingress.splits)
  show "fresh_app r sid (SetSecret (Some d) a)"
    by (rule cong) (simp_all add: wf, simp_all add: SetSecret_def)
qed

lemma fold_keeps: "P a \<Longrightarrow> (\<And>x a. P a \<Longrightarrow> P (f x a)) \<Longrightarrow> P (fold f xs a)"
  by (induction xs arbitrary: a) simp_all

lemma TenantEnvServiceRegist_fresh:
  assumes "TenantEnvServiceRegist db a = Inr (Inr b)" and "fresh_app r sid a"
  shows "fresh_app r sid b"
proof -
  have "fresh_app r sid
      (fold (\<lambda>d. SetSecret (Some d)) secs (fold SetIngress ings (fold SetService svcs a)))"
    for secs ings svcs
    by (rule fold_keeps [of "fresh_app r sid", OF fold_keeps [of "fresh_app r sid",
          OF fold_keeps [of "fresh_app r sid", OF assms(2)]]]) (erule fresh_app_store)+
  then show ?thesis
    using assms by (auto simp: TenantEnvServiceRegist_def Let_def bind_go_def split: sum.splits option.splits)
qed

text \<open>Only the builder can panic.\<close>

definition builder_ok :: "database \<Rightarrow> bool" where
  "builder_ok db \<longleftrightarrow> (\<forall>a. \<exists>k8s. k8s_build db a = Inr k8s)"

lemma TenantEnvServiceRegist_panics: "TenantEnvServiceRegist db a = Inl p \<Longrightarrow> \<not> builder_ok db"
  by (auto simp: TenantEnvServiceRegist_def builder_ok_def bind_go_def split: sum.splits) (metis sum.distinct(1))

lemma caches_wf_base [simp]:
  "caches_wf (base_fields db r t a) = caches_wf a"
  "caches_wf (resource_fields db r a) = caches_wf a"
  "caches_wf (SetTenantEnv x a) = caches_wf a"
  "caches_wf (SetDiscoveryCfg c a) = caches_wf a"
  by (simp_all add: caches_wf_def base_fields_def resource_fields_def SetTenantEnv_def SetDiscoveryCfg_def)

definition blank_app :: "string \<Rightarrow> app_service \<Rightarrow> bool" where
  "blank_app sid a \<longleftrightarrow> ServiceID a = sid \<and> pods a = [] \<and> caches_wf a \<and> workload a = None \<and>
     deployment a = None \<and> statefulset a = None"

lemma initTenantEnv_blank:
  assumes "blank_app sid a" and "initTenantEnv t (base_fields db r t a) = Inr b"
  shows "blank_app sid b" "ServiceKind b = sr_Kind r" "tenantEnv b \<noteq> None"
    "blank_app sid (resource_fields db r b)" "ServiceKind (resource_fields db r b) = sr_Kind r"
    "tenantEnv (resource_fields db r b) \<noteq> None"
proof -
  show "blank_app sid b" "ServiceKind b = sr_Kind r" "tenantEnv b \<noteq> None"
    using assms unfolding blank_app_def
    by (auto simp: initTenantEnv_def split: if_splits)
      (auto simp: base_fields_def SetTenantEnv_def)
  then show "blank_app sid (resource_fields db r b)" "ServiceKind (resource_fields db r b) = sr_Kind r"
    "tenantEnv (resource_fields db r b) \<noteq> None"
    unfolding blank_app_def caches_wf_base by (simp_all add: resource_fields_def)
qed

text \<open>
  \<^verbatim>\<open>TenantEnvServiceBase\<close> returns without a panic; on success the record is fresh for the row.
\<close>

lemma TenantEnvServiceBase_fresh:
  assumes "blank_app sid a"
  shows "\<exists>res. TenantEnvServiceBase db a = Inr res \<and>
    (\<forall>b. res = Inr b \<longrightarrow> (\<exists>r. GetServiceByID db sid = Inr r \<and> fresh_app r sid b))"
proof -
  have sid: "ServiceID a = sid" using assms by (simp add: blank_app_def)
  show ?thesis
  proof (cases "GetServiceByID db sid")
    case (Inl e)
    then show ?thesis by (cases e) (simp_all add: TenantEnvServiceBase_def sid)
  next
    case (Inr r)
    show ?thesis
    proof (cases "GetTenantEnvByUUID db (sr_TenantEnvID r)")
      case (Inl e)
      with Inr show ?thesis by (simp add: TenantEnvServiceBase_def sid)
    next
      case (Inr t)
      note row = \<open>GetServiceByID db sid = Inr r\<close> Inr
      show ?thesis
      proof (cases "initTenantEnv t (base_fields db r t a)")
        case (Inl e)
        with row show ?thesis by (simp add: TenantEnvServiceBase_def sid)
      next
        case (Inr b)
        note blank = initTenantEnv_blank [OF assms Inr]
        have third: "fresh_app r sid (SetDiscoveryCfg c b)" "fresh_app r sid b"
          if "sr_Kind r = ServiceKindThirdParty \<or> sr_Kind r = ServiceKindCustom" for c
          using that blank(1-3) unfolding fresh_app_def blank_app_def
          by (simp_all add: fresh_workload_def) (simp_all add: SetDiscoveryCfg_def)
        let ?c = "resource_fields db r b"
        have wl: "deployment ?c = None" "statefulset ?c = None"
          using blank(4) by (simp_all add: blank_app_def)
        note init = init_workload [OF wl blank(6), of db r]
        show ?thesis
          using row Inr third init blank(4-6)
          unfolding TenantEnvServiceBase_def sid Let_def fresh_app_def blank_app_def fresh_workload_def
          by auto
      qed
    qed
  qed
qed

lemma new_app_blank: "blank_app sid (new_app sid cid)"
  "blank_app sid ((new_app sid cid)\<lparr>GovernanceMode := g, K8sApp := k\<rparr>)"
  by (simp_all add: blank_app_def new_app_def zero_app_def caches_wf_def)

lemma InitCacheAppService_fresh:
  "(\<forall>b. InitCacheAppService db sid cid = Inr (Inr b) \<longrightarrow> (\<exists>r. GetServiceByID db sid = Inr r \<and> fresh_app r sid b)) \<and>
    (\<forall>p. InitCacheAppService db sid cid = Inl p \<longrightarrow> \<not> builder_ok db)"
proof -
  let ?init = "\<lambda>a. bind_go (TenantEnvServiceBase db a) (\<lambda>r. case r of
             Inl e \<Rightarrow> Inr (Inl e)
           | Inr a2 \<Rightarrow> (case GetServiceByID db sid of
               Inl _ \<Rightarrow> Inr (Inl (InitFailure ''get service''))
             | Inr svc \<Rightarrow>
                 (if sr_Kind svc = ServiceKindThirdParty
                  then TenantEnvServiceRegist db a2
                  else Inr (Inr a2))))"
  have main: "(\<forall>b. ?init a = Inr (Inr b) \<longrightarrow> (\<exists>r. GetServiceByID db sid = Inr r \<and> fresh_app r sid b)) \<and>
      (\<forall>p. ?init a = Inl p \<longrightarrow> \<not> builder_ok db)"
    if blank: "blank_app sid a" for a
  proof -
    obtain res where res: "TenantEnvServiceBase db a = Inr res"
      "\<And>b. res = Inr b \<Longrightarrow> \<exists>r. GetServiceByID db sid = Inr r \<and> fresh_app r sid b"
      using TenantEnvServiceBase_fresh [OF blank] by blast
    show ?thesis
    proof (cases res)
      case (Inl e)
      with res(1) show ?thesis by simp
    next
      case (Inr b)
      then obtain r where "GetServiceByID db sid = Inr r" "fresh_app r sid b"
        using res(2) by blast
      with Inr res(1) show ?thesis
        using TenantEnvServiceRegist_fresh [of db b] TenantEnvServiceRegist_panics [of db b] by auto
    qed
  qed
  show ?thesis
    unfolding InitCacheAppService_def Let_def
    using main [OF new_app_blank(1)] main [OF new_app_blank(2)]
    by (cases "GetByServiceID db sid") (simp_all split: db_error.split)
qed

lemma init_ok:
  assumes "InitCacheAppService db sid cid = Inr (Inr a)"
  obtains r where "GetServiceByID db sid = Inr r" and "fresh_app r sid a"
  using InitCacheAppService_fresh [of db sid cid] assms by auto

lemma init_returns:
  assumes "builder_ok db"
  obtains res where "InitCacheAppService db sid cid = Inr res"
  using InitCacheAppService_fresh [of db sid cid] assms by (cases "InitCacheAppService db sid cid") auto

text \<open>
  Building a component for the cache returns, unless building its routes panics, with an error or
  with a record that has the requested id, no pods and duplicate-free caches; unless the component is a custom one with a
  definition name, its status is closed until Kubernetes objects arrive.
\<close>

theorem fresh_component_closed:
  assumes "builder_ok db"
  shows "\<exists>res. InitCacheAppService db sid cid = Inr res \<and>
    (\<forall>a. res = Inr a \<longrightarrow> ServiceID a = sid \<and> pods a = [] \<and> caches_wf a \<and>
       (\<not> IsCustomComponent a \<or> ServiceKind a \<in> {ServiceKindThirdParty, ServiceKindCustom} \<longrightarrow>
          GetServiceStatus um (Some a) = Inr CLOSED))"
proof -
  have closed: "GetServiceStatus um (Some a) = Inr CLOSED"
    if fresh: "fresh_app r sid a"
      and kind: "\<not> IsCustomComponent a \<or> ServiceKind a \<in> {ServiceKindThirdParty, ServiceKindCustom}"
    for r a
  proof (cases "IsCustomComponent a")
    case True
    then have "workload a = None"
      using fresh kind by (auto simp: fresh_app_def fresh_workload_def)
    with True show ?thesis by (simp add: GetServiceStatus_custom)
  next
    case False
    then have kinds: "sr_Kind r \<noteq> ServiceKindThirdParty" "sr_Kind r \<noteq> ServiceKindCustom"
      using fresh by (auto simp: fresh_app_def IsCustomComponent_def split: if_splits)
    have "IsEmpty a" using fresh by (simp add: fresh_app_def IsEmpty_def)
    then have "IsClosed a"
      using False kinds fresh third_is_custom [of a]
      by (auto simp: IsClosed_def fresh_app_def fresh_workload_def split: if_splits)
    with False show ?thesis by (simp add: GetServiceStatus_internal)
  qed
  obtain res where "InitCacheAppService db sid cid = Inr res"
    using init_returns [OF assms] .
  then show ?thesis
    using InitCacheAppService_fresh [of db sid cid] closed
    by (auto simp: fresh_app_def)
qed

text \<open>
  A custom component with a definition name is cached with a placeholder workload (the test for
  custom components compares the kind with the bare prefix), so it is reported running and not
  closed although no object of it exists in the cluster.
\<close>

theorem fresh_custom_component_runs:
  assumes "InitCacheAppService db sid cid = Inr (Inr a)"
    and "ServiceKind a = ServiceKindCustom @ name" and "name \<noteq> []"
  shows "GetServiceStatus um (Some a) = Inr RUNNING \<and> \<not> IsClosed a \<and> pods a = []"
proof -
  obtain r where fresh: "fresh_app r sid a" using init_ok [OF assms(1)] by blast
  have custom: "IsCustomComponent a" by (simp add: IsCustomComponent_def assms(2))
  have "sr_Kind r \<noteq> ServiceKindThirdParty" "sr_Kind r \<noteq> ServiceKindCustom"
    using fresh assms(2,3)
    by (auto simp: fresh_app_def ServiceKindThirdParty_def ServiceKindCustom_def)
  then obtain w where "workload a = Some w" "w_kind w = []"
    using fresh by (auto simp: fresh_app_def fresh_workload_def split: if_splits)
  with fresh custom show ?thesis
    by (simp add: GetServiceStatus_custom IsClosed_def fresh_app_def)
qed

section \<open>Witnesses\<close>

definition sample_row :: "string \<Rightarrow> string \<Rightarrow> service_row" where
  "sample_row sid kind = \<lparr>sr_ID = 1, sr_TenantEnvID = ''e1'', sr_ServiceID = sid, sr_ServiceAlias = ''al'',
     sr_ContainerRequestCPU = 0, sr_ContainerCPU = 0, sr_ContainerRequestMemory = 0,
     sr_ContainerMemory = 0, sr_ContainerGPUType = [], sr_ContainerGPU = 0,
     sr_UpgradeMethod = ''Rolling'', sr_ExtendMethod = ''stateless_multiple'', sr_Replicas = 1,
     sr_DeployVersion = ''2'', sr_Kind = kind, sr_AppID = ''a1'', sr_K8sComponentName = []\<rparr>"

definition sample_db :: "service_row list \<Rightarrow> database" where
  "sample_db rows = \<lparr>tenant_env_services = rows, tenant_env_services_delete = [],
     tenant_envs = [\<lparr>er_UUID = ''e1'', er_Name = ''env'', er_Namespace = ''ns1'', er_TenantID = ''t1'',
       er_TenantName = ''team''\<rparr>],
     applications = [], version_infos = [\<lparr>vr_ServiceID = ''s1'', vr_FinalStatus = ''success''\<rparr>],
     query_fails = (\<lambda>_. False), discovery_cfgs = (\<lambda>_. None), windows_label = (\<lambda>_. False),
     time_version = ''0'', fresh_addr = 0, k8s_build = (\<lambda>_. Inr (Inr None))\<rparr>"

lemma sample_builder [simp]: "builder_ok (sample_db rows)"
  by (simp add: builder_ok_def sample_db_def)

lemmas db_sample_defs = sample_row_def sample_db_def GetServiceByID_def GetTenantEnvByUUID_def
  GetByServiceID_def one_row_def find_row_def

lemma sample_init_some:
  assumes "kind \<noteq> ServiceKindThirdParty" and "kind \<noteq> ServiceKindCustom"
  obtains a where "InitCacheAppService (sample_db [sample_row ''s1'' kind]) ''s1'' ''c1'' = Inr (Inr a)"
    and "ServiceKind a = kind"
proof -
  let ?db = "sample_db [sample_row ''s1'' kind]"
  have "\<exists>b. InitCacheAppService ?db ''s1'' ''c1'' = Inr (Inr b) \<and> ServiceKind b = kind"
    using assms
    by (simp add: InitCacheAppService_def TenantEnvServiceBase_def new_app_def zero_app_def Let_def
        db_sample_defs initTenantEnv_def base_fields_def SetTenantEnv_def resource_fields_def
        IsState_def ServiceType_IsState_def initBaseDeployment_def GetDeployment_def
        GetNamespace_def SetDeployment_def version_from_def empty_template_def zero_meta_def
        calculateComponentMemoryRequest_def)
  then show ?thesis using that by blast
qed

lemma fresh_component_closed_witness:
  "\<exists>a. InitCacheAppService (sample_db [sample_row ''s1'' ServiceKindInternal]) ''s1'' ''c1'' =
      Inr (Inr a) \<and> GetServiceStatus (\<lambda>_. None) (Some a) = Inr CLOSED"
proof -
  obtain a where a: "InitCacheAppService (sample_db [sample_row ''s1'' ServiceKindInternal]) ''s1'' ''c1'' =
      Inr (Inr a)" "ServiceKind a = ServiceKindInternal"
    by (rule sample_init_some [of ServiceKindInternal])
      (simp_all add: ServiceKindInternal_def ServiceKindThirdParty_def ServiceKindCustom_def)
  have "\<not> IsCustomComponent a"
    by (simp add: IsCustomComponent_def a(2) ServiceKindInternal_def ServiceKindThirdParty_def
        ServiceKindCustom_def)
  then show ?thesis
    using a(1) fresh_component_closed [OF sample_builder, of "[sample_row ''s1'' ServiceKindInternal]"
      "''s1''" "''c1''" "\<lambda>_. None"] by auto
qed

lemma fresh_custom_component_runs_witness:
  "\<exists>a. InitCacheAppService (sample_db [sample_row ''s1'' (ServiceKindCustom @ ''redis'')]) ''s1'' ''c1'' =
      Inr (Inr a) \<and> GetServiceStatus (\<lambda>_. None) (Some a) = Inr RUNNING"
proof -
  obtain a where a: "InitCacheAppService (sample_db [sample_row ''s1'' (ServiceKindCustom @ ''redis'')])
      ''s1'' ''c1'' = Inr (Inr a)" "ServiceKind a = ServiceKindCustom @ ''redis''"
    by (rule sample_init_some [of "ServiceKindCustom @ ''redis''"])
      (simp_all add: ServiceKindThirdParty_def ServiceKindCustom_def)
  show ?thesis
    using a(1) fresh_custom_component_runs [OF a, of "\<lambda>_. None"] by auto
qed

end
