(* ===== verification/Resource_Cache.thy ===== *)
theory Resource_Cache
  imports App_Service
begin

text \<open>
  The resource cache of the worker (\<^verbatim>\<open>src/worker/appm/store/resource.go\<close>): per namespace
  the resources of every pod, kept up to date by the pod informer and summed up on demand. The
  mutex serialises the operations; each is one atomic step here. The cache refines a finite map
  from (namespace, pod name) to resources (\<open>pod_entry\<close>).
\<close>

type_synonym namespace_resource = "pod_resource gomap"
type_synonym resource_cache = "namespace_resource gomap"

record tenant_env_resource =
  te_namespace :: string
  te_memory_request :: int
  te_memory_limit :: int
  te_cpu_request :: int
  te_cpu_limit :: int

definition NewResourceCache :: resource_cache where
  "NewResourceCache = []"

definition ns_SetPodResource :: "string \<Rightarrow> pod_resource \<Rightarrow> namespace_resource \<Rightarrow> namespace_resource" where
  "ns_SetPodResource podName pr r = AList.update podName pr r"

definition ns_RemovePod :: "string \<Rightarrow> namespace_resource \<Rightarrow> namespace_resource" where
  "ns_RemovePod podName r = AList.delete podName r"

text \<open>
  The namespaces a pod is filed under: its own, and the tenant environment's id when the label
  names another one. Both cache operations compute this list.
\<close>

definition ns_keys :: "pod \<Rightarrow> string list" where
  "ns_keys p = (let namespace = Namespace (p_meta p)
     in case map_of (Labels (p_meta p)) ''tenant_env_id'' of
          Some tenantEnvID \<Rightarrow> (if tenantEnvID \<noteq> namespace then [namespace, tenantEnvID] else [namespace])
        | None \<Rightarrow> [namespace])"

text \<open>The bodies of the two loops over those namespaces.\<close>

definition set_in_ns :: "string \<Rightarrow> pod_resource \<Rightarrow> resource_cache \<Rightarrow> string \<Rightarrow> resource_cache" where
  "set_in_ns podName re r ns = (case map_of r ns of
       Some nr \<Rightarrow> AList.update ns (ns_SetPodResource podName re nr) r
     | None \<Rightarrow> AList.update ns (ns_SetPodResource podName re []) r)"

definition remove_in_ns :: "string \<Rightarrow> resource_cache \<Rightarrow> string \<Rightarrow> resource_cache" where
  "remove_in_ns podName r ns = (case map_of r ns of
       Some nr \<Rightarrow> AList.update ns (ns_RemovePod podName nr) r
     | None \<Rightarrow> r)"

definition rc_SetPodResource :: "pod \<Rightarrow> resource_cache \<Rightarrow> resource_cache" where
  "rc_SetPodResource p r = foldl (set_in_ns (pod_name p) (CalculatePodResource p)) r (ns_keys p)"

definition rc_RemovePod :: "pod \<Rightarrow> resource_cache \<Rightarrow> resource_cache" where
  "rc_RemovePod p r = foldl (remove_in_ns (pod_name p)) r (ns_keys p)"

definition add_resource :: "tenant_env_resource \<Rightarrow> pod_resource \<Rightarrow> tenant_env_resource" where
  "add_resource tr v = tr\<lparr>te_cpu_limit := wrap64 (te_cpu_limit tr + CPULimit v),
     te_memory_limit := wrap64 (te_memory_limit tr + MemoryLimit v),
     te_cpu_request := wrap64 (te_cpu_request tr + CPURequest v),
     te_memory_request := wrap64 (te_memory_request tr + MemoryRequest v)\<rparr>"

definition zero_resource :: tenant_env_resource where
  "zero_resource = \<lparr>te_namespace = [], te_memory_request = 0, te_memory_limit = 0,
     te_cpu_request = 0, te_cpu_limit = 0\<rparr>"

definition rc_sum :: "namespace_resource option \<Rightarrow> tenant_env_resource" where
  "rc_sum nr = (case nr of None \<Rightarrow> zero_resource
     | Some m \<Rightarrow> foldl (\<lambda>tr (k, v). add_resource tr v) zero_resource m)"

definition GetTenantEnvResource :: "string \<Rightarrow> resource_cache \<Rightarrow> tenant_env_resource" where
  "GetTenantEnvResource namespace r = (rc_sum (map_of r namespace))\<lparr>te_namespace := namespace\<rparr>"

definition GetAllTenantEnvResource :: "resource_cache \<Rightarrow> tenant_env_resource list" where
  "GetAllTenantEnvResource r = map (\<lambda>(k, _). (rc_sum (map_of r k))\<lparr>te_namespace := k\<rparr>) r"

section \<open>Abstraction\<close>

definition pod_entry :: "resource_cache \<Rightarrow> string \<Rightarrow> string \<Rightarrow> pod_resource option" where
  "pod_entry r ns n = (case map_of r ns of None \<Rightarrow> None | Some nr \<Rightarrow> map_of nr n)"

definition cache_wf :: "resource_cache \<Rightarrow> bool" where
  "cache_wf r \<longleftrightarrow> gm_wf r \<and> (\<forall>ns nr. map_of r ns = Some nr \<longrightarrow> gm_wf nr)"

lemma pod_entry_set_in_ns:
  "pod_entry (set_in_ns pn re r ns) m n = (if m = ns \<and> n = pn then Some re else pod_entry r m n)"
  by (auto simp: pod_entry_def set_in_ns_def ns_SetPodResource_def update_conv' split: option.splits)

lemma pod_entry_remove_in_ns:
  "pod_entry (remove_in_ns pn r ns) m n = (if m = ns \<and> n = pn then None else pod_entry r m n)"
  by (auto simp: pod_entry_def remove_in_ns_def ns_RemovePod_def update_conv' delete_conv'
      split: option.splits)

lemma cache_wf_update: "cache_wf r \<Longrightarrow> gm_wf nr \<Longrightarrow> cache_wf (AList.update ns nr r)"
  by (simp add: cache_wf_def update_conv' del: map_of_eq_Some_iff)

lemma cache_wf_lookup: "cache_wf r \<Longrightarrow> map_of r ns = Some nr \<Longrightarrow> gm_wf nr"
  unfolding cache_wf_def by blast

lemma cache_wf_steps:
  assumes "cache_wf r"
  shows "cache_wf (set_in_ns pn re r ns)" "cache_wf (remove_in_ns pn r ns)"
  using assms cache_wf_lookup [OF assms]
  by (auto simp: set_in_ns_def remove_in_ns_def ns_SetPodResource_def ns_RemovePod_def
      distinct_delete split: option.split intro!: cache_wf_update simp del: map_of_eq_Some_iff)

lemma pod_entry_set:
  "pod_entry (rc_SetPodResource p r) m n =
     (if m \<in> set (ns_keys p) \<and> n = pod_name p then Some (CalculatePodResource p) else pod_entry r m n)"
proof -
  have "pod_entry (foldl (set_in_ns pn re) r nss) m n =
      (if m \<in> set nss \<and> n = pn then Some re else pod_entry r m n)" for pn re r nss
    by (induction nss arbitrary: r) (auto simp: pod_entry_set_in_ns)
  then show ?thesis by (simp add: rc_SetPodResource_def)
qed

lemma pod_entry_remove:
  "pod_entry (rc_RemovePod p r) m n =
     (if m \<in> set (ns_keys p) \<and> n = pod_name p then None else pod_entry r m n)"
proof -
  have "pod_entry (foldl (remove_in_ns pn) r nss) m n =
      (if m \<in> set nss \<and> n = pn then None else pod_entry r m n)" for pn r nss
    by (induction nss arbitrary: r) (auto simp: pod_entry_remove_in_ns)
  then show ?thesis by (simp add: rc_RemovePod_def)
qed

lemma foldl_invariant: "P r \<Longrightarrow> (\<And>r x. P r \<Longrightarrow> P (f r x)) \<Longrightarrow> P (foldl f r xs)"
  by (induction xs arbitrary: r) auto

lemma cache_wf_ops:
  assumes "cache_wf r"
  shows "cache_wf (rc_SetPodResource p r)" "cache_wf (rc_RemovePod p r)"
  unfolding rc_SetPodResource_def rc_RemovePod_def
  by (rule foldl_invariant, rule assms, erule cache_wf_steps)+

section \<open>Sums\<close>

lemma foldl_add_resource:
  "te_memory_request (foldl (\<lambda>tr (k, v). add_resource tr v) tr m) =
     foldl (\<lambda>s (k, v). wrap64 (s + MemoryRequest v)) (te_memory_request tr) m"
  "te_cpu_request (foldl (\<lambda>tr (k, v). add_resource tr v) tr m) =
     foldl (\<lambda>s (k, v). wrap64 (s + CPURequest v)) (te_cpu_request tr) m"
  "te_memory_limit (foldl (\<lambda>tr (k, v). add_resource tr v) tr m) =
     foldl (\<lambda>s (k, v). wrap64 (s + MemoryLimit v)) (te_memory_limit tr) m"
  "te_cpu_limit (foldl (\<lambda>tr (k, v). add_resource tr v) tr m) =
     foldl (\<lambda>s (k, v). wrap64 (s + CPULimit v)) (te_cpu_limit tr) m"
  by (induction m arbitrary: tr) (auto simp: add_resource_def)

lemma sum_list_by_keys:
  fixes f :: "'v \<Rightarrow> int"
  assumes "gm_wf m"
  shows "(\<Sum>x\<leftarrow>m. f (snd x)) = (\<Sum>k \<in> dom (map_of m). f (the (map_of m k)))"
  using assms
proof (induction m)
  case (Cons x m)
  obtain k v where x: "x = (k, v)" by fastforce
  have fresh: "k \<notin> dom (map_of m)"
    using Cons.prems by (simp add: x dom_map_of_conv_image_fst)
  have dom: "dom (map_of (x # m)) = insert k (dom (map_of m))"
    by (simp only: dom_map_of_conv_image_fst) (simp add: x)
  have "(\<Sum>j \<in> dom (map_of m). f (the (map_of (x # m) j))) =
      (\<Sum>j \<in> dom (map_of m). f (the (map_of m j)))"
    using fresh by (intro sum.cong) (auto simp: x)
  moreover have "(\<Sum>y\<leftarrow>m. f (snd y)) = (\<Sum>j \<in> dom (map_of m). f (the (map_of m j)))"
    using Cons by simp
  ultimately show ?case
    unfolding dom sum.insert [OF finite_dom_map_of fresh] by (simp add: x)
qed simp

text \<open>
  The specification: the resources of the pods filed under a namespace, added up modulo 2 to
  the 64.
\<close>

definition spec_total :: "(pod_resource \<Rightarrow> int) \<Rightarrow> (string \<Rightarrow> pod_resource option) \<Rightarrow> int" where
  "spec_total f m = wrap64 (\<Sum>n \<in> dom m. f (the (m n)))"

lemma foldl_wrap64_snd:
  "foldl (\<lambda>s (k, v). wrap64 (s + f v)) 0 m = wrap64 (\<Sum>x\<leftarrow>m. f (snd x))"
  using foldl_wrap64_zero [of "\<lambda>x. f (snd x)" m] by (simp add: split_def)

lemma rc_sum_total:
  assumes "cache_wf r"
  shows "te_memory_request (rc_sum (map_of r ns)) = spec_total MemoryRequest (pod_entry r ns)"
    "te_cpu_request (rc_sum (map_of r ns)) = spec_total CPURequest (pod_entry r ns)"
    "te_memory_limit (rc_sum (map_of r ns)) = spec_total MemoryLimit (pod_entry r ns)"
    "te_cpu_limit (rc_sum (map_of r ns)) = spec_total CPULimit (pod_entry r ns)"
proof -
  have none: "pod_entry r ns = (\<lambda>_. None)" if "map_of r ns = None"
    using that by (simp add: pod_entry_def fun_eq_iff)
  have some: "pod_entry r ns = map_of nr" "gm_wf nr" if "map_of r ns = Some nr" for nr
    using that cache_wf_lookup [OF assms that] by (simp_all add: pod_entry_def fun_eq_iff)
  note facts = rc_sum_def zero_resource_def spec_total_def foldl_add_resource foldl_wrap64_snd
    sum_list_by_keys none some
  show "te_memory_request (rc_sum (map_of r ns)) = spec_total MemoryRequest (pod_entry r ns)"
    by (cases "map_of r ns") (simp_all add: facts del: map_of_eq_Some_iff)
  show "te_cpu_request (rc_sum (map_of r ns)) = spec_total CPURequest (pod_entry r ns)"
    by (cases "map_of r ns") (simp_all add: facts del: map_of_eq_Some_iff)
  show "te_memory_limit (rc_sum (map_of r ns)) = spec_total MemoryLimit (pod_entry r ns)"
    by (cases "map_of r ns") (simp_all add: facts del: map_of_eq_Some_iff)
  show "te_cpu_limit (rc_sum (map_of r ns)) = spec_total CPULimit (pod_entry r ns)"
    by (cases "map_of r ns") (simp_all add: facts del: map_of_eq_Some_iff)
qed

fun rc_run :: "pod informer_event list \<Rightarrow> resource_cache \<Rightarrow> resource_cache" where
  "rc_run [] r = r"
| "rc_run (Upsert p # es) r = rc_run es (rc_SetPodResource p r)"
| "rc_run (Remove p # es) r = rc_run es (rc_RemovePod p r)"

text \<open>The abstract cache after a sequence of pod events, seen from one namespace.\<close>

fun spec_entries ::
  "string \<Rightarrow> pod informer_event list \<Rightarrow> (string \<rightharpoonup> pod_resource) \<Rightarrow> (string \<rightharpoonup> pod_resource)" where
  "spec_entries ns [] m = m"
| "spec_entries ns (Upsert p # es) m =
     spec_entries ns es (if ns \<in> set (ns_keys p) then m(pod_name p \<mapsto> CalculatePodResource p) else m)"
| "spec_entries ns (Remove p # es) m =
     spec_entries ns es (if ns \<in> set (ns_keys p) then m(pod_name p := None) else m)"

lemma rc_run_wf: "cache_wf r \<Longrightarrow> cache_wf (rc_run es r)"
  by (induction es r rule: rc_run.induct) (simp_all add: cache_wf_ops)

lemma rc_run_entries: "pod_entry (rc_run es r) ns = spec_entries ns es (pod_entry r ns)"
proof (induction es r rule: rc_run.induct)
  case (2 p es r)
  have "pod_entry (rc_SetPodResource p r) ns =
      (if ns \<in> set (ns_keys p) then (pod_entry r ns)(pod_name p \<mapsto> CalculatePodResource p)
       else pod_entry r ns)"
    by (auto simp: pod_entry_set fun_eq_iff)
  with 2 show ?case by simp
next
  case (3 p es r)
  have "pod_entry (rc_RemovePod p r) ns =
      (if ns \<in> set (ns_keys p) then (pod_entry r ns)(pod_name p := None) else pod_entry r ns)"
    by (auto simp: pod_entry_remove fun_eq_iff)
  with 3 show ?case by simp
qed simp

text \<open>
  Whatever sequence of pod events the resource cache has processed, the totals it reports for
  a namespace or tenant environment are the sums, modulo 2 to the 64, of the resources of the pods
  that were filed there last and not removed since; no pod is counted twice there.
\<close>

theorem resource_totals_exact:
  "te_namespace (GetTenantEnvResource ns (rc_run es NewResourceCache)) = ns \<and>
   te_memory_request (GetTenantEnvResource ns (rc_run es NewResourceCache)) =
     spec_total MemoryRequest (spec_entries ns es Map.empty) \<and>
   te_cpu_request (GetTenantEnvResource ns (rc_run es NewResourceCache)) =
     spec_total CPURequest (spec_entries ns es Map.empty) \<and>
   te_memory_limit (GetTenantEnvResource ns (rc_run es NewResourceCache)) =
     spec_total MemoryLimit (spec_entries ns es Map.empty) \<and>
   te_cpu_limit (GetTenantEnvResource ns (rc_run es NewResourceCache)) =
     spec_total CPULimit (spec_entries ns es Map.empty)"
proof -
  have wf: "cache_wf (rc_run es NewResourceCache)"
    by (rule rc_run_wf) (simp add: NewResourceCache_def cache_wf_def)
  have "pod_entry NewResourceCache ns = Map.empty"
    by (simp add: NewResourceCache_def pod_entry_def fun_eq_iff)
  then show ?thesis
    by (simp add: GetTenantEnvResource_def rc_sum_total [OF wf] rc_run_entries)
qed

end
