(* ===== verification/App_Store.thy ===== *)
theory App_Store
  imports App_Init Resource_Cache
begin

text \<open>
  The runtime store of the worker (\<^verbatim>\<open>src/worker/appm/store/store.go\<close>): the cache of all
  components, fed by the informer callbacks and read by the status queries.

  \<open>appServices\<close> is the \<^verbatim>\<open>sync.Map\<close> from service ids to components. The map holds
  pointers, so what a callback changes in the component it looked up is visible in the map: the
  callback returns the changed component together with the key it sits under, and the store puts it
  back there. What the callbacks do to the cluster, the database and the listeners is appended to
  \<open>effects\<close>. A callback runs to its end before the next one starts.

  The environment of one callback is a record: the database, the JSON conversion of third
  components (\<open>um\<close>), which listener channels can take a value without blocking
  (\<open>room\<close>), whether the monitoring client can be created, the listers, and the API version
  of the cluster. It may differ from one callback to the next.
\<close>

section \<open>State and environment\<close>

datatype kube_kind = DeploymentKind | StatefulSetKind | ReplicaSetKind | ServiceMonitorKind

record volume_type =
  VolumeType :: string
  NameShow :: string
  CapacityValidation :: string
  AccessMode :: string
  BackupPolicy :: string
  ReclaimPolicy :: string
  SharePolicy :: string
  Provisioner :: string
  StorageClassDetail :: string
  vt_Sort :: int
  vt_Enable :: bool

datatype store_effect =
  KubeDelete kube_kind string string
| NotifyVolumeType string volume_type
| NotifyPod string string
| DbDeleteVolumeType string

record runtime_store =
  appServices :: "app_service gomap"
  appCount :: int
  resourceCache :: resource_cache
  podUpdateListeners :: "string list"
  volumeTypeListeners :: "string list"
  effects :: "store_effect list"

text \<open>The answer of a lister: the object, a not-found error or another error.\<close>

datatype 'o lister_result = Listed 'o | ListerNotFound | ListerError

record listers =
  ls_statefulset :: "string \<Rightarrow> string \<Rightarrow> statefulset lister_result"
  ls_deployment :: "string \<Rightarrow> string \<Rightarrow> deployment lister_result"
  ls_service :: "string \<Rightarrow> string \<Rightarrow> named_obj lister_result"
  ls_ingress :: "string \<Rightarrow> string \<Rightarrow> named_obj lister_result"
  ls_beta_ingress :: "string \<Rightarrow> string \<Rightarrow> named_obj lister_result"
  ls_secret :: "string \<Rightarrow> string \<Rightarrow> named_obj lister_result"
  ls_pod :: "string \<Rightarrow> string \<Rightarrow> pod lister_result"

record store_env =
  se_db :: database
  se_um :: "string \<Rightarrow> third_component option"
  se_json :: "storage_class \<Rightarrow> string"
  se_room :: "string \<Rightarrow> bool"
  se_sm_client :: bool
  se_db_delete_fails :: bool
  se_listers :: listers
  se_high_version :: bool

definition NewStore :: runtime_store where
  "NewStore = \<lparr>appServices = [], appCount = 0, resourceCache = NewResourceCache,
     podUpdateListeners = [], volumeTypeListeners = [], effects = []\<rparr>"

section \<open>The map of components\<close>

definition RegistAppService :: "app_service \<Rightarrow> runtime_store \<Rightarrow> runtime_store" where
  "RegistAppService app s =
     s\<lparr>appServices := AList.update (ServiceID app) app (appServices s),
       appCount := wrap32 (appCount s + 1)\<rparr>"

text \<open>The body of \<^verbatim>\<open>DeleteAppService\<close> is commented out.\<close>

definition DeleteAppService :: "app_service \<Rightarrow> runtime_store \<Rightarrow> runtime_store" where
  "DeleteAppService app s = s"

definition DeleteAppServiceByKey :: "string \<Rightarrow> runtime_store \<Rightarrow> runtime_store" where
  "DeleteAppServiceByKey key s =
     s\<lparr>appServices := AList.delete key (appServices s), appCount := wrap32 (appCount s - 1)\<rparr>"

definition GetAppService :: "string \<Rightarrow> runtime_store \<Rightarrow> app_service option" where
  "GetAppService serviceID s = map_of (appServices s) serviceID"

definition GetAllAppServices :: "runtime_store \<Rightarrow> app_service list" where
  "GetAllAppServices s = map snd (appServices s)"

definition put_app :: "string \<Rightarrow> app_service \<Rightarrow> runtime_store \<Rightarrow> runtime_store" where
  "put_app key app s = s\<lparr>appServices := AList.update key app (appServices s)\<rparr>"

definition emit :: "store_effect list \<Rightarrow> runtime_store \<Rightarrow> runtime_store" where
  "emit es s = s\<lparr>effects := effects s @ es\<rparr>"

text \<open>
  The result: the store, the component with its key in the map, and the error of the conversion.
\<close>

type_synonym got_app = "runtime_store \<times> (string \<times> app_service) option \<times> init_error option"

definition getAppService :: "store_env \<Rightarrow> string \<Rightarrow> string \<Rightarrow> bool \<Rightarrow> runtime_store \<Rightarrow> got_app go" where
  "getAppService env serviceID createrID creator s = (case GetAppService serviceID s of
       Some app \<Rightarrow> Inr (s, Some (serviceID, app), None)
     | None \<Rightarrow>
         (if creator
          then bind_go (InitCacheAppService (se_db env) serviceID createrID) (\<lambda>r. case r of
                 Inl e \<Rightarrow> Inr (s, None, Some e)
               | Inr app \<Rightarrow> Inr (RegistAppService app s, Some (ServiceID app, app), None))
          else Inr (s, None, None)))"

section \<open>Informer callbacks\<close>

datatype kube_obj =
  KThird string object_meta third_component
| KDeployment deployment
| KStatefulSet statefulset
| KReplicaSet replicaset
| KSecret named_obj
| KService named_obj
| KIngress named_obj
| KBetaIngress named_obj
| KConfigMap named_obj
| KHPA named_obj
| KStorageClass storage_class
| KClaim named_obj
| KServiceMonitor named_obj
| KOther

text \<open>
  The label guards of a branch: the service id and the creator id, and for workloads the version
  too, must not be empty.
\<close>

definition owner_labels :: "bool \<Rightarrow> object_meta \<Rightarrow> (string \<times> string) option" where
  "owner_labels need_version m =
     (let serviceID = gm_str (Labels m) ''service_id'';
          version = gm_str (Labels m) ''version'';
          createrID = gm_str (Labels m) ''creater_id''
      in if serviceID \<noteq> [] \<and> (need_version \<longrightarrow> version \<noteq> []) \<and> createrID \<noteq> []
         then Some (serviceID, createrID) else None)"

text \<open>
  The common body of the branches: look the component up, change it, put it back. The flag tells
  whether the branch was left by its \<^verbatim>\<open>return\<close>.
\<close>

definition with_component ::
  "store_env \<Rightarrow> bool \<Rightarrow> bool \<Rightarrow> object_meta \<Rightarrow> (app_service \<Rightarrow> app_service go) \<Rightarrow> runtime_store \<Rightarrow>
     (runtime_store \<times> bool) go" where
  "with_component env need_version creator m f s = (case owner_labels need_version m of
       None \<Rightarrow> Inr (s, False)
     | Some (sid, cid) \<Rightarrow> bind_go (getAppService env sid cid creator s) (\<lambda>(s1, r, _). case r of
           None \<Rightarrow> Inr (s1, False)
         | Some (key, app) \<Rightarrow> bind_go (f app) (\<lambda>app'. Inr (put_app key app' s1, True))))"

definition checkReplicasetWhetherDelete :: "app_service \<Rightarrow> replicaset \<Rightarrow> store_effect list" where
  "checkReplicasetWhetherDelete app rs = (case GetCurrentReplicaSet app of
       None \<Rightarrow> []
     | Some current \<Rightarrow>
         (if rs_name current \<noteq> rs_name rs then
            (if GetReplicaSetVersion current > GetReplicaSetVersion rs then
               (if rs_replicas rs = 0 \<and> rs_ready rs = 0 \<and> rs_available rs = 0
                then [KubeDelete ReplicaSetKind (Namespace (rs_meta rs)) (rs_name rs)] else [])
             else [])
          else []))"

text \<open>
  The first half of the workload branches: an object of a component that was deleted from the
  platform is deleted from the cluster instead of being cached.
\<close>

definition component_deleted :: "store_env \<Rightarrow> string \<Rightarrow> bool" where
  "component_deleted env serviceID = (case GetServiceByID (se_db env) serviceID of
       Inl RecordNotFound \<Rightarrow> (case GetDeletedServiceByID (se_db env) serviceID of
           Inr got \<Rightarrow> 0 < sr_ID got
         | Inl _ \<Rightarrow> False)
     | _ \<Rightarrow> False)"

definition add_workload ::
  "store_env \<Rightarrow> kube_kind \<Rightarrow> object_meta \<Rightarrow> (app_service \<Rightarrow> app_service go) \<Rightarrow> runtime_store \<Rightarrow>
     runtime_store go" where
  "add_workload env kind m f s = (case owner_labels True m of
       None \<Rightarrow> Inr s
     | Some (sid, cid) \<Rightarrow>
         (if component_deleted env sid
          then Inr (emit [KubeDelete kind (Namespace m) (Name m)] s)
          else bind_go (with_component env True True m f s) (\<lambda>(s', _). Inr s')))"

definition add_replicaset :: "store_env \<Rightarrow> replicaset \<Rightarrow> runtime_store \<Rightarrow> runtime_store go" where
  "add_replicaset env rs s = (case owner_labels True (rs_meta rs) of
       None \<Rightarrow> Inr s
     | Some (sid, cid) \<Rightarrow> bind_go (getAppService env sid cid True s) (\<lambda>(s1, r, _). case r of
           None \<Rightarrow> Inr s1
         | Some (key, app) \<Rightarrow>
             (let app' = SetReplicaSets rs app
              in Inr (emit (checkReplicasetWhetherDelete app' rs) (put_app key app' s1)))))"

definition zero_volume_type :: volume_type where
  "zero_volume_type = \<lparr>VolumeType = [], NameShow = [], CapacityValidation = [], AccessMode = [],
     BackupPolicy = [], ReclaimPolicy = [], SharePolicy = [], Provisioner = [],
     StorageClassDetail = [], vt_Sort = 0, vt_Enable = False\<rparr>"

text \<open>\<open>json\<close> marshals the storage class; the capacity validation is a constant document.\<close>

definition TransStorageClass2RBDVolumeType :: "(storage_class \<Rightarrow> string) \<Rightarrow> storage_class \<Rightarrow> volume_type" where
  "TransStorageClass2RBDVolumeType json sc =
     (if sc_name sc = ''wutongsssc'' then zero_volume_type\<lparr>VolumeType := ''share-file''\<rparr>
      else if sc_name sc = ''wutongslsc'' then zero_volume_type\<lparr>VolumeType := ''local''\<rparr>
      else \<lparr>VolumeType = sc_name sc,
            NameShow = (case map_of (Annotations (sc_meta sc)) ''wt_volume_name'' of
                Some name \<Rightarrow> name | None \<Rightarrow> sc_name sc),
            CapacityValidation = ''{\"max\":999999999,\"min\":0,\"required\":true}'',
            AccessMode = ''RWO'', BackupPolicy = ''exclusive'',
            ReclaimPolicy = (if sc_reclaim_policy sc \<noteq> [] then sc_reclaim_policy sc else ''Retain''),
            SharePolicy = ''exclusive'', Provisioner = sc_provisioner sc,
            StorageClassDetail = json sc, vt_Sort = 999, vt_Enable = True\<rparr>)"

definition add_storage_class :: "store_env \<Rightarrow> storage_class \<Rightarrow> runtime_store \<Rightarrow> runtime_store" where
  "add_storage_class env sc s =
     (let vt = TransStorageClass2RBDVolumeType (se_json env) sc
      in emit (map (\<lambda>ch. NotifyVolumeType ch vt) (filter (se_room env) (volumeTypeListeners s))) s)"

text \<open>
  A service monitor of an unknown component is deleted from the cluster, when a client for it can
  be made.
\<close>

definition add_service_monitor :: "store_env \<Rightarrow> named_obj \<Rightarrow> runtime_store \<Rightarrow> runtime_store go" where
  "add_service_monitor env sm s = (case owner_labels False (o_meta sm) of
       None \<Rightarrow> Inr s
     | Some (sid, cid) \<Rightarrow> bind_go (getAppService env sid cid True s) (\<lambda>(s1, r, err).
         (let s2 = (if err = Some ErrServiceNotFound
                    then (if se_sm_client env
                          then emit [KubeDelete ServiceMonitorKind (Namespace (o_meta sm)) (obj_name sm)] s1
                          else s1)
                    else s1)
          in case r of None \<Rightarrow> Inr s2
             | Some (key, app) \<Rightarrow> Inr (put_app key (SetServiceMonitor sm app) s2))))"

definition simple_add ::
  "store_env \<Rightarrow> bool \<Rightarrow> object_meta \<Rightarrow> (app_service \<Rightarrow> app_service go) \<Rightarrow> runtime_store \<Rightarrow>
     runtime_store go" where
  "simple_add env need_version m f s =
     bind_go (with_component env need_version True m f s) (\<lambda>(s', _). Inr s')"

definition OnAdd :: "store_env \<Rightarrow> kube_obj \<Rightarrow> runtime_store \<Rightarrow> runtime_store go" where
  "OnAdd env obj s = (case obj of
       KThird kind m t \<Rightarrow> simple_add env False m
         (\<lambda>a. Inr (SetWorkload (Some \<lparr>w_kind = kind, w_obj = WThird m t\<rparr>) a)) s
     | KDeployment d \<Rightarrow> add_workload env DeploymentKind (d_meta d) (SetDeployment d) s
     | KStatefulSet d \<Rightarrow> add_workload env StatefulSetKind (s_meta d) (SetStatefulSet d) s
     | KReplicaSet rs \<Rightarrow> add_replicaset env rs s
     | KSecret o' \<Rightarrow> simple_add env False (o_meta o') (\<lambda>a. Inr (SetSecret (Some o') a)) s
     | KService o' \<Rightarrow> simple_add env False (o_meta o') (\<lambda>a. Inr (SetService o' a)) s
     | KIngress o' \<Rightarrow> simple_add env False (o_meta o') (\<lambda>a. Inr (SetIngress (NetIngress o') a)) s
     | KBetaIngress o' \<Rightarrow> simple_add env False (o_meta o') (\<lambda>a. Inr (SetIngress (BetaIngress o') a)) s
     | KConfigMap o' \<Rightarrow> simple_add env False (o_meta o') (\<lambda>a. Inr (SetConfigMap o' a)) s
     | KHPA o' \<Rightarrow> simple_add env True (o_meta o') (\<lambda>a. Inr (SetHPA o' a)) s
     | KStorageClass sc \<Rightarrow> Inr (add_storage_class env sc s)
     | KClaim o' \<Rightarrow> simple_add env False (o_meta o') (SetClaim o') s
     | KServiceMonitor o' \<Rightarrow> add_service_monitor env o' s
     | KOther \<Rightarrow> Inr s)"

text \<open>
  An ingress whose update moves it to another component is first removed from the old owner; the
  old owner is looked up without checking that its labels are set. The type assertion on the old
  object panics when its kind differs.
\<close>

definition drop_old_ingress ::
  "store_env \<Rightarrow> (named_obj \<Rightarrow> app_service \<Rightarrow> app_service) \<Rightarrow> named_obj \<Rightarrow> named_obj \<Rightarrow>
     runtime_store \<Rightarrow> runtime_store go" where
  "drop_old_ingress env del old new s =
     (let sid = gm_str (Labels (o_meta old)) ''service_id'';
          cid = gm_str (Labels (o_meta old)) ''creater_id''
      in if sid \<noteq> gm_str (Labels (o_meta new)) ''service_id''
         then bind_go (getAppService env sid cid True s) (\<lambda>(s1, r, _). case r of
                None \<Rightarrow> Inr s1
              | Some (key, app) \<Rightarrow> Inr (put_app key (del old app) s1))
         else Inr s)"

definition OnUpdate :: "store_env \<Rightarrow> kube_obj \<Rightarrow> kube_obj \<Rightarrow> runtime_store \<Rightarrow> runtime_store go" where
  "OnUpdate env old new s =
     bind_go (case new of
         KIngress n \<Rightarrow> (case old of KIngress o' \<Rightarrow> drop_old_ingress env DeleteIngress o' n s
                        | _ \<Rightarrow> Inl TypeAssertion)
       | KBetaIngress n \<Rightarrow> (case old of KBetaIngress o' \<Rightarrow> drop_old_ingress env DeleteBetaIngress o' n s
                        | _ \<Rightarrow> Inl TypeAssertion)
       | _ \<Rightarrow> Inr s)
     (\<lambda>s1. OnAdd env new s1)"

text \<open>
  One round of the loop of \<^verbatim>\<open>OnDeletes\<close>; the flag is its \<^verbatim>\<open>return\<close>. After the change, the
  component is offered to \<^verbatim>\<open>DeleteAppService\<close> when it is closed.
\<close>

definition simple_del ::
  "store_env \<Rightarrow> bool \<Rightarrow> bool \<Rightarrow> object_meta \<Rightarrow> (app_service \<Rightarrow> app_service) \<Rightarrow> runtime_store \<Rightarrow>
     (runtime_store \<times> bool) go" where
  "simple_del env need_version creator m f s = (case owner_labels need_version m of
       None \<Rightarrow> Inr (s, False)
     | Some (sid, cid) \<Rightarrow> bind_go (getAppService env sid cid creator s) (\<lambda>(s1, r, _). case r of
           None \<Rightarrow> Inr (s1, False)
         | Some (key, app) \<Rightarrow>
             (let app' = f app; s2 = put_app key app' s1
              in Inr (if IsClosed app' then DeleteAppService app' s2 else s2, True))))"

definition on_delete_one :: "store_env \<Rightarrow> kube_obj \<Rightarrow> runtime_store \<Rightarrow> (runtime_store \<times> bool) go" where
  "on_delete_one env obj s = (case obj of
       KThird kind m t \<Rightarrow> simple_del env False True m (DeleteWorkload None) s
     | KDeployment d \<Rightarrow> simple_del env True False (d_meta d) (DeleteDeployment d) s
     | KStatefulSet d \<Rightarrow> simple_del env True False (s_meta d) (DeleteStatefulSet d) s
     | KReplicaSet rs \<Rightarrow> simple_del env True False (rs_meta rs) (DeleteReplicaSet rs) s
     | KSecret o' \<Rightarrow> simple_del env False False (o_meta o') (DeleteSecrets o') s
     | KService o' \<Rightarrow> simple_del env False False (o_meta o') (DeleteServices o') s
     | KIngress o' \<Rightarrow> simple_del env False False (o_meta o') (DeleteIngress o') s
     | KBetaIngress o' \<Rightarrow> Inr (s, False)
     | KConfigMap o' \<Rightarrow> simple_del env False False (o_meta o') (DeleteConfigMaps o') s
     | KHPA o' \<Rightarrow> simple_del env True False (o_meta o') (DelHPA o') s
     | KStorageClass sc \<Rightarrow>
         (if se_db_delete_fails env then Inr (s, True)
          else Inr (emit [DbDeleteVolumeType (sc_name sc)] s, False))
     | KClaim o' \<Rightarrow> simple_del env False False (o_meta o') (DeleteClaim o') s
     | KServiceMonitor o' \<Rightarrow>
         with_component env False True (o_meta o') (\<lambda>a. Inr (DeleteServiceMonitor o' a)) s
     | KOther \<Rightarrow> Inr (s, False))"

fun OnDeletes :: "store_env \<Rightarrow> kube_obj list \<Rightarrow> runtime_store \<Rightarrow> runtime_store go" where
  "OnDeletes env [] s = Inr s"
| "OnDeletes env (obj # objs) s =
     bind_go (on_delete_one env obj s) (\<lambda>(s', returned). if returned then Inr s' else OnDeletes env objs s')"

definition OnDelete :: "store_env \<Rightarrow> kube_obj \<Rightarrow> runtime_store \<Rightarrow> runtime_store go" where
  "OnDelete env obj s = OnDeletes env [obj] s"

subsection \<open>Pods\<close>

definition ExtractLabels :: "string gomap option \<Rightarrow> string \<times> string \<times> string \<times> string" where
  "ExtractLabels labels = (case labels of None \<Rightarrow> ([], [], [], [])
     | Some l \<Rightarrow> (gm_str l ''tenant_env_id'', gm_str l ''service_id'', gm_str l ''version'', gm_str l ''creater_id''))"

definition pod_component ::
  "store_env \<Rightarrow> bool \<Rightarrow> pod \<Rightarrow> (app_service \<Rightarrow> runtime_store \<Rightarrow> string \<Rightarrow> runtime_store) \<Rightarrow> runtime_store \<Rightarrow>
     runtime_store go" where
  "pod_component env creator p f s =
     (let (_, sid, version, cid) = ExtractLabels (Some (Labels (p_meta p)))
      in if sid \<noteq> [] \<and> version \<noteq> [] \<and> cid \<noteq> []
         then bind_go (getAppService env sid cid creator s) (\<lambda>(s1, r, _). case r of
                None \<Rightarrow> Inr s1
              | Some (key, app) \<Rightarrow> Inr (f app s1 key))
         else Inr s)"

definition pod_AddFunc :: "store_env \<Rightarrow> pod \<Rightarrow> runtime_store \<Rightarrow> runtime_store go" where
  "pod_AddFunc env p s =
     (let s0 = s\<lparr>resourceCache := rc_SetPodResource p (resourceCache s)\<rparr>
      in pod_component env True p (\<lambda>app s1 key. put_app key (SetPods p app) s1) s0)"

text \<open>
  What a delete callback is given: the object, or a \<^verbatim>\<open>DeletedFinalStateUnknown\<close> when the informer missed the
  deletion and found out later. The type assertions of the pod and endpoint handlers are not checked.
\<close>

datatype 'a deletion = DeletedObj 'a | DeletedFinalStateUnknown

definition assert_obj :: "'a deletion \<Rightarrow> 'a go" where
  "assert_obj d = (case d of DeletedObj x \<Rightarrow> Inr x | DeletedFinalStateUnknown \<Rightarrow> Inl TypeAssertion)"

definition pod_DeleteFunc :: "store_env \<Rightarrow> pod deletion \<Rightarrow> runtime_store \<Rightarrow> runtime_store go" where
  "pod_DeleteFunc env obj s = bind_go (assert_obj obj) (\<lambda>p.
     (let s0 = s\<lparr>resourceCache := rc_RemovePod p (resourceCache s)\<rparr>
      in pod_component env False p (\<lambda>app s1 key.
           let app' = DeletePods p app; s2 = put_app key app' s1
           in if IsClosed app' then DeleteAppService app' s2 else s2) s0))"

definition pod_UpdateFunc :: "store_env \<Rightarrow> pod \<Rightarrow> runtime_store \<Rightarrow> runtime_store go" where
  "pod_UpdateFunc env p s =
     (let s0 = s\<lparr>resourceCache := rc_SetPodResource p (resourceCache s)\<rparr>
      in bind_go (pod_component env True p (\<lambda>app s1 key. put_app key (SetPods p app) s1) s0) (\<lambda>s1.
           Inr (emit (map (\<lambda>ch. NotifyPod ch (pod_name p)) (filter (se_room env) (podUpdateListeners s1))) s1)))"

subsection \<open>Endpoints\<close>

text \<open>The endpoint handler built in \<^verbatim>\<open>NewStore\<close>; updates and additions are treated alike.\<close>

definition ep_AddFunc :: "store_env \<Rightarrow> endpoints_obj \<Rightarrow> runtime_store \<Rightarrow> runtime_store go" where
  "ep_AddFunc env ep s = simple_add env False (e_meta ep) (\<lambda>a. Inr (AddEndpoints ep a)) s"

definition ep_UpdateFunc :: "store_env \<Rightarrow> endpoints_obj \<Rightarrow> runtime_store \<Rightarrow> runtime_store go" where
  "ep_UpdateFunc env cep s = simple_add env False (e_meta cep) (\<lambda>a. Inr (AddEndpoints cep a)) s"

definition ep_DeleteFunc :: "store_env \<Rightarrow> endpoints_obj deletion \<Rightarrow> runtime_store \<Rightarrow> runtime_store go" where
  "ep_DeleteFunc env obj s = bind_go (assert_obj obj) (\<lambda>ep.
     bind_go (simple_del env False False (e_meta ep) (DelEndpoints ep) s) (\<lambda>(s', _). Inr s'))"

subsection \<open>Listeners\<close>

definition RegistPodUpdateListener :: "string \<Rightarrow> runtime_store \<Rightarrow> runtime_store" where
  "RegistPodUpdateListener n s = s\<lparr>podUpdateListeners := List.insert n (podUpdateListeners s)\<rparr>"

definition UnRegistPodUpdateListener :: "string \<Rightarrow> runtime_store \<Rightarrow> runtime_store" where
  "UnRegistPodUpdateListener n s = s\<lparr>podUpdateListeners := removeAll n (podUpdateListeners s)\<rparr>"

definition RegisterVolumeTypeListener :: "string \<Rightarrow> runtime_store \<Rightarrow> runtime_store" where
  "RegisterVolumeTypeListener n s = s\<lparr>volumeTypeListeners := List.insert n (volumeTypeListeners s)\<rparr>"

definition UnRegisterVolumeTypeListener :: "string \<Rightarrow> runtime_store \<Rightarrow> runtime_store" where
  "UnRegisterVolumeTypeListener n s = s\<lparr>volumeTypeListeners := removeAll n (volumeTypeListeners s)\<rparr>"

section \<open>The invariant\<close>

text \<open>
  Every component in the cache has duplicate-free caches and a namespace.
\<close>

definition app_ok :: "app_service \<Rightarrow> bool" where
  "app_ok a \<longleftrightarrow> caches_wf a \<and> tenantEnv a \<noteq> None"

text \<open>
  Every component sits under its own id, no id occurs twice, the caches of every component and the
  resource cache have no duplicates, and the counter counts the components.
\<close>

definition store_wf :: "runtime_store \<Rightarrow> bool" where
  "store_wf s \<longleftrightarrow> gm_wf (appServices s) \<and> cache_wf (resourceCache s) \<and>
     (\<forall>k a. map_of (appServices s) k = Some a \<longrightarrow> ServiceID a = k \<and> app_ok a) \<and>
     appCount s = wrap32 (int (length (appServices s)))"

lemma length_update_mem:
  "k \<in> fst ` set m \<Longrightarrow> length (AList.update k v m) = length m"
  by (induction m) auto

lemma length_update_fresh:
  "k \<notin> fst ` set m \<Longrightarrow> length (AList.update k v m) = Suc (length m)"
  by (induction m) auto

lemma map_of_update: "map_of (AList.update k v m) j = (if j = k then Some v else map_of m j)"
  by (simp add: update_conv')

lemma store_wf_emit [simp]: "store_wf (emit es s) = store_wf s"
  by (simp add: store_wf_def emit_def)

lemma store_wf_listeners [simp]:
  "store_wf (s\<lparr>podUpdateListeners := l\<rparr>) = store_wf s"
  "store_wf (s\<lparr>volumeTypeListeners := l\<rparr>) = store_wf s"
  by (simp_all add: store_wf_def)

lemma GetAppService_emit [simp]: "GetAppService sid (emit es s) = GetAppService sid s"
  by (simp add: GetAppService_def emit_def)

lemma GetAppService_put [simp]:
  "GetAppService j (put_app k a s) = (if j = k then Some a else GetAppService j s)"
  by (simp add: GetAppService_def put_app_def map_of_update)

lemma GetAppService_regist [simp]:
  "GetAppService j (RegistAppService a s) = (if j = ServiceID a then Some a else GetAppService j s)"
  by (simp add: GetAppService_def RegistAppService_def map_of_update)

lemma GetAppService_resource [simp]:
  "GetAppService j (s\<lparr>resourceCache := r\<rparr>) = GetAppService j s"
  by (simp add: GetAppService_def)

lemma store_wf_lookup:
  "store_wf s \<Longrightarrow> GetAppService k s = Some a \<Longrightarrow> ServiceID a = k \<and> app_ok a"
  unfolding store_wf_def GetAppService_def by blast

lemma store_wf_put:
  assumes "store_wf s" and "GetAppService k s = Some a" and "ServiceID b = k" and "app_ok b"
  shows "store_wf (put_app k b s)"
proof -
  have "k \<in> fst ` set (appServices s)"
    using assms(2) by (metis GetAppService_def map_of_eq_None_iff option.distinct(1))
  then show ?thesis
    using assms by (simp add: store_wf_def put_app_def map_of_update length_update_mem
        del: map_of_eq_Some_iff)
qed

lemma store_wf_regist:
  assumes "store_wf s" and "GetAppService (ServiceID a) s = None" and "app_ok a"
  shows "store_wf (RegistAppService a s)"
proof -
  have "ServiceID a \<notin> fst ` set (appServices s)"
    using assms(2) by (simp add: GetAppService_def map_of_eq_None_iff)
  then show ?thesis
    using assms by (simp add: store_wf_def RegistAppService_def map_of_update length_update_fresh
        add.commute del: map_of_eq_Some_iff)
qed

text \<open>
  What looking a component up does: when it returns, it keeps the invariant, hands out the component that
  sits under the key it names, and adds at most that one component.
\<close>

lemma getAppService_spec:
  assumes "store_wf s" and "getAppService env sid cid creator s = Inr (s1, r, err)"
  shows "store_wf s1 \<and>
    (\<forall>k a. r = Some (k, a) \<longrightarrow> k = sid \<and> GetAppService sid s1 = Some a \<and> app_ok a) \<and>
    (\<forall>j. j \<noteq> sid \<longrightarrow> GetAppService j s1 = GetAppService j s) \<and>
    (\<forall>a. GetAppService sid s = Some a \<longrightarrow> r = Some (sid, a) \<and> s1 = s) \<and>
    (creator \<or> s1 = s) \<and> resourceCache s1 = resourceCache s \<and> effects s1 = effects s"
proof (cases "GetAppService sid s")
  case (Some a)
  then show ?thesis
    using assms store_wf_lookup [OF assms(1) Some] by (auto simp: getAppService_def)
next
  case None
  show ?thesis
  proof (cases "creator \<and> r \<noteq> None")
    case True
    then obtain b where b: "InitCacheAppService (se_db env) sid cid = Inr (Inr b)" "r = Some (ServiceID b, b)"
        "s1 = RegistAppService b s"
      using assms(2) None by (auto simp: getAppService_def bind_go_def split: sum.splits)
    then have ok: "ServiceID b = sid" "app_ok b"
      using init_ok [OF b(1)] by (auto simp: fresh_app_def app_ok_def)
    have "store_wf (RegistAppService b s)"
      using store_wf_regist [OF assms(1)] None ok by simp
    then show ?thesis
      using None True b ok by simp (simp add: RegistAppService_def)
  next
    case False
    then show ?thesis
      using None assms by (auto simp: getAppService_def bind_go_def split: sum.splits if_splits)
  qed
qed

lemma getAppService_returns:
  assumes "builder_ok (se_db env)"
  obtains s1 r err where "getAppService env sid cid creator s = Inr (s1, r, err)"
proof -
  obtain res where "InitCacheAppService (se_db env) sid cid = Inr res"
    using init_returns [OF assms] .
  then show ?thesis
    using that by (cases "GetAppService sid s"; cases creator; cases res) (simp_all add: getAppService_def)
qed

section \<open>What a callback can change\<close>

text \<open>
  \<open>keeps S s s'\<close>: between \<open>s\<close> and \<open>s'\<close> only components with an id in \<open>S\<close>
  were touched; none was dropped, and none gained or lost a pod.
\<close>

definition keeps :: "string set \<Rightarrow> runtime_store \<Rightarrow> runtime_store \<Rightarrow> bool" where
  "keeps S s s' \<longleftrightarrow> store_wf s' \<and> resourceCache s' = resourceCache s \<and>
     (\<forall>j. j \<notin> S \<longrightarrow> GetAppService j s' = GetAppService j s) \<and>
     (\<forall>j a. GetAppService j s = Some a \<longrightarrow> (\<exists>b. GetAppService j s' = Some b \<and> pods b = pods a))"

definition pod_safe :: "(app_service \<Rightarrow> app_service go) \<Rightarrow> bool" where
  "pod_safe f \<longleftrightarrow> (\<forall>a b. f a = Inr b \<longrightarrow> app_ok a \<longrightarrow>
     ServiceID b = ServiceID a \<and> app_ok b \<and> pods b = pods a)"

lemma keeps_refl: "store_wf s \<Longrightarrow> keeps S s s"
  by (simp add: keeps_def)

lemma keeps_wf: "keeps S s s' \<Longrightarrow> store_wf s'"
  by (simp add: keeps_def)

lemma keeps_trans: "keeps S s s1 \<Longrightarrow> keeps T s1 s2 \<Longrightarrow> keeps (S \<union> T) s s2"
  unfolding keeps_def by (metis Un_iff)

lemma keeps_emit: "keeps S s s' \<Longrightarrow> keeps S s (emit es s')"
  by (simp add: keeps_def) (simp add: emit_def)

lemma keeps_get:
  assumes "store_wf s" and "getAppService env sid cid creator s = Inr (s1, r, err)"
  shows "keeps {sid} s s1"
  using getAppService_spec [OF assms]
  unfolding keeps_def by (metis singletonI)

lemma keeps_put:
  assumes "store_wf s" and "getAppService env sid cid creator s = Inr (s1, Some (k, a), err)"
    and "ServiceID b = ServiceID a" and "app_ok b" and "pods b = pods a"
  shows "keeps {sid} s (put_app k b s1)"
proof -
  have k: "k = sid" "GetAppService sid s1 = Some a" "store_wf s1"
    using getAppService_spec [OF assms(1,2)] by auto
  then have "store_wf (put_app k b s1)"
    using store_wf_put [OF k(3,2)] store_wf_lookup [OF k(3,2)] assms(3,4) by simp
  then have "keeps {sid} s1 (put_app k b s1)"
    using k assms(5) by (simp add: keeps_def) (simp add: put_app_def)
  with keeps_get [OF assms(1,2)] show ?thesis
    using keeps_trans by fastforce
qed

text \<open>The outcomes of a look-up, with what can be done next; a panic comes from the builder.\<close>

lemma lookup_cases:
  assumes "store_wf s"
  obtains (Absent) s1 err where "getAppService env sid cid cr s = Inr (s1, None, err)"
      and "keeps {sid} s s1"
  | (Present) s1 a err where "getAppService env sid cid cr s = Inr (s1, Some (sid, a), err)"
      and "store_wf s1" and "GetAppService sid s1 = Some a" and "app_ok a"
      and "\<And>b. ServiceID b = ServiceID a \<Longrightarrow> app_ok b \<Longrightarrow> pods b = pods a \<Longrightarrow>
        keeps {sid} s (put_app sid b s1)"
  | (Panics) p where "getAppService env sid cid cr s = Inl p" and "\<not> builder_ok (se_db env)"
proof (cases "getAppService env sid cid cr s")
  case (Inl p)
  then show thesis
    using Panics getAppService_returns by (metis sum.distinct(1))
next
  case (Inr x)
  obtain s1 r err where g0: "getAppService env sid cid cr s = Inr (s1, r, err)"
    using Inr by (cases x) auto
  have g: "getAppService env sid cid cr s = Inr (s1, r, err)" "store_wf s1"
    "\<And>k a. r = Some (k, a) \<Longrightarrow> k = sid \<and> GetAppService sid s1 = Some a \<and> app_ok a"
    using getAppService_spec [OF assms g0] g0 by auto
  show thesis
  proof (cases r)
    case None
    then show thesis using Absent g(1) keeps_get [OF assms g(1)] by blast
  next
    case (Some ka)
    obtain k a where ka: "ka = (k, a)" by fastforce
    then have "k = sid" "GetAppService sid s1 = Some a" "app_ok a" using g(3) Some by auto
    then show thesis
      using Present [of s1 a err] keeps_put [OF assms, of env sid cid cr s1 sid a err] g(1,2) Some ka
      by blast
  qed
qed

lemma owner_labels_sid:
  "owner_labels v m = Some (sid, cid) \<Longrightarrow> sid = gm_str (Labels m) ''service_id''"
  by (auto simp: owner_labels_def Let_def split: if_splits)

abbreviation owner_of :: "object_meta \<Rightarrow> string" where
  "owner_of m \<equiv> gm_str (Labels m) ''service_id''"

lemma with_component_keeps:
  assumes "store_wf s" and "pod_safe f" and "with_component env v cr m f s = Inr (s', flag)"
  shows "keeps {owner_of m} s s'"
proof (cases "owner_labels v m")
  case None
  then show ?thesis using assms by (simp add: with_component_def keeps_refl)
next
  case (Some oc)
  obtain sid cid where oc: "oc = (sid, cid)" by fastforce
  have sid: "sid = owner_of m" using owner_labels_sid Some oc by blast
  show ?thesis
    using assms(1)
  proof (cases rule: lookup_cases [of s env sid cid cr])
    case (Absent s1 err)
    then show ?thesis using assms(3) Some oc sid by (simp add: with_component_def)
  next
    case (Present s1 a err)
    then obtain b where "f a = Inr b" "s' = put_app sid b s1"
      using assms(3) Some oc by (auto simp: with_component_def bind_go_eq_Inr)
    then show ?thesis
      using Present(4,5) assms(2) sid unfolding pod_safe_def by blast
  next
    case (Panics p)
    then show ?thesis using assms(3) Some oc by (simp add: with_component_def)
  qed
qed

lemma simple_add_keeps:
  assumes "store_wf s" and "pod_safe f" and "simple_add env v m f s = Inr s'"
  shows "keeps {owner_of m} s s'"
  using assms with_component_keeps [OF assms(1,2)]
  by (auto simp: simple_add_def bind_go_eq_Inr)

lemma add_workload_keeps:
  assumes "store_wf s" and "pod_safe f" and "add_workload env kind m f s = Inr s'"
  shows "keeps {owner_of m} s s'"
  using assms with_component_keeps [OF assms(1,2)] keeps_emit [OF keeps_refl [OF assms(1)]]
    keeps_refl [OF assms(1)]
  by (auto simp: add_workload_def bind_go_eq_Inr split: option.splits if_splits)

lemma add_replicaset_keeps:
  assumes "store_wf s" and "add_replicaset env rs s = Inr s'"
  shows "keeps {owner_of (rs_meta rs)} s s'"
proof (cases "owner_labels True (rs_meta rs)")
  case None
  then show ?thesis using assms by (simp add: add_replicaset_def keeps_refl)
next
  case (Some oc)
  obtain sid cid where oc: "oc = (sid, cid)" by fastforce
  have sid: "sid = owner_of (rs_meta rs)" using owner_labels_sid Some oc by blast
  show ?thesis
    using assms(1)
  proof (cases rule: lookup_cases [of s env sid cid True])
    case (Absent s1 err)
    then show ?thesis using assms(2) Some oc sid by (simp add: add_replicaset_def)
  next
    case (Present s1 a err)
    have "keeps {sid} s (put_app sid (SetReplicaSets rs a) s1)"
      using Present(4) by (intro Present(5)) (simp_all add: app_ok_def, simp_all add: SetReplicaSets_def)
    then show ?thesis
      using Present assms(2) Some oc sid by (auto simp: add_replicaset_def Let_def intro: keeps_emit)
  next
    case (Panics p)
    then show ?thesis using assms(2) Some oc by (simp add: add_replicaset_def)
  qed
qed

lemma add_service_monitor_keeps:
  assumes "store_wf s" and "add_service_monitor env sm s = Inr s'"
  shows "keeps {owner_of (o_meta sm)} s s'"
proof (cases "owner_labels False (o_meta sm)")
  case None
  then show ?thesis using assms by (simp add: add_service_monitor_def keeps_refl)
next
  case (Some oc)
  obtain sid cid where oc: "oc = (sid, cid)" by fastforce
  have sid: "sid = owner_of (o_meta sm)" using owner_labels_sid Some oc by blast
  have put_emit: "put_app k x (emit es u) = emit es (put_app k x u)" for k x es u
    by (simp add: put_app_def emit_def)
  show ?thesis
    using assms(1)
  proof (cases rule: lookup_cases [of s env sid cid True])
    case (Absent s1 err)
    then show ?thesis
      using assms(2) Some oc sid
      by (auto simp: add_service_monitor_def Let_def keeps_emit split: if_splits)
  next
    case (Present s1 a err)
    have "keeps {sid} s (put_app sid (SetServiceMonitor sm a) s1)"
      using Present(4) by (intro Present(5)) (simp_all add: app_ok_def, simp_all add: SetServiceMonitor_def)
    then show ?thesis
      using Present assms(2) Some oc sid
      by (auto simp: add_service_monitor_def Let_def put_emit keeps_emit split: if_splits)
  next
    case (Panics p)
    then show ?thesis using assms(2) Some oc by (simp add: add_service_monitor_def)
  qed
qed

lemma simple_del_eq:
  "simple_del env v cr m f s = with_component env v cr m (\<lambda>a. Inr (f a)) s"
  unfolding simple_del_def with_component_def DeleteAppService_def Let_def if_cancel bind_go_simps ..

lemma caches_wf_workload [simp]:
  "caches_wf (SetWorkload w a) = caches_wf a" "caches_wf (DeleteWorkload w a) = caches_wf a"
  "caches_wf (DeleteDeployment d a) = caches_wf a" "caches_wf (DeleteStatefulSet st a) = caches_wf a"
  "caches_wf (DeleteIngress i a) = caches_wf a" "caches_wf (DeleteBetaIngress i a) = caches_wf a"
  by (simp_all add: SetWorkload_def DeleteWorkload_def DeleteDeployment_def DeleteStatefulSet_def
      DeleteIngress_def DeleteBetaIngress_def caches_wf_def)

lemmas other_defs = SetWorkload_def DeleteWorkload_def DeleteDeployment_def DeleteStatefulSet_def
  SetIngress_def DeleteIngress_def DeleteBetaIngress_def DeleteClaim_def

lemma op_frames [simp]:
  "pods (SetWorkload w a) = pods a" "ServiceID (SetWorkload w a) = ServiceID a"
  "pods (SetSecret od a) = pods a" "ServiceID (SetSecret od a) = ServiceID a"
  "pods (SetService d a) = pods a" "ServiceID (SetService d a) = ServiceID a"
  "pods (SetIngress i a) = pods a" "ServiceID (SetIngress i a) = ServiceID a"
  "pods (SetConfigMap d a) = pods a" "ServiceID (SetConfigMap d a) = ServiceID a"
  "pods (SetHPA d a) = pods a" "ServiceID (SetHPA d a) = ServiceID a"
  "pods (DeleteWorkload w a) = pods a" "ServiceID (DeleteWorkload w a) = ServiceID a"
  "pods (DeleteDeployment dp a) = pods a" "ServiceID (DeleteDeployment dp a) = ServiceID a"
  "pods (DeleteStatefulSet st a) = pods a" "ServiceID (DeleteStatefulSet st a) = ServiceID a"
  "pods (DeleteReplicaSet r a) = pods a" "ServiceID (DeleteReplicaSet r a) = ServiceID a"
  "pods (DeleteSecrets d a) = pods a" "ServiceID (DeleteSecrets d a) = ServiceID a"
  "pods (DeleteServices d a) = pods a" "ServiceID (DeleteServices d a) = ServiceID a"
  "pods (DeleteIngress d a) = pods a" "ServiceID (DeleteIngress d a) = ServiceID a"
  "pods (DeleteBetaIngress d a) = pods a" "ServiceID (DeleteBetaIngress d a) = ServiceID a"
  "pods (DeleteConfigMaps d a) = pods a" "ServiceID (DeleteConfigMaps d a) = ServiceID a"
  "pods (DelHPA d a) = pods a" "ServiceID (DelHPA d a) = ServiceID a"
  "pods (DeleteClaim d a) = pods a" "ServiceID (DeleteClaim d a) = ServiceID a"
  "pods (DeleteServiceMonitor d a) = pods a" "ServiceID (DeleteServiceMonitor d a) = ServiceID a"
  "ServiceID (SetPods p a) = ServiceID a" "ServiceID (DeletePods p a) = ServiceID a"
  "pods (AddEndpoints e a) = pods a" "ServiceID (AddEndpoints e a) = ServiceID a"
  "pods (DelEndpoints e a) = pods a" "ServiceID (DelEndpoints e a) = ServiceID a"
  by (simp_all add: cache_defs other_defs split: option.splits any_ingress.splits)

lemma op_frames_tenant [simp]:
  "tenantEnv (SetWorkload w a) = tenantEnv a"
  "tenantEnv (SetSecret od a) = tenantEnv a"
  "tenantEnv (SetService d a) = tenantEnv a"
  "tenantEnv (SetIngress i a) = tenantEnv a"
  "tenantEnv (SetConfigMap d a) = tenantEnv a"
  "tenantEnv (SetHPA d a) = tenantEnv a"
  "tenantEnv (DeleteWorkload w a) = tenantEnv a"
  "tenantEnv (DeleteDeployment dp a) = tenantEnv a"
  "tenantEnv (DeleteStatefulSet st a) = tenantEnv a"
  "tenantEnv (DeleteReplicaSet r a) = tenantEnv a"
  "tenantEnv (DeleteSecrets d a) = tenantEnv a"
  "tenantEnv (DeleteServices d a) = tenantEnv a"
  "tenantEnv (DeleteIngress d a) = tenantEnv a"
  "tenantEnv (DeleteBetaIngress d a) = tenantEnv a"
  "tenantEnv (DeleteConfigMaps d a) = tenantEnv a"
  "tenantEnv (DelHPA d a) = tenantEnv a"
  "tenantEnv (DeleteClaim d a) = tenantEnv a"
  "tenantEnv (DeleteServiceMonitor d a) = tenantEnv a"
  "tenantEnv (AddEndpoints e a) = tenantEnv a" "tenantEnv (DelEndpoints e a) = tenantEnv a"
  "tenantEnv (SetPods p a) = tenantEnv a" "tenantEnv (DeletePods p a) = tenantEnv a"
  by (simp_all add: cache_defs other_defs split: option.splits any_ingress.splits)

lemma pod_safe_sets:
  "pod_safe (\<lambda>a. Inr (SetWorkload w a))" "pod_safe (\<lambda>a. Inr (SetSecret od a))"
  "pod_safe (\<lambda>a. Inr (SetService d a))" "pod_safe (\<lambda>a. Inr (SetIngress i a))"
  "pod_safe (\<lambda>a. Inr (SetConfigMap d a))" "pod_safe (\<lambda>a. Inr (SetHPA d a))"
  "pod_safe (\<lambda>a. Inr (AddEndpoints e a))"
  by (simp_all add: pod_safe_def app_ok_def)

lemma pod_safe_dels:
  "pod_safe (\<lambda>a. Inr (DeleteWorkload w a))" "pod_safe (\<lambda>a. Inr (DeleteDeployment dp a))"
  "pod_safe (\<lambda>a. Inr (DeleteStatefulSet st a))" "pod_safe (\<lambda>a. Inr (DeleteReplicaSet r a))"
  "pod_safe (\<lambda>a. Inr (DeleteSecrets d a))" "pod_safe (\<lambda>a. Inr (DeleteServices d a))"
  "pod_safe (\<lambda>a. Inr (DeleteIngress d a))" "pod_safe (\<lambda>a. Inr (DeleteConfigMaps d a))"
  "pod_safe (\<lambda>a. Inr (DelHPA d a))" "pod_safe (\<lambda>a. Inr (DeleteClaim d a))"
  "pod_safe (\<lambda>a. Inr (DeleteServiceMonitor d a))" "pod_safe (\<lambda>a. Inr (DelEndpoints e a))"
  by (simp_all add: pod_safe_def app_ok_def)

lemma pod_safe_workloads:
  "pod_safe (SetDeployment d)" "pod_safe (SetStatefulSet st)" "pod_safe (SetClaim c)"
  by (auto simp: pod_safe_def app_ok_def SetDeployment_def SetStatefulSet_def Let_def bind_go_eq_Inr
      caches_wf_claim(1)) (auto simp: SetClaim_def bind_go_eq_Inr)

lemmas pod_safe_ops = pod_safe_sets pod_safe_dels pod_safe_workloads

text \<open>The component an object belongs to.\<close>

fun obj_owner :: "kube_obj \<Rightarrow> string set" where
  "obj_owner (KThird kind m t) = {owner_of m}"
| "obj_owner (KDeployment d) = {owner_of (d_meta d)}"
| "obj_owner (KStatefulSet d) = {owner_of (s_meta d)}"
| "obj_owner (KReplicaSet rs) = {owner_of (rs_meta rs)}"
| "obj_owner (KSecret x) = {owner_of (o_meta x)}"
| "obj_owner (KService x) = {owner_of (o_meta x)}"
| "obj_owner (KIngress x) = {owner_of (o_meta x)}"
| "obj_owner (KBetaIngress x) = {owner_of (o_meta x)}"
| "obj_owner (KConfigMap x) = {owner_of (o_meta x)}"
| "obj_owner (KHPA x) = {owner_of (o_meta x)}"
| "obj_owner (KClaim x) = {owner_of (o_meta x)}"
| "obj_owner (KServiceMonitor x) = {owner_of (o_meta x)}"
| "obj_owner (KStorageClass sc) = {}"
| "obj_owner KOther = {}"

lemma OnAdd_keeps:
  assumes "store_wf s" and "OnAdd env obj s = Inr s'"
  shows "keeps (obj_owner obj) s s'"
  using assms keeps_refl [OF assms(1)] keeps_emit [OF keeps_refl [OF assms(1)]]
    pod_safe_sets [THEN simple_add_keeps [OF assms(1)]]
    pod_safe_workloads [THEN simple_add_keeps [OF assms(1)]]
    pod_safe_workloads [THEN add_workload_keeps [OF assms(1)]]
    add_replicaset_keeps [OF assms(1)] add_service_monitor_keeps [OF assms(1)]
  by (cases obj) (simp_all add: OnAdd_def add_storage_class_def Let_def, blast)

lemma drop_old_ingress_keeps:
  assumes "store_wf s" and "drop_old_ingress env del old new s = Inr s'"
    and "\<And>a. ServiceID (del old a) = ServiceID a" "\<And>a. app_ok (del old a) = app_ok a"
    and "\<And>a. pods (del old a) = pods a"
  shows "keeps {owner_of (o_meta old)} s s'"
proof (cases "owner_of (o_meta old) = owner_of (o_meta new)")
  case True
  then show ?thesis using assms(1,2) by (simp add: drop_old_ingress_def keeps_refl)
next
  case False
  note step = assms(2) [unfolded drop_old_ingress_def Let_def] False
  show ?thesis
    using assms(1)
  proof (cases rule: lookup_cases [of s env "owner_of (o_meta old)"
        "gm_str (Labels (o_meta old)) ''creater_id''" True])
    case (Absent s1 err)
    then show ?thesis using step by simp
  next
    case (Present s1 a err)
    then show ?thesis using step Present(5) [of "del old a"] assms(3-5) by simp
  next
    case (Panics p)
    then show ?thesis using step by simp
  qed
qed

lemma OnUpdate_keeps:
  assumes "store_wf s" and "OnUpdate env old new s = Inr s'"
  shows "keeps (obj_owner old \<union> obj_owner new) s s'"
proof -
  obtain s1 where s1: "OnAdd env new s1 = Inr s'" and pre:
    "(case new of
         KIngress n \<Rightarrow> (case old of KIngress o' \<Rightarrow> drop_old_ingress env DeleteIngress o' n s
                        | _ \<Rightarrow> Inl TypeAssertion)
       | KBetaIngress n \<Rightarrow> (case old of KBetaIngress o' \<Rightarrow> drop_old_ingress env DeleteBetaIngress o' n s
                        | _ \<Rightarrow> Inl TypeAssertion)
       | _ \<Rightarrow> Inr s) = Inr s1"
    using assms(2) by (auto simp: OnUpdate_def bind_go_eq_Inr)
  have "keeps (obj_owner old) s s1"
    using pre keeps_refl [OF assms(1)] drop_old_ingress_keeps [OF assms(1)]
    by (auto simp: app_ok_def split: kube_obj.splits)
  then show ?thesis
    using keeps_trans OnAdd_keeps [OF keeps_wf s1] by blast
qed

lemma on_delete_one_keeps:
  assumes "store_wf s" and "on_delete_one env obj s = Inr (s', flag)"
  shows "keeps (obj_owner obj) s s'"
  using assms keeps_refl [OF assms(1)] keeps_emit [OF keeps_refl [OF assms(1)]]
    pod_safe_dels [THEN with_component_keeps [OF assms(1)]]
  by (cases obj) (simp_all add: on_delete_one_def simple_del_eq split: if_splits, blast)

lemma OnDelete_keeps:
  assumes "store_wf s" and "OnDelete env obj s = Inr s'"
  shows "keeps (obj_owner obj) s s'"
  using assms on_delete_one_keeps [OF assms(1)]
  by (auto simp: OnDelete_def bind_go_eq_Inr split: if_splits)

section \<open>Sequences of callbacks\<close>

datatype store_event =
  Added kube_obj
| Updated kube_obj kube_obj
| Deleted kube_obj
| PodAdded pod
| PodUpdated pod
| PodDeleted pod
| EpAdded endpoints_obj
| EpUpdated endpoints_obj
| EpDeleted endpoints_obj
| PodDeletedUnknown
| EpDeletedUnknown

definition store_step :: "runtime_store \<Rightarrow> store_env \<times> store_event \<Rightarrow> runtime_store go" where
  "store_step s ee = (case ee of (env, e) \<Rightarrow> (case e of
       Added obj \<Rightarrow> OnAdd env obj s
     | Updated old new \<Rightarrow> OnUpdate env old new s
     | Deleted obj \<Rightarrow> OnDelete env obj s
     | PodAdded p \<Rightarrow> pod_AddFunc env p s
     | PodUpdated p \<Rightarrow> pod_UpdateFunc env p s
     | PodDeleted p \<Rightarrow> pod_DeleteFunc env (DeletedObj p) s
     | EpAdded ep \<Rightarrow> ep_AddFunc env ep s
     | EpUpdated ep \<Rightarrow> ep_UpdateFunc env ep s
     | EpDeleted ep \<Rightarrow> ep_DeleteFunc env (DeletedObj ep) s
     | PodDeletedUnknown \<Rightarrow> pod_DeleteFunc env DeletedFinalStateUnknown s
     | EpDeletedUnknown \<Rightarrow> ep_DeleteFunc env DeletedFinalStateUnknown s))"

definition run_store :: "(store_env \<times> store_event) list \<Rightarrow> runtime_store \<Rightarrow> runtime_store go" where
  "run_store ees s = for_go store_step s ees"

text \<open>The ids an event may touch, and the pod event a component sees.\<close>

fun event_owners :: "store_event \<Rightarrow> string set" where
  "event_owners (Added obj) = obj_owner obj"
| "event_owners (Updated old new) = obj_owner old \<union> obj_owner new"
| "event_owners (Deleted obj) = obj_owner obj"
| "event_owners (PodAdded p) = {owner_of (p_meta p)}"
| "event_owners (PodUpdated p) = {owner_of (p_meta p)}"
| "event_owners (PodDeleted p) = {owner_of (p_meta p)}"
| "event_owners (EpAdded ep) = {owner_of (e_meta ep)}"
| "event_owners (EpUpdated ep) = {owner_of (e_meta ep)}"
| "event_owners (EpDeleted ep) = {owner_of (e_meta ep)}"
| "event_owners PodDeletedUnknown = {}"
| "event_owners EpDeletedUnknown = {}"

fun pod_event :: "store_event \<Rightarrow> pod informer_event option" where
  "pod_event (PodAdded p) = Some (Upsert p)"
| "pod_event (PodUpdated p) = Some (Upsert p)"
| "pod_event (PodDeleted p) = Some (Remove p)"
| "pod_event _ = None"

fun event_pod :: "pod informer_event \<Rightarrow> pod" where
  "event_pod (Upsert p) = p"
| "event_pod (Remove p) = p"

definition owned_pod :: "string \<Rightarrow> pod \<Rightarrow> bool" where
  "owned_pod sid p \<longleftrightarrow> sid \<noteq> [] \<and> owner_of (p_meta p) = sid \<and>
     gm_str (Labels (p_meta p)) ''version'' \<noteq> [] \<and> gm_str (Labels (p_meta p)) ''creater_id'' \<noteq> []"

definition pods_seen :: "string \<Rightarrow> store_event list \<Rightarrow> pod informer_event list" where
  "pods_seen sid es = filter (\<lambda>e. owned_pod sid (event_pod e)) (List.map_filter pod_event es)"

lemma pod_component_spec:
  assumes "store_wf s"
    and ops: "\<And>s1 a. h a s1 (owner_of (p_meta p)) = put_app (owner_of (p_meta p)) (f a) s1"
    and safe: "\<And>a. ServiceID (f a) = ServiceID a" "\<And>a. app_ok a \<Longrightarrow> app_ok (f a)"
    and run: "pod_component env cr p h s = Inr s'"
  shows "store_wf s'" and "resourceCache s' = resourceCache s"
    and "j \<noteq> owner_of (p_meta p) \<Longrightarrow> GetAppService j s' = GetAppService j s"
    and "GetAppService j s = Some a \<Longrightarrow> GetAppService j s' = Some (if owned_pod j p then f a else a)"
proof -
  let ?sid = "owner_of (p_meta p)" and ?cid = "gm_str (Labels (p_meta p)) ''creater_id''"
  have "store_wf s' \<and> resourceCache s' = resourceCache s \<and>
      (j \<noteq> ?sid \<longrightarrow> GetAppService j s' = GetAppService j s) \<and>
      (\<forall>a. GetAppService j s = Some a \<longrightarrow> GetAppService j s' = Some (if owned_pod j p then f a else a))"
  proof (cases "owned_pod ?sid p")
    case False
    then have "s' = s" using run by (auto simp: pod_component_def ExtractLabels_def owned_pod_def)
    then show ?thesis using False assms(1) by (auto simp: owned_pod_def)
  next
    case True
    note step = run [unfolded pod_component_def ExtractLabels_def]
    obtain s1 r err where g0: "getAppService env ?sid ?cid cr s = Inr (s1, r, err)"
      using step True by (cases "getAppService env ?sid ?cid cr s") (auto simp: owned_pod_def)
    note sp = getAppService_spec [OF assms(1) g0]
    note sp1 = sp [THEN conjunct2] and sp2 = sp [THEN conjunct2, THEN conjunct2]
    note sp3 = sp2 [THEN conjunct2]
    note g = g0 sp [THEN conjunct1] sp1 [THEN conjunct1, rule_format] sp2 [THEN conjunct1, rule_format]
      sp3 [THEN conjunct1, rule_format] sp3 [THEN conjunct2, THEN conjunct2, THEN conjunct1]
    show ?thesis
    proof (cases r)
      case None
      then have "s' = s1" using step True g(1) by (auto simp: owned_pod_def)
      moreover have "GetAppService ?sid s = None"
        using g(5) None by (cases "GetAppService ?sid s") auto
      ultimately show ?thesis using g(2,4,6) by (cases "j = ?sid") (auto simp: owned_pod_def)
    next
      case (Some ka)
      then obtain a where r: "r = Some (?sid, a)" "GetAppService ?sid s1 = Some a" "app_ok a"
        using g(3) by (cases ka) blast
      then have s': "s' = put_app ?sid (f a) s1"
        using step True g(1) ops by (auto simp: owned_pod_def)
      have "store_wf s'"
        using store_wf_put [OF g(2) r(2)] store_wf_lookup [OF g(2) r(2)] safe s' by simp
      moreover have "resourceCache s' = resourceCache s"
        using s' g(6) by (simp add: put_app_def)
      moreover have "GetAppService ?sid s = Some x \<Longrightarrow> x = a" for x
        using g(5) [of x] r(1) by simp
      moreover have "\<not> owned_pod j p" if "j \<noteq> ?sid" using that by (simp add: owned_pod_def)
      ultimately show ?thesis
        using True by (cases "j = ?sid") (simp_all add: s' g(4))
    qed
  qed
  then show "store_wf s'" and "resourceCache s' = resourceCache s"
    and "j \<noteq> owner_of (p_meta p) \<Longrightarrow> GetAppService j s' = GetAppService j s"
    and "GetAppService j s = Some a \<Longrightarrow> GetAppService j s' = Some (if owned_pod j p then f a else a)"
    by blast+
qed

lemma pod_funcs_spec:
  assumes "store_wf s" and "store_step s (env, e) = Inr s'" and "pod_event e = Some pe"
  shows "store_wf s' \<and> resourceCache s' = rc_run [pe] (resourceCache s) \<and>
    (\<forall>j. j \<notin> event_owners e \<longrightarrow> GetAppService j s' = GetAppService j s) \<and>
    (\<forall>j a. GetAppService j s = Some a \<longrightarrow> GetAppService j s' =
       Some (if owned_pod j (event_pod pe) then run_events SetPods DeletePods [pe] a else a))"
proof -
  have wf0: "store_wf (s\<lparr>resourceCache := rc_SetPodResource p (resourceCache s)\<rparr>)"
    "store_wf (s\<lparr>resourceCache := rc_RemovePod p (resourceCache s)\<rparr>)" for p
    using assms(1) cache_wf_ops by (auto simp: store_wf_def)
  have safe: "app_ok a \<Longrightarrow> app_ok (SetPods p a)" "app_ok a \<Longrightarrow> app_ok (DeletePods p a)" for p a
    by (simp_all add: app_ok_def)
  show ?thesis
  proof (cases e)
    case (PodAdded p)
    then have "pod_component env True p (\<lambda>app s1 key. put_app key (SetPods p app) s1)
        (s\<lparr>resourceCache := rc_SetPodResource p (resourceCache s)\<rparr>) = Inr s'"
      using assms(2) by (simp add: store_step_def pod_AddFunc_def Let_def)
    note spec = pod_component_spec [where f = "SetPods p", OF wf0(1) _ _ _ this]
    show ?thesis
      using PodAdded assms(3) spec [OF _ _ safe(1)] by auto
  next
    case (PodUpdated p)
    then obtain s1 where s1: "pod_component env True p (\<lambda>app s1 key. put_app key (SetPods p app) s1)
        (s\<lparr>resourceCache := rc_SetPodResource p (resourceCache s)\<rparr>) = Inr s1"
      and s': "\<exists>es. s' = emit es s1"
      using assms(2) by (auto simp: store_step_def pod_UpdateFunc_def Let_def bind_go_eq_Inr)
    have "resourceCache s' = resourceCache s1" using s' by (auto simp: emit_def)
    moreover note spec = pod_component_spec [where f = "SetPods p", OF wf0(1) _ _ _ s1]
    ultimately show ?thesis
      using PodUpdated s' assms(3) spec [OF _ _ safe(1)] by auto
  next
    case (PodDeleted p)
    then have "pod_component env False p (\<lambda>app s1 key. let app' = DeletePods p app; s2 = put_app key app' s1
           in if IsClosed app' then DeleteAppService app' s2 else s2)
        (s\<lparr>resourceCache := rc_RemovePod p (resourceCache s)\<rparr>) = Inr s'"
      using assms(2) by (simp add: store_step_def pod_DeleteFunc_def assert_obj_def Let_def)
    note spec = pod_component_spec [where f = "DeletePods p", OF wf0(2) _ _ _ this]
    show ?thesis
      using PodDeleted assms(3) spec [OF _ _ safe(2)] by (auto simp: Let_def DeleteAppService_def)
  qed (use assms(3) in simp_all)
qed

lemma ep_funcs_keep:
  assumes "store_wf s"
  shows "ep_AddFunc env ep s = Inr s' \<Longrightarrow> keeps {owner_of (e_meta ep)} s s'"
    and "ep_UpdateFunc env ep s = Inr s' \<Longrightarrow> keeps {owner_of (e_meta ep)} s s'"
    and "ep_DeleteFunc env (DeletedObj ep) s = Inr s' \<Longrightarrow> keeps {owner_of (e_meta ep)} s s'"
  using simple_add_keeps [OF assms pod_safe_sets(7)] with_component_keeps [OF assms pod_safe_dels(12)]
  by (auto simp: ep_AddFunc_def ep_UpdateFunc_def ep_DeleteFunc_def assert_obj_def simple_del_eq bind_go_eq_Inr)

lemma other_step_keeps:
  assumes "store_wf s" and "store_step s (env, e) = Inr s'" and "pod_event e = None"
  shows "keeps (event_owners e) s s'"
  using assms OnAdd_keeps [OF assms(1)] OnUpdate_keeps [OF assms(1)] OnDelete_keeps [OF assms(1)]
    ep_funcs_keep [OF assms(1)]
  by (cases e) (simp_all add: store_step_def pod_DeleteFunc_def ep_DeleteFunc_def assert_obj_def)

lemma pods_seen_Cons: "pods_seen j (e # es) = pods_seen j [e] @ pods_seen j es"
  by (simp add: pods_seen_def List.map_filter_simps split: option.splits)

definition all_pod_events :: "store_event list \<Rightarrow> pod informer_event list" where
  "all_pod_events es = List.map_filter pod_event es"

lemma all_pod_events_Cons: "all_pod_events (e # es) = all_pod_events [e] @ all_pod_events es"
  by (simp add: all_pod_events_def List.map_filter_simps split: option.splits)

text \<open>One step, whatever the event: the facts that the sequences below are built from.\<close>

lemma store_step_spec:
  assumes "store_wf s" and "store_step s (env, e) = Inr s'"
  shows "store_wf s'" and "resourceCache s' = rc_run (all_pod_events [e]) (resourceCache s)"
    and "j \<notin> event_owners e \<Longrightarrow> GetAppService j s' = GetAppService j s"
    and "GetAppService j s = Some a \<Longrightarrow> \<exists>b. GetAppService j s' = Some b \<and>
      pods b = pods (run_events SetPods DeletePods (pods_seen j [e]) a)"
proof -
  have "store_wf s' \<and> resourceCache s' = rc_run (all_pod_events [e]) (resourceCache s) \<and>
    (\<forall>j. j \<notin> event_owners e \<longrightarrow> GetAppService j s' = GetAppService j s) \<and>
    (\<forall>j a. GetAppService j s = Some a \<longrightarrow> (\<exists>b. GetAppService j s' = Some b \<and>
      pods b = pods (run_events SetPods DeletePods (pods_seen j [e]) a)))"
  proof (cases "pod_event e")
    case None
    then show ?thesis
      using other_step_keeps [OF assms None]
      by (simp add: keeps_def pods_seen_def all_pod_events_def List.map_filter_simps)
  next
    case (Some pe)
    then show ?thesis
      using pod_funcs_spec [OF assms Some]
      by (simp add: pods_seen_def all_pod_events_def List.map_filter_simps)
  qed
  then show "store_wf s'" and "resourceCache s' = rc_run (all_pod_events [e]) (resourceCache s)"
    and "j \<notin> event_owners e \<Longrightarrow> GetAppService j s' = GetAppService j s"
    and "GetAppService j s = Some a \<Longrightarrow> \<exists>b. GetAppService j s' = Some b \<and>
      pods b = pods (run_events SetPods DeletePods (pods_seen j [e]) a)"
    by blast+
qed

lemma rc_run_append: "rc_run (xs @ ys) r = rc_run ys (rc_run xs r)"
  by (induction xs r rule: rc_run.induct) simp_all

lemma pods_run_cong:
  "pods a = pods b \<Longrightarrow>
     pods (run_events SetPods DeletePods es a) = pods (run_events SetPods DeletePods es b)"
proof (induction es arbitrary: a b)
  case (Cons e es)
  show ?case
    by (cases e) (use Cons in \<open>simp_all add: SetPods_def DeletePods_def\<close>)
qed simp

lemma run_events_append:
  "run_events put del (xs @ ys) s = run_events put del ys (run_events put del xs s)"
proof (induction xs arbitrary: s)
  case (Cons x xs)
  then show ?case by (cases x) simp_all
qed simp

lemma run_store_Cons:
  "run_store (ee # ees) s = Inr s' \<longleftrightarrow> (\<exists>s1. store_step s ee = Inr s1 \<and> run_store ees s1 = Inr s')"
  by (simp add: run_store_def bind_go_eq_Inr)

lemma run_store_spec:
  assumes "store_wf s" and "run_store ees s = Inr s'"
  shows "store_wf s' \<and> resourceCache s' = rc_run (all_pod_events (map snd ees)) (resourceCache s) \<and>
    ((\<forall>e \<in> snd ` set ees. j \<notin> event_owners e) \<longrightarrow> GetAppService j s' = GetAppService j s) \<and>
    (\<forall>a. GetAppService j s = Some a \<longrightarrow> (\<exists>b. GetAppService j s' = Some b \<and>
       pods b = pods (run_events SetPods DeletePods (pods_seen j (map snd ees)) a)))"
  using assms
proof (induction ees arbitrary: s)
  case Nil
  then show ?case
    by (simp add: run_store_def all_pod_events_def pods_seen_def List.map_filter_simps)
next
  case (Cons ee ees)
  obtain env e where ee: "ee = (env, e)" by fastforce
  obtain s1 where step: "store_step s (env, e) = Inr s1" and rest: "run_store ees s1 = Inr s'"
    using Cons.prems(2) ee by (auto simp: run_store_Cons)
  note spec = store_step_spec [OF Cons.prems(1) step]
  note IH = Cons.IH [OF spec(1) rest]
  have pods: "\<exists>b. GetAppService j s' = Some b \<and>
       pods b = pods (run_events SetPods DeletePods (pods_seen j (map snd (ee # ees))) a)"
    if cached: "GetAppService j s = Some a" for a
  proof -
    obtain a1 where a1: "GetAppService j s1 = Some a1"
      "pods a1 = pods (run_events SetPods DeletePods (pods_seen j [e]) a)"
      using spec(4) [OF cached] by blast
    then obtain b where "GetAppService j s' = Some b"
      "pods b = pods (run_events SetPods DeletePods (pods_seen j (map snd ees)) a1)"
      using IH by blast
    then show ?thesis
      using pods_run_cong [OF a1(2)] by (simp add: ee pods_seen_Cons [of j e "map snd ees"] run_events_append)
  qed
  have "GetAppService j s' = GetAppService j s"
    if "\<forall>e \<in> snd ` set (ee # ees). j \<notin> event_owners e"
    using that IH spec(3) by (simp add: ee)
  then show ?case
    using pods IH spec(2) by (simp add: ee all_pod_events_Cons [of e "map snd ees"] rc_run_append)
qed

text \<open>
  C1: Starting empty, after any sequence of informer callbacks (objects added, updated or deleted,
  pods coming and going, with any database contents and failures along the way) every cached
  component sits under its own service id, its caches hold no name twice and it has a namespace,
  no id occurs twice, and the component counter is the number of components as a 32-bit integer.
\<close>

theorem store_invariant:
  assumes "run_store ees NewStore = Inr s"
  shows "store_wf s \<and> appCount s = wrap32 (int (length (GetAllAppServices s))) \<and>
    (\<forall>sid a. GetAppService sid s = Some a \<longrightarrow>
       ServiceID a = sid \<and> caches_wf a \<and> tenantEnv a \<noteq> None \<and> a \<in> set (GetAllAppServices s))"
proof -
  have "store_wf NewStore"
    by (simp add: store_wf_def NewStore_def NewResourceCache_def cache_wf_def)
  then have wf: "store_wf s" using run_store_spec assms by blast
  moreover have "a \<in> set (GetAllAppServices s)" if "GetAppService sid s = Some a" for sid a
    using that map_of_SomeD by (force simp: GetAppService_def GetAllAppServices_def)
  ultimately show ?thesis
    using store_wf_lookup [OF wf] by (auto simp: store_wf_def app_ok_def GetAllAppServices_def)
qed

text \<open>
  C21: Callbacks about other components never touch a component: when no event of a sequence is
  about an object labelled with its id, the cached component is exactly what it was before.
\<close>

theorem store_isolation:
  assumes "store_wf s" and "run_store ees s = Inr s'"
    and "\<forall>e \<in> snd ` set ees. sid \<notin> event_owners e"
  shows "GetAppService sid s' = GetAppService sid s"
  using run_store_spec [OF assms(1,2)] assms(3) by blast

text \<open>
  C16: A cached component follows the cluster: it stays cached through every sequence of callbacks,
  and looking up one of its pods gives what the last pod event about that name with the component's
  labels left there; no other event adds, changes or removes a pod.
\<close>

theorem store_pods_follow_events:
  assumes "store_wf s" and "run_store ees s = Inr s'" and "GetAppService sid s = Some a"
  shows "\<exists>b. GetAppService sid s' = Some b \<and>
    GetPodsByName n b = last_event pod_name n (pods_seen sid (map snd ees)) (GetPodsByName n a)"
proof -
  obtain b where b: "GetAppService sid s' = Some b"
    "pods b = pods (run_events SetPods DeletePods (pods_seen sid (map snd ees)) a)"
    using run_store_spec [OF assms(1,2)] assms(3) by blast
  have "names_distinct pod_name (pods a)"
    using store_wf_lookup [OF assms(1,3)] by (simp add: app_ok_def caches_wf_def)
  then show ?thesis
    using b pod_cache.st.run_refines [of a "pods_seen sid (map snd ees)"]
    by (simp add: GetPodsByName_def fun_eq_iff abs_events_last)
qed

text \<open>
  C20: The resource totals that the store reports for a namespace or tenant environment are the
  sums over the pods the informer has announced there and not removed, whatever other callbacks
  ran in between and whether or not the components of the pods could be cached.
\<close>

theorem store_resources_exact:
  assumes "run_store ees NewStore = Inr s"
  shows "te_memory_request (GetTenantEnvResource ns (resourceCache s)) =
      spec_total MemoryRequest (spec_entries ns (all_pod_events (map snd ees)) Map.empty) \<and>
    te_cpu_request (GetTenantEnvResource ns (resourceCache s)) =
      spec_total CPURequest (spec_entries ns (all_pod_events (map snd ees)) Map.empty)"
proof -
  have wf0: "store_wf NewStore" and rc0: "resourceCache NewStore = NewResourceCache"
    by (simp_all add: store_wf_def NewStore_def NewResourceCache_def cache_wf_def)
  have rc: "resourceCache s = rc_run (all_pod_events (map snd ees)) NewResourceCache"
    using run_store_spec [OF wf0 assms] rc0 by simp
  have wf: "cache_wf (rc_run es NewResourceCache)" for es
    by (rule rc_run_wf) (simp add: NewResourceCache_def cache_wf_def)
  have "pod_entry NewResourceCache ns = Map.empty"
    by (simp add: NewResourceCache_def pod_entry_def fun_eq_iff)
  then show ?thesis
    by (simp add: rc GetTenantEnvResource_def rc_sum_total [OF wf] rc_run_entries)
qed

section \<open>Callbacks do not panic\<close>

text \<open>
  The objects the API server admits: workloads have a replica count (it is defaulted there), and an
  update keeps the kind of the object. A deletion of a pod or of endpoints comes with the object.
\<close>

fun obj_admitted :: "kube_obj \<Rightarrow> bool" where
  "obj_admitted (KDeployment d) = (d_replicas d \<noteq> None)"
| "obj_admitted (KStatefulSet d) = (s_replicas d \<noteq> None)"
| "obj_admitted _ = True"

definition same_kind :: "kube_obj \<Rightarrow> kube_obj \<Rightarrow> bool" where
  "same_kind old new = (case new of
       KIngress _ \<Rightarrow> (case old of KIngress _ \<Rightarrow> True | _ \<Rightarrow> False)
     | KBetaIngress _ \<Rightarrow> (case old of KBetaIngress _ \<Rightarrow> True | _ \<Rightarrow> False)
     | _ \<Rightarrow> True)"

fun event_admitted :: "store_event \<Rightarrow> bool" where
  "event_admitted (Added obj) = obj_admitted obj"
| "event_admitted (Updated old new) = (obj_admitted new \<and> same_kind old new)"
| "event_admitted PodDeletedUnknown = False"
| "event_admitted EpDeletedUnknown = False"
| "event_admitted _ = True"

definition total_op :: "(app_service \<Rightarrow> app_service go) \<Rightarrow> bool" where
  "total_op f \<longleftrightarrow> (\<forall>a. app_ok a \<longrightarrow> (\<exists>b. f a = Inr b))"

lemma total_op_Inr [simp]: "total_op (\<lambda>a. Inr (f a))"
  by (simp add: total_op_def)

lemma total_op_workloads:
  "d_replicas d \<noteq> None \<Longrightarrow> total_op (SetDeployment d)"
  "s_replicas st \<noteq> None \<Longrightarrow> total_op (SetStatefulSet st)"
  "total_op (SetClaim c)"
  by (auto simp: total_op_def SetDeployment_def SetStatefulSet_def SetClaim_def GetNamespace_def
      app_ok_def Let_def)

lemma lookup_then_returns:
  assumes "builder_ok (se_db env)" and "\<And>x. \<exists>y. g x = Inr y"
  shows "\<exists>y. bind_go (getAppService env sid cid cr s) g = Inr y"
proof -
  obtain x where "getAppService env sid cid cr s = Inr x"
    using getAppService_returns [OF assms(1)] by metis
  then show ?thesis using assms(2) by simp
qed

lemma with_component_returns:
  assumes "store_wf s" and "builder_ok (se_db env)" and "total_op f"
  shows "\<exists>r. with_component env v cr m f s = Inr r"
proof (cases "owner_labels v m")
  case None
  then show ?thesis by (auto simp: with_component_def)
next
  case (Some oc)
  obtain sid cid where oc: "oc = (sid, cid)" by fastforce
  show ?thesis
    using assms(1)
  proof (cases rule: lookup_cases [of s env sid cid cr])
    case (Absent s1 err)
    then show ?thesis using Some oc by (auto simp: with_component_def)
  next
    case (Present s1 a err)
    then obtain b where "f a = Inr b" using assms(3) by (auto simp: total_op_def)
    then show ?thesis using Present Some oc by (auto simp: with_component_def)
  qed (use assms(2) in simp)
qed

lemma OnAdd_returns:
  assumes "store_wf s" and "obj_admitted obj" and "builder_ok (se_db env)"
  shows "\<exists>s'. OnAdd env obj s = Inr s'"
proof -
  have simple: "\<exists>s'. simple_add env v m f s = Inr s'" if f: "total_op f" for v m f
    using with_component_returns [OF assms(1,3) f, of v True m] by (auto simp: simple_add_def)
  have workload: "\<exists>s'. add_workload env k m f s = Inr s'" if f: "total_op f" for k m f
    using with_component_returns [OF assms(1,3) f, of True True m]
    by (auto simp: add_workload_def split: option.splits)
  have "\<exists>s'. add_replicaset env rs s = Inr s'" for rs
    unfolding add_replicaset_def
    by (auto simp: Let_def intro!: lookup_then_returns [OF assms(3)] split: option.split)
  moreover have "\<exists>s'. add_service_monitor env sm s = Inr s'" for sm
    unfolding add_service_monitor_def
    by (auto simp: Let_def intro!: lookup_then_returns [OF assms(3)] split: option.split)
  ultimately show ?thesis
    using assms(2) simple workload total_op_workloads by (cases obj) (simp_all add: OnAdd_def)
qed

lemma drop_old_ingress_returns:
  assumes "builder_ok (se_db env)"
  shows "\<exists>s'. drop_old_ingress env del old new s = Inr s'"
  unfolding drop_old_ingress_def
  by (auto simp: Let_def intro!: lookup_then_returns [OF assms(1)] split: option.split)

lemma OnUpdate_returns:
  assumes "store_wf s" and "obj_admitted new" and "same_kind old new" and "builder_ok (se_db env)"
  shows "\<exists>s'. OnUpdate env old new s = Inr s'"
proof -
  have then_add: "\<exists>s'. OnAdd env new s1 = Inr s'" if "store_wf s1" for s1
    using OnAdd_returns [OF that assms(2,4)] .
  have ing: "\<exists>s1. drop_old_ingress env DeleteIngress x y s = Inr s1 \<and> store_wf s1"
    "\<exists>s1. drop_old_ingress env DeleteBetaIngress x y s = Inr s1 \<and> store_wf s1" for x y
    using drop_old_ingress_returns [OF assms(4), of DeleteIngress x y s]
      drop_old_ingress_returns [OF assms(4), of DeleteBetaIngress x y s]
      drop_old_ingress_keeps [OF assms(1), of env DeleteIngress x y, THEN keeps_wf]
      drop_old_ingress_keeps [OF assms(1), of env DeleteBetaIngress x y, THEN keeps_wf]
    by (auto simp: app_ok_def)
  have "\<exists>s1. (case new of
         KIngress n \<Rightarrow> (case old of KIngress o' \<Rightarrow> drop_old_ingress env DeleteIngress o' n s
                        | _ \<Rightarrow> Inl TypeAssertion)
       | KBetaIngress n \<Rightarrow> (case old of KBetaIngress o' \<Rightarrow> drop_old_ingress env DeleteBetaIngress o' n s
                        | _ \<Rightarrow> Inl TypeAssertion)
       | _ \<Rightarrow> Inr s) = Inr s1 \<and> store_wf s1"
    using assms(1,3) ing by (simp add: same_kind_def split: kube_obj.splits)
  then show ?thesis
    using then_add unfolding OnUpdate_def by (metis bind_go_simps(2))
qed

lemma OnDelete_returns:
  assumes "store_wf s" and "builder_ok (se_db env)"
  shows "\<exists>s'. OnDelete env obj s = Inr s'"
proof -
  have "\<exists>r. on_delete_one env obj s = Inr r"
    using with_component_returns [OF assms total_op_Inr]
    by (cases obj) (auto simp: on_delete_one_def simple_del_eq)
  then show ?thesis by (auto simp: OnDelete_def)
qed

lemma pod_component_returns:
  assumes "builder_ok (se_db env)"
  shows "\<exists>s'. pod_component env cr p h s = Inr s'"
  unfolding pod_component_def
  by (auto simp: Let_def ExtractLabels_def intro!: lookup_then_returns [OF assms] split: option.split)

lemma ep_funcs_return:
  assumes "store_wf s" and "builder_ok (se_db env)"
  shows "\<exists>s'. ep_AddFunc env ep s = Inr s'" "\<exists>s'. ep_UpdateFunc env ep s = Inr s'"
    "\<exists>s'. ep_DeleteFunc env (DeletedObj ep) s = Inr s'"
  using with_component_returns [OF assms total_op_Inr, of False True "e_meta ep" "AddEndpoints ep"]
    with_component_returns [OF assms total_op_Inr, of False False "e_meta ep" "DelEndpoints ep"]
  by (auto simp: ep_AddFunc_def ep_UpdateFunc_def ep_DeleteFunc_def assert_obj_def simple_add_def simple_del_eq)

lemma store_step_returns:
  assumes "store_wf s" and "event_admitted e" and "builder_ok (se_db env)"
  shows "\<exists>s'. store_step s (env, e) = Inr s'"
proof (cases e)
  case (PodUpdated p)
  obtain s1 where "pod_component env True p (\<lambda>app s1 key. put_app key (SetPods p app) s1)
      (s\<lparr>resourceCache := rc_SetPodResource p (resourceCache s)\<rparr>) = Inr s1"
    using pod_component_returns [OF assms(3)] by blast
  then show ?thesis
    by (simp add: PodUpdated store_step_def pod_UpdateFunc_def Let_def)
qed (use assms OnAdd_returns OnUpdate_returns OnDelete_returns ep_funcs_return
      pod_component_returns [OF assms(3)]
    in \<open>simp_all add: store_step_def pod_AddFunc_def pod_DeleteFunc_def assert_obj_def Let_def\<close>)

text \<open>
  C19: The callbacks of the store do not panic by themselves: every sequence of callbacks runs to its end,
  whatever rows and failures the database answers with, as long as the objects are ones the API server
  admits, no deletion of a pod or of endpoints is announced without the object, and building the routes
  of a third-party component for the cache does not panic.
\<close>

theorem store_never_panics:
  assumes "store_wf s" and "\<forall>e \<in> snd ` set ees. event_admitted e"
    and "\<forall>env \<in> fst ` set ees. \<forall>a. \<exists>k8s. k8s_build (se_db env) a = Inr k8s"
  shows "\<exists>s'. run_store ees s = Inr s'"
  using assms
proof (induction ees arbitrary: s)
  case (Cons ee ees)
  obtain env e where ee: "ee = (env, e)" by fastforce
  have "builder_ok (se_db env)"
    using Cons.prems(3) ee by (simp add: builder_ok_def)
  then obtain s1 where s1: "store_step s (env, e) = Inr s1"
    using store_step_returns [OF Cons.prems(1), of e env] Cons.prems(2) ee by auto
  then have "\<exists>s'. run_store ees s1 = Inr s'"
    using Cons.IH [OF store_step_spec(1) [OF Cons.prems(1) s1]] Cons.prems(2,3) by simp
  then show ?case using s1 ee by (auto simp: run_store_Cons)
qed (simp add: run_store_def)

text \<open>
  A deletion that the informer missed and reports without the last state makes the store panic, for a
  pod and for endpoints alike, whatever the store holds; for the other objects it changes nothing, so
  that the object stays in the cache.
\<close>

theorem unknown_deletion_panics:
  "run_store ((env, PodDeletedUnknown) # ees) s = Inl TypeAssertion \<and>
   run_store ((env, EpDeletedUnknown) # ees) s = Inl TypeAssertion \<and>
   run_store [(env, Deleted KOther)] s = Inr s"
  by (simp add: run_store_def store_step_def pod_DeleteFunc_def ep_DeleteFunc_def assert_obj_def OnDelete_def
      on_delete_one_def)

section \<open>Clean-up in the cluster\<close>

lemma effects_frame [simp]:
  "effects (put_app k a s) = effects s" "effects (RegistAppService a s) = effects s"
  "effects (emit es s) = effects s @ es"
  by (simp_all add: put_app_def RegistAppService_def emit_def)

text \<open>
  C30: A replica set is deleted from the cluster only when it is obsolete: its component has a
  current replica set of another name and a higher revision, and the deleted one has no replicas,
  none ready and none available. Everything else about a replica set event goes to the cache.
\<close>

theorem replicaset_deletion_safe:
  assumes "store_wf s" and "OnAdd env (KReplicaSet rs) s = Inr s'" and "effects s' \<noteq> effects s"
  shows "effects s' = effects s @ [KubeDelete ReplicaSetKind (Namespace (rs_meta rs)) (rs_name rs)] \<and>
    (\<exists>a cur. GetAppService (owner_of (rs_meta rs)) s' = Some a \<and> GetCurrentReplicaSet a = Some cur \<and>
       rs_name cur \<noteq> rs_name rs \<and> GetReplicaSetVersion rs < GetReplicaSetVersion cur \<and>
       rs_replicas rs = 0 \<and> rs_ready rs = 0 \<and> rs_available rs = 0)"
proof -
  have step: "add_replicaset env rs s = Inr s'" using assms(2) by (simp add: OnAdd_def)
  obtain sid cid where oc: "owner_labels True (rs_meta rs) = Some (sid, cid)"
    using step assms(3) by (auto simp: add_replicaset_def split: option.splits)
  have sid: "sid = owner_of (rs_meta rs)" by (rule owner_labels_sid [OF oc])
  obtain s1 r err where g0: "getAppService env sid cid True s = Inr (s1, r, err)"
    using step oc by (cases "getAppService env sid cid True s") (auto simp: add_replicaset_def)
  have g: "getAppService env sid cid True s = Inr (s1, r, err)"
    "effects s1 = effects s" "\<And>k a. r = Some (k, a) \<Longrightarrow> k = sid"
    using getAppService_spec [OF assms(1) g0] g0 by blast+
  then obtain a where r: "r = Some (sid, a)"
    using step oc assms(3) by (cases r) (auto simp: add_replicaset_def)
  let ?a = "SetReplicaSets rs a"
  have s': "s' = emit (checkReplicasetWhetherDelete ?a rs) (put_app sid ?a s1)"
    using step oc g(1) r by (simp add: add_replicaset_def Let_def)
  then have "checkReplicasetWhetherDelete ?a rs \<noteq> []" using assms(3) g(2) by auto
  then obtain cur where "GetCurrentReplicaSet ?a = Some cur" "rs_name cur \<noteq> rs_name rs"
    "GetReplicaSetVersion rs < GetReplicaSetVersion cur"
    "rs_replicas rs = 0" "rs_ready rs = 0" "rs_available rs = 0"
    "checkReplicasetWhetherDelete ?a rs = [KubeDelete ReplicaSetKind (Namespace (rs_meta rs)) (rs_name rs)]"
    by (auto simp: checkReplicasetWhetherDelete_def split: option.splits if_splits)
  then show ?thesis using s' sid g(2) by simp
qed

text \<open>
  A deployment or stateful set of a component that was deleted from the platform is deleted
  from the cluster and changes nothing in the cache.
\<close>

theorem deleted_component_purged:
  assumes "component_deleted env sid" and "owner_labels True m = Some (sid, cid)"
  shows "(d_meta d = m \<longrightarrow> OnAdd env (KDeployment d) s =
      Inr (s\<lparr>effects := effects s @ [KubeDelete DeploymentKind (Namespace m) (Name m)]\<rparr>)) \<and>
    (s_meta st = m \<longrightarrow> OnAdd env (KStatefulSet st) s =
      Inr (s\<lparr>effects := effects s @ [KubeDelete StatefulSetKind (Namespace m) (Name m)]\<rparr>))"
  using assms by (auto simp: OnAdd_def add_workload_def emit_def)

text \<open>
  The store never forgets an ingress of the beta API: after one is added to a cached component,
  the callback for its deletion leaves the store unchanged and the component keeps it, whereas an
  ingress of the networking API is removed.
\<close>

theorem beta_ingress_never_removed:
  assumes "store_wf s" and "GetAppService sid s = Some a"
    and "owner_labels False (o_meta i) = Some (sid, cid)"
    and "obj_name i \<notin> obj_name ` set (betaIngresses a)" "obj_name i \<notin> obj_name ` set (ingresses a)"
  shows "(\<exists>s1 b. OnAdd env (KBetaIngress i) s = Inr s1 \<and> OnDelete env (KBetaIngress i) s1 = Inr s1 \<and>
      GetAppService sid s1 = Some b \<and> i \<in> set (betaIngresses b)) \<and>
    (\<exists>s1 s2 b. OnAdd env (KIngress i) s = Inr s1 \<and> OnDelete env (KIngress i) s1 = Inr s2 \<and>
      GetAppService sid s2 = Some b \<and> ingresses b = ingresses a)"
proof -
  have get: "getAppService env sid cid cr u = Inr (u, Some (sid, x), None)"
    if "GetAppService sid u = Some x" for u x cr
    using that by (simp add: getAppService_def)
  have loop: "del_named obj_name (obj_name i) (set_ingress_loop i (ingresses a)) = ingresses a"
    using assms(5) set_ingress_loop_fresh [OF assms(5)] del_set_named_fresh [OF assms(5)]
      set_named_fresh [OF assms(5)] by simp
  show ?thesis
    using assms(2-5) get loop
    by (simp add: OnAdd_def simple_add_def with_component_def OnDelete_def on_delete_one_def
        simple_del_eq SetIngress_def DeleteIngress_def set_ingress_loop_fresh)
qed

section \<open>Witnesses\<close>

definition sample_listers :: listers where
  "sample_listers = \<lparr>ls_statefulset = (\<lambda>_ _. ListerError), ls_deployment = (\<lambda>_ _. ListerError),
     ls_service = (\<lambda>_ _. ListerError), ls_ingress = (\<lambda>_ _. ListerError),
     ls_beta_ingress = (\<lambda>_ _. ListerError), ls_secret = (\<lambda>_ _. ListerError),
     ls_pod = (\<lambda>_ _. ListerNotFound)\<rparr>"

definition sample_env :: "database \<Rightarrow> store_env" where
  "sample_env db = \<lparr>se_db = db, se_um = (\<lambda>_. None), se_json = (\<lambda>_. []), se_room = (\<lambda>_. True),
     se_sm_client = True, se_db_delete_fails = False, se_listers = sample_listers,
     se_high_version = True\<rparr>"

definition labels_of :: "string \<Rightarrow> string gomap" where
  "labels_of sid = [(''service_id'', sid), (''version'', ''1''), (''creater_id'', ''c1'')]"

definition comp_pod :: "string \<Rightarrow> string \<Rightarrow> int \<Rightarrow> pod" where
  "comp_pod sid n t = (sample_pod n ''1'' t)\<lparr>p_meta := zero_meta\<lparr>Name := n, Namespace := ''ns1'',
     Labels := labels_of sid, CreationTimestamp := t\<rparr>\<rparr>"

definition cached :: "string \<Rightarrow> app_service" where
  "cached sid = zero_app\<lparr>ServiceID := sid, tenantEnv := Some (sample_obj ''ns1'' [])\<rparr>"

definition store_of :: "app_service list \<Rightarrow> runtime_store" where
  "store_of as = NewStore\<lparr>appServices := map (\<lambda>a. (ServiceID a, a)) as, appCount := int (length as)\<rparr>"

lemmas store_sample_defs = sample_defs labels_of_def comp_pod_def cached_def store_of_def
  NewStore_def NewResourceCache_def

lemma comp_pod_simps [simp]:
  "pod_name (comp_pod sid n t) = n" "owner_of (p_meta (comp_pod sid n t)) = sid"
  "sid \<noteq> [] \<Longrightarrow> owned_pod j (comp_pod sid n t) = (j = sid)"
  by (auto simp: comp_pod_def labels_of_def owned_pod_def zero_meta_def)

lemma store_of_wf:
  "store_wf (store_of [cached ''s1''])" "store_wf (store_of [cached ''s1'', cached ''s2''])"
  by (simp_all add: store_wf_def store_sample_defs cache_wf_def app_ok_def caches_wf_def)

lemma store_of_get: "GetAppService ''s1'' (store_of (cached ''s1'' # as)) = Some (cached ''s1'')"
  by (simp add: GetAppService_def store_sample_defs)

lemma store_invariant_witness:
  "\<exists>s a. run_store [(sample_env (sample_db [sample_row ''s1'' ServiceKindInternal]),
        PodAdded (comp_pod ''s1'' ''p'' 0))] NewStore = Inr s \<and>
      GetAppService ''s1'' s = Some a \<and> ServiceID a = ''s1'' \<and> caches_wf a"
proof -
  let ?env = "sample_env (sample_db [sample_row ''s1'' ServiceKindInternal])"
  obtain a where a: "InitCacheAppService (sample_db [sample_row ''s1'' ServiceKindInternal]) ''s1'' ''c1'' =
      Inr (Inr a)"
    by (rule sample_init_some [of ServiceKindInternal])
      (simp_all add: ServiceKindInternal_def ServiceKindThirdParty_def ServiceKindCustom_def)
  have "ServiceID a = ''s1''" using init_ok [OF a] by (auto simp: fresh_app_def)
  then obtain s b where run: "run_store [(?env, PodAdded (comp_pod ''s1'' ''p'' 0))] NewStore = Inr s"
    and s: "GetAppService ''s1'' s = Some b"
    using a by (simp add: run_store_def store_step_def pod_AddFunc_def pod_component_def
        ExtractLabels_def comp_pod_def labels_of_def zero_meta_def Let_def getAppService_def
        sample_env_def) (simp add: GetAppService_def NewStore_def RegistAppService_def put_app_def)
  show ?thesis using run s store_invariant [OF run] by blast
qed

lemma store_isolation_witness:
  "\<exists>s'. run_store [(sample_env (sample_db []), PodAdded (comp_pod ''s2'' ''p'' 0))]
      (store_of [cached ''s1'', cached ''s2'']) = Inr s' \<and>
    GetAppService ''s1'' s' = Some (cached ''s1'')"
proof -
  let ?ees = "[(sample_env (sample_db []), PodAdded (comp_pod ''s2'' ''p'' 0))]"
  obtain s' where run: "run_store ?ees (store_of [cached ''s1'', cached ''s2'']) = Inr s'"
    by (auto simp: run_store_def store_step_def pod_AddFunc_def pod_component_def ExtractLabels_def
        Let_def getAppService_def GetAppService_def store_sample_defs)
  show ?thesis
    using run store_isolation [OF store_of_wf(2) run, of "''s1''"] store_of_get by simp
qed

lemma store_pods_follow_events_witness:
  "\<exists>s' b. run_store [(sample_env (sample_db []), PodAdded (comp_pod ''s1'' ''p'' 0)),
       (sample_env (sample_db []), PodUpdated (comp_pod ''s1'' ''p'' 4)),
       (sample_env (sample_db []), PodDeleted (comp_pod ''s2'' ''p'' 0))] (store_of [cached ''s1'']) = Inr s' \<and>
    GetAppService ''s1'' s' = Some b \<and> GetPodsByName ''p'' b = Some (comp_pod ''s1'' ''p'' 4)"
proof -
  let ?ees = "[(sample_env (sample_db []), PodAdded (comp_pod ''s1'' ''p'' 0)),
       (sample_env (sample_db []), PodUpdated (comp_pod ''s1'' ''p'' 4)),
       (sample_env (sample_db []), PodDeleted (comp_pod ''s2'' ''p'' 0))]"
  obtain s' where run: "run_store ?ees (store_of [cached ''s1'']) = Inr s'"
    by (auto simp: run_store_def store_step_def pod_AddFunc_def pod_UpdateFunc_def pod_DeleteFunc_def
        assert_obj_def pod_component_def ExtractLabels_def Let_def getAppService_def GetAppService_def
        put_app_def emit_def store_sample_defs)
  show ?thesis
    using run store_pods_follow_events [OF store_of_wf(1) run store_of_get, of "''p''"]
    by (auto simp: pods_seen_def List.map_filter_simps)
qed

lemma store_never_panics_witness:
  "\<exists>s'. run_store [(sample_env (sample_db []), Added (KDeployment (sample_deployment 1 1))),
      (sample_env (sample_db []), PodDeleted (comp_pod ''s2'' ''p'' 0))] (store_of [cached ''s1'']) = Inr s'"
  by (rule store_never_panics [OF store_of_wf(1)])
    (simp add: sample_deployment_def, simp add: sample_env_def sample_db_def)

definition busy_pod :: pod where
  "busy_pod = (comp_pod ''s9'' ''p'' 0)\<lparr>p_containers := [\<lparr>c_name = ''c'', c_image = ''i'',
     req_memory = 5, req_cpu = 7, lim_memory = 0, lim_cpu = 0,
     c_readiness = None, c_liveness = None\<rparr>]\<rparr>"

lemma store_resources_exact_witness:
  "\<exists>s. run_store [(sample_env (sample_db []), PodAdded busy_pod)] NewStore = Inr s \<and>
    te_memory_request (GetTenantEnvResource ''ns1'' (resourceCache s)) = 5"
proof -
  let ?ees = "[(sample_env (sample_db []), PodAdded busy_pod)]"
  have "store_wf NewStore"
    by (simp add: store_wf_def NewStore_def NewResourceCache_def cache_wf_def)
  then obtain s where run: "run_store ?ees NewStore = Inr s"
    using store_step_returns [of NewStore "PodAdded busy_pod" "sample_env (sample_db [])"]
    by (auto simp: run_store_def sample_env_def)
  have keys: "ns_keys busy_pod = [''ns1'']" and name: "pod_name busy_pod = ''p''"
    and res: "MemoryRequest (CalculatePodResource busy_pod) = 5"
    by (simp_all add: ns_keys_def busy_pod_def CalculatePodResource_def add_container_def
        no_resource_def store_sample_defs)
  show ?thesis
    using run store_resources_exact [OF run, of "''ns1''"] keys name res
    by (simp add: all_pod_events_def List.map_filter_simps spec_total_def)
qed

definition comp_rs :: "string \<Rightarrow> string \<Rightarrow> replicaset" where
  "comp_rs n revision = \<lparr>rs_meta = zero_meta\<lparr>Name := n, Labels := labels_of ''s1'',
     Annotations := [(''deployment.kubernetes.io/revision'', revision)]\<rparr>,
     rs_replicas = 0, rs_ready = 0, rs_available = 0\<rparr>"

definition rs_store :: runtime_store where
  "rs_store = store_of [(cached ''s1'')\<lparr>replicasets := [comp_rs ''new'' ''2''],
     deployment := Some ((sample_deployment 1 1)\<lparr>d_meta :=
       zero_meta\<lparr>Annotations := [(''deployment.kubernetes.io/revision'', ''2'')]\<rparr>\<rparr>)\<rparr>]"

lemma replicaset_deletion_safe_witness:
  "\<exists>s'. OnAdd (sample_env (sample_db [])) (KReplicaSet (comp_rs ''old'' ''1'')) rs_store = Inr s' \<and>
    effects s' = [KubeDelete ReplicaSetKind [] ''old'']"
proof -
  have wf: "store_wf rs_store"
    by (simp add: rs_store_def store_wf_def store_sample_defs cache_wf_def app_ok_def caches_wf_def)
  have run: "\<exists>s'. OnAdd (sample_env (sample_db [])) (KReplicaSet (comp_rs ''old'' ''1'')) rs_store = Inr s' \<and>
      effects s' \<noteq> effects rs_store"
    by (simp add: OnAdd_def add_replicaset_def owner_labels_def comp_rs_def store_sample_defs Let_def
        getAppService_def GetAppService_def rs_store_def checkReplicasetWhetherDelete_def
        GetCurrentReplicaSet_def SetReplicaSets_def GetReplicaSetVersion_def sample_deployment_def
        go_atoi_def char_digit_def)
  have "effects rs_store = []" by (simp add: rs_store_def store_of_def NewStore_def)
  with run show ?thesis
    using replicaset_deletion_safe [OF wf]
    by (fastforce simp: comp_rs_def zero_meta_def)
qed

lemma deleted_component_purged_witness:
  "OnAdd (sample_env ((sample_db [])\<lparr>tenant_env_services_delete := [sample_row ''s1'' []]\<rparr>))
     (KDeployment ((sample_deployment 1 1)\<lparr>d_meta := zero_meta\<lparr>Name := ''d'', Labels := labels_of ''s1''\<rparr>\<rparr>))
     NewStore = Inr (NewStore\<lparr>effects := [KubeDelete DeploymentKind [] ''d'']\<rparr>)"
proof -
  let ?env = "sample_env ((sample_db [])\<lparr>tenant_env_services_delete := [sample_row ''s1'' []]\<rparr>)"
  let ?m = "zero_meta\<lparr>Name := ''d'', Labels := labels_of ''s1''\<rparr>"
  have del: "component_deleted ?env ''s1''"
    by (simp add: component_deleted_def sample_env_def db_sample_defs GetDeletedServiceByID_def)
  have own: "owner_labels True ?m = Some (''s1'', ''c1'')"
    by (simp add: owner_labels_def labels_of_def)
  show ?thesis
    using deleted_component_purged [OF del own, of "(sample_deployment 1 1)\<lparr>d_meta := ?m\<rparr>" NewStore]
    by (simp add: NewStore_def zero_meta_def)
qed

lemma beta_ingress_never_removed_witness:
  "\<exists>s1 b. OnAdd (sample_env (sample_db [])) (KBetaIngress \<lparr>o_meta = zero_meta\<lparr>Name := ''i'',
        Labels := labels_of ''s1''\<rparr>, o_data = []\<rparr>) (store_of [cached ''s1'']) = Inr s1 \<and>
    GetAppService ''s1'' s1 = Some b \<and> length (betaIngresses b) > 0"
proof -
  let ?i = "\<lparr>o_meta = zero_meta\<lparr>Name := ''i'', Labels := labels_of ''s1''\<rparr>, o_data = []\<rparr>"
  have own: "owner_labels False (o_meta ?i) = Some (''s1'', ''c1'')"
    by (simp add: owner_labels_def labels_of_def)
  have fresh: "obj_name ?i \<notin> obj_name ` set (betaIngresses (cached ''s1''))"
    "obj_name ?i \<notin> obj_name ` set (ingresses (cached ''s1''))"
    by (simp_all add: store_sample_defs)
  show ?thesis
    using beta_ingress_never_removed [OF store_of_wf(1) store_of_get own fresh, of "sample_env (sample_db [])"]
    by fastforce
qed

end
