(* ===== verification/Store_Status.thy ===== *)
theory Store_Status
  imports App_Store
begin

text \<open>
  The queries of the runtime store (\<^verbatim>\<open>src/worker/appm/store/store.go\<close>): the status of one
  component, of many, of an application, and the lists derived from it. A query may refresh a
  cached component from the listers (\<open>UpdateGetAppService\<close>), so it returns the store too.
\<close>

section \<open>Refreshing a component from the listers\<close>

text \<open>A not-found answer deletes the cached object, an answer with an object stores it.\<close>

definition refresh ::
  "'o lister_result \<Rightarrow> (app_service \<Rightarrow> app_service) \<Rightarrow> ('o \<Rightarrow> app_service \<Rightarrow> app_service go) \<Rightarrow>
     app_service \<Rightarrow> app_service go" where
  "refresh res del put a = (case res of
       Listed x \<Rightarrow> put x a
     | ListerNotFound \<Rightarrow> Inr (del a)
     | ListerError \<Rightarrow> Inr a)"

definition refresh_objs ::
  "(string \<Rightarrow> string \<Rightarrow> 'o lister_result) \<Rightarrow> ('o \<Rightarrow> object_meta) \<Rightarrow> ('o \<Rightarrow> app_service \<Rightarrow> app_service) \<Rightarrow>
     ('o \<Rightarrow> app_service \<Rightarrow> app_service) \<Rightarrow> 'o list \<Rightarrow> app_service \<Rightarrow> app_service go" where
  "refresh_objs lister meta del put objs a =
     for_go (\<lambda>a x. refresh (lister (Namespace (meta x)) (Name (meta x))) (del x) (\<lambda>y b. Inr (put y b)) a) a objs"

definition refresh_app :: "store_env \<Rightarrow> app_service \<Rightarrow> app_service go" where
  "refresh_app env a0 =
     (let ls = se_listers env
      in bind_go (case GetStatefulSet a0 of None \<Rightarrow> Inr a0
                  | Some st \<Rightarrow> refresh (ls_statefulset ls (Namespace (s_meta st)) (Name (s_meta st)))
                                 (DeleteStatefulSet st) SetStatefulSet a0) (\<lambda>a1.
         bind_go (case GetDeployment a1 of None \<Rightarrow> Inr a1
                  | Some d \<Rightarrow> refresh (ls_deployment ls (Namespace (d_meta d)) (Name (d_meta d)))
                                 (DeleteDeployment d) SetDeployment a1) (\<lambda>a2.
         bind_go (refresh_objs (ls_service ls) o_meta DeleteServices SetService (GetServices True a2) a2) (\<lambda>a3.
         let (ings, betas) = GetIngress (se_high_version env) True a3
         in bind_go (refresh_objs (ls_ingress ls) o_meta DeleteIngress (\<lambda>i. SetIngress (NetIngress i))
                       (case ings of None \<Rightarrow> [] | Some l \<Rightarrow> l) a3) (\<lambda>a4.
            bind_go (refresh_objs (ls_beta_ingress ls) o_meta DeleteBetaIngress (\<lambda>i. SetIngress (BetaIngress i))
                       (case betas of None \<Rightarrow> [] | Some l \<Rightarrow> l) a4) (\<lambda>a5.
            bind_go (refresh_objs (ls_secret ls) o_meta DeleteSecrets (\<lambda>d. SetSecret (Some d)) (GetSecrets True a5) a5) (\<lambda>a6.
            refresh_objs (ls_pod ls) p_meta DeletePods SetPods (GetPods True a6) a6)))))))"

definition UpdateGetAppService ::
  "store_env \<Rightarrow> string \<Rightarrow> runtime_store \<Rightarrow> (app_service option \<times> runtime_store) go" where
  "UpdateGetAppService env serviceID s = (case map_of (appServices s) serviceID of
       None \<Rightarrow> Inr (None, s)
     | Some a \<Rightarrow> bind_go (refresh_app env a) (\<lambda>b. Inr (Some b, put_app serviceID b s)))"

section \<open>Status queries\<close>

text \<open>The status of a component that is not cached, from the database.\<close>

definition version_status :: "store_env \<Rightarrow> string \<Rightarrow> app_status" where
  "version_status env serviceID = (case GetVersionByServiceID (se_db env) serviceID of
       Inl RecordNotFound \<Rightarrow> UNDEPLOY
     | Inl DBFailure \<Rightarrow> UNDEPLOY
     | Inr versions \<Rightarrow> (if length versions = 0 then UNDEPLOY else CLOSED))"

definition GetAppServiceStatus ::
  "store_env \<Rightarrow> string \<Rightarrow> runtime_store \<Rightarrow> (app_status \<times> runtime_store) go" where
  "GetAppServiceStatus env serviceID s = (case GetAppService serviceID s of
       None \<Rightarrow> (case GetServiceByID (se_db env) serviceID of
           Inl _ \<Rightarrow> Inr (UNKNOW, s)
         | Inr component \<Rightarrow>
             (if sr_Kind component = ServiceKindThirdParty then Inr (CLOSED, s)
              else Inr (version_status env serviceID, s)))
     | Some app \<Rightarrow> bind_go (GetServiceStatus (se_um env) (Some app)) (\<lambda>status.
         if status = UNKNOW
         then bind_go (UpdateGetAppService env serviceID s) (\<lambda>(app', s'). case app' of
                None \<Rightarrow> Inr (version_status env serviceID, s')
              | Some b \<Rightarrow> bind_go (GetServiceStatus (se_um env) (Some b)) (\<lambda>st. Inr (st, s')))
         else Inr (status, s)))"

text \<open>The first loop of \<^verbatim>\<open>GetAppServiceStatuses\<close>: the map, the ids left to query, the store.\<close>

type_synonym status_map = "app_status gomap"

definition cached_status_step ::
  "store_env \<Rightarrow> status_map \<times> string list \<times> runtime_store \<Rightarrow> string \<Rightarrow>
     (status_map \<times> string list \<times> runtime_store) go" where
  "cached_status_step env acc serviceID = (case acc of (statusMap, query, s) \<Rightarrow>
     (case GetAppService serviceID s of
        None \<Rightarrow> Inr (statusMap, query @ [serviceID], s)
      | Some app \<Rightarrow> bind_go (GetServiceStatus (se_um env) (Some app)) (\<lambda>status.
          if status = UNKNOW
          then bind_go (UpdateGetAppService env serviceID s) (\<lambda>(app', s'). case app' of
                 None \<Rightarrow> Inr (statusMap, query @ [serviceID], s')
               | Some b \<Rightarrow> bind_go (GetServiceStatus (se_um env) (Some b)) (\<lambda>st.
                   Inr (AList.update serviceID st statusMap, query, s')))
          else Inr (AList.update serviceID status statusMap, query, s))))"

text \<open>The second loop: the ids that were not cached, from the two batch queries.\<close>

definition db_status_step ::
  "service_row gomap \<Rightarrow> version_row gomap \<Rightarrow> status_map \<Rightarrow> string \<Rightarrow> status_map" where
  "db_status_step existComponents existVersions statusMap componentID =
     AList.update componentID
       (case map_of existComponents componentID of
          None \<Rightarrow> UNKNOW
        | Some c \<Rightarrow> (if sr_Kind c = ServiceKindThirdParty then CLOSED
                     else if map_of existVersions componentID = None then UNDEPLOY
                     else CLOSED)) statusMap"

definition rows_of :: "db_error + 'r list \<Rightarrow> 'r list" where
  "rows_of q = (case q of Inl _ \<Rightarrow> [] | Inr rows \<Rightarrow> rows)"

definition GetAppServiceStatuses ::
  "store_env \<Rightarrow> string list \<Rightarrow> runtime_store \<Rightarrow> (status_map \<times> runtime_store) go" where
  "GetAppServiceStatuses env serviceIDs s =
     bind_go (for_go (cached_status_step env) ([], [], s) serviceIDs) (\<lambda>(statusMap, query, s').
       let components = rows_of (GetServiceByIDs (se_db env) query);
           versions = rows_of (ListVersionsByComponentIDs (se_db env) query);
           existComponents = foldl (\<lambda>m c. AList.update (sr_ServiceID c) c m) [] components;
           existVersions = foldl (\<lambda>m v. AList.update (vr_ServiceID v) v m) [] versions
       in Inr (foldl (db_status_step existComponents existVersions) statusMap query, s'))"

definition all_status_step ::
  "store_env \<Rightarrow> (app_status \<Rightarrow> bool) \<Rightarrow> status_map \<times> runtime_store \<Rightarrow> string \<Rightarrow>
     (status_map \<times> runtime_store) go" where
  "all_status_step env keep acc serviceID = (case acc of (statusMap, s) \<Rightarrow>
     bind_go (GetAppServiceStatus env serviceID s) (\<lambda>(st, s').
       Inr (if keep st then AList.update serviceID st statusMap else statusMap, s')))"

definition GetAppServicesStatus ::
  "store_env \<Rightarrow> string list \<Rightarrow> runtime_store \<Rightarrow> (status_map \<times> runtime_store) go" where
  "GetAppServicesStatus env serviceIDs s =
     (if length serviceIDs = 0
      then for_go (all_status_step env (\<lambda>_. True)) ([], s) (map ServiceID (GetAllAppServices s))
      else GetAppServiceStatuses env serviceIDs s)"

definition isClosedStatus :: "app_status \<Rightarrow> bool" where
  "isClosedStatus curStatus \<longleftrightarrow> curStatus = BUILDEFAILURE \<or> curStatus = CLOSED \<or> curStatus = UNDEPLOY \<or>
     curStatus = BUILDING \<or> curStatus = UNKNOW"

definition GetNeedBillingStatus ::
  "store_env \<Rightarrow> string list \<Rightarrow> runtime_store \<Rightarrow> (status_map \<times> runtime_store) go" where
  "GetNeedBillingStatus env serviceIDs s =
     (if length serviceIDs = 0
      then for_go (all_status_step env (\<lambda>st. \<not> isClosedStatus st)) ([], s) (map ServiceID (GetAllAppServices s))
      else for_go (all_status_step env (\<lambda>st. \<not> isClosedStatus st)) ([], s) serviceIDs)"

definition GetTenantEnvRunningApp :: "string \<Rightarrow> runtime_store \<Rightarrow> app_service list go" where
  "GetTenantEnvRunningApp tenantEnvID s =
     for_go (\<lambda>list app.
       if TenantEnvID app = tenantEnvID \<or> tenantEnvID = []
       then Inr (if \<not> IsClosed app then list @ [app] else list)
       else bind_go (GetNamespace app) (\<lambda>ns.
         Inr (if ns = tenantEnvID \<and> \<not> IsClosed app then list @ [app] else list)))
       [] (GetAllAppServices s)"

section \<open>The status of an application\<close>

datatype application_status =
  AppStatus_NIL | AppStatus_RUNNING | AppStatus_CLOSED | AppStatus_ABNORMAL | AppStatus_STARTING
| AppStatus_STOPPING

definition appNil :: "app_status list \<Rightarrow> bool" where
  "appNil statuses \<longleftrightarrow> \<not> (\<exists>st \<in> set statuses. st \<noteq> UNDEPLOY)"

definition appClosed :: "app_status list \<Rightarrow> bool" where
  "appClosed statuses \<longleftrightarrow> \<not> (\<exists>st \<in> set statuses. st \<noteq> CLOSED)"

definition appAbnormal :: "app_status list \<Rightarrow> bool" where
  "appAbnormal statuses \<longleftrightarrow> (\<exists>st \<in> set statuses. st = ABNORMAL \<or> st = SOMEABNORMAL)"

definition appStarting :: "app_status list \<Rightarrow> bool" where
  "appStarting statuses \<longleftrightarrow> (\<exists>st \<in> set statuses. st = STARTING)"

fun stopping_loop :: "bool \<Rightarrow> app_status list \<Rightarrow> bool" where
  "stopping_loop stopping [] = stopping"
| "stopping_loop stopping (st # sts) =
     (if st = STOPPING then stopping_loop True sts
      else if st = CLOSED then stopping_loop stopping sts
      else False)"

definition appStopping :: "app_status list \<Rightarrow> bool" where
  "appStopping statuses = stopping_loop False statuses"

definition getAppStatus :: "status_map \<Rightarrow> application_status" where
  "getAppStatus componentStatuses =
     (let statuses = filter (\<lambda>st. st \<noteq> UNDEPLOY) (map snd componentStatuses)
      in if length statuses = 0 \<or> appNil statuses then AppStatus_NIL
         else if appClosed statuses then AppStatus_CLOSED
         else if appAbnormal statuses then AppStatus_ABNORMAL
         else if appStarting statuses then AppStatus_STARTING
         else if appStopping statuses then AppStatus_STOPPING
         else AppStatus_RUNNING)"

definition GetAppStatus ::
  "store_env \<Rightarrow> string \<Rightarrow> runtime_store \<Rightarrow> (application_status \<times> db_error option \<times> runtime_store) go" where
  "GetAppStatus env appID s = (case ListByAppID (se_db env) appID of
       Inl e \<Rightarrow> Inr (AppStatus_NIL, Some e, s)
     | Inr svcs \<Rightarrow>
         (if length svcs = 0 then Inr (AppStatus_NIL, None, s)
          else bind_go (GetAppServicesStatus env (map sr_ServiceID svcs) s) (\<lambda>(m, s').
            Inr (getAppStatus m, None, s'))))"

section \<open>One component\<close>

text \<open>The specification of a status query: a function of the store and the environment.\<close>

definition status_of :: "store_env \<Rightarrow> runtime_store \<Rightarrow> string \<Rightarrow> app_status" where
  "status_of env s sid = (case GetAppService sid s of
       Some app \<Rightarrow> projr (GetServiceStatus (se_um env) (Some app))
     | None \<Rightarrow> (case GetServiceByID (se_db env) sid of
         Inl _ \<Rightarrow> UNKNOW
       | Inr c \<Rightarrow> (if sr_Kind c = ServiceKindThirdParty then CLOSED else version_status env sid)))"

lemma status_known:
  obtains st where "GetServiceStatus um (Some a) = Inr st" and "st \<noteq> UNKNOW"
proof -
  have "third_status t \<noteq> UNKNOW" for t using third_status_range [of t] by auto
  then have "\<exists>st. GetServiceStatus um (Some a) = Inr st \<and> st \<noteq> UNKNOW"
    by (cases "IsCustomComponent a")
      (simp_all add: GetServiceStatus_custom GetServiceStatus_internal failing_status_def
        split: option.split)
  then show ?thesis using that by blast
qed

lemma GetAppServiceStatus_eq: "GetAppServiceStatus env sid s = Inr (status_of env s sid, s)"
proof (cases "GetAppService sid s")
  case None
  then show ?thesis by (simp add: GetAppServiceStatus_def status_of_def split: sum.split)
next
  case (Some a)
  obtain st where "GetServiceStatus (se_um env) (Some a) = Inr st" "st \<noteq> UNKNOW"
    by (rule status_known)
  with Some show ?thesis by (simp add: GetAppServiceStatus_def status_of_def)
qed

text \<open>
  Asking for the status of a component always returns and never changes the store: a cached
  component has a definite status computed from its cached objects (so the refresh from the
  listers is never reached), one that is not cached is closed when it has a successful build or is
  third-party, undeployed otherwise, and unknown only when the database does not know it.
\<close>

theorem status_query_determinate:
  "\<exists>st. GetAppServiceStatus env sid s = Inr (st, s) \<and>
    (case GetAppService sid s of
       Some a \<Rightarrow> GetServiceStatus (se_um env) (Some a) = Inr st \<and> st \<noteq> UNKNOW
     | None \<Rightarrow> st \<in> {UNKNOW, CLOSED, UNDEPLOY} \<and>
         (st = UNKNOW \<longleftrightarrow> (\<exists>e. GetServiceByID (se_db env) sid = Inl e)))"
proof (cases "GetAppService sid s")
  case None
  then show ?thesis
    by (auto simp: GetAppServiceStatus_eq status_of_def version_status_def split: sum.split db_error.split)
next
  case (Some a)
  obtain st where "GetServiceStatus (se_um env) (Some a) = Inr st" "st \<noteq> UNKNOW"
    by (rule status_known)
  with Some show ?thesis by (simp add: GetAppServiceStatus_eq status_of_def)
qed

section \<open>Many components\<close>

lemma cached_status_step_eq:
  "cached_status_step env (m, q, s) sid = Inr (case GetAppService sid s of
       None \<Rightarrow> (m, q @ [sid], s)
     | Some a \<Rightarrow> (AList.update sid (status_of env s sid) m, q, s))"
proof (cases "GetAppService sid s")
  case None
  then show ?thesis by (simp add: cached_status_step_def)
next
  case (Some a)
  obtain st where "GetServiceStatus (se_um env) (Some a) = Inr st" "st \<noteq> UNKNOW"
    by (rule status_known)
  with Some show ?thesis by (simp add: cached_status_step_def status_of_def)
qed

text \<open>The first loop splits the ids: cached ones get their status, the others are queued.\<close>

lemma cached_loop:
  "\<exists>m' q'. for_go (cached_status_step env) (m, q, s) ids = Inr (m', q', s) \<and>
     set q' = set q \<union> {sid \<in> set ids. GetAppService sid s = None} \<and>
     (\<forall>k. map_of m' k = (if k \<in> set ids \<and> GetAppService k s \<noteq> None
        then Some (status_of env s k) else map_of m k))"
proof (induction ids arbitrary: m q)
  case (Cons sid ids)
  show ?case
  proof (cases "GetAppService sid s")
    case None
    then show ?thesis
      using Cons.IH [of m "q @ [sid]"] by (auto simp: cached_status_step_eq)
  next
    case (Some a)
    then show ?thesis
      using Cons.IH [of "AList.update sid (status_of env s sid) m" q]
      by (auto simp: cached_status_step_eq map_of_update)
  qed
qed simp

lemma foldl_update_last:
  "map_of (foldl (\<lambda>m x. AList.update (key x) x m) m xs) k =
     (case find (\<lambda>x. key x = k) (rev xs) of Some x \<Rightarrow> Some x | None \<Rightarrow> map_of m k)"
proof (induction xs rule: rev_induct)
  case (snoc x xs)
  then show ?case by (simp add: map_of_update)
qed simp

lemma find_filter: "(\<And>x. P x \<Longrightarrow> Q x) \<Longrightarrow> find P (filter Q xs) = find P xs"
  by (induction xs) auto

lemma db_loop:
  "map_of (foldl (db_status_step ec ev) m q) k =
     (if k \<in> set q then Some (case map_of ec k of None \<Rightarrow> UNKNOW
        | Some c \<Rightarrow> (if sr_Kind c = ServiceKindThirdParty then CLOSED
                     else if map_of ev k = None then UNDEPLOY else CLOSED))
      else map_of m k)"
  by (induction q arbitrary: m) (auto simp: db_status_step_def map_of_update)

text \<open>The two batch queries agree with the single ones when they fail together.\<close>

lemma batch_components:
  assumes "query_fails db QServicesByIDs = query_fails db QServiceByID" and "k \<in> set q"
  shows "map_of (foldl (\<lambda>m c. AList.update (sr_ServiceID c) c m) [] (rows_of (GetServiceByIDs db q))) k =
    (case GetServiceByID db k of Inl _ \<Rightarrow> None | Inr c \<Rightarrow> Some c)"
proof -
  have "find (\<lambda>c. sr_ServiceID c = k)
      (rev (filter (\<lambda>r. sr_ServiceID r \<in> set q) (tenant_env_services db))) =
    find (\<lambda>c. sr_ServiceID c = k) (rev (tenant_env_services db))"
    unfolding rev_filter by (rule find_filter) (use assms(2) in auto)
  then show ?thesis
    using assms(1) unfolding foldl_update_last
    by (simp add: GetServiceByIDs_def GetServiceByID_def one_row_def find_row_def rows_of_def
        split: option.split)
qed

lemma batch_versions:
  assumes "query_fails db QVersionsByIDs = query_fails db QVersions" and "k \<in> set q"
  shows "map_of (foldl (\<lambda>m v. AList.update (vr_ServiceID v) v m) []
      (rows_of (ListVersionsByComponentIDs db q))) k = None \<longleftrightarrow>
    (case GetVersionByServiceID db k of Inl _ \<Rightarrow> True | Inr vs \<Rightarrow> vs = [])"
proof -
  let ?found = "find (\<lambda>v. vr_ServiceID v = k) (rev (filter
      (\<lambda>r. vr_ServiceID r \<in> set q \<and> vr_FinalStatus r = ''success'') (version_infos db)))"
  have "?found = None \<longleftrightarrow>
      filter (\<lambda>r. vr_ServiceID r = k \<and> vr_FinalStatus r = ''success'') (version_infos db) = []"
    using assms(2) by (auto simp: find_None_iff filter_empty_conv)
  then show ?thesis
    using assms(1) unfolding foldl_update_last
    by (cases ?found)
      (simp_all add: ListVersionsByComponentIDs_def GetVersionByServiceID_def rows_of_def)
qed

text \<open>
  The batch query agrees with the single one: for every list of ids it returns a status for
  exactly those ids, each the one \<^verbatim>\<open>GetAppServiceStatus\<close> gives, and leaves the store as it is;
  the only condition is that the batch and the single database queries fail together.
\<close>

theorem batch_status_agrees:
  assumes "query_fails (se_db env) QServicesByIDs = query_fails (se_db env) QServiceByID"
    and "query_fails (se_db env) QVersionsByIDs = query_fails (se_db env) QVersions"
  shows "\<exists>m. GetAppServiceStatuses env ids s = Inr (m, s) \<and>
    (\<forall>sid. if sid \<in> set ids
       then \<exists>st. map_of m sid = Some st \<and> GetAppServiceStatus env sid s = Inr (st, s)
       else map_of m sid = None)"
proof -
  obtain m q where loop: "for_go (cached_status_step env) ([], [], s) ids = Inr (m, q, s)"
    and q: "set q = {sid \<in> set ids. GetAppService sid s = None}"
    and m: "\<And>k. map_of m k = (if k \<in> set ids \<and> GetAppService k s \<noteq> None
        then Some (status_of env s k) else None)"
    using cached_loop [of env "[]" "[]" s ids] by auto
  let ?db = "se_db env"
  let ?ec = "foldl (\<lambda>m c. AList.update (sr_ServiceID c) c m) [] (rows_of (GetServiceByIDs ?db q))"
  let ?ev = "foldl (\<lambda>m v. AList.update (vr_ServiceID v) v m) [] (rows_of (ListVersionsByComponentIDs ?db q))"
  let ?m = "foldl (db_status_step ?ec ?ev) m q"
  have run: "GetAppServiceStatuses env ids s = Inr (?m, s)"
    by (simp add: GetAppServiceStatuses_def loop Let_def)
  have queried: "map_of ?m k = Some (status_of env s k)" if "k \<in> set q" for k
    using that q batch_components [OF assms(1) that] batch_versions [OF assms(2) that]
    by (auto simp: db_loop status_of_def version_status_def split: sum.split option.split db_error.split)
  have "map_of ?m k = map_of m k" if "k \<notin> set q" for k
    using that by (simp add: db_loop)
  then have "map_of ?m k = (if k \<in> set ids then Some (status_of env s k) else None)" for k
    using queried [of k] q m [of k] by (cases "k \<in> set q") auto
  then show ?thesis
    using run by (simp add: GetAppServiceStatus_eq)
qed

section \<open>Billing and running components\<close>

lemma all_status_loop:
  "\<exists>m'. for_go (all_status_step env keep) (m, s) ids = Inr (m', s) \<and>
     (\<forall>k. map_of m' k = (if k \<in> set ids \<and> keep (status_of env s k)
        then Some (status_of env s k) else map_of m k))"
proof (induction ids arbitrary: m)
  case (Cons sid ids)
  show ?case
    using Cons.IH [of "if keep (status_of env s sid)
        then AList.update sid (status_of env s sid) m else m"]
    by (auto simp: all_status_step_def GetAppServiceStatus_eq map_of_update)
qed simp

text \<open>
  The components to be billed are exactly those asked for (all cached ones when none is named)
  whose status is not closed, undeployed, unknown or a build status, each with that status.
\<close>

theorem billing_exact:
  assumes "store_wf s"
  shows "\<exists>m. GetNeedBillingStatus env ids s = Inr (m, s) \<and>
    (\<forall>sid st. map_of m sid = Some st \<longleftrightarrow>
       (if ids = [] then GetAppService sid s \<noteq> None else sid \<in> set ids) \<and>
       GetAppServiceStatus env sid s = Inr (st, s) \<and>
       st \<notin> {CLOSED, UNDEPLOY, UNKNOW, BUILDING, BUILDEFAILURE})"
proof -
  have ids: "map ServiceID (GetAllAppServices s) = map fst (appServices s)"
  proof -
    have "ServiceID a = k" if "(k, a) \<in> set (appServices s)" for k a
      using that assms by (auto simp: store_wf_def)
    then show ?thesis by (auto simp: GetAllAppServices_def)
  qed
  have cached: "sid \<in> set (map fst (appServices s)) \<longleftrightarrow> GetAppService sid s \<noteq> None" for sid
    by (simp add: GetAppService_def map_of_eq_None_iff)
  obtain m where m: "GetNeedBillingStatus env ids s = Inr (m, s)"
    "\<And>k. map_of m k = (if (if ids = [] then GetAppService k s \<noteq> None else k \<in> set ids) \<and>
        \<not> isClosedStatus (status_of env s k) then Some (status_of env s k) else None)"
    using all_status_loop [of env "\<lambda>st. \<not> isClosedStatus st" "[]" s "map fst (appServices s)"]
      all_status_loop [of env "\<lambda>st. \<not> isClosedStatus st" "[]" s ids] cached ids
    by (cases "ids = []") (auto simp: GetNeedBillingStatus_def)
  then show ?thesis
    by (auto simp: GetAppServiceStatus_eq isClosedStatus_def)
qed

text \<open>
  The running components of a tenant environment are the cached components that belong to it by
  id or by namespace (all of them for the empty id) and are not closed, in the order of the cache;
  the query does not panic.
\<close>

theorem running_apps_exact:
  assumes "store_wf s"
  shows "GetTenantEnvRunningApp env_id s = Inr (filter (\<lambda>a. \<not> IsClosed a \<and>
     (TenantEnvID a = env_id \<or> env_id = [] \<or> GetNamespace a = Inr env_id)) (GetAllAppServices s))"
proof -
  let ?step = "\<lambda>list app.
       if TenantEnvID app = env_id \<or> env_id = []
       then Inr (if \<not> IsClosed app then list @ [app] else list)
       else bind_go (GetNamespace app) (\<lambda>ns.
         Inr (if ns = env_id \<and> \<not> IsClosed app then list @ [app] else list))"
  have loop: "for_go ?step acc as = Inr (acc @ filter (\<lambda>a. \<not> IsClosed a \<and>
      (TenantEnvID a = env_id \<or> env_id = [] \<or> GetNamespace a = Inr env_id)) as)"
    if "\<forall>a \<in> set as. tenantEnv a \<noteq> None" for acc as
    using that by (induction as arbitrary: acc) (auto simp: GetNamespace_def)
  have "\<forall>a \<in> set (GetAllAppServices s). tenantEnv a \<noteq> None"
    using assms by (auto simp: store_wf_def GetAllAppServices_def app_ok_def)
  then show ?thesis
    unfolding GetTenantEnvRunningApp_def using loop [of _ "[]"] by simp
qed

section \<open>Applications\<close>

lemma stopping_loop_iff:
  "stopping_loop b sts \<longleftrightarrow> set sts \<subseteq> {STOPPING, CLOSED} \<and> (b \<or> STOPPING \<in> set sts)"
  by (induction b sts rule: stopping_loop.induct) auto

lemmas app_status_preds = appNil_def appClosed_def appAbnormal_def appStarting_def appStopping_def
  stopping_loop_iff

definition deployed :: "status_map \<Rightarrow> app_status set" where
  "deployed m = snd ` set m - {UNDEPLOY}"

text \<open>
  The status of an application depends only on which statuses its deployed components have: nil
  when nothing is deployed, closed when all are closed, abnormal when one is (partly) abnormal,
  starting when one is starting and none abnormal, stopping when all others are closed and one is
  stopping, running otherwise. In particular one component of unknown status makes an otherwise
  closed application running.
\<close>

theorem app_status_decides:
  "getAppStatus m =
     (if deployed m = {} then AppStatus_NIL
      else if deployed m = {CLOSED} then AppStatus_CLOSED
      else if deployed m \<inter> {ABNORMAL, SOMEABNORMAL} \<noteq> {} then AppStatus_ABNORMAL
      else if STARTING \<in> deployed m then AppStatus_STARTING
      else if deployed m \<in> {{STOPPING}, {STOPPING, CLOSED}} then AppStatus_STOPPING
      else AppStatus_RUNNING)"
proof -
  let ?st = "filter (\<lambda>st. st \<noteq> UNDEPLOY) (map snd m)"
  have set: "set ?st = deployed m" by (auto simp: deployed_def)
  have undep: "UNDEPLOY \<notin> deployed m" by (simp add: deployed_def)
  have nil: "length ?st = 0 \<or> appNil ?st \<longleftrightarrow> deployed m = {}"
    using undep unfolding appNil_def set by (metis (no_types, lifting) all_not_in_conv length_0_conv set set_empty)
  have closed: "deployed m \<noteq> {} \<Longrightarrow> appClosed ?st \<longleftrightarrow> deployed m = {CLOSED}"
    unfolding appClosed_def set by auto
  have stopping: "appStopping ?st \<longleftrightarrow> deployed m \<in> {{STOPPING}, {STOPPING, CLOSED}}"
    unfolding appStopping_def stopping_loop_iff set by auto
  have abnormal: "appAbnormal ?st \<longleftrightarrow> deployed m \<inter> {ABNORMAL, SOMEABNORMAL} \<noteq> {}"
    unfolding appAbnormal_def set by auto
  have starting: "appStarting ?st \<longleftrightarrow> STARTING \<in> deployed m"
    unfolding appStarting_def set by auto
  show ?thesis
  proof (cases "deployed m = {}")
    case True
    then show ?thesis unfolding getAppStatus_def Let_def nil by simp
  next
    case False
    show ?thesis
      unfolding getAppStatus_def Let_def nil abnormal starting stopping closed [OF False] ..
  qed
qed

section \<open>Witnesses\<close>

lemma sample_status:
  "GetAppServiceStatus (sample_env (sample_db [sample_row ''s1'' ServiceKindInternal])) ''s1'' NewStore =
     Inr (CLOSED, NewStore)"
  "GetAppServiceStatus (sample_env (sample_db [sample_row ''s1'' ServiceKindInternal])) ''s2'' NewStore =
     Inr (UNKNOW, NewStore)"
  by (simp_all add: GetAppServiceStatus_def GetAppService_def NewStore_def sample_env_def db_sample_defs
      version_status_def GetVersionByServiceID_def ServiceKindInternal_def ServiceKindThirdParty_def)

lemma batch_status_agrees_witness:
  "\<exists>m. GetAppServiceStatuses (sample_env (sample_db [sample_row ''s1'' ServiceKindInternal]))
      [''s1'', ''s2''] NewStore = Inr (m, NewStore) \<and>
    map_of m ''s1'' = Some CLOSED \<and> map_of m ''s2'' = Some UNKNOW"
proof -
  let ?env = "sample_env (sample_db [sample_row ''s1'' ServiceKindInternal])"
  have fails: "query_fails (se_db ?env) q = False" for q
    by (simp add: sample_env_def sample_db_def)
  show ?thesis
    using batch_status_agrees [of ?env "[''s1'', ''s2'']" NewStore] fails sample_status
    by (metis list.set_intros(1,2) prod.inject sum.inject(2))
qed

lemma running_sample: "\<not> IsClosed ((sample_app 1 1 [])\<lparr>ServiceID := ''s1'', tenantEnv := t\<rparr>)"
  by (simp add: IsClosed_def IsCustomComponent_def IsThirdComponent_def sample_app_def
      sample_deployment_def zero_app_def IsEmpty_def ServiceKindInternal_def ServiceKindCustom_def
      ServiceKindThirdParty_def)

definition running_store :: runtime_store where
  "running_store = store_of [(sample_app 1 1 [])\<lparr>ServiceID := ''s1'', tenantEnv := Some (sample_obj ''ns1'' [])\<rparr>]"

lemma running_store_wf: "store_wf running_store"
  by (simp add: running_store_def store_wf_def store_sample_defs cache_wf_def app_ok_def caches_wf_def
      sample_app_def)

lemma running_apps_exact_witness:
  "\<exists>a. GetTenantEnvRunningApp ''ns1'' running_store = Inr [a] \<and> ServiceID a = ''s1''"
  using running_apps_exact [OF running_store_wf, of "''ns1''"] running_sample
  by (simp add: running_store_def store_of_def GetAllAppServices_def NewStore_def GetNamespace_def
      sample_obj_def)

lemma billing_exact_witness:
  "\<exists>m. GetNeedBillingStatus (sample_env (sample_db [])) [] running_store = Inr (m, running_store) \<and>
     map_of m ''s1'' = Some STARTING"
proof -
  let ?a = "(sample_app 1 1 [])\<lparr>ServiceID := ''s1'', tenantEnv := Some (sample_obj ''ns1'' [])\<rparr>"
  have get: "GetAppService ''s1'' running_store = Some ?a"
    by (simp add: running_store_def store_of_def GetAppService_def NewStore_def)
  have "\<not> IsCustomComponent ?a"
    by (simp add: IsCustomComponent_def sample_app_def ServiceKindInternal_def ServiceKindCustom_def
        ServiceKindThirdParty_def)
  then have "GetServiceStatus (\<lambda>_. None) (Some ?a) = Inr STARTING"
    using running_sample [of "Some (sample_obj ''ns1'' [])"]
    by (simp add: GetServiceStatus_internal) (simp add: sample_app_def)
  then have "GetAppServiceStatus (sample_env (sample_db [])) ''s1'' running_store = Inr (STARTING, running_store)"
    using get by (simp add: GetAppServiceStatus_def sample_env_def)
  then show ?thesis
    using billing_exact [OF running_store_wf, of "sample_env (sample_db [])" "[]"] get by auto
qed

end
