(* ===== verification/Gateway_Annotations.thy ===== *)
theory Gateway_Annotations
  imports Kube_Objects
begin

text \<open>
  The annotations of an ingress and the configuration the gateway derives from them
  (\<^verbatim>\<open>src/gateway/annotations\<close>): the typed access to annotations, the parsers for header and
  cookie conditions, weights, layer-4 forwarding, rewrites and proxy settings, and the validation
  of proxy settings. The defaults come from \<^verbatim>\<open>src/gateway/controller/config\<close>.

  Whether a header name or value is well-formed is decided by a library; the two predicates are
  parameters of \<open>Validation\<close>.
\<close>

section \<open>Access to annotations\<close>

datatype ann_error =
  ErrMissingAnnotations
| ErrInvalidAnnotationName
| InvalidContent string string
| AnnError string

definition AnnotationsPrefix :: string where
  "AnnotationsPrefix = ''nginx.ingress.kubernetes.io''"

definition GetAnnotationWithPrefix :: "string \<Rightarrow> string" where
  "GetAnnotationWithPrefix name = AnnotationsPrefix @ ''/'' @ name"

definition checkAnnotation :: "string \<Rightarrow> object_meta \<Rightarrow> ann_error option" where
  "checkAnnotation name meta =
     (if length (Annotations meta) = 0 then Some ErrMissingAnnotations
      else if name = [] then Some ErrInvalidAnnotationName
      else None)"

definition parseBool :: "string gomap \<Rightarrow> string \<Rightarrow> ann_error + bool" where
  "parseBool a name = (case map_of a name of
       Some val \<Rightarrow> (case go_parse_bool val of None \<Rightarrow> Inl (InvalidContent name val) | Some b \<Rightarrow> Inr b)
     | None \<Rightarrow> Inl ErrMissingAnnotations)"

definition parseString :: "string gomap \<Rightarrow> string \<Rightarrow> ann_error + string" where
  "parseString a name = (case map_of a name of
       Some val \<Rightarrow> Inr val
     | None \<Rightarrow> Inl ErrMissingAnnotations)"

definition parseInt :: "string gomap \<Rightarrow> string \<Rightarrow> ann_error + int" where
  "parseInt a name = (case map_of a name of
       Some val \<Rightarrow> (case go_atoi val of (i, None) \<Rightarrow> Inr i | (_, Some _) \<Rightarrow> Inl (InvalidContent name val))
     | None \<Rightarrow> Inl ErrMissingAnnotations)"

definition GetBoolAnnotation :: "string \<Rightarrow> object_meta \<Rightarrow> ann_error + bool" where
  "GetBoolAnnotation name meta =
     (let v = GetAnnotationWithPrefix name
      in case checkAnnotation v meta of Some e \<Rightarrow> Inl e | None \<Rightarrow> parseBool (Annotations meta) v)"

definition GetStringAnnotation :: "string \<Rightarrow> object_meta \<Rightarrow> ann_error + string" where
  "GetStringAnnotation name meta =
     (let v = GetAnnotationWithPrefix name
      in case checkAnnotation v meta of Some e \<Rightarrow> Inl e | None \<Rightarrow> parseString (Annotations meta) v)"

definition GetIntAnnotation :: "string \<Rightarrow> object_meta \<Rightarrow> ann_error + int" where
  "GetIntAnnotation name meta =
     (let v = GetAnnotationWithPrefix name
      in case checkAnnotation v meta of Some e \<Rightarrow> Inl e | None \<Rightarrow> parseInt (Annotations meta) v)"

definition GetStringAnnotationWithPrefix :: "string \<Rightarrow> object_meta \<Rightarrow> ann_error + string gomap" where
  "GetStringAnnotationWithPrefix pre meta =
     (let v = GetAnnotationWithPrefix pre
      in case checkAnnotation v meta of Some e \<Rightarrow> Inl e
         | None \<Rightarrow> Inr (foldl (\<lambda>res (key, val).
             if \<not> prefix v key then res
             else let k = replace_first v [] key
                  in if k \<noteq> [] then AList.update k val res else res) [] (Annotations meta)))"

text \<open>The value of a call, replaced by another one (the zero value, a default) on an error.\<close>

definition or_else :: "'a \<Rightarrow> ann_error + 'a \<Rightarrow> 'a" where
  "or_else z r = (case r of Inl _ \<Rightarrow> z | Inr v \<Rightarrow> v)"

section \<open>Header and cookie conditions\<close>

text \<open>
  \<^verbatim>\<open>transform\<close>, which the header and the cookie package both define; a nil map is \<open>None\<close>.
\<close>

definition transform_step :: "string gomap \<Rightarrow> string \<Rightarrow> string gomap" where
  "transform_step result item =
     (let split = split_byte (CHR ''='') item
      in if length split < 2 \<or> split ! 0 = [] \<or> split ! 1 = [] then result
         else AList.update (split ! 0) (split ! 1) result)"

definition transform :: "string \<Rightarrow> string gomap option" where
  "transform target0 =
     (let target = replace_byte (CHR '' '') [] target0;
          result = foldl transform_step [] (split_byte (CHR '';'') target)
      in if length result = 0 then None else Some result)"

definition header_Parse :: "object_meta \<Rightarrow> ann_error + string gomap option" where
  "header_Parse meta = (case GetStringAnnotation ''header'' meta of
       Inl e \<Rightarrow> Inl e | Inr hr \<Rightarrow> Inr (transform hr))"

definition cookie_Parse :: "object_meta \<Rightarrow> ann_error + string gomap option" where
  "cookie_Parse meta = (case GetStringAnnotation ''cookie'' meta of
       Inl e \<Rightarrow> Inl e | Inr co \<Rightarrow> Inr (transform co))"

section \<open>Weight, load balancing, layer 4\<close>

definition weight_Parse :: "object_meta \<Rightarrow> int" where
  "weight_Parse meta = (case GetStringAnnotation ''weight'' meta of
       Inl _ \<Rightarrow> 1
     | Inr wstr \<Rightarrow> (if wstr = [] then 1
                    else case go_atoi wstr of (w, None) \<Rightarrow> w | (_, Some _) \<Rightarrow> 1))"

definition lbtype_Parse :: "object_meta \<Rightarrow> ann_error + string" where
  "lbtype_Parse meta = GetStringAnnotation ''lb-type'' meta"

definition upstreamhashby_Parse :: "object_meta \<Rightarrow> ann_error + string" where
  "upstreamhashby_Parse meta = GetStringAnnotation ''upstream-hash-by'' meta"

record l4_config =
  L4Enable :: bool
  L4Host :: string
  L4Port :: int
  KeepaliveEnabled :: bool
  KeepaliveIdle :: string
  KeepaliveIntvl :: string
  KeepaliveCnt :: string
  l4_ProxyStreamTimeout :: string
  l4_ProxyStreamNextUpstreamTimeout :: string

definition l4_Parse :: "object_meta \<Rightarrow> ann_error + l4_config" where
  "l4_Parse meta =
     (let l4Enable = or_else False (GetBoolAnnotation ''l4-enable'' meta);
          host = or_else [] (GetStringAnnotation ''l4-host'' meta);
          l4Host = (if host = [] then ''0.0.0.0'' else host);
          l4Port = or_else 0 (GetIntAnnotation ''l4-port'' meta)
      in if l4Enable \<and> (l4Port \<le> 0 \<or> 65535 < l4Port) then Inl (AnnError ''error l4Port'')
         else let pst = or_else [] (GetStringAnnotation ''proxy-stream-timeout'' meta);
                  psnut = or_else [] (GetStringAnnotation ''proxy-stream-next-upstream-timeout'' meta)
           in Inr \<lparr>L4Enable = l4Enable, L4Host = l4Host, L4Port = l4Port,
                KeepaliveEnabled = or_else False (GetBoolAnnotation ''keepalive-enabled'' meta),
                KeepaliveIdle = or_else [] (GetStringAnnotation ''keepalive-idle'' meta),
                KeepaliveIntvl = or_else [] (GetStringAnnotation ''keepalive-intvl'' meta),
                KeepaliveCnt = or_else [] (GetStringAnnotation ''keepalive-cnt'' meta),
                l4_ProxyStreamTimeout = (if pst = [] then ''600s'' else pst),
                l4_ProxyStreamNextUpstreamTimeout = (if psnut = [] then ''600s'' else psnut)\<rparr>)"

section \<open>Defaults\<close>

record backend =
  ProxyBodySize :: int
  ProxyConnectTimeout :: int
  ProxyReadTimeout :: int
  ProxySendTimeout :: int
  ProxyBuffersNumber :: int
  ProxyBufferSize :: string
  ProxyCookieDomain :: string
  ProxyCookiePath :: string
  ProxyNextUpstream :: string
  ProxyNextUpstreamTries :: int
  ProxyNextUpstreamTimeout :: int
  ProxyRequestBuffering :: string
  ProxyRedirectFrom :: string
  ProxyRedirectTo :: string
  be_SSLRedirect :: bool
  be_ForceSSLRedirect :: bool
  be_ProxyBuffering :: string
  be_AccessLog :: string
  ProxySetHeaders :: "string gomap"

definition NewDefault :: backend where
  "NewDefault = \<lparr>ProxyBodySize = 0, ProxyConnectTimeout = 5, ProxyReadTimeout = 60,
     ProxySendTimeout = 60, ProxyBuffersNumber = 4, ProxyBufferSize = ''4k'',
     ProxyCookieDomain = ''off'', ProxyCookiePath = ''off'', ProxyNextUpstream = ''error timeout'',
     ProxyNextUpstreamTries = 3, ProxyNextUpstreamTimeout = 0, ProxyRequestBuffering = ''on'',
     ProxyRedirectFrom = ''off'', ProxyRedirectTo = ''off'', be_SSLRedirect = True,
     be_ForceSSLRedirect = False, be_ProxyBuffering = ''off'', be_AccessLog = ''off'',
     ProxySetHeaders =
       [(''Host'', ''$host''), (''X-Real-IP'', ''$remote_addr''),
        (''X-Forwarded-For'', ''$proxy_add_x_forwarded_for''), (''X-Forwarded-Host'', ''$best_http_host''),
        (''X-Forwarded-Port'', ''$pass_port''), (''X-Forwarded-Proto'', ''$pass_access_scheme''),
        (''X-Scheme'', ''$pass_access_scheme''), (''Proxy'', ''\"\"'')]\<rparr>"

section \<open>Proxy settings\<close>

record proxy_config =
  BodySize :: int
  ConnectTimeout :: int
  SendTimeout :: int
  ReadTimeout :: int
  BuffersNumber :: int
  BufferSize :: string
  CookieDomain :: string
  CookiePath :: string
  NextUpstream :: string
  NextUpstreamTimeout :: int
  NextUpstreamTries :: int
  px_ProxyRedirectFrom :: string
  px_ProxyRedirectTo :: string
  RequestBuffering :: string
  px_ProxyBuffering :: string
  AccessLog :: bool
  SetHeaders :: "string gomap"

text \<open>The expression \<^verbatim>\<open>^[1-9]\d*k$\<close>.\<close>

definition validateBufferSize :: "proxy_config \<Rightarrow> bool" where
  "validateBufferSize c = (case BufferSize c of [] \<Rightarrow> False
     | d # rest \<Rightarrow> d \<in> set ''123456789'' \<and> rest \<noteq> [] \<and> last rest = CHR ''k'' \<and>
         set (butlast rest) \<subseteq> set ''0123456789'')"

definition validateBuffering :: "string \<Rightarrow> bool" where
  "validateBuffering buffering \<longleftrightarrow> buffering = ''off'' \<or> buffering = ''on''"

definition Validation ::
  "(string \<Rightarrow> bool) \<Rightarrow> (string \<Rightarrow> bool) \<Rightarrow> proxy_config \<Rightarrow> ann_error option \<times> proxy_config" where
  "Validation valid_name valid_value c =
     (if \<exists>(k, v) \<in> set (SetHeaders c). \<not> valid_name k \<or> \<not> valid_value v
      then (Some (AnnError ''header''), c)
      else
        let c1 = (if \<not> validateBuffering (px_ProxyBuffering c)
                  then c\<lparr>px_ProxyBuffering := be_ProxyBuffering NewDefault\<rparr> else c);
            c2 = (if \<not> validateBufferSize c1 then c1\<lparr>BufferSize := ProxyBufferSize NewDefault\<rparr> else c1);
            c3 = (if BuffersNumber c2 \<le> 0 then c2\<lparr>BuffersNumber := ProxyBuffersNumber NewDefault\<rparr> else c2);
            c4 = (if \<not> validateBuffering (RequestBuffering c3)
                  then c3\<lparr>RequestBuffering := ProxyRequestBuffering NewDefault\<rparr> else c3);
            c5 = (if CookieDomain c4 = [] then c4\<lparr>CookieDomain := ProxyCookieDomain NewDefault\<rparr> else c4);
            c6 = (if CookiePath c5 = [] then c5\<lparr>CookiePath := ProxyCookiePath NewDefault\<rparr> else c5)
        in (None, c6))"

definition NewProxyConfig :: proxy_config where
  "NewProxyConfig = (let d = NewDefault in
     \<lparr>BodySize = ProxyBodySize d, ConnectTimeout = ProxyConnectTimeout d,
      SendTimeout = ProxySendTimeout d, ReadTimeout = ProxyReadTimeout d,
      BuffersNumber = ProxyBuffersNumber d, BufferSize = ProxyBufferSize d,
      CookieDomain = ProxyCookieDomain d, CookiePath = ProxyCookiePath d,
      NextUpstream = ProxyNextUpstream d, NextUpstreamTimeout = ProxyNextUpstreamTimeout d,
      NextUpstreamTries = ProxyNextUpstreamTries d, px_ProxyRedirectFrom = ProxyRedirectFrom d,
      px_ProxyRedirectTo = ProxyRedirectTo d, RequestBuffering = ProxyRequestBuffering d,
      px_ProxyBuffering = be_ProxyBuffering d, AccessLog = (be_AccessLog d = ''on''),
      SetHeaders = ProxySetHeaders d\<rparr>)"

text \<open>
  \<^verbatim>\<open>Equal\<close> on two distinct, non-nil configurations; a missing header reads as the empty string.
\<close>

definition proxy_eq :: "proxy_config \<Rightarrow> proxy_config \<Rightarrow> bool" where
  "proxy_eq s l2 \<longleftrightarrow>
     BodySize s = BodySize l2 \<and> ConnectTimeout s = ConnectTimeout l2 \<and>
     SendTimeout s = SendTimeout l2 \<and> ReadTimeout s = ReadTimeout l2 \<and>
     BuffersNumber s = BuffersNumber l2 \<and> BufferSize s = BufferSize l2 \<and>
     CookieDomain s = CookieDomain l2 \<and> CookiePath s = CookiePath l2 \<and>
     NextUpstream s = NextUpstream l2 \<and> NextUpstreamTries s = NextUpstreamTries l2 \<and>
     RequestBuffering s = RequestBuffering l2 \<and>
     px_ProxyRedirectFrom s = px_ProxyRedirectFrom l2 \<and> px_ProxyRedirectTo s = px_ProxyRedirectTo l2 \<and>
     px_ProxyBuffering s = px_ProxyBuffering l2 \<and> AccessLog s = AccessLog l2 \<and>
     length (SetHeaders s) = length (SetHeaders l2) \<and>
     (\<forall>(k, v) \<in> set (SetHeaders s). gm_str (SetHeaders l2) k = v)"

definition proxy_Parse :: "backend \<Rightarrow> object_meta \<Rightarrow> proxy_config" where
  "proxy_Parse d meta =
     (let str = (\<lambda>name def. or_else def (GetStringAnnotation name meta));
          num = (\<lambda>name def. or_else def (GetIntAnnotation name meta));
          headers0 = foldl (\<lambda>m (k, v). AList.update k v m) [] (ProxySetHeaders d);
          setHeaders = or_else [] (GetStringAnnotationWithPrefix ''set-header-'' meta)
      in \<lparr>BodySize = num ''proxy-body-size'' (ProxyBodySize d),
          ConnectTimeout = num ''proxy-connect-timeout'' (ProxyConnectTimeout d),
          SendTimeout = num ''proxy-send-timeout'' (ProxySendTimeout d),
          ReadTimeout = num ''proxy-read-timeout'' (ProxyReadTimeout d),
          BuffersNumber = num ''proxy-buffers-number'' (ProxyBuffersNumber d),
          BufferSize = str ''proxy-buffer-size'' (ProxyBufferSize d),
          CookieDomain = str ''proxy-cookie-domain'' (ProxyCookieDomain d),
          CookiePath = str ''proxy-cookie-path'' (ProxyCookiePath d),
          NextUpstream = str ''proxy-next-upstream'' (ProxyNextUpstream d),
          NextUpstreamTimeout = num ''proxy-next-upstream-timeout'' (ProxyNextUpstreamTimeout d),
          NextUpstreamTries = num ''proxy-next-upstream-tries'' (ProxyNextUpstreamTries d),
          px_ProxyRedirectFrom = str ''proxy-redirect-from'' (ProxyRedirectFrom d),
          px_ProxyRedirectTo = str ''proxy-redirect-to'' (ProxyRedirectTo d),
          RequestBuffering = str ''proxy-request-buffering'' (ProxyRequestBuffering d),
          px_ProxyBuffering = str ''proxy-buffering'' (be_ProxyBuffering d),
          AccessLog = (case GetStringAnnotation ''access-log'' meta of
              Inl _ \<Rightarrow> be_AccessLog d = ''on'' | Inr v \<Rightarrow> v = ''on''),
          SetHeaders = foldl (\<lambda>m (k, v). AList.update k (if v = ''empty'' then [] else v) m)
            headers0 setHeaders\<rparr>)"

section \<open>Rewrites\<close>

record rewrite =
  Regex :: string
  Replacement :: string
  Flag :: string

record rewrite_config =
  Rewrites :: "rewrite list"
  Target :: string
  SSLRedirect :: bool
  ForceSSLRedirect :: bool
  AppRoot :: string
  UseRegex :: bool

definition convert_step :: "rewrite gomap \<Rightarrow> string \<times> string \<Rightarrow> rewrite gomap" where
  "convert_step m kv = (case kv of (k, v) \<Rightarrow>
     (let sli = split_byte (CHR ''-'') k
      in if length sli < 2 then m
         else let rw = (case map_of m (sli ! 0) of Some r \<Rightarrow> r
                        | None \<Rightarrow> \<lparr>Regex = [], Replacement = [], Flag = []\<rparr>);
                  rw' = (if sli ! 1 = ''regex'' then rw\<lparr>Regex := v\<rparr>
                         else if sli ! 1 = ''replacement'' then rw\<lparr>Replacement := v\<rparr>
                         else if sli ! 1 = ''flag'' then rw\<lparr>Flag := v\<rparr>
                         else rw)
              in AList.update (sli ! 0) rw' m))"

definition convert :: "string gomap \<Rightarrow> rewrite list" where
  "convert in_map = map snd (foldl convert_step [] in_map)"

definition rewrite_Parse :: "backend \<Rightarrow> object_meta \<Rightarrow> rewrite_config" where
  "rewrite_Parse d meta =
     \<lparr>Rewrites = convert (or_else [] (GetStringAnnotationWithPrefix ''rewrite-'' meta)),
      Target = or_else [] (GetStringAnnotation ''rewrite-target'' meta),
      SSLRedirect = or_else (be_SSLRedirect d) (GetBoolAnnotation ''ssl-redirect'' meta),
      ForceSSLRedirect = or_else (be_ForceSSLRedirect d) (GetBoolAnnotation ''force-ssl-redirect'' meta),
      AppRoot = or_else [] (GetStringAnnotation ''app-root'' meta),
      UseRegex = or_else False (GetBoolAnnotation ''use-regex'' meta)\<rparr>"

definition rewrite_eq :: "rewrite_config \<Rightarrow> rewrite_config \<Rightarrow> bool" where
  "rewrite_eq r1 r2 \<longleftrightarrow> Target r1 = Target r2 \<and> SSLRedirect r1 = SSLRedirect r2 \<and>
     ForceSSLRedirect r1 = ForceSSLRedirect r2 \<and> AppRoot r1 = AppRoot r2 \<and>
     UseRegex r1 = UseRegex r2 \<and>
     all_matched (\<lambda>a b. Regex a = Regex b \<and> Replacement a = Replacement b \<and> Flag a = Flag b)
       (Rewrites r1) (Rewrites r2)"

section \<open>Conditions: printing and parsing\<close>

definition clean :: "string \<Rightarrow> bool" where
  "clean s \<longleftrightarrow> s \<noteq> [] \<and> set s \<inter> {CHR '' '', CHR '';'', CHR ''=''} = {}"

definition clean_map :: "string gomap \<Rightarrow> bool" where
  "clean_map m \<longleftrightarrow> gm_wf m \<and> (\<forall>(k, v) \<in> set m. clean k \<and> clean v)"

definition print_conditions :: "string gomap \<Rightarrow> string" where
  "print_conditions m = join_byte (CHR '';'') (map (\<lambda>(k, v). k @ CHR ''='' # v) m)"

lemma transform_step_clean:
  assumes "clean_map r" and "set item \<inter> {CHR '' '', CHR '';''} = {}"
  shows "clean_map (transform_step r item)"
proof -
  let ?s = "split_byte (CHR ''='') item"
  have piece: "set p \<inter> {CHR '' '', CHR '';'', CHR ''=''} = {}" if "p \<in> set ?s" for p
    using that assms(2) set_split_byte [OF that] split_byte_no_sep [OF that] by auto
  have upd: "clean_map (AList.update k v r)" if "clean k" "clean v" for k v
    using assms(1) that set_alist_update [of k v r] unfolding clean_map_def
    by (auto simp: distinct_update)
  show ?thesis
    using assms(1) piece upd unfolding transform_step_def Let_def
    by (auto simp: clean_def not_less Suc_le_eq numeral_2_eq_2)
qed

lemma transform_clean:
  assumes "transform s = Some m"
  shows "clean_map m" and "m \<noteq> []"
proof -
  let ?t = "replace_byte (CHR '' '') [] s"
  have "set item \<inter> {CHR '' '', CHR '';''} = {}" if "item \<in> set (split_byte (CHR '';'') ?t)" for item
    using set_split_byte [OF that] split_byte_no_sep [OF that] by (auto simp: replace_byte_delete)
  then have "clean_map (foldl transform_step r items)"
    if "clean_map r" "set items \<subseteq> set (split_byte (CHR '';'') ?t)" for r items
    using that by (induction items arbitrary: r) (auto simp: transform_step_clean)
  moreover have "clean_map []" by (simp add: clean_map_def)
  ultimately show "clean_map m" and "m \<noteq> []"
    using assms by (auto simp: transform_def Let_def split: if_splits)
qed

lemma transform_step_item:
  assumes "clean k" and "clean v"
  shows "transform_step r (k @ CHR ''='' # v) = AList.update k v r"
  using assms
  by (simp add: transform_step_def clean_def split_byte_append split_byte_none)

lemma foldl_items:
  assumes "clean_map m" and "fst ` set m \<inter> fst ` set r = {}"
  shows "foldl transform_step r (map (\<lambda>(k, v). k @ CHR ''='' # v) m) = r @ m"
  using assms
proof (induction m arbitrary: r)
  case (Cons x m)
  obtain k v where x: "x = (k, v)" by fastforce
  have "AList.update k v r = r @ [(k, v)]"
    using Cons.prems(2) by (induction r) (auto simp: x)
  moreover have "clean_map m" "fst ` set m \<inter> fst ` set (r @ [(k, v)]) = {}" "clean k" "clean v"
    using Cons.prems by (auto simp: x clean_map_def)
  ultimately show ?case
    using Cons.IH [of "r @ [(k, v)]"] by (simp add: x transform_step_item)
qed simp

lemma transform_print:
  assumes "clean_map m" and "m \<noteq> []"
  shows "transform (print_conditions m) = Some m"
proof -
  let ?items = "map (\<lambda>(k, v). k @ CHR ''='' # v) m"
  have chars: "set i \<inter> {CHR '' '', CHR '';''} = {}" if "i \<in> set ?items" for i
    using that assms(1) by (fastforce simp: clean_map_def clean_def)
  have "CHR '' '' \<noteq> CHR '';''" by simp
  then have "CHR '' '' \<notin> set (print_conditions m)"
    unfolding print_conditions_def using set_join_byte [of "CHR '';''" ?items] chars by blast
  then have "replace_byte (CHR '' '') [] (print_conditions m) = print_conditions m"
    by (auto simp: replace_byte_delete filter_id_conv)
  moreover have "split_byte (CHR '';'') (print_conditions m) = ?items"
    unfolding print_conditions_def using assms(2) chars by (intro split_join_byte) auto
  ultimately show ?thesis
    using foldl_items [OF assms(1), of "[]"] assms(2) by (simp add: transform_def Let_def)
qed

text \<open>
  Header and cookie conditions have a canonical form: whatever the annotation says, the parsed
  map has distinct, non-empty keys and non-empty values without blanks, semicolons and equals
  signs, and printing it as \<^verbatim>\<open>k=v;k=v\<close> and parsing it again gives the same map; every such
  map is obtained from its printed form.
\<close>

theorem conditions_roundtrip:
  assumes "transform s = Some m \<or> clean_map m \<and> m \<noteq> []"
  shows "clean_map m \<and> transform (print_conditions m) = Some m"
  using assms transform_clean transform_print by blast

section \<open>Layer 4 and weights\<close>

text \<open>
  An ingress that enables layer-4 forwarding is accepted only with a port between 1 and 65535,
  on its host or on all addresses; a port given in decimal between these bounds is taken over
  exactly.
\<close>

theorem l4_port_bounds:
  assumes "l4_Parse meta = Inr c" and "L4Enable c"
  shows "1 \<le> L4Port c \<and> L4Port c \<le> 65535 \<and> L4Host c \<noteq> [] \<and>
    (\<forall>p. 1 \<le> p \<and> p \<le> 65535 \<and>
       map_of (Annotations meta) (GetAnnotationWithPrefix ''l4-port'') = Some (go_itoa p) \<longrightarrow> L4Port c = p)"
proof -
  have port: "L4Port c = p"
    if "1 \<le> p" "p \<le> 65535" "map_of (Annotations meta) (GetAnnotationWithPrefix ''l4-port'') = Some (go_itoa p)"
    for p
  proof -
    have "Annotations meta \<noteq> []" using that(3) by auto
    then have "GetIntAnnotation ''l4-port'' meta = Inr p"
      using that go_atoi_itoa [of p]
      by (simp add: GetIntAnnotation_def checkAnnotation_def GetAnnotationWithPrefix_def
          AnnotationsPrefix_def parseInt_def Let_def del: map_of_eq_Some_iff)
    then show ?thesis
      using assms(1) by (auto simp: l4_Parse_def Let_def or_else_def split: if_splits)
  qed
  then show ?thesis
    using assms by (auto simp: l4_Parse_def Let_def split: if_splits)
qed

section \<open>Proxy settings\<close>

definition valid_proxy :: "(string \<Rightarrow> bool) \<Rightarrow> (string \<Rightarrow> bool) \<Rightarrow> proxy_config \<Rightarrow> bool" where
  "valid_proxy vn vv c \<longleftrightarrow> (\<forall>(k, v) \<in> set (SetHeaders c). vn k \<and> vv v) \<and>
     validateBuffering (px_ProxyBuffering c) \<and> validateBufferSize c \<and> 0 < BuffersNumber c \<and>
     validateBuffering (RequestBuffering c) \<and> CookieDomain c \<noteq> [] \<and> CookiePath c \<noteq> []"

lemma validateBufferSize_default [simp]:
  "BufferSize c = ''4k'' \<Longrightarrow> validateBufferSize c"
  by (simp add: validateBufferSize_def)

text \<open>The six repairs touch different fields, so they can be done at once.\<close>

definition repaired :: "proxy_config \<Rightarrow> proxy_config" where
  "repaired c = c\<lparr>
     px_ProxyBuffering := (if validateBuffering (px_ProxyBuffering c) then px_ProxyBuffering c
       else be_ProxyBuffering NewDefault),
     BufferSize := (if validateBufferSize c then BufferSize c else ProxyBufferSize NewDefault),
     BuffersNumber := (if BuffersNumber c \<le> 0 then ProxyBuffersNumber NewDefault else BuffersNumber c),
     RequestBuffering := (if validateBuffering (RequestBuffering c) then RequestBuffering c
       else ProxyRequestBuffering NewDefault),
     CookieDomain := (if CookieDomain c = [] then ProxyCookieDomain NewDefault else CookieDomain c),
     CookiePath := (if CookiePath c = [] then ProxyCookiePath NewDefault else CookiePath c)\<rparr>"

lemma buffer_size_form:
  "validateBufferSize c \<longleftrightarrow> (\<exists>d ds. BufferSize c = d # ds @ ''k'' \<and> d \<in> set ''123456789'' \<and> set ds \<subseteq> set ''0123456789'')"
proof (cases "BufferSize c")
  case (Cons d rest)
  then show ?thesis
    by (cases rest rule: rev_cases) (simp_all add: validateBufferSize_def conj_ac)
qed (simp add: validateBufferSize_def)

lemma Validation_run:
  assumes "\<not> (\<exists>(k, v) \<in> set (SetHeaders c). \<not> vn k \<or> \<not> vv v)"
  shows "Validation vn vv c = (None, repaired c)"
proof -
  have size: "validateBufferSize (c\<lparr>px_ProxyBuffering := x\<rparr>) = validateBufferSize c" for x
    by (simp add: validateBufferSize_def)
  have one: "(if b then d\<lparr>px_ProxyBuffering := x\<rparr> else d) =
      d\<lparr>px_ProxyBuffering := (if b then x else px_ProxyBuffering d)\<rparr>"
    "(if b then d\<lparr>BufferSize := x\<rparr> else d) = d\<lparr>BufferSize := (if b then x else BufferSize d)\<rparr>"
    "(if b then d\<lparr>BuffersNumber := n\<rparr> else d) = d\<lparr>BuffersNumber := (if b then n else BuffersNumber d)\<rparr>"
    "(if b then d\<lparr>RequestBuffering := x\<rparr> else d) =
      d\<lparr>RequestBuffering := (if b then x else RequestBuffering d)\<rparr>"
    "(if b then d\<lparr>CookieDomain := x\<rparr> else d) = d\<lparr>CookieDomain := (if b then x else CookieDomain d)\<rparr>"
    "(if b then d\<lparr>CookiePath := x\<rparr> else d) = d\<lparr>CookiePath := (if b then x else CookiePath d)\<rparr>"
    for b n x and d :: proxy_config
    by simp_all
  show ?thesis
    using assms unfolding Validation_def Let_def one repaired_def by (simp add: size if_not_P)
qed

text \<open>
  C31: Validation reports an error exactly when a header is malformed, and then changes nothing. Otherwise every setting that is
  valid keeps its value and every other one gets its default: buffering and request buffering are on or off, the buffer size is a
  positive number of kilobytes, there is at least one buffer, and the cookie domain and path are not empty. All other settings,
  the headers among them, stay as they are.
\<close>

theorem Validation_repairs:
  "case Validation vn vv c of
     (Some _, c') \<Rightarrow> c' = c \<and> (\<exists>k v. (k, v) \<in> set (SetHeaders c) \<and> \<not> (vn k \<and> vv v))
   | (None, c') \<Rightarrow> (\<forall>k v. (k, v) \<in> set (SetHeaders c) \<longrightarrow> vn k \<and> vv v) \<and>
       px_ProxyBuffering c' = (if px_ProxyBuffering c \<in> {''on'', ''off''} then px_ProxyBuffering c else ''off'') \<and>
       BufferSize c' = (if \<exists>d ds. BufferSize c = d # ds @ ''k'' \<and> d \<in> set ''123456789'' \<and> set ds \<subseteq> set ''0123456789''
         then BufferSize c else ''4k'') \<and>
       BuffersNumber c' = (if 1 \<le> BuffersNumber c then BuffersNumber c else 4) \<and>
       RequestBuffering c' = (if RequestBuffering c \<in> {''on'', ''off''} then RequestBuffering c else ''on'') \<and>
       CookieDomain c' = (if CookieDomain c = [] then ''off'' else CookieDomain c) \<and>
       CookiePath c' = (if CookiePath c = [] then ''off'' else CookiePath c) \<and>
       c'\<lparr>px_ProxyBuffering := px_ProxyBuffering c, BufferSize := BufferSize c, BuffersNumber := BuffersNumber c,
          RequestBuffering := RequestBuffering c, CookieDomain := CookieDomain c, CookiePath := CookiePath c\<rparr> = c"
proof (cases "\<exists>(k, v) \<in> set (SetHeaders c). \<not> vn k \<or> \<not> vv v")
  case True
  then show ?thesis by (auto simp: Validation_def)
next
  case False
  have "(\<forall>k v. (k, v) \<in> set (SetHeaders c) \<longrightarrow> vn k \<and> vv v)"
    using False by blast
  moreover have "(\<exists>d ds. BufferSize c = d # ds @ ''k'' \<and> d \<in> set ''123456789'' \<and> set ds \<subseteq> set ''0123456789'') = validateBufferSize c"
    by (rule buffer_size_form [symmetric])
  ultimately show ?thesis
    by (simp only: Validation_run [OF False]) (simp add: repaired_def validateBuffering_def NewDefault_def)
qed

text \<open>A validated configuration is valid, and validating it again changes nothing.\<close>

theorem Validation_idempotent:
  assumes "Validation vn vv c = (None, c')"
  shows "valid_proxy vn vv c' \<and> Validation vn vv c' = (None, c')"
proof -
  have hd: "\<not> (\<exists>(k, v) \<in> set (SetHeaders c). \<not> vn k \<or> \<not> vv v)"
    using assms by (auto simp: Validation_def split: if_splits)
  then have c': "c' = repaired c"
    using assms by (simp add: Validation_run)
  have "valid_proxy vn vv c'"
    using hd by (auto simp: c' valid_proxy_def repaired_def validateBuffering_def NewDefault_def validateBufferSize_def)
  then show ?thesis
    by (auto simp: Validation_def valid_proxy_def Let_def not_le)
qed

lemma map_of_prefix_loop:
  assumes "gm_wf anns" and "k \<noteq> []"
  shows "map_of (foldl (\<lambda>res (key, val).
             if \<not> prefix v key then res
             else let k = replace_first v [] key
                  in if k \<noteq> [] then AList.update k val res else res) r anns) k =
    (case map_of anns (v @ k) of Some x \<Rightarrow> Some x | None \<Rightarrow> map_of r k)"
  using assms(1)
proof (induction anns arbitrary: r)
  case (Cons a anns)
  obtain key val where a: "a = (key, val)" by fastforce
  show ?case
  proof (cases "prefix v key")
    case False
    then have "key \<noteq> v @ k" by auto
    then show ?thesis using Cons False by (simp add: a)
  next
    case True
    then obtain k' where key: "key = v @ k'" by (auto simp: prefix_def)
    have strip: "replace_first v [] key = k'" unfolding key by (simp add: replace_first_prefix)
    have "map_of anns (v @ k') = None"
      using Cons.prems by (simp add: a key map_of_eq_None_iff)
    then show ?thesis
      using Cons True strip assms(2)
      by (simp add: a key Let_def update_conv' split: option.split)
  qed
qed simp

text \<open>The annotations with a prefix, without it.\<close>

lemma annotations_with_prefix:
  assumes "gm_wf (Annotations meta)"
  shows "gm_wf (or_else [] (GetStringAnnotationWithPrefix p meta))"
    and "[] \<notin> fst ` set (or_else [] (GetStringAnnotationWithPrefix p meta))"
    and "k \<noteq> [] \<Longrightarrow> map_of (or_else [] (GetStringAnnotationWithPrefix p meta)) k =
      map_of (Annotations meta) (GetAnnotationWithPrefix p @ k)"
proof -
  let ?loop = "\<lambda>v. foldl (\<lambda>res (key, val). if \<not> prefix v key then res
        else let k = replace_first v [] key in if k \<noteq> [] then AList.update k val res else res)"
  have "gm_wf (?loop v r anns) \<and> [] \<notin> fst ` set (?loop v r anns)" if "gm_wf r" "[] \<notin> fst ` set r" for v r and anns :: "string gomap"
    using that
  proof (induction anns arbitrary: r)
    case (Cons x anns)
    show ?case
      unfolding foldl_Cons
    proof (rule Cons.IH)
      obtain a b where x: "x = (a, b)" by fastforce
      have "[] \<notin> fst ` set (AList.update k b r)" if "k \<noteq> []" for k
        using that Cons.prems set_alist_update [of k b r] by auto
      then show "[] \<notin> fst ` set (case x of (key, val) \<Rightarrow> if \<not> prefix v key then r
          else let k = replace_first v [] key in if k \<noteq> [] then AList.update k val r else r)"
        using Cons.prems by (simp add: x Let_def)
    qed (use Cons.prems in \<open>auto simp: Let_def split: prod.splits\<close>)
  qed simp
  from this [of "[]"] show "gm_wf (or_else [] (GetStringAnnotationWithPrefix p meta))"
    "[] \<notin> fst ` set (or_else [] (GetStringAnnotationWithPrefix p meta))"
    by (simp_all add: GetStringAnnotationWithPrefix_def or_else_def Let_def split: sum.split option.split)
  show "map_of (or_else [] (GetStringAnnotationWithPrefix p meta)) k =
      map_of (Annotations meta) (GetAnnotationWithPrefix p @ k)" if "k \<noteq> []"
  proof (cases "Annotations meta = []")
    case True
    then show ?thesis by (simp add: GetStringAnnotationWithPrefix_def checkAnnotation_def or_else_def Let_def)
  next
    case False
    moreover have "GetAnnotationWithPrefix p \<noteq> []" by (simp add: GetAnnotationWithPrefix_def)
    ultimately show ?thesis
      using map_of_prefix_loop [OF assms that, of "GetAnnotationWithPrefix p" "[]"]
      by (simp add: GetStringAnnotationWithPrefix_def checkAnnotation_def or_else_def Let_def
          split: option.splits)
  qed
qed

text \<open>
  The headers set on proxied requests are the defaults overridden by the annotations
  \<^verbatim>\<open>set-header-NAME\<close>: a header with an annotation has the annotation's value (empty for the
  text \<^verbatim>\<open>empty\<close>), every other header its default, and no default is lost.
\<close>

theorem proxy_headers_override:
  assumes "gm_wf (Annotations meta)" and "gm_wf (ProxySetHeaders d)" and "k \<noteq> []"
  shows "map_of (SetHeaders (proxy_Parse d meta)) k =
    (case map_of (Annotations meta) (GetAnnotationWithPrefix ''set-header-'' @ k) of
       Some v \<Rightarrow> Some (if v = ''empty'' then [] else v)
     | None \<Rightarrow> map_of (ProxySetHeaders d) k)"
proof -
  let ?pre = "GetAnnotationWithPrefix ''set-header-''"
  let ?hs = "or_else [] (GetStringAnnotationWithPrefix ''set-header-'' meta)"
  have hs: "map_of ?hs k = map_of (Annotations meta) (?pre @ k)" and wf: "gm_wf ?hs"
    using annotations_with_prefix [OF assms(1)] assms(3) by blast+
  have upd: "map_of (foldl (\<lambda>m (k, v). AList.update k (f v) m) r l) j =
      (case map_of l j of Some v \<Rightarrow> Some (f v) | None \<Rightarrow> map_of r j)"
    if "gm_wf l" for r j and l :: "string gomap" and f :: "string \<Rightarrow> string"
    using that
  proof (induction l arbitrary: r)
    case (Cons x l)
    obtain a b where x: "x = (a, b)" by fastforce
    have "a \<notin> fst ` set l" using Cons.prems by (auto simp: x)
    then have "map_of l a = None" by (simp add: map_of_eq_None_iff)
    then show ?case using Cons by (auto simp: x update_conv' split: option.splits)
  qed simp
  show ?thesis
    using upd [OF wf, of "\<lambda>v. if v = ''empty'' then [] else v"] upd [OF assms(2), of "\<lambda>v. v" "[]"]
    by (simp add: proxy_Parse_def Let_def hs split: option.split)
qed

text \<open>
  The comparison of proxy settings misses changes: a different timeout for the next upstream is
  never noticed, and neither is a header that is replaced by one of another name when its value is
  empty, although the comparison in the other direction notices it.
\<close>

theorem proxy_eq_misses_changes:
  assumes "gm_wf (SetHeaders c)" and "k \<noteq> k'" and "v \<noteq> []"
  shows "proxy_eq c (c\<lparr>NextUpstreamTimeout := t\<rparr>) \<and>
    proxy_eq (c\<lparr>SetHeaders := [(k, [])]\<rparr>) (c\<lparr>SetHeaders := [(k', v)]\<rparr>) \<and>
    \<not> proxy_eq (c\<lparr>SetHeaders := [(k', v)]\<rparr>) (c\<lparr>SetHeaders := [(k, [])]\<rparr>)"
  using assms by (auto simp: proxy_eq_def gm_str_mem)

section \<open>Witnesses\<close>

definition ann_meta :: "string gomap \<Rightarrow> object_meta" where
  "ann_meta anns = \<lparr>Name = ''i'', Namespace = ''n'', Labels = [], Annotations = anns,
     CreationTimestamp = 0, DeletionTimestamp = None, ResourceVersion = []\<rparr>"

lemma conditions_roundtrip_witness:
  "transform ''a=1; b = 2;;c'' = Some [(''a'', ''1''), (''b'', ''2'')] \<and>
   transform (print_conditions [(''a'', ''1''), (''b'', ''2'')]) = Some [(''a'', ''1''), (''b'', ''2'')]"
proof -
  have "transform ''a=1; b = 2;;c'' = Some [(''a'', ''1''), (''b'', ''2'')]"
    by (simp add: transform_def transform_step_def replace_byte_def Let_def)
  then show ?thesis using conditions_roundtrip by blast
qed

lemma l4_port_bounds_witness:
  "\<exists>c. l4_Parse (ann_meta [(''nginx.ingress.kubernetes.io/l4-enable'', ''true''),
      (''nginx.ingress.kubernetes.io/l4-port'', ''8080'')]) = Inr c \<and> L4Port c = 8080"
proof -
  let ?meta = "ann_meta [(''nginx.ingress.kubernetes.io/l4-enable'', ''true''),
      (''nginx.ingress.kubernetes.io/l4-port'', ''8080'')]"
  have "\<exists>c. l4_Parse ?meta = Inr c \<and> L4Enable c"
    by (simp add: l4_Parse_def ann_meta_def Let_def GetBoolAnnotation_def GetIntAnnotation_def
        GetStringAnnotation_def checkAnnotation_def parseBool_def parseInt_def parseString_def
        GetAnnotationWithPrefix_def AnnotationsPrefix_def go_parse_bool_def go_atoi_def
        char_digit_def or_else_def)
  then obtain c where c: "l4_Parse ?meta = Inr c" "L4Enable c" by blast
  have "go_itoa 8080 = ''8080''"
    by (simp add: go_itoa_def nat_str.simps digit_char_def char_of_def bit_iff_odd)
  then show ?thesis
    using c(1) l4_port_bounds [OF c]
    by (auto simp: ann_meta_def GetAnnotationWithPrefix_def AnnotationsPrefix_def)
qed

lemma Validation_repairs_witness:
  "case Validation (\<lambda>_. True) (\<lambda>_. True) (NewProxyConfig\<lparr>BufferSize := ''0k'', CookiePath := ''/x''\<rparr>) of
     (None, c') \<Rightarrow> BufferSize c' = ''4k'' \<and> CookiePath c' = ''/x'' | _ \<Rightarrow> False"
  using Validation_repairs [where vn = "\<lambda>_. True" and vv = "\<lambda>_. True" and c = "NewProxyConfig\<lparr>BufferSize := ''0k'', CookiePath := ''/x''\<rparr>"]
  by (auto simp: NewProxyConfig_def Let_def NewDefault_def split: option.splits prod.splits)

lemma Validation_idempotent_witness:
  "\<exists>c'. Validation (\<lambda>_. True) (\<lambda>_. True) NewProxyConfig = (None, c') \<and> valid_proxy (\<lambda>_. True) (\<lambda>_. True) c'"
proof -
  obtain c' where "Validation (\<lambda>_. True) (\<lambda>_. True) NewProxyConfig = (None, c')"
    by (simp add: Validation_def Let_def)
  then show ?thesis
    using Validation_idempotent by blast
qed

lemma proxy_headers_override_witness:
  "map_of (SetHeaders (proxy_Parse NewDefault
     (ann_meta [(''nginx.ingress.kubernetes.io/set-header-Host'', ''empty'')]))) ''Host'' = Some []"
  using proxy_headers_override [of "ann_meta [(''nginx.ingress.kubernetes.io/set-header-Host'', ''empty'')]"
    NewDefault "''Host''"]
  by (simp add: ann_meta_def NewDefault_def GetAnnotationWithPrefix_def AnnotationsPrefix_def)

lemma proxy_eq_misses_changes_witness:
  "proxy_eq (NewProxyConfig\<lparr>SetHeaders := [(''A'', [])]\<rparr>) (NewProxyConfig\<lparr>SetHeaders := [(''B'', ''x'')]\<rparr>)"
  using proxy_eq_misses_changes [of NewProxyConfig "''A''" "''B''" "''x''"]
  by (simp add: NewProxyConfig_def NewDefault_def Let_def)

end
