(* ===== verification/Gateway_Model.thy ===== *)
theory Gateway_Model
  imports Gateway_Annotations
begin

text \<open>
  The gateway's data model and its comparison (\<^verbatim>\<open>src/gateway/v1\<close>): pools of nodes,
  locations, certificates, virtual services and whole configurations. The controller rebuilds the
  configuration on every change and reloads the proxy only when \<^verbatim>\<open>Equals\<close> says that
  something changed.

  Pointers carry their address, because every \<^verbatim>\<open>Equals\<close> starts by comparing addresses. The
  comparison of two values behind an interface panics when they have the same uncomparable type,
  so the comparison of virtual services returns in \<open>go\<close>.
\<close>

section \<open>Meta and nodes\<close>

record gw_meta =
  Index :: int
  m_Name :: string
  m_Namespace :: string
  m_ServiceID :: string
  PluginName :: string

definition Meta_eq :: "gw_meta \<Rightarrow> gw_meta \<Rightarrow> bool" where
  "Meta_eq m c \<longleftrightarrow> m_Name m = m_Name c \<and> m_Namespace m = m_Namespace c \<and>
     PluginName m = PluginName c \<and> m_ServiceID m = m_ServiceID c"

definition Meta_Equals :: "gw_meta ptr \<Rightarrow> gw_meta ptr \<Rightarrow> bool" where
  "Meta_Equals = ptr_equals Meta_eq"

record node =
  n_Meta :: gw_meta
  Host :: string
  Port :: int
  n_Protocol :: string
  State :: string
  n_PoolName :: string
  n_Ready :: bool
  Weight :: int
  MaxFails :: int
  FailTimeout :: string

definition Node_eq :: "node \<Rightarrow> node \<Rightarrow> bool" where
  "Node_eq n c \<longleftrightarrow> n_Meta n = n_Meta c \<and> Host n = Host c \<and> Port n = Port c \<and>
     n_Protocol n = n_Protocol c \<and> State n = State c \<and> n_PoolName n = n_PoolName c \<and>
     n_Ready n = n_Ready c \<and> Weight n = Weight c \<and> MaxFails n = MaxFails c \<and>
     FailTimeout n = FailTimeout c"

definition Node_Equals :: "node ptr \<Rightarrow> node ptr \<Rightarrow> bool" where
  "Node_Equals = ptr_equals Node_eq"

section \<open>Pools\<close>

datatype load_balancing_type = RoundRobin | CookieSessionAffinity

definition GetLoadBalancingType :: "string \<Rightarrow> load_balancing_type" where
  "GetLoadBalancingType s =
     (if s = ''round-robin'' then RoundRobin
      else if s = ''cookie-session-affinity'' then CookieSessionAffinity
      else RoundRobin)"

record pool =
  p_Meta :: gw_meta
  p_ServiceID :: string
  ServiceVersion :: string
  ServicePort :: int
  p_Note :: string
  NodeNumber :: int
  LoadBalancingType :: load_balancing_type
  UpstreamHashBy :: string
  LeastConn :: bool
  Monitors :: "string list"
  Nodes :: "node ptr list"

definition Pool_eq :: "pool \<Rightarrow> pool \<Rightarrow> bool" where
  "Pool_eq p c \<longleftrightarrow> Meta_eq (p_Meta p) (p_Meta c) \<and> p_ServiceID p = p_ServiceID c \<and>
     ServiceVersion p = ServiceVersion c \<and> ServicePort p = ServicePort c \<and> p_Note p = p_Note c \<and>
     NodeNumber p = NodeNumber c \<and> LoadBalancingType p = LoadBalancingType c \<and>
     all_matched (=) (Monitors p) (Monitors c) \<and>
     all_matched Node_Equals (Nodes p) (Nodes c)"

definition Pool_Equals :: "pool ptr \<Rightarrow> pool ptr \<Rightarrow> bool" where
  "Pool_Equals = ptr_equals Pool_eq"

section \<open>Locations\<close>

datatype condition_type = HeaderType | CookieType | DefaultType

record condition =
  c_Type :: condition_type
  c_Value :: "string gomap"

definition Condition_eq :: "condition \<Rightarrow> condition \<Rightarrow> bool" where
  "Condition_eq c cc \<longleftrightarrow> c_Type c = c_Type cc \<and> gm_eq_by (=) (c_Value c) (c_Value cc)"

definition Condition_Equals :: "condition ptr \<Rightarrow> condition ptr \<Rightarrow> bool" where
  "Condition_Equals = ptr_equals Condition_eq"

record location =
  Path :: string
  NameCondition :: "condition ptr gomap"
  l_Rewrite :: rewrite_config
  l_Proxy :: proxy_config
  DisableProxyPass :: bool
  PathRewrite :: bool

definition Location_eq :: "location \<Rightarrow> location \<Rightarrow> bool" where
  "Location_eq l c \<longleftrightarrow> Path l = Path c \<and>
     gm_eq_by (\<lambda>lc cc. Condition_Equals cc lc) (NameCondition l) (NameCondition c) \<and>
     proxy_eq (l_Proxy l) (l_Proxy c) \<and> rewrite_eq (l_Rewrite l) (l_Rewrite c) \<and>
     PathRewrite l = PathRewrite c"

definition Location_Equals :: "location ptr \<Rightarrow> location ptr \<Rightarrow> bool" where
  "Location_Equals = ptr_equals Location_eq"

section \<open>Certificates\<close>

text \<open>A parsed certificate is its raw encoding, which \<^verbatim>\<open>x509.Certificate.Equal\<close> compares.\<close>

record ssl_cert =
  s_Meta :: "gw_meta ptr"
  CertificateStr :: string
  Certificate :: "string option"
  PrivateKey :: string
  CertificatePem :: string
  CN :: "string list"
  ExpireTime :: int

definition SSLCert_eq :: "ssl_cert \<Rightarrow> ssl_cert \<Rightarrow> bool" where
  "SSLCert_eq s c \<longleftrightarrow> Meta_Equals (s_Meta s) (s_Meta c) \<and>
     (Certificate s = None) = (Certificate c = None) \<and>
     (Certificate s \<noteq> None \<and> Certificate c \<noteq> None \<longrightarrow> Certificate s = Certificate c) \<and>
     CertificateStr s = CertificateStr c \<and> PrivateKey s = PrivateKey c \<and>
     length (CN s) = length (CN c) \<and>
     (\<forall>scn \<in> set (CN s). \<exists>ccn \<in> set (CN c). scn \<noteq> ccn) \<and>
     ExpireTime s = ExpireTime c"

definition SSLCert_Equals :: "ssl_cert ptr \<Rightarrow> ssl_cert ptr \<Rightarrow> bool" where
  "SSLCert_Equals = ptr_equals SSLCert_eq"

section \<open>Virtual services\<close>

text \<open>
  A value of \<^verbatim>\<open>interface{}\<close>: nil, or a dynamic type with a value, comparable or not.
\<close>

datatype go_iface = IfaceNil | Comparable string string | Uncomparable string string

fun iface_eq :: "go_iface \<Rightarrow> go_iface \<Rightarrow> bool go" where
  "iface_eq IfaceNil IfaceNil = Inr True"
| "iface_eq (Comparable t x) (Comparable u y) = Inr (t = u \<and> x = y)"
| "iface_eq (Uncomparable t x) (Uncomparable u y) = (if t = u then Inl UncomparableType else Inr False)"
| "iface_eq _ _ = Inr False"

record virtual_service =
  v_Meta :: gw_meta
  Enabled :: bool
  v_Protocol :: string
  BackendProtocol :: string
  v_Port :: int
  Listening :: "string list"
  v_Note :: string
  DefaultPoolName :: string
  RuleNames :: "string list"
  SSLdecrypt :: bool
  DefaultCertificateName :: string
  RequestLogEnable :: bool
  RequestLogFileName :: string
  RequestLogFormat :: string
  v_ConnectTimeout :: int
  Timeout :: int
  ServerName :: string
  v_PoolName :: string
  SSlProtocols :: string
  SSLCert :: "ssl_cert ptr"
  Locations :: "location ptr list"
  v_ForceSSLRedirect :: bool
  ExtensionConfig :: "go_iface gomap"
  TCPKeepaliveEnabled :: bool
  TCPKeepaliveIdle :: string
  TCPKeepaliveIntvl :: string
  TCPKeepaliveCnt :: string
  ProxyStreamTimeout :: string
  ProxyStreamNextUpstreamTimeout :: string

definition ext_eq :: "go_iface gomap \<Rightarrow> go_iface gomap \<Rightarrow> bool go" where
  "ext_eq v c = (if length v \<noteq> length c then Inr False
     else all_go (\<lambda>(key, ve). iface_eq (case map_of c key of None \<Rightarrow> IfaceNil | Some x \<Rightarrow> x) ve) v)"

text \<open>The fields that \<^verbatim>\<open>Equals\<close> compares with \<^verbatim>\<open>!=\<close>.\<close>

definition vs_flat_eq :: "virtual_service \<Rightarrow> virtual_service \<Rightarrow> bool" where
  "vs_flat_eq v c \<longleftrightarrow> Enabled v = Enabled c \<and> v_Protocol v = v_Protocol c \<and>
     BackendProtocol v = BackendProtocol c \<and> v_Port v = v_Port c \<and>
     TCPKeepaliveEnabled v = TCPKeepaliveEnabled c \<and> TCPKeepaliveIdle v = TCPKeepaliveIdle c \<and>
     TCPKeepaliveIntvl v = TCPKeepaliveIntvl c \<and> TCPKeepaliveCnt v = TCPKeepaliveCnt c \<and>
     ProxyStreamTimeout v = ProxyStreamTimeout c \<and>
     ProxyStreamNextUpstreamTimeout v = ProxyStreamNextUpstreamTimeout c \<and>
     v_Note v = v_Note c \<and> DefaultPoolName v = DefaultPoolName c \<and> SSLdecrypt v = SSLdecrypt c \<and>
     DefaultCertificateName v = DefaultCertificateName c \<and> RequestLogEnable v = RequestLogEnable c \<and>
     RequestLogFileName v = RequestLogFileName c \<and> RequestLogFormat v = RequestLogFormat c \<and>
     v_ConnectTimeout v = v_ConnectTimeout c \<and> Timeout v = Timeout c \<and>
     ServerName v = ServerName c \<and> v_PoolName v = v_PoolName c \<and>
     v_ForceSSLRedirect v = v_ForceSSLRedirect c"

definition VirtualService_eq :: "virtual_service \<Rightarrow> virtual_service \<Rightarrow> bool go" where
  "VirtualService_eq v c =
     (if \<not> Meta_eq (v_Meta v) (v_Meta c) then Inr False
      else if \<not> vs_flat_eq v c then Inr False
      else if \<not> all_matched (=) (Listening v) (Listening c) then Inr False
      else if \<not> all_matched (=) (RuleNames v) (RuleNames c) then Inr False
      else if \<not> all_matched Location_Equals (Locations v) (Locations c) then Inr False
      else if \<not> SSLCert_Equals (SSLCert v) (SSLCert c) then Inr False
      else ext_eq (ExtensionConfig v) (ExtensionConfig c))"

fun VirtualService_Equals :: "virtual_service ptr \<Rightarrow> virtual_service ptr \<Rightarrow> bool go" where
  "VirtualService_Equals Nil_ptr Nil_ptr = Inr True"
| "VirtualService_Equals (Ptr a v) (Ptr b c) = (if a = b then Inr True else VirtualService_eq v c)"
| "VirtualService_Equals _ _ = Inr False"

record gw_config =
  HTTPPools :: "pool ptr list"
  TCPPools :: "pool ptr list"
  L7VS :: "virtual_service ptr list"
  L4VS :: "virtual_service ptr list"

definition vs_lists_eq :: "virtual_service ptr list \<Rightarrow> virtual_service ptr list \<Rightarrow> bool go" where
  "vs_lists_eq xs ys = (if length xs \<noteq> length ys then Inr False
     else all_go (\<lambda>x. any_go (VirtualService_Equals x) ys) xs)"

fun Config_Equals :: "gw_config ptr \<Rightarrow> gw_config ptr \<Rightarrow> bool go" where
  "Config_Equals Nil_ptr Nil_ptr = Inr True"
| "Config_Equals (Ptr a cfg) (Ptr b c) = (if a = b then Inr True
     else bind_go (vs_lists_eq (L7VS cfg) (L7VS c)) (\<lambda>ok.
       if ok then vs_lists_eq (L4VS cfg) (L4VS c) else Inr False))"
| "Config_Equals _ _ = Inr False"

section \<open>Nodes and pools\<close>

lemma Node_eq_iff: "Node_eq n c \<longleftrightarrow> n = c"
  by (auto simp: Node_eq_def intro!: node.equality)

text \<open>The node a pointer refers to.\<close>

fun the_obj :: "'a ptr \<Rightarrow> 'a option" where
  "the_obj Nil_ptr = None"
| "the_obj (Ptr a x) = Some x"

lemma ptr_equals_value:
  assumes "ptr_coherent p q" and "\<And>x y. eq x y \<longleftrightarrow> x = y"
  shows "ptr_equals eq p q \<longleftrightarrow> the_obj p = the_obj q"
  using assms by (cases p; cases q) auto

lemma all_matched_map:
  assumes "\<And>x y. x \<in> set xs \<Longrightarrow> y \<in> set ys \<Longrightarrow> eq x y \<longleftrightarrow> f x = f y"
  shows "all_matched eq xs ys \<longleftrightarrow> all_matched (=) (map f xs) (map f ys)"
  using assms by (auto simp: all_matched_def image_iff)

text \<open>
  Two pools at different addresses compare equal exactly when their identity, service, version,
  port, note, node number, balancing type and monitors agree and they have the same nodes, in any
  order, provided no address holds two nodes and neither lists a node or monitor twice; the hash
  key and the least-connections flag are not compared.
\<close>

theorem pool_equality_exact:
  assumes "\<forall>p \<in> set (Nodes x). \<forall>q \<in> set (Nodes y). ptr_coherent p q"
    and "distinct (map the_obj (Nodes x))" "distinct (map the_obj (Nodes y))"
    and "distinct (Monitors x)" "distinct (Monitors y)" and "a \<noteq> b"
  shows "Pool_Equals (Ptr a x) (Ptr b y) \<longleftrightarrow>
    Meta_eq (p_Meta x) (p_Meta y) \<and> p_ServiceID x = p_ServiceID y \<and>
    ServiceVersion x = ServiceVersion y \<and> ServicePort x = ServicePort y \<and> p_Note x = p_Note y \<and>
    NodeNumber x = NodeNumber y \<and> LoadBalancingType x = LoadBalancingType y \<and>
    set (Monitors x) = set (Monitors y) \<and> the_obj ` set (Nodes x) = the_obj ` set (Nodes y)"
proof -
  have "Node_Equals p q \<longleftrightarrow> the_obj p = the_obj q" if "p \<in> set (Nodes x)" "q \<in> set (Nodes y)" for p q
    unfolding Node_Equals_def using that assms(1) by (intro ptr_equals_value) (auto simp: Node_eq_iff)
  then have "all_matched Node_Equals (Nodes x) (Nodes y) \<longleftrightarrow>
      all_matched (=) (map the_obj (Nodes x)) (map the_obj (Nodes y))"
    by (rule all_matched_map)
  also have "\<dots> \<longleftrightarrow> the_obj ` set (Nodes x) = the_obj ` set (Nodes y)"
    using all_matched_distinct [OF assms(2,3)] by simp
  finally show ?thesis
    using assms(6) all_matched_distinct [OF assms(4,5)]
    by (simp add: Pool_Equals_def Pool_eq_def)
qed

section \<open>Certificates\<close>

text \<open>
  The comparison of certificates looks for a different common name instead of an equal one: a
  certificate with one common name never compares equal to a copy of itself, and two certificates
  that differ only in their single common name compare equal.
\<close>

theorem certificate_names_inverted:
  assumes "a \<noteq> b"
  shows "(set (CN s) = {cn} \<longrightarrow> \<not> SSLCert_Equals (Ptr a s) (Ptr b s)) \<and>
    (cn \<noteq> cn' \<longrightarrow> SSLCert_Equals (Ptr a (s\<lparr>CN := [cn]\<rparr>)) (Ptr b (s\<lparr>CN := [cn']\<rparr>)))"
proof -
  have "Meta_Equals m m" for m
    by (cases m) (simp_all add: Meta_Equals_def)
  with assms show ?thesis
    by (auto simp: SSLCert_Equals_def SSLCert_eq_def)
qed

section \<open>Configurations\<close>

text \<open>
  A virtual service without the parts that \<^verbatim>\<open>Equals\<close> does not compare field by field.
\<close>

definition vs_core :: "virtual_service \<Rightarrow> virtual_service" where
  "vs_core v = v\<lparr>v_Meta := (v_Meta v)\<lparr>Index := 0\<rparr>, Listening := [], RuleNames := [], SSlProtocols := [],
     SSLCert := Nil_ptr, Locations := [], ExtensionConfig := []\<rparr>"

definition vs_sig :: "virtual_service ptr \<Rightarrow> virtual_service option" where
  "vs_sig p = map_option vs_core (the_obj p)"

lemma vs_core_iff: "vs_core v = vs_core c \<longleftrightarrow> Meta_eq (v_Meta v) (v_Meta c) \<and> vs_flat_eq v c"
proof -
  have meta: "(v_Meta v)\<lparr>Index := 0\<rparr> = (v_Meta c)\<lparr>Index := 0\<rparr> \<longleftrightarrow> Meta_eq (v_Meta v) (v_Meta c)"
    by (cases "v_Meta v"; cases "v_Meta c") (auto simp: Meta_eq_def)
  show ?thesis
    unfolding meta [symmetric] vs_core_def vs_flat_eq_def
    by (cases v; cases c) auto
qed

lemma vs_parts_refl [simp]: "Meta_eq m m" "vs_flat_eq v v"
  by (simp_all add: Meta_eq_def vs_flat_eq_def)

lemma vs_equals_sig:
  assumes "VirtualService_Equals p q = Inr True" and "ptr_coherent p q"
  shows "vs_sig p = vs_sig q"
  using assms
  by (cases p; cases q)
    (auto simp: vs_sig_def vs_core_iff VirtualService_eq_def split: if_splits)

lemma vs_lists_eq_sigs:
  assumes "vs_lists_eq xs ys = Inr True"
    and "\<forall>p \<in> set xs. \<forall>q \<in> set ys. ptr_coherent p q" and "distinct (map vs_sig xs)"
  shows "vs_sig ` set xs = vs_sig ` set ys \<and> length xs = length ys"
proof -
  have len: "length xs = length ys"
    and all: "\<forall>x \<in> set xs. any_go (VirtualService_Equals x) ys = Inr True"
    using assms(1) by (auto simp: vs_lists_eq_def split: if_splits dest!: all_go_TrueD)
  have "\<exists>y \<in> set ys. vs_sig x = vs_sig y" if "x \<in> set xs" for x
    using all that any_go_TrueD assms(2) vs_equals_sig by blast
  then have sub: "vs_sig ` set xs \<subseteq> vs_sig ` set ys" by auto
  have "card (vs_sig ` set ys) \<le> length ys" by (metis card_length length_map set_map)
  also have "\<dots> = card (vs_sig ` set xs)"
    using assms(3) len distinct_card [of "map vs_sig xs"] by simp
  finally have "vs_sig ` set xs = vs_sig ` set ys"
    using sub by (intro card_seteq) auto
  with len show ?thesis by simp
qed

text \<open>
  A configuration is taken for unchanged only when it has the same virtual services: if the
  comparison of two configurations is true, their layer-7 and layer-4 services correspond one to
  one in name, namespace, protocol, port, server name, pool, timeouts and every other field
  compared directly, provided no address holds two services and the first lists none twice. So no
  service is added, removed or moved without being noticed.
\<close>

theorem config_equality_sound:
  assumes "Config_Equals (Ptr a cfg) (Ptr b c) = Inr True" and "a \<noteq> b"
    and "\<forall>p \<in> set (L7VS cfg) \<union> set (L4VS cfg). \<forall>q \<in> set (L7VS c) \<union> set (L4VS c). ptr_coherent p q"
    and "distinct (map vs_sig (L7VS cfg))" "distinct (map vs_sig (L4VS cfg))"
  shows "vs_sig ` set (L7VS cfg) = vs_sig ` set (L7VS c) \<and> length (L7VS cfg) = length (L7VS c) \<and>
    vs_sig ` set (L4VS cfg) = vs_sig ` set (L4VS c) \<and> length (L4VS cfg) = length (L4VS c)"
proof -
  have "vs_lists_eq (L7VS cfg) (L7VS c) = Inr True" "vs_lists_eq (L4VS cfg) (L4VS c) = Inr True"
    using assms(1,2) by (auto simp: bind_go_eq_Inr split: if_splits)
  then show ?thesis
    using assms(3-5) vs_lists_eq_sigs by blast
qed

section \<open>Witnesses\<close>

definition zero_gw_meta :: gw_meta where
  "zero_gw_meta = \<lparr>Index = 0, m_Name = [], m_Namespace = [], m_ServiceID = [], PluginName = []\<rparr>"

definition zero_vs :: virtual_service where
  "zero_vs = \<lparr>v_Meta = zero_gw_meta, Enabled = False, v_Protocol = [], BackendProtocol = [],
     v_Port = 0, Listening = [], v_Note = [], DefaultPoolName = [], RuleNames = [],
     SSLdecrypt = False, DefaultCertificateName = [], RequestLogEnable = False,
     RequestLogFileName = [], RequestLogFormat = [], v_ConnectTimeout = 0, Timeout = 0,
     ServerName = [], v_PoolName = [], SSlProtocols = [], SSLCert = Nil_ptr, Locations = [],
     v_ForceSSLRedirect = False, ExtensionConfig = [], TCPKeepaliveEnabled = False,
     TCPKeepaliveIdle = [], TCPKeepaliveIntvl = [], TCPKeepaliveCnt = [], ProxyStreamTimeout = [],
     ProxyStreamNextUpstreamTimeout = []\<rparr>"

definition sample_node :: "string \<Rightarrow> node" where
  "sample_node h = \<lparr>n_Meta = zero_gw_meta, Host = h, Port = 80, n_Protocol = [], State = [],
     n_PoolName = [], n_Ready = True, Weight = 1, MaxFails = 0, FailTimeout = []\<rparr>"

definition sample_pool :: "node ptr list \<Rightarrow> string \<Rightarrow> pool" where
  "sample_pool ns key = \<lparr>p_Meta = zero_gw_meta, p_ServiceID = [], ServiceVersion = [], ServicePort = 0,
     p_Note = [], NodeNumber = 0, LoadBalancingType = RoundRobin, UpstreamHashBy = key,
     LeastConn = False, Monitors = [], Nodes = ns\<rparr>"

lemma pool_equality_exact_witness:
  "Pool_Equals (Ptr 0 (sample_pool [Ptr 2 (sample_node ''a''), Ptr 3 (sample_node ''b'')] ''x''))
     (Ptr 1 (sample_pool [Ptr 4 (sample_node ''b''), Ptr 5 (sample_node ''a'')] ''y''))"
  by (subst pool_equality_exact) (auto simp: sample_pool_def sample_node_def Meta_eq_def)

lemma certificate_names_inverted_witness:
  "\<not> SSLCert_Equals
     (Ptr 0 \<lparr>s_Meta = Nil_ptr, CertificateStr = [], Certificate = None, PrivateKey = [],
        CertificatePem = [], CN = [''x.org''], ExpireTime = 0\<rparr>)
     (Ptr 1 \<lparr>s_Meta = Nil_ptr, CertificateStr = [], Certificate = None, PrivateKey = [],
        CertificatePem = [], CN = [''x.org''], ExpireTime = 0\<rparr>)"
  using certificate_names_inverted [of 0 1 "\<lparr>s_Meta = Nil_ptr, CertificateStr = [],
    Certificate = None, PrivateKey = [], CertificatePem = [], CN = [''x.org''], ExpireTime = 0\<rparr>" "''x.org''"]
  by simp

lemma config_equality_sound_witness:
  "vs_sig ` set (L7VS \<lparr>HTTPPools = [], TCPPools = [], L7VS = [Ptr 2 zero_vs], L4VS = []\<rparr>) =
   vs_sig ` set (L7VS \<lparr>HTTPPools = [], TCPPools = [], L7VS = [Ptr 3 zero_vs], L4VS = []\<rparr>)"
proof -
  have "Config_Equals (Ptr 0 \<lparr>HTTPPools = [], TCPPools = [], L7VS = [Ptr 2 zero_vs], L4VS = []\<rparr>)
      (Ptr 1 \<lparr>HTTPPools = [], TCPPools = [], L7VS = [Ptr 3 zero_vs], L4VS = []\<rparr>) = Inr True"
    by (simp add: vs_lists_eq_def VirtualService_eq_def Meta_eq_def vs_flat_eq_def all_matched_def
        SSLCert_Equals_def ext_eq_def zero_vs_def)
  from config_equality_sound [OF this] show ?thesis by simp
qed

end
