(* ===== verification/Gateway_Store.thy ===== *)
theory Gateway_Store
  imports Gateway_Model
begin

text \<open>
  The gateway's store (\<^verbatim>\<open>src/gateway/store/store.go\<close>): from the ingresses, services,
  endpoints and certificates in its informer caches it derives the virtual services
  (\<open>ListVirtualService\<close>) and the pools behind them (\<open>ListPool\<close>), and it keeps the
  certificates of the referenced secrets (\<open>syncSecret\<close>).

  The two ingress APIs have the same structure; a path of the networking API may lack a service, and
  a rule of either may lack its HTTP part, which the code dereferences. Locations are shared between
  the map by path and the virtual services, so they live in a heap (\<open>b_heap\<close>) and are named
  by their index; \<open>b_conds\<close> is the address of the next condition. The annotations of an ingress are the result of the parsers of
  \<open>Gateway_Annotations\<close>, put together by a merge library. The store has them as the parameter
  \<open>g_extract\<close>; \<open>Extract\<close> at the end of this theory is the function that the code passes for it.
\<close>

section \<open>Objects and environment\<close>

record ing_path =
  ip_path :: string
  ip_service :: "string option"

record ing_rule =
  r_host :: string
  r_http :: "ing_path list option"

record ing_backend =
  ib_service :: "string option"
  ib_port :: int

record ing_tls =
  tls_hosts :: "string list"
  tls_secret :: string

record ingress =
  i_beta :: bool
  i_meta :: object_meta
  i_default :: "ing_backend option"
  i_tls :: "ing_tls list"
  i_rules :: "ing_rule list"

record ing_anns =
  a_meta :: object_meta
  a_header :: "string gomap option"
  a_cookie :: "string gomap option"
  a_weight :: int
  a_rewrite :: rewrite_config
  a_l4 :: l4_config
  a_hash_by :: string
  a_lb_type :: string
  a_proxy :: proxy_config

record gw_endpoints =
  ge_meta :: object_meta
  ge_subsets :: "ep_subset list"

record listen_ports =
  lp_http :: int
  lp_https :: int
  lp_health :: int
  lp_status :: int

record gw_env =
  g_ingresses :: "ingress list"
  g_endpoints :: "gw_endpoints gomap"
  g_services :: "(int \<times> string) list gomap"
  g_ssl :: "ssl_cert ptr gomap"
  g_ports :: listen_ports
  g_extract :: "object_meta \<Rightarrow> ing_anns"
  g_backend :: Gateway_Annotations.backend
  g_parse_ip :: "string \<Rightarrow> bool"
  g_ip_here :: "string \<Rightarrow> bool"
  g_ssl_protocols :: string

definition DefVirSrvName :: string where
  "DefVirSrvName = ''_''"

definition BackendName :: "string \<Rightarrow> string \<Rightarrow> string" where
  "BackendName name ns =
     (let n0 = ns @ ''_'' @ name;
          n1 = replace_byte (CHR ''.'') ''_'' n0;
          n2 = replace_byte (CHR ''-'') ''_'' n1;
          n3 = replace_byte (CHR '':'') ''_'' n2;
          n4 = replace_byte (CHR ''/'') ''slash'' n3
      in replace_byte (CHR '' '') [] n4)"

section \<open>Which ingresses count\<close>

text \<open>
  The key of the endpoints: the default backend's, else the first path of the first rule that has
  one; a missing service or HTTP part panics.
\<close>

definition path_service :: "ing_path \<Rightarrow> string go" where
  "path_service p = deref (ip_service p)"

fun first_path :: "ing_rule list \<Rightarrow> ing_path option go" where
  "first_path [] = Inr None"
| "first_path (r # rs) = bind_go (deref (r_http r)) (\<lambda>ps. case ps of
       [] \<Rightarrow> first_path rs | p # _ \<Rightarrow> Inr (Some p))"

definition getEndpointKey :: "ingress \<Rightarrow> string go" where
  "getEndpointKey i = (case i_default i of
       Some b \<Rightarrow> bind_go (deref (ib_service b)) (\<lambda>svc. Inr (Namespace (i_meta i) @ ''/'' @ svc))
     | None \<Rightarrow> bind_go (first_path (i_rules i)) (\<lambda>mp. case mp of
         None \<Rightarrow> Inr []
       | Some p \<Rightarrow> bind_go (path_service p) (\<lambda>svc. Inr (Namespace (i_meta i) @ ''/'' @ svc))))"

definition hasReadyAddresses :: "gw_endpoints \<Rightarrow> bool" where
  "hasReadyAddresses e \<longleftrightarrow> (\<exists>ss \<in> set (ge_subsets e). 0 < length (Addresses ss))"

definition ingressIsValid :: "gw_env \<Rightarrow> ingress \<Rightarrow> bool go" where
  "ingressIsValid env i = bind_go (getEndpointKey i) (\<lambda>key.
     if key = [] then Inr False
     else case map_of (g_endpoints env) key of
       None \<Rightarrow> Inr False
     | Some e \<Rightarrow> (if length (ge_subsets e) = 0 then Inr False
                  else if \<not> hasReadyAddresses e then Inr False
                  else Inr True))"

definition GetServiceProtocol :: "gw_env \<Rightarrow> string \<Rightarrow> int \<Rightarrow> string" where
  "GetServiceProtocol env key port = (case map_of (g_services env) key of
       None \<Rightarrow> ''TCP''
     | Some ports \<Rightarrow> (case find (\<lambda>p. fst p = port) ports of Some p \<Rightarrow> snd p | None \<Rightarrow> ''TCP''))"

section \<open>The state of the two passes\<close>

record backend_ref =
  bk_name :: string
  bk_weight :: int
  bk_hashBy :: string
  bk_lbType :: string

record vs_cell =
  vs_obj :: virtual_service
  vs_locs :: "nat list"

text \<open>
  \<open>b_l7\<close> is the slice of virtual services together with the map from names to them: every
  service is entered into both at once. \<open>b_pool7\<close> and \<open>b_pool4\<close> are the global maps of
  services that have a pool; they are never emptied.
\<close>

record gw_build =
  b_heap :: "location list"
  b_conds :: nat
  b_srvLoc :: "nat gomap"
  b_l7 :: "vs_cell gomap"
  b_l4map :: "virtual_service gomap"
  b_l4 :: "virtual_service list"
  b_back7 :: "backend_ref list gomap"
  b_back4 :: "backend_ref list gomap"
  b_pool7 :: "string list"
  b_pool4 :: "string list"

definition start_build :: "nat \<Rightarrow> string list \<Rightarrow> string list \<Rightarrow> gw_build" where
  "start_build base p7 p4 = \<lparr>b_heap = [], b_conds = base, b_srvLoc = [], b_l7 = [], b_l4map = [], b_l4 = [], b_back7 = [],
     b_back4 = [], b_pool7 = p7, b_pool4 = p4\<rparr>"

section \<open>Layer 4\<close>

definition l4_listening :: "string \<Rightarrow> int \<Rightarrow> string \<Rightarrow> string" where
  "l4_listening host port protocol =
     (let l = host @ '':'' @ go_itoa port in if protocol = ''UDP'' then l @ '' '' @ ''udp'' else l)"

text \<open>
  The loop over the conflicting keys only logs: its \<^verbatim>\<open>continue\<close> goes on with the next key.
\<close>

definition conflict_loop :: "gw_build \<Rightarrow> string list \<Rightarrow> gw_build" where
  "conflict_loop b keys = foldl (\<lambda>b key. case map_of (b_l4map b) key of Some vs \<Rightarrow> b | None \<Rightarrow> b) b keys"

definition l4_vs :: "ing_anns \<Rightarrow> string \<Rightarrow> string \<Rightarrow> string \<Rightarrow> virtual_service" where
  "l4_vs anns listening backendName protocol =
     zero_vs\<lparr>v_Meta := zero_gw_meta\<lparr>m_Namespace := Namespace (a_meta anns),
         m_ServiceID := gm_str (Labels (a_meta anns)) ''service_id''\<rparr>,
       Listening := [listening], v_PoolName := backendName, v_Protocol := protocol,
       TCPKeepaliveEnabled := KeepaliveEnabled (a_l4 anns),
       TCPKeepaliveIdle := KeepaliveIdle (a_l4 anns),
       TCPKeepaliveIntvl := KeepaliveIntvl (a_l4 anns),
       TCPKeepaliveCnt := KeepaliveCnt (a_l4 anns),
       ProxyStreamTimeout := l4_ProxyStreamTimeout (a_l4 anns),
       ProxyStreamNextUpstreamTimeout := l4_ProxyStreamNextUpstreamTimeout (a_l4 anns)\<rparr>"

definition l4_region :: "gw_env \<Rightarrow> ingress \<Rightarrow> string \<Rightarrow> ing_anns \<Rightarrow> gw_build \<Rightarrow> gw_build go" where
  "l4_region env i svcName anns b =
     (let h = replace_byte (CHR '' '') [] (L4Host (a_l4 anns));
          all = (h = [] \<or> h = ''0.0.0.0'');
          host = (if all then ''0.0.0.0'' else h);
          port = L4Port (a_l4 anns)
      in if \<not> all \<and> \<not> g_parse_ip env host then Inr b
         else if \<not> all \<and> \<not> g_ip_here env host then Inr b
         else bind_go (deref (i_default i)) (\<lambda>d. bind_go (deref (ib_service d)) (\<lambda>svc.
           let protocol = GetServiceProtocol env (Namespace (i_meta i) @ ''/'' @ svc) (ib_port d);
               listening = l4_listening host port protocol
           in if port = lp_http (g_ports env) \<or> port = lp_https (g_ports env) \<or>
                 port = lp_health (g_ports env) \<or> port = lp_status (g_ports env)
              then Inr b
              else let b1 = conflict_loop b [listening, replace_first host ''0.0.0.0'' listening];
                       backendName = BackendName listening (Namespace (i_meta i));
                       vs = l4_vs anns listening backendName protocol
                   in Inr (b1\<lparr>b_pool4 := List.insert svcName (b_pool4 b1),
                             b_l4map := AList.update listening vs (b_l4map b1),
                             b_l4 := b_l4 b1 @ [vs],
                             b_back4 := gm_append svcName
                               \<lparr>bk_name = backendName, bk_weight = a_weight anns, bk_hashBy = [], bk_lbType = []\<rparr>
                               (b_back4 b1)\<rparr>))))"

section \<open>Layer 7\<close>

text \<open>The map from hosts to certificates; the first certificate found is the default one.\<close>

definition tls_step :: "gw_env \<Rightarrow> string \<Rightarrow> ssl_cert ptr gomap \<Rightarrow> ing_tls \<Rightarrow> ssl_cert ptr gomap" where
  "tls_step env ns m tls = (case map_of (g_ssl env) (ns @ ''/'' @ tls_secret tls) of
       None \<Rightarrow> m
     | Some cert \<Rightarrow>
         (let m1 = foldl (\<lambda>m host. AList.update host cert m) m (tls_hosts tls)
          in if map_of m1 DefVirSrvName = None then AList.update DefVirSrvName cert m1 else m1))"

definition hostSSLMap :: "gw_env \<Rightarrow> ingress \<Rightarrow> ssl_cert ptr gomap" where
  "hostSSLMap env i = foldl (tls_step env (Namespace (i_meta i))) [] (i_tls i)"

definition get_cert :: "ssl_cert ptr gomap \<Rightarrow> string \<Rightarrow> ssl_cert ptr" where
  "get_cert m k = (case map_of m k of None \<Rightarrow> Nil_ptr | Some c \<Rightarrow> c)"

definition vir_srv_name :: "ssl_cert ptr gomap \<Rightarrow> ing_rule \<Rightarrow> string" where
  "vir_srv_name ssl r =
     (let n = replace_byte (CHR '' '') [] (r_host r);
          n1 = (if n = [] then DefVirSrvName else n)
      in if length ssl \<noteq> 0 then ''tls'' @ n1 else n1)"

definition new_l7_vs ::
  "gw_env \<Rightarrow> ingress \<Rightarrow> ing_anns \<Rightarrow> ssl_cert ptr gomap \<Rightarrow> string \<Rightarrow> virtual_service" where
  "new_l7_vs env i anns ssl name =
     zero_vs\<lparr>ServerName := name,
       SSlProtocols := (if g_ssl_protocols env \<noteq> [] then g_ssl_protocols env else ''TLSv1.2 TLSv1.3''),
       v_Meta := zero_gw_meta\<lparr>m_Namespace := Namespace (i_meta i),
         m_ServiceID := gm_str (Labels (a_meta anns)) ''service_id''\<rparr>,
       Listening := (if length ssl \<noteq> 0 then [go_itoa (lp_https (g_ports env)), ''ssl'']
                     else [go_itoa (lp_http (g_ports env))]),
       SSLCert := (if length ssl \<noteq> 0
                   then (if get_cert ssl name \<noteq> Nil_ptr then get_cert ssl name
                         else get_cert ssl DefVirSrvName)
                   else Nil_ptr)\<rparr>"

definition zero_rewrite :: rewrite_config where
  "zero_rewrite = \<lparr>Rewrites = [], Target = [], SSLRedirect = False, ForceSSLRedirect = False,
     AppRoot = [], UseRegex = False\<rparr>"

definition new_location :: "gw_env \<Rightarrow> ingress \<Rightarrow> ing_anns \<Rightarrow> string \<Rightarrow> location" where
  "new_location env i anns path =
     \<lparr>Path = path, NameCondition = [],
      l_Rewrite = zero_rewrite\<lparr>Rewrites := Rewrites (rewrite_Parse (g_backend env) (i_meta i))\<rparr>,
      l_Proxy = a_proxy anns, DisableProxyPass = False,
      PathRewrite = or_else False (GetBoolAnnotation ''path-rewrite'' (i_meta i))\<rparr>"

definition type_string :: "condition_type \<Rightarrow> string" where
  "type_string t = (case t of HeaderType \<Rightarrow> ''header'' | CookieType \<Rightarrow> ''cookie'' | DefaultType \<Rightarrow> ''default'')"

definition name_condition :: "ing_anns \<Rightarrow> condition" where
  "name_condition anns = (case a_header anns of
       Some h \<Rightarrow> \<lparr>c_Type = HeaderType, c_Value = h\<rparr>
     | None \<Rightarrow> (case a_cookie anns of
         Some c \<Rightarrow> \<lparr>c_Type = CookieType, c_Value = c\<rparr>
       | None \<Rightarrow> \<lparr>c_Type = DefaultType, c_Value = [(''1'', ''1'')]\<rparr>))"

definition loc_key :: "string \<Rightarrow> string \<Rightarrow> string" where
  "loc_key name path = name @ ''_'' @ path"

definition l7_backend_name :: "ingress \<Rightarrow> ing_anns \<Rightarrow> string \<Rightarrow> string \<Rightarrow> string" where
  "l7_backend_name i anns name path =
     BackendName (loc_key name path @ ''_'' @ type_string (c_Type (name_condition anns)))
       (Namespace (i_meta i))"

text \<open>One path of a rule: find or create its location, then register the backend.\<close>

definition path_step ::
  "gw_env \<Rightarrow> ingress \<Rightarrow> ing_anns \<Rightarrow> string \<Rightarrow> gw_build \<Rightarrow> ing_path \<Rightarrow> gw_build go" where
  "path_step env i anns name b p = bind_go (path_service p) (\<lambda>svc.
     let key = loc_key name (ip_path p);
         (ix, b1) = (case map_of (b_srvLoc b) key of
             Some ix \<Rightarrow> (ix, b)
           | None \<Rightarrow>
               (let ix = length (b_heap b);
                    cell = the (map_of (b_l7 b) name)
                in (ix, b\<lparr>b_heap := b_heap b @ [new_location env i anns (ip_path p)],
                          b_srvLoc := AList.update key ix (b_srvLoc b),
                          b_l7 := AList.update name (cell\<lparr>vs_locs := vs_locs cell @ [ix]\<rparr>) (b_l7 b)\<rparr>)));
         backendName = l7_backend_name i anns name (ip_path p);
         loc = b_heap b1 ! ix;
         loc' = loc\<lparr>NameCondition := AList.update backendName (Ptr (b_conds b1) (name_condition anns)) (NameCondition loc)\<rparr>
     in Inr (b1\<lparr>b_heap := (b_heap b1)[ix := loc'], b_conds := Suc (b_conds b1),
                b_pool7 := List.insert svc (b_pool7 b1),
                b_back7 := gm_append svc \<lparr>bk_name = backendName, bk_weight = a_weight anns,
                    bk_hashBy = a_hash_by anns, bk_lbType = a_lb_type anns\<rparr> (b_back7 b1)\<rparr>))"

definition rule_step ::
  "gw_env \<Rightarrow> ingress \<Rightarrow> ing_anns \<Rightarrow> ssl_cert ptr gomap \<Rightarrow> gw_build \<Rightarrow> ing_rule \<Rightarrow> gw_build go" where
  "rule_step env i anns ssl b r =
     (let name = vir_srv_name ssl r;
          b1 = (case map_of (b_l7 b) name of
              Some cell \<Rightarrow> b
            | None \<Rightarrow> b\<lparr>b_l7 := AList.update name
                \<lparr>vs_obj = new_l7_vs env i anns ssl name, vs_locs = []\<rparr> (b_l7 b)\<rparr>)
      in bind_go (deref (r_http r)) (\<lambda>paths. for_go (path_step env i anns name) b1 paths))"

definition l7_region :: "gw_env \<Rightarrow> ingress \<Rightarrow> ing_anns \<Rightarrow> gw_build \<Rightarrow> gw_build go" where
  "l7_region env i anns b = for_go (rule_step env i anns (hostSSLMap env i)) b (i_rules i)"

section \<open>The two passes\<close>

text \<open>The service an ingress is for; \<open>None\<close> when its first rule has no path.\<close>

definition ing_service :: "ingress \<Rightarrow> string option go" where
  "ing_service i = (case (i_default i, i_rules i) of
       (None, r # _) \<Rightarrow> bind_go (deref (r_http r)) (\<lambda>ps. case ps of
           [] \<Rightarrow> Inr None
         | p # _ \<Rightarrow> bind_go (path_service p) (\<lambda>svc. Inr (Some svc)))
     | (d, _) \<Rightarrow> bind_go (deref d) (\<lambda>b. bind_go (deref (ib_service b)) (\<lambda>svc. Inr (Some svc))))"

definition l4_wanted :: "ing_anns \<Rightarrow> bool" where
  "l4_wanted anns \<longleftrightarrow> L4Enable (a_l4 anns) \<and> L4Port (a_l4 anns) \<noteq> 0"

definition first_pass_step :: "gw_env \<Rightarrow> gw_build \<Rightarrow> ingress \<Rightarrow> gw_build go" where
  "first_pass_step env b i = bind_go (ingressIsValid env i) (\<lambda>valid.
     if \<not> valid then Inr b
     else bind_go (ing_service i) (\<lambda>ms. case ms of
       None \<Rightarrow> Inr b
     | Some svcName \<Rightarrow>
         (let anns = g_extract env (i_meta i)
          in if l4_wanted anns then l4_region env i svcName anns b
             else l7_region env i anns b)))"

definition redirect_location :: "ing_anns \<Rightarrow> string \<Rightarrow> location" where
  "redirect_location anns path =
     \<lparr>Path = path, NameCondition = [],
      l_Rewrite = zero_rewrite\<lparr>Rewrites := [\<lparr>Regex = ''^'',
        Replacement = ''https://$http_host$request_uri?'', Flag = ''permanent''\<rparr>]\<rparr>,
      l_Proxy = a_proxy anns, DisableProxyPass = True, PathRewrite = False\<rparr>"

definition redirect_path_step :: "ing_anns \<Rightarrow> string \<Rightarrow> gw_build \<Rightarrow> ing_path \<Rightarrow> gw_build" where
  "redirect_path_step anns name b p = (case map_of (b_srvLoc b) (loc_key name (ip_path p)) of
       Some ix \<Rightarrow> b
     | None \<Rightarrow>
         (let ix = length (b_heap b); cell = the (map_of (b_l7 b) name)
          in b\<lparr>b_heap := b_heap b @ [redirect_location anns (ip_path p)],
               b_l7 := AList.update name (cell\<lparr>vs_locs := vs_locs cell @ [ix]\<rparr>) (b_l7 b)\<rparr>))"

definition redirect_rule_step :: "gw_env \<Rightarrow> ing_anns \<Rightarrow> gw_build \<Rightarrow> ing_rule \<Rightarrow> gw_build go" where
  "redirect_rule_step env anns b r =
     (let name = trim_space (r_host r);
          b1 = (case map_of (b_l7 b) name of
              Some cell \<Rightarrow> b
            | None \<Rightarrow> b\<lparr>b_l7 := AList.update name
                \<lparr>vs_obj = zero_vs\<lparr>Listening := [go_itoa (lp_http (g_ports env))], ServerName := name\<rparr>,
                 vs_locs = []\<rparr> (b_l7 b)\<rparr>)
      in bind_go (deref (r_http r)) (\<lambda>paths. Inr (foldl (redirect_path_step anns name) b1 paths)))"

definition second_pass_step :: "gw_env \<Rightarrow> gw_build \<Rightarrow> ingress \<Rightarrow> gw_build go" where
  "second_pass_step env b i = bind_go (ingressIsValid env i) (\<lambda>valid.
     if \<not> valid then Inr b
     else let anns = g_extract env (i_meta i)
          in if \<not> ForceSSLRedirect (a_rewrite anns) then Inr b
             else if l4_wanted anns then Inr b
             else for_go (redirect_rule_step env anns) b (i_rules i))"

definition build_gateway :: "gw_env \<Rightarrow> nat \<Rightarrow> string list \<Rightarrow> string list \<Rightarrow> gw_build go" where
  "build_gateway env base p7 p4 =
     bind_go (for_go (first_pass_step env) (start_build base p7 p4) (g_ingresses env)) (\<lambda>b.
       for_go (second_pass_step env) b (g_ingresses env))"

text \<open>
  \<open>base\<close> is the first free address: every call allocates its own locations and conditions.
\<close>

definition finish_cell :: "nat \<Rightarrow> location list \<Rightarrow> vs_cell \<Rightarrow> virtual_service" where
  "finish_cell base heap c =
     (vs_obj c)\<lparr>Locations := map (\<lambda>ix. Ptr (base + ix) (heap ! ix)) (vs_locs c)\<rparr>"

definition ListVirtualService ::
  "gw_env \<Rightarrow> nat \<Rightarrow> string list \<Rightarrow> string list \<Rightarrow>
     (virtual_service list \<times> virtual_service list \<times> gw_build) go" where
  "ListVirtualService env base p7 p4 = bind_go (build_gateway env base p7 p4) (\<lambda>b.
     Inr (map (finish_cell base (b_heap b) \<circ> snd) (b_l7 b), b_l4 b, b))"

section \<open>Pools\<close>

text \<open>
  The pools are built from the endpoints and the backends registered by the virtual services.
  New nodes are allocated at increasing addresses (\<open>pb_next\<close>), those of the two layers from
  different bases. Endpoints without subsets are
  nil slices and are skipped.
\<close>

record pool_build =
  pb_pools :: "pool gomap"
  pb_next :: nat

definition zero_pool :: pool where
  "zero_pool = \<lparr>p_Meta = zero_gw_meta, p_ServiceID = [], ServiceVersion = [], ServicePort = 0,
     p_Note = [], NodeNumber = 0, LoadBalancingType = RoundRobin, UpstreamHashBy = [],
     LeastConn = False, Monitors = [], Nodes = []\<rparr>"

definition new_l7_pool :: "backend_ref \<Rightarrow> pool" where
  "new_l7_pool bk = zero_pool\<lparr>p_Meta := zero_gw_meta\<lparr>m_Name := bk_name bk, m_Namespace := ''default''\<rparr>,
     UpstreamHashBy := bk_hashBy bk, LoadBalancingType := GetLoadBalancingType (bk_lbType bk)\<rparr>"

definition new_l4_pool :: "backend_ref \<Rightarrow> pool" where
  "new_l4_pool bk = zero_pool\<lparr>p_Meta := zero_gw_meta\<lparr>m_Name := bk_name bk, m_Namespace := ''default''\<rparr>\<rparr>"

definition mk_node :: "string \<Rightarrow> int \<Rightarrow> int \<Rightarrow> node" where
  "mk_node ip port weight = \<lparr>n_Meta = zero_gw_meta, Host = ip, Port = port, n_Protocol = [], State = [],
     n_PoolName = [], n_Ready = False, Weight = weight, MaxFails = 0, FailTimeout = []\<rparr>"

definition subset_nodes :: "backend_ref \<Rightarrow> ep_subset \<Rightarrow> node list" where
  "subset_nodes bk ss = concat (map (\<lambda>port. map (\<lambda>ip. mk_node ip port (bk_weight bk)) (Addresses ss)) (Ports ss))"

definition endpoint_nodes :: "string list \<Rightarrow> gw_endpoints \<Rightarrow> backend_ref \<Rightarrow> node list" where
  "endpoint_nodes poolMap ep bk =
     (if Name (ge_meta ep) \<in> set poolMap then concat (map (subset_nodes bk) (ge_subsets ep)) else [])"

definition pool_backend_step ::
  "(backend_ref \<Rightarrow> pool) \<Rightarrow> string list \<Rightarrow> gw_endpoints \<Rightarrow> pool_build \<Rightarrow> backend_ref \<Rightarrow> pool_build" where
  "pool_backend_step new poolMap ep s bk =
     (let pool = (case map_of (pb_pools s) (bk_name bk) of Some p \<Rightarrow> p | None \<Rightarrow> new bk);
          ns = endpoint_nodes poolMap ep bk;
          ptrs = map (\<lambda>(i, n). Ptr (pb_next s + i) n) (enumerate 0 ns)
      in s\<lparr>pb_pools := AList.update (bk_name bk) (pool\<lparr>Nodes := Nodes pool @ ptrs\<rparr>) (pb_pools s),
           pb_next := pb_next s + length ns\<rparr>)"

definition backends_of :: "backend_ref list gomap \<Rightarrow> gw_endpoints \<Rightarrow> backend_ref list" where
  "backends_of back ep = (if length (ge_subsets ep) = 0 then []
     else case map_of back (Name (ge_meta ep)) of None \<Rightarrow> [] | Some bs \<Rightarrow> bs)"

definition pool_endpoint_step ::
  "gw_build \<Rightarrow> pool_build \<times> pool_build \<Rightarrow> gw_endpoints \<Rightarrow> pool_build \<times> pool_build" where
  "pool_endpoint_step b s ep =
     (foldl (pool_backend_step new_l7_pool (b_pool7 b) ep) (fst s) (backends_of (b_back7 b) ep),
      foldl (pool_backend_step new_l4_pool (b_pool4 b) ep) (snd s) (backends_of (b_back4 b) ep))"

definition ListPool :: "gw_env \<Rightarrow> gw_build \<Rightarrow> nat \<Rightarrow> nat \<Rightarrow> pool list \<times> pool list" where
  "ListPool env b base7 base4 =
     (let s7 = \<lparr>pb_pools = [], pb_next = base7\<rparr>;
          s4 = \<lparr>pb_pools = [], pb_next = base4\<rparr>;
          (s7, s4) = foldl (pool_endpoint_step b) (s7, s4) (map snd (g_endpoints env))
      in (map snd (pb_pools s7), map snd (pb_pools s4)))"

section \<open>Certificates of secrets\<close>

text \<open>
  \<open>cert_of\<close> stands for reading a secret and parsing its certificate; every call allocates a new
  certificate. \<open>si_map\<close> is the map from ingress keys to secret keys.
\<close>

record ssl_state =
  si_map :: "string list gomap"
  ssl_store :: "ssl_cert ptr gomap"

definition meta_key :: "object_meta \<Rightarrow> string" where
  "meta_key m = (if Namespace m = [] then Name m else Namespace m @ ''/'' @ Name m)"

definition secretIngressMap_update :: "ingress \<Rightarrow> ssl_state \<Rightarrow> ssl_state" where
  "secretIngressMap_update i st =
     st\<lparr>si_map := foldl (\<lambda>m tls. gm_append (meta_key (i_meta i))
          (Namespace (i_meta i) @ ''/'' @ tls_secret tls) m) (si_map st) (i_tls i)\<rparr>"

definition getSecretKeys :: "string \<Rightarrow> ssl_state \<Rightarrow> string list" where
  "getSecretKeys key st = (case map_of (si_map st) key of None \<Rightarrow> [] | Some ks \<Rightarrow> ks)"

definition syncSecret :: "(string \<Rightarrow> ssl_cert ptr option) \<Rightarrow> string \<Rightarrow> ssl_state \<Rightarrow> ssl_state" where
  "syncSecret cert_of key st = (case cert_of key of
       None \<Rightarrow> st
     | Some cert \<Rightarrow> (case map_of (ssl_store st) key of
         Some old \<Rightarrow> (if SSLCert_Equals cert old then st
                      else st\<lparr>ssl_store := AList.update key cert (AList.delete key (ssl_store st))\<rparr>)
       | None \<Rightarrow> st\<lparr>ssl_store := AList.update key cert (ssl_store st)\<rparr>))"

definition syncSecrets :: "(string \<Rightarrow> ssl_cert ptr option) \<Rightarrow> ingress \<Rightarrow> ssl_state \<Rightarrow> ssl_state" where
  "syncSecrets cert_of i st =
     foldl (\<lambda>st key. syncSecret cert_of key st) st (getSecretKeys (meta_key (i_meta i)) st)"

text \<open>
  The handler for an added or changed secret: it looks the secret's key up in the map from
  ingress keys.
\<close>

definition secret_event ::
  "(string \<Rightarrow> ssl_cert ptr option) \<Rightarrow> (string \<Rightarrow> ingress option) \<Rightarrow> object_meta \<Rightarrow> ssl_state \<Rightarrow> ssl_state" where
  "secret_event cert_of ingress_of sec st =
     (let ings = getSecretKeys (meta_key sec) st
      in if 0 < length ings
         then foldl (\<lambda>st ingKey. case ingress_of ingKey of None \<Rightarrow> st | Some i \<Rightarrow> syncSecrets cert_of i st) st ings
         else st)"

definition secret_deleted :: "object_meta \<Rightarrow> ssl_state \<Rightarrow> ssl_state" where
  "secret_deleted sec st = st\<lparr>ssl_store := AList.delete (meta_key sec) (ssl_store st)\<rparr>"

definition ingress_event :: "(string \<Rightarrow> ssl_cert ptr option) \<Rightarrow> ingress \<Rightarrow> ssl_state \<Rightarrow> ssl_state" where
  "ingress_event cert_of i st = syncSecrets cert_of i (secretIngressMap_update i st)"

section \<open>Extracting the annotations\<close>

text \<open>
  \<^verbatim>\<open>Extract\<close>: the results of the parsers by their names. A parser that reports an error leaves no entry: the
  only errors that would be kept are denied locations, which no parser reports. The results go into the zero
  annotations by \<^verbatim>\<open>mergo.Map\<close>, the parameter \<open>merge\<close>.
\<close>

record extracted =
  x_Header :: "string gomap option option"
  x_Cookie :: "string gomap option option"
  x_Weight :: "int option"
  x_Rewrite :: "rewrite_config option"
  x_L4 :: "l4_config option"
  x_UpstreamHashBy :: "string option"
  x_LoadBalancingType :: "string option"
  x_Proxy :: "proxy_config option"

definition kept_result :: "ann_error + 'a \<Rightarrow> 'a option" where
  "kept_result r = (case r of Inl _ \<Rightarrow> None | Inr x \<Rightarrow> Some x)"

definition zero_l4 :: l4_config where
  "zero_l4 = \<lparr>L4Enable = False, L4Host = [], L4Port = 0, KeepaliveEnabled = False, KeepaliveIdle = [], KeepaliveIntvl = [],
     KeepaliveCnt = [], l4_ProxyStreamTimeout = [], l4_ProxyStreamNextUpstreamTimeout = []\<rparr>"

definition zero_proxy :: proxy_config where
  "zero_proxy = \<lparr>BodySize = 0, ConnectTimeout = 0, SendTimeout = 0, ReadTimeout = 0, BuffersNumber = 0, BufferSize = [],
     CookieDomain = [], CookiePath = [], NextUpstream = [], NextUpstreamTimeout = 0, NextUpstreamTries = 0, px_ProxyRedirectFrom = [],
     px_ProxyRedirectTo = [], RequestBuffering = [], px_ProxyBuffering = [], AccessLog = False, SetHeaders = []\<rparr>"

definition zero_anns :: "object_meta \<Rightarrow> ing_anns" where
  "zero_anns meta = \<lparr>a_meta = meta, a_header = None, a_cookie = None, a_weight = 0, a_rewrite = zero_rewrite, a_l4 = zero_l4,
     a_hash_by = [], a_lb_type = [], a_proxy = zero_proxy\<rparr>"

definition Extract :: "(ing_anns \<Rightarrow> extracted \<Rightarrow> ing_anns) \<Rightarrow> Gateway_Annotations.backend \<Rightarrow> object_meta \<Rightarrow> ing_anns" where
  "Extract merge d meta = merge (zero_anns meta)
     \<lparr>x_Header = kept_result (header_Parse meta), x_Cookie = kept_result (cookie_Parse meta), x_Weight = Some (weight_Parse meta),
      x_Rewrite = Some (rewrite_Parse d meta), x_L4 = kept_result (l4_Parse meta), x_UpstreamHashBy = kept_result (upstreamhashby_Parse meta),
      x_LoadBalancingType = kept_result (lbtype_Parse meta), x_Proxy = Some (proxy_Parse d meta)\<rparr>"

text \<open>What the merge library promises: a zero field takes the value under its name and stays zero without one.\<close>

definition filled :: "'a option \<Rightarrow> 'a \<Rightarrow> 'a" where
  "filled x z = (case x of None \<Rightarrow> z | Some y \<Rightarrow> y)"

definition maps_fields :: "(ing_anns \<Rightarrow> extracted \<Rightarrow> ing_anns) \<Rightarrow> bool" where
  "maps_fields merge \<longleftrightarrow> (\<forall>meta x. merge (zero_anns meta) x =
     \<lparr>a_meta = meta, a_header = filled (x_Header x) None, a_cookie = filled (x_Cookie x) None, a_weight = filled (x_Weight x) 0,
      a_rewrite = filled (x_Rewrite x) zero_rewrite, a_l4 = filled (x_L4 x) zero_l4, a_hash_by = filled (x_UpstreamHashBy x) [],
      a_lb_type = filled (x_LoadBalancingType x) [], a_proxy = filled (x_Proxy x) zero_proxy\<rparr>)"

text \<open>
  With such a merge the extracted annotations are what the parsers read: the weight is always that of the weight parser, and
  layer 4 is off when its settings are malformed.
\<close>

theorem Extract_reads:
  assumes "maps_fields merge"
  shows "a_weight (Extract merge d meta) = weight_Parse meta \<and> a_proxy (Extract merge d meta) = proxy_Parse d meta \<and>
    a_rewrite (Extract merge d meta) = rewrite_Parse d meta \<and>
    (case l4_Parse meta of Inl _ \<Rightarrow> \<not> L4Enable (a_l4 (Extract merge d meta)) | Inr c \<Rightarrow> a_l4 (Extract merge d meta) = c)"
  using assms by (simp add: maps_fields_def Extract_def filled_def kept_result_def zero_l4_def split: sum.splits)

end
