(* ===== verification/Gateway_Routing.thy ===== *)
theory Gateway_Routing
  imports Gateway_Store
begin

text \<open>
  What the gateway's store derives: every path of every served ingress is routed to a pool with the
  ready addresses of its service, server names are unique, and well-formed ingresses never make the
  derivation panic. The state of the two passes only grows (\<open>grows\<close>), which the loops inherit from
  the contract \<open>growing_state\<close>. The last section has the defects of the derivation.
\<close>

section \<open>What the passes keep\<close>

lemma map_of_update_other: "k' \<noteq> k \<Longrightarrow> map_of (AList.update k v m) k' = map_of m k'"
  by (simp add: update_conv')

lemma map_of_update_same [simp]: "map_of (AList.update k v m) k = Some v"
  by (simp add: update_conv')

text \<open>
  A name without a slash and a path that is empty or starts with one can be read off the key of
  their location.
\<close>

definition slash_path :: "string \<Rightarrow> bool" where
  "slash_path p \<longleftrightarrow> p = [] \<or> hd p = CHR ''/''"

lemma loc_key_inj:
  assumes "loc_key n p = loc_key m q" "CHR ''/'' \<notin> set n" "CHR ''/'' \<notin> set m"
    and "slash_path p" "slash_path q"
  shows "n = m \<and> p = q"
proof -
  have tw: "takeWhile (\<lambda>c. c \<noteq> CHR ''/'') (loc_key k r) = k @ ''_''"
    if "CHR ''/'' \<notin> set k" "slash_path r" for k r
  proof -
    have "takeWhile (\<lambda>c. c \<noteq> CHR ''/'') r = []"
      using that(2) by (cases r) (auto simp: slash_path_def)
    moreover have "takeWhile (\<lambda>c. c \<noteq> CHR ''/'') ((k @ ''_'') @ r)
        = (k @ ''_'') @ takeWhile (\<lambda>c. c \<noteq> CHR ''/'') r"
      by (rule takeWhile_append2) (use that(1) in auto)
    ultimately show ?thesis
      by (simp add: loc_key_def)
  qed
  have "n @ ''_'' = m @ ''_''"
    using assms tw by metis
  with assms(1) show ?thesis
    by (simp add: loc_key_def)
qed

text \<open>
  \<open>loc_at\<close>: a virtual service has a location for a path. \<open>gw_inv\<close> is the invariant of the two
  passes; \<open>grows\<close> says that a later state keeps what an earlier one has.
\<close>

definition loc_at :: "gw_build \<Rightarrow> string \<Rightarrow> string \<Rightarrow> nat \<Rightarrow> bool" where
  "loc_at b n p ix \<longleftrightarrow> (\<exists>cell. map_of (b_l7 b) n = Some cell \<and> ix \<in> set (vs_locs cell)) \<and>
     ix < length (b_heap b) \<and> Path (b_heap b ! ix) = p"

definition cell_ok :: "gw_build \<Rightarrow> string \<Rightarrow> vs_cell \<Rightarrow> bool" where
  "cell_ok b n cell \<longleftrightarrow> ServerName (vs_obj cell) = n \<and> (\<forall>ix \<in> set (vs_locs cell). ix < length (b_heap b))"

definition gw_inv :: "gw_build \<Rightarrow> bool" where
  "gw_inv b \<longleftrightarrow> gm_wf (b_l7 b) \<and> (\<forall>n cell. map_of (b_l7 b) n = Some cell \<longrightarrow> cell_ok b n cell) \<and>
     (\<forall>k ix. map_of (b_srvLoc b) k = Some ix \<longrightarrow>
        (\<exists>n p. k = loc_key n p \<and> CHR ''/'' \<notin> set n \<and> slash_path p \<and> loc_at b n p ix))"

definition heap_grows :: "location list \<Rightarrow> location list \<Rightarrow> bool" where
  "heap_grows h h' \<longleftrightarrow> length h \<le> length h' \<and> (\<forall>ix < length h. Path (h' ! ix) = Path (h ! ix) \<and>
     dom (map_of (NameCondition (h ! ix))) \<subseteq> dom (map_of (NameCondition (h' ! ix))))"

definition l7_grows :: "vs_cell gomap \<Rightarrow> vs_cell gomap \<Rightarrow> bool" where
  "l7_grows m m' \<longleftrightarrow> (\<forall>n cell. map_of m n = Some cell \<longrightarrow>
     (\<exists>cell'. map_of m' n = Some cell' \<and> vs_obj cell' = vs_obj cell \<and> set (vs_locs cell) \<subseteq> set (vs_locs cell')))"

definition back_grows :: "backend_ref list gomap \<Rightarrow> backend_ref list gomap \<Rightarrow> bool" where
  "back_grows m m' \<longleftrightarrow> (\<forall>s bs. map_of m s = Some bs \<longrightarrow> (\<exists>bs'. map_of m' s = Some (bs @ bs')))"

definition grows :: "gw_build \<Rightarrow> gw_build \<Rightarrow> bool" where
  "grows b b' \<longleftrightarrow> heap_grows (b_heap b) (b_heap b') \<and> map_of (b_srvLoc b) \<subseteq>\<^sub>m map_of (b_srvLoc b') \<and>
     l7_grows (b_l7 b) (b_l7 b') \<and> back_grows (b_back7 b) (b_back7 b') \<and>
     back_grows (b_back4 b) (b_back4 b') \<and> (\<exists>vs. b_l4 b' = b_l4 b @ vs) \<and>
     set (b_pool7 b) \<subseteq> set (b_pool7 b') \<and> set (b_pool4 b) \<subseteq> set (b_pool4 b')"

lemma heap_grows_refl [simp]: "heap_grows h h"
  by (simp add: heap_grows_def)

lemma l7_grows_refl [simp]: "l7_grows m m"
  by (simp add: l7_grows_def)

lemma back_grows_refl [simp]: "back_grows m m"
  by (simp add: back_grows_def)

lemma heap_grows_trans: "heap_grows a b \<Longrightarrow> heap_grows b c \<Longrightarrow> heap_grows a c"
  unfolding heap_grows_def by (auto simp: subset_iff)

lemma l7_grows_trans:
  assumes "l7_grows a b" "l7_grows b c"
  shows "l7_grows a c"
  unfolding l7_grows_def
proof (intro allI impI)
  fix n cell
  assume "map_of a n = Some cell"
  then obtain cb where cb: "map_of b n = Some cb" "vs_obj cb = vs_obj cell" "set (vs_locs cell) \<subseteq> set (vs_locs cb)"
    using assms(1) unfolding l7_grows_def by blast
  then obtain cc where "map_of c n = Some cc" "vs_obj cc = vs_obj cb" "set (vs_locs cb) \<subseteq> set (vs_locs cc)"
    using assms(2) unfolding l7_grows_def by blast
  with cb show "\<exists>cell'. map_of c n = Some cell' \<and> vs_obj cell' = vs_obj cell \<and> set (vs_locs cell) \<subseteq> set (vs_locs cell')"
    by auto
qed

lemma back_grows_trans: "back_grows a b \<Longrightarrow> back_grows b c \<Longrightarrow> back_grows a c"
  unfolding back_grows_def by (metis append.assoc)

lemma back_grows_append: "back_grows m (gm_append s bk m)"
  by (auto simp: back_grows_def map_of_gm_append)

lemma l7_grows_new: "map_of m n = None \<Longrightarrow> l7_grows m (AList.update n cell m)"
  by (auto simp: l7_grows_def update_conv')

lemma l7_grows_locs:
  "map_of m n = Some cell \<Longrightarrow> l7_grows m (AList.update n (cell\<lparr>vs_locs := vs_locs cell @ ixs\<rparr>) m)"
  by (auto simp: l7_grows_def update_conv')

lemma heap_grows_snoc: "heap_grows h (h @ ls)"
  by (simp add: heap_grows_def nth_append)

lemma heap_grows_update:
  "heap_grows h (h[ix := (h ! ix)\<lparr>NameCondition := AList.update k c (NameCondition (h ! ix))\<rparr>])"
  unfolding heap_grows_def
proof (intro conjI allI impI)
  fix i
  assume i: "i < length h"
  let ?h = "h[ix := (h ! ix)\<lparr>NameCondition := AList.update k c (NameCondition (h ! ix))\<rparr>]"
  show "Path (?h ! i) = Path (h ! i)"
    using i by (cases "i = ix") simp_all
  show "dom (map_of (NameCondition (h ! i))) \<subseteq> dom (map_of (NameCondition (?h ! i)))"
    using i by (cases "i = ix") (simp_all add: update_conv' subset_insertI)
qed simp

lemma grows_refl: "grows b b"
  by (simp add: grows_def)

lemma grows_trans: "grows a b \<Longrightarrow> grows b c \<Longrightarrow> grows a c"
  unfolding grows_def
  by (elim conjE exE, intro conjI)
     (erule (1) heap_grows_trans, erule (1) map_le_trans, erule (1) l7_grows_trans,
      erule (1) back_grows_trans, erule (1) back_grows_trans, simp, blast, blast)

lemma loc_at_grows: "loc_at b n p ix \<Longrightarrow> grows b b' \<Longrightarrow> loc_at b' n p ix"
  unfolding loc_at_def grows_def heap_grows_def l7_grows_def
  by (elim conjE exE) (metis order.strict_trans2 subsetD)

text \<open>The two cases of a path: its location is new, or an earlier ingress made it.\<close>

definition l7_backend :: "ingress \<Rightarrow> ing_anns \<Rightarrow> string \<Rightarrow> string \<Rightarrow> backend_ref" where
  "l7_backend i anns name path = \<lparr>bk_name = l7_backend_name i anns name path, bk_weight = a_weight anns,
     bk_hashBy = a_hash_by anns, bk_lbType = a_lb_type anns\<rparr>"

definition add_condition :: "string \<Rightarrow> condition ptr \<Rightarrow> location \<Rightarrow> location" where
  "add_condition k c l = l\<lparr>NameCondition := AList.update k c (NameCondition l)\<rparr>"

definition register_backend :: "ingress \<Rightarrow> ing_anns \<Rightarrow> string \<Rightarrow> string \<Rightarrow> string \<Rightarrow> gw_build \<Rightarrow> gw_build" where
  "register_backend i anns name path svc b = b\<lparr>b_conds := Suc (b_conds b),
     b_pool7 := List.insert svc (b_pool7 b),
     b_back7 := gm_append svc (l7_backend i anns name path) (b_back7 b)\<rparr>"

lemma path_step_new:
  assumes "map_of (b_srvLoc b) (loc_key name (ip_path p)) = None" "map_of (b_l7 b) name = Some cell"
    and "ip_service p = Some svc"
  shows "path_step env i anns name b p = Inr (register_backend i anns name (ip_path p) svc
    (b\<lparr>b_heap := b_heap b @ [add_condition (l7_backend_name i anns name (ip_path p))
          (Ptr (b_conds b) (name_condition anns)) (new_location env i anns (ip_path p))],
       b_srvLoc := AList.update (loc_key name (ip_path p)) (length (b_heap b)) (b_srvLoc b),
       b_l7 := AList.update name (cell\<lparr>vs_locs := vs_locs cell @ [length (b_heap b)]\<rparr>) (b_l7 b)\<rparr>))"
  using assms
  by (simp add: path_step_def path_service_def Let_def register_backend_def l7_backend_def add_condition_def)

lemma path_step_old:
  assumes "map_of (b_srvLoc b) (loc_key name (ip_path p)) = Some ix" "ip_service p = Some svc"
  shows "path_step env i anns name b p = Inr (register_backend i anns name (ip_path p) svc
    (b\<lparr>b_heap := (b_heap b)[ix := add_condition (l7_backend_name i anns name (ip_path p))
          (Ptr (b_conds b) (name_condition anns)) (b_heap b ! ix)]\<rparr>))"
  using assms
  by (simp add: path_step_def path_service_def Let_def register_backend_def l7_backend_def add_condition_def)

lemma path_step_service: "path_step env i anns name b p = Inr b' \<Longrightarrow> \<exists>svc. ip_service p = Some svc"
  by (cases "ip_service p") (auto simp: path_step_def path_service_def)

lemma path_step_grows:
  assumes "map_of (b_l7 b) name = Some cell" and step: "path_step env i anns name b p = Inr b'"
  shows "grows b b'"
proof -
  obtain svc where svc: "ip_service p = Some svc"
    using path_step_service [OF step] by blast
  show ?thesis
  proof (cases "map_of (b_srvLoc b) (loc_key name (ip_path p))")
    case None
    from step [unfolded path_step_new [OF None assms(1) svc]] show ?thesis
      using None assms(1)
      by (auto simp: grows_def register_backend_def update_conv' map_le_def back_grows_append
          l7_grows_locs heap_grows_snoc)
  next
    case (Some ix)
    from step [unfolded path_step_old [OF Some svc]] show ?thesis
      by (auto simp: grows_def register_backend_def add_condition_def map_le_def back_grows_append
          heap_grows_update)
  qed
qed

lemma gw_invD:
  assumes "gw_inv b"
  shows "gm_wf (b_l7 b)" "map_of (b_l7 b) n = Some cell \<Longrightarrow> cell_ok b n cell"
    and "map_of (b_srvLoc b) k = Some ix \<Longrightarrow>
      \<exists>n p. k = loc_key n p \<and> CHR ''/'' \<notin> set n \<and> slash_path p \<and> loc_at b n p ix"
  using assms by (auto simp: gw_inv_def)

lemma cell_ok_grows: "cell_ok b n cell \<Longrightarrow> grows b b' \<Longrightarrow> cell_ok b' n cell"
  unfolding cell_ok_def grows_def heap_grows_def by auto

text \<open>A location found under the key of a name and a path is one for that name and path.\<close>

lemma found_location:
  assumes "gw_inv b" "map_of (b_srvLoc b) (loc_key n p) = Some ix" "CHR ''/'' \<notin> set n" "slash_path p"
  shows "loc_at b n p ix"
  using gw_invD(3) [OF assms(1,2)] loc_key_inj assms(3,4) by blast

lemma gw_inv_step:
  assumes inv: "gw_inv b" and g: "grows b b'" and wf: "gm_wf (b_l7 b')"
    and cells: "\<And>n cell. map_of (b_l7 b') n = Some cell \<Longrightarrow> cell_ok b' n cell"
    and locs: "\<And>k ix. map_of (b_srvLoc b') k = Some ix \<Longrightarrow> map_of (b_srvLoc b) k \<noteq> Some ix \<Longrightarrow>
      \<exists>n p. k = loc_key n p \<and> CHR ''/'' \<notin> set n \<and> slash_path p \<and> loc_at b' n p ix"
  shows "gw_inv b'"
proof -
  have "\<exists>n p. k = loc_key n p \<and> CHR ''/'' \<notin> set n \<and> slash_path p \<and> loc_at b' n p ix"
    if "map_of (b_srvLoc b') k = Some ix" for k ix
  proof (cases "map_of (b_srvLoc b) k = Some ix")
    case True
    then show ?thesis
      using gw_invD(3) [OF inv] loc_at_grows [OF _ g] by meson
  qed (use locs that in blast)
  then show ?thesis
    using wf cells by (auto simp: gw_inv_def)
qed

lemma path_step_inv:
  assumes inv: "gw_inv b" and cell: "map_of (b_l7 b) name = Some cell"
    and ok: "CHR ''/'' \<notin> set name" "slash_path (ip_path p)"
    and step: "path_step env i anns name b p = Inr b'"
  shows "gw_inv b'"
proof -
  obtain svc where svc: "ip_service p = Some svc"
    using path_step_service [OF step] by blast
  note g = path_step_grows [OF cell step]
  show ?thesis
  proof (cases "map_of (b_srvLoc b) (loc_key name (ip_path p))")
    case None
    note eqs = step [unfolded path_step_new [OF None cell svc] register_backend_def]
    have at: "loc_at b' name (ip_path p) (length (b_heap b))"
      using eqs by (auto simp: loc_at_def add_condition_def new_location_def)
    show ?thesis
    proof (rule gw_inv_step [OF inv g])
      show "gm_wf (b_l7 b')"
        using eqs gw_invD(1) [OF inv] by auto
      show "cell_ok b' n c" if "map_of (b_l7 b') n = Some c" for n c
        using eqs that gw_invD(2) [OF inv, of n] gw_invD(2) [OF inv cell]
        by (auto simp: cell_ok_def update_conv' less_Suc_eq split: if_splits)
      show "\<exists>n q. k = loc_key n q \<and> CHR ''/'' \<notin> set n \<and> slash_path q \<and> loc_at b' n q ix"
        if "map_of (b_srvLoc b') k = Some ix" "map_of (b_srvLoc b) k \<noteq> Some ix" for k ix
      proof -
        have "k = loc_key name (ip_path p)" "ix = length (b_heap b)"
          using eqs that by (auto simp: update_conv' split: if_splits)
        then show ?thesis
          using at ok by blast
      qed
    qed
  next
    case (Some ix)
    note eqs = step [unfolded path_step_old [OF Some svc] register_backend_def]
    show ?thesis
    proof (rule gw_inv_step [OF inv g])
      show "cell_ok b' n c" if "map_of (b_l7 b') n = Some c" for n c
        using eqs that gw_invD(2) [OF inv, of n] by (auto simp: cell_ok_def)
    qed (use eqs gw_invD(1) [OF inv] in auto)
  qed
qed

text \<open>
  \<open>routed\<close>: requests to a server name and a path reach a location, the location names the backend,
  and the backend is registered for the service.
\<close>

definition routed :: "gw_build \<Rightarrow> string \<Rightarrow> string \<Rightarrow> backend_ref \<Rightarrow> string \<Rightarrow> bool" where
  "routed b n p bk svc \<longleftrightarrow>
     (\<exists>ix. loc_at b n p ix \<and> bk_name bk \<in> dom (map_of (NameCondition (b_heap b ! ix)))) \<and>
     svc \<in> set (b_pool7 b) \<and> (\<exists>bs. map_of (b_back7 b) svc = Some bs \<and> bk \<in> set bs)"

lemma routed_grows:
  assumes r: "routed b n p bk svc" and g: "grows b b'"
  shows "routed b' n p bk svc"
proof -
  obtain ix bs where ix: "loc_at b n p ix" "bk_name bk \<in> dom (map_of (NameCondition (b_heap b ! ix)))"
      and bs: "map_of (b_back7 b) svc = Some bs" "bk \<in> set bs"
    using r by (auto simp: routed_def)
  have "ix < length (b_heap b)"
    using ix(1) by (simp add: loc_at_def)
  then have "bk_name bk \<in> dom (map_of (NameCondition (b_heap b' ! ix)))"
    using g ix(2) unfolding grows_def heap_grows_def by blast
  moreover obtain bs' where "map_of (b_back7 b') svc = Some (bs @ bs')"
    using g bs(1) unfolding grows_def back_grows_def by blast
  moreover have "svc \<in> set (b_pool7 b')"
    using r g unfolding routed_def grows_def by blast
  ultimately show ?thesis
    using loc_at_grows [OF ix(1) g] bs(2) by (auto simp: routed_def)
qed

lemma path_step_routed:
  assumes inv: "gw_inv b" and cell: "map_of (b_l7 b) name = Some cell"
    and ok: "CHR ''/'' \<notin> set name" "slash_path (ip_path p)"
    and step: "path_step env i anns name b p = Inr b'" and svc: "ip_service p = Some svc"
  shows "routed b' name (ip_path p) (l7_backend i anns name (ip_path p)) svc"
proof (cases "map_of (b_srvLoc b) (loc_key name (ip_path p))")
  case None
  note eqs = step [unfolded path_step_new [OF None cell svc] register_backend_def]
  have "loc_at b' name (ip_path p) (length (b_heap b))"
    using eqs by (auto simp: loc_at_def add_condition_def new_location_def)
  then show ?thesis
    using eqs
    by (auto simp: routed_def map_of_gm_append add_condition_def l7_backend_def update_conv'
        intro!: exI [of _ "length (b_heap b)"])
next
  case (Some ix)
  note eqs = step [unfolded path_step_old [OF Some svc] register_backend_def]
  have at: "loc_at b name (ip_path p) ix"
    by (rule found_location [OF inv Some ok])
  then have "loc_at b' name (ip_path p) ix"
    using loc_at_grows path_step_grows [OF cell step] by blast
  moreover have "ix < length (b_heap b)"
    using at by (simp add: loc_at_def)
  ultimately show ?thesis
    using eqs
    by (auto simp: routed_def map_of_gm_append add_condition_def l7_backend_def update_conv'
        intro!: exI [of _ ix])
qed

interpretation gw: growing_state grows
  by unfold_locales (rule grows_refl, erule (1) grows_trans)

text \<open>Hosts without slashes and paths that are empty or start with one, as the API server requires.\<close>

definition rule_ok :: "ing_rule \<Rightarrow> bool" where
  "rule_ok r \<longleftrightarrow> CHR ''/'' \<notin> set (r_host r) \<and>
     (\<forall>ps. r_http r = Some ps \<longrightarrow> (\<forall>p \<in> set ps. slash_path (ip_path p)))"

lemma vir_srv_name_no_slash: "CHR ''/'' \<notin> set (r_host r) \<Longrightarrow> CHR ''/'' \<notin> set (vir_srv_name ssl r)"
  by (auto simp: vir_srv_name_def Let_def replace_byte_delete DefVirSrvName_def)

definition has_vs :: "string \<Rightarrow> gw_build \<Rightarrow> bool" where
  "has_vs name b \<longleftrightarrow> gw_inv b \<and> (\<exists>cell. map_of (b_l7 b) name = Some cell)"

lemma path_step_keeps:
  assumes "has_vs name b" "path_step env i anns name b p = Inr b'"
    and "CHR ''/'' \<notin> set name" "slash_path (ip_path p)"
  shows "has_vs name b' \<and> grows b b'"
proof -
  obtain cell where cell: "gw_inv b" "map_of (b_l7 b) name = Some cell"
    using assms(1) by (auto simp: has_vs_def)
  note g = path_step_grows [OF cell(2) assms(2)]
  then have "\<exists>cell'. map_of (b_l7 b') name = Some cell'"
    using cell(2) unfolding grows_def l7_grows_def by blast
  then show ?thesis
    using g path_step_inv [OF cell assms(3,4,2)] by (simp add: has_vs_def)
qed

text \<open>A rule first makes sure that its virtual service exists.\<close>

definition ensure_vs :: "string \<Rightarrow> virtual_service \<Rightarrow> gw_build \<Rightarrow> gw_build" where
  "ensure_vs name vs b = (case map_of (b_l7 b) name of
       Some cell \<Rightarrow> b
     | None \<Rightarrow> b\<lparr>b_l7 := AList.update name \<lparr>vs_obj = vs, vs_locs = []\<rparr> (b_l7 b)\<rparr>)"

lemma ensure_vs_keeps:
  assumes "gw_inv b" "ServerName vs = name"
  shows "has_vs name (ensure_vs name vs b) \<and> grows b (ensure_vs name vs b)"
proof (cases "map_of (b_l7 b) name")
  case None
  let ?b = "ensure_vs name vs b"
  have g: "grows b ?b"
    using None by (simp add: ensure_vs_def grows_def l7_grows_new)
  have "gw_inv ?b"
  proof (rule gw_inv_step [OF assms(1) g])
    show "cell_ok ?b n c" if "map_of (b_l7 ?b) n = Some c" for n c
      using that None assms(2) gw_invD(2) [OF assms(1), of n]
      by (auto simp: ensure_vs_def cell_ok_def update_conv' split: if_splits)
  qed (use None gw_invD(1) [OF assms(1)] in \<open>simp_all add: ensure_vs_def\<close>)
  then show ?thesis
    using g None by (simp add: has_vs_def ensure_vs_def)
qed (use assms in \<open>simp add: ensure_vs_def has_vs_def grows_refl\<close>)

lemma rule_step_ensure: "rule_step env i anns ssl b r =
  bind_go (deref (r_http r)) (for_go (path_step env i anns (vir_srv_name ssl r))
    (ensure_vs (vir_srv_name ssl r) (new_l7_vs env i anns ssl (vir_srv_name ssl r)) b))"
  by (simp add: rule_step_def ensure_vs_def Let_def)

lemma rule_stepD:
  assumes "gw_inv b" "rule_step env i anns ssl b r = Inr b'" "rule_ok r"
  defines "name \<equiv> vir_srv_name ssl r"
  obtains ps where "r_http r = Some ps" "has_vs name b'" "grows b b'"
    and "\<forall>p \<in> set ps. \<exists>svc. ip_service p = Some svc \<and>
      routed b' name (ip_path p) (l7_backend i anns name (ip_path p)) svc"
proof -
  obtain ps where ps: "r_http r = Some ps"
    using assms(2) by (cases "r_http r") (auto simp: rule_step_ensure)
  let ?b = "ensure_vs name (new_l7_vs env i anns ssl name) b"
  have e: "has_vs name ?b" "grows b ?b"
    using ensure_vs_keeps [OF assms(1), of "new_l7_vs env i anns ssl name" name]
    by (simp_all add: new_l7_vs_def)
  have loop: "for_go (path_step env i anns name) ?b ps = Inr b'"
    using assms(2) ps by (simp add: rule_step_ensure name_def)
  have no: "CHR ''/'' \<notin> set name"
    using assms(3) vir_srv_name_no_slash by (simp add: rule_ok_def name_def)
  have sl: "slash_path (ip_path p)" if "p \<in> set ps" for p
    using assms(3) ps that by (auto simp: rule_ok_def)
  have keep: "has_vs name v \<and> grows u v"
    if "p \<in> set ps" "has_vs name u" "path_step env i anns name u p = Inr v" for u p v
    using path_step_keeps [OF that(2,3) no sl [OF that(1)]] .
  have all: "\<exists>svc. ip_service p = Some svc \<and>
      routed b' name (ip_path p) (l7_backend i anns name (ip_path p)) svc" if "p \<in> set ps" for p
  proof (rule gw.loop_establishes [OF loop e(1) keep _ _ that])
    show "\<exists>svc. ip_service p = Some svc \<and> routed v name (ip_path p) (l7_backend i anns name (ip_path p)) svc"
      if "has_vs name u" "path_step env i anns name u p = Inr v" for u v
      using path_step_service [OF that(2)] path_step_routed [OF _ _ no sl [OF \<open>p \<in> set ps\<close>] that(2)] that(1)
      by (auto simp: has_vs_def)
  qed (auto intro: routed_grows)
  have "has_vs name b' \<and> grows ?b b'"
    by (rule gw.loop_grows [OF loop e(1) keep])
  then show thesis
    using that [OF ps] all grows_trans [OF e(2)] by blast
qed

definition ing_routed :: "gw_env \<Rightarrow> ingress \<Rightarrow> gw_build \<Rightarrow> bool" where
  "ing_routed env i b \<longleftrightarrow> (\<forall>r \<in> set (i_rules i). \<exists>ps. r_http r = Some ps \<and>
     (\<forall>p \<in> set ps. \<exists>svc. ip_service p = Some svc \<and>
        (let n = vir_srv_name (hostSSLMap env i) r
         in routed b n (ip_path p) (l7_backend i (g_extract env (i_meta i)) n (ip_path p)) svc)))"

lemma ing_routed_grows: "ing_routed env i b \<Longrightarrow> grows b b' \<Longrightarrow> ing_routed env i b'"
  unfolding ing_routed_def Let_def by (meson routed_grows)

lemma l7_regionD:
  assumes "gw_inv b" "\<forall>r \<in> set (i_rules i). rule_ok r"
    and region: "l7_region env i (g_extract env (i_meta i)) b = Inr b'"
  shows "gw_inv b' \<and> grows b b' \<and> ing_routed env i b'"
proof -
  let ?anns = "g_extract env (i_meta i)" and ?ssl = "hostSSLMap env i"
  have loop: "for_go (rule_step env i ?anns ?ssl) b (i_rules i) = Inr b'"
    using region by (simp add: l7_region_def)
  have keep: "gw_inv v \<and> grows u v"
    if "r \<in> set (i_rules i)" "gw_inv u" "rule_step env i ?anns ?ssl u r = Inr v" for u r v
    using rule_stepD [OF that(2,3)] assms(2) that(1) by (metis has_vs_def)
  define Q where "Q = (\<lambda>r v. \<exists>ps. r_http r = Some ps \<and> (\<forall>p \<in> set ps. \<exists>svc. ip_service p = Some svc \<and>
      routed v (vir_srv_name ?ssl r) (ip_path p) (l7_backend i ?anns (vir_srv_name ?ssl r) (ip_path p)) svc))"
  have "Q r b'" if r: "r \<in> set (i_rules i)" for r
  proof (rule gw.loop_establishes [OF loop assms(1) keep _ _ r])
    show "Q r v" if "gw_inv u" "rule_step env i ?anns ?ssl u r = Inr v" for u v
      using rule_stepD [OF that] assms(2) r unfolding Q_def by metis
    show "Q r v" if "Q r u" "grows u v" for u v
      using that routed_grows unfolding Q_def by meson
  qed
  then have "ing_routed env i b'"
    by (simp add: ing_routed_def Q_def Let_def)
  moreover have "gw_inv b' \<and> grows b b'"
    by (rule gw.loop_grows [OF loop assms(1) keep])
  ultimately show ?thesis
    by blast
qed

text \<open>The layer-4 part leaves the layer-7 part alone.\<close>

lemma conflict_loop_id [simp]: "conflict_loop b keys = b"
  unfolding conflict_loop_def by (induction keys arbitrary: b) (auto split: option.splits)

lemma l4_regionE:
  assumes "l4_region env i svcName anns b = Inr b'"
  obtains "b' = b"
  | listening vs bk where "b' = b\<lparr>b_pool4 := List.insert svcName (b_pool4 b),
      b_l4map := AList.update listening vs (b_l4map b), b_l4 := b_l4 b @ [vs],
      b_back4 := gm_append svcName bk (b_back4 b)\<rparr>"
  using assms
  by (auto simp: l4_region_def Let_def bind_go_eq_Inr split: if_splits)

lemma l4_region_keeps:
  assumes "gw_inv b" "l4_region env i svcName anns b = Inr b'"
  shows "gw_inv b' \<and> grows b b'"
  using assms(2)
proof (cases rule: l4_regionE)
  case (2 listening vs bk)
  then have g: "grows b b'"
    by (auto simp: grows_def back_grows_append)
  have "gw_inv b'"
  proof (rule gw_inv_step [OF assms(1) g])
    show "cell_ok b' n c" if "map_of (b_l7 b') n = Some c" for n c
      using that 2 gw_invD(2) [OF assms(1), of n c] by (simp add: cell_ok_def)
  qed (use 2 gw_invD(1) [OF assms(1)] in simp_all)
  with g show ?thesis
    by blast
qed (use assms(1) grows_refl in blast)

definition env_ok :: "gw_env \<Rightarrow> bool" where
  "env_ok env \<longleftrightarrow> (\<forall>i \<in> set (g_ingresses env). \<forall>r \<in> set (i_rules i). rule_ok r)"

text \<open>The ingresses that the first pass serves at layer 7.\<close>

definition served_l7 :: "gw_env \<Rightarrow> ingress \<Rightarrow> bool" where
  "served_l7 env i \<longleftrightarrow> ingressIsValid env i = Inr True \<and> (\<exists>svc. ing_service i = Inr (Some svc)) \<and>
     \<not> l4_wanted (g_extract env (i_meta i))"

lemma first_pass_stepD:
  assumes "gw_inv b" "\<forall>r \<in> set (i_rules i). rule_ok r" "first_pass_step env b i = Inr b'"
  shows "gw_inv b' \<and> grows b b' \<and> (served_l7 env i \<longrightarrow> ing_routed env i b')"
proof -
  obtain valid where v: "ingressIsValid env i = Inr valid"
    using assms(3) by (cases "ingressIsValid env i") (auto simp: first_pass_step_def)
  show ?thesis
  proof (cases valid)
    case True
    then obtain ms where ms: "ing_service i = Inr ms"
      using assms(3) v by (cases "ing_service i") (auto simp: first_pass_step_def)
    then show ?thesis
      using assms(3) v True l4_region_keeps [OF assms(1)] l7_regionD [OF assms(1,2)] assms(1) grows_refl
      by (auto simp: first_pass_step_def served_l7_def Let_def split: option.splits if_splits)
  qed (use assms v grows_refl in \<open>auto simp: first_pass_step_def served_l7_def\<close>)
qed

lemma redirect_path_step_keeps:
  assumes "has_vs name b"
  shows "has_vs name (redirect_path_step anns name b p) \<and> grows b (redirect_path_step anns name b p)"
proof (cases "map_of (b_srvLoc b) (loc_key name (ip_path p))")
  case None
  let ?b = "redirect_path_step anns name b p"
  obtain cell where cell: "map_of (b_l7 b) name = Some cell" and inv: "gw_inv b"
    using assms by (auto simp: has_vs_def)
  have eq: "?b = b\<lparr>b_heap := b_heap b @ [redirect_location anns (ip_path p)],
      b_l7 := AList.update name (cell\<lparr>vs_locs := vs_locs cell @ [length (b_heap b)]\<rparr>) (b_l7 b)\<rparr>"
    using None cell by (simp add: redirect_path_step_def Let_def)
  have g: "grows b ?b"
    unfolding eq using cell by (simp add: grows_def heap_grows_snoc l7_grows_locs)
  have "gw_inv ?b"
  proof (rule gw_inv_step [OF inv g])
    show "cell_ok ?b n c" if "map_of (b_l7 ?b) n = Some c" for n c
      using that gw_invD(2) [OF inv, of n] gw_invD(2) [OF inv cell]
      by (auto simp: eq cell_ok_def update_conv' less_Suc_eq split: if_splits)
  qed (use gw_invD(1) [OF inv] in \<open>simp_all add: eq\<close>)
  then show ?thesis
    using g by (simp add: has_vs_def eq)
qed (use assms in \<open>simp add: redirect_path_step_def grows_refl\<close>)

lemma redirect_paths_keep:
  "has_vs name b \<Longrightarrow> has_vs name (foldl (redirect_path_step anns name) b ps) \<and>
     grows b (foldl (redirect_path_step anns name) b ps)"
proof (induction ps arbitrary: b)
  case (Cons p ps)
  then show ?case
    using redirect_path_step_keeps [OF Cons.prems, of anns p] grows_trans by fastforce
qed (simp add: grows_refl)

lemma redirect_rule_step_ensure: "redirect_rule_step env anns b r =
  bind_go (deref (r_http r)) (\<lambda>paths. Inr (foldl (redirect_path_step anns (trim_space (r_host r)))
    (ensure_vs (trim_space (r_host r)) (zero_vs\<lparr>Listening := [go_itoa (lp_http (g_ports env))],
        ServerName := trim_space (r_host r)\<rparr>) b) paths))"
  by (simp add: redirect_rule_step_def ensure_vs_def Let_def)

lemma redirect_rule_step_keeps:
  assumes "gw_inv b" "redirect_rule_step env anns b r = Inr b'"
  shows "gw_inv b' \<and> grows b b'"
proof -
  let ?n = "trim_space (r_host r)"
  let ?vs = "zero_vs\<lparr>Listening := [go_itoa (lp_http (g_ports env))], ServerName := ?n\<rparr>"
  have e: "has_vs ?n (ensure_vs ?n ?vs b)" "grows b (ensure_vs ?n ?vs b)"
    using ensure_vs_keeps [OF assms(1), of ?vs ?n] by simp_all
  obtain ps where "b' = foldl (redirect_path_step anns ?n) (ensure_vs ?n ?vs b) ps"
    using assms(2) by (auto simp: redirect_rule_step_ensure bind_go_eq_Inr)
  then show ?thesis
    using redirect_paths_keep [OF e(1), of anns ps] grows_trans [OF e(2)] by (auto simp: has_vs_def)
qed

lemma second_pass_step_keeps:
  assumes "gw_inv b" "second_pass_step env b i = Inr b'"
  shows "gw_inv b' \<and> grows b b'"
  using assms redirect_rule_step_keeps
    gw.loop_grows [of "redirect_rule_step env (g_extract env (i_meta i))" b "i_rules i" b' gw_inv]
  by (auto simp: second_pass_step_def bind_go_eq_Inr Let_def grows_refl split: if_splits)

lemma start_build_inv: "gw_inv (start_build base p7 p4)"
  by (simp add: start_build_def gw_inv_def)

lemma build_gatewayD:
  assumes "env_ok env" "build_gateway env base p7 p4 = Inr b"
  shows "gw_inv b" "grows (start_build base p7 p4) b"
    and "i \<in> set (g_ingresses env) \<Longrightarrow> served_l7 env i \<Longrightarrow> ing_routed env i b"
proof -
  obtain b1 where b1: "for_go (first_pass_step env) (start_build base p7 p4) (g_ingresses env) = Inr b1"
      and b2: "for_go (second_pass_step env) b1 (g_ingresses env) = Inr b"
    using assms(2) by (auto simp: build_gateway_def bind_go_eq_Inr)
  have ok: "\<forall>r \<in> set (i_rules i). rule_ok r" if "i \<in> set (g_ingresses env)" for i
    using assms(1) that by (simp add: env_ok_def)
  have keep: "gw_inv v \<and> grows u v"
    if "i \<in> set (g_ingresses env)" "gw_inv u" "first_pass_step env u i = Inr v" for u i v
    using first_pass_stepD [OF that(2) ok [OF that(1)] that(3)] by blast
  have first: "gw_inv b1 \<and> grows (start_build base p7 p4) b1"
    by (rule gw.loop_grows [OF b1 start_build_inv keep])
  have second: "gw_inv b \<and> grows b1 b"
    by (rule gw.loop_grows [of _ _ _ _ gw_inv, OF b2 conjunct1 [OF first]]) (use second_pass_step_keeps in blast)
  show "gw_inv b" "grows (start_build base p7 p4) b"
    using first second grows_trans by blast+
  show "ing_routed env i b" if i: "i \<in> set (g_ingresses env)" and s: "served_l7 env i"
  proof (rule ing_routed_grows [OF _ conjunct2 [OF second]])
    show "ing_routed env i b1"
    proof (rule gw.loop_establishes [OF b1 start_build_inv keep _ _ i])
      show "ing_routed env i v" if "gw_inv u" "first_pass_step env u i = Inr v" for u v
        using first_pass_stepD [OF that(1) ok [OF i] that(2)] s by blast
    qed (assumption | erule (1) ing_routed_grows)+
  qed
qed

section \<open>What the pools hold\<close>

text \<open>
  The nodes of one layer, as a list over the endpoints and their registered backends; the pool of a
  name holds exactly the nodes of the backends with that name.
\<close>

definition pairs_of :: "backend_ref list gomap \<Rightarrow> gw_endpoints list \<Rightarrow> (gw_endpoints \<times> backend_ref) list" where
  "pairs_of back eps = concat (map (\<lambda>ep. map (Pair ep) (backends_of back ep)) eps)"

definition pool_step :: "(backend_ref \<Rightarrow> pool) \<Rightarrow> string list \<Rightarrow> pool_build \<Rightarrow> gw_endpoints \<times> backend_ref \<Rightarrow> pool_build" where
  "pool_step new poolMap s x = pool_backend_step new poolMap (fst x) s (snd x)"

definition nodes_for :: "string list \<Rightarrow> string \<Rightarrow> (gw_endpoints \<times> backend_ref) list \<Rightarrow> node list" where
  "nodes_for poolMap n xs =
     concat (map (\<lambda>x. endpoint_nodes poolMap (fst x) (snd x)) (filter (\<lambda>x. bk_name (snd x) = n) xs))"

lemma foldl_pool_step_pairs:
  "foldl (pool_step new poolMap) s (map (Pair ep) bks) = foldl (pool_backend_step new poolMap ep) s bks"
  by (induction bks arbitrary: s) (simp_all add: pool_step_def)

lemma pool_passes:
  "foldl (pool_endpoint_step b) (s7, s4) eps =
     (foldl (pool_step new_l7_pool (b_pool7 b)) s7 (pairs_of (b_back7 b) eps),
      foldl (pool_step new_l4_pool (b_pool4 b)) s4 (pairs_of (b_back4 b) eps))"
  by (induction eps arbitrary: s7 s4)
     (simp_all add: pairs_of_def pool_endpoint_step_def foldl_pool_step_pairs)

lemma ListPool_passes: "ListPool env b base7 base4 =
  (map snd (pb_pools (foldl (pool_step new_l7_pool (b_pool7 b)) \<lparr>pb_pools = [], pb_next = base7\<rparr>
      (pairs_of (b_back7 b) (map snd (g_endpoints env))))),
   map snd (pb_pools (foldl (pool_step new_l4_pool (b_pool4 b)) \<lparr>pb_pools = [], pb_next = base4\<rparr>
      (pairs_of (b_back4 b) (map snd (g_endpoints env))))))"
  by (simp add: ListPool_def Let_def pool_passes)

text \<open>\<open>pool_rep\<close> relates the pools built so far to the pairs that were processed.\<close>

definition pool_rep :: "(backend_ref \<Rightarrow> pool) \<Rightarrow> string list \<Rightarrow> (gw_endpoints \<times> backend_ref) list \<Rightarrow> pool_build \<Rightarrow> bool" where
  "pool_rep new poolMap xs s \<longleftrightarrow> gm_wf (pb_pools s) \<and> (\<forall>n. map_of (pb_pools s) n = None \<longleftrightarrow> n \<notin> bk_name ` snd ` set xs) \<and>
     (\<forall>n p. map_of (pb_pools s) n = Some p \<longrightarrow>
        m_Name (p_Meta p) = n \<and> map the_obj (Nodes p) = map Some (nodes_for poolMap n xs))"

lemma pool_repD:
  assumes "pool_rep new poolMap xs s"
  shows "gm_wf (pb_pools s)" "map_of (pb_pools s) n = None \<longleftrightarrow> n \<notin> bk_name ` snd ` set xs"
    and "map_of (pb_pools s) n = Some p \<Longrightarrow> m_Name (p_Meta p) = n"
    and "map_of (pb_pools s) n = Some p \<Longrightarrow> map the_obj (Nodes p) = map Some (nodes_for poolMap n xs)"
  using assms by (simp_all add: pool_rep_def)

lemma nodes_for_unused: "n \<notin> bk_name ` snd ` set xs \<Longrightarrow> nodes_for poolMap n xs = []"
  by (induction xs) (auto simp: nodes_for_def)

lemma the_obj_enumerate: "map the_obj (map (\<lambda>(i, n). Ptr (a + i) n) (enumerate k ns)) = map Some ns"
  by (induction ns arbitrary: k) simp_all

lemma pool_step_rep:
  assumes "pool_rep new poolMap xs s" and new: "\<And>bk. m_Name (p_Meta (new bk)) = bk_name bk \<and> Nodes (new bk) = []"
  shows "pool_rep new poolMap (xs @ [x]) (pool_step new poolMap s x)"
proof -
  let ?k = "bk_name (snd x)" and ?t = "pool_step new poolMap s x"
  let ?p = "case map_of (pb_pools s) ?k of Some p \<Rightarrow> p | None \<Rightarrow> new (snd x)"
  let ?ns = "endpoint_nodes poolMap (fst x) (snd x)"
  have old: "map the_obj (Nodes ?p) = map Some (nodes_for poolMap ?k xs)" "m_Name (p_Meta ?p) = ?k"
    using pool_repD(2-4) [OF assms(1), of ?k] new [of "snd x"] nodes_for_unused [of ?k xs poolMap]
    by (cases "map_of (pb_pools s) ?k"; simp)+
  have t: "map_of (pb_pools ?t) n = (if n = ?k then Some (?p\<lparr>Nodes := Nodes ?p @
      map (\<lambda>(i, n). Ptr (pb_next s + i) n) (enumerate 0 ?ns)\<rparr>) else map_of (pb_pools s) n)" for n
    by (simp add: pool_step_def pool_backend_step_def Let_def update_conv')
  have "map_of (pb_pools ?t) n = None \<longleftrightarrow> n \<notin> bk_name ` snd ` set (xs @ [x])" for n
    using pool_repD(2) [OF assms(1), of n] by (simp add: t)
  moreover have "m_Name (p_Meta p) = n \<and> map the_obj (Nodes p) = map Some (nodes_for poolMap n (xs @ [x]))"
    if "map_of (pb_pools ?t) n = Some p" for n p
  proof (cases "n = ?k")
    case True
    then show ?thesis
      using old that by (auto simp: t nodes_for_def the_obj_enumerate simp del: map_map)
  next
    case False
    then show ?thesis
      using pool_repD(3,4) [OF assms(1), of n p] that by (simp add: t nodes_for_def)
  qed
  moreover have "gm_wf (pb_pools ?t)"
    using assms(1) by (simp add: pool_rep_def pool_step_def pool_backend_step_def Let_def)
  ultimately show ?thesis
    unfolding pool_rep_def by blast
qed

lemma pools_rep:
  assumes new: "\<And>bk. m_Name (p_Meta (new bk)) = bk_name bk \<and> Nodes (new bk) = []"
  shows "pool_rep new poolMap xs (foldl (pool_step new poolMap) \<lparr>pb_pools = [], pb_next = base\<rparr> xs)"
proof (induction xs rule: rev_induct)
  case (snoc x xs)
  then show ?case
    using pool_step_rep [OF _ new] by simp
qed (simp add: pool_rep_def)

text \<open>What \<open>pool_rep\<close> says of the resulting list of pools.\<close>

lemma pool_rep_list:
  assumes "pool_rep new poolMap xs s"
  shows "distinct (map (m_Name \<circ> p_Meta \<circ> snd) (pb_pools s))"
    and "(m_Name \<circ> p_Meta \<circ> snd) ` set (pb_pools s) = bk_name ` snd ` set xs"
    and "p \<in> snd ` set (pb_pools s) \<Longrightarrow> map the_obj (Nodes p) = map Some (nodes_for poolMap (m_Name (p_Meta p)) xs)"
proof -
  have wf: "gm_wf (pb_pools s)"
    using assms by (simp add: pool_rep_def)
  have name: "m_Name (p_Meta q) = k" "map the_obj (Nodes q) = map Some (nodes_for poolMap k xs)"
      "k \<in> bk_name ` snd ` set xs"
    if "(k, q) \<in> set (pb_pools s)" for k q
    using pool_repD(2-4) [OF assms, of k] map_of_is_SomeI [OF wf that] by auto
  then have eq: "map (m_Name \<circ> p_Meta \<circ> snd) (pb_pools s) = map fst (pb_pools s)"
    by (auto simp: map_eq_conv)
  then show "distinct (map (m_Name \<circ> p_Meta \<circ> snd) (pb_pools s))"
    using wf by metis
  have "n \<in> fst ` set (pb_pools s) \<longleftrightarrow> n \<in> bk_name ` snd ` set xs" for n
    using pool_repD(2) [OF assms, of n] by (simp add: map_of_eq_None_iff)
  moreover have "(m_Name \<circ> p_Meta \<circ> snd) ` set (pb_pools s) = fst ` set (pb_pools s)"
    using arg_cong [OF eq, of set] by simp
  ultimately show "(m_Name \<circ> p_Meta \<circ> snd) ` set (pb_pools s) = bk_name ` snd ` set xs"
    by blast
  show "map the_obj (Nodes p) = map Some (nodes_for poolMap (m_Name (p_Meta p)) xs)" if "p \<in> snd ` set (pb_pools s)"
    using that name(1,2) by auto
qed

lemma l7_list_cell:
  assumes "ListVirtualService env base p7 p4 = Inr (l7, l4, b)"
  shows "build_gateway env base p7 p4 = Inr b" "l4 = b_l4 b"
    and "l7 = map (finish_cell base (b_heap b) \<circ> snd) (b_l7 b)"
  using assms by (auto simp: ListVirtualService_def bind_go_eq_Inr)

text \<open>A routed path is visible in the resulting lists.\<close>

lemma routed_visible:
  assumes "routed b n p bk svc" "gw_inv b"
  obtains cell a loc where "(n, cell) \<in> set (b_l7 b)"
    and "Ptr a loc \<in> set (Locations (finish_cell base (b_heap b) cell))" "Path loc = p"
    and "bk_name bk \<in> fst ` set (NameCondition loc)" "ServerName (finish_cell base (b_heap b) cell) = n"
proof -
  obtain ix where ix: "loc_at b n p ix" "bk_name bk \<in> dom (map_of (NameCondition (b_heap b ! ix)))"
    using assms(1) by (auto simp: routed_def)
  then obtain cell where cell: "map_of (b_l7 b) n = Some cell" "ix \<in> set (vs_locs cell)"
    by (auto simp: loc_at_def)
  show thesis
  proof (rule that [of cell "base + ix" "b_heap b ! ix"])
    show "ServerName (finish_cell base (b_heap b) cell) = n"
      using gw_invD(2) [OF assms(2) cell(1)] by (simp add: cell_ok_def finish_cell_def)
    show "bk_name bk \<in> fst ` set (NameCondition (b_heap b ! ix))"
      using ix(2) by (simp add: dom_map_of_conv_image_fst)
  qed (use cell ix in \<open>auto simp: finish_cell_def loc_at_def dest: map_of_SomeD\<close>)
qed

lemma endpoint_nodes_mem:
  assumes "svc \<in> set poolMap" "Name (ge_meta e) = svc" "ss \<in> set (ge_subsets e)"
    and "port \<in> set (Ports ss)" "ip \<in> set (Addresses ss)"
  shows "mk_node ip port (bk_weight bk) \<in> set (endpoint_nodes poolMap e bk)"
  using assms by (auto simp: endpoint_nodes_def subset_nodes_def)

text \<open>A registered backend of a service has its pool, with every ready address of the endpoints.\<close>

lemma l7_pool_reached:
  assumes reg: "map_of (b_back7 b) svc = Some bs" "bk \<in> set bs" "svc \<in> set (b_pool7 b)"
    and ep: "(key, e) \<in> set (g_endpoints env)" "Name (ge_meta e) = svc" "ss \<in> set (ge_subsets e)"
      "port \<in> set (Ports ss)" "ip \<in> set (Addresses ss)"
    and pools: "ListPool env b base7 base4 = (pools7, pools4)"
  obtains pool a where "pool \<in> set pools7" "m_Name (p_Meta pool) = bk_name bk"
    and "Ptr a (mk_node ip port (bk_weight bk)) \<in> set (Nodes pool)"
proof -
  let ?xs = "pairs_of (b_back7 b) (map snd (g_endpoints env))"
  define s where "s = foldl (pool_step new_l7_pool (b_pool7 b)) \<lparr>pb_pools = [], pb_next = base7\<rparr> ?xs"
  have p7: "pools7 = map snd (pb_pools s)"
    using pools by (simp add: ListPool_passes s_def)
  have rep: "pool_rep new_l7_pool (b_pool7 b) ?xs s"
    unfolding s_def by (rule pools_rep) (simp add: new_l7_pool_def zero_pool_def)
  have pair: "(e, bk) \<in> set ?xs"
    using reg ep by (force simp: pairs_of_def backends_of_def)
  then obtain pool where pool: "map_of (pb_pools s) (bk_name bk) = Some pool"
    using pool_repD(2) [OF rep, of "bk_name bk"] by force
  have "mk_node ip port (bk_weight bk) \<in> set (nodes_for (b_pool7 b) (bk_name bk) ?xs)"
    using endpoint_nodes_mem [OF reg(3) ep(2-5), of bk] pair by (force simp: nodes_for_def)
  then have "Some (mk_node ip port (bk_weight bk)) \<in> set (map the_obj (Nodes pool))"
    using pool_repD(4) [OF rep pool] by simp
  then obtain q where q: "q \<in> set (Nodes pool)" "the_obj q = Some (mk_node ip port (bk_weight bk))"
    by auto
  from q(2) obtain a where "q = Ptr a (mk_node ip port (bk_weight bk))"
    by (cases q) auto
  with q(1) show thesis
    using that [of pool] pool pool_repD(3) [OF rep pool] p7 by (force dest: map_of_SomeD)
qed

section \<open>Properties\<close>

lemma l7_route:
  assumes "env_ok env" and vs: "ListVirtualService env base p7 p4 = Inr (l7, l4, b)"
    and pools: "ListPool env b base7 base4 = (pools7, pools4)"
    and "i \<in> set (g_ingresses env)" "served_l7 env i"
    and "r \<in> set (i_rules i)" "r_http r = Some ps" "p \<in> set ps" "ip_service p = Some svc"
    and ep: "(key, e) \<in> set (g_endpoints env)" "Name (ge_meta e) = svc" "ss \<in> set (ge_subsets e)"
      "port \<in> set (Ports ss)" "ip \<in> set (Addresses ss)"
  shows "\<exists>vs \<in> set l7. ServerName vs = vir_srv_name (hostSSLMap env i) r \<and>
    (\<exists>a loc. Ptr a loc \<in> set (Locations vs) \<and> Path loc = ip_path p \<and>
      (\<exists>pool \<in> set pools7. m_Name (p_Meta pool) \<in> fst ` set (NameCondition loc) \<and>
        (\<exists>a' node. Ptr a' node \<in> set (Nodes pool) \<and> Host node = ip \<and> Port node = port \<and>
           Weight node = a_weight (g_extract env (i_meta i)))))"
proof -
  note built = l7_list_cell [OF vs]
  let ?n = "vir_srv_name (hostSSLMap env i) r"
  let ?bk = "l7_backend i (g_extract env (i_meta i)) ?n (ip_path p)"
  have routed: "routed b ?n (ip_path p) ?bk svc"
    using build_gatewayD(3) [OF assms(1) built(1) assms(4,5)] assms(6-9) by (force simp: ing_routed_def Let_def)
  obtain cell a loc where at: "(?n, cell) \<in> set (b_l7 b)"
      "Ptr a loc \<in> set (Locations (finish_cell base (b_heap b) cell))" "Path loc = ip_path p"
      "bk_name ?bk \<in> fst ` set (NameCondition loc)" "ServerName (finish_cell base (b_heap b) cell) = ?n"
    using routed_visible [OF routed build_gatewayD(1) [OF assms(1) built(1)]] by metis
  obtain bs where "map_of (b_back7 b) svc = Some bs" "?bk \<in> set bs" "svc \<in> set (b_pool7 b)"
    using routed by (auto simp: routed_def)
  then obtain pool a' where pool: "pool \<in> set pools7" "m_Name (p_Meta pool) = bk_name ?bk"
      "Ptr a' (mk_node ip port (bk_weight ?bk)) \<in> set (Nodes pool)"
    using l7_pool_reached [OF _ _ _ ep pools] by metis
  have "finish_cell base (b_heap b) cell \<in> set l7"
    using at(1) built(3) by force
  moreover have "Host (mk_node ip port (bk_weight ?bk)) = ip" "Port (mk_node ip port (bk_weight ?bk)) = port"
      "Weight (mk_node ip port (bk_weight ?bk)) = a_weight (g_extract env (i_meta i))"
    by (simp_all add: mk_node_def l7_backend_def)
  ultimately show ?thesis
    using at pool by metis
qed

text \<open>
  Requests reach the component. For every path of every ingress that is served at layer 7 and
  every ready address and port of the endpoints of the path's service, the derived configuration has
  a virtual service with the rule's server name, in it a location for the path, and a pool that the
  location names and that has a node for the address, with the weight of the ingress.
\<close>

theorem paths_reach_endpoints:
  assumes "env_ok env" and vs: "ListVirtualService env base p7 p4 = Inr (l7, l4, b)"
    and pools: "ListPool env b base7 base4 = (pools7, pools4)"
    and "i \<in> set (g_ingresses env)" "served_l7 env i"
    and "r \<in> set (i_rules i)" "r_http r = Some ps" "p \<in> set ps" "ip_service p = Some svc"
    and ep: "(key, e) \<in> set (g_endpoints env)" "Name (ge_meta e) = svc" "ss \<in> set (ge_subsets e)"
      "port \<in> set (Ports ss)" "ip \<in> set (Addresses ss)"
  shows "\<exists>vs \<in> set l7. ServerName vs = vir_srv_name (hostSSLMap env i) r \<and>
    (\<exists>a loc. Ptr a loc \<in> set (Locations vs) \<and> Path loc = ip_path p \<and>
      (\<exists>pool \<in> set pools7. m_Name (p_Meta pool) \<in> fst ` set (NameCondition loc) \<and>
        (\<exists>a' node. Ptr a' node \<in> set (Nodes pool) \<and> Host node = ip \<and> Port node = port \<and>
           Weight node = a_weight (g_extract env (i_meta i)))))"
  by (rule l7_route [OF assms])

text \<open>
  The server names of the derived layer-7 virtual services are pairwise different, so a request's
  host selects at most one of them, and every one of their locations is a real object.
\<close>

theorem server_names_unique:
  assumes "env_ok env" "ListVirtualService env base p7 p4 = Inr (l7, l4, b)"
  shows "distinct (map ServerName l7) \<and> (\<forall>vs \<in> set l7. Nil_ptr \<notin> set (Locations vs))"
proof -
  note built = l7_list_cell [OF assms(2)]
  note inv = build_gatewayD(1) [OF assms(1) built(1)]
  have "map ServerName l7 = map fst (b_l7 b)"
    using gw_invD(2) [OF inv] map_of_is_SomeI [OF gw_invD(1) [OF inv]]
    by (auto simp: built(3) finish_cell_def cell_ok_def)
  then have "distinct (map ServerName l7)"
    using gw_invD(1) [OF inv] by metis
  then show ?thesis
    by (auto simp: built(3) finish_cell_def)
qed

text \<open>
  What the pools of a layer have to be, from the endpoints \<open>eps\<close>, the backends that the virtual services have
  registered for a service and the services with a pool: the address, port and weight of every node, in the
  order of the endpoints, backends, subsets, ports and addresses.
\<close>

definition spec_nodes :: "backend_ref list gomap \<Rightarrow> string list \<Rightarrow> gw_endpoints list \<Rightarrow> string \<Rightarrow> (string \<times> int \<times> int) list" where
  "spec_nodes back known eps n =
     [(ip, port, bk_weight bk). e \<leftarrow> eps, Name (ge_meta e) \<in> set known, bks \<leftarrow> map snd (filter (\<lambda>x. fst x = Name (ge_meta e)) back),
        bk \<leftarrow> bks, bk_name bk = n, sub \<leftarrow> ge_subsets e, port \<leftarrow> Ports sub, ip \<leftarrow> Addresses sub]"

definition node_view :: "node ptr \<Rightarrow> (string \<times> int \<times> int) option" where
  "node_view q = (case q of Ptr a x \<Rightarrow> Some (Host x, Port x, Weight x) | Nil_ptr \<Rightarrow> None)"

definition pools_spec :: "backend_ref list gomap \<Rightarrow> string list \<Rightarrow> gw_endpoints list \<Rightarrow> pool list \<Rightarrow> bool" where
  "pools_spec back known eps pools \<longleftrightarrow> distinct (map (m_Name \<circ> p_Meta) pools) \<and>
     (\<forall>n. n \<in> m_Name ` p_Meta ` set pools \<longleftrightarrow>
        (\<exists>e \<in> set eps. \<exists>(svc, bks) \<in> set back. ge_subsets e \<noteq> [] \<and> svc = Name (ge_meta e) \<and> (\<exists>bk \<in> set bks. bk_name bk = n))) \<and>
     (\<forall>p \<in> set pools. map node_view (Nodes p) = map Some (spec_nodes back known eps (m_Name (p_Meta p))))"

lemma gm_wf_filter_key: "gm_wf m \<Longrightarrow> map snd (filter (\<lambda>x. fst x = k) m) = (case map_of m k of None \<Rightarrow> [] | Some v \<Rightarrow> [v])"
  by (induction m) (auto simp: filter_empty_conv map_of_eq_None_iff rev_image_eqI split: option.splits)

lemma spec_nodes_eq:
  assumes "gm_wf back"
  shows "map (\<lambda>x. (Host x, Port x, Weight x)) (nodes_for known n (pairs_of back eps)) = spec_nodes back known eps n"
proof (induction eps)
  case (Cons e eps)
  let ?v = "\<lambda>x. (Host x, Port x, Weight x)"
  have "map ?v (nodes_for known n (map (Pair e) bks)) = (if Name (ge_meta e) \<in> set known
      then [(ip, port, bk_weight bk). bk \<leftarrow> bks, bk_name bk = n, sub \<leftarrow> ge_subsets e, port \<leftarrow> Ports sub, ip \<leftarrow> Addresses sub] else [])" for bks
    by (induction bks) (auto simp: nodes_for_def endpoint_nodes_def subset_nodes_def mk_node_def map_concat comp_def)
  then have "map ?v (nodes_for known n (pairs_of back [e])) = spec_nodes back known [e] n"
    by (auto simp: pairs_of_def backends_of_def spec_nodes_def gm_wf_filter_key [OF assms] nodes_for_def split: option.splits)
  then show ?case
    using Cons.IH by (simp add: pairs_of_def spec_nodes_def nodes_for_def)
qed (simp add: spec_nodes_def pairs_of_def nodes_for_def)

lemma layer_pools_exact:
  assumes wf: "gm_wf back" and new: "\<And>bk. m_Name (p_Meta (new bk)) = bk_name bk \<and> Nodes (new bk) = []"
  shows "pools_spec back known eps (map snd (pb_pools (foldl (pool_step new known) \<lparr>pb_pools = [], pb_next = base\<rparr> (pairs_of back eps))))"
proof -
  define s where "s = foldl (pool_step new known) \<lparr>pb_pools = [], pb_next = base\<rparr> (pairs_of back eps)"
  have rep: "pool_rep new known (pairs_of back eps) s"
    unfolding s_def by (rule pools_rep) (rule new)
  have "map node_view (Nodes p) = map Some (spec_nodes back known eps (m_Name (p_Meta p)))" if "p \<in> snd ` set (pb_pools s)" for p
  proof -
    let ?v = "map_option (\<lambda>x. (Host x, Port x, Weight x))"
    have "map node_view (Nodes p) = map ?v (map the_obj (Nodes p))"
      by (simp add: node_view_def split: ptr.splits)
    then show ?thesis
      using pool_rep_list(3) [OF rep that] by (simp add: spec_nodes_eq [OF wf, symmetric] comp_def)
  qed
  moreover have "n \<in> bk_name ` snd ` set (pairs_of back eps) \<longleftrightarrow>
      (\<exists>e \<in> set eps. \<exists>(svc, bks) \<in> set back. ge_subsets e \<noteq> [] \<and> svc = Name (ge_meta e) \<and> (\<exists>bk \<in> set bks. bk_name bk = n))" for n
    using wf by (fastforce simp: pairs_of_def backends_of_def image_iff dest: map_of_SomeD split: option.splits if_splits)
  ultimately show ?thesis
    using pool_rep_list(1,2) [OF rep] unfolding pools_spec_def s_def [symmetric]
    by (simp add: comp_assoc image_comp)
qed

text \<open>
  C25: The pools of both layers are those of the specification: one pool for every name under which a backend is registered for
  a service that has endpoints with subsets, and a pool holds, in order, one node for every address and port of the endpoints of these
  services, with the weight of the backend.
\<close>

theorem pools_exact:
  assumes "ListPool env b base7 base4 = (pools7, pools4)" "gm_wf (b_back7 b)" "gm_wf (b_back4 b)"
  shows "pools_spec (b_back7 b) (b_pool7 b) (map snd (g_endpoints env)) pools7 \<and>
    pools_spec (b_back4 b) (b_pool4 b) (map snd (g_endpoints env)) pools4"
  using layer_pools_exact [OF assms(2), of new_l7_pool] layer_pools_exact [OF assms(3), of new_l4_pool] assms(1)
  by (auto simp: ListPool_passes new_l7_pool_def new_l4_pool_def zero_pool_def)

text \<open>
  Well-formed ingresses: rules with an HTTP part, paths with a service, a service in the default
  backend, and a default backend whenever layer 4 is asked for.
\<close>

definition ing_complete :: "gw_env \<Rightarrow> ingress \<Rightarrow> bool" where
  "ing_complete env i \<longleftrightarrow>
     (\<forall>r \<in> set (i_rules i). \<exists>ps. r_http r = Some ps \<and> (\<forall>p \<in> set ps. ip_service p \<noteq> None)) \<and>
     (\<forall>d. i_default i = Some d \<longrightarrow> ib_service d \<noteq> None) \<and>
     (l4_wanted (g_extract env (i_meta i)) \<longrightarrow> i_default i \<noteq> None)"

lemma ing_completeD:
  assumes "ing_complete env i" "r \<in> set (i_rules i)"
  shows "\<exists>ps. r_http r = Some ps \<and> (\<forall>p \<in> set ps. ip_service p \<noteq> None)"
  using bspec [OF conjunct1 [OF assms(1) [unfolded ing_complete_def]] assms(2)] .

lemma first_path_total:
  "\<forall>r \<in> set rs. \<exists>ps. r_http r = Some ps \<and> (\<forall>p \<in> set ps. ip_service p \<noteq> None) \<Longrightarrow>
     \<exists>mp. first_path rs = Inr mp \<and> (\<forall>p. mp = Some p \<longrightarrow> ip_service p \<noteq> None) \<and> (rs = [] \<longrightarrow> mp = None)"
  by (induction rs) (force split: list.splits)+

lemma getEndpointKey_total:
  assumes "ing_complete env i"
  shows "\<exists>k. getEndpointKey i = Inr k \<and> (i_default i = None \<and> i_rules i = [] \<longrightarrow> k = [])"
proof (cases "i_default i")
  case None
  have "\<forall>r \<in> set (i_rules i). \<exists>ps. r_http r = Some ps \<and> (\<forall>p \<in> set ps. ip_service p \<noteq> None)"
    using assms by (simp add: ing_complete_def)
  from first_path_total [OF this] obtain mp where "first_path (i_rules i) = Inr mp"
      "\<forall>p. mp = Some p \<longrightarrow> ip_service p \<noteq> None" "i_rules i = [] \<longrightarrow> mp = None"
    by blast
  then show ?thesis
    using None by (cases mp) (auto simp: getEndpointKey_def path_service_def)
qed (use assms in \<open>auto simp: getEndpointKey_def ing_complete_def\<close>)

lemma ingressIsValid_total:
  assumes "ing_complete env i"
  shows "\<exists>v. ingressIsValid env i = Inr v \<and> (v \<longrightarrow> i_default i \<noteq> None \<or> i_rules i \<noteq> [])"
proof -
  obtain k where k: "getEndpointKey i = Inr k" "i_default i = None \<and> i_rules i = [] \<longrightarrow> k = []"
    using getEndpointKey_total [OF assms] by blast
  show ?thesis
  proof (cases "k = []")
    case False
    then show ?thesis
      using k by (cases "map_of (g_endpoints env) k") (auto simp: ingressIsValid_def)
  qed (use k in \<open>auto simp: ingressIsValid_def\<close>)
qed

lemma ing_service_total:
  assumes "ing_complete env i" "i_default i \<noteq> None \<or> i_rules i \<noteq> []"
  shows "\<exists>ms. ing_service i = Inr ms"
proof (cases "i_default i")
  case None
  then obtain r rs where rs: "i_rules i = r # rs"
    using assms(2) by (cases "i_rules i") auto
  then have "r \<in> set (i_rules i)"
    by simp
  then obtain ps where ps: "r_http r = Some ps" "\<forall>p \<in> set ps. ip_service p \<noteq> None"
    using ing_completeD [OF assms(1)] by blast
  then show ?thesis
    using None rs by (cases ps) (auto simp: ing_service_def path_service_def)
next
  case (Some d)
  then show ?thesis
    using assms(1) by (auto simp: ing_service_def ing_complete_def)
qed

lemma path_step_total: "ip_service p \<noteq> None \<Longrightarrow> \<exists>b'. path_step env i anns name b p = Inr b'"
  by (auto simp: path_step_def path_service_def Let_def split: prod.splits)

lemma l7_region_total:
  assumes "ing_complete env i"
  shows "\<exists>b'. l7_region env i anns b = Inr b'"
proof -
  have "\<exists>v. rule_step env i anns ssl u r = Inr v" if r: "r \<in> set (i_rules i)" for u r ssl
  proof -
    obtain ps where ps: "r_http r = Some ps" "\<forall>p \<in> set ps. ip_service p \<noteq> None"
      using ing_completeD [OF assms r] by blast
    then show ?thesis
      using for_go_total [of "\<lambda>_. True" _ ps "path_step env i anns (vir_srv_name ssl r)"] path_step_total
      by (simp add: rule_step_ensure)
  qed
  then show ?thesis
    using for_go_total [of "\<lambda>_. True" b "i_rules i"] by (simp add: l7_region_def)
qed

lemma first_pass_step_total:
  assumes "ing_complete env i"
  shows "\<exists>b'. first_pass_step env b i = Inr b'"
proof -
  obtain v where v: "ingressIsValid env i = Inr v" "v \<longrightarrow> i_default i \<noteq> None \<or> i_rules i \<noteq> []"
    using ingressIsValid_total [OF assms] by blast
  have l4: "\<exists>b'. l4_region env i s anns b = Inr b'" if "i_default i \<noteq> None" for s anns
    using that assms by (auto simp: l4_region_def ing_complete_def Let_def)
  show ?thesis
  proof (cases v)
    case True
    then obtain ms where "ing_service i = Inr ms"
      using ing_service_total [OF assms] v by blast
    then show ?thesis
      using v True l4 l7_region_total [OF assms] assms
      by (cases ms) (auto simp: first_pass_step_def ing_complete_def Let_def)
  qed (use v in \<open>simp add: first_pass_step_def\<close>)
qed

lemma second_pass_step_total:
  assumes "ing_complete env i"
  shows "\<exists>b'. second_pass_step env b i = Inr b'"
proof -
  have "\<exists>v. redirect_rule_step env anns u r = Inr v" if "r \<in> set (i_rules i)" for anns u r
    using assms that by (auto simp: ing_complete_def redirect_rule_step_ensure)
  then have "\<exists>v. for_go (redirect_rule_step env anns) b (i_rules i) = Inr v" for anns
    using for_go_total [of "\<lambda>_. True" b "i_rules i"] by simp
  then show ?thesis
    using ingressIsValid_total [OF assms] by (auto simp: second_pass_step_def Let_def)
qed

lemma ListVirtualService_total:
  assumes "\<forall>i \<in> set (g_ingresses env). ing_complete env i"
  shows "\<exists>l7 l4 b. ListVirtualService env base p7 p4 = Inr (l7, l4, b)"
proof -
  obtain b1 where b1: "for_go (first_pass_step env) (start_build base p7 p4) (g_ingresses env) = Inr b1"
    using for_go_total [of "\<lambda>_. True" "start_build base p7 p4" "g_ingresses env" "first_pass_step env"]
      first_pass_step_total assms by auto
  moreover obtain b where "for_go (second_pass_step env) b1 (g_ingresses env) = Inr b"
    using for_go_total [of "\<lambda>_. True" b1 "g_ingresses env" "second_pass_step env"]
      second_pass_step_total assms by auto
  ultimately show ?thesis
    by (simp add: ListVirtualService_def build_gateway_def)
qed

text \<open>
  The derivation of the virtual services ends without a panic when every ingress in the cache is
  complete, whatever the services, endpoints and certificates are.
\<close>

theorem gateway_never_panics:
  assumes "\<forall>i \<in> set (g_ingresses env). ing_complete env i"
  shows "\<exists>l7 l4 b. ListVirtualService env base p7 p4 = Inr (l7, l4, b)"
  by (rule ListVirtualService_total [OF assms])

section \<open>Defects\<close>

lemma for_go_panics:
  assumes "x \<in> set xs" "\<And>u. \<exists>e. f u x = Inl e"
  shows "\<exists>e. for_go f s xs = Inl e"
  using assms(1)
proof (induction xs arbitrary: s)
  case (Cons y ys)
  then show ?case
    using assms(2) [of s] by (cases "f s y") auto
qed simp

text \<open>
  One ingress that asks for layer 4 and has rules but no default backend makes the whole
  derivation panic: the service is read from the rules, but the protocol from the missing default
  backend.
\<close>

theorem l4_without_default_panics:
  assumes "i \<in> set (g_ingresses env)" "ingressIsValid env i = Inr True"
    and "ing_service i = Inr (Some svc)" "i_default i = None"
    and "l4_wanted (g_extract env (i_meta i))"
    and "replace_byte (CHR '' '') [] (L4Host (a_l4 (g_extract env (i_meta i)))) = []"
  shows "\<exists>e. ListVirtualService env base p7 p4 = Inl e"
proof -
  have "\<exists>e. first_pass_step env u i = Inl e" for u
    using assms(2-6) by (simp add: first_pass_step_def l4_region_def Let_def)
  then have "\<exists>e. for_go (first_pass_step env) (start_build base p7 p4) (g_ingresses env) = Inl e"
    by (rule for_go_panics [OF assms(1)])
  then show ?thesis
    by (auto simp: ListVirtualService_def build_gateway_def)
qed

text \<open>
  Two ingresses for the same layer-4 address are both kept. Although the listening address is
  already taken, the later ingress still gets a virtual service on it: the check for conflicts only
  continues its own loop.
\<close>

theorem l4_conflict_kept:
  assumes "i_default i = Some d" "ib_service d = Some svc"
    and "L4Host (a_l4 anns) = []"
    and "L4Port (a_l4 anns) \<notin> {lp_http (g_ports env), lp_https (g_ports env), lp_health (g_ports env), lp_status (g_ports env)}"
    and l: "l = l4_listening ''0.0.0.0'' (L4Port (a_l4 anns))
      (GetServiceProtocol env (Namespace (i_meta i) @ ''/'' @ svc) (ib_port d))"
    and "map_of (b_l4map b) l = Some old" "old \<in> set (b_l4 b)" "Listening old = [l]"
  shows "\<exists>b'. l4_region env i svcName anns b = Inr b' \<and> length (b_l4 b') = Suc (length (b_l4 b)) \<and>
    \<not> distinct (map Listening (b_l4 b'))"
proof -
  obtain vs b' where "l4_region env i svcName anns b = Inr b'" "b_l4 b' = b_l4 b @ [vs]" "Listening vs = [l]"
    using assms(1-5) by (auto simp: l4_region_def Let_def replace_byte_def l4_vs_def)
  moreover have "[l] \<in> Listening ` set (b_l4 b)"
    using assms(7,8) by force
  ultimately show ?thesis
    by auto
qed

text \<open>The hosts of the certificates, and the default.\<close>

lemma tls_step_keys:
  "dom (map_of (tls_step env ns m tls)) \<subseteq> dom (map_of m) \<union> set (tls_hosts tls) \<union> {DefVirSrvName}"
proof -
  have "dom (map_of (foldl (\<lambda>m host. AList.update host c m) m hs)) = dom (map_of m) \<union> set hs"
    for c :: "ssl_cert ptr" and hs
    by (induction hs arbitrary: m) (simp_all add: update_conv')
  then show ?thesis
    by (simp add: tls_step_def Let_def update_conv' split: option.splits) blast
qed

lemma hostSSLMap_keys:
  "dom (map_of (hostSSLMap env i)) \<subseteq> (\<Union>tls \<in> set (i_tls i). set (tls_hosts tls)) \<union> {DefVirSrvName}"
proof -
  have "dom (map_of (foldl (tls_step env ns) m ts)) \<subseteq>
      dom (map_of m) \<union> (\<Union>tls \<in> set ts. set (tls_hosts tls)) \<union> {DefVirSrvName}" for m ns ts
  proof (induction ts arbitrary: m)
    case (Cons t ts)
    have "dom (map_of (foldl (tls_step env ns) m (t # ts))) \<subseteq>
        dom (map_of (tls_step env ns m t)) \<union> (\<Union>tls \<in> set ts. set (tls_hosts tls)) \<union> {DefVirSrvName}"
      using Cons.IH [of "tls_step env ns m t"] by simp
    also have "\<dots> \<subseteq> dom (map_of m) \<union> (\<Union>tls \<in> set (t # ts). set (tls_hosts tls)) \<union> {DefVirSrvName}"
      using tls_step_keys [of env ns m t] by simp blast
    finally show ?case .
  qed auto
  from this [of "Namespace (i_meta i)" "[]" "i_tls i"] show ?thesis
    by (simp add: hostSSLMap_def)
qed

text \<open>
  The certificate of a host is never used. The name looked up in the map from hosts to
  certificates already has the prefix that marks encrypted servers, so every virtual service of an
  ingress gets the first certificate, unless a host itself starts with that prefix.
\<close>

theorem host_certificate_ignored:
  assumes "hostSSLMap env i \<noteq> []"
    and "\<forall>tls \<in> set (i_tls i). \<forall>h \<in> set (tls_hosts tls). take 3 h \<noteq> ''tls''"
  shows "SSLCert (new_l7_vs env i anns (hostSSLMap env i) (vir_srv_name (hostSSLMap env i) r))
    = get_cert (hostSSLMap env i) DefVirSrvName"
proof -
  let ?n = "vir_srv_name (hostSSLMap env i) r"
  have "take 3 ?n = ''tls''"
    using assms(1) by (simp add: vir_srv_name_def Let_def)
  then have "?n \<notin> dom (map_of (hostSSLMap env i))"
    using hostSSLMap_keys [of env i] assms(2) by (auto simp: DefVirSrvName_def)
  then have "get_cert (hostSSLMap env i) ?n = Nil_ptr"
    by (simp add: get_cert_def domIff)
  then show ?thesis
    using assms(1) by (simp add: new_l7_vs_def)
qed

text \<open>The secret map only has the keys of ingresses.\<close>

lemma syncSecret_map [simp]: "si_map (syncSecret cert_of key st) = si_map st"
  by (simp add: syncSecret_def split: option.splits)

lemma syncSecrets_map [simp]: "si_map (syncSecrets cert_of i st) = si_map st"
proof -
  have "si_map (foldl (\<lambda>st key. syncSecret cert_of key st) st ks) = si_map st" for ks
    by (induction ks arbitrary: st) simp_all
  then show ?thesis
    by (simp add: syncSecrets_def)
qed

lemma ingress_event_keys:
  "dom (map_of (si_map (ingress_event cert_of i st))) \<subseteq> insert (meta_key (i_meta i)) (dom (map_of (si_map st)))"
proof -
  have "dom (map_of (foldl (\<lambda>m tls. gm_append k (f tls) m) m ts)) \<subseteq> insert k (dom (map_of m))"
    for f :: "ing_tls \<Rightarrow> string" and k m ts
  proof (induction ts arbitrary: m)
    case (Cons t ts)
    have "dom (map_of (gm_append k (f t) m)) = insert k (dom (map_of m))"
      by (auto simp: map_of_gm_append split: if_splits)
    then show ?case
      using Cons.IH [of "gm_append k (f t) m"] by simp
  qed auto
  then show ?thesis
    by (simp add: ingress_event_def secretIngressMap_update_def)
qed

text \<open>
  C39: A changed secret does not refresh the certificates that ingresses use. After any number of
  ingress events, the event for a secret leaves the certificates as they were, unless an ingress
  happens to have the same namespace and name as the secret.
\<close>

theorem secret_changes_missed:
  assumes "meta_key sec \<notin> meta_key ` i_meta ` set ings"
    and st: "st = foldl (\<lambda>st i. ingress_event cert_of i st) \<lparr>si_map = [], ssl_store = []\<rparr> ings"
  shows "secret_event cert_of' ingress_of sec st = st"
proof -
  have "dom (map_of (si_map (foldl (\<lambda>st i. ingress_event cert_of i st) st0 is))) \<subseteq>
      meta_key ` i_meta ` set is \<union> dom (map_of (si_map st0))" for st0 "is"
  proof (induction "is" arbitrary: st0)
    case (Cons i "is")
    show ?case
      using Cons.IH [of "ingress_event cert_of i st0"] ingress_event_keys [of cert_of i st0] by auto
  qed simp
  from this [of "\<lparr>si_map = [], ssl_store = []\<rparr>" ings] have "map_of (si_map st) (meta_key sec) = None"
    using assms(1) unfolding st by auto
  then show ?thesis
    by (simp add: secret_event_def getSecretKeys_def)
qed

section \<open>Witnesses\<close>

definition demo_meta :: "string \<Rightarrow> object_meta" where
  "demo_meta n = \<lparr>Name = n, Namespace = ''ns'', Labels = [], Annotations = [], CreationTimestamp = 0,
     DeletionTimestamp = None, ResourceVersion = ''1''\<rparr>"

definition demo_anns :: "bool \<Rightarrow> ing_anns" where
  "demo_anns l4 = \<lparr>a_meta = demo_meta ''i'', a_header = None, a_cookie = None, a_weight = 1, a_rewrite = zero_rewrite,
     a_l4 = \<lparr>L4Enable = l4, L4Host = [], L4Port = (if l4 then 3306 else 0), KeepaliveEnabled = False,
       KeepaliveIdle = [], KeepaliveIntvl = [], KeepaliveCnt = [], l4_ProxyStreamTimeout = [],
       l4_ProxyStreamNextUpstreamTimeout = []\<rparr>,
     a_hash_by = [], a_lb_type = [], a_proxy = NewProxyConfig\<rparr>"

definition demo_endpoints :: gw_endpoints where
  "demo_endpoints = \<lparr>ge_meta = demo_meta ''svc'', ge_subsets = [\<lparr>Addresses = [''10.0.0.1''], Ports = [80]\<rparr>]\<rparr>"

definition demo_rule :: ing_rule where
  "demo_rule = \<lparr>r_host = ''a.io'', r_http = Some [\<lparr>ip_path = ''/'', ip_service = Some ''svc''\<rparr>]\<rparr>"

definition demo_ingress :: "ing_tls list \<Rightarrow> ingress" where
  "demo_ingress tls = \<lparr>i_beta = False, i_meta = demo_meta ''i'', i_default = None, i_tls = tls, i_rules = [demo_rule]\<rparr>"

definition demo_env :: "bool \<Rightarrow> gw_env" where
  "demo_env l4 = \<lparr>g_ingresses = [demo_ingress []], g_endpoints = [(''ns/svc'', demo_endpoints)],
     g_services = [], g_ssl = [(''ns/s1'', Ptr 0 \<lparr>s_Meta = Nil_ptr, CertificateStr = [], Certificate = None,
       PrivateKey = [], CertificatePem = [], CN = [], ExpireTime = 0\<rparr>)],
     g_ports = \<lparr>lp_http = 80, lp_https = 443, lp_health = 10254, lp_status = 18080\<rparr>,
     g_extract = (\<lambda>_. demo_anns l4), g_backend = NewDefault, g_parse_ip = (\<lambda>_. True),
     g_ip_here = (\<lambda>_. True), g_ssl_protocols = []\<rparr>"

lemmas demo_defs = demo_env_def demo_ingress_def demo_rule_def demo_endpoints_def demo_anns_def demo_meta_def

lemma demo_valid: "ingressIsValid (demo_env l4) (demo_ingress tls) = Inr True"
  by (simp add: ingressIsValid_def getEndpointKey_def path_service_def hasReadyAddresses_def demo_defs)

lemma demo_service: "ing_service (demo_ingress tls) = Inr (Some ''svc'')"
  by (simp add: ing_service_def path_service_def demo_defs)

lemma demo_env_ok: "env_ok (demo_env l4)"
  by (simp add: env_ok_def rule_ok_def slash_path_def demo_defs)

lemma demo_complete: "\<forall>i \<in> set (g_ingresses (demo_env False)). ing_complete (demo_env False) i"
  by (simp add: ing_complete_def l4_wanted_def demo_defs)

lemma demo_lists:
  obtains l7 l4 b pools7 pools4 where "ListVirtualService (demo_env False) 0 [] [] = Inr (l7, l4, b)"
    and "ListPool (demo_env False) b 0 100 = (pools7, pools4)"
  using ListVirtualService_total [OF demo_complete, of 0 "[]" "[]"] by (metis surj_pair)

lemma paths_reach_endpoints_witness:
  "\<exists>l7 l4 b pools7 pools4. ListVirtualService (demo_env False) 0 [] [] = Inr (l7, l4, b) \<and>
    ListPool (demo_env False) b 0 100 = (pools7, pools4) \<and>
    (\<exists>vs \<in> set l7. ServerName vs = ''a.io'' \<and>
      (\<exists>a loc. Ptr a loc \<in> set (Locations vs) \<and> Path loc = ''/'' \<and>
        (\<exists>pool \<in> set pools7. m_Name (p_Meta pool) \<in> fst ` set (NameCondition loc) \<and>
          (\<exists>a' node. Ptr a' node \<in> set (Nodes pool) \<and> Host node = ''10.0.0.1'' \<and> Port node = 80 \<and> Weight node = 1))))"
proof -
  obtain l7 l4 b pools7 pools4 where lists: "ListVirtualService (demo_env False) 0 [] [] = Inr (l7, l4, b)"
      "ListPool (demo_env False) b 0 100 = (pools7, pools4)"
    by (rule demo_lists)
  have name: "vir_srv_name (hostSSLMap (demo_env False) (demo_ingress [])) demo_rule = ''a.io''"
    by (simp add: vir_srv_name_def hostSSLMap_def replace_byte_def demo_defs)
  have "served_l7 (demo_env False) (demo_ingress [])"
    using demo_valid demo_service by (simp add: served_l7_def l4_wanted_def) (simp add: demo_defs)
  note reach = paths_reach_endpoints [OF demo_env_ok lists _ this, of demo_rule
    "[\<lparr>ip_path = ''/'', ip_service = Some ''svc''\<rparr>]" "\<lparr>ip_path = ''/'', ip_service = Some ''svc''\<rparr>" "''svc''"
    "''ns/svc''" demo_endpoints "\<lparr>Addresses = [''10.0.0.1''], Ports = [80]\<rparr>" 80 "''10.0.0.1''", unfolded name]
  have "\<exists>vs \<in> set l7. ServerName vs = ''a.io'' \<and>
      (\<exists>a loc. Ptr a loc \<in> set (Locations vs) \<and> Path loc = ''/'' \<and>
        (\<exists>pool \<in> set pools7. m_Name (p_Meta pool) \<in> fst ` set (NameCondition loc) \<and>
          (\<exists>a' node. Ptr a' node \<in> set (Nodes pool) \<and> Host node = ''10.0.0.1'' \<and> Port node = 80 \<and> Weight node = 1)))"
    using reach by (simp add: demo_defs)
  with lists show ?thesis
    by blast
qed

lemma server_names_unique_witness:
  "\<exists>l7 l4 b. ListVirtualService (demo_env False) 0 [] [] = Inr (l7, l4, b) \<and> distinct (map ServerName l7)"
proof -
  obtain l7 l4 b where "ListVirtualService (demo_env False) 0 [] [] = Inr (l7, l4, b)"
    using ListVirtualService_total [OF demo_complete] by blast
  then show ?thesis
    using server_names_unique [OF demo_env_ok] by blast
qed

lemma gateway_never_panics_witness:
  "\<exists>l7 l4 b. ListVirtualService (demo_env False) 0 [] [] = Inr (l7, l4, b)"
  using gateway_never_panics [OF demo_complete] .

lemma l4_without_default_panics_witness:
  "\<exists>e. ListVirtualService (demo_env True) 0 [] [] = Inl e"
proof (rule l4_without_default_panics [of "demo_ingress []" _ "''svc''"])
  show "ingressIsValid (demo_env True) (demo_ingress []) = Inr True" "ing_service (demo_ingress []) = Inr (Some ''svc'')"
    by (rule demo_valid demo_service)+
qed (simp_all add: demo_defs l4_wanted_def replace_byte_def)

definition demo_backend :: backend_ref where
  "demo_backend = \<lparr>bk_name = ''pool'', bk_weight = 2, bk_hashBy = [], bk_lbType = []\<rparr>"

definition demo_build :: gw_build where
  "demo_build = (start_build 0 [''svc''] [])\<lparr>b_back7 := [(''svc'', [demo_backend])]\<rparr>"

lemma pools_exact_witness:
  "map (\<lambda>p. (m_Name (p_Meta p), map node_view (Nodes p))) (fst (ListPool (demo_env False) demo_build 0 0))
     = [(''pool'', [Some (''10.0.0.1'', 80, 2)])]"
proof -
  obtain p7 p4 where pools: "ListPool (demo_env False) demo_build 0 0 = (p7, p4)"
    by fastforce
  have wf: "gm_wf (b_back7 demo_build)" "gm_wf (b_back4 demo_build)"
    by (simp_all add: demo_build_def start_build_def)
  have spec: "pools_spec [(''svc'', [demo_backend])] [''svc''] [demo_endpoints] p7"
    using pools_exact [OF pools wf] by (simp add: demo_build_def start_build_def demo_defs)
  have "n \<in> m_Name ` p_Meta ` set p7 \<longleftrightarrow> n = ''pool''" for n
    using spec by (auto simp: pools_spec_def demo_backend_def demo_defs)
  then have names: "m_Name ` p_Meta ` set p7 = {''pool''}"
    by blast
  then obtain q where q: "p7 = [q]"
    using spec by (cases p7; cases "tl p7") (auto simp: pools_spec_def)
  have "m_Name (p_Meta q) = ''pool''"
    using names by (simp add: q)
  moreover have "spec_nodes [(''svc'', [demo_backend])] [''svc''] [demo_endpoints] ''pool'' = [(''10.0.0.1'', 80, 2)]"
    by (simp add: spec_nodes_def demo_backend_def demo_defs)
  ultimately show ?thesis
    using spec by (simp add: pools q pools_spec_def)
qed

lemma l4_conflict_kept_witness:
  "let i = (demo_ingress [])\<lparr>i_default := Some \<lparr>ib_service = Some ''svc'', ib_port = 80\<rparr>\<rparr>;
       old = zero_vs\<lparr>Listening := [''0.0.0.0:3306'']\<rparr>;
       b = (start_build 0 [] [])\<lparr>b_l4map := [(''0.0.0.0:3306'', old)], b_l4 := [old]\<rparr>
   in \<exists>b'. l4_region (demo_env True) i ''svc'' (demo_anns True) b = Inr b' \<and> length (b_l4 b') = 2 \<and>
        \<not> distinct (map Listening (b_l4 b'))"
proof -
  let ?i = "(demo_ingress [])\<lparr>i_default := Some \<lparr>ib_service = Some ''svc'', ib_port = 80\<rparr>\<rparr>"
  let ?old = "zero_vs\<lparr>Listening := [''0.0.0.0:3306'']\<rparr>"
  let ?b = "(start_build 0 [] [])\<lparr>b_l4map := [(''0.0.0.0:3306'', ?old)], b_l4 := [?old]\<rparr>"
  have "''0.0.0.0:3306'' = l4_listening ''0.0.0.0'' (L4Port (a_l4 (demo_anns True)))
      (GetServiceProtocol (demo_env True) (Namespace (i_meta ?i) @ ''/'' @ ''svc'') 80)"
    by (simp add: l4_listening_def GetServiceProtocol_def go_itoa_def nat_str.simps digit_char_def
        char_of_def bit_iff_odd demo_defs)
  then have "\<exists>b'. l4_region (demo_env True) ?i ''svc'' (demo_anns True) ?b = Inr b' \<and>
      length (b_l4 b') = Suc (length (b_l4 ?b)) \<and> \<not> distinct (map Listening (b_l4 b'))"
    by (intro l4_conflict_kept [where d = "\<lparr>ib_service = Some ''svc'', ib_port = 80\<rparr>" and svc = "''svc''"
          and l = "''0.0.0.0:3306''" and old = ?old]) (simp_all add: demo_defs)
  then show ?thesis
    by (auto simp: Let_def)
qed

lemma host_certificate_ignored_witness:
  "let i = demo_ingress [\<lparr>tls_hosts = [''b.io''], tls_secret = ''s1''\<rparr>, \<lparr>tls_hosts = [''a.io''], tls_secret = ''s2''\<rparr>]
   in SSLCert (new_l7_vs (demo_env False) i (demo_anns False) (hostSSLMap (demo_env False) i)
        (vir_srv_name (hostSSLMap (demo_env False) i) demo_rule))
      = get_cert (hostSSLMap (demo_env False) i) DefVirSrvName"
proof -
  let ?i = "demo_ingress [\<lparr>tls_hosts = [''b.io''], tls_secret = ''s1''\<rparr>, \<lparr>tls_hosts = [''a.io''], tls_secret = ''s2''\<rparr>]"
  have "hostSSLMap (demo_env False) ?i \<noteq> []"
    by (simp add: hostSSLMap_def tls_step_def DefVirSrvName_def demo_defs)
  moreover have "\<forall>tls \<in> set (i_tls ?i). \<forall>h \<in> set (tls_hosts tls). take 3 h \<noteq> ''tls''"
    by (simp add: demo_defs)
  ultimately show ?thesis
    using host_certificate_ignored by (simp add: Let_def)
qed

lemma secret_changes_missed_witness:
  "let cert = (\<lambda>n. Ptr n \<lparr>s_Meta = Nil_ptr, CertificateStr = [], Certificate = None,
         PrivateKey = [], CertificatePem = [], CN = [], ExpireTime = int n\<rparr>);
       st = ingress_event (\<lambda>_. Some (cert 0)) (demo_ingress [\<lparr>tls_hosts = [], tls_secret = ''s1''\<rparr>])
              \<lparr>si_map = [], ssl_store = []\<rparr>
   in map_of (ssl_store st) ''ns/s1'' = Some (cert 0) \<and>
      secret_event (\<lambda>_. Some (cert 1)) (\<lambda>_. Some (demo_ingress [])) (demo_meta ''s1'') st = st"
proof -
  let ?i = "demo_ingress [\<lparr>tls_hosts = [], tls_secret = ''s1''\<rparr>]"
  have "meta_key (demo_meta ''s1'') \<notin> meta_key ` i_meta ` set [?i]"
    by (simp add: meta_key_def demo_defs)
  note missed = secret_changes_missed [OF this refl, of _ "\<lambda>_. Some (demo_ingress [])"]
  show ?thesis
    unfolding Let_def
    by (rule conjI [OF _ missed [unfolded foldl_Cons foldl_Nil]])
       (simp add: ingress_event_def secretIngressMap_update_def syncSecrets_def getSecretKeys_def syncSecret_def
          gm_append_def meta_key_def demo_defs)
qed

end
