(* ===== verification/Gateway_Nginx.thy ===== *)
theory Gateway_Nginx
  imports Gateway_Routing
begin

text \<open>
  From the derived configuration to nginx: the servers and backends made from virtual services and
  pools (\<^verbatim>\<open>src/gateway/controller/openresty/service.go\<close> and \<^verbatim>\<open>model\<close>), the
  configuration files that are written, checked and rolled back
  (\<^verbatim>\<open>src/gateway/controller/openresty/template\<close>), and the synchronisation that decides when to
  do so (\<^verbatim>\<open>src/gateway/controller/controller.go\<close>).

  The templates, the file system, the check of nginx, its reload and its HTTP interface are
  parameters (\<open>ngx_env\<close>).
\<close>

section \<open>Servers\<close>

record ngx_location =
  nl_Path :: string
  nl_DisableAccessLog :: bool
  nl_AccessLogPath :: string
  nl_EnableMetrics :: bool
  nl_NameCondition :: "condition ptr gomap"
  nl_Proxy :: proxy_config
  nl_Rewrite :: rewrite_config
  nl_PathRewrite :: bool
  nl_DisableProxyPass :: bool

text \<open>The fields of a server that are set somewhere.\<close>

record ngx_server =
  sv_Listen :: string
  sv_Protocol :: string
  sv_ServerName :: string
  sv_SSLProtocols :: string
  sv_SSLCertificate :: string
  sv_SSLCertificateKey :: string
  sv_EnableSSLStapling :: bool
  sv_Locations :: "ngx_location list"
  sv_OptionValue :: "string gomap"
  sv_UpstreamName :: string
  sv_ProxyStreamTimeout :: string
  sv_ProxyStreamNextUpstream :: bool
  sv_ProxyStreamNextUpstreamTimeout :: string
  sv_ProxyStreamNextUpstreamTries :: int
  sv_TCPKeepaliveEnabled :: bool
  sv_TCPKeepaliveIdle :: string
  sv_TCPKeepaliveIntvl :: string
  sv_TCPKeepaliveCnt :: string

record ngx_options =
  oc_AccessLogPath :: string
  oc_EnableSSLStapling :: bool

text \<open>A loop that appends the result for every element.\<close>

fun map_go :: "('a \<Rightarrow> 'b go) \<Rightarrow> 'a list \<Rightarrow> 'b list go" where
  "map_go f [] = Inr []"
| "map_go f (x # xs) = bind_go (f x) (\<lambda>y. bind_go (map_go f xs) (\<lambda>ys. Inr (y # ys)))"

definition ngx_loc :: "ngx_options \<Rightarrow> location ptr \<Rightarrow> ngx_location go" where
  "ngx_loc oc l =
     (case l of
        Nil_ptr \<Rightarrow> Inl NilDereference
      | Ptr a loc \<Rightarrow> Inr
          \<lparr>nl_Path = Path loc, nl_DisableAccessLog = (oc_AccessLogPath oc = []),
           nl_AccessLogPath = oc_AccessLogPath oc, nl_EnableMetrics = True,
           nl_NameCondition = NameCondition loc, nl_Proxy = l_Proxy loc, nl_Rewrite = l_Rewrite loc,
           nl_PathRewrite = PathRewrite loc, nl_DisableProxyPass = DisableProxyPass loc\<rparr>)"

definition option_value :: "virtual_service \<Rightarrow> string gomap" where
  "option_value vs = [(''tenant_env_id'', m_Namespace (v_Meta vs)), (''service_id'', m_ServiceID (v_Meta vs))]"

definition l7_base :: "virtual_service \<Rightarrow> ngx_location list \<Rightarrow> ngx_server" where
  "l7_base vs locs =
     \<lparr>sv_Listen = join_byte (CHR '' '') (Listening vs), sv_Protocol = ''HTTP'',
      sv_ServerName = replace_first ''tls'' [] (ServerName vs), sv_SSLProtocols = [], sv_SSLCertificate = [],
      sv_SSLCertificateKey = [], sv_EnableSSLStapling = False, sv_Locations = locs,
      sv_OptionValue = option_value vs, sv_UpstreamName = [], sv_ProxyStreamTimeout = [],
      sv_ProxyStreamNextUpstream = True, sv_ProxyStreamNextUpstreamTimeout = ''600s'',
      sv_ProxyStreamNextUpstreamTries = 3, sv_TCPKeepaliveEnabled = False, sv_TCPKeepaliveIdle = [],
      sv_TCPKeepaliveIntvl = [], sv_TCPKeepaliveCnt = []\<rparr>"

text \<open>The file of a certificate holds the key as well.\<close>

definition with_cert :: "ngx_options \<Rightarrow> virtual_service \<Rightarrow> ngx_server \<Rightarrow> ngx_server" where
  "with_cert oc vs s =
     (case SSLCert vs of
        Nil_ptr \<Rightarrow> s
      | Ptr a c \<Rightarrow> s\<lparr>sv_SSLProtocols := SSlProtocols vs, sv_SSLCertificate := CertificatePem c,
          sv_SSLCertificateKey := CertificatePem c, sv_EnableSSLStapling := oc_EnableSSLStapling oc\<rparr>)"

definition l7_server :: "ngx_options \<Rightarrow> virtual_service ptr \<Rightarrow> ngx_server go" where
  "l7_server oc v =
     (case v of
        Nil_ptr \<Rightarrow> Inl NilDereference
      | Ptr a vs \<Rightarrow> bind_go (map_go (ngx_loc oc) (Locations vs)) (\<lambda>locs. Inr (with_cert oc vs (l7_base vs locs))))"

definition l4_server :: "ngx_options \<Rightarrow> virtual_service ptr \<Rightarrow> ngx_server go" where
  "l4_server oc v =
     (case v of
        Nil_ptr \<Rightarrow> Inl NilDereference
      | Ptr a vs \<Rightarrow> bind_go (map_go (ngx_loc oc) (Locations vs)) (\<lambda>locs. Inr
          \<lparr>sv_Listen = join_byte (CHR '' '') (Listening vs), sv_Protocol = v_Protocol vs, sv_ServerName = [],
           sv_SSLProtocols = [], sv_SSLCertificate = [], sv_SSLCertificateKey = [],
           sv_EnableSSLStapling = False, sv_Locations = locs, sv_OptionValue = option_value vs,
           sv_UpstreamName = v_PoolName vs, sv_ProxyStreamTimeout = ProxyStreamTimeout vs,
           sv_ProxyStreamNextUpstream = True,
           sv_ProxyStreamNextUpstreamTimeout = ProxyStreamNextUpstreamTimeout vs,
           sv_ProxyStreamNextUpstreamTries = 3, sv_TCPKeepaliveEnabled = TCPKeepaliveEnabled vs,
           sv_TCPKeepaliveIdle = TCPKeepaliveIdle vs, sv_TCPKeepaliveIntvl = TCPKeepaliveIntvl vs,
           sv_TCPKeepaliveCnt = TCPKeepaliveCnt vs\<rparr>))"

definition getNgxServer :: "ngx_options \<Rightarrow> gw_config \<Rightarrow> (ngx_server list \<times> ngx_server list) go" where
  "getNgxServer oc conf =
     bind_go (map_go (l7_server oc) (L7VS conf)) (\<lambda>l7.
     bind_go (map_go (l4_server oc) (L4VS conf)) (\<lambda>l4. Inr (l7, l4)))"

section \<open>Backends\<close>

record ngx_endpoint =
  ne_Address :: string
  ne_Port :: string
  ne_Weight :: int

record ngx_backend =
  nb_Name :: string
  nb_Endpoints :: "ngx_endpoint list"
  nb_AffinityType :: string
  nb_CookieName :: string
  nb_UpstreamHashBy :: string
  nb_LoadBalancing :: string

definition pool_endpoint :: "node ptr \<Rightarrow> ngx_endpoint go" where
  "pool_endpoint n =
     (case n of Nil_ptr \<Rightarrow> Inl NilDereference
      | Ptr a node \<Rightarrow> Inr \<lparr>ne_Address = Host node, ne_Port = go_itoa (Port node), ne_Weight = Weight node\<rparr>)"

definition CreateBackendByPool :: "pool ptr \<Rightarrow> ngx_backend go" where
  "CreateBackendByPool p =
     (case p of Nil_ptr \<Rightarrow> Inl NilDereference
      | Ptr a pool \<Rightarrow> bind_go (map_go pool_endpoint (Nodes pool)) (\<lambda>eps. Inr
          \<lparr>nb_Name = m_Name (p_Meta pool), nb_Endpoints = eps,
           nb_AffinityType = (if LoadBalancingType pool = CookieSessionAffinity then ''cookie'' else []),
           nb_CookieName = (if LoadBalancingType pool = CookieSessionAffinity then ''wutong-route'' else []),
           nb_UpstreamHashBy = UpstreamHashBy pool,
           nb_LoadBalancing = (if LoadBalancingType pool = RoundRobin then ''round_robin'' else [])\<rparr>))"

text \<open>The backends of layer 4 carry names, addresses and ports only.\<close>

definition stream_backend :: "pool ptr \<Rightarrow> ngx_backend go" where
  "stream_backend p =
     (case p of Nil_ptr \<Rightarrow> Inl NilDereference
      | Ptr a pool \<Rightarrow> bind_go (map_go pool_endpoint (Nodes pool)) (\<lambda>eps. Inr
          \<lparr>nb_Name = m_Name (p_Meta pool), nb_Endpoints = map (\<lambda>e. e\<lparr>ne_Weight := 0\<rparr>) eps,
           nb_AffinityType = [], nb_CookieName = [], nb_UpstreamHashBy = [], nb_LoadBalancing = []\<rparr>))"

section \<open>Validation\<close>

record ngx_context =
  cx_Servers :: "ngx_server list"
  cx_TCPBackends :: "ngx_server list"
  cx_UDPBackends :: "ngx_server list"

text \<open>How one write of a file goes: the number of bytes written before an error, if there is one.\<close>

record file_ops =
  fo_mkdir :: bool
  fo_read :: bool
  fo_rename :: bool
  fo_open :: bool
  fo_write :: "nat option"
  fo_rollback :: bool
  fo_remove :: bool

record ngx_env =
  nx_valid_name :: "string \<Rightarrow> bool"
  nx_valid_value :: "string \<Rightarrow> bool"
  nx_http_tmpl :: "ngx_context \<Rightarrow> string option"
  nx_stream_tmpl :: "ngx_context \<Rightarrow> string option"
  nx_check :: "string option \<Rightarrow> string option \<Rightarrow> bool"
  nx_reload :: "string option \<Rightarrow> string option \<Rightarrow> bool"
  nx_http_file :: file_ops
  nx_stream_file :: file_ops
  nx_post :: bool
  nx_stream_write :: bool

definition Location_Validation :: "ngx_env \<Rightarrow> ngx_location \<Rightarrow> ngx_location option" where
  "Location_Validation env l =
     (if nl_Path l = [] then None
      else case Validation (nx_valid_name env) (nx_valid_value env) (nl_Proxy l) of
        (Some e, c) \<Rightarrow> None
      | (None, c) \<Rightarrow> Some (l\<lparr>nl_Proxy := c\<rparr>))"

fun validate_locations :: "ngx_env \<Rightarrow> ngx_location list \<Rightarrow> ngx_location list option" where
  "validate_locations env [] = Some []"
| "validate_locations env (l # ls) =
     (case Location_Validation env l of
        None \<Rightarrow> None
      | Some l' \<Rightarrow> map_option (\<lambda>ls'. l' # ls') (validate_locations env ls))"

definition Server_Validation :: "ngx_env \<Rightarrow> ngx_server \<Rightarrow> ngx_server option" where
  "Server_Validation env s =
     (if sv_ServerName s \<noteq> [] \<and> str_contains (sv_ServerName s) '' '' then None
      else
        let s1 = (if sv_ProxyStreamTimeout s = [] then s\<lparr>sv_ProxyStreamTimeout := ''600s''\<rparr> else s);
            s2 = (if sv_Protocol s1 = [] then
                    s1\<lparr>sv_Protocol := if sv_ServerName s1 \<noteq> [] then ''HTTP'' else ''TCP''\<rparr> else s1)
        in map_option (\<lambda>ls. s2\<lparr>sv_Locations := ls\<rparr>) (validate_locations env (sv_Locations s2)))"

definition write_servers :: "ngx_env \<Rightarrow> ngx_server list \<Rightarrow> ngx_server list" where
  "write_servers env servers = List.map_filter (Server_Validation env) servers"

definition server_context :: "ngx_server list \<Rightarrow> ngx_context" where
  "server_context servers =
     \<lparr>cx_Servers = filter (\<lambda>s. sv_Protocol s = ''HTTP'') servers,
      cx_TCPBackends = filter (\<lambda>s. sv_Protocol s = ''TCP'') servers,
      cx_UDPBackends = filter (\<lambda>s. sv_Protocol s = ''UDP'') servers\<rparr>"

section \<open>Configuration files\<close>

record conf_file =
  cf_body :: "string option"
  cf_bak :: "string option"

text \<open>
  \<^verbatim>\<open>writeFile\<close>: the old file is kept aside, the new one written and checked, and the old one
  put back when the check fails. A file that cannot be read counts as missing; the file is
  opened for appending. The boolean is success.
\<close>

definition writeFile :: "file_ops \<Rightarrow> (string option \<Rightarrow> bool) \<Rightarrow> bool \<Rightarrow> string \<Rightarrow> conf_file \<Rightarrow> bool \<times> conf_file" where
  "writeFile fo check first body f =
     (if \<not> fo_mkdir fo then (False, f)
      else
        let noOld = (cf_body f = None \<or> \<not> fo_read fo);
            old = (case cf_body f of None \<Rightarrow> [] | Some b \<Rightarrow> b)
        in if \<not> noOld \<and> \<not> fo_rename fo then (False, f)
           else
             let body' = (if \<not> noOld \<and> \<not> first then old @ body @ [CHR 0x0A] else body);
                 f1 = (if noOld then f else \<lparr>cf_body = None, cf_bak = Some old\<rparr>);
                 base = (case cf_body f1 of None \<Rightarrow> [] | Some b \<Rightarrow> b)
             in if \<not> fo_open fo then (False, f1)
                else case fo_write fo of
                  Some k \<Rightarrow> (False, f1\<lparr>cf_body := Some (base @ take k body')\<rparr>)
                | None \<Rightarrow>
                    (let f2 = f1\<lparr>cf_body := Some (base @ body')\<rparr>
                     in if \<not> check (cf_body f2) then
                          (False, if noOld \<or> \<not> fo_rollback fo then f2
                                  else \<lparr>cf_body = cf_bak f2, cf_bak = None\<rparr>)
                        else (True, if noOld \<or> \<not> fo_remove fo then f2 else f2\<lparr>cf_bak := None\<rparr>)))"

text \<open>
  \<^verbatim>\<open>WriteServer\<close>: servers that do not validate are left out; without servers the file is
  emptied. Apart from an empty file, an error of the write is only logged.
\<close>

definition WriteServer :: "ngx_env \<Rightarrow> file_ops \<Rightarrow> (ngx_context \<Rightarrow> string option) \<Rightarrow> (string option \<Rightarrow> bool) \<Rightarrow>
    ngx_server list \<Rightarrow> conf_file \<Rightarrow> bool \<times> conf_file" where
  "WriteServer env fo tmpl check servers f =
     (let ws = write_servers env servers
      in if length ws < 1 then writeFile fo check True [] f
         else case tmpl (server_context ws) of
           None \<Rightarrow> (False, f)
         | Some body \<Rightarrow> (True, snd (writeFile fo check True body f)))"

section \<open>The state of nginx\<close>

record ngx_state =
  ng_http :: conf_file
  ng_stream :: conf_file
  ng_loaded :: "string option \<times> string option"
  ng_backends :: "ngx_backend list"
  ng_streams :: "ngx_backend list"

text \<open>The results of both writes are ignored; only the reload can fail.\<close>

definition PersistConfig :: "ngx_env \<Rightarrow> ngx_options \<Rightarrow> gw_config \<Rightarrow> ngx_state \<Rightarrow> (bool \<times> ngx_state) go" where
  "PersistConfig env oc conf st =
     bind_go (getNgxServer oc conf) (\<lambda>(l7srv, l4srv).
       let http = snd (WriteServer env (nx_http_file env) (nx_http_tmpl env)
             (\<lambda>b. nx_check env b (cf_body (ng_stream st))) l7srv (ng_http st));
           stream = snd (WriteServer env (nx_stream_file env) (nx_stream_tmpl env)
             (\<lambda>b. nx_check env (cf_body http) b) l4srv (ng_stream st));
           st' = st\<lparr>ng_http := http, ng_stream := stream\<rparr>
       in Inr (if nx_reload env (cf_body http) (cf_body stream)
               then (True, st'\<lparr>ng_loaded := (cf_body http, cf_body stream)\<rparr>) else (False, st')))"

definition persistUpstreams :: "ngx_env \<Rightarrow> pool ptr list \<Rightarrow> ngx_state \<Rightarrow> ngx_state go" where
  "persistUpstreams env pools st =
     bind_go (map_go stream_backend pools) (\<lambda>streams.
       Inr (if nx_stream_write env then st\<lparr>ng_streams := streams\<rparr> else st))"

definition updateBackends :: "ngx_env \<Rightarrow> ngx_backend list \<Rightarrow> ngx_state \<Rightarrow> ngx_state" where
  "updateBackends env backends st = (if nx_post env then st\<lparr>ng_backends := backends\<rparr> else st)"

definition UpdatePools :: "ngx_env \<Rightarrow> pool ptr list \<Rightarrow> pool ptr list \<Rightarrow> ngx_state \<Rightarrow> ngx_state go" where
  "UpdatePools env hpools tpools st =
     bind_go (if 0 < length tpools then persistUpstreams env tpools st else Inr st) (\<lambda>st1.
       if length hpools = 0 then Inr st1
       else bind_go (map_go CreateBackendByPool hpools) (\<lambda>backends.
         Inr (updateBackends env backends st1)))"

section \<open>Synchronisation\<close>

record gw_controller =
  gc_rcfg :: "gw_config ptr"
  gc_rrhp :: "pool ptr list"
  gc_rrtp :: "pool ptr list"

text \<open>The objects of a list, each at its own address.\<close>

definition ptrs :: "nat \<Rightarrow> 'a list \<Rightarrow> 'a ptr list" where
  "ptrs base xs = map2 Ptr [base..<base + length xs] xs"

text \<open>\<^verbatim>\<open>syncGateway\<close> with the lists the store returns; the new configuration lives at \<open>addr\<close>.\<close>

definition syncGateway :: "ngx_env \<Rightarrow> ngx_options \<Rightarrow> nat \<Rightarrow> gw_config \<Rightarrow> gw_controller \<Rightarrow> ngx_state \<Rightarrow>
    (gw_controller \<times> ngx_state) go" where
  "syncGateway env oc addr cur gc st =
     bind_go (UpdatePools env (HTTPPools cur @ gc_rrhp gc) (TCPPools cur @ gc_rrtp gc) st) (\<lambda>st1.
     bind_go (Config_Equals (gc_rcfg gc) (Ptr addr cur)) (\<lambda>same.
       if same then Inr (gc, st1)
       else bind_go (PersistConfig env oc cur st1) (\<lambda>(ok, st2).
         if ok then Inr (gc\<lparr>gc_rcfg := Ptr addr cur\<rparr>, st2) else Inr (gc, st2))))"

section \<open>What the steps keep\<close>

lemma map_go_mem_ex: "map_go f xs = Inr ys \<Longrightarrow> x \<in> set xs \<Longrightarrow> \<exists>y. f x = Inr y \<and> y \<in> set ys"
  by (induction xs arbitrary: ys) (force simp: bind_go_eq_Inr)+

lemma map_go_mem:
  assumes "map_go f xs = Inr ys" "x \<in> set xs"
  obtains y where "f x = Inr y" "y \<in> set ys"
  using map_go_mem_ex [OF assms] by blast

lemma ptrs_mem: "x \<in> set xs \<Longrightarrow> \<exists>a. Ptr a x \<in> set (ptrs base xs)"
proof -
  assume "x \<in> set xs"
  then obtain i where i: "i < length xs" "x = xs ! i"
    by (auto simp: in_set_conv_nth)
  then have "ptrs base xs ! i = Ptr (base + i) x" "i < length (ptrs base xs)"
    by (simp_all add: ptrs_def)
  then show ?thesis
    by (metis nth_mem)
qed

lemma Location_Validation_keeps:
  "Location_Validation env l = Some l' \<Longrightarrow> nl_Path l' = nl_Path l \<and> nl_NameCondition l' = nl_NameCondition l"
  by (auto simp: Location_Validation_def split: if_splits prod.splits option.splits)

lemma validate_locations_mem:
  assumes "validate_locations env ls = Some ls'" "l \<in> set ls"
  obtains l' where "l' \<in> set ls'" "nl_Path l' = nl_Path l" "nl_NameCondition l' = nl_NameCondition l"
  using assms
proof (induction ls arbitrary: ls' thesis)
  case (Cons k ls)
  obtain k' ks where k: "Location_Validation env k = Some k'" "validate_locations env ls = Some ks" "ls' = k' # ks"
    using Cons.prems(2) by (auto split: option.splits)
  show ?case
  proof (cases "l = k")
    case True
    then show ?thesis
      using Cons.prems(1) Location_Validation_keeps [OF k(1)] k(3) by auto
  next
    case False
    then have "l \<in> set ls" using Cons.prems(3) by simp
    from Cons.IH [OF _ k(2) this] show ?thesis
      using Cons.prems(1) k(3) by (metis list.set_intros(2))
  qed
qed simp

lemma Server_Validation_keeps:
  assumes "Server_Validation env s = Some s'" "sv_Protocol s \<noteq> []"
  shows "sv_ServerName s' = sv_ServerName s" "sv_Protocol s' = sv_Protocol s"
    "validate_locations env (sv_Locations s) = Some (sv_Locations s')"
  using assms by (auto simp: Server_Validation_def Let_def split: if_splits)

lemma l7_server_fields:
  assumes "l7_server oc (Ptr a vs) = Inr s"
  shows "sv_ServerName s = replace_first ''tls'' [] (ServerName vs)" "sv_Protocol s = ''HTTP''"
    "map_go (ngx_loc oc) (Locations vs) = Inr (sv_Locations s)"
  using assms by (cases "SSLCert vs"; auto simp: l7_server_def bind_go_eq_Inr with_cert_def l7_base_def)+

text \<open>A location of a virtual service that validates is in the server that is written.\<close>

lemma location_written:
  assumes "l7_server oc (Ptr a vs) = Inr s" "Server_Validation env s = Some s'"
    "Ptr a' loc \<in> set (Locations vs)"
  obtains l where "l \<in> set (sv_Locations s')" "nl_Path l = Path loc" "nl_NameCondition l = NameCondition loc"
    "sv_ServerName s' = replace_first ''tls'' [] (ServerName vs)" "sv_Protocol s' = ''HTTP''"
proof -
  note f = l7_server_fields [OF assms(1)]
  note k = Server_Validation_keeps [OF assms(2)]
  obtain l0 where l0: "ngx_loc oc (Ptr a' loc) = Inr l0" "l0 \<in> set (sv_Locations s)"
    using map_go_mem [OF f(3) assms(3)] .
  then have "nl_Path l0 = Path loc" "nl_NameCondition l0 = NameCondition loc"
    by (auto simp: ngx_loc_def)
  moreover obtain l where "l \<in> set (sv_Locations s')" "nl_Path l = nl_Path l0" "nl_NameCondition l = nl_NameCondition l0"
    using validate_locations_mem [OF k(3) l0(2)] f(2) by auto
  ultimately show ?thesis
    using that [of l] k(1,2) f(1,2) by simp
qed

lemma backend_of_pool:
  assumes "CreateBackendByPool (Ptr a pool) = Inr be" "Ptr a' node \<in> set (Nodes pool)"
  shows "nb_Name be = m_Name (p_Meta pool) \<and>
    \<lparr>ne_Address = Host node, ne_Port = go_itoa (Port node), ne_Weight = Weight node\<rparr> \<in> set (nb_Endpoints be)"
proof -
  obtain eps where eps: "map_go pool_endpoint (Nodes pool) = Inr eps" "nb_Endpoints be = eps"
    "nb_Name be = m_Name (p_Meta pool)"
    using assms(1) by (auto simp: CreateBackendByPool_def bind_go_eq_Inr)
  obtain e where "pool_endpoint (Ptr a' node) = Inr e" "e \<in> set eps"
    using map_go_mem [OF eps(1) assms(2)] .
  then show ?thesis
    using eps by (auto simp: pool_endpoint_def)
qed

text \<open>File operations that all succeed.\<close>

definition file_works :: "file_ops \<Rightarrow> bool" where
  "file_works fo \<longleftrightarrow> fo_mkdir fo \<and> fo_read fo \<and> fo_rename fo \<and> fo_open fo \<and> fo_write fo = None \<and>
     fo_rollback fo \<and> fo_remove fo"

lemma writeFile_body:
  assumes "file_works fo"
  shows "cf_body (snd (writeFile fo check True body f)) =
    (if check (Some body) \<or> cf_body f = None then Some body else cf_body f)"
  using assms by (auto simp: writeFile_def file_works_def Let_def split: option.splits)

lemma WriteServer_body:
  assumes "file_works fo" "write_servers env servers \<noteq> []" "tmpl (server_context (write_servers env servers)) = Some body"
  shows "cf_body (snd (WriteServer env fo tmpl check servers f)) =
    (if check (Some body) \<or> cf_body f = None then Some body else cf_body f)"
  using assms writeFile_body [OF assms(1), of check body f]
  by (simp add: WriteServer_def Let_def)

lemma UpdatePools_files:
  assumes "UpdatePools env hp tp st = Inr st'"
  shows "ng_http st' = ng_http st \<and> ng_stream st' = ng_stream st \<and> ng_loaded st' = ng_loaded st"
  using assms
  by (auto simp: UpdatePools_def persistUpstreams_def updateBackends_def bind_go_eq_Inr split: if_splits)

lemma UpdatePools_backends:
  assumes "UpdatePools env hp tp st = Inr st'" "hp \<noteq> []" "nx_post env"
  shows "map_go CreateBackendByPool hp = Inr (ng_backends st')"
  using assms by (auto simp: UpdatePools_def updateBackends_def bind_go_eq_Inr)

lemma PersistConfig_backends:
  "PersistConfig env oc cur st = Inr (ok, st') \<Longrightarrow> ng_backends st' = ng_backends st"
  by (auto simp: PersistConfig_def bind_go_eq_Inr Let_def split: if_splits)

text \<open>The template renders, nginx accepts what it renders and reloads, and takes the backends.\<close>

definition ngx_works :: "ngx_env \<Rightarrow> bool" where
  "ngx_works env \<longleftrightarrow> (\<forall>c. nx_http_tmpl env c \<noteq> None) \<and>
     (\<forall>c body s. nx_http_tmpl env c = Some body \<longrightarrow> nx_check env (Some body) s) \<and> (\<forall>h s. nx_reload env h s) \<and>
     file_works (nx_http_file env) \<and> nx_post env"

text \<open>The http configuration that nginx runs after a change has been persisted.\<close>

lemma PersistConfig_loaded:
  assumes "ngx_works env" "PersistConfig env oc cur st = Inr (ok, st')"
    "getNgxServer oc cur = Inr (l7, l4)" "write_servers env l7 \<noteq> []"
  shows "fst (ng_loaded st') = nx_http_tmpl env (server_context (write_servers env l7)) \<and> ok"
proof -
  obtain body where body: "nx_http_tmpl env (server_context (write_servers env l7)) = Some body"
    using assms(1) unfolding ngx_works_def by blast
  have "cf_body (snd (WriteServer env (nx_http_file env) (nx_http_tmpl env) check l7 (ng_http st))) = Some body"
    if "check (Some body)" for check
    using WriteServer_body [where tmpl = "nx_http_tmpl env" and fo = "nx_http_file env" and body = body,
        OF _ assms(4) body] assms(1) that by (simp add: ngx_works_def)
  then show ?thesis
    using assms body by (auto simp: PersistConfig_def Let_def ngx_works_def)
qed

section \<open>What is derived validates\<close>

text \<open>
  Ingresses whose hosts have no blanks, whose paths are not empty and whose proxy annotations pass
  the validation; builds whose servers all pass it.
\<close>

definition proxy_valid :: "ngx_env \<Rightarrow> proxy_config \<Rightarrow> bool" where
  "proxy_valid env c \<longleftrightarrow> fst (Validation (nx_valid_name env) (nx_valid_value env) c) = None"

definition ing_clean :: "ngx_env \<Rightarrow> gw_env \<Rightarrow> ingress \<Rightarrow> bool" where
  "ing_clean env g i \<longleftrightarrow> proxy_valid env (a_proxy (g_extract g (i_meta i))) \<and>
     (\<forall>r \<in> set (i_rules i). CHR '' '' \<notin> set (r_host r) \<and>
        (\<forall>ps. r_http r = Some ps \<longrightarrow> (\<forall>p \<in> set ps. ip_path p \<noteq> [])))"

definition loc_clean :: "ngx_env \<Rightarrow> location \<Rightarrow> bool" where
  "loc_clean env l \<longleftrightarrow> Path l \<noteq> [] \<and> proxy_valid env (l_Proxy l)"

definition build_clean :: "ngx_env \<Rightarrow> gw_build \<Rightarrow> bool" where
  "build_clean env b \<longleftrightarrow> (\<forall>l \<in> set (b_heap b). loc_clean env l) \<and>
     (\<forall>n \<in> dom (map_of (b_l7 b)). CHR '' '' \<notin> set n) \<and> (\<forall>vs \<in> set (b_l4 b). Locations vs = [])"

lemma build_cleanI:
  assumes "build_clean env b" "\<And>l. l \<in> set (b_heap b') \<Longrightarrow> l \<in> set (b_heap b) \<or> loc_clean env l"
    and "\<And>n. n \<in> dom (map_of (b_l7 b')) \<Longrightarrow> n \<in> dom (map_of (b_l7 b)) \<or> CHR '' '' \<notin> set n"
    and "\<And>vs. vs \<in> set (b_l4 b') \<Longrightarrow> vs \<in> set (b_l4 b) \<or> Locations vs = []"
  shows "build_clean env b'"
  unfolding build_clean_def
proof (intro conjI ballI)
  show "loc_clean env l" if "l \<in> set (b_heap b')" for l
    using assms(1) assms(2) [OF that] by (auto simp: build_clean_def)
  show "CHR '' '' \<notin> set n" if "n \<in> dom (map_of (b_l7 b'))" for n
    using assms(1) assms(3) [OF that] by (auto simp: build_clean_def)
  show "Locations vs = []" if "vs \<in> set (b_l4 b')" for vs
    using assms(1) assms(4) [OF that] by (auto simp: build_clean_def)
qed

lemma loc_clean_condition [simp]: "loc_clean env (add_condition n c l) = loc_clean env l"
  by (simp add: loc_clean_def add_condition_def)

lemma register_backend_keeps [simp]:
  "b_heap (register_backend i anns name path svc b) = b_heap b"
  "b_l7 (register_backend i anns name path svc b) = b_l7 b"
  "b_l4 (register_backend i anns name path svc b) = b_l4 b"
  by (simp_all add: register_backend_def)

lemma path_step_clean:
  assumes "build_clean env b" "path_step g i anns name b p = Inr b'" "map_of (b_l7 b) name = Some cell"
    and "ip_path p \<noteq> []" "proxy_valid env (a_proxy anns)" "CHR '' '' \<notin> set name"
  shows "build_clean env b'"
proof -
  obtain svc where svc: "ip_service p = Some svc"
    using path_step_service [OF assms(2)] by blast
  show ?thesis
  proof (cases "map_of (b_srvLoc b) (loc_key name (ip_path p))")
    case None
    have "loc_clean env (new_location g i anns (ip_path p))"
      using assms(4,5) by (simp add: loc_clean_def new_location_def)
    then show ?thesis
      using assms(2) [unfolded path_step_new [OF None assms(3) svc]] assms(6)
      by (intro build_cleanI [OF assms(1)]) (auto simp: update_conv' split: if_splits)
  next
    case (Some ix)
    have old: "l \<in> set (b_heap b) \<or> loc_clean env l" if "l \<in> set ((b_heap b)[ix := add_condition n c (b_heap b ! ix)])" for n c l
    proof (cases "ix < length (b_heap b)")
      case True
      then have "loc_clean env (b_heap b ! ix)"
        using assms(1) by (simp add: build_clean_def)
      then show ?thesis
        using subsetD [OF set_update_subset_insert that] by auto
    next
      case False
      then show ?thesis
        using that by (simp add: list_update_beyond)
    qed
    show ?thesis
      using assms(2) [unfolded path_step_old [OF Some svc]] by (intro build_cleanI [OF assms(1)]) (auto dest: old)
  qed
qed


lemma replace_first_subset: "set (replace_first old [] s) \<subseteq> set s"
  by (induction old "[] :: string" s rule: replace_first.induct) (auto dest: in_set_dropD)

lemma str_contains_blank: "str_contains s '' '' \<longleftrightarrow> CHR '' '' \<in> set s"
  by (simp add: str_contains_def sublist_def in_set_conv_decomp)

lemma vir_srv_name_no_blank: "CHR '' '' \<notin> set (vir_srv_name ssl r)"
  by (simp add: vir_srv_name_def Let_def replace_byte_delete DefVirSrvName_def)

lemma ensure_vs_clean:
  "build_clean env b \<Longrightarrow> CHR '' '' \<notin> set name \<Longrightarrow> build_clean env (ensure_vs name vs b)"
  by (rule build_cleanI [of env b]) (auto simp: ensure_vs_def update_conv' split: option.splits if_splits)

lemma ensure_vs_present: "\<exists>cell. map_of (b_l7 (ensure_vs name vs b)) name = Some cell"
  by (auto simp: ensure_vs_def update_conv' split: option.splits)

lemma path_steps_clean:
  assumes "for_go (path_step g i anns name) b ps = Inr b'" "build_clean env b" "map_of (b_l7 b) name = Some cell"
    and "\<forall>p \<in> set ps. ip_path p \<noteq> []" "proxy_valid env (a_proxy anns)" "CHR '' '' \<notin> set name"
  shows "build_clean env b'"
proof -
  have "build_clean env b' \<and> (\<exists>cell. map_of (b_l7 b') name = Some cell)"
  proof (rule for_go_invariant [OF assms(1)])
    fix u p v
    assume p: "p \<in> set ps" "build_clean env u \<and> (\<exists>cell. map_of (b_l7 u) name = Some cell)" "path_step g i anns name u p = Inr v"
    then obtain cell where cell: "map_of (b_l7 u) name = Some cell" by blast
    then have "\<exists>cell. map_of (b_l7 v) name = Some cell"
      using path_step_grows [OF cell p(3)] unfolding grows_def l7_grows_def by blast
    then show "build_clean env v \<and> (\<exists>cell. map_of (b_l7 v) name = Some cell)"
      using path_step_clean [OF _ p(3) cell _ assms(5,6)] p assms(4) by blast
  qed (use assms in blast)
  then show ?thesis ..
qed

lemma first_pass_step_clean:
  assumes "ing_clean env g i" "build_clean env b" "first_pass_step g b i = Inr b'"
  shows "build_clean env b'"
proof -
  let ?anns = "g_extract g (i_meta i)" and ?ssl = "hostSSLMap g i"
  have rule: "build_clean env v" if "r \<in> set (i_rules i)" "build_clean env u" "rule_step g i ?anns ?ssl u r = Inr v" for u v r
  proof -
    note step = that(3)
    obtain ps where ps: "r_http r = Some ps"
      using step by (cases "r_http r") (auto simp: rule_step_ensure)
    obtain cell where cell: "map_of (b_l7 (ensure_vs (vir_srv_name ?ssl r)
        (new_l7_vs g i ?anns ?ssl (vir_srv_name ?ssl r)) u)) (vir_srv_name ?ssl r) = Some cell"
      using ensure_vs_present by blast
    show ?thesis
      by (rule path_steps_clean [OF _ _ cell])
        (use that ps assms(1) in \<open>auto simp: rule_step_ensure ing_clean_def vir_srv_name_no_blank intro: ensure_vs_clean\<close>)
  qed
  have l4: "build_clean env v" if "l4_region g i svc ?anns b = Inr v" for svc v
    using that by (intro build_cleanI [OF assms(2)]) (auto simp: l4_region_def Let_def bind_go_eq_Inr l4_vs_def zero_vs_def split: if_splits)
  have l7: "build_clean env v" if "l7_region g i ?anns b = Inr v" for v
    by (rule for_go_invariant [of _ _ _ _ "build_clean env", OF that [unfolded l7_region_def] assms(2) rule])
  show ?thesis
    using assms(2,3) l4 l7 by (auto simp: first_pass_step_def bind_go_eq_Inr Let_def split: if_splits option.splits)
qed

lemma trim_space_subset: "set (trim_space s) \<subseteq> set s"
  unfolding trim_space_def by (metis set_dropWhileD set_rev subsetI)

lemma redirect_path_step_clean:
  assumes "build_clean env b" "ip_path p \<noteq> []" "proxy_valid env (a_proxy anns)" "CHR '' '' \<notin> set name"
  shows "build_clean env (redirect_path_step anns name b p)"
proof -
  have "loc_clean env (redirect_location anns (ip_path p))"
    using assms(2,3) by (simp add: loc_clean_def redirect_location_def)
  then show ?thesis
    using assms(4) by (intro build_cleanI [OF assms(1)])
      (auto simp: redirect_path_step_def Let_def update_conv' split: option.splits if_splits)
qed

lemma redirect_paths_clean:
  assumes "build_clean env b" "\<forall>p \<in> set ps. ip_path p \<noteq> []" "proxy_valid env (a_proxy anns)" "CHR '' '' \<notin> set name"
  shows "build_clean env (foldl (redirect_path_step anns name) b ps)"
  using assms(1,2) by (induction ps arbitrary: b) (simp_all add: redirect_path_step_clean [OF _ _ assms(3,4)])

lemma second_pass_step_clean:
  assumes "ing_clean env g i" "build_clean env b" "second_pass_step g b i = Inr b'"
  shows "build_clean env b'"
proof -
  let ?anns = "g_extract g (i_meta i)"
  have rule: "build_clean env v" if "r \<in> set (i_rules i)" "build_clean env u" "redirect_rule_step g ?anns u r = Inr v" for u v r
  proof -
    have "CHR '' '' \<notin> set (trim_space (r_host r))"
      using assms(1) that(1) trim_space_subset by (auto simp: ing_clean_def)
    then show ?thesis
      using that assms(1)
      by (cases "r_http r") (auto simp: redirect_rule_step_ensure ing_clean_def intro!: redirect_paths_clean ensure_vs_clean)
  qed
  have loop: "build_clean env v" if "for_go (redirect_rule_step g ?anns) b (i_rules i) = Inr v" for v
    by (rule for_go_invariant [of _ _ _ _ "build_clean env", OF that assms(2) rule])
  show ?thesis
    using assms(2,3) loop by (auto simp: second_pass_step_def bind_go_eq_Inr Let_def split: if_splits)
qed

lemma build_gateway_clean:
  assumes "\<forall>i \<in> set (g_ingresses g). ing_clean env g i" "build_gateway g base p7 p4 = Inr b"
  shows "build_clean env b"
proof -
  obtain b1 where b1: "for_go (first_pass_step g) (start_build base p7 p4) (g_ingresses g) = Inr b1"
      and b2: "for_go (second_pass_step g) b1 (g_ingresses g) = Inr b"
    using assms(2) by (auto simp: build_gateway_def bind_go_eq_Inr)
  have start: "build_clean env (start_build base p7 p4)"
    by (simp add: build_clean_def start_build_def)
  have "build_clean env b1"
    by (rule for_go_invariant [of _ _ _ _ "build_clean env", OF b1 start])
      (rule first_pass_step_clean [OF bspec [OF assms(1)]])
  from for_go_invariant [of _ _ _ _ "build_clean env", OF b2 this] show ?thesis
    using second_pass_step_clean [OF bspec [OF assms(1)]] by blast
qed

section \<open>The synchronisation succeeds\<close>

lemma map_go_total: "\<forall>x \<in> set xs. \<exists>y. f x = Inr y \<Longrightarrow> \<exists>ys. map_go f xs = Inr ys"
  by (induction xs) auto

lemma ptrs_set: "q \<in> set (ptrs base xs) \<Longrightarrow> \<exists>a x. q = Ptr a x \<and> x \<in> set xs"
  by (auto simp: ptrs_def dest: set_zip_rightD)

lemma ptrs_empty [simp]: "ptrs base xs = [] \<longleftrightarrow> xs = []"
  by (cases xs) (simp_all add: ptrs_def upt_rec)

lemma map_go_from: "map_go f xs = Inr ys \<Longrightarrow> y \<in> set ys \<Longrightarrow> \<exists>x \<in> set xs. f x = Inr y"
  by (induction xs arbitrary: ys) (force simp: bind_go_eq_Inr)+

text \<open>The lists of the store hold real objects whose locations are clean.\<close>

lemma derived_clean:
  assumes "env_ok g" "\<forall>i \<in> set (g_ingresses g). ing_clean env g i"
    and lists: "ListVirtualService g base p7 p4 = Inr (l7, l4, b)"
  shows "vs \<in> set l7 \<Longrightarrow> CHR '' '' \<notin> set (ServerName vs)"
    and "vs \<in> set l7 \<Longrightarrow> q \<in> set (Locations vs) \<Longrightarrow> \<exists>a loc. q = Ptr a loc \<and> loc_clean env loc"
    and "vs \<in> set l4 \<Longrightarrow> Locations vs = []"
proof -
  note built = l7_list_cell [OF lists]
  note inv = build_gatewayD(1) [OF assms(1) built(1)] and clean = build_gateway_clean [OF assms(2) built(1)]
  show "CHR '' '' \<notin> set (ServerName vs)" if mem: "vs \<in> set l7"
  proof -
    obtain n c where c: "(n, c) \<in> set (b_l7 b)" "vs = finish_cell base (b_heap b) c"
      using mem by (auto simp: built(3))
    then have "map_of (b_l7 b) n = Some c"
      using gw_invD(1) [OF inv] by (simp add: map_of_is_SomeI)
    then show ?thesis
      using gw_invD(2) [OF inv, of n c] clean c(2) by (auto simp: cell_ok_def finish_cell_def build_clean_def)
  qed
  show "\<exists>a loc. q = Ptr a loc \<and> loc_clean env loc" if mem: "vs \<in> set l7" "q \<in> set (Locations vs)"
  proof -
    obtain n c where c: "(n, c) \<in> set (b_l7 b)" "vs = finish_cell base (b_heap b) c"
      using mem(1) by (auto simp: built(3))
    then have "map_of (b_l7 b) n = Some c"
      using gw_invD(1) [OF inv] by (simp add: map_of_is_SomeI)
    then show ?thesis
      using gw_invD(2) [OF inv, of n c] clean c(2) mem(2) by (auto simp: cell_ok_def finish_cell_def build_clean_def)
  qed
  show "Locations vs = []" if "vs \<in> set l4"
    using clean that by (simp add: built(2) build_clean_def)
qed

lemma pool_nodes_real:
  assumes "ListPool g b base7 base4 = (pools7, pools4)" "pool \<in> set pools7 \<union> set pools4" "q \<in> set (Nodes pool)"
  shows "\<exists>a node. q = Ptr a node"
proof -
  have "\<exists>ns. map the_obj (Nodes pool) = map Some ns"
    using assms(1,2) pool_rep_list(3) [OF pools_rep [of new_l7_pool]] pool_rep_list(3) [OF pools_rep [of new_l4_pool]]
    by (auto simp: ListPool_passes new_l7_pool_def new_l4_pool_def zero_pool_def)
  then have "None \<notin> the_obj ` set (Nodes pool)"
    by (metis imageE list.set_map option.distinct(1))
  then show ?thesis
    using assms(3) by (cases q) force+
qed

lemma validate_locations_total:
  "\<forall>l \<in> set ls. nl_Path l \<noteq> [] \<and> proxy_valid env (nl_Proxy l) \<Longrightarrow> \<exists>ls'. validate_locations env ls = Some ls'"
proof (induction ls)
  case (Cons l ls)
  then have "\<exists>l'. Location_Validation env l = Some l'"
    by (auto simp: Location_Validation_def proxy_valid_def split: prod.splits option.splits)
  then show ?case
    using Cons by auto
qed simp

lemma l7_server_valid:
  assumes "CHR '' '' \<notin> set (ServerName vs)" "\<forall>q \<in> set (Locations vs). \<exists>a loc. q = Ptr a loc \<and> loc_clean env loc"
  shows "\<exists>s s'. l7_server oc (Ptr a vs) = Inr s \<and> Server_Validation env s = Some s'"
proof -
  have "\<forall>q \<in> set (Locations vs). \<exists>y. ngx_loc oc q = Inr y"
    using assms(2) by (auto simp: ngx_loc_def)
  then obtain locs where locs: "map_go (ngx_loc oc) (Locations vs) = Inr locs"
    using map_go_total by blast
  then obtain s where s: "l7_server oc (Ptr a vs) = Inr s"
    by (simp add: l7_server_def)
  note f = l7_server_fields [OF s]
  have "nl_Path l \<noteq> [] \<and> proxy_valid env (nl_Proxy l)" if mem: "l \<in> set (sv_Locations s)" for l
  proof -
    obtain q where q: "q \<in> set (Locations vs)" "ngx_loc oc q = Inr l"
      using map_go_from [OF f(3) mem] by blast
    then obtain a loc where "q = Ptr a loc" "loc_clean env loc"
      using assms(2) by blast
    then show ?thesis
      using q(2) by (auto simp: ngx_loc_def loc_clean_def)
  qed
  then have "\<exists>ls'. validate_locations env (sv_Locations s) = Some ls'"
    using validate_locations_total by blast
  moreover have "\<not> str_contains (sv_ServerName s) '' ''"
    using assms(1) replace_first_subset f(1) by (auto simp: str_contains_blank)
  ultimately have "\<exists>s'. Server_Validation env s = Some s'"
    using f(2) by (auto simp: Server_Validation_def Let_def)
  with s show ?thesis
    by blast
qed

text \<open>The configuration that the store's lists make.\<close>

definition derived_config :: "virtual_service list \<Rightarrow> virtual_service list \<Rightarrow> pool list \<Rightarrow> pool list \<Rightarrow> nat \<Rightarrow> gw_config" where
  "derived_config l7 l4 pools7 pools4 base =
     \<lparr>HTTPPools = ptrs base pools7, TCPPools = ptrs base pools4, L7VS = ptrs base l7, L4VS = ptrs base l4\<rparr>"

definition pool_real :: "pool ptr \<Rightarrow> bool" where
  "pool_real q \<longleftrightarrow> (\<exists>a pool. q = Ptr a pool \<and> (\<forall>n \<in> set (Nodes pool). \<exists>a node. n = Ptr a node))"

lemma pool_real_backends:
  assumes "pool_real q"
  shows "\<exists>y. CreateBackendByPool q = Inr y" "\<exists>y. stream_backend q = Inr y"
proof -
  obtain a pool where q: "q = Ptr a pool" "\<forall>n \<in> set (Nodes pool). \<exists>a node. n = Ptr a node"
    using assms by (auto simp: pool_real_def)
  then have "\<forall>n \<in> set (Nodes pool). \<exists>y. pool_endpoint n = Inr y"
    by (auto simp: pool_endpoint_def)
  then obtain eps where "map_go pool_endpoint (Nodes pool) = Inr eps"
    using map_go_total by blast
  then show "\<exists>y. CreateBackendByPool q = Inr y" "\<exists>y. stream_backend q = Inr y"
    by (simp_all add: q(1) CreateBackendByPool_def stream_backend_def)
qed

lemma UpdatePools_total:
  assumes "\<forall>q \<in> set hp \<union> set tp. pool_real q"
  shows "\<exists>st'. UpdatePools env hp tp st = Inr st'"
proof -
  obtain bs where "map_go CreateBackendByPool hp = Inr bs"
    using map_go_total pool_real_backends(1) assms by (metis UnI1)
  moreover obtain ss where "map_go stream_backend tp = Inr ss"
    using map_go_total pool_real_backends(2) assms by (metis UnI2)
  ultimately show ?thesis
    by (simp add: UpdatePools_def persistUpstreams_def)
qed

lemma derived_servers:
  assumes "env_ok g" "\<forall>i \<in> set (g_ingresses g). ing_clean env g i"
    and lists: "ListVirtualService g base p7 p4 = Inr (l7, l4, b)"
  shows "\<exists>srv7 srv4. getNgxServer oc (derived_config l7 l4 pools7 pools4 h) = Inr (srv7, srv4)"
proof -
  have "\<exists>s. l7_server oc q = Inr s" if q: "q \<in> set (ptrs h l7)" for q
  proof -
    obtain a vs where "q = Ptr a vs" "vs \<in> set l7"
      using ptrs_set [OF q] by blast
    then show ?thesis
      using l7_server_valid derived_clean(1,2) [OF assms] by metis
  qed
  then obtain srv7 where "map_go (l7_server oc) (ptrs h l7) = Inr srv7"
    using map_go_total [of "ptrs h l7" "l7_server oc"] by blast
  moreover have "\<exists>s. l4_server oc q = Inr s" if "q \<in> set (ptrs h l4)" for q
    using ptrs_set [OF that] derived_clean(3) [OF assms] by (auto simp: l4_server_def)
  then obtain srv4 where "map_go (l4_server oc) (ptrs h l4) = Inr srv4"
    using map_go_total [of "ptrs h l4" "l4_server oc"] by blast
  ultimately show ?thesis
    by (simp add: getNgxServer_def derived_config_def)
qed

lemma PersistConfig_total:
  assumes "getNgxServer oc cur = Inr (srv7, srv4)"
  shows "\<exists>ok st'. PersistConfig env oc cur st = Inr (ok, st')"
proof -
  have "\<exists>r. PersistConfig env oc cur st = Inr r"
    using assms by (simp add: PersistConfig_def Let_def)
  then show ?thesis
    by auto
qed

lemma sync_new_config:
  assumes "UpdatePools env (HTTPPools cur @ gc_rrhp gc) (TCPPools cur @ gc_rrtp gc) st = Inr st1"
    and "Config_Equals (gc_rcfg gc) (Ptr addr cur) = Inr False" "ngx_works env"
    and "getNgxServer oc cur = Inr (srv7, srv4)" "write_servers env srv7 \<noteq> []"
  shows "\<exists>st'. syncGateway env oc addr cur gc st = Inr (gc\<lparr>gc_rcfg := Ptr addr cur\<rparr>, st') \<and>
    fst (ng_loaded st') = nx_http_tmpl env (server_context (write_servers env srv7)) \<and> ng_backends st' = ng_backends st1"
proof -
  obtain ok st' where p: "PersistConfig env oc cur st1 = Inr (ok, st')"
    using PersistConfig_total [OF assms(4)] by blast
  then show ?thesis
    using PersistConfig_loaded [OF assms(3) p assms(4,5)] PersistConfig_backends [OF p] assms(1,2)
    by (simp add: syncGateway_def)
qed

lemma derived_pools_update:
  assumes "ListPool g b base7 base4 = (pools7, pools4)"
  shows "\<exists>st'. UpdatePools env (ptrs h pools7) (ptrs h pools4) st = Inr st'"
proof (rule UpdatePools_total, rule ballI)
  fix q
  assume "q \<in> set (ptrs h pools7) \<union> set (ptrs h pools4)"
  then obtain a pool where q: "q = Ptr a pool" "pool \<in> set pools7 \<union> set pools4"
    using ptrs_set [of q h pools7] ptrs_set [of q h pools4] by blast
  then show "pool_real q"
    using pool_nodes_real [OF assms q(2)] by (auto simp: pool_real_def)
qed

text \<open>A node of a pool of the store is an endpoint of a posted backend.\<close>

lemma node_posted:
  assumes "UpdatePools env (ptrs h pools7) tp st = Inr st1" "nx_post env"
    and "pool \<in> set pools7" "Ptr a node \<in> set (Nodes pool)"
  shows "\<exists>be \<in> set (ng_backends st1). nb_Name be = m_Name (p_Meta pool) \<and>
    \<lparr>ne_Address = Host node, ne_Port = go_itoa (Port node), ne_Weight = Weight node\<rparr> \<in> set (nb_Endpoints be)"
proof -
  obtain a' where q: "Ptr a' pool \<in> set (ptrs h pools7)"
    using ptrs_mem [OF assms(3)] by blast
  have "ptrs h pools7 \<noteq> []"
    using assms(3) by auto
  then obtain be where "CreateBackendByPool (Ptr a' pool) = Inr be" "be \<in> set (ng_backends st1)"
    using map_go_mem [OF UpdatePools_backends [OF assms(1) _ assms(2)] q] by blast
  then show ?thesis
    using backend_of_pool [OF _ assms(4)] by blast
qed

text \<open>A location of a virtual service of the store is one of a written server.\<close>

lemma derived_location_written:
  assumes "env_ok g" "\<forall>i \<in> set (g_ingresses g). ing_clean env g i"
    and lists: "ListVirtualService g base p7 p4 = Inr (l7, l4, b)"
    and srv: "getNgxServer oc (derived_config l7 l4 pools7 pools4 h) = Inr (srv7, srv4)"
    and vs: "vs \<in> set l7" "Ptr a loc \<in> set (Locations vs)"
  shows "\<exists>s \<in> set (cx_Servers (server_context (write_servers env srv7))).
    sv_ServerName s = replace_first ''tls'' [] (ServerName vs) \<and>
    (\<exists>l \<in> set (sv_Locations s). nl_Path l = Path loc \<and> nl_NameCondition l = NameCondition loc)"
proof -
  obtain a' where q: "Ptr a' vs \<in> set (ptrs h l7)"
    using ptrs_mem [OF vs(1)] by blast
  have srv7: "map_go (l7_server oc) (ptrs h l7) = Inr srv7"
    using srv by (auto simp: getNgxServer_def derived_config_def bind_go_eq_Inr)
  obtain s where s: "l7_server oc (Ptr a' vs) = Inr s" "s \<in> set srv7"
    using map_go_mem [OF srv7 q] .
  obtain s' where s': "Server_Validation env s = Some s'"
    using l7_server_valid [of vs env oc a'] derived_clean(1,2) [OF assms(1-3) vs(1)] s(1) by force
  obtain l where l: "l \<in> set (sv_Locations s')" "nl_Path l = Path loc" "nl_NameCondition l = NameCondition loc"
      "sv_ServerName s' = replace_first ''tls'' [] (ServerName vs)" "sv_Protocol s' = ''HTTP''"
    using location_written [OF s(1) s' vs(2)] .
  have "s' \<in> set (write_servers env srv7)"
    using s(2) s' by (force simp: write_servers_def map_filter_def)
  then have "s' \<in> set (cx_Servers (server_context (write_servers env srv7)))"
    using l(5) by (simp add: server_context_def)
  then show ?thesis
    using l by blast
qed

text \<open>
  C2: Requests reach the component through nginx. When nginx accepts what the template renders, a
  synchronisation with a changed configuration succeeds and afterwards, for every path of every
  ingress that is served at layer 7 and every ready address of the endpoints of the path's service,
  nginx runs an http configuration rendered from servers among which there is one with the rule's server
  name, with a location for the path, and has received a backend that the location names and that has
  the address as an endpoint, with the weight of the ingress.
\<close>

theorem requests_reach_endpoints:
  assumes "env_ok g" "\<forall>i \<in> set (g_ingresses g). ing_clean env g i"
    and vs: "ListVirtualService g base p7 p4 = Inr (l7, l4, b)"
    and pools: "ListPool g b base7 base4 = (pools7, pools4)"
    and cur: "cur = derived_config l7 l4 pools7 pools4 h"
    and env: "ngx_works env" and new: "Config_Equals (gc_rcfg gc) (Ptr addr cur) = Inr False"
    and rest: "gc_rrhp gc = []" "gc_rrtp gc = []"
    and ing: "i \<in> set (g_ingresses g)" "served_l7 g i"
      "r \<in> set (i_rules i)" "r_http r = Some ps" "p \<in> set ps" "ip_service p = Some svc"
    and ep: "(key, e) \<in> set (g_endpoints g)" "Name (ge_meta e) = svc" "ss \<in> set (ge_subsets e)"
      "port \<in> set (Ports ss)" "ip \<in> set (Addresses ss)"
  shows "\<exists>st' ctx. syncGateway env oc addr cur gc st = Inr (gc\<lparr>gc_rcfg := Ptr addr cur\<rparr>, st') \<and>
    fst (ng_loaded st') = nx_http_tmpl env ctx \<and>
    (\<exists>s \<in> set (cx_Servers ctx). sv_ServerName s = replace_first ''tls'' [] (vir_srv_name (hostSSLMap g i) r) \<and>
      (\<exists>l \<in> set (sv_Locations s). nl_Path l = ip_path p \<and>
        (\<exists>be \<in> set (ng_backends st'). nb_Name be \<in> fst ` set (nl_NameCondition l) \<and>
          \<lparr>ne_Address = ip, ne_Port = go_itoa port, ne_Weight = a_weight (g_extract g (i_meta i))\<rparr>
            \<in> set (nb_Endpoints be))))"
proof -
  obtain v a loc pool a' node where route: "v \<in> set l7" "ServerName v = vir_srv_name (hostSSLMap g i) r"
      "Ptr a loc \<in> set (Locations v)" "Path loc = ip_path p" "pool \<in> set pools7"
      "m_Name (p_Meta pool) \<in> fst ` set (NameCondition loc)" "Ptr a' node \<in> set (Nodes pool)"
      "Host node = ip" "Port node = port" "Weight node = a_weight (g_extract g (i_meta i))"
    using l7_route [OF assms(1) vs pools ing ep] by blast
  obtain srv7 srv4 where srv: "getNgxServer oc cur = Inr (srv7, srv4)"
    using derived_servers [OF assms(1,2) vs] cur by blast
  obtain s l where s: "s \<in> set (cx_Servers (server_context (write_servers env srv7)))"
      "sv_ServerName s = replace_first ''tls'' [] (ServerName v)" "l \<in> set (sv_Locations s)"
      "nl_Path l = Path loc" "nl_NameCondition l = NameCondition loc"
    using derived_location_written [OF assms(1,2) vs srv [unfolded cur] route(1,3)] by blast
  obtain st1 where st1: "UpdatePools env (ptrs h pools7) (ptrs h pools4) st = Inr st1"
    using derived_pools_update [OF pools] by blast
  obtain be where be: "be \<in> set (ng_backends st1)" "nb_Name be = m_Name (p_Meta pool)"
      "\<lparr>ne_Address = Host node, ne_Port = go_itoa (Port node), ne_Weight = Weight node\<rparr> \<in> set (nb_Endpoints be)"
    using node_posted [OF st1 _ route(5,7)] env by (auto simp: ngx_works_def)
  have "write_servers env srv7 \<noteq> []"
    using s(1) by (auto simp: server_context_def)
  moreover have "UpdatePools env (HTTPPools cur @ gc_rrhp gc) (TCPPools cur @ gc_rrtp gc) st = Inr st1"
    using st1 rest by (simp add: cur derived_config_def)
  ultimately obtain st' where "syncGateway env oc addr cur gc st = Inr (gc\<lparr>gc_rcfg := Ptr addr cur\<rparr>, st')"
      "fst (ng_loaded st') = nx_http_tmpl env (server_context (write_servers env srv7))" "ng_backends st' = ng_backends st1"
    using sync_new_config [OF _ new env srv] by blast
  then show ?thesis
    using s be route by (intro exI [of _ st'] exI [of _ "server_context (write_servers env srv7)"]) force
qed

text \<open>
  C40: A configuration that nginx rejects counts as applied. When the check of nginx rejects the new http
  file, the old file is put back and reloaded, but the controller records the new configuration; a
  later synchronisation with an equal configuration changes no file and does not reload, whatever
  nginx would say then.
\<close>

theorem rejected_config_recorded:
  assumes sync: "syncGateway env oc addr cur gc st = Inr (gc', st')"
    and new: "Config_Equals (gc_rcfg gc) (Ptr addr cur) = Inr False"
    and srv: "getNgxServer oc cur = Inr (srv7, srv4)" "write_servers env srv7 \<noteq> []"
    and body: "nx_http_tmpl env (server_context (write_servers env srv7)) = Some body"
    and bad: "\<not> nx_check env (Some body) (cf_body (ng_stream st))" "cf_body (ng_http st) = Some old"
    and "file_works (nx_http_file env)" "\<And>f g. nx_reload env f g"
  shows "fst (ng_loaded st') = Some old \<and> gc_rcfg gc' = Ptr addr cur \<and>
    (Config_Equals (Ptr addr cur) (Ptr addr2 cur2) = Inr True \<longrightarrow>
     syncGateway env2 oc2 addr2 cur2 gc' st2 = Inr (gc3, st3) \<longrightarrow>
       gc3 = gc' \<and> ng_http st3 = ng_http st2 \<and> ng_stream st3 = ng_stream st2 \<and> ng_loaded st3 = ng_loaded st2)"
proof -
  obtain st1 where st1: "UpdatePools env (HTTPPools cur @ gc_rrhp gc) (TCPPools cur @ gc_rrtp gc) st = Inr st1"
      "PersistConfig env oc cur st1 = Inr (True, st')" "gc' = gc\<lparr>gc_rcfg := Ptr addr cur\<rparr>"
    using sync new srv(1) assms(9) by (auto simp: syncGateway_def PersistConfig_def Let_def bind_go_eq_Inr)
  have same: "ng_http st1 = ng_http st" "ng_stream st1 = ng_stream st"
    using UpdatePools_files [OF st1(1)] by auto
  have "cf_body (snd (WriteServer env (nx_http_file env) (nx_http_tmpl env)
      (\<lambda>b. nx_check env b (cf_body (ng_stream st))) srv7 (ng_http st))) = Some old"
    using WriteServer_body [where tmpl = "nx_http_tmpl env" and body = body, OF assms(8) srv(2) body] bad by simp
  then have "fst (ng_loaded st') = Some old"
    using st1(2) srv(1) same assms(9) by (auto simp: PersistConfig_def Let_def)
  moreover have "gc3 = gc' \<and> ng_http st3 = ng_http st2 \<and> ng_stream st3 = ng_stream st2 \<and> ng_loaded st3 = ng_loaded st2"
    if "Config_Equals (Ptr addr cur) (Ptr addr2 cur2) = Inr True" "syncGateway env2 oc2 addr2 cur2 gc' st2 = Inr (gc3, st3)"
    using that st1(3) UpdatePools_files by (auto simp: syncGateway_def bind_go_eq_Inr simp del: Config_Equals.simps)
  ultimately show ?thesis
    using st1(3) by simp
qed

lemma replace_first_absent: "\<not> sublist old s \<Longrightarrow> replace_first old new s = s"
  by (induction old new s rule: replace_first.induct) (auto simp: sublist_Cons_right)

lemma replace_first_present:
  "sublist old s \<Longrightarrow> length (replace_first old [] s) + length old = length s"
  by (induction old "[] :: string" s rule: replace_first.induct) (auto simp: sublist_Cons_right dest: prefix_length_le)

text \<open>
  The marker that tells hosts with certificates apart is removed by its text: the name that nginx serves
  is the requested host exactly when the ingress has certificates or the host does not contain the
  marker. A host such as \<^verbatim>\<open>www.atlsoft.io\<close> without certificates is served under another name.
\<close>

theorem served_name_is_host:
  assumes "l7_server oc (Ptr a (new_l7_vs g i anns ssl (vir_srv_name ssl r))) = Inr s"
    and "r_host r \<noteq> []" "CHR '' '' \<notin> set (r_host r)"
  shows "sv_ServerName s = r_host r \<longleftrightarrow> ssl \<noteq> [] \<or> \<not> str_contains (r_host r) ''tls''"
proof -
  have "replace_byte (CHR '' '') [] (r_host r) = r_host r"
    using assms(3) by (auto simp: replace_byte_delete filter_id_conv)
  then have name: "vir_srv_name ssl r = (if ssl \<noteq> [] then ''tls'' @ r_host r else r_host r)"
    using assms(2) by (simp add: vir_srv_name_def Let_def)
  have "sv_ServerName s = replace_first ''tls'' [] (vir_srv_name ssl r)"
    using l7_server_fields(1) [OF assms(1)] by (simp add: new_l7_vs_def)
  also have "\<dots> = (if ssl \<noteq> [] then r_host r else replace_first ''tls'' [] (r_host r))"
    unfolding name using replace_first_prefix [of "''tls''" "[]" "r_host r"] by simp
  finally show ?thesis
    using replace_first_absent [of "''tls''" "r_host r" "[]"] replace_first_present [of "''tls''" "r_host r"]
    by (auto simp: str_contains_def)
qed

section \<open>Examples\<close>

definition demo_file_ops :: file_ops where
  "demo_file_ops = \<lparr>fo_mkdir = True, fo_read = True, fo_rename = True, fo_open = True, fo_write = None,
     fo_rollback = True, fo_remove = True\<rparr>"

text \<open>An nginx that accepts every configuration but \<open>bad\<close>.\<close>

definition demo_nginx :: "string \<Rightarrow> ngx_env" where
  "demo_nginx bad = \<lparr>nx_valid_name = (\<lambda>_. True), nx_valid_value = (\<lambda>_. True), nx_http_tmpl = (\<lambda>_. Some ''http''),
     nx_stream_tmpl = (\<lambda>_. Some ''stream''), nx_check = (\<lambda>f g. f \<noteq> Some bad), nx_reload = (\<lambda>f g. True),
     nx_http_file = demo_file_ops, nx_stream_file = demo_file_ops, nx_post = True, nx_stream_write = True\<rparr>"

definition demo_options :: ngx_options where
  "demo_options = \<lparr>oc_AccessLogPath = [], oc_EnableSSLStapling = False\<rparr>"

definition demo_controller :: gw_controller where
  "demo_controller = \<lparr>gc_rcfg = Nil_ptr, gc_rrhp = [], gc_rrtp = []\<rparr>"

definition demo_ngx_state :: ngx_state where
  "demo_ngx_state = \<lparr>ng_http = \<lparr>cf_body = Some ''old'', cf_bak = None\<rparr>, ng_stream = \<lparr>cf_body = None, cf_bak = None\<rparr>,
     ng_loaded = (Some ''old'', None), ng_backends = [], ng_streams = []\<rparr>"

lemma demo_nginx_works: "ngx_works (demo_nginx ''x'')"
  by (simp add: ngx_works_def demo_nginx_def file_works_def demo_file_ops_def)

lemma demo_clean: "\<forall>i \<in> set (g_ingresses (demo_env False)). ing_clean (demo_nginx ''x'') (demo_env False) i"
  by (simp add: ing_clean_def proxy_valid_def Validation_def Let_def demo_nginx_def demo_defs)

theorem requests_reach_endpoints_witness:
  "\<exists>l7 l4 b pools7 pools4 cur st' ctx. ListVirtualService (demo_env False) 0 [] [] = Inr (l7, l4, b) \<and>
    ListPool (demo_env False) b 0 100 = (pools7, pools4) \<and> cur = derived_config l7 l4 pools7 pools4 200 \<and>
    syncGateway (demo_nginx ''x'') demo_options 300 cur demo_controller demo_ngx_state
      = Inr (demo_controller\<lparr>gc_rcfg := Ptr 300 cur\<rparr>, st') \<and>
    fst (ng_loaded st') = nx_http_tmpl (demo_nginx ''x'') ctx \<and>
    (\<exists>s l be. s \<in> set (cx_Servers ctx) \<and> sv_ServerName s = ''a.io'' \<and> l \<in> set (sv_Locations s) \<and> nl_Path l = ''/'' \<and>
      be \<in> set (ng_backends st') \<and> nb_Name be \<in> fst ` set (nl_NameCondition l) \<and>
      \<lparr>ne_Address = ''10.0.0.1'', ne_Port = ''80'', ne_Weight = 1\<rparr> \<in> set (nb_Endpoints be))"
proof -
  obtain l7 l4 b pools7 pools4 where lists: "ListVirtualService (demo_env False) 0 [] [] = Inr (l7, l4, b)"
      "ListPool (demo_env False) b 0 100 = (pools7, pools4)"
    by (rule demo_lists)
  let ?cur = "derived_config l7 l4 pools7 pools4 200"
  have name: "replace_first ''tls'' [] (vir_srv_name (hostSSLMap (demo_env False) (demo_ingress [])) demo_rule) = ''a.io''"
    by (simp add: vir_srv_name_def hostSSLMap_def replace_byte_def demo_defs)
  have served: "served_l7 (demo_env False) (demo_ingress [])"
    using demo_valid demo_service by (simp add: served_l7_def l4_wanted_def) (simp add: demo_defs)
  have port: "go_itoa 80 = ''80''" and w: "a_weight (g_extract (demo_env False) (i_meta (demo_ingress []))) = 1"
    by (code_simp, simp add: demo_defs)
  have ctl: "Config_Equals (gc_rcfg demo_controller) (Ptr 300 ?cur) = Inr False" "gc_rrhp demo_controller = []" "gc_rrtp demo_controller = []"
    by (simp_all add: demo_controller_def)
  note reach = requests_reach_endpoints [where i = "demo_ingress []" and r = demo_rule and p = "\<lparr>ip_path = ''/'', ip_service = Some ''svc''\<rparr>"
      and ps = "[\<lparr>ip_path = ''/'', ip_service = Some ''svc''\<rparr>]" and svc = "''svc''" and key = "''ns/svc''" and e = demo_endpoints
      and ss = "\<lparr>Addresses = [''10.0.0.1''], Ports = [80]\<rparr>" and port = 80 and ip = "''10.0.0.1''" and oc = demo_options
      and st = demo_ngx_state, OF demo_env_ok demo_clean lists refl demo_nginx_works ctl _ served, unfolded name port w]
  have "\<exists>st' ctx. syncGateway (demo_nginx ''x'') demo_options 300 ?cur demo_controller demo_ngx_state
      = Inr (demo_controller\<lparr>gc_rcfg := Ptr 300 ?cur\<rparr>, st') \<and> fst (ng_loaded st') = nx_http_tmpl (demo_nginx ''x'') ctx \<and>
    (\<exists>s \<in> set (cx_Servers ctx). sv_ServerName s = ''a.io'' \<and> (\<exists>l \<in> set (sv_Locations s). nl_Path l = ''/'' \<and>
      (\<exists>be \<in> set (ng_backends st'). nb_Name be \<in> fst ` set (nl_NameCondition l) \<and>
      \<lparr>ne_Address = ''10.0.0.1'', ne_Port = ''80'', ne_Weight = 1\<rparr> \<in> set (nb_Endpoints be))))"
    using reach by (simp add: demo_defs)
  then show ?thesis
    using lists by blast
qed

theorem served_name_is_host_witness:
  "\<exists>s. l7_server demo_options (Ptr 0 (new_l7_vs (demo_env False) (demo_ingress []) (demo_anns False) []
        (vir_srv_name [] \<lparr>r_host = ''www.atlsoft.io'', r_http = None\<rparr>))) = Inr s \<and>
     sv_ServerName s \<noteq> ''www.atlsoft.io''"
proof -
  let ?r = "\<lparr>r_host = ''www.atlsoft.io'', r_http = None\<rparr> :: ing_rule"
  obtain s where s: "l7_server demo_options (Ptr 0 (new_l7_vs (demo_env False) (demo_ingress []) (demo_anns False) []
        (vir_srv_name [] ?r))) = Inr s"
    by (simp add: l7_server_def new_l7_vs_def zero_vs_def)
  have "sublist ''tls'' ''www.atlsoft.io''"
    unfolding sublist_def by (rule exI [of _ "''www.a''"], rule exI [of _ "''oft.io''"]) simp
  then show ?thesis
    using served_name_is_host [OF s] s by (auto simp: str_contains_def)
qed

definition demo_config :: "nat \<Rightarrow> gw_config" where
  "demo_config a = \<lparr>HTTPPools = [], TCPPools = [], L7VS = [Ptr a zero_vs], L4VS = []\<rparr>"

theorem rejected_config_recorded_witness:
  "\<exists>gc' st'. syncGateway (demo_nginx ''http'') demo_options 0 (demo_config 2) demo_controller demo_ngx_state = Inr (gc', st') \<and>
    fst (ng_loaded st') = Some ''old'' \<and> gc_rcfg gc' = Ptr 0 (demo_config 2) \<and>
    (\<exists>gc3 st3. syncGateway (demo_nginx ''x'') demo_options 1 (demo_config 3) gc' st' = Inr (gc3, st3) \<and>
       gc3 = gc' \<and> ng_loaded st3 = ng_loaded st')"
proof -
  let ?env = "demo_nginx ''http''"
  obtain s where s: "l7_server demo_options (Ptr 2 zero_vs) = Inr s" "Server_Validation ?env s \<noteq> None"
    using l7_server_valid [of zero_vs ?env demo_options 2] by (auto simp: zero_vs_def)
  have srv: "getNgxServer demo_options (demo_config 2) = Inr ([s], [])" and ws: "write_servers ?env [s] \<noteq> []"
    using s by (auto simp: getNgxServer_def demo_config_def write_servers_def map_filter_def)
  have new: "Config_Equals (gc_rcfg demo_controller) (Ptr 0 (demo_config 2)) = Inr False"
    by (simp add: demo_controller_def)
  have no_pools: "UpdatePools env (HTTPPools (demo_config a) @ []) (TCPPools (demo_config a) @ []) st = Inr st" for env a st
    by (simp add: UpdatePools_def demo_config_def)
  obtain ok st0 where "PersistConfig ?env demo_options (demo_config 2) demo_ngx_state = Inr (ok, st0)"
    using PersistConfig_total [OF srv, of ?env demo_ngx_state] by blast
  then obtain gc' st' where sync: "syncGateway ?env demo_options 0 (demo_config 2) demo_controller demo_ngx_state = Inr (gc', st')"
    using no_pools new by (cases ok) (auto simp: syncGateway_def demo_controller_def)
  have gc: "gc_rrhp gc' = []" "gc_rrtp gc' = []"
    using sync by (auto simp: syncGateway_def demo_controller_def bind_go_eq_Inr split: if_splits)
  have same: "Config_Equals (Ptr 0 (demo_config 2)) (Ptr 1 (demo_config 3)) = Inr True"
    by (simp add: demo_config_def vs_lists_eq_def VirtualService_eq_def Meta_eq_def vs_flat_eq_def all_matched_def
        SSLCert_Equals_def ext_eq_def zero_vs_def)
  note rejected = rejected_config_recorded [where body = "''http''" and old = "''old''" and ?env2.0 = "demo_nginx ''x''"
      and ?oc2.0 = demo_options and ?st2.0 = st', OF sync new srv ws]
  have files: "nx_http_tmpl ?env (server_context (write_servers ?env [s])) = Some ''http''"
      "\<not> nx_check ?env (Some ''http'') (cf_body (ng_stream demo_ngx_state))" "cf_body (ng_http demo_ngx_state) = Some ''old''"
      "file_works (nx_http_file ?env)" "\<And>f g. nx_reload ?env f g"
    by (simp_all add: demo_nginx_def demo_ngx_state_def file_works_def demo_file_ops_def)
  note r = rejected [OF files]
  have "gc_rcfg gc' = Ptr 0 (demo_config 2)"
    using r by blast
  then obtain gc3 st3 where again: "syncGateway (demo_nginx ''x'') demo_options 1 (demo_config 3) gc' st' = Inr (gc3, st3)"
    using no_pools same gc by (simp add: syncGateway_def)
  show ?thesis
    using r same again sync by blast
qed

end
