(* ===== verification/Event_Store.thy ===== *)
theory Event_Store
  imports Go_Prelude "HOL-Library.Multiset"
begin

text \<open>
  The store for operation logs of the event log service (\<^verbatim>\<open>src/eventlog/store\<close>:
  \<^verbatim>\<open>event_barrel.go\<close>, \<^verbatim>\<open>handle_message_store.go\<close>). Messages of an event are collected in a barrel; a full
  barrel moves them to a waiting queue and asks for it to be written; a worker writes the queue to the
  event's file, a garbage collector writes and drops barrels that were quiet for 30 seconds, and
  messages that cannot be stored go to a garbage list.

  Times are seconds. The channel of commands has a capacity, and a send that would block has no
  result. The object pool may hand out a new barrel or one that was given back, so the barrel it hands
  out is an argument. How a write goes is an argument of the operations that write: opening the file can
  fail, which is reported, and each line can fail to reach the file, which is not.
\<close>

section \<open>Messages and barrels\<close>

record event_message =
  em_EventID :: string
  em_Step :: string
  em_Status :: string
  em_Message :: string
  em_Level :: string
  em_Time :: string
  em_Content :: "string option"
  em_TimeUnixNano :: int

record event_barrel =
  eb_eventID :: string
  eb_barrel :: "event_message list"
  eb_needPersistence :: bool
  eb_persistenceBarrel :: "event_message list"
  eb_maxNumber :: int
  eb_cacheNumber :: int
  eb_size :: int
  eb_isCallback :: bool
  eb_updateTime :: int

type_synonym command = "string list"

text \<open>\<open>try_send\<close> is a \<^verbatim>\<open>select\<close> with a default; \<open>send\<close> blocks on a full channel.\<close>

definition try_send :: "nat \<Rightarrow> 'a \<Rightarrow> 'a list \<Rightarrow> 'a list" where
  "try_send cap x ch = (if length ch < cap then ch @ [x] else ch)"

definition send :: "nat \<Rightarrow> 'a \<Rightarrow> 'a list \<Rightarrow> 'a list option" where
  "send cap x ch = (if length ch < cap then Some (ch @ [x]) else None)"

definition eb_persistence :: "nat \<Rightarrow> event_barrel \<times> command list \<Rightarrow> event_barrel \<times> command list" where
  "eb_persistence cap s = (let (e, ch) = s
     in (e\<lparr>eb_needPersistence := True, eb_persistenceBarrel := eb_persistenceBarrel e @ eb_barrel e, eb_barrel := []\<rparr>,
         try_send cap [''persistence'', eb_eventID e] ch))"

definition analysis :: "nat \<Rightarrow> event_message \<Rightarrow> event_barrel \<times> command list \<Rightarrow> (event_barrel \<times> command list) option" where
  "analysis cap m s =
     (let s1 = (if em_Step m = ''last'' \<or> em_Step m = ''callback'' then
                  (let (e, ch) = eb_persistence cap s
                   in map_option (Pair e) (send cap [''callback'', eb_eventID e, em_Status m, em_Message m] ch))
                else Some s)
      in case s1 of None \<Rightarrow> None
         | Some (e, ch) \<Rightarrow> (if em_Step m = ''code-version''
             then map_option (Pair e) (send cap [''code-version'', eb_eventID e, em_Message m] ch)
             else Some (e, ch)))"

text \<open>
  \<open>insert\<close>: an error when the barrel has had too many messages; progress messages are not stored.
  The result is \<open>None\<close> when a send blocks, and otherwise whether there was an error.
\<close>

definition eb_insert ::
  "nat \<Rightarrow> int \<Rightarrow> event_message \<Rightarrow> event_barrel \<times> command list \<Rightarrow> (bool \<times> event_barrel \<times> command list) option" where
  "eb_insert cap now m s =
     (let (e, ch) = s
      in if eb_size e > eb_maxNumber e then Some (True, e, ch)
         else if em_Step m = ''progress'' then Some (False, e, ch)
         else (case analysis cap m (e\<lparr>eb_barrel := eb_barrel e @ [m], eb_size := wrap64 (eb_size e + 1)\<rparr>, ch) of
             None \<Rightarrow> None
           | Some (e1, ch1) \<Rightarrow>
               (let (e2, ch2) = (if int (length (eb_barrel e1)) \<ge> eb_cacheNumber e1
                                 then eb_persistence cap (e1, ch1) else (e1, ch1))
                in Some (False, e2\<lparr>eb_updateTime := now\<rparr>, ch2))))"

definition eb_empty :: "event_barrel \<Rightarrow> event_barrel" where
  "eb_empty e = e\<lparr>eb_size := 0, eb_eventID := [], eb_barrel := [], eb_persistenceBarrel := [],
     eb_needPersistence := False, eb_isCallback := False\<rparr>"

definition eb_gcPersistence :: "event_barrel \<Rightarrow> event_barrel" where
  "eb_gcPersistence e = e\<lparr>eb_needPersistence := True,
     eb_persistenceBarrel := eb_persistenceBarrel e @ eb_barrel e, eb_barrel := []\<rparr>"

section \<open>The store\<close>

text \<open>
  \<open>h_pool\<close> are the barrels given back to the pool. \<open>h_file\<close> is what has been written to event files,
  \<open>h_garbageFile\<close> to the garbage file. \<open>h_dropped\<close> is ghost state: the messages that the code gave up
  although they were neither written nor kept.
\<close>

record handle_store =
  h_barrels :: "event_barrel gomap"
  h_pool :: "event_barrel list"
  h_garbage :: "event_message list"
  h_events :: "command list"
  h_size :: int
  h_file :: "event_message list"
  h_garbageFile :: "event_message list"
  h_dropped :: "event_message list"

record handle_conf =
  hc_cap :: nat
  hc_cacheNumber :: int
  hc_maxNumber :: int

definition new_barrel :: "handle_conf \<Rightarrow> event_barrel" where
  "new_barrel c = \<lparr>eb_eventID = [], eb_barrel = [], eb_needPersistence = False, eb_persistenceBarrel = [],
     eb_maxNumber = hc_maxNumber c, eb_cacheNumber = hc_cacheNumber c, eb_size = 0, eb_isCallback = False,
     eb_updateTime = 0\<rparr>"

definition new_handle_store :: handle_store where
  "new_handle_store = \<lparr>h_barrels = [], h_pool = [], h_garbage = [], h_events = [], h_size = 0, h_file = [],
     h_garbageFile = [], h_dropped = []\<rparr>"

definition InsertGarbageMessage :: "event_message list \<Rightarrow> handle_store \<Rightarrow> handle_store" where
  "InsertGarbageMessage ms h = h\<lparr>h_garbage := h_garbage h @ ms\<rparr>"

text \<open>Insert into a barrel that the store has; the flag is false when it has none.\<close>

definition barrel_result :: "event_message \<Rightarrow> string \<Rightarrow> (bool \<times> event_barrel \<times> command list) \<Rightarrow> handle_store \<Rightarrow> handle_store" where
  "barrel_result m k r h =
     (let (err, e, ch) = r;
          h1 = h\<lparr>h_barrels := AList.update k e (h_barrels h), h_events := ch\<rparr>
      in if err then InsertGarbageMessage [m] h1 else h1)"

definition insertMessage :: "handle_conf \<Rightarrow> int \<Rightarrow> event_message \<Rightarrow> handle_store \<Rightarrow> (bool \<times> handle_store) option" where
  "insertMessage c now m h = (case map_of (h_barrels h) (em_EventID m) of
       None \<Rightarrow> Some (False, h)
     | Some e \<Rightarrow> map_option (\<lambda>r. (True, barrel_result m (em_EventID m) r h))
         (eb_insert (hc_cap c) now m (e, h_events h)))"

definition createBarrel :: "handle_conf \<Rightarrow> int \<Rightarrow> event_barrel \<Rightarrow> event_message \<Rightarrow> handle_store \<Rightarrow> handle_store option" where
  "createBarrel c now fresh m h =
     map_option (\<lambda>r. barrel_result m (em_EventID m) r (h\<lparr>h_pool := remove1 fresh (h_pool h)\<rparr>))
       (eb_insert (hc_cap c) now m (fresh\<lparr>eb_eventID := em_EventID m\<rparr>, h_events h))"

text \<open>\<open>InsertMessage\<close>, with no other goroutine between its two halves.\<close>

definition InsertMessage ::
  "handle_conf \<Rightarrow> int \<Rightarrow> event_barrel \<Rightarrow> event_message option \<Rightarrow> handle_store \<Rightarrow> handle_store option" where
  "InsertMessage c now fresh msg h = (case msg of
       None \<Rightarrow> Some h
     | Some m \<Rightarrow>
         (if em_EventID m = [] then Some h
          else let h0 = h\<lparr>h_size := wrap64 (h_size h + 1)\<rparr>
               in (case insertMessage c now m h0 of
                   None \<Rightarrow> None
                 | Some (True, h1) \<Rightarrow> Some h1
                 | Some (False, h1) \<Rightarrow> createBarrel c now fresh m h1)))"

text \<open>
  \<open>SaveMessage\<close> of the file plugin: an error when the directory or the file cannot be opened. Otherwise
  every line is written on its own and the error of a write is ignored; the flags say which of the
  first lines reached the file.
\<close>

datatype save_result = SaveError | SaveOk "bool list"

fun reached :: "bool list \<Rightarrow> 'a list \<Rightarrow> 'a list" where
  "reached (f # fs) (m # ms) = (if f then m # reached fs ms else reached fs ms)"
| "reached fs ms = ms"

fun missed :: "bool list \<Rightarrow> 'a list \<Rightarrow> 'a list" where
  "missed (f # fs) (m # ms) = (if f then missed fs ms else m # missed fs ms)"
| "missed fs ms = []"

definition plugin_SaveMessage :: "save_result \<Rightarrow> event_message list \<Rightarrow> handle_store \<Rightarrow> bool \<times> handle_store" where
  "plugin_SaveMessage r ms h =
     (if length ms = 0 then (True, h)
      else case r of SaveError \<Rightarrow> (False, h)
        | SaveOk fs \<Rightarrow> (True, h\<lparr>h_file := h_file h @ reached fs ms, h_dropped := h_dropped h @ missed fs ms\<rparr>))"

definition saveBeforeGc :: "save_result \<Rightarrow> event_barrel \<Rightarrow> handle_store \<Rightarrow> handle_store" where
  "saveBeforeGc r v h =
     (let v1 = eb_gcPersistence v; ms = eb_persistenceBarrel v1
      in if 0 < length ms
         then (let (ok, h1) = plugin_SaveMessage r ms h in if ok then h1 else InsertGarbageMessage ms h1)
         else h)"

text \<open>
  The collection: first every quiet barrel is saved, then they are emptied, given back to the pool and
  removed. \<open>ok\<close> says how the write of each event goes.
\<close>

definition quiet :: "int \<Rightarrow> event_barrel \<Rightarrow> bool" where
  "quiet now v \<longleftrightarrow> eb_updateTime v + 30 < now"

definition gcRun :: "(string \<Rightarrow> save_result) \<Rightarrow> int \<Rightarrow> handle_store \<Rightarrow> handle_store" where
  "gcRun ok now h =
     (if length (h_barrels h) = 0 then h
      else let gc = filter (\<lambda>(k, v). quiet now v) (h_barrels h);
               h1 = foldl (\<lambda>h (k, v). saveBeforeGc (ok k) v h) h gc
           in h1\<lparr>h_barrels := filter (\<lambda>(k, v). \<not> quiet now v) (h_barrels h1),
                 h_pool := h_pool h1 @ map (\<lambda>(k, v). eb_empty v) gc\<rparr>)"

definition Gc_tick :: "(string \<Rightarrow> save_result) \<Rightarrow> int \<Rightarrow> handle_store \<Rightarrow> handle_store" where
  "Gc_tick ok now h = gcRun ok now (h\<lparr>h_size := 0\<rparr>)"

definition h_persistence :: "save_result \<Rightarrow> string \<Rightarrow> handle_store \<Rightarrow> handle_store" where
  "h_persistence ok eventID h = (case map_of (h_barrels h) eventID of
       None \<Rightarrow> h
     | Some ba \<Rightarrow>
         (if eb_needPersistence ba
          then (let (saved, h0) = plugin_SaveMessage ok (eb_persistenceBarrel ba) h;
                    h1 = (if saved then h0 else InsertGarbageMessage (eb_persistenceBarrel ba) h0)
                in h1\<lparr>h_barrels := AList.update eventID
                        (ba\<lparr>eb_persistenceBarrel := [], eb_needPersistence := False\<rparr>) (h_barrels h1)\<rparr>)
          else h))"

text \<open>
  One round of the worker. The command \<open>callback\<close> completes the event in the database, which the
  store does not see; every other command is dropped.
\<close>

definition handleBarrelEvent :: "save_result \<Rightarrow> handle_store \<Rightarrow> handle_store option" where
  "handleBarrelEvent ok h = (case h_events h of
       [] \<Rightarrow> None
     | event # rest \<Rightarrow>
         (let h1 = h\<lparr>h_events := rest\<rparr>
          in Some (if length event = 2 \<and> event ! 0 = ''persistence'' then h_persistence ok (event ! 1) h1 else h1)))"

text \<open>
  The garbage is cleared whether or not the garbage file could be appended to, and a message without
  contents is not written at all.
\<close>

definition saveGarbageMessage :: "bool \<Rightarrow> handle_store \<Rightarrow> handle_store" where
  "saveGarbageMessage ok h =
     (let written = filter (\<lambda>m. em_Content m \<noteq> None) (h_garbage h);
          skipped = filter (\<lambda>m. em_Content m = None) (h_garbage h)
      in h\<lparr>h_garbageFile := (if ok then h_garbageFile h @ written else h_garbageFile h),
           h_dropped := h_dropped h @ skipped @ (if ok then [] else written), h_garbage := []\<rparr>)"

definition h_stop :: "(string \<Rightarrow> save_result) \<Rightarrow> handle_store \<Rightarrow> handle_store" where
  "h_stop ok h = (let h1 = foldl (\<lambda>h (k, v). saveBeforeGc (ok k) v h) h (h_barrels h)
     in h1\<lparr>h_barrels := map (\<lambda>(k, v). (k, (eb_gcPersistence v)\<lparr>eb_persistenceBarrel := []\<rparr>)) (h_barrels h1)\<rparr>)"

text \<open>\<open>GetHistoryMessage\<close> dereferences the barrel it looks up.\<close>

definition GetHistoryMessage :: "string \<Rightarrow> int \<Rightarrow> handle_store \<Rightarrow> string list go" where
  "GetHistoryMessage eventID len h = bind_go (deref (map_of (h_barrels h) eventID)) (\<lambda>ba.
     let re = map (\<lambda>m. case em_Content m of None \<Rightarrow> [] | Some s \<Rightarrow> s) (eb_barrel ba)
     in if int (length re) > len \<and> len \<noteq> 0
        then (if len - 1 < 0 then Inl IndexOutOfRange else Inr (take (nat (len - 1)) re))
        else Inr re)"

section \<open>Goroutines\<close>

text \<open>
  Several goroutines insert messages. \<open>InsertMessage\<close> looks the barrel up under the read lock and, when
  there is none, creates one under the write lock, without looking again: \<open>hs_flight\<close> are the messages
  between the two halves. \<open>hs_accepted\<close> and \<open>hs_lost\<close> are ghost state: the messages handed in, and what
  the barrels held that were replaced by a new one.
\<close>

record handle_sys =
  hs_store :: handle_store
  hs_flight :: "event_message list"
  hs_accepted :: "event_message list"
  hs_lost :: "event_message list"

definition start_sys :: handle_sys where
  "start_sys = \<lparr>hs_store = new_handle_store, hs_flight = [], hs_accepted = [], hs_lost = []\<rparr>"

definition barrel_messages :: "event_barrel \<Rightarrow> event_message list" where
  "barrel_messages e = eb_persistenceBarrel e @ eb_barrel e"

definition replaced :: "string \<Rightarrow> handle_store \<Rightarrow> event_message list" where
  "replaced k h = (case map_of (h_barrels h) k of None \<Rightarrow> [] | Some e \<Rightarrow> barrel_messages e)"

definition counted :: "handle_store \<Rightarrow> handle_store" where
  "counted h = h\<lparr>h_size := wrap64 (h_size h + 1)\<rparr>"

definition accepted_msg :: "event_message \<Rightarrow> bool" where
  "accepted_msg m \<longleftrightarrow> em_EventID m \<noteq> []"

text \<open>
  A write is \<open>honest\<close> when it reports that it failed. In \<open>hstep_f False\<close> all writes are honest and the
  garbage file can be appended to; in \<open>hstep_f True\<close>, and so in \<open>hstep\<close>, everything can go wrong.
\<close>

definition honest :: "save_result \<Rightarrow> bool" where
  "honest r \<longleftrightarrow> (case r of SaveError \<Rightarrow> True | SaveOk fs \<Rightarrow> list_all id fs)"

inductive hstep_f :: "bool \<Rightarrow> handle_conf \<Rightarrow> handle_sys \<Rightarrow> handle_sys \<Rightarrow> bool" for faulty c where
  Found: "accepted_msg m \<Longrightarrow> insertMessage c now m (counted (hs_store s)) = Some (True, h) \<Longrightarrow>
    hstep_f faulty c s (s\<lparr>hs_store := h, hs_accepted := hs_accepted s @ [m]\<rparr>)"
| Missing: "accepted_msg m \<Longrightarrow> insertMessage c now m (counted (hs_store s)) = Some (False, h) \<Longrightarrow>
    hstep_f faulty c s (s\<lparr>hs_store := h, hs_flight := hs_flight s @ [m], hs_accepted := hs_accepted s @ [m]\<rparr>)"
| Create: "m \<in> set (hs_flight s) \<Longrightarrow> fresh \<in> insert (new_barrel c) (set (h_pool (hs_store s))) \<Longrightarrow>
    createBarrel c now fresh m (hs_store s) = Some h \<Longrightarrow>
    hstep_f faulty c s (s\<lparr>hs_store := h, hs_flight := remove1 m (hs_flight s),
      hs_lost := hs_lost s @ replaced (em_EventID m) (hs_store s)\<rparr>)"
| Garbage: "hstep_f faulty c s (s\<lparr>hs_store := InsertGarbageMessage [m] (hs_store s), hs_accepted := hs_accepted s @ [m]\<rparr>)"
| Gc: "(\<And>k. faulty \<or> honest (ok k)) \<Longrightarrow> hstep_f faulty c s (s\<lparr>hs_store := Gc_tick ok now (hs_store s)\<rparr>)"
| Work: "faulty \<or> honest ok \<Longrightarrow> handleBarrelEvent ok (hs_store s) = Some h \<Longrightarrow>
    hstep_f faulty c s (s\<lparr>hs_store := h\<rparr>)"
| Save: "faulty \<or> ok \<Longrightarrow> hstep_f faulty c s (s\<lparr>hs_store := saveGarbageMessage ok (hs_store s)\<rparr>)"

definition hstep :: "handle_conf \<Rightarrow> handle_sys \<Rightarrow> handle_sys \<Rightarrow> bool" where
  "hstep c = hstep_f True c"

definition stored :: "handle_store \<Rightarrow> event_message multiset" where
  "stored h = mset (concat (map (barrel_messages \<circ> snd) (h_barrels h))) + mset (h_garbage h) +
     mset (h_file h) + mset (h_garbageFile h)"

definition total :: "handle_store \<Rightarrow> event_message multiset" where
  "total h = stored h + mset (h_dropped h)"

definition matters :: "event_message \<Rightarrow> bool" where
  "matters m \<longleftrightarrow> em_Step m \<noteq> ''progress''"

text \<open>The store's own invariant: names are distinct and pooled barrels are empty.\<close>

definition h_inv :: "handle_store \<Rightarrow> bool" where
  "h_inv h \<longleftrightarrow> gm_wf (h_barrels h) \<and> (\<forall>e \<in> set (h_pool h). barrel_messages e = [])"

lemma barrel_messages_persistence:
  "eb_persistence cap (e, ch) = (e', ch') \<Longrightarrow> barrel_messages e' = barrel_messages e"
  by (auto simp: eb_persistence_def barrel_messages_def)

lemma analysis_messages: "analysis cap m (e, ch) = Some (e', ch') \<Longrightarrow> barrel_messages e' = barrel_messages e"
  by (auto simp: analysis_def Let_def barrel_messages_persistence send_def
      split: if_splits option.splits prod.splits)

text \<open>A barrel keeps what it had and adds the message, unless it reports an error or ignores it.\<close>

lemma eb_insert_messages:
  assumes "eb_insert cap now m (e, ch) = Some (err, e', ch')"
  shows "barrel_messages e' = barrel_messages e @ (if err \<or> \<not> matters m then [] else [m])"
proof (cases "eb_size e > eb_maxNumber e \<or> em_Step m = ''progress''")
  case True
  then show ?thesis
    using assms by (auto simp: eb_insert_def matters_def split: if_splits)
next
  case False
  let ?e = "e\<lparr>eb_barrel := eb_barrel e @ [m], eb_size := wrap64 (eb_size e + 1)\<rparr>"
  obtain e1 ch1 where a: "analysis cap m (?e, ch) = Some (e1, ch1)"
    using assms False by (cases "analysis cap m (?e, ch)") (auto simp: eb_insert_def)
  define p where "p = (if int (length (eb_barrel e1)) \<ge> eb_cacheNumber e1 then eb_persistence cap (e1, ch1) else (e1, ch1))"
  have res: "\<not> err" "e' = (fst p)\<lparr>eb_updateTime := now\<rparr>"
    using assms False a by (auto simp: eb_insert_def p_def Let_def split: prod.splits)
  have "barrel_messages (fst p) = barrel_messages e1"
    using barrel_messages_persistence [of cap e1 ch1] by (cases "eb_persistence cap (e1, ch1)") (simp add: p_def)
  also have "\<dots> = barrel_messages e @ [m]"
    using analysis_messages [OF a] by (simp add: barrel_messages_def)
  finally show ?thesis
    using res False by (simp add: barrel_messages_def matters_def)
qed

text \<open>Replacing an entry exchanges its messages.\<close>

lemma mset_update:
  "gm_wf m \<Longrightarrow> mset (concat (map (f \<circ> snd) (AList.update k e m))) +
     mset (case map_of m k of None \<Rightarrow> [] | Some d \<Rightarrow> f d) = mset (concat (map (f \<circ> snd) m)) + mset (f e)"
proof (induction m)
  case (Cons x m)
  obtain k' d where x: "x = (k', d)"
    by (cases x)
  show ?case
  proof (cases "k' = k")
    case True
    then have "map_of m k = None"
      using Cons.prems x by (simp add: map_of_eq_None_iff)
    then show ?thesis
      using x True by simp
  next
    case False
    then show ?thesis
      using Cons x by (simp add: union_assoc)
  qed
qed simp

lemma stored_garbage [simp]: "total (InsertGarbageMessage ms h) = total h + mset ms"
  by (simp add: total_def stored_def InsertGarbageMessage_def)

lemma stored_counted [simp]: "total (counted h) = total h" "h_barrels (counted h) = h_barrels h"
    "h_pool (counted h) = h_pool h"
  by (simp_all add: total_def stored_def counted_def)

lemma barrel_result_stored:
  assumes "gm_wf (h_barrels h)" "eb_insert cap now m (e, ch) = Some r"
  shows "\<exists>new. set new \<subseteq> {m} \<and> filter matters new = filter matters [m] \<and>
    total (barrel_result m k r h) + mset (replaced k h) = total h + mset (barrel_messages e @ new)"
proof -
  obtain err e' ch' where res: "r = (err, e', ch')"
    by (cases r)
  note ins = eb_insert_messages [OF assms(2) [unfolded res]]
  have upd: "mset (concat (map (barrel_messages \<circ> snd) (AList.update k e' (h_barrels h)))) + mset (replaced k h) =
      mset (concat (map (barrel_messages \<circ> snd) (h_barrels h))) + mset (barrel_messages e')"
    using mset_update [OF assms(1), of barrel_messages k e'] by (simp add: replaced_def split: option.splits)
  have eq: "total (barrel_result m k r h) + mset (replaced k h) =
      total h + mset (barrel_messages e') + (if err then {#m#} else {#})"
    using upd by (simp add: res barrel_result_def Let_def total_def stored_def InsertGarbageMessage_def ac_simps)
  show ?thesis
    by (rule exI [of _ "if \<not> matters m \<and> \<not> err then [] else [m]"]) (use ins eq in auto)
qed

lemma h_invD: "h_inv h \<Longrightarrow> gm_wf (h_barrels h)"
  by (simp add: h_inv_def)

lemma barrel_result_inv: "h_inv h \<Longrightarrow> h_inv (barrel_result m k r h)"
  by (auto simp: h_inv_def barrel_result_def Let_def InsertGarbageMessage_def split: prod.splits)

lemma barrel_result_dropped [simp]: "h_dropped (barrel_result m k r h) = h_dropped h"
  by (auto simp: barrel_result_def Let_def InsertGarbageMessage_def split: prod.splits)

lemma insertMessage_False: "insertMessage c now m h = Some (False, h') \<Longrightarrow> h' = h \<and> map_of (h_barrels h) (em_EventID m) = None"
  by (auto simp: insertMessage_def split: option.splits)

lemma insertMessage_True:
  assumes "insertMessage c now m h = Some (True, h')" "h_inv h"
  shows "h_inv h'" "filter_mset matters (total h') = filter_mset matters (total h) + filter_mset matters {#m#}"
    and "map_of (h_barrels h) (em_EventID m) \<noteq> None" "dom (map_of (h_barrels h')) = dom (map_of (h_barrels h))"
    and "h_dropped h' = h_dropped h"
proof -
  let ?k = "em_EventID m"
  obtain e r where e: "map_of (h_barrels h) ?k = Some e" "eb_insert (hc_cap c) now m (e, h_events h) = Some r"
      "h' = barrel_result m ?k r h"
    using assms(1) by (auto simp: insertMessage_def split: option.splits)
  have rep: "replaced ?k h = barrel_messages e"
    by (simp add: replaced_def e(1))
  show "h_inv h'"
    using assms(2) by (simp add: e(3) barrel_result_inv)
  obtain new where "filter matters new = filter matters [m]" "total h' = total h + mset new"
    using barrel_result_stored [OF h_invD [OF assms(2)] e(2), of ?k] by (auto simp: e(3) rep ac_simps)
  then show "filter_mset matters (total h') = filter_mset matters (total h) + filter_mset matters {#m#}"
    by (metis filter_union_mset mset_filter mset_single_iff_right)
  show "map_of (h_barrels h) ?k \<noteq> None" "dom (map_of (h_barrels h')) = dom (map_of (h_barrels h))"
    using e(1) by (auto simp: e(3) barrel_result_def Let_def InsertGarbageMessage_def update_conv' split: prod.splits)
  show "h_dropped h' = h_dropped h"
    by (simp add: e(3))
qed

lemma createBarrel_dropped: "createBarrel c now fresh m h = Some h' \<Longrightarrow> h_dropped h' = h_dropped h"
  by (auto simp: createBarrel_def)

lemma createBarrel_stored:
  assumes "createBarrel c now fresh m h = Some h'" "h_inv h"
    and "fresh \<in> insert (new_barrel c) (set (h_pool h))"
  shows "h_inv h'" "filter_mset matters (total h') + filter_mset matters (mset (replaced (em_EventID m) h)) =
      filter_mset matters (total h) + filter_mset matters {#m#}"
proof -
  let ?k = "em_EventID m" and ?h = "h\<lparr>h_pool := remove1 fresh (h_pool h)\<rparr>"
  obtain r where r: "eb_insert (hc_cap c) now m (fresh\<lparr>eb_eventID := ?k\<rparr>, h_events h) = Some r"
      "h' = barrel_result m ?k r ?h"
    using assms(1) by (auto simp: createBarrel_def)
  have "barrel_messages fresh = []"
    using assms(2,3) by (auto simp: h_inv_def new_barrel_def barrel_messages_def)
  then have none: "barrel_messages (fresh\<lparr>eb_eventID := ?k\<rparr>) = []"
    by (simp add: barrel_messages_def)
  have st: "total ?h = total h" "replaced ?k ?h = replaced ?k h"
    by (simp_all add: total_def stored_def replaced_def)
  have inv: "h_inv ?h"
    using assms(2) set_remove1_subset [of fresh "h_pool h"] by (auto simp: h_inv_def st)
  show "h_inv h'"
    using inv by (simp add: r(2) barrel_result_inv)
  obtain new where "filter matters new = filter matters [m]"
      "total h' + mset (replaced ?k h) = total h + mset new"
    using barrel_result_stored [OF h_invD [OF inv] r(1), of ?k] none by (auto simp: r(2) st)
  then show "filter_mset matters (total h') + filter_mset matters (mset (replaced ?k h)) =
      filter_mset matters (total h) + filter_mset matters {#m#}"
    by (metis filter_union_mset mset_filter mset_single_iff_right)
qed

lemma reached_missed: "mset (reached fs ms) + mset (missed fs ms) = mset ms"
  by (induction fs ms rule: reached.induct) auto

lemma missed_honest: "list_all id fs \<Longrightarrow> missed fs ms = []"
  by (induction fs ms rule: missed.induct) auto

definition save_or_keep :: "save_result \<Rightarrow> event_message list \<Rightarrow> handle_store \<Rightarrow> handle_store" where
  "save_or_keep r ms h = (let (ok, h1) = plugin_SaveMessage r ms h in if ok then h1 else InsertGarbageMessage ms h1)"

lemma save_or_keep_total:
  "total (save_or_keep r ms h) = total h + mset ms"
  "h_barrels (save_or_keep r ms h) = h_barrels h" "h_pool (save_or_keep r ms h) = h_pool h"
  "honest r \<Longrightarrow> h_dropped (save_or_keep r ms h) = h_dropped h"
proof -
  show "total (save_or_keep r ms h) = total h + mset ms"
    using reached_missed [of _ ms]
    by (auto simp: save_or_keep_def plugin_SaveMessage_def total_def stored_def InsertGarbageMessage_def ac_simps
        split: save_result.split)
qed (auto simp: save_or_keep_def plugin_SaveMessage_def InsertGarbageMessage_def honest_def missed_honest
       split: save_result.splits)

lemma saveBeforeGc_save: "saveBeforeGc r v h = save_or_keep r (barrel_messages v) h"
proof -
  have "eb_persistenceBarrel (eb_gcPersistence v) = barrel_messages v"
    by (simp add: eb_gcPersistence_def barrel_messages_def)
  then show ?thesis
    by (simp add: saveBeforeGc_def save_or_keep_def plugin_SaveMessage_def Let_def split: save_result.split)
qed

definition save_all :: "(string \<Rightarrow> save_result) \<Rightarrow> (string \<times> event_barrel) list \<Rightarrow> handle_store \<Rightarrow> handle_store" where
  "save_all ok xs h = foldl (\<lambda>h (k, v). saveBeforeGc (ok k) v h) h xs"

lemma saves_stored:
  "total (save_all ok xs h) = total h + mset (concat (map (barrel_messages \<circ> snd) xs))"
  "h_barrels (save_all ok xs h) = h_barrels h" "h_pool (save_all ok xs h) = h_pool h"
  "(\<And>k. honest (ok k)) \<Longrightarrow> h_dropped (save_all ok xs h) = h_dropped h"
  unfolding save_all_def
  by (induction xs arbitrary: h) (auto simp: saveBeforeGc_save save_or_keep_total)

lemma mset_concat_partition:
  "mset (concat (map f (filter P xs))) + mset (concat (map f (filter (\<lambda>x. \<not> P x) xs))) = mset (concat (map f xs))"
  by (induction xs) (auto simp: ac_simps)

lemma mset_cancel_parts: "X + A = (S + G) + K \<Longrightarrow> G + K = A \<Longrightarrow> X = (S :: 'a multiset)"
  by (metis add.assoc add_right_cancel)

lemma Gc_tick_stored:
  shows "total (Gc_tick ok now h) = total h" "h_inv h \<Longrightarrow> h_inv (Gc_tick ok now h)"
    and "dom (map_of (h_barrels (Gc_tick ok now h))) \<subseteq> dom (map_of (h_barrels h))"
    and "(\<And>k. honest (ok k)) \<Longrightarrow> h_dropped (Gc_tick ok now h) = h_dropped h"
proof -
  let ?P = "\<lambda>(k, v). quiet now v"
  let ?gc = "filter ?P (h_barrels h)" and ?keep = "filter (\<lambda>(k, v). \<not> quiet now v) (h_barrels h)"
  let ?h0 = "h\<lparr>h_size := 0\<rparr>"
  define h1 where "h1 = save_all ok ?gc ?h0"
  have h1: "total h1 = total ?h0 + mset (concat (map (barrel_messages \<circ> snd) ?gc))" "h_barrels h1 = h_barrels h"
      "h_pool h1 = h_pool h"
    unfolding h1_def by (simp_all add: saves_stored)
  have eq: "Gc_tick ok now h = (if h_barrels h = [] then ?h0
      else h1\<lparr>h_barrels := ?keep, h_pool := h_pool h1 @ map (\<lambda>(k, v). eb_empty v) ?gc\<rparr>)"
    by (simp add: Gc_tick_def gcRun_def Let_def h1_def [symmetric] save_all_def [symmetric] h1(2))
  have part: "mset (concat (map (barrel_messages \<circ> snd) ?gc)) + mset (concat (map (barrel_messages \<circ> snd) ?keep)) =
      mset (concat (map (barrel_messages \<circ> snd) (h_barrels h)))"
    using mset_concat_partition [of "barrel_messages \<circ> snd" ?P "h_barrels h"] by (simp add: case_prod_unfold)
  have "total (h1\<lparr>h_barrels := ?keep, h_pool := p\<rparr>) = total h" for p
  proof (rule mset_cancel_parts [OF _ part])
    have "total (h1\<lparr>h_barrels := ?keep, h_pool := p\<rparr>) + mset (concat (map (barrel_messages \<circ> snd) (h_barrels h)))
        = total h1 + mset (concat (map (barrel_messages \<circ> snd) ?keep))"
      by (simp add: total_def stored_def h1(2))
    also have "total h1 = total h + mset (concat (map (barrel_messages \<circ> snd) ?gc))"
      by (simp add: h1(1)) (simp add: total_def stored_def)
    finally show "total (h1\<lparr>h_barrels := ?keep, h_pool := p\<rparr>) + mset (concat (map (barrel_messages \<circ> snd) (h_barrels h)))
        = (total h + mset (concat (map (barrel_messages \<circ> snd) ?gc))) + mset (concat (map (barrel_messages \<circ> snd) ?keep))" .
  qed
  then show st: "total (Gc_tick ok now h) = total h"
    by (simp add: eq) (simp add: total_def stored_def)
  have "\<forall>e \<in> set (map (\<lambda>(k, v). eb_empty v) ?gc). barrel_messages e = []"
    by (auto simp: eb_empty_def barrel_messages_def)
  then show "h_inv (Gc_tick ok now h)" if "h_inv h"
    using that st by (auto simp: h_inv_def eq h1 distinct_map_filter)
  show "dom (map_of (h_barrels (Gc_tick ok now h))) \<subseteq> dom (map_of (h_barrels h))"
    by (auto simp: eq dom_map_of_conv_image_fst)
  show "h_dropped (Gc_tick ok now h) = h_dropped h" if "\<And>k. honest (ok k)"
    using that by (simp add: eq h1_def saves_stored)
qed

lemma h_persistence_save:
  "h_persistence r k h = (case map_of (h_barrels h) k of None \<Rightarrow> h
     | Some ba \<Rightarrow> if eb_needPersistence ba
         then (save_or_keep r (eb_persistenceBarrel ba) h)\<lparr>h_barrels :=
           AList.update k (ba\<lparr>eb_persistenceBarrel := [], eb_needPersistence := False\<rparr>) (h_barrels h)\<rparr>
         else h)"
  by (auto simp: h_persistence_def save_or_keep_def plugin_SaveMessage_def InsertGarbageMessage_def Let_def
      split: option.split save_result.split)

lemma total_barrels: "total (h\<lparr>h_barrels := b\<rparr>) + mset (concat (map (barrel_messages \<circ> snd) (h_barrels h))) =
    total h + mset (concat (map (barrel_messages \<circ> snd) b))"
  by (simp add: total_def stored_def ac_simps)

lemma h_persistence_stored:
  assumes "h_inv h"
  shows "total (h_persistence r k h) = total h" "h_inv (h_persistence r k h)"
    and "dom (map_of (h_barrels (h_persistence r k h))) = dom (map_of (h_barrels h))"
    and "honest r \<Longrightarrow> h_dropped (h_persistence r k h) = h_dropped h"
proof -
  show "total (h_persistence r k h) = total h"
  proof (cases "map_of (h_barrels h) k")
    case (Some ba)
    let ?ba = "ba\<lparr>eb_persistenceBarrel := [], eb_needPersistence := False\<rparr>"
    let ?h = "save_or_keep r (eb_persistenceBarrel ba) h" and ?b = "AList.update k ?ba (h_barrels h)"
    have "mset (concat (map (barrel_messages \<circ> snd) ?b)) + mset (barrel_messages ba) =
        mset (concat (map (barrel_messages \<circ> snd) (h_barrels h))) + mset (eb_barrel ba)"
      using mset_update [OF h_invD [OF assms], of barrel_messages k ?ba] by (simp add: Some) (simp add: barrel_messages_def)
    then have upd: "mset (concat (map (barrel_messages \<circ> snd) ?b)) + mset (eb_persistenceBarrel ba) =
        mset (concat (map (barrel_messages \<circ> snd) (h_barrels h)))"
      by (simp add: barrel_messages_def)
    have "total (?h\<lparr>h_barrels := ?b\<rparr>) + mset (concat (map (barrel_messages \<circ> snd) (h_barrels h))) =
        total h + (mset (concat (map (barrel_messages \<circ> snd) ?b)) + mset (eb_persistenceBarrel ba))"
      using total_barrels [of ?b ?h] by (simp add: save_or_keep_total ac_simps)
    then have "total (?h\<lparr>h_barrels := ?b\<rparr>) = total h"
      unfolding upd by simp
    then show ?thesis
      using Some by (simp add: h_persistence_save)
  qed (simp add: h_persistence_save)
  show "h_inv (h_persistence r k h)"
    using assms by (auto simp: h_inv_def h_persistence_save save_or_keep_total split: option.splits)
  show "dom (map_of (h_barrels (h_persistence r k h))) = dom (map_of (h_barrels h))"
    by (auto simp: h_persistence_save update_conv' split: option.splits)
  show "h_dropped (h_persistence r k h) = h_dropped h" if "honest r"
    using that by (simp add: h_persistence_save save_or_keep_total split: option.split)
qed

lemma handleBarrelEvent_stored:
  assumes "handleBarrelEvent r h = Some h'" "h_inv h"
  shows "total h' = total h" "h_inv h'" "dom (map_of (h_barrels h')) = dom (map_of (h_barrels h))"
    and "honest r \<Longrightarrow> h_dropped h' = h_dropped h"
proof -
  obtain event rest where ev: "h_events h = event # rest"
    using assms(1) by (cases "h_events h") (simp_all add: handleBarrelEvent_def)
  let ?h = "h\<lparr>h_events := rest\<rparr>"
  have st: "total ?h = total h"
    by (simp add: total_def stored_def)
  have inv: "h_inv ?h"
    using assms(2) by (simp add: h_inv_def)
  have h': "h' = (if length event = 2 \<and> event ! 0 = ''persistence'' then h_persistence r (event ! 1) ?h else ?h)"
    using assms(1) by (simp add: handleBarrelEvent_def ev Let_def)
  show "total h' = total h" "h_inv h'" "dom (map_of (h_barrels h')) = dom (map_of (h_barrels h))"
    and "honest r \<Longrightarrow> h_dropped h' = h_dropped h"
    using h_persistence_stored [OF inv] inv st by (simp_all add: h')
qed

lemma saveGarbageMessage_stored:
  "total (saveGarbageMessage ok h) = total h" "h_inv (saveGarbageMessage ok h) = h_inv h"
  "h_barrels (saveGarbageMessage ok h) = h_barrels h"
  "ok \<Longrightarrow> set (h_dropped (saveGarbageMessage ok h)) \<subseteq> set (h_dropped h) \<union> {m. em_Content m = None}"
proof -
  have "mset (filter (\<lambda>m. em_Content m \<noteq> None) ms) + mset (filter (\<lambda>m. em_Content m = None) ms) = mset ms" for ms
    by (induction ms) auto
  then show "total (saveGarbageMessage ok h) = total h"
    by (cases ok) (simp_all add: saveGarbageMessage_def total_def stored_def Let_def ac_simps)
qed (auto simp: saveGarbageMessage_def h_inv_def Let_def)

section \<open>No message is lost\<close>

definition sys_inv :: "bool \<Rightarrow> handle_sys \<Rightarrow> bool" where
  "sys_inv faulty s \<longleftrightarrow> h_inv (hs_store s) \<and>
     (faulty \<or> (\<forall>m \<in> set (h_dropped (hs_store s)). em_Content m = None)) \<and>
     filter_mset matters (mset (hs_accepted s)) =
     filter_mset matters (total (hs_store s) + mset (hs_flight s) + mset (hs_lost s))"

lemma start_inv: "sys_inv faulty start_sys"
  by (simp add: sys_inv_def start_sys_def new_handle_store_def h_inv_def total_def stored_def)

lemma counted_simps [simp]: "h_inv (counted h) = h_inv h" "h_dropped (counted h) = h_dropped h"
  by (simp_all add: h_inv_def) (simp add: counted_def)

lemma garbage_simps [simp]: "h_inv (InsertGarbageMessage ms h) = h_inv h"
    "h_dropped (InsertGarbageMessage ms h) = h_dropped h" "h_barrels (InsertGarbageMessage ms h) = h_barrels h"
  by (simp_all add: h_inv_def InsertGarbageMessage_def)

lemma hstep_inv: "hstep_f faulty c s t \<Longrightarrow> sys_inv faulty s \<Longrightarrow> sys_inv faulty t"
proof (induction rule: hstep_f.induct)
  case (Found m now s h)
  have inv: "h_inv (counted (hs_store s))"
    using Found.prems by (simp add: sys_inv_def)
  note ins = insertMessage_True [OF Found.hyps(2) inv]
  show ?case
    using Found.prems ins(1,2,5) by (simp add: sys_inv_def ac_simps)
next
  case (Missing m now s h)
  have h: "h = counted (hs_store s)"
    using insertMessage_False [OF Missing.hyps(2)] by blast
  show ?case
    using Missing by (simp add: sys_inv_def h)
next
  case (Create m s fresh now h)
  have inv: "h_inv (hs_store s)"
    using Create by (simp add: sys_inv_def)
  note cr = createBarrel_stored [OF Create.hyps(3) inv Create.hyps(2)]
  have fl: "mset (hs_flight s) = mset (remove1 m (hs_flight s)) + {#m#}"
    using Create.hyps(1) by simp
  have "filter_mset matters (mset (hs_accepted s)) =
      (filter_mset matters (total (hs_store s)) + filter_mset matters {#m#}) +
      filter_mset matters (mset (remove1 m (hs_flight s))) + filter_mset matters (mset (hs_lost s))"
    using Create.prems unfolding sys_inv_def fl filter_union_mset by (simp add: ac_simps)
  then have "filter_mset matters (mset (hs_accepted s)) =
      filter_mset matters (total h) + filter_mset matters (mset (remove1 m (hs_flight s))) +
      filter_mset matters (mset (hs_lost s @ replaced (em_EventID m) (hs_store s)))"
    unfolding cr(2) [symmetric] by (simp add: ac_simps)
  then show ?case
    using cr(1) Create.prems by (simp add: sys_inv_def createBarrel_dropped [OF Create.hyps(3)])
next
  case (Garbage s m)
  then show ?case
    by (simp add: sys_inv_def ac_simps)
next
  case (Gc ok s now)
  then show ?case
    by (cases faulty) (simp_all add: sys_inv_def Gc_tick_stored)
next
  case (Work ok s h)
  have "h_inv (hs_store s)"
    using Work.prems by (simp add: sys_inv_def)
  note work = handleBarrelEvent_stored [OF Work.hyps(2) this]
  show ?case
    using Work.hyps(1) Work.prems work by (cases faulty) (simp_all add: sys_inv_def)
next
  case (Save ok s)
  then show ?case
    using saveGarbageMessage_stored(4) [of ok "hs_store s"]
    by (cases faulty) (auto simp: sys_inv_def saveGarbageMessage_stored(1,2))
qed

lemma hstep_run: "(hstep c)\<^sup>*\<^sup>* start_sys s \<Longrightarrow> sys_inv True s"
  by (induction rule: rtranclp_induct) (auto intro: start_inv hstep_inv simp: hstep_def)

text \<open>With at most one insertion under way, the barrel created last is the only one of its event.\<close>

definition serial_step :: "bool \<Rightarrow> handle_conf \<Rightarrow> handle_sys \<Rightarrow> handle_sys \<Rightarrow> bool" where
  "serial_step faulty c s t \<longleftrightarrow> hstep_f faulty c s t \<and> length (hs_flight t) \<le> 1"

definition serial_inv :: "handle_sys \<Rightarrow> bool" where
  "serial_inv s \<longleftrightarrow> h_inv (hs_store s) \<and> hs_lost s = [] \<and> length (hs_flight s) \<le> 1 \<and>
     (\<forall>m \<in> set (hs_flight s). em_EventID m \<notin> dom (map_of (h_barrels (hs_store s))))"

lemma hstep_serial:
  "hstep_f faulty c s t \<Longrightarrow> serial_inv s \<Longrightarrow> h_inv (hs_store t) \<Longrightarrow> length (hs_flight t) \<le> 1 \<Longrightarrow> serial_inv t"
proof (induction rule: hstep_f.induct)
  case (Found m now s h)
  have "h_inv (counted (hs_store s))"
    using Found by (simp add: serial_inv_def)
  then show ?case
    using insertMessage_True(4) [OF Found.hyps(2)] Found.prems by (simp add: serial_inv_def)
next
  case (Missing m now s h)
  then have "hs_flight s = []"
    by simp
  then show ?case
    using Missing insertMessage_False [OF Missing.hyps(2)] by (auto simp: serial_inv_def domIff)
next
  case (Create m s fresh now h)
  then have fl: "hs_flight s = [m]"
    by (cases "hs_flight s") (auto simp: serial_inv_def)
  then have "replaced (em_EventID m) (hs_store s) = []"
    using Create.prems by (simp add: serial_inv_def replaced_def domIff)
  then show ?case
    using fl Create.prems by (simp add: serial_inv_def)
next
  case (Garbage s m)
  then show ?case
    by (simp add: serial_inv_def)
next
  case (Gc ok s now)
  then show ?case
    using Gc_tick_stored(3) [of ok now "hs_store s"] by (auto simp: serial_inv_def)
next
  case (Work ok s h)
  then show ?case
    using handleBarrelEvent_stored(3) [OF Work.hyps(2)] by (simp add: serial_inv_def)
next
  case (Save ok s)
  then show ?case
    by (simp add: serial_inv_def saveGarbageMessage_stored(3))
qed

lemma serial_run: "(serial_step faulty c)\<^sup>*\<^sup>* start_sys s \<Longrightarrow> sys_inv faulty s \<and> serial_inv s"
proof (induction rule: rtranclp_induct)
  case base
  then show ?case
    using start_inv by (simp add: serial_inv_def start_sys_def sys_inv_def)
next
  case (step s t)
  from step.hyps(2) have t: "hstep_f faulty c s t" "length (hs_flight t) \<le> 1"
    unfolding serial_step_def by auto
  then have "sys_inv faulty t"
    using hstep_inv step.IH by blast
  then show ?case
    using hstep_serial [OF t(1) _ _ t(2)] step.IH by (simp add: sys_inv_def)
qed

text \<open>
  C7: With one goroutine inserting at a time every message handed in, except progress messages, is in a
  barrel, in an event file, in the garbage list, in the garbage file or in flight, or it was dropped,
  exactly as often as it was handed in, whatever the worker and the garbage collector do in between.
  Messages are dropped only by a write whose failure the code ignores, a line of an event file or the
  garbage file: when every write that fails says so (a failed write of a barrel goes to the garbage)
  and the garbage file can be appended to, only messages without contents are dropped.
\<close>

theorem messages_conserved:
  assumes "(serial_step faulty c)\<^sup>*\<^sup>* start_sys s"
  shows "filter_mset matters (mset (hs_accepted s)) =
      filter_mset matters (stored (hs_store s) + mset (hs_flight s) + mset (h_dropped (hs_store s))) \<and>
    (faulty \<or> (\<forall>m \<in> set (h_dropped (hs_store s)). em_Content m = None))"
  using serial_run [OF assms] by (simp add: sys_inv_def serial_inv_def total_def ac_simps)

text \<open>
  Stopping the store flushes it: when the writes succeed, every message of every barrel is in an
  event file afterwards, after what was there before, and the barrels are empty.
\<close>

theorem stop_flushes:
  "h_file (h_stop (\<lambda>_. SaveOk []) h) = h_file h @ concat (map (barrel_messages \<circ> snd) (h_barrels h)) \<and>
   concat (map (barrel_messages \<circ> snd) (h_barrels (h_stop (\<lambda>_. SaveOk []) h))) = []"
proof -
  have "h_file (save_all (\<lambda>_. SaveOk []) xs h) = h_file h @ concat (map (barrel_messages \<circ> snd) xs)" for xs h
    unfolding save_all_def
    by (induction xs arbitrary: h)
       (auto simp: saveBeforeGc_save save_or_keep_def plugin_SaveMessage_def)
  then show ?thesis
    by (auto simp: h_stop_def Let_def save_all_def [symmetric] eb_gcPersistence_def barrel_messages_def)
qed

text \<open>
  The garbage list is cleared also when the garbage file could not be written, and a line that did not
  reach the file of its event counts as saved: either way a message is gone.
\<close>

theorem failed_garbage_write_loses_message:
  "\<exists>s. (serial_step True c)\<^sup>*\<^sup>* start_sys s \<and> hs_accepted s = [m] \<and> hs_flight s = [] \<and> stored (hs_store s) = {#}"
proof -
  let ?g = "InsertGarbageMessage [m] new_handle_store"
  let ?s1 = "start_sys\<lparr>hs_store := ?g, hs_accepted := [m]\<rparr>"
  let ?s2 = "?s1\<lparr>hs_store := saveGarbageMessage False ?g\<rparr>"
  have "serial_step True c start_sys ?s1"
    using hstep_f.Garbage [of True c start_sys m] by (simp add: serial_step_def start_sys_def)
  moreover have "serial_step True c ?s1 ?s2"
    using hstep_f.Save [of True False c ?s1] by (simp add: serial_step_def start_sys_def)
  ultimately have "(serial_step True c)\<^sup>*\<^sup>* start_sys ?s2"
    by (meson rtranclp.rtrancl_into_rtrancl rtranclp.rtrancl_refl)
  then show ?thesis
    by (rule exI [of _ ?s2, OF conjI])
       (simp add: start_sys_def stored_def saveGarbageMessage_def InsertGarbageMessage_def new_handle_store_def Let_def)
qed

theorem unwritten_line_counts_as_saved:
  assumes "eb_persistenceBarrel (eb_gcPersistence v) = [m]"
  shows "saveBeforeGc (SaveOk [False]) v h = h\<lparr>h_dropped := h_dropped h @ [m]\<rparr>"
  using assms by (simp add: saveBeforeGc_def plugin_SaveMessage_def)

definition plain :: "event_message \<Rightarrow> bool" where
  "plain m \<longleftrightarrow> em_Step m \<notin> {''last'', ''callback'', ''code-version'', ''progress''}"

lemma createBarrel_plain:
  assumes "plain m" "0 \<le> hc_maxNumber c"
  shows "\<exists>h'. createBarrel c now (new_barrel c) m h = Some h' \<and>
    (\<exists>e. map_of (h_barrels h') (em_EventID m) = Some e \<and> barrel_messages e = [m])"
proof -
  let ?b = "(new_barrel c)\<lparr>eb_eventID := em_EventID m\<rparr>"
  have ana: "analysis cap m s = Some s" for cap s
    using assms(1) by (cases s) (simp add: analysis_def plain_def Let_def)
  have "\<exists>x. eb_insert (hc_cap c) now m (?b, h_events h) = Some (False, x)"
    using assms by (simp add: eb_insert_def ana new_barrel_def plain_def Let_def split: prod.split)
  then obtain e' ch' where r: "eb_insert (hc_cap c) now m (?b, h_events h) = Some (False, e', ch')"
    by fastforce
  have "barrel_messages e' = [m]"
    using eb_insert_messages [OF r] assms(1)
    by (simp add: barrel_messages_def new_barrel_def matters_def plain_def)
  then show ?thesis
    using r by (simp add: createBarrel_def barrel_result_def Let_def update_conv')
qed

text \<open>
  C37: With two goroutines a message can be lost. When two of them hand in the first messages of an event,
  both find no barrel, each creates one, and the second barrel replaces the first together with its
  message, which is then neither in a barrel nor in a file nor in the garbage.
\<close>

theorem concurrent_insert_loses_message:
  assumes "em_EventID m1 = em_EventID m2" "m1 \<noteq> m2" "accepted_msg m1" "accepted_msg m2" "plain m1" "plain m2"
    and "0 \<le> hc_maxNumber c"
  shows "\<exists>s. (hstep c)\<^sup>*\<^sup>* start_sys s \<and> hs_accepted s = [m1, m2] \<and> hs_flight s = [] \<and> m1 \<notin># stored (hs_store s)"
proof -
  define h0 where "h0 = counted (counted new_handle_store)"
  obtain h1 e1 where h1: "createBarrel c 0 (new_barrel c) m1 h0 = Some h1"
      "map_of (h_barrels h1) (em_EventID m1) = Some e1" "barrel_messages e1 = [m1]"
    using createBarrel_plain [OF assms(5,7)] by meson
  obtain h2 e2 where h2: "createBarrel c 0 (new_barrel c) m2 h1 = Some h2"
    using createBarrel_plain [OF assms(6,7)] by meson
  let ?s1 = "start_sys\<lparr>hs_store := counted new_handle_store, hs_flight := [m1], hs_accepted := [m1]\<rparr>"
  let ?s2 = "?s1\<lparr>hs_store := h0, hs_flight := [m1, m2], hs_accepted := [m1, m2]\<rparr>"
  let ?s3 = "?s2\<lparr>hs_store := h1, hs_flight := [m2], hs_lost := []\<rparr>"
  let ?s4 = "?s3\<lparr>hs_store := h2, hs_flight := [], hs_lost := [m1]\<rparr>"
  have "hstep c start_sys ?s1"
    using hstep_f.Missing [of m1 c 0 start_sys _ True] assms(3)
    by (simp add: hstep_def insertMessage_def start_sys_def counted_def new_handle_store_def)
  moreover have "hstep c ?s1 ?s2"
    using hstep_f.Missing [of m2 c 0 ?s1 _ True] assms(4)
    by (simp add: hstep_def insertMessage_def h0_def counted_def new_handle_store_def)
  moreover have "hstep c ?s2 ?s3"
    using hstep_f.Create [of m1 ?s2 "new_barrel c" c 0 h1 True] h1(1)
    by (simp add: hstep_def replaced_def h0_def counted_def new_handle_store_def start_sys_def)
  moreover have "hstep c ?s3 ?s4"
    using hstep_f.Create [of m2 ?s3 "new_barrel c" c 0 h2 True] h2 h1(2,3) assms(1) by (simp add: replaced_def hstep_def)
  ultimately have run: "(hstep c)\<^sup>*\<^sup>* start_sys ?s4"
    by (meson rtranclp.rtrancl_into_rtrancl rtranclp.rtrancl_refl)
  have "matters m1" "matters m2"
    using assms(5,6) by (simp_all add: matters_def plain_def)
  then have tot: "filter_mset matters (total h2) = {#m2#}"
    using hstep_run [OF run] by (simp add: sys_inv_def)
  have "m1 \<notin># stored h2"
  proof
    assume "m1 \<in># stored h2"
    then have "m1 \<in># filter_mset matters (total h2)"
      using \<open>matters m1\<close> by (simp add: total_def)
    then show False
      using tot assms(2) by simp
  qed
  then show ?thesis
    using run by (intro exI [of _ ?s4]) (simp add: start_sys_def)
qed

section \<open>Witnesses\<close>

definition demo_message :: "string \<Rightarrow> event_message" where
  "demo_message t = \<lparr>em_EventID = ''e1'', em_Step = ''build'', em_Status = [], em_Message = t, em_Level = ''info'',
     em_Time = [], em_Content = Some t, em_TimeUnixNano = 0\<rparr>"

definition demo_conf :: handle_conf where
  "demo_conf = \<lparr>hc_cap = 100, hc_cacheNumber = 256, hc_maxNumber = 10000\<rparr>"

lemma demo_message_ok: "accepted_msg (demo_message t)" "plain (demo_message t)" "matters (demo_message t)"
  by (simp_all add: accepted_msg_def plain_def matters_def demo_message_def)

text \<open>
  A message without a barrel arrives, is put into a new one, and a collection after a minute writes it;
  a second message goes to the garbage and cannot be written. One message is stored, the other dropped.
\<close>

definition demo_created :: handle_store where
  "demo_created = the (createBarrel demo_conf 0 (new_barrel demo_conf) (demo_message ''a'') (counted new_handle_store))"

definition demo_collected :: handle_store where
  "demo_collected = Gc_tick (\<lambda>_. SaveOk []) 60 demo_created"

definition demo_final :: handle_store where
  "demo_final = saveGarbageMessage False (InsertGarbageMessage [demo_message ''b''] demo_collected)"

definition demo_sys :: "handle_store \<Rightarrow> event_message list \<Rightarrow> event_message list \<Rightarrow> handle_sys" where
  "demo_sys h fl acc = \<lparr>hs_store = h, hs_flight = fl, hs_accepted = acc, hs_lost = []\<rparr>"

lemma demo_run:
  "(serial_step True demo_conf)\<^sup>*\<^sup>* start_sys (demo_sys demo_final [] [demo_message ''a'', demo_message ''b''])"
proof -
  let ?a = "demo_message ''a''" and ?b = "demo_message ''b''" and ?h = "counted new_handle_store"
  let ?R = "serial_step True demo_conf"
  have cr: "createBarrel demo_conf 0 (new_barrel demo_conf) ?a ?h = Some demo_created"
    using createBarrel_plain [OF demo_message_ok(2), of demo_conf 0 "''a''" ?h]
    by (auto simp: demo_created_def demo_conf_def)
  have "?R start_sys (demo_sys ?h [?a] [?a])"
    using hstep_f.Missing [of ?a demo_conf 0 start_sys ?h True] demo_message_ok(1) [of "''a''"]
    by (simp add: serial_step_def demo_sys_def insertMessage_def start_sys_def counted_def new_handle_store_def)
  moreover have "?R (demo_sys ?h [?a] [?a]) (demo_sys demo_created [] [?a])"
    using hstep_f.Create [of ?a "demo_sys ?h [?a] [?a]" "new_barrel demo_conf" demo_conf 0 demo_created True] cr
    by (simp add: serial_step_def demo_sys_def replaced_def) (simp add: counted_def new_handle_store_def)
  moreover have "?R (demo_sys demo_created [] [?a]) (demo_sys demo_collected [] [?a])"
    using hstep_f.Gc [of True "\<lambda>_. SaveOk []" demo_conf "demo_sys demo_created [] [?a]" 60]
    by (simp add: serial_step_def demo_sys_def demo_collected_def)
  moreover have "?R (demo_sys demo_collected [] [?a]) (demo_sys (InsertGarbageMessage [?b] demo_collected) [] [?a, ?b])"
    using hstep_f.Garbage [of True demo_conf "demo_sys demo_collected [] [?a]" ?b] by (simp add: serial_step_def demo_sys_def)
  moreover have "?R (demo_sys (InsertGarbageMessage [?b] demo_collected) [] [?a, ?b]) (demo_sys demo_final [] [?a, ?b])"
    using hstep_f.Save [of True False demo_conf "demo_sys (InsertGarbageMessage [?b] demo_collected) [] [?a, ?b]"]
    by (simp add: serial_step_def demo_sys_def demo_final_def)
  ultimately show ?thesis
    by (meson rtranclp.rtrancl_into_rtrancl rtranclp.rtrancl_refl)
qed

lemma demo_values: "h_file demo_final = [demo_message ''a'']" "h_dropped demo_final = [demo_message ''b'']"
    "stored demo_final = {#demo_message ''a''#}"
proof -
  have cr: "demo_created = (counted new_handle_store)\<lparr>h_barrels :=
      [(''e1'', (new_barrel demo_conf)\<lparr>eb_eventID := ''e1'', eb_barrel := [demo_message ''a''], eb_size := 1\<rparr>)]\<rparr>"
    by (simp add: demo_created_def createBarrel_def eb_insert_def analysis_def barrel_result_def Let_def counted_def
        new_handle_store_def new_barrel_def demo_conf_def demo_message_def wrap64_def)
  have co: "h_barrels demo_collected = []" "h_garbage demo_collected = []" "h_file demo_collected = [demo_message ''a'']"
      "h_garbageFile demo_collected = []" "h_dropped demo_collected = []"
    by (simp_all add: demo_collected_def Gc_tick_def gcRun_def cr quiet_def saveBeforeGc_def eb_gcPersistence_def
        plugin_SaveMessage_def Let_def counted_def new_handle_store_def new_barrel_def)
  show "h_file demo_final = [demo_message ''a'']" "h_dropped demo_final = [demo_message ''b'']"
      "stored demo_final = {#demo_message ''a''#}"
    by (simp_all add: demo_final_def saveGarbageMessage_def InsertGarbageMessage_def stored_def co Let_def)
qed

lemma messages_conserved_witness:
  "(serial_step True demo_conf)\<^sup>*\<^sup>* start_sys (demo_sys demo_final [] [demo_message ''a'', demo_message ''b'']) \<and>
   stored demo_final = {#demo_message ''a''#} \<and> h_dropped demo_final = [demo_message ''b''] \<and>
   filter_mset matters (mset [demo_message ''a'', demo_message ''b'']) =
     filter_mset matters (stored demo_final + mset (h_dropped demo_final))"
  using messages_conserved [OF demo_run] demo_run demo_values by (simp add: demo_sys_def)

lemma concurrent_insert_loses_message_witness:
  "\<exists>s. (hstep demo_conf)\<^sup>*\<^sup>* start_sys s \<and> hs_accepted s = [demo_message ''a'', demo_message ''b''] \<and>
     hs_flight s = [] \<and> demo_message ''a'' \<notin># stored (hs_store s)"
  by (rule concurrent_insert_loses_message)
     (simp_all add: demo_message_ok, simp_all add: demo_message_def demo_conf_def)

end
