(* ===== verification/Docker_Log.thy ===== *)
theory Docker_Log
  imports Event_Store
begin

text \<open>
  The store for container logs (\<^verbatim>\<open>src/eventlog/store/docker_log_store.go\<close>, the container barrels of
  \<^verbatim>\<open>event_barrel.go\<close>) and the parser that feeds it (\<open>handleDockerLog\<close> of \<^verbatim>\<open>manager.go\<close>).

  The parser works on slices of one byte array: its buffer starts on the slice of the container name
  and grows into the same array, so the array is passed through it explicitly.

  Lines are written by \<open>SaveMessage\<close> of \<^verbatim>\<open>src/eventlog/db/file_plugin.go\<close>. It remembers the time of the last line
  per file and skips a batch whose last line is older, and it can fail; in both cases the store gives
  the lines up. The hash in the name of a directory is an argument.
\<close>

section \<open>Barrels\<close>

text \<open>Subscribers are channels of capacity 100; a full channel misses the message.\<close>

record docker_barrel =
  dl_name :: string
  dl_barrel :: "event_message list"
  dl_subs :: "event_message list gomap"
  dl_updateTime :: int
  dl_size :: int
  dl_cacheSize :: int
  dl_persistenceTime :: int
  dl_needPersistence :: bool
  dl_persistenceBarrel :: "event_message list"

definition dl_persistence :: "nat \<Rightarrow> int \<Rightarrow> docker_barrel \<times> command list \<Rightarrow> docker_barrel \<times> command list" where
  "dl_persistence cap now s =
     (let (r, ch) = s;
          r1 = r\<lparr>dl_needPersistence := True, dl_persistenceBarrel := dl_persistenceBarrel r @ dl_barrel r, dl_barrel := []\<rparr>
      in if length ch < cap then (r1\<lparr>dl_persistenceTime := now\<rparr>, ch @ [[''persistence'', dl_name r]]) else (r1, ch))"

definition dl_insertMessage ::
  "nat \<Rightarrow> int \<Rightarrow> event_message \<Rightarrow> docker_barrel \<times> command list \<Rightarrow> docker_barrel \<times> command list" where
  "dl_insertMessage cap now m s =
     (let (r, ch) = s;
          r1 = r\<lparr>dl_barrel := dl_barrel r @ [m], dl_name := (if dl_name r = [] then em_EventID m else dl_name r),
                 dl_updateTime := now, dl_subs := map (\<lambda>(k, v). (k, try_send 100 m v)) (dl_subs r),
                 dl_size := wrap64 (dl_size r + 1)\<rparr>
      in if int (length (dl_barrel r1)) \<ge> dl_cacheSize r1 then dl_persistence cap now (r1, ch) else (r1, ch))"

definition dl_empty :: "docker_barrel \<Rightarrow> docker_barrel" where
  "dl_empty r = r\<lparr>dl_barrel := [], dl_subs := [], dl_size := 0, dl_name := [], dl_persistenceBarrel := [],
     dl_needPersistence := False\<rparr>"

definition dl_gcPersistence :: "docker_barrel \<Rightarrow> docker_barrel" where
  "dl_gcPersistence r = r\<lparr>dl_needPersistence := True,
     dl_persistenceBarrel := dl_persistenceBarrel r @ dl_barrel r, dl_barrel := []\<rparr>"

text \<open>A new subscriber gets its channel at once and is entered by a goroutine later.\<close>

definition dl_pushCashMessage :: "string \<Rightarrow> event_message list \<Rightarrow> docker_barrel \<Rightarrow> docker_barrel" where
  "dl_pushCashMessage subID ch r = r\<lparr>dl_subs := AList.update subID ch (dl_subs r)\<rparr>"

definition dl_delSubChan :: "string \<Rightarrow> docker_barrel \<Rightarrow> docker_barrel" where
  "dl_delSubChan subID r = r\<lparr>dl_subs := AList.delete subID (dl_subs r)\<rparr>"

definition dl_messages :: "docker_barrel \<Rightarrow> event_message list" where
  "dl_messages r = dl_persistenceBarrel r @ dl_barrel r"

section \<open>The store\<close>

text \<open>
  \<open>d_file\<close> is what has been written to log files and \<open>d_fileCache\<close> the time of the last line per file.
  \<open>d_dropped\<close> is ghost state: the lines that were given up, and why.
\<close>

datatype drop_reason = WriteError | OlderThan int | BarrelRemoved

record docker_store =
  d_barrels :: "docker_barrel gomap"
  d_LogSizePeerM :: int
  d_LogSize :: int
  d_barrelSize :: int
  d_events :: "command list"
  d_file :: "event_message list"
  d_fileCache :: "int gomap"
  d_dropped :: "(drop_reason \<times> event_message) list"

definition new_docker_barrel :: "int \<Rightarrow> int \<Rightarrow> docker_barrel" where
  "new_docker_barrel cacheSize now = \<lparr>dl_name = [], dl_barrel = [], dl_subs = [], dl_updateTime = 0, dl_size = 0,
     dl_cacheSize = cacheSize, dl_persistenceTime = now, dl_needPersistence = False, dl_persistenceBarrel = []\<rparr>"

definition new_docker_store :: docker_store where
  "new_docker_store = \<lparr>d_barrels = [], d_LogSizePeerM = 0, d_LogSize = 0, d_barrelSize = 0, d_events = [], d_file = [],
     d_fileCache = [], d_dropped = []\<rparr>"

definition put_barrel :: "string \<Rightarrow> docker_barrel \<times> command list \<Rightarrow> docker_store \<Rightarrow> docker_store" where
  "put_barrel k s d = d\<lparr>d_barrels := AList.update k (fst s) (d_barrels d), d_events := snd s\<rparr>"

definition docker_InsertMessage ::
  "nat \<Rightarrow> int \<Rightarrow> docker_barrel \<Rightarrow> event_message option \<Rightarrow> docker_store \<Rightarrow> docker_store" where
  "docker_InsertMessage cap now fresh msg d = (case msg of
       None \<Rightarrow> d
     | Some m \<Rightarrow>
         (if em_EventID m = [] then d
          else let d0 = d\<lparr>d_LogSize := wrap64 (d_LogSize d + 1)\<rparr>
               in (case map_of (d_barrels d0) (em_EventID m) of
                   Some ba \<Rightarrow> put_barrel (em_EventID m) (dl_insertMessage cap now m (ba, d_events d0)) d0
                 | None \<Rightarrow>
                     (let ba = fresh\<lparr>dl_name := em_EventID m, dl_persistenceTime := now\<rparr>
                      in (put_barrel (em_EventID m) (dl_insertMessage cap now m (ba, d_events d0)) d0)
                           \<lparr>d_barrelSize := wrap64 (d_barrelSize d0 + 1)\<rparr>))))"

definition docker_SubChan :: "int \<Rightarrow> docker_barrel \<Rightarrow> string \<Rightarrow> docker_store \<Rightarrow> docker_store" where
  "docker_SubChan now fresh eventID d = (case map_of (d_barrels d) eventID of
       Some ba \<Rightarrow> d
     | None \<Rightarrow> d\<lparr>d_barrels := AList.update eventID (fresh\<lparr>dl_updateTime := now, dl_name := eventID\<rparr>) (d_barrels d)\<rparr>)"

definition docker_subscribed :: "string \<Rightarrow> string \<Rightarrow> docker_store \<Rightarrow> docker_store" where
  "docker_subscribed eventID subID d = (case map_of (d_barrels d) eventID of
       Some ba \<Rightarrow> d\<lparr>d_barrels := AList.update eventID (dl_pushCashMessage subID [] ba) (d_barrels d)\<rparr>
     | None \<Rightarrow> d)"

definition docker_ReleaseSubChan :: "string \<Rightarrow> string \<Rightarrow> docker_store \<Rightarrow> docker_store" where
  "docker_ReleaseSubChan eventID subID d = (case map_of (d_barrels d) eventID of
       Some ba \<Rightarrow> d\<lparr>d_barrels := AList.update eventID (dl_delSubChan subID ba) (d_barrels d)\<rparr>
     | None \<Rightarrow> d)"

text \<open>\<open>InsertGarbageMessage\<close> does nothing in this store: what cannot be written is dropped.\<close>

definition docker_InsertGarbageMessage :: "event_message list \<Rightarrow> docker_store \<Rightarrow> docker_store" where
  "docker_InsertGarbageMessage ms d = d\<lparr>d_dropped := d_dropped d @ map (Pair WriteError) ms\<rparr>"

definition GetServiceAliasID :: "(string \<Rightarrow> string) \<Rightarrow> string \<Rightarrow> string" where
  "GetServiceAliasID sha224 ServiceID =
     (if length ServiceID > 11
      then take 16 (sha224 (go_itoa (of_char (ServiceID ! 10)) @ ServiceID @ go_itoa (of_char (ServiceID ! 3)) @
             ''log'' @ go_itoa (of_char (ServiceID ! 2) div 7)))
      else ServiceID)"

text \<open>
  How one call of \<open>SaveMessage\<close> goes: an error before the time of the last line is looked at
  (\<open>fw_early\<close>: the directory, the state of the file, the archive of another day), the time in the last
  line of the file, an error afterwards (\<open>fw_late\<close>: opening, renaming or writing), and whether the file
  had grown too large and was renamed, after which the time is not remembered.
\<close>

record file_env =
  fw_early :: bool
  fw_lastRead :: int
  fw_late :: bool
  fw_renamed :: bool

definition file_SaveMessage ::
  "(string \<Rightarrow> string) \<Rightarrow> file_env \<Rightarrow> event_message list \<Rightarrow> docker_store \<Rightarrow> bool \<times> docker_store" where
  "file_SaveMessage sha w events d =
     (if length events = 0 then (True, d)
      else if fw_early w then (False, d)
      else
        let path = GetServiceAliasID sha (em_EventID (hd events));
            newest = em_TimeUnixNano (last events);
            (lastLog, d1) = (case map_of (d_fileCache d) path of
                Some t \<Rightarrow> (t, d)
              | None \<Rightarrow> (fw_lastRead w,
                  if fw_lastRead w > 0 then d\<lparr>d_fileCache := AList.update path (fw_lastRead w) (d_fileCache d)\<rparr> else d))
        in if lastLog > 0 \<and> newest < lastLog
           then (True, d1\<lparr>d_dropped := d_dropped d1 @ map (Pair (OlderThan lastLog)) events\<rparr>)
           else if fw_late w then (False, d1)
           else if fw_renamed w then (True, d1\<lparr>d_file := d_file d1 @ events\<rparr>)
           else (True, d1\<lparr>d_file := d_file d1 @ events, d_fileCache := AList.update path newest (d_fileCache d1)\<rparr>))"

definition docker_saveBeforeGc ::
  "(string \<Rightarrow> string) \<Rightarrow> file_env \<Rightarrow> docker_barrel \<Rightarrow> docker_store \<Rightarrow> docker_store" where
  "docker_saveBeforeGc sha w v d =
     (let ms = dl_persistenceBarrel (dl_gcPersistence v)
      in if 0 < length ms
         then (let (ok, d1) = file_SaveMessage sha w ms d in if ok then d1 else docker_InsertGarbageMessage ms d1)
         else d)"

definition gc_due :: "int \<Rightarrow> docker_barrel \<Rightarrow> bool" where
  "gc_due now r \<longleftrightarrow> dl_updateTime r + 60 < now \<and> length (dl_subs r) = 0"

definition handle_barrel ::
  "(string \<Rightarrow> string) \<Rightarrow> (string \<Rightarrow> file_env) \<Rightarrow> nat \<Rightarrow> int \<Rightarrow> docker_store \<times> string list \<Rightarrow> string \<times> docker_barrel \<Rightarrow> docker_store \<times> string list" where
  "handle_barrel sha ok cap now s x =
     (let (d, gc) = s; (k, r) = x
      in if gc_due now r
         then (put_barrel k ((dl_gcPersistence r)\<lparr>dl_persistenceBarrel := []\<rparr>, d_events d)
                 (docker_saveBeforeGc sha (ok k) r d), gc @ [k])
         else if dl_persistenceTime r + 60 < now \<and> length (dl_barrel r) > 0
         then (put_barrel k (dl_persistence cap now (r, d_events d)) d, gc)
         else (d, gc))"

text \<open>The collection has two halves: saving under the read lock, removing under the write lock.\<close>

definition docker_handle ::
  "(string \<Rightarrow> string) \<Rightarrow> (string \<Rightarrow> file_env) \<Rightarrow> nat \<Rightarrow> int \<Rightarrow> docker_store \<Rightarrow> docker_store \<times> string list" where
  "docker_handle sha ok cap now d = foldl (handle_barrel sha ok cap now) (d, []) (d_barrels d)"

definition docker_gcSave ::
  "(string \<Rightarrow> string) \<Rightarrow> (string \<Rightarrow> file_env) \<Rightarrow> nat \<Rightarrow> int \<Rightarrow> docker_store \<Rightarrow> docker_store \<times> string list" where
  "docker_gcSave sha ok cap now d = docker_handle sha ok cap now (d\<lparr>d_LogSizePeerM := d_LogSize d, d_LogSize := 0\<rparr>)"

text \<open>Removing a barrel empties it, so what it holds by then is dropped.\<close>

definition barrel_lines :: "string \<Rightarrow> docker_store \<Rightarrow> event_message list" where
  "barrel_lines k d = (case map_of (d_barrels d) k of None \<Rightarrow> [] | Some r \<Rightarrow> dl_messages r)"

definition remove_barrel :: "docker_store \<Rightarrow> string \<Rightarrow> docker_store" where
  "remove_barrel d k = d\<lparr>d_barrels := AList.delete k (d_barrels d), d_barrelSize := wrap64 (d_barrelSize d - 1),
     d_dropped := d_dropped d @ map (Pair BarrelRemoved) (barrel_lines k d)\<rparr>"

definition docker_remove :: "string list \<Rightarrow> docker_store \<Rightarrow> docker_store" where
  "docker_remove gc d = foldl remove_barrel d gc"

definition docker_gcRun ::
  "(string \<Rightarrow> string) \<Rightarrow> (string \<Rightarrow> file_env) \<Rightarrow> nat \<Rightarrow> int \<Rightarrow> docker_store \<Rightarrow> docker_store" where
  "docker_gcRun sha ok cap now d =
     (let (d1, gc) = docker_gcSave sha ok cap now d
      in if length gc > 0 then docker_remove gc d1 else d1)"

definition docker_persistence :: "(string \<Rightarrow> string) \<Rightarrow> file_env \<Rightarrow> command \<Rightarrow> docker_store \<Rightarrow> docker_store" where
  "docker_persistence sha w event d =
     (if length event = 2 then
        (case map_of (d_barrels d) (event ! 1) of
           None \<Rightarrow> d
         | Some ba \<Rightarrow>
             (if dl_needPersistence ba
              then (let (ok, d0) = file_SaveMessage sha w (dl_persistenceBarrel ba) d;
                        d1 = (if ok then d0 else docker_InsertGarbageMessage (dl_persistenceBarrel ba) d0)
                    in d1\<lparr>d_barrels := AList.update (event ! 1)
                            (ba\<lparr>dl_persistenceBarrel := [], dl_needPersistence := False\<rparr>) (d_barrels d1)\<rparr>)
              else d))
      else d)"

definition docker_handleBarrelEvent :: "(string \<Rightarrow> string) \<Rightarrow> file_env \<Rightarrow> docker_store \<Rightarrow> docker_store option" where
  "docker_handleBarrelEvent sha w d = (case d_events d of
       [] \<Rightarrow> None
     | event # rest \<Rightarrow>
         (let d1 = d\<lparr>d_events := rest\<rparr>
          in Some (if event \<noteq> [] \<and> hd event = ''persistence'' then docker_persistence sha w event d1 else d1)))"

text \<open>The log of a component: what the barrel has, after what the file has.\<close>

definition strip_v2 :: "string \<Rightarrow> string" where
  "strip_v2 c = (if take 3 c = ''v2:'' \<and> length c > 23 then drop 23 c else c)"

definition history_lines :: "docker_barrel \<Rightarrow> string list" where
  "history_lines ba = concat (map (\<lambda>m. case em_Content m of
       None \<Rightarrow> []
     | Some c \<Rightarrow> (if length c > 0 then [strip_v2 c] else [])) (dl_barrel ba))"

definition docker_GetHistoryMessage ::
  "(string \<Rightarrow> int \<Rightarrow> string list option) \<Rightarrow> string \<Rightarrow> int \<Rightarrow> docker_store \<Rightarrow> string list" where
  "docker_GetHistoryMessage messages eventID len d =
     (let re = (case map_of (d_barrels d) eventID of Some ba \<Rightarrow> history_lines ba | None \<Rightarrow> [])
      in if int (length re) \<ge> len \<and> len > 0 then take (nat (len - 1)) re
         else let filelength = (if len - int (length re) > 0 then len - int (length re) else 0)
              in (case messages eventID filelength of None \<Rightarrow> re | Some result \<Rightarrow> result @ re))"

section \<open>The parser\<close>

text \<open>
  \<open>append_at\<close>: a buffer of length \<open>n\<close> over the array writes bytes behind its end, in place, because the
  capacity of the slice reaches to the end of the array.
\<close>

definition append_at :: "nat \<Rightarrow> string \<Rightarrow> string \<Rightarrow> string" where
  "append_at n bytes a = take n a @ bytes @ drop (n + length bytes) a"

definition docker_message :: "string \<Rightarrow> string \<Rightarrow> int \<Rightarrow> event_message" where
  "docker_message content serviceID nano = \<lparr>em_EventID = serviceID, em_Step = [], em_Status = [],
     em_Message = content, em_Level = [], em_Time = [], em_Content = Some content, em_TimeUnixNano = nano\<rparr>"

definition handleDockerLog :: "(string \<Rightarrow> int) \<Rightarrow> string \<Rightarrow> event_message option" where
  "handleDockerLog parse_int m =
     (if take 3 m = ''v2:'' then
        (if length m < 70 then None
         else let logTime = take 19 (drop 3 m); containerID = take 12 (drop 23 m);
                  serviceID = take 32 (drop 36 m); log = drop 68 m
              in Some (docker_message (''v2:'' @ logTime @ '' '' @ containerID @ '':'' @ log) serviceID (parse_int logTime)))
      else
        (if length m < 47 then None
         else let m1 = append_at 12 '':'' m;
                  log = drop 45 m1;
                  m2 = append_at 13 log m1;
                  content = take (13 + length log) m2;
                  serviceID = take 32 (drop 13 m2)
              in Some (docker_message content serviceID 0)))"

section \<open>Every log line is accounted for\<close>

definition d_held :: "docker_store \<Rightarrow> event_message multiset" where
  "d_held d = mset (concat (map (dl_messages \<circ> snd) (d_barrels d)))"

definition d_kept :: "docker_store \<Rightarrow> event_message multiset" where
  "d_kept d = d_held d + mset (d_file d)"

definition d_total :: "docker_store \<Rightarrow> event_message multiset" where
  "d_total d = d_held d + mset (d_file d) + mset (map snd (d_dropped d))"

abbreviation d_wf :: "docker_store \<Rightarrow> bool" where
  "d_wf d \<equiv> gm_wf (d_barrels d)"

lemma dl_persistence_messages: "dl_messages (fst (dl_persistence cap now (r, ch))) = dl_messages r"
  by (simp add: dl_persistence_def dl_messages_def Let_def)

lemma dl_insertMessage_messages: "dl_messages (fst (dl_insertMessage cap now m (r, ch))) = dl_messages r @ [m]"
  by (simp add: dl_insertMessage_def Let_def dl_persistence_messages) (simp add: dl_messages_def)

text \<open>Putting a barrel back exchanges its messages.\<close>

lemma put_barrel_total:
  assumes "d_wf d"
  shows "d_total (put_barrel k s d) + mset (case map_of (d_barrels d) k of None \<Rightarrow> [] | Some r \<Rightarrow> dl_messages r)
      = d_total d + mset (dl_messages (fst s))" "d_wf (put_barrel k s d)"
  using mset_update [OF assms, of dl_messages k "fst s"] assms
  by (simp_all add: put_barrel_def d_total_def d_held_def ac_simps)

lemma docker_InsertMessage_total:
  assumes "d_wf d" "dl_messages fresh = []"
  shows "d_total (docker_InsertMessage cap now fresh (Some m) d) = d_total d + (if em_EventID m = [] then {#} else {#m#})"
    and "d_wf (docker_InsertMessage cap now fresh (Some m) d)"
proof -
  let ?d = "d\<lparr>d_LogSize := wrap64 (d_LogSize d + 1)\<rparr>" and ?k = "em_EventID m"
  have d: "d_wf ?d" "d_total ?d = d_total d"
    using assms(1) by (simp_all add: d_total_def d_held_def)
  have fr: "dl_messages (fresh\<lparr>dl_name := ?k, dl_persistenceTime := now\<rparr>) = []"
    using assms(2) by (simp add: dl_messages_def)
  show "d_total (docker_InsertMessage cap now fresh (Some m) d) = d_total d + (if ?k = [] then {#} else {#m#})"
  proof (cases "map_of (d_barrels d) ?k")
    case None
    then show ?thesis
      using put_barrel_total(1) [OF d(1), of ?k] fr d(2)
      by (simp add: docker_InsertMessage_def Let_def dl_insertMessage_messages d_total_def d_held_def)
  next
    case (Some ba)
    have "d_total (put_barrel ?k (dl_insertMessage cap now m (ba, d_events d)) ?d) + mset (dl_messages ba)
        = (d_total d + {#m#}) + mset (dl_messages ba)"
      using put_barrel_total(1) [OF d(1), of ?k "dl_insertMessage cap now m (ba, d_events d)"] Some d(2)
      by (simp add: dl_insertMessage_messages ac_simps)
    then show ?thesis
      using Some by (simp add: docker_InsertMessage_def Let_def)
  qed
  show "d_wf (docker_InsertMessage cap now fresh (Some m) d)"
    using d(1) put_barrel_total(2) [OF d(1)]
    by (auto simp: docker_InsertMessage_def Let_def split: option.splits)
qed

text \<open>A change of the barrel of a name that keeps its messages keeps the total.\<close>

lemma update_barrel_total:
  assumes "d_wf d" "map_of (d_barrels d) k = Some r" "dl_messages r' = dl_messages r"
  shows "d_total (d\<lparr>d_barrels := AList.update k r' (d_barrels d)\<rparr>) = d_total d"
  using mset_update [OF assms(1), of dl_messages k r'] assms(2,3) by (simp add: d_total_def d_held_def)

lemma docker_SubChan_total:
  assumes "d_wf d" "dl_messages fresh = []"
  shows "d_total (docker_SubChan now fresh k d) = d_total d" "d_wf (docker_SubChan now fresh k d)"
  using assms mset_update [OF assms(1), of dl_messages k "fresh\<lparr>dl_updateTime := now, dl_name := k\<rparr>"]
  by (auto simp: docker_SubChan_def d_total_def d_held_def dl_messages_def split: option.splits)

lemma docker_subscribed_total:
  assumes "d_wf d"
  shows "d_total (docker_subscribed k i d) = d_total d" "d_wf (docker_subscribed k i d)"
  using assms update_barrel_total [OF assms]
  by (auto simp: docker_subscribed_def dl_pushCashMessage_def dl_messages_def split: option.splits)

lemma docker_ReleaseSubChan_total:
  assumes "d_wf d"
  shows "d_total (docker_ReleaseSubChan k i d) = d_total d" "d_wf (docker_ReleaseSubChan k i d)"
  using assms update_barrel_total [OF assms]
  by (auto simp: docker_ReleaseSubChan_def dl_delSubChan_def dl_messages_def split: option.splits)

text \<open>
  A line is dropped for a reason: a write that failed, a file whose last line is newer than the last
  line of the batch, or a barrel that was removed.
\<close>

definition reason_ok :: "bool \<Rightarrow> bool \<Rightarrow> (drop_reason \<times> event_message) list \<Rightarrow> drop_reason \<Rightarrow> bool" where
  "reason_ok failed removed ds why \<longleftrightarrow> (case why of
       WriteError \<Rightarrow> failed
     | OlderThan t \<Rightarrow> 0 < t \<and> (\<exists>m. (OlderThan t, m) \<in> set ds \<and> em_TimeUnixNano m < t)
     | BarrelRemoved \<Rightarrow> removed)"

definition drops_ok :: "bool \<Rightarrow> bool \<Rightarrow> (drop_reason \<times> event_message) list \<Rightarrow> bool" where
  "drops_ok failed removed ds \<longleftrightarrow> (\<forall>(why, m) \<in> set ds. reason_ok failed removed ds why)"

lemma drops_ok_extend:
  assumes "drops_ok F R ds"
    and "ms \<noteq> [] \<Longrightarrow> (case why of WriteError \<Rightarrow> F | OlderThan t \<Rightarrow> 0 < t \<and> em_TimeUnixNano (last ms) < t | BarrelRemoved \<Rightarrow> R)"
  shows "drops_ok F R (ds @ map (Pair why) ms)"
proof -
  have old: "reason_ok F R (ds @ es) w" if "reason_ok F R ds w" for w es
    using that by (cases w) (auto simp: reason_ok_def)
  have new: "reason_ok F R (ds @ map (Pair why) ms) why" if "ms \<noteq> []"
    using assms(2) that last_in_set [OF that] by (cases why) (auto simp: reason_ok_def image_iff intro!: exI [of _ "last ms"])
  show ?thesis
    using assms(1) old new unfolding drops_ok_def by (cases "ms = []") auto
qed

definition fails :: "file_env \<Rightarrow> bool" where
  "fails w \<longleftrightarrow> fw_early w \<or> fw_late w"

text \<open>Saving a batch writes it or drops it.\<close>

definition save_or_drop ::
  "(string \<Rightarrow> string) \<Rightarrow> file_env \<Rightarrow> event_message list \<Rightarrow> docker_store \<Rightarrow> docker_store" where
  "save_or_drop sha w ms d =
     (let (ok, d1) = file_SaveMessage sha w ms d in if ok then d1 else docker_InsertGarbageMessage ms d1)"

lemma save_or_drop_cases:
  obtains (written) "d_file (save_or_drop sha w ms d) = d_file d @ ms" "d_dropped (save_or_drop sha w ms d) = d_dropped d"
  | (dropped) why where "d_file (save_or_drop sha w ms d) = d_file d"
      "d_dropped (save_or_drop sha w ms d) = d_dropped d @ map (Pair why) ms"
      "case why of WriteError \<Rightarrow> fails w | OlderThan t \<Rightarrow> 0 < t \<and> em_TimeUnixNano (last ms) < t | BarrelRemoved \<Rightarrow> False"
proof (cases "ms = []")
  case True
  then show ?thesis
    by (intro written) (simp_all add: save_or_drop_def file_SaveMessage_def)
next
  case False
  let ?path = "GetServiceAliasID sha (em_EventID (hd ms))"
  define t where "t = (case map_of (d_fileCache d) ?path of Some t \<Rightarrow> t | None \<Rightarrow> fw_lastRead w)"
  consider (fail) "fw_early w" | (old) "\<not> fw_early w" "0 < t" "em_TimeUnixNano (last ms) < t"
    | (late) "\<not> fw_early w" "\<not> (0 < t \<and> em_TimeUnixNano (last ms) < t)" "fw_late w"
    | (ok) "\<not> fw_early w" "\<not> (0 < t \<and> em_TimeUnixNano (last ms) < t)" "\<not> fw_late w"
    by blast
  then show ?thesis
  proof cases
    case fail
    then show ?thesis
      using False by (intro dropped [of WriteError]) (simp_all add: save_or_drop_def file_SaveMessage_def
          docker_InsertGarbageMessage_def fails_def)
  next
    case old
    then show ?thesis
      using False by (intro dropped [of "OlderThan t"])
        (auto simp: save_or_drop_def file_SaveMessage_def t_def Let_def split: option.splits)
  next
    case late
    then show ?thesis
      using False by (intro dropped [of WriteError])
        (auto simp: save_or_drop_def file_SaveMessage_def t_def Let_def docker_InsertGarbageMessage_def fails_def
          split: option.splits)
  next
    case ok
    then show ?thesis
      using False by (intro written)
        (auto simp: save_or_drop_def file_SaveMessage_def t_def Let_def split: option.splits)
  qed
qed

lemma save_or_drop_barrels [simp]:
  "d_barrels (save_or_drop sha w ms d) = d_barrels d" "d_events (save_or_drop sha w ms d) = d_events d"
  by (auto simp: save_or_drop_def file_SaveMessage_def docker_InsertGarbageMessage_def Let_def
      split: option.split)

lemma save_or_drop_total:
  "d_total (save_or_drop sha w ms d) = d_total d + mset ms"
  "drops_ok F R (d_dropped d) \<Longrightarrow> (fails w \<Longrightarrow> F) \<Longrightarrow> drops_ok F R (d_dropped (save_or_drop sha w ms d))"
proof -
  show "d_total (save_or_drop sha w ms d) = d_total d + mset ms"
  proof (cases rule: save_or_drop_cases [of sha w ms d])
    case (dropped why)
    have "map snd (map (Pair why) ms) = ms"
      by (simp add: comp_def)
    then show ?thesis
      using dropped by (simp add: d_total_def d_held_def)
  qed (simp add: d_total_def d_held_def)
  show "drops_ok F R (d_dropped (save_or_drop sha w ms d))" if ok: "drops_ok F R (d_dropped d)" and f: "fails w \<Longrightarrow> F"
  proof (cases rule: save_or_drop_cases [of sha w ms d])
    case written
    then show ?thesis
      using ok by simp
  next
    case (dropped why)
    then show ?thesis
      using f unfolding dropped(2) by (intro drops_ok_extend [OF ok]) (auto split: drop_reason.splits)
  qed
qed

lemma docker_saveBeforeGc_save: "docker_saveBeforeGc sha w v d = save_or_drop sha w (dl_messages v) d"
proof -
  have "dl_persistenceBarrel (dl_gcPersistence v) = dl_messages v"
    by (simp add: dl_gcPersistence_def dl_messages_def)
  then show ?thesis
    by (simp only: docker_saveBeforeGc_def save_or_drop_def Let_def) (simp add: file_SaveMessage_def)
qed

text \<open>What the worker and the two halves of a collection keep.\<close>

definition emptied :: "docker_store \<Rightarrow> string list \<Rightarrow> bool" where
  "emptied d gc \<longleftrightarrow> (\<forall>k \<in> set gc. \<forall>r. map_of (d_barrels d) k = Some r \<longrightarrow> dl_messages r = [])"

lemma docker_persistence_total:
  assumes "d_wf d"
  shows "d_wf (docker_persistence sha w ev d)" "d_total (docker_persistence sha w ev d) = d_total d"
    and "drops_ok F R (d_dropped d) \<Longrightarrow> (fails w \<Longrightarrow> F) \<Longrightarrow> drops_ok F R (d_dropped (docker_persistence sha w ev d))"
    and "emptied d gc \<Longrightarrow> emptied (docker_persistence sha w ev d) gc"
proof -
  have eq: "docker_persistence sha w ev d = (if length ev = 2 \<and> dl_needPersistence ba
      then (save_or_drop sha w (dl_persistenceBarrel ba) d)\<lparr>d_barrels :=
        AList.update (ev ! 1) (ba\<lparr>dl_persistenceBarrel := [], dl_needPersistence := False\<rparr>) (d_barrels d)\<rparr>
      else d)" if "map_of (d_barrels d) (ev ! 1) = Some ba" for ba
    using that save_or_drop_barrels(1) [of sha w "dl_persistenceBarrel ba" d]
    by (auto simp: docker_persistence_def save_or_drop_def Let_def split: prod.splits)
  have none: "docker_persistence sha w ev d = d" if "map_of (d_barrels d) (ev ! 1) = None"
    using that by (simp add: docker_persistence_def)
  show "d_wf (docker_persistence sha w ev d)"
    using assms eq none by (cases "map_of (d_barrels d) (ev ! 1)") auto
  show "d_total (docker_persistence sha w ev d) = d_total d"
  proof (cases "map_of (d_barrels d) (ev ! 1)")
    case (Some ba)
    let ?ba = "ba\<lparr>dl_persistenceBarrel := [], dl_needPersistence := False\<rparr>"
    let ?b = "AList.update (ev ! 1) ?ba (d_barrels d)" and ?d = "save_or_drop sha w (dl_persistenceBarrel ba) d"
    have upd: "mset (concat (map (dl_messages \<circ> snd) ?b)) + mset (dl_persistenceBarrel ba) = d_held d"
      using mset_update [OF assms, of dl_messages "ev ! 1" ?ba] Some by (simp add: dl_messages_def d_held_def)
    have "d_total (?d\<lparr>d_barrels := ?b\<rparr>) + d_held d = d_total ?d + mset (concat (map (dl_messages \<circ> snd) ?b))"
      by (simp add: d_total_def d_held_def ac_simps)
    also have "\<dots> = d_total d + d_held d"
      by (simp add: save_or_drop_total(1) upd [symmetric] ac_simps)
    finally show ?thesis
      by (simp add: eq [OF Some])
  qed (simp add: none)
  show "drops_ok F R (d_dropped (docker_persistence sha w ev d))" if "drops_ok F R (d_dropped d)" "fails w \<Longrightarrow> F"
  proof (cases "map_of (d_barrels d) (ev ! 1)")
    case (Some ba)
    have "drops_ok F R (d_dropped (save_or_drop sha w (dl_persistenceBarrel ba) d))"
      using save_or_drop_total(2) that by blast
    then show ?thesis
      using that by (simp add: eq [OF Some])
  qed (simp add: none that)
  show "emptied (docker_persistence sha w ev d) gc" if "emptied d gc"
  proof (cases "map_of (d_barrels d) (ev ! 1)")
    case (Some ba)
    then show ?thesis
      using that by (auto simp: eq [OF Some] emptied_def update_conv' dl_messages_def)
  qed (simp add: none that)
qed

lemma docker_handleBarrelEvent_total:
  assumes "d_wf d" "docker_handleBarrelEvent sha w d = Some d'"
  shows "d_wf d'" "d_total d' = d_total d" "drops_ok F R (d_dropped d) \<Longrightarrow> (fails w \<Longrightarrow> F) \<Longrightarrow> drops_ok F R (d_dropped d')"
    and "emptied d gc \<Longrightarrow> emptied d' gc"
proof -
  obtain event rest where ev: "d_events d = event # rest"
    using assms(2) by (cases "d_events d") (simp_all add: docker_handleBarrelEvent_def)
  let ?d = "d\<lparr>d_events := rest\<rparr>"
  have same: "d_wf ?d" "d_total ?d = d_total d" "drops_ok F R (d_dropped ?d) = drops_ok F R (d_dropped d)" "emptied ?d gc = emptied d gc"
    using assms(1) by (simp_all add: d_total_def d_held_def emptied_def)
  have d': "d' = (if event \<noteq> [] \<and> hd event = ''persistence'' then docker_persistence sha w event ?d else ?d)"
    using assms(2) by (simp add: docker_handleBarrelEvent_def ev Let_def)
  show "d_wf d'" "d_total d' = d_total d" "drops_ok F R (d_dropped d) \<Longrightarrow> (fails w \<Longrightarrow> F) \<Longrightarrow> drops_ok F R (d_dropped d')"
    and "emptied d gc \<Longrightarrow> emptied d' gc"
    using docker_persistence_total [OF same(1)] same by (auto simp: d')
qed

lemma handle_barrel_step:
  assumes "d_wf d" "map_of (d_barrels d) k = Some r" "emptied d gc" "k \<notin> set gc"
    and step: "handle_barrel sha ok cap now (d, gc) (k, r) = (d', gc')"
  shows "d_wf d'" "d_total d' = d_total d" "emptied d' gc'" "set gc' \<subseteq> insert k (set gc)"
    and "\<And>j. j \<noteq> k \<Longrightarrow> map_of (d_barrels d') j = map_of (d_barrels d) j"
    and "drops_ok F R (d_dropped d) \<Longrightarrow> (\<And>k. fails (ok k) \<Longrightarrow> F) \<Longrightarrow> drops_ok F R (d_dropped d')"
proof -
  let ?s = "save_or_drop sha (ok k) (dl_messages r) d"
  consider (gc) "d' = put_barrel k ((dl_gcPersistence r)\<lparr>dl_persistenceBarrel := []\<rparr>, d_events d) ?s" "gc' = gc @ [k]"
    | (pers) "d' = put_barrel k (dl_persistence cap now (r, d_events d)) d" "gc' = gc"
    | (keep) "d' = d" "gc' = gc"
    using step by (auto simp: handle_barrel_def docker_saveBeforeGc_save Let_def split: if_splits)
  then have "d_wf d' \<and> d_total d' = d_total d \<and> emptied d' gc' \<and> set gc' \<subseteq> insert k (set gc) \<and>
      (\<forall>j. j \<noteq> k \<longrightarrow> map_of (d_barrels d') j = map_of (d_barrels d) j) \<and> d_dropped d' \<in> {d_dropped d, d_dropped ?s}"
  proof cases
    case gc
    let ?e = "(dl_gcPersistence r)\<lparr>dl_persistenceBarrel := []\<rparr>"
    have e: "dl_messages ?e = []"
      by (simp add: dl_gcPersistence_def dl_messages_def)
    have wf: "d_wf ?s"
      using assms(1) by simp
    have "d_total d' = d_total d"
      using put_barrel_total(1) [OF wf, of k "(?e, d_events d)"] assms(2) e
      by (simp add: gc save_or_drop_total(1))
    moreover have "emptied d' gc'"
      using assms(3,4) e unfolding emptied_def gc by (auto simp: put_barrel_def update_conv')
    ultimately show ?thesis
      using put_barrel_total(2) [OF wf] by (auto simp: gc put_barrel_def update_conv')
  next
    case pers
    have "d_total d' = d_total d"
      using put_barrel_total(1) [OF assms(1), of k "dl_persistence cap now (r, d_events d)"] assms(2)
      by (simp add: pers dl_persistence_messages)
    moreover have "emptied d' gc'"
      using assms(3,4) unfolding emptied_def pers by (auto simp: put_barrel_def update_conv')
    ultimately show ?thesis
      using put_barrel_total(2) [OF assms(1)] by (auto simp: pers put_barrel_def update_conv')
  qed (use assms in auto)
  then show "d_wf d'" "d_total d' = d_total d" "emptied d' gc'" "set gc' \<subseteq> insert k (set gc)"
      "\<And>j. j \<noteq> k \<Longrightarrow> map_of (d_barrels d') j = map_of (d_barrels d) j"
      "drops_ok F R (d_dropped d) \<Longrightarrow> (\<And>k. fails (ok k) \<Longrightarrow> F) \<Longrightarrow> drops_ok F R (d_dropped d')"
    using save_or_drop_total(2) [of F R d "ok k" sha "dl_messages r"] by auto
qed

lemma handle_loop:
  assumes "d_wf d" "distinct (map fst xs)" "\<forall>(k, r) \<in> set xs. map_of (d_barrels d) k = Some r" "emptied d gc"
    and "set gc \<inter> fst ` set xs = {}" "foldl (handle_barrel sha ok cap now) (d, gc) xs = (d', gc')"
  shows "d_wf d' \<and> d_total d' = d_total d \<and> emptied d' gc' \<and>
    (drops_ok F R (d_dropped d) \<longrightarrow> (\<forall>k. fails (ok k) \<longrightarrow> F) \<longrightarrow> drops_ok F R (d_dropped d'))"
  using assms
proof (induction xs arbitrary: d gc)
  case (Cons x xs)
  obtain k r where x: "x = (k, r)"
    by (cases x)
  obtain d1 gc1 where s: "handle_barrel sha ok cap now (d, gc) (k, r) = (d1, gc1)"
    by (cases "handle_barrel sha ok cap now (d, gc) (k, r)")
  have "map_of (d_barrels d) k = Some r" "k \<notin> set gc"
    using Cons.prems(3,5) x by auto
  note step = handle_barrel_step [OF Cons.prems(1) this(1) Cons.prems(4) this(2) s]
  have "d_wf d' \<and> d_total d' = d_total d1 \<and> emptied d' gc' \<and>
      (drops_ok F R (d_dropped d1) \<longrightarrow> (\<forall>k. fails (ok k) \<longrightarrow> F) \<longrightarrow> drops_ok F R (d_dropped d'))"
  proof (rule Cons.IH [OF step(1) _ _ step(3)])
    show "distinct (map fst xs)" "foldl (handle_barrel sha ok cap now) (d1, gc1) xs = (d', gc')"
      using Cons.prems(2,6) x s by simp_all
    show "\<forall>(j, r) \<in> set xs. map_of (d_barrels d1) j = Some r"
    proof (clarify)
      fix j q
      assume j: "(j, q) \<in> set xs"
      then have "j \<noteq> k"
        using Cons.prems(2) x by force
      then show "map_of (d_barrels d1) j = Some q"
        using step(5) [of j] Cons.prems(3) j x by auto
    qed
    show "set gc1 \<inter> fst ` set xs = {}"
      using step(4) Cons.prems(2,5) x by auto
  qed
  moreover have "drops_ok F R (d_dropped d1)" if "drops_ok F R (d_dropped d)" "\<forall>k. fails (ok k) \<longrightarrow> F"
    using step(6) that by blast
  ultimately show ?case
    using step(2) by simp
qed simp

lemma docker_gcSave_total:
  assumes "d_wf d" "docker_gcSave sha ok cap now d = (d1, gc)"
  shows "d_wf d1" "d_total d1 = d_total d" "emptied d1 gc"
    and "drops_ok F R (d_dropped d) \<Longrightarrow> (\<And>k. fails (ok k) \<Longrightarrow> F) \<Longrightarrow> drops_ok F R (d_dropped d1)"
proof -
  let ?d = "d\<lparr>d_LogSizePeerM := d_LogSize d, d_LogSize := 0\<rparr>"
  have same: "d_total ?d = d_total d" "drops_ok F R (d_dropped ?d) = drops_ok F R (d_dropped d)"
    by (simp_all add: d_total_def d_held_def)
  have "d_wf d1 \<and> d_total d1 = d_total ?d \<and> emptied d1 gc \<and>
      (drops_ok F R (d_dropped ?d) \<longrightarrow> (\<forall>k. fails (ok k) \<longrightarrow> F) \<longrightarrow> drops_ok F R (d_dropped d1))"
  proof (rule handle_loop)
    show "foldl (handle_barrel sha ok cap now) (?d, []) (d_barrels d) = (d1, gc)"
      using assms(2) by (simp add: docker_gcSave_def docker_handle_def)
    show "\<forall>(k, r) \<in> set (d_barrels d). map_of (d_barrels ?d) k = Some r"
      using assms(1) by auto
  qed (use assms in \<open>simp_all add: emptied_def\<close>)
  then show "d_wf d1" "d_total d1 = d_total d" "emptied d1 gc"
      "drops_ok F R (d_dropped d) \<Longrightarrow> (\<And>k. fails (ok k) \<Longrightarrow> F) \<Longrightarrow> drops_ok F R (d_dropped d1)"
    using same by auto
qed

lemma mset_delete:
  "gm_wf m \<Longrightarrow> map_of m k = Some d \<Longrightarrow>
     mset (concat (map (f \<circ> snd) (AList.delete k m))) + mset (f d) = mset (concat (map (f \<circ> snd) m))"
proof (induction m)
  case (Cons x m)
  obtain k' d' where x: "x = (k', d')"
    by (cases x)
  show ?case
  proof (cases "k' = k")
    case True
    then have "AList.delete k m = m"
      using Cons.prems x by (simp add: delete_id)
    then show ?thesis
      using True Cons.prems x by simp
  next
    case False
    then show ?thesis
      using Cons x by (simp add: union_assoc)
  qed
qed simp

lemma remove_barrel_total:
  assumes "d_wf d"
  shows "d_wf (remove_barrel d k)" "d_total (remove_barrel d k) = d_total d"
    and "drops_ok F R (d_dropped d) \<Longrightarrow> (barrel_lines k d \<noteq> [] \<Longrightarrow> R) \<Longrightarrow> drops_ok F R (d_dropped (remove_barrel d k))"
    and "emptied d gc \<Longrightarrow> emptied (remove_barrel d k) gc"
proof -
  show "d_wf (remove_barrel d k)"
    using assms by (simp add: remove_barrel_def distinct_delete)
  have snds: "map snd (map (Pair BarrelRemoved) ms) = (ms :: event_message list)" for ms
    by (simp add: comp_def)
  have "mset (concat (map (dl_messages \<circ> snd) (AList.delete k (d_barrels d)))) + mset (barrel_lines k d) = d_held d"
  proof (cases "map_of (d_barrels d) k")
    case None
    then have "AList.delete k (d_barrels d) = d_barrels d"
      by (simp add: delete_id map_of_eq_None_iff)
    then show ?thesis
      using None by (simp add: barrel_lines_def d_held_def)
  next
    case (Some r)
    then show ?thesis
      using mset_delete [OF assms Some, of dl_messages] by (simp add: barrel_lines_def d_held_def)
  qed
  then show "d_total (remove_barrel d k) = d_total d"
    unfolding d_total_def by (simp add: remove_barrel_def d_held_def snds del: map_map)
  show "drops_ok F R (d_dropped (remove_barrel d k))" if "drops_ok F R (d_dropped d)" "barrel_lines k d \<noteq> [] \<Longrightarrow> R"
    using drops_ok_extend [OF that(1), of "barrel_lines k d" BarrelRemoved] that(2) by (simp add: remove_barrel_def)
  show "emptied (remove_barrel d k) gc" if "emptied d gc"
    using that by (auto simp: emptied_def remove_barrel_def delete_conv' split: if_splits)
qed

lemma docker_remove_total:
  assumes "d_wf d"
  shows "d_wf (docker_remove gc d) \<and> d_total (docker_remove gc d) = d_total d \<and>
    (drops_ok F R (d_dropped d) \<longrightarrow> R \<or> emptied d gc \<longrightarrow> drops_ok F R (d_dropped (docker_remove gc d)))"
  using assms
proof (induction gc arbitrary: d)
  case (Cons k gc)
  note rem = remove_barrel_total [OF Cons.prems, where k = k]
  have "barrel_lines k d = []" if "emptied d (k # gc)"
    using that by (auto simp: emptied_def barrel_lines_def split: option.split)
  moreover have "emptied (remove_barrel d k) gc" if "emptied d (k # gc)"
    using that rem(4) [of gc] by (simp add: emptied_def)
  ultimately show ?case
    using Cons.IH [OF rem(1)] rem by (auto simp: docker_remove_def)
qed (simp add: docker_remove_def)

text \<open>
  What happens to the store: insertions and subscriptions, rounds of the worker, and the two halves of
  a collection. There is one collector, so it starts again only when it has removed what it saved. A
  barrel out of the pool is a new one or was emptied.
\<close>

datatype docker_event =
    DInsert int docker_barrel event_message
  | DSubscribe int docker_barrel string
  | DSubscribed string string
  | DRelease string string
  | DSave int "string \<Rightarrow> file_env"
  | DRemove
  | DWork file_env

fun docker_step ::
  "(string \<Rightarrow> string) \<Rightarrow> nat \<Rightarrow> docker_event \<Rightarrow> docker_store \<times> string list \<Rightarrow> docker_store \<times> string list" where
  "docker_step sha cap (DInsert now b m) (d, gc) = (docker_InsertMessage cap now (dl_empty b) (Some m) d, gc)"
| "docker_step sha cap (DSubscribe now b k) (d, gc) = (docker_SubChan now (dl_empty b) k d, gc)"
| "docker_step sha cap (DSubscribed k i) (d, gc) = (docker_subscribed k i d, gc)"
| "docker_step sha cap (DRelease k i) (d, gc) = (docker_ReleaseSubChan k i d, gc)"
| "docker_step sha cap (DSave now ok) (d, gc) = (if gc = [] then docker_gcSave sha ok cap now d else (d, gc))"
| "docker_step sha cap DRemove (d, gc) = (docker_remove gc d, [])"
| "docker_step sha cap (DWork w) (d, gc) = (case docker_handleBarrelEvent sha w d of None \<Rightarrow> (d, gc) | Some d' \<Rightarrow> (d', gc))"

definition docker_run :: "(string \<Rightarrow> string) \<Rightarrow> nat \<Rightarrow> docker_event list \<Rightarrow> docker_store" where
  "docker_run sha cap es = fst (fold (docker_step sha cap) es (new_docker_store, []))"

fun inserted :: "docker_event \<Rightarrow> event_message list" where
  "inserted (DInsert now b m) = (if em_EventID m = [] then [] else [m])"
| "inserted _ = []"

fun event_fails :: "docker_event \<Rightarrow> bool" where
  "event_fails (DSave now ok) \<longleftrightarrow> (\<exists>k. fails (ok k))"
| "event_fails (DWork w) \<longleftrightarrow> fails w"
| "event_fails _ \<longleftrightarrow> False"

text \<open>Whether no line arrives between the two halves of a collection.\<close>

fun undisturbed :: "bool \<Rightarrow> docker_event list \<Rightarrow> bool" where
  "undisturbed saved [] = True"
| "undisturbed saved (DInsert now b m # es) = (\<not> saved \<and> undisturbed saved es)"
| "undisturbed saved (DSave now ok # es) = undisturbed True es"
| "undisturbed saved (DRemove # es) = undisturbed False es"
| "undisturbed saved (e # es) = undisturbed saved es"

definition run_inv :: "bool \<Rightarrow> bool \<Rightarrow> docker_store \<times> string list \<Rightarrow> bool" where
  "run_inv F R s \<longleftrightarrow> d_wf (fst s) \<and> drops_ok F R (d_dropped (fst s)) \<and> (R \<or> emptied (fst s) (snd s))"

lemma kept_emptied:
  "emptied d gc \<Longrightarrow> emptied (docker_SubChan now (dl_empty b) k d) gc"
  "emptied d gc \<Longrightarrow> emptied (docker_subscribed k i d) gc"
  "emptied d gc \<Longrightarrow> emptied (docker_ReleaseSubChan k i d) gc"
  by (auto simp: emptied_def docker_SubChan_def docker_subscribed_def docker_ReleaseSubChan_def update_conv'
      dl_pushCashMessage_def dl_delSubChan_def dl_messages_def dl_empty_def split: option.splits if_splits)

lemma kept_dropped:
  "d_dropped (docker_InsertMessage cap now fresh msg d) = d_dropped d"
  "d_dropped (docker_SubChan now fresh k d) = d_dropped d"
  "d_dropped (docker_subscribed k i d) = d_dropped d" "d_dropped (docker_ReleaseSubChan k i d) = d_dropped d"
  by (auto simp: docker_InsertMessage_def put_barrel_def docker_SubChan_def docker_subscribed_def
      docker_ReleaseSubChan_def Let_def split: option.split)

lemma docker_step_total:
  assumes "run_inv F R s" "event_fails e \<Longrightarrow> F" "R \<or> undisturbed (snd s \<noteq> []) [e]"
  shows "d_total (fst (docker_step sha cap e s)) = d_total (fst s) + mset (inserted e) \<and>
    run_inv F R (docker_step sha cap e s)"
proof -
  obtain d gc where s: "s = (d, gc)"
    by (cases s)
  have wf: "d_wf d" and ok: "drops_ok F R (d_dropped d)" and em: "R \<or> emptied d gc"
    using assms(1) by (simp_all add: run_inv_def s)
  have new: "dl_messages (dl_empty b) = []" for b
    by (simp add: dl_messages_def dl_empty_def)
  note keep = kept_dropped
  show ?thesis
  proof (cases e)
    case (DInsert now b m)
    then have "R \<or> gc = []"
      using assms(3) by (simp add: s)
    then show ?thesis
      using docker_InsertMessage_total [OF wf new] ok
      by (auto simp: DInsert s run_inv_def keep emptied_def)
  next
    case (DSave now ok')
    obtain d1 gc1 where h: "docker_gcSave sha ok' cap now d = (d1, gc1)"
      by (cases "docker_gcSave sha ok' cap now d")
    have "\<And>k. fails (ok' k) \<Longrightarrow> F"
      using assms(2) by (auto simp: DSave)
    then show ?thesis
      using docker_gcSave_total [OF wf h] wf ok em by (auto simp: DSave s h run_inv_def)
  next
    case DRemove
    then show ?thesis
      using docker_remove_total [OF wf, of gc F R] ok em by (auto simp: s run_inv_def emptied_def)
  next
    case (DWork w)
    show ?thesis
    proof (cases "docker_handleBarrelEvent sha w d")
      case (Some d')
      then show ?thesis
        using docker_handleBarrelEvent_total [OF wf Some] ok em assms(2) by (auto simp: DWork s run_inv_def)
    qed (use wf ok em in \<open>simp add: DWork s run_inv_def\<close>)
  qed (use wf ok em in \<open>auto simp: s run_inv_def keep new docker_SubChan_total docker_subscribed_total
        docker_ReleaseSubChan_total kept_emptied\<close>)
qed

lemma undisturbed_step:
  "undisturbed saved (e # es) \<Longrightarrow> (snd s \<noteq> [] \<Longrightarrow> saved) \<Longrightarrow>
     undisturbed (snd s \<noteq> []) [e] \<and> (\<exists>saved'. undisturbed saved' es \<and> (snd (docker_step sha cap e s) \<noteq> [] \<longrightarrow> saved'))"
  by (cases s; cases e) (auto split: option.splits)

lemma docker_run_total:
  assumes "run_inv F R s" "\<And>e. e \<in> set es \<Longrightarrow> event_fails e \<Longrightarrow> F" "R \<or> undisturbed saved es" "snd s \<noteq> [] \<Longrightarrow> saved"
  shows "d_total (fst (fold (docker_step sha cap) es s)) = d_total (fst s) + mset (concat (map inserted es)) \<and>
    run_inv F R (fold (docker_step sha cap) es s)"
  using assms
proof (induction es arbitrary: s saved)
  case (Cons e es)
  let ?s = "docker_step sha cap e s"
  obtain saved' where nxt: "R \<or> undisturbed (snd s \<noteq> []) [e]" "R \<or> undisturbed saved' es" "snd ?s \<noteq> [] \<Longrightarrow> saved'"
    using Cons.prems(3,4) undisturbed_step [of saved e es s sha cap] by (cases R) auto
  have step: "d_total (fst ?s) = d_total (fst s) + mset (inserted e) \<and> run_inv F R ?s"
    by (rule docker_step_total [OF Cons.prems(1) _ nxt(1)]) (rule Cons.prems(2), simp_all)
  have "d_total (fst (fold (docker_step sha cap) es ?s)) = d_total (fst ?s) + mset (concat (map inserted es)) \<and>
      run_inv F R (fold (docker_step sha cap) es ?s)"
    by (rule Cons.IH [OF _ _ nxt(2,3)]) (use step Cons.prems(2) in auto)
  then show ?case
    using step by (simp add: union_assoc)
qed simp


lemma docker_remove_lookup:
  "map_of (d_barrels (docker_remove gc d)) k = (if k \<in> set gc then None else map_of (d_barrels d) k)"
  "d_file (docker_remove gc d) = d_file d"
  unfolding docker_remove_def by (induction gc arbitrary: d) (auto simp: delete_conv' remove_barrel_def)

lemma docker_InsertMessage_lookup:
  "k \<noteq> em_EventID m \<Longrightarrow> map_of (d_barrels (docker_InsertMessage cap now fresh (Some m) d)) k = map_of (d_barrels d) k"
  "d_file (docker_InsertMessage cap now fresh (Some m) d) = d_file d"
  by (auto simp: docker_InsertMessage_def put_barrel_def Let_def update_conv' split: option.splits)

lemma in_d_kept:
  assumes "d_wf d"
  shows "m \<in># d_kept d \<longleftrightarrow> m \<in> set (d_file d) \<or> (\<exists>k r. map_of (d_barrels d) k = Some r \<and> m \<in> set (dl_messages r))"
proof -
  have "(\<exists>x \<in> set (d_barrels d). m \<in> set (dl_messages (snd x))) \<longleftrightarrow>
      (\<exists>k r. map_of (d_barrels d) k = Some r \<and> m \<in> set (dl_messages r))"
    using assms by (metis map_of_eq_Some_iff prod.collapse snd_conv)
  then show ?thesis
    by (auto simp: d_kept_def d_held_def)
qed

text \<open>
  A line that arrives between the two halves of a collection is lost: it goes into a barrel that was
  already chosen for removal, is not saved any more, and is gone once the barrel is removed.
\<close>

theorem collection_window_loses_line:
  assumes "d_wf d" "m \<notin># d_total d" "docker_gcSave sha ok cap now d = (d1, gc)" "em_EventID m \<in> set gc"
  shows "m \<notin># d_kept (docker_remove gc (docker_InsertMessage cap now (dl_empty b) (Some m) d1))"
proof -
  let ?d2 = "docker_InsertMessage cap now (dl_empty b) (Some m) d1"
  note d1 = docker_gcSave_total [OF assms(1,3)]
  have "m \<notin># d_kept d1"
    using assms(2) unfolding d1(2) [symmetric] by (simp add: d_kept_def d_total_def)
  then have no: "m \<notin> set (d_file d1)" "\<And>k r. map_of (d_barrels d1) k = Some r \<Longrightarrow> m \<notin> set (dl_messages r)"
    using in_d_kept [OF d1(1), of m] by auto
  have "d_wf ?d2"
    using d1(1) docker_InsertMessage_total(2) [of d1 "dl_empty b"] by (simp add: dl_messages_def dl_empty_def)
  then have wf: "d_wf (docker_remove gc ?d2)"
    using docker_remove_total by blast
  show ?thesis
    using no assms(4) unfolding in_d_kept [OF wf] docker_remove_lookup
    by (auto simp: docker_InsertMessage_lookup split: if_splits) (metis docker_InsertMessage_lookup(1))
qed

text \<open>
  A batch whose last line is older than the last line of the file is given up without an error, also
  the lines of it that are newer.
\<close>

theorem old_batch_dropped:
  assumes "ms \<noteq> []" "map_of (d_fileCache d) (GetServiceAliasID sha (em_EventID (hd ms))) = Some t" "0 < t"
    and "em_TimeUnixNano (last ms) < t" "\<not> fw_early w"
  shows "fst (file_SaveMessage sha w ms d) \<and> d_file (snd (file_SaveMessage sha w ms d)) = d_file d"
  using assms by (simp add: file_SaveMessage_def)

section \<open>The parser and the history\<close>

text \<open>
  A line in the current format is filed under the component it names, and its history shows it as
  the container's name, a colon and the text, without the version mark and the time stamp.
\<close>

theorem v2_line_roundtrip:
  assumes "length time = 19" "length container = 12" "length service = 32" "2 \<le> length text"
  shows "\<exists>msg. handleDockerLog parse_int (''v2:'' @ time @ [s1] @ container @ [s2] @ service @ text) = Some msg \<and>
    em_EventID msg = service \<and> em_TimeUnixNano msg = parse_int time \<and>
    history_lines ((new_docker_barrel cs now)\<lparr>dl_barrel := [msg]\<rparr>) = [container @ '':'' @ text]"
proof -
  let ?m = "''v2:'' @ time @ [s1] @ container @ [s2] @ service @ text"
  have parts: "take 19 (drop 3 ?m) = time" "take 12 (drop 23 ?m) = container" "take 32 (drop 36 ?m) = service" "drop 68 ?m = text"
    using assms by (simp_all add: drop_append numeral_eq_Suc)
  have "length ?m \<ge> 70" "take 3 ?m = ''v2:''"
    using assms by (simp_all add: numeral_eq_Suc)
  then have "handleDockerLog parse_int ?m =
      Some (docker_message (''v2:'' @ time @ '' '' @ container @ '':'' @ text) service (parse_int time))"
    unfolding handleDockerLog_def Let_def parts by simp
  moreover have "strip_v2 (''v2:'' @ time @ '' '' @ container @ '':'' @ text) = container @ '':'' @ text"
    using assms by (simp add: strip_v2_def numeral_eq_Suc)
  ultimately show ?thesis
    by (simp add: docker_message_def history_lines_def)
qed

text \<open>
  A line in the older format is filed under the wrong component. The buffer that assembles the line
  grows into the array that the component's name is read from, so the name read afterwards is the
  beginning of the text, whenever the text has at least 32 bytes.
\<close>

theorem v1_line_misfiled:
  assumes "length container = 12" "length service = 32" "32 \<le> length text"
    and "take 3 container \<noteq> ''v2:''"
  shows "\<exists>msg. handleDockerLog parse_int (container @ [sep] @ service @ text) = Some msg \<and>
    em_EventID msg = take 32 text \<and> em_Message msg = container @ '':'' @ text"
proof -
  let ?m = "container @ [sep] @ service @ text"
  let ?m1 = "container @ '':'' @ service @ text"
  have m1: "append_at 12 '':'' ?m = ?m1" "drop 45 ?m1 = text"
    using assms by (simp_all add: append_at_def numeral_eq_Suc)
  have m2: "append_at 13 text ?m1 = container @ '':'' @ text @ drop (length text) (service @ text)"
    using assms by (simp add: append_at_def)
  have "take 3 ?m = take 3 container" "\<not> length ?m < 47"
    using assms by simp_all
  then have "handleDockerLog parse_int ?m = Some (docker_message (container @ '':'' @ text) (take 32 text) 0)"
    using assms unfolding handleDockerLog_def Let_def m1 m2 by simp
  then show ?thesis
    by (simp add: docker_message_def)
qed

text \<open>
  Asking for the last \<open>n\<close> lines of a component whose barrel has at least \<open>n\<close> gives one line less, and
  the oldest instead of the latest.
\<close>

theorem docker_history_short:
  assumes "map_of (d_barrels d) k = Some ba" "0 < n" "n \<le> length (history_lines ba)"
  shows "docker_GetHistoryMessage messages k (int n) d = take (n - 1) (history_lines ba)"
  using assms by (simp add: docker_GetHistoryMessage_def nat_diff_distrib)

section \<open>Witnesses\<close>

definition quiet_store :: docker_store where
  "quiet_store = new_docker_store\<lparr>d_barrels := [(''s1'', (new_docker_barrel 10 0)\<lparr>dl_name := ''s1'',
     dl_barrel := [docker_message ''old'' ''s1'' 0]\<rparr>)], d_barrelSize := 1\<rparr>"

definition good_write :: file_env where
  "good_write = \<lparr>fw_early = False, fw_lastRead = 0, fw_late = False, fw_renamed = False\<rparr>"

text \<open>
  A line is saved and its barrel is chosen for removal; another line arrives before the barrel is
  removed, and is dropped. A third line is older than the first one and its batch is skipped.
\<close>

definition demo_events :: "docker_event list" where
  "demo_events = (let b = new_docker_barrel 10 0; e = (\<lambda>_. good_write) in
     [DInsert 0 b (docker_message ''a'' ''s1'' 7), DSave 100 e, DInsert 100 b (docker_message ''b'' ''s1'' 8), DRemove,
      DInsert 200 b (docker_message ''c'' ''s1'' 6), DSave 300 e, DRemove])"

lemmas demo_simps = new_docker_store_def new_docker_barrel_def docker_InsertMessage_def dl_insertMessage_def put_barrel_def
  docker_gcSave_def docker_handle_def handle_barrel_def gc_due_def docker_saveBeforeGc_def dl_gcPersistence_def
  file_SaveMessage_def docker_remove_def remove_barrel_def barrel_lines_def dl_messages_def dl_empty_def
  good_write_def docker_message_def GetServiceAliasID_def


lemma collection_window_loses_line_witness:
  "\<exists>d1. docker_gcSave id (\<lambda>_. good_write) 100 1000 quiet_store = (d1, [''s1'']) \<and>
     docker_message ''new'' ''s1'' 0 \<notin>#
       d_kept (docker_remove [''s1''] (docker_InsertMessage 100 1000 (dl_empty (new_docker_barrel 10 1000))
         (Some (docker_message ''new'' ''s1'' 0)) d1))"
proof -
  obtain d1 where d1: "docker_gcSave id (\<lambda>_. good_write) 100 1000 quiet_store = (d1, [''s1''])"
    by (simp add: docker_gcSave_def docker_handle_def handle_barrel_def quiet_store_def new_docker_store_def
        new_docker_barrel_def gc_due_def Let_def)
  have "docker_message ''new'' ''s1'' 0 \<notin># d_total quiet_store"
    by (simp add: d_total_def d_held_def quiet_store_def new_docker_store_def new_docker_barrel_def dl_messages_def
        docker_message_def)
  moreover have "d_wf quiet_store"
    by (simp add: quiet_store_def)
  moreover have "em_EventID (docker_message ''new'' ''s1'' 0) \<in> set [''s1'']"
    by (simp add: docker_message_def)
  ultimately show ?thesis
    using collection_window_loses_line d1 by blast
qed

lemma v2_line_roundtrip_witness:
  "\<exists>msg. handleDockerLog (\<lambda>_. 0) (''v2:'' @ replicate 19 (CHR ''1'') @ '' '' @ replicate 12 (CHR ''c'') @ '' ''
       @ replicate 32 (CHR ''s'') @ ''text'') = Some msg \<and>
     em_EventID msg = replicate 32 (CHR ''s'')"
  using v2_line_roundtrip [of "replicate 19 (CHR ''1'')" "replicate 12 (CHR ''c'')" "replicate 32 (CHR ''s'')" "''text''"
      "\<lambda>_. 0" "CHR '' ''" "CHR '' ''"]
  by auto

lemma v1_line_misfiled_witness:
  "\<exists>msg. handleDockerLog (\<lambda>_. 0) (replicate 12 (CHR ''c'') @ '' '' @ replicate 32 (CHR ''s'') @ replicate 40 (CHR ''x'')) = Some msg \<and>
     em_EventID msg = replicate 32 (CHR ''x'')"
  using v1_line_misfiled [of "replicate 12 (CHR ''c'')" "replicate 32 (CHR ''s'')" "replicate 40 (CHR ''x'')"
      "\<lambda>_. 0" "CHR '' ''"]
  by (auto simp: numeral_eq_Suc)

lemma docker_history_short_witness:
  "docker_GetHistoryMessage (\<lambda>_ _. None) ''s1'' (int 1) quiet_store = []"
  using docker_history_short [of quiet_store "''s1''"
      "(new_docker_barrel 10 0)\<lparr>dl_name := ''s1'', dl_barrel := [docker_message ''old'' ''s1'' 0]\<rparr>" 1 "\<lambda>_ _. None"]
  by (simp add: quiet_store_def history_lines_def docker_message_def)

end
