(* ===== verification/Event_Wire.thy ===== *)
theory Event_Wire
  imports Docker_Log
begin

text \<open>
  The connection that carries container logs: the node agent formats a line, frames it with its
  length and writes it to a TCP connection (\<^verbatim>\<open>src/node/nodem/logger/streamlog\<close>); the event
  log server reads frames from it through a buffered reader and hands their content to the
  store (\<^verbatim>\<open>src/eventlog/util/protocol.go\<close>, \<^verbatim>\<open>conn.go\<close>,
  \<^verbatim>\<open>src/eventlog/entry/docker_log_server.go\<close>).

  A connection delivers a list of chunks, the pieces that single reads of the socket return, and
  then an error, usually the end of the stream. How the bytes are cut into chunks is up to the
  network. The reader is the one of \<^verbatim>\<open>bufio\<close> with its buffer of 4096 bytes.
\<close>

section \<open>Frames\<close>

definition byte_of :: "int \<Rightarrow> char" where
  "byte_of x = char_of (nat (x mod 256))"

definition byte_val :: "char \<Rightarrow> int" where
  "byte_val c = int (of_char c)"

text \<open>A 32-bit integer in little-endian order, written and read.\<close>

definition put_int32 :: "int \<Rightarrow> string" where
  "put_int32 x = [byte_of x, byte_of (x div 256), byte_of (x div 65536), byte_of (x div 16777216)]"

definition get_int32 :: "string \<Rightarrow> int" where
  "get_int32 s = wrap32 (byte_val (s ! 0) + 256 * byte_val (s ! 1) + 65536 * byte_val (s ! 2)
     + 16777216 * byte_val (s ! 3))"

definition encode :: "string \<Rightarrow> string" where
  "encode message = put_int32 (wrap32 (int (length message))) @ message"

lemma byte_val_of [simp]: "byte_val (byte_of x) = x mod 256"
  by (simp add: byte_val_def byte_of_def)

lemma length_put_int32 [simp]: "length (put_int32 x) = 4"
  by (simp add: put_int32_def)

lemma le_digits:
  fixes x :: int
  shows "x mod 256 + 256 * (x div 256 mod 256) + 65536 * (x div 65536 mod 256)
    + 16777216 * (x div 16777216 mod 256) = x mod 4294967296"
proof -
  have "x mod 65536 = 256 * (x div 256 mod 256) + x mod 256"
    using zmod_zmult2_eq [of 256 x 256] by simp
  moreover have "x mod 16777216 = 65536 * (x div 65536 mod 256) + x mod 65536"
    using zmod_zmult2_eq [of 256 x 65536] by simp
  moreover have "x mod 4294967296 = 16777216 * (x div 16777216 mod 256) + x mod 16777216"
    using zmod_zmult2_eq [of 256 x 16777216] by simp
  ultimately show ?thesis by linarith
qed

lemma get_put_int32:
  assumes "int32_range x"
  shows "get_int32 (put_int32 x @ rest) = x"
proof -
  let ?s = "put_int32 x @ rest"
  have "byte_val (?s ! 0) = x mod 256" "byte_val (?s ! 1) = x div 256 mod 256"
    "byte_val (?s ! 2) = x div 65536 mod 256" "byte_val (?s ! 3) = x div 16777216 mod 256"
    by (simp_all add: put_int32_def)
  then have "get_int32 ?s = wrap32 (x mod 4294967296)"
    by (simp only: get_int32_def le_digits)
  also have "\<dots> = wrap32 x"
    unfolding wrap32_def by (simp add: mod_add_left_eq)
  finally show ?thesis
    using assms by simp
qed

section \<open>The buffered reader\<close>

datatype io_error = EOF | ErrNoProgress | ErrClosed | ErrBufferFull | Conn_error string

record reader =
  rd_buf :: string
  rd_err :: "io_error option"
  rd_in :: "string list"
  rd_end :: io_error

text \<open>One read of the socket with room for \<open>k\<close> bytes.\<close>

definition conn_read :: "nat \<Rightarrow> reader \<Rightarrow> string \<times> io_error option \<times> string list" where
  "conn_read k r =
     (case rd_in r of
        [] \<Rightarrow> ([], Some (rd_end r), [])
      | c # cs \<Rightarrow> (take k c, None, if length c \<le> k then cs else drop k c # cs))"

text \<open>\<^verbatim>\<open>fill\<close>: reads until there is something, at most a hundred times.\<close>

fun fill :: "nat \<Rightarrow> reader \<Rightarrow> reader" where
  "fill 0 r = r\<lparr>rd_err := Some ErrNoProgress\<rparr>"
| "fill (Suc i) r =
     (case conn_read (4096 - length (rd_buf r)) r of (d, e, rest) \<Rightarrow>
        let r' = r\<lparr>rd_buf := rd_buf r @ d, rd_err := e, rd_in := rest\<rparr>
        in if e \<noteq> None \<or> d \<noteq> [] then r' else fill i r')"

text \<open>\<^verbatim>\<open>Peek(4)\<close> fills until four bytes are there or an error has occurred.\<close>

definition pending :: "reader \<Rightarrow> nat" where
  "pending r = (case rd_err r of Some e \<Rightarrow> 0 | None \<Rightarrow> 1 + sum_list (map Suc (map length (rd_in r))))"

lemma fill_progress:
  "rd_err (fill i r) = None \<Longrightarrow> length (rd_buf r) < 4096 \<Longrightarrow>
     sum_list (map Suc (map length (rd_in (fill i r)))) < sum_list (map Suc (map length (rd_in r)))"
proof (induction i arbitrary: r)
  case (Suc i)
  show ?case
  proof (cases "rd_in r")
    case Nil
    then show ?thesis using Suc.prems by (simp add: conn_read_def Let_def)
  next
    case (Cons c cs)
    show ?thesis
    proof (cases "c = []")
      case True
      let ?r = "r\<lparr>rd_err := None, rd_in := cs\<rparr>"
      have "fill (Suc i) r = fill i ?r"
        using Cons True by (simp add: conn_read_def Let_def)
      then show ?thesis
        using Suc.IH [of ?r] Suc.prems Cons True by simp
    next
      case False
      then show ?thesis
        using Suc.prems Cons by (auto simp: conn_read_def Let_def)
    qed
  qed
qed simp

function peek_fill :: "reader \<Rightarrow> reader" where
  "peek_fill r = (if length (rd_buf r) < 4 \<and> rd_err r = None then peek_fill (fill 100 r) else r)"
  by pat_completeness auto
termination
proof (relation "measure pending")
  fix r :: reader
  assume "length (rd_buf r) < 4 \<and> rd_err r = None"
  then show "(fill 100 r, r) \<in> measure pending"
    using fill_progress [of 100 r]
    by (cases "rd_err (fill 100 r)") (simp_all add: pending_def)
qed simp

declare peek_fill.simps [simp del]

definition Peek4 :: "reader \<Rightarrow> (io_error + string) \<times> reader" where
  "Peek4 r =
     (let r' = peek_fill r
      in if length (rd_buf r') < 4
         then (Inl (case rd_err r' of None \<Rightarrow> ErrBufferFull | Some e \<Rightarrow> e), r'\<lparr>rd_err := None\<rparr>)
         else (Inr (take 4 (rd_buf r')), r'))"

text \<open>
  \<^verbatim>\<open>Read\<close> into a slice of \<open>n\<close> bytes. A slice of length zero never reads the socket; an
  empty buffer is filled by a single read, or by-passed by a slice as long as the buffer.
\<close>

definition reader_Read :: "nat \<Rightarrow> reader \<Rightarrow> string \<times> io_error option \<times> reader" where
  "reader_Read n r =
     (if n = 0 then (if rd_buf r \<noteq> [] then ([], None, r) else ([], rd_err r, r\<lparr>rd_err := None\<rparr>))
      else if rd_buf r = [] then
        (if rd_err r \<noteq> None then ([], rd_err r, r\<lparr>rd_err := None\<rparr>)
         else if 4096 \<le> n then
           (case conn_read n r of (d, e, rest) \<Rightarrow> (d, e, r\<lparr>rd_in := rest\<rparr>))
         else
           (case conn_read 4096 r of (d, e, rest) \<Rightarrow>
              if d = [] then ([], e, r\<lparr>rd_in := rest\<rparr>)
              else (take n d, None, r\<lparr>rd_buf := drop n d, rd_err := e, rd_in := rest\<rparr>)))
      else (take n (rd_buf r), None, r\<lparr>rd_buf := drop n (rd_buf r)\<rparr>))"

section \<open>The protocol of the server\<close>

record message_protocol =
  mp_reader :: "reader option"
  mp_cache :: string
  mp_cacheSize :: int

definition SetConn :: "string list \<Rightarrow> io_error \<Rightarrow> message_protocol" where
  "SetConn chunks ending =
     \<lparr>mp_reader = Some \<lparr>rd_buf = [], rd_err = None, rd_in = chunks, rd_end = ending\<rparr>,
      mp_cache = [], mp_cacheSize = 0\<rparr>"

definition maxConsecutiveEmptyReads :: nat where
  "maxConsecutiveEmptyReads = 100"

text \<open>
  The loop for a message that is not completely buffered. It reads no more than what is
  buffered; the whole slice goes to the cache, whatever part of it was read.
\<close>

function cache_loop :: "int \<Rightarrow> nat \<Rightarrow> reader \<Rightarrow> string \<Rightarrow> int \<Rightarrow>
    (io_error option \<times> reader \<times> string \<times> int) go" where
  "cache_loop tot retry r cache cached =
     (if cached < tot then
        (let want = tot - cached;
             readSize = (if want > int (length (rd_buf r)) then int (length (rd_buf r)) else want)
         in if readSize < 0 then Inl LengthOutOfRange
            else case reader_Read (nat readSize) r of
              (d, Some e, r') \<Rightarrow> Inr (Some e, r', cache, cached)
            | (d, None, r') \<Rightarrow>
                if d = [] then
                  (if retry + 1 > maxConsecutiveEmptyReads then Inr (Some ErrNoProgress, r', cache, cached)
                   else cache_loop tot (retry + 1) r' cache cached)
                else cache_loop tot retry r'
                  (cache @ d @ replicate (nat readSize - length d) (CHR 0x00)) (cached + int (length d)))
      else Inr (None, r, cache, cached))"
  by pat_completeness auto
termination
  by (relation "measures [\<lambda>(tot, retry, r, cache, cached). nat (tot - cached),
      \<lambda>(tot, retry, r, cache, cached). maxConsecutiveEmptyReads - retry]")
    (auto simp: Let_def)

declare cache_loop.simps [simp del]

definition Decode :: "message_protocol \<Rightarrow> ((io_error + string) \<times> message_protocol) go" where
  "Decode m =
     bind_go (deref (mp_reader m)) (\<lambda>r0.
       case Peek4 r0 of
         (Inl e, r1) \<Rightarrow> Inr (Inl e, m\<lparr>mp_reader := Some r1\<rparr>)
       | (Inr lengthByte, r1) \<Rightarrow>
           (let len = get_int32 lengthByte; tot = wrap32 (len + 4)
            in if len = 0 then Inr (Inl ErrClosed, m\<lparr>mp_reader := Some r1\<rparr>)
               else if int (length (rd_buf r1)) < tot then
                 bind_go (cache_loop tot 0 r1 (mp_cache m) (mp_cacheSize m))
                   (\<lambda>(err, r2, cache, cached).
                     case err of
                       Some e \<Rightarrow> Inr (Inl e, m\<lparr>mp_reader := Some r2, mp_cache := cache, mp_cacheSize := cached\<rparr>)
                     | None \<Rightarrow>
                         if length cache < 4 then Inl IndexOutOfRange
                         else Inr (Inr (drop 4 cache), m\<lparr>mp_reader := Some r2, mp_cache := [], mp_cacheSize := 0\<rparr>))
               else if tot < 0 then Inl LengthOutOfRange
               else case reader_Read (nat tot) r1 of
                 (d, Some e, r2) \<Rightarrow> Inr (Inl e, m\<lparr>mp_reader := Some r2\<rparr>)
               | (d, None, r2) \<Rightarrow>
                   if d = [] then Inr (Inl ErrNoProgress, m\<lparr>mp_reader := Some r2\<rparr>)
                   else if tot < 4 then Inl IndexOutOfRange
                   else Inr (Inr (drop 4 (d @ replicate (nat tot - length d) (CHR 0x00))),
                             m\<lparr>mp_reader := Some r2\<rparr>)))"

record packet =
  pk_data :: string
  pk_isPing :: bool

definition IsNull :: "packet \<Rightarrow> bool" where
  "IsNull p \<longleftrightarrow> length (pk_data p) = 0 \<and> \<not> pk_isPing p"

definition isPing :: "string \<Rightarrow> bool" where
  "isPing s \<longleftrightarrow> s = ''0x00ping''"

definition ReadPacket :: "message_protocol \<Rightarrow> ((io_error + packet) \<times> message_protocol) go" where
  "ReadPacket m =
     (if mp_reader m \<noteq> None then
        bind_go (Decode m) (\<lambda>(res, m').
          Inr (case res of
            Inl e \<Rightarrow> (Inl e, m')
          | Inr message \<Rightarrow>
              (Inr (if isPing message then \<lparr>pk_data = [], pk_isPing = True\<rparr>
                    else \<lparr>pk_data = message, pk_isPing = False\<rparr>), m')))
      else Inr (Inl ErrClosed, m))"

section \<open>The read loop\<close>

text \<open>
  \<^verbatim>\<open>OnMessage\<close> puts the content into the channel of the store, which has room for
  \<open>cap\<close> messages; while it is full it waits five times for the collector, which takes
  \<open>taken\<close> messages during each wait, and then drops the message.
\<close>

fun offer :: "nat \<Rightarrow> nat \<Rightarrow> nat list \<Rightarrow> string \<Rightarrow> string list \<Rightarrow> string list" where
  "offer cap 0 taken msg ch = ch"
| "offer cap (Suc n) taken msg ch =
     (case taken of
        [] \<Rightarrow> ch
      | k # ks \<Rightarrow>
          (let ch' = drop k ch
           in if length ch' < cap then ch' @ [msg] else offer cap n ks msg ch'))"

definition OnMessage :: "nat \<Rightarrow> nat list \<Rightarrow> packet \<Rightarrow> string list \<Rightarrow> string list" where
  "OnMessage cap taken p ch =
     (let msg = pk_data p
      in if length msg > 0 then
           (if length ch < cap then ch @ [msg] else offer cap 5 taken msg ch)
         else ch)"

text \<open>
  Why the loop ends: an error, or a panic that is recovered; both close the connection. The
  loop is given fuel; a message always consumes bytes, so that as much fuel as there are bytes
  is enough.
\<close>

datatype loop_end = Ended io_error | Recovered go_panic | Null_packet | Out_of_fuel

fun readLoop :: "nat \<Rightarrow> (packet \<Rightarrow> 's \<Rightarrow> 's) \<Rightarrow> message_protocol \<Rightarrow> 's \<Rightarrow> loop_end \<times> 's" where
  "readLoop 0 onMessage m s = (Out_of_fuel, s)"
| "readLoop (Suc n) onMessage m s =
     (case ReadPacket m of
        Inl p \<Rightarrow> (Recovered p, s)
      | Inr (Inl e, m') \<Rightarrow> (Ended e, s)
      | Inr (Inr p, m') \<Rightarrow>
          if IsNull p then (Null_packet, s)
          else if pk_isPing p then readLoop n onMessage m' s
          else readLoop n onMessage m' (onMessage p s))"

section \<open>What a reader holds\<close>

text \<open>Filling moves bytes from the connection to the buffer, up to its capacity.\<close>

definition reader_ok :: "reader \<Rightarrow> bool" where
  "reader_ok r \<longleftrightarrow> length (rd_buf r) \<le> 4096 \<and> (4 \<le> length (rd_buf r) \<longrightarrow> rd_err r = None)"

abbreviation stream_of :: "reader \<Rightarrow> string" where
  "stream_of r \<equiv> rd_buf r @ concat (rd_in r)"

lemma fill_ok:
  "length (rd_buf r) < 4 \<Longrightarrow> rd_err r = None \<Longrightarrow>
     reader_ok (fill i r) \<and> stream_of (fill i r) = stream_of r \<and> rd_end (fill i r) = rd_end r"
proof (induction i arbitrary: r)
  case (Suc i)
  show ?case
  proof (cases "rd_in r")
    case Nil
    then show ?thesis using Suc.prems by (simp add: conn_read_def Let_def reader_ok_def)
  next
    case (Cons c cs)
    show ?thesis
    proof (cases "c = []")
      case True
      let ?r = "r\<lparr>rd_err := None, rd_in := cs\<rparr>"
      have "fill (Suc i) r = fill i ?r"
        using Cons True by (simp add: conn_read_def Let_def)
      then show ?thesis
        using Suc.IH [of ?r] Suc.prems Cons True by simp
    next
      case False
      then show ?thesis
        using Suc.prems Cons by (auto simp: conn_read_def Let_def reader_ok_def)
    qed
  qed
qed (simp add: reader_ok_def)

lemma peek_ok:
  "reader_ok r \<Longrightarrow>
     reader_ok (peek_fill r) \<and> stream_of (peek_fill r) = stream_of r \<and> rd_end (peek_fill r) = rd_end r \<and>
     (4 \<le> length (rd_buf (peek_fill r)) \<or> rd_err (peek_fill r) \<noteq> None)"
proof (induction r rule: peek_fill.induct)
  case (1 r)
  show ?case
  proof (cases "length (rd_buf r) < 4 \<and> rd_err r = None")
    case True
    then have "reader_ok (fill 100 r)" "stream_of (fill 100 r) = stream_of r" "rd_end (fill 100 r) = rd_end r"
      using fill_ok [of r 100] by simp_all
    then show ?thesis
      using "1.IH" [OF True] True by (simp add: peek_fill.simps [of r])
  next
    case False
    then show ?thesis using "1.prems" by (auto simp: peek_fill.simps [of r] not_less)
  qed
qed

lemma peek_fill_stop: "4 \<le> length (rd_buf r) \<Longrightarrow> peek_fill r = r"
  by (simp add: peek_fill.simps [of r])

lemma fill_Suc:
  "rd_in r = c # cs \<Longrightarrow> c \<noteq> [] \<Longrightarrow> length (rd_buf r) < 4096 \<Longrightarrow> rd_err r = None \<Longrightarrow>
     fill (Suc i) r = r\<lparr>rd_buf := rd_buf r @ take (4096 - length (rd_buf r)) c,
       rd_in := if length c \<le> 4096 - length (rd_buf r) then cs else drop (4096 - length (rd_buf r)) c # cs\<rparr>"
  "rd_in r = [] \<Longrightarrow> fill (Suc i) r = r\<lparr>rd_err := Some (rd_end r)\<rparr>"
  by (simp_all add: conn_read_def Let_def)

lemma fill_chunk:
  assumes "rd_in r = c # cs" "c \<noteq> []" "length (rd_buf r) < 4096" "rd_err r = None"
  shows "fill 100 r = r\<lparr>rd_buf := rd_buf r @ take (4096 - length (rd_buf r)) c,
    rd_in := if length c \<le> 4096 - length (rd_buf r) then cs else drop (4096 - length (rd_buf r)) c # cs\<rparr>"
  using fill_Suc(1) [OF assms, of 99] by simp

lemma fill_end: "rd_in r = [] \<Longrightarrow> fill 100 r = r\<lparr>rd_err := Some (rd_end r)\<rparr>"
  using fill_Suc(2) [of r 99] by simp

lemma peek_fill_chunk:
  assumes "rd_buf r = []" "rd_err r = None" "rd_in r = c # cs" "4 \<le> length c" "length c \<le> 4096"
  shows "peek_fill r = r\<lparr>rd_buf := c, rd_in := cs\<rparr>"
proof -
  have "c \<noteq> []" using assms(4) by auto
  then have "fill 100 r = r\<lparr>rd_buf := c, rd_in := cs\<rparr>"
    using fill_chunk [OF assms(3)] assms by simp
  then show ?thesis
    using assms by (simp add: peek_fill.simps [of r] peek_fill_stop)
qed

text \<open>Once nothing is buffered, the loop of \<^verbatim>\<open>Decode\<close> only counts its attempts.\<close>

lemma cache_loop_stalls:
  assumes "rd_buf r = []" "rd_err r = None" "cached < tot" "retry \<le> maxConsecutiveEmptyReads"
  shows "cache_loop tot retry r cache cached = Inr (Some ErrNoProgress, r, cache, cached)"
  using assms
proof (induction "maxConsecutiveEmptyReads - retry" arbitrary: retry)
  case (Suc n)
  have "reader_Read 0 r = ([], None, r)"
    using assms(1,2) by (simp add: reader_Read_def)
  then show ?case
    using Suc.hyps Suc.prems by (subst cache_loop.simps) (simp add: Let_def)
qed (subst cache_loop.simps, simp add: reader_Read_def Let_def)

lemma cache_loop_incomplete:
  assumes "4 \<le> length (rd_buf r)" "rd_err r = None" "int (length (rd_buf r)) < tot"
  shows "cache_loop tot 0 r cache 0 =
    Inr (Some ErrNoProgress, r\<lparr>rd_buf := []\<rparr>, cache @ rd_buf r, int (length (rd_buf r)))"
proof -
  let ?r = "r\<lparr>rd_buf := []\<rparr>"
  have "rd_buf r \<noteq> []"
    using assms(1) by auto
  then have "reader_Read (length (rd_buf r)) r = (rd_buf r, None, ?r)"
    by (simp add: reader_Read_def)
  then have "cache_loop tot 0 r cache 0 = cache_loop tot 0 ?r (cache @ rd_buf r) (int (length (rd_buf r)))"
    using assms \<open>rd_buf r \<noteq> []\<close> by (subst cache_loop.simps) (simp add: Let_def)
  also have "\<dots> = Inr (Some ErrNoProgress, ?r, cache @ rd_buf r, int (length (rd_buf r)))"
    by (rule cache_loop_stalls) (use assms in simp_all)
  finally show ?thesis .
qed

section \<open>What is decoded\<close>

text \<open>A protocol between two messages.\<close>

definition idle :: "message_protocol \<Rightarrow> reader \<Rightarrow> bool" where
  "idle m r \<longleftrightarrow> mp_reader m = Some r \<and> mp_cacheSize m = 0 \<and> mp_cache m = [] \<and> reader_ok r"

lemma get_int32_range: "int32_range (get_int32 s)"
  unfolding get_int32_def by (rule wrap32_range)

lemma wrap32_plus4:
  assumes "int32_range x"
  shows "wrap32 (x + 4) = (if x + 4 < 2147483648 then x + 4 else x + 4 - 4294967296)"
proof (cases "x + 4 < 2147483648")
  case False
  have "(x + 4 + 2147483648) mod 4294967296 = (x + 4 + 2147483648 - 4294967296) mod 4294967296"
    by (rule minus_mod_self2 [symmetric])
  also have "\<dots> = x + 4 + 2147483648 - 4294967296"
    by (rule mod_pos_pos_trivial) (use assms False in linarith)+
  finally show ?thesis using False by (simp add: wrap32_def)
qed (use assms in simp)

lemma get_int32_take: "4 \<le> length s \<Longrightarrow> get_int32 (take 4 s) = get_int32 s"
  by (simp add: get_int32_def)

lemma Peek4_full:
  "4 \<le> length (rd_buf (peek_fill r)) \<Longrightarrow> Peek4 r = (Inr (take 4 (rd_buf (peek_fill r))), peek_fill r)"
  by (simp add: Peek4_def Let_def)

text \<open>The decoding once the header is there, in terms of its value.\<close>

lemma Decode_header:
  assumes "idle m r" "peek_fill r = r1" "4 \<le> length (rd_buf r1)" "get_int32 (rd_buf r1) = L"
  shows "L = 0 \<Longrightarrow> Decode m = Inr (Inl ErrClosed, m\<lparr>mp_reader := Some r1\<rparr>)"
    and "0 < L \<Longrightarrow> L + 4 \<le> int (length (rd_buf r1)) \<Longrightarrow>
      Decode m = Inr (Inr (take (nat L) (drop 4 (rd_buf r1))),
        m\<lparr>mp_reader := Some (r1\<lparr>rd_buf := drop (nat L + 4) (rd_buf r1)\<rparr>)\<rparr>)"
    and "int (length (rd_buf r1)) < L + 4 \<Longrightarrow> L + 4 < 2147483648 \<Longrightarrow>
      Decode m = Inr (Inl ErrNoProgress, m\<lparr>mp_reader := Some (r1\<lparr>rd_buf := []\<rparr>),
        mp_cache := rd_buf r1, mp_cacheSize := int (length (rd_buf r1))\<rparr>)"
    and "L < - 4 \<or> 2147483648 \<le> L + 4 \<Longrightarrow> Decode m = Inl LengthOutOfRange"
    and "L = - 4 \<Longrightarrow> Decode m = Inr (Inl ErrNoProgress, m\<lparr>mp_reader := Some r1\<rparr>)"
    and "- 4 < L \<Longrightarrow> L < 0 \<Longrightarrow> Decode m = Inl IndexOutOfRange"
proof -
  let ?B = "rd_buf r1"
  have m: "mp_reader m = Some r" "mp_cache m = []" "mp_cacheSize m = 0" "reader_ok r1"
    using assms(1,2) peek_ok [of r] by (auto simp: idle_def)
  have peek: "Peek4 r = (Inr (take 4 ?B), r1)" "get_int32 (take 4 ?B) = L" "?B \<noteq> []"
    using assms(2,3,4) Peek4_full [of r] get_int32_take [of ?B] by auto
  have size: "length ?B \<le> 4096" "rd_err r1 = None"
    using m(4) assms(3) by (simp_all add: reader_ok_def)
  have L: "int32_range L"
    using get_int32_range [of ?B] assms(4) by simp
  note w = wrap32_plus4 [OF L]
  show "Decode m = Inr (Inl ErrClosed, m\<lparr>mp_reader := Some r1\<rparr>)" if "L = 0"
    using that m peek by (simp add: Decode_def)
  show "Decode m = Inr (Inr (take (nat L) (drop 4 ?B)),
      m\<lparr>mp_reader := Some (r1\<lparr>rd_buf := drop (nat L + 4) ?B\<rparr>)\<rparr>)" if "0 < L" "L + 4 \<le> int (length ?B)"
  proof -
    have tot: "wrap32 (L + 4) = L + 4" "nat (L + 4) = nat L + 4" "nat L + 4 \<le> length ?B"
      using that L size w by auto
    have "reader_Read (nat L + 4) r1 = (take (nat L + 4) ?B, None, r1\<lparr>rd_buf := drop (nat L + 4) ?B\<rparr>)"
      using peek(3) by (simp add: reader_Read_def)
    moreover have "drop 4 (take (nat L + 4) ?B) = take (nat L) (drop 4 ?B)"
      by (simp add: drop_take)
    ultimately show ?thesis
      using that m peek tot by (simp add: Decode_def)
  qed
  show "Decode m = Inr (Inl ErrNoProgress, m\<lparr>mp_reader := Some (r1\<lparr>rd_buf := []\<rparr>),
      mp_cache := ?B, mp_cacheSize := int (length ?B)\<rparr>)"
    if "int (length ?B) < L + 4" "L + 4 < 2147483648"
    using that m peek w assms(3) cache_loop_incomplete [of r1 "L + 4" "[]"] size
    by (simp add: Decode_def)
  show "Decode m = Inl LengthOutOfRange" if "L < - 4 \<or> 2147483648 \<le> L + 4"
  proof -
    have "wrap32 (L + 4) < 0" "L \<noteq> 0"
      using that L w by auto
    then show ?thesis
      using m peek by (simp add: Decode_def)
  qed
  show "Decode m = Inr (Inl ErrNoProgress, m\<lparr>mp_reader := Some r1\<rparr>)" if "L = - 4"
    using that m peek by (simp add: Decode_def reader_Read_def wrap32_def)
  show "Decode m = Inl IndexOutOfRange" if "- 4 < L" "L < 0"
  proof -
    have tot: "wrap32 (L + 4) = L + 4" "0 < nat (L + 4)"
      using that L w by auto
    have "reader_Read (nat (L + 4)) r1 = (take (nat (L + 4)) ?B, None, r1\<lparr>rd_buf := drop (nat (L + 4)) ?B\<rparr>)"
      using peek(3) tot(2) by (simp add: reader_Read_def)
    then show ?thesis
      using that m peek tot assms(3) by (simp add: Decode_def)
  qed
qed

text \<open>
  A message is delivered exactly when it is completely buffered at the moment its header is
  read: with the header \<open>L\<close> at the front of the buffer \<open>B\<close>, the result is the next \<open>L\<close>
  bytes if they are there. If some are missing, the loop meant to wait for them never reads the
  connection and gives up with \<^verbatim>\<open>ErrNoProgress\<close>. A length of zero closes the connection;
  lengths that are negative or leave the 32 bits end in an error or a panic.
\<close>
theorem frame_decoded_iff_buffered:
  assumes "idle m r" "B = rd_buf (peek_fill r)" "4 \<le> length B" "L = get_int32 B"
  shows "map_sum id fst (Decode m) =
    (if L = 0 then Inr (Inl ErrClosed)
     else if L < - 4 \<or> 2147483648 \<le> L + 4 then Inl LengthOutOfRange
     else if L = - 4 then Inr (Inl ErrNoProgress)
     else if L < 0 then Inl IndexOutOfRange
     else if L + 4 \<le> int (length B) then Inr (Inr (take (nat L) (drop 4 B)))
     else Inr (Inl ErrNoProgress))"
proof -
  note cs = Decode_header [OF assms(1) refl]
  consider "L = 0" | "L < - 4 \<or> 2147483648 \<le> L + 4" | "L = - 4" | "- 4 < L" "L < 0"
    | "0 < L" "L + 4 \<le> int (length B)" | "0 < L" "int (length B) < L + 4" "L + 4 < 2147483648"
    by linarith
  then show ?thesis
  proof cases
    case 1
    then show ?thesis using cs(1) assms by simp
  next
    case 2
    then show ?thesis using cs(4) assms by auto
  next
    case 3
    then show ?thesis using cs(5) assms by simp
  next
    case 4
    then show ?thesis using cs(6) assms by simp
  next
    case 5
    then have "\<not> (L < - 4 \<or> 2147483648 \<le> L + 4)"
      using assms(1,2) peek_ok [of r] by (auto simp: idle_def reader_ok_def)
    then show ?thesis using 5 cs(2) assms by simp
  next
    case 6
    then show ?thesis using cs(3) assms by simp
  qed
qed

section \<open>Messages through the connection\<close>

abbreviation proto :: "string \<Rightarrow> string list \<Rightarrow> io_error \<Rightarrow> message_protocol" where
  "proto b cs en \<equiv> \<lparr>mp_reader = Some \<lparr>rd_buf = b, rd_err = None, rd_in = cs, rd_end = en\<rparr>,
     mp_cache = [], mp_cacheSize = 0\<rparr>"

lemma length_encode [simp]: "length (encode m) = length m + 4"
  by (simp add: encode_def)

lemma get_int32_encode:
  "length m < 2147483648 \<Longrightarrow> get_int32 (encode m @ b) = int (length m)"
  using get_put_int32 [of "int (length m)" "m @ b"] by (simp add: encode_def)

lemma Decode_frame:
  assumes "m \<noteq> []" "length (encode m @ b) \<le> 4096"
  shows "Decode (proto (encode m @ b) cs en) = Inr (Inr m, proto b cs en)"
    and "Decode (proto [] ((encode m @ b) # cs) en) = Inr (Inr m, proto b cs en)"
proof -
  let ?c = "encode m @ b"
  let ?r = "\<lparr>rd_buf = ?c, rd_err = None, rd_in = cs, rd_end = en\<rparr>"
    and ?old = "\<lparr>rd_buf = [], rd_err = None, rd_in = ?c # cs, rd_end = en\<rparr>"
  have idle: "idle (proto ?c cs en) ?r" "idle (proto [] (?c # cs) en) ?old"
    using assms(2) by (simp_all add: idle_def reader_ok_def)
  have peek: "peek_fill ?r = ?r" "peek_fill ?old = ?r"
    using peek_fill_stop [of ?r] peek_fill_chunk [of ?old ?c cs] assms(2) by simp_all
  have len: "get_int32 (rd_buf ?r) = int (length m)"
    using get_int32_encode [of m b] assms(2) by simp
  have parts: "drop 4 ?c = m @ b" "drop (length m + 4) ?c = b"
    by (simp_all add: encode_def)
  show "Decode (proto ?c cs en) = Inr (Inr m, proto b cs en)"
    using Decode_header(2) [OF idle(1) peek(1) _ len] assms parts by simp
  show "Decode (proto [] (?c # cs) en) = Inr (Inr m, proto b cs en)"
    using Decode_header(2) [OF idle(2) peek(2) _ len] assms parts by simp
qed

lemma Decode_end: "\<exists>m'. Decode (proto [] [] en) = Inr (Inl en, m')"
proof -
  let ?r = "\<lparr>rd_buf = [], rd_err = None, rd_in = [], rd_end = en\<rparr>"
  have "fill 100 ?r = ?r\<lparr>rd_err := Some en\<rparr>"
    using fill_end [of ?r] by simp
  then have "peek_fill ?r = ?r\<lparr>rd_err := Some en\<rparr>"
    by (subst peek_fill.simps) (simp add: peek_fill.simps)
  then show ?thesis
    by (simp add: Decode_def Peek4_def)
qed

text \<open>The packets that reach \<^verbatim>\<open>OnMessage\<close>: everything but pings.\<close>

definition packets :: "string list \<Rightarrow> packet list" where
  "packets ms = map (\<lambda>m. \<lparr>pk_data = m, pk_isPing = False\<rparr>) (filter (\<lambda>m. \<not> isPing m) ms)"

lemma packets_simps [simp]:
  "packets [] = []"
  "packets (m # ms) = (if isPing m then [] else [\<lparr>pk_data = m, pk_isPing = False\<rparr>]) @ packets ms"
  "packets (ms @ ns) = packets ms @ packets ns"
  by (simp_all add: packets_def)

lemma ReadPacket_of_Decode:
  "Decode (proto b cs en) = Inr (Inr m, p) \<Longrightarrow> ReadPacket (proto b cs en) =
     Inr (Inr (if isPing m then \<lparr>pk_data = [], pk_isPing = True\<rparr>
               else \<lparr>pk_data = m, pk_isPing = False\<rparr>), p)"
  by (simp add: ReadPacket_def)

lemma readLoop_message:
  assumes "m \<noteq> []" "length (encode m @ b) \<le> 4096" "c = encode m @ b"
  shows "readLoop (Suc n) f (proto c cs en) s = readLoop n f (proto b cs en) (foldl (\<lambda>s p. f p s) s (packets [m]))"
    and "readLoop (Suc n) f (proto [] (c # cs) en) s =
      readLoop n f (proto b cs en) (foldl (\<lambda>s p. f p s) s (packets [m]))"
proof -
  have "Decode (proto c cs en) = Inr (Inr m, proto b cs en)"
    "Decode (proto [] (c # cs) en) = Inr (Inr m, proto b cs en)"
    unfolding assms(3) by (rule Decode_frame [OF assms(1,2)])+
  then show "readLoop (Suc n) f (proto c cs en) s =
      readLoop n f (proto b cs en) (foldl (\<lambda>s p. f p s) s (packets [m]))"
    "readLoop (Suc n) f (proto [] (c # cs) en) s =
      readLoop n f (proto b cs en) (foldl (\<lambda>s p. f p s) s (packets [m]))"
    using assms(1) ReadPacket_of_Decode by (simp_all add: IsNull_def)
qed

abbreviation frames :: "string list \<Rightarrow> string" where
  "frames ms \<equiv> concat (map encode ms)"

lemma readLoop_chunk:
  assumes "length (frames ms) \<le> 4096" "[] \<notin> set ms"
  shows "readLoop (length ms + n) f (proto (frames ms) cs en) s =
    readLoop n f (proto [] cs en) (foldl (\<lambda>s p. f p s) s (packets ms))"
  using assms
proof (induction ms arbitrary: s)
  case (Cons m ms)
  have "readLoop (Suc (length ms + n)) f (proto (frames (m # ms)) cs en) s =
      readLoop (length ms + n) f (proto (frames ms) cs en) (foldl (\<lambda>s p. f p s) s (packets [m]))"
    by (rule readLoop_message(1)) (use Cons.prems in auto)
  also have "\<dots> = readLoop n f (proto [] cs en)
      (foldl (\<lambda>s p. f p s) (foldl (\<lambda>s p. f p s) s (packets [m])) (packets ms))"
    by (rule Cons.IH) (use Cons.prems in auto)
  finally show ?case by simp
qed simp

lemma readLoop_chunks:
  assumes "\<forall>ms \<in> set mss. ms \<noteq> [] \<and> [] \<notin> set ms \<and> length (frames ms) \<le> 4096"
  shows "readLoop (Suc (length (concat mss) + n)) f (proto [] (map frames mss) en) s =
    (Ended en, foldl (\<lambda>s p. f p s) s (packets (concat mss)))"
  using assms
proof (induction mss arbitrary: s)
  case Nil
  obtain m' where "Decode (proto [] [] en) = Inr (Inl en, m')"
    using Decode_end by blast
  then show ?case by (simp add: ReadPacket_def)
next
  case (Cons ms mss)
  obtain m ms' where ms: "ms = m # ms'"
    using Cons.prems by (cases ms) auto
  let ?k = "Suc (length (concat mss) + n)"
  have "readLoop (Suc (length ms' + ?k)) f (proto [] (frames ms # map frames mss) en) s =
      readLoop (length ms' + ?k) f (proto (frames ms') (map frames mss) en) (foldl (\<lambda>s p. f p s) s (packets [m]))"
    by (rule readLoop_message(2)) (use Cons.prems ms in auto)
  also have "\<dots> = readLoop ?k f (proto [] (map frames mss) en)
      (foldl (\<lambda>s p. f p s) (foldl (\<lambda>s p. f p s) s (packets [m])) (packets ms'))"
    by (rule readLoop_chunk) (use Cons.prems ms in auto)
  also have "\<dots> = (Ended en, foldl (\<lambda>s p. f p s)
      (foldl (\<lambda>s p. f p s) (foldl (\<lambda>s p. f p s) s (packets [m])) (packets ms')) (packets (concat mss)))"
    by (rule Cons.IH) (use Cons.prems in simp)
  finally show ?case by (simp add: ms add.assoc add.commute add.left_commute)
qed

text \<open>
  When the network delivers whole frames, up to 4096 bytes at a time, the server hands every
  message except pings to its callback, unchanged and in order, and then ends with the error
  of the connection.
\<close>
theorem frames_delivered_in_order:
  assumes "\<forall>ms \<in> set mss. ms \<noteq> [] \<and> [] \<notin> set ms \<and> length (concat (map encode ms)) \<le> 4096"
    and "length (concat mss) < n"
  shows "readLoop n onMessage (SetConn (map (\<lambda>ms. concat (map encode ms)) mss) ending) s =
    (Ended ending, foldl (\<lambda>s p. onMessage p s) s
      (map (\<lambda>m. \<lparr>pk_data = m, pk_isPing = False\<rparr>) (filter (\<lambda>m. \<not> isPing m) (concat mss))))"
proof -
  obtain k where "n = Suc (length (concat mss) + k)"
    using assms(2) by (metis less_iff_Suc_add)
  then show ?thesis
    using readLoop_chunks [OF assms(1), of k onMessage ending s] by (simp add: SetConn_def packets_def)
qed

text \<open>With pieces that are not empty, a header that is on its way is read.\<close>

lemma peek_reaches:
  "reader_ok r \<Longrightarrow> rd_err r = None \<Longrightarrow> [] \<notin> set (rd_in r) \<Longrightarrow> 4 \<le> length (stream_of r) \<Longrightarrow>
     4 \<le> length (rd_buf (peek_fill r))"
proof (induction r rule: peek_fill.induct)
  case (1 r)
  show ?case
  proof (cases "length (rd_buf r) < 4")
    case True
    then obtain c cs where cs: "rd_in r = c # cs" "c \<noteq> []"
      using "1.prems" by (cases "rd_in r") auto
    let ?k = "4096 - length (rd_buf r)"
    let ?f = "r\<lparr>rd_buf := rd_buf r @ take ?k c, rd_in := if length c \<le> ?k then cs else drop ?k c # cs\<rparr>"
    have f: "fill 100 r = ?f"
      by (rule fill_chunk) (use cs True "1.prems"(2) in auto)
    have "reader_ok ?f" "rd_err ?f = None" "[] \<notin> set (rd_in ?f)" "4 \<le> length (stream_of ?f)"
      using cs True "1.prems" fill_ok [OF True "1.prems"(2), of 100] f by auto
    then have "4 \<le> length (rd_buf (peek_fill ?f))"
      using "1.IH" True "1.prems"(2) f by metis
    then show ?thesis
      using True "1.prems"(2) f by (simp add: peek_fill.simps [of r])
  qed (simp add: peek_fill_stop)
qed

text \<open>
  A message of more than 4092 bytes cannot be delivered: however the network cuts it and whatever
  follows it, the server ends the connection with \<^verbatim>\<open>ErrNoProgress\<close> instead.
\<close>
theorem long_message_ends_connection:
  assumes "concat chunks = encode message @ rest" "[] \<notin> set chunks"
    and "4092 < length message" "length message < 2147483644"
  shows "readLoop (Suc n) onMessage (SetConn chunks ending) s = (Ended ErrNoProgress, s)"
proof -
  let ?r = "\<lparr>rd_buf = [], rd_err = None, rd_in = chunks, rd_end = ending\<rparr>"
  let ?p = "peek_fill ?r"
  have idle: "idle (SetConn chunks ending) ?r"
    by (simp add: idle_def SetConn_def reader_ok_def)
  have ok: "reader_ok ?p" "stream_of ?p = encode message @ rest"
    using peek_ok [of ?r] assms(1) by (simp_all add: reader_ok_def)
  have full: "4 \<le> length (rd_buf ?p)"
    using peek_reaches [of ?r] assms(1,2) by (simp add: reader_ok_def)
  have "get_int32 (rd_buf ?p) = get_int32 (take 4 (stream_of ?p))"
    using full get_int32_take [of "rd_buf ?p"] by simp
  also have "\<dots> = int (length message)"
    unfolding ok(2) using get_int32_take [of "encode message @ rest"] get_int32_encode [of message rest] assms(4)
    by simp
  finally have "Decode (SetConn chunks ending) = Inr (Inl ErrNoProgress, (SetConn chunks ending)
      \<lparr>mp_reader := Some (?p\<lparr>rd_buf := []\<rparr>), mp_cache := rd_buf ?p, mp_cacheSize := int (length (rd_buf ?p))\<rparr>)"
    using Decode_header(3) [OF idle refl full] ok(1) assms(3,4) by (simp add: reader_ok_def)
  then show ?thesis
    by (simp add: ReadPacket_def SetConn_def)
qed

text \<open>Without a header the decoding ends with an error; with one it gives the next message or ends.\<close>

lemma Decode_no_header:
  assumes "idle m r" "length (rd_buf (peek_fill r)) < 4"
  shows "\<exists>e m'. Decode m = Inr (Inl e, m')"
  using assms by (simp add: Decode_def idle_def Peek4_def Let_def)

lemma Decode_next:
  assumes "idle m r" "stream_of r @ rest = encode x @ later" "x \<noteq> []" "length x < 2147483644"
  shows "(\<exists>e m'. Decode m = Inr (Inl e, m')) \<or>
    (\<exists>m' r'. Decode m = Inr (Inr x, m') \<and> idle m' r' \<and> stream_of r' @ rest = later)"
proof (cases "4 \<le> length (rd_buf (peek_fill r))")
  case True
  let ?p = "peek_fill r"
  let ?r = "?p\<lparr>rd_buf := drop (length x + 4) (rd_buf ?p)\<rparr>"
  have ok: "reader_ok ?p" "stream_of ?p @ rest = encode x @ later"
    using peek_ok [of r] assms(1,2) by (simp_all add: idle_def)
  have "get_int32 (rd_buf ?p) = get_int32 (take 4 (stream_of ?p @ rest))"
    using True get_int32_take [of "rd_buf ?p"] by simp
  also have "\<dots> = int (length x)"
    unfolding ok(2) using get_int32_take [of "encode x @ later"] get_int32_encode [of x later] assms(4) by simp
  finally have len: "get_int32 (rd_buf ?p) = int (length x)" .
  show ?thesis
  proof (cases "length x + 4 \<le> length (rd_buf ?p)")
    case fits: True
    have "take (length x + 4) (rd_buf ?p) = take (length x + 4) (stream_of ?p @ rest)"
      using fits by simp
    also have "\<dots> = encode x"
      unfolding ok(2) by simp
    finally have fr: "take (length x + 4) (rd_buf ?p) = encode x" .
    then have "take (length x) (drop 4 (rd_buf ?p)) = x"
      by (metis add.commute drop_take encode_def append_eq_conv_conj length_put_int32 add_diff_cancel_right')
    then have "Decode m = Inr (Inr x, m\<lparr>mp_reader := Some ?r\<rparr>)"
      using Decode_header(2) [OF assms(1) refl True len] fits assms(3) by simp
    moreover have "idle (m\<lparr>mp_reader := Some ?r\<rparr>) ?r"
      using assms(1) ok(1) True by (auto simp: idle_def reader_ok_def)
    moreover have "stream_of ?r @ rest = later"
    proof -
      have "stream_of ?r @ rest = drop (length x + 4) (stream_of ?p @ rest)"
        using fits by simp
      then show ?thesis
        unfolding ok(2) by simp
    qed
    ultimately show ?thesis
      by blast
  next
    case False
    then show ?thesis
      using Decode_header(3) [OF assms(1) refl True len] assms(4) by simp
  qed
qed (use Decode_no_header [OF assms(1)] in simp)

lemma readLoop_prefix:
  assumes "idle m r" "stream_of r @ rest = frames ms" "[] \<notin> set ms" "\<forall>x \<in> set ms. length x < 2147483644"
    and "length ms < n"
  shows "\<exists>k e. k \<le> length ms \<and>
    readLoop n f m s = (Ended e, foldl (\<lambda>s p. f p s) s (packets (take k ms)))"
  using assms
proof (induction ms arbitrary: m r n s)
  case Nil
  then have "stream_of (peek_fill r) = []"
    using peek_ok [of r] by (metis append_is_Nil_conv concat.simps(1) idle_def list.map(1))
  then have "length (rd_buf (peek_fill r)) < 4"
    by simp
  then obtain e m' where "Decode m = Inr (Inl e, m')"
    using Decode_no_header [OF Nil.prems(1)] by blast
  moreover obtain j where "n = Suc j"
    using Nil.prems(5) by (cases n) auto
  ultimately show ?case
    using Nil.prems(1) by (simp add: ReadPacket_def idle_def)
next
  case (Cons x ms)
  obtain j where n: "n = Suc j" "length ms < j"
    using Cons.prems(5) by (cases n) auto
  have reader: "mp_reader m \<noteq> None"
    using Cons.prems(1) by (simp add: idle_def)
  have x: "x \<noteq> []" "length x < 2147483644"
    using Cons.prems(3,4) by auto
  have "stream_of r @ rest = encode x @ frames ms"
    using Cons.prems(2) by simp
  from Decode_next [OF Cons.prems(1) this x] show ?case
  proof (elim disjE exE conjE)
    fix e m'
    assume "Decode m = Inr (Inl e, m')"
    then have "readLoop n f m s = (Ended e, foldl (\<lambda>s p. f p s) s (packets (take 0 (x # ms))))"
      using reader by (simp add: n ReadPacket_def)
    then show ?thesis
      by blast
  next
    fix m' r'
    assume d: "Decode m = Inr (Inr x, m')" and nxt: "idle m' r'" "stream_of r' @ rest = frames ms"
    have "readLoop n f m s = readLoop j f m' (foldl (\<lambda>s p. f p s) s (packets [x]))"
      using reader d x(1) by (simp add: n ReadPacket_def IsNull_def)
    moreover obtain k e where "k \<le> length ms"
        "readLoop j f m' (foldl (\<lambda>s p. f p s) s (packets [x])) =
          (Ended e, foldl (\<lambda>s p. f p s) (foldl (\<lambda>s p. f p s) s (packets [x])) (packets (take k ms)))"
      using Cons.IH [OF nxt _ _ n(2)] Cons.prems(3,4) by (metis list.set_intros(2))
    ultimately have "Suc k \<le> length (x # ms) \<and>
        readLoop n f m s = (Ended e, foldl (\<lambda>s p. f p s) s (packets (take (Suc k) (x # ms))))"
      by simp
    then show ?thesis
      by blast
  qed
qed

text \<open>
  C17: Whatever the network does to the bytes of a connection, cut them into pieces of any size, delay
  them or break off in the middle, what the server hands to its callback are the first \<open>k\<close> of the
  messages sent, for some \<open>k\<close>, less the pings: none is altered, repeated, reordered or left out
  between others. The loop ends with an error, not with a panic. When the pieces are whole frames of up
  to 4096 bytes together, these are all messages, and the error is that of the connection.
\<close>
theorem delivered_is_prefix:
  assumes "concat chunks @ rest = concat (map encode ms)"
    and "[] \<notin> set ms" "\<forall>m \<in> set ms. length m < 2147483644" "length ms < n"
  shows "\<exists>k e. k \<le> length ms \<and> readLoop n onMessage (SetConn chunks ending) s =
    (Ended e, foldl (\<lambda>s p. onMessage p s) s
      (map (\<lambda>m. \<lparr>pk_data = m, pk_isPing = False\<rparr>) (filter (\<lambda>m. \<not> isPing m) (take k ms)))) \<and>
    (\<forall>mss. chunks = map (\<lambda>fs. concat (map encode fs)) mss \<and> concat mss = ms \<and>
        (\<forall>fs \<in> set mss. fs \<noteq> [] \<and> length (concat (map encode fs)) \<le> 4096) \<longrightarrow> k = length ms \<and> e = ending)"
proof (cases "\<exists>mss. chunks = map (\<lambda>fs. concat (map encode fs)) mss \<and> concat mss = ms \<and>
    (\<forall>fs \<in> set mss. fs \<noteq> [] \<and> length (concat (map encode fs)) \<le> 4096)")
  case True
  then obtain mss where mss: "chunks = map (\<lambda>fs. concat (map encode fs)) mss" "concat mss = ms"
      "\<forall>fs \<in> set mss. fs \<noteq> [] \<and> length (concat (map encode fs)) \<le> 4096"
    by blast
  have "\<forall>fs \<in> set mss. fs \<noteq> [] \<and> [] \<notin> set fs \<and> length (concat (map encode fs)) \<le> 4096"
    using mss(2,3) assms(2) by auto
  then have "readLoop n onMessage (SetConn chunks ending) s = (Ended ending, foldl (\<lambda>s p. onMessage p s) s
      (map (\<lambda>m. \<lparr>pk_data = m, pk_isPing = False\<rparr>) (filter (\<lambda>m. \<not> isPing m) (take (length ms) ms))))"
    using frames_delivered_in_order [of mss n onMessage ending s] assms(4) by (simp add: mss(1,2))
  then show ?thesis
    by (intro exI [of _ "length ms"] exI [of _ ending] conjI allI impI) simp_all
next
  case False
  let ?r = "\<lparr>rd_buf = [], rd_err = None, rd_in = chunks, rd_end = ending\<rparr>"
  have "idle (SetConn chunks ending) ?r" "stream_of ?r @ rest = frames ms"
    using assms(1) by (simp_all add: idle_def SetConn_def reader_ok_def)
  from readLoop_prefix [OF this assms(2-4), of onMessage s] obtain k e where k: "k \<le> length ms" "readLoop n onMessage (SetConn chunks ending) s =
      (Ended e, foldl (\<lambda>s p. onMessage p s) s (packets (take k ms)))"
    by (elim exE conjE)
  show ?thesis
  proof (intro exI [of _ k] exI [of _ e] conjI)
    show "\<forall>mss. chunks = map (\<lambda>fs. concat (map encode fs)) mss \<and> concat mss = ms \<and>
        (\<forall>fs \<in> set mss. fs \<noteq> [] \<and> length (concat (map encode fs)) \<le> 4096) \<longrightarrow> k = length ms \<and> e = ending"
      using False by blast
  qed (use k in \<open>simp_all add: packets_def\<close>)
qed

section \<open>The client of the node agent\<close>

datatype client_error = Client_closed | No_connection | Create_failed | Net_error string

record client =
  cl_writer :: bool \<comment> \<open>whether there is a writer\<close>
  cl_conn :: bool \<comment> \<open>whether there is a connection\<close>
  cl_server :: string
  cl_closeFlag :: bool
  cl_sent :: string \<comment> \<open>the bytes given to the present connection\<close>

text \<open>
  What the connection does with a write: an error of the deadline, how many bytes the writer
  takes and how many get out, the errors of writing and flushing.
\<close>

record write_result =
  wr_deadline :: "client_error option"
  wr_wrote :: nat
  wr_out :: nat
  wr_err :: "client_error option"
  wr_ferr :: "client_error option"

definition client_IsClosed :: "client \<Rightarrow> bool" where
  "client_IsClosed c = cl_closeFlag c"

definition client_Close :: "client \<Rightarrow> client" where
  "client_Close c = c\<lparr>cl_conn := False, cl_writer := False, cl_closeFlag := True\<rparr>"

definition client_write :: "write_result \<Rightarrow> string \<Rightarrow> client \<Rightarrow> client_error option \<times> client" where
  "client_write res message c =
     (if \<not> cl_conn c then (Some Client_closed, c)
      else if wr_deadline res \<noteq> None then (wr_deadline res, c)
      else if cl_writer c then
        (let c' = c\<lparr>cl_sent := cl_sent c @ take (wr_out res) message\<rparr>
         in if wr_wrote res < length message then (wr_err res, c')
            else if wr_ferr res \<noteq> None then (wr_ferr res, c')
            else (wr_err res, c'))
      else (Some Client_closed, c))"

definition client_Write :: "write_result \<Rightarrow> string \<Rightarrow> client \<Rightarrow> client_error option \<times> client" where
  "client_Write res message c =
     (if message = [] then (None, c)
      else if \<not> cl_writer c then (Some No_connection, c)
      else case client_write res (encode message) c of
        (Some e, c') \<Rightarrow> (Some e, client_Close c')
      | (None, c') \<Rightarrow> (None, c'))"

text \<open>\<open>None\<close> is a successful dial.\<close>

definition client_Dial :: "client_error option \<Rightarrow> client \<Rightarrow> client_error option \<times> client" where
  "client_Dial dialed c =
     (if client_IsClosed c then
        (case dialed of
           Some e \<Rightarrow> (Some e, c)
         | None \<Rightarrow> (None, c\<lparr>cl_conn := True, cl_writer := True, cl_closeFlag := False, cl_sent := []\<rparr>))
      else (None, c))"

definition client_ReConnect :: "client_error option \<Rightarrow> client \<Rightarrow> client_error option \<times> client" where
  "client_ReConnect dialed c = client_Dial dialed (if \<not> client_IsClosed c then client_Close c else c)"

definition ChangeAddress :: "client_error option \<Rightarrow> string \<Rightarrow> client \<Rightarrow> client_error option \<times> client" where
  "ChangeAddress dialed server c = client_ReConnect dialed (c\<lparr>cl_server := server\<rparr>)"

section \<open>The log driver\<close>

record stream_log =
  sl_writer :: client
  sl_serviceID :: string
  sl_containerID :: string
  sl_reConnecting :: nat
  sl_serverAddress :: string
  sl_cacheQueue :: "string list"
  sl_interval :: int
  sl_minInterval :: int

definition cacheQueueCap :: nat where
  "cacheQueueCap = 2000"

text \<open>
  \<^verbatim>\<open>cache\<close> waits as long as the queue is full; \<open>None\<close> is that it has to wait for somebody
  to take a message from the queue.
\<close>

definition sl_cache :: "string \<Rightarrow> stream_log \<Rightarrow> stream_log option" where
  "sl_cache msg s =
     (if length (sl_cacheQueue s) < cacheQueueCap then Some (s\<lparr>sl_cacheQueue := sl_cacheQueue s @ [msg]\<rparr>)
      else None)"

text \<open>The text of a line: version, time in nanoseconds, container, component, content.\<close>

definition log_text :: "int \<Rightarrow> string \<Rightarrow> stream_log \<Rightarrow> string" where
  "log_text nanos line s =
     ''v2:'' @ go_itoa nanos @ '','' @ take 12 (sl_containerID s) @ '','' @ sl_serviceID s @ line"

text \<open>A container name of fewer than 12 bytes panics, which is recovered: the line is dropped.\<close>

definition sl_Log :: "int \<Rightarrow> string \<Rightarrow> stream_log \<Rightarrow> stream_log option" where
  "sl_Log nanos line s =
     (if length (sl_containerID s) < 12 then Some s else sl_cache (log_text nanos line s) s)"

text \<open>
  One round of reconnecting: the result of dialing the present address, the address the
  cluster names, and the result of dialing that. When the rounds end without success, the
  driver was closed.
\<close>

fun reconnect_rounds :: "(client_error option \<times> string \<times> client_error option) list \<Rightarrow> stream_log \<Rightarrow> stream_log" where
  "reconnect_rounds [] s = s"
| "reconnect_rounds ((first, server, second) # rounds) s =
     (case client_ReConnect first (sl_writer s) of
        (None, c) \<Rightarrow> s\<lparr>sl_writer := c\<rparr>
      | (Some e, c) \<Rightarrow>
          if server = cl_server c then
            (case client_ReConnect second c of
               (None, c') \<Rightarrow> s\<lparr>sl_writer := c'\<rparr>
             | (Some e', c') \<Rightarrow> reconnect_rounds rounds (s\<lparr>sl_writer := c'\<rparr>))
          else
            (case ChangeAddress second server c of
               (None, c') \<Rightarrow> s\<lparr>sl_writer := c', sl_serverAddress := server\<rparr>
             | (Some e', c') \<Rightarrow> reconnect_rounds rounds (s\<lparr>sl_writer := c'\<rparr>)))"

definition reConect :: "(client_error option \<times> string \<times> client_error option) list \<Rightarrow> stream_log \<Rightarrow> stream_log" where
  "reConect rounds s = (reconnect_rounds rounds s)\<lparr>sl_interval := 10000\<rparr>"

definition sendMsg :: "write_result \<Rightarrow> (client_error option \<times> string \<times> client_error option) list \<Rightarrow>
    string \<Rightarrow> stream_log \<Rightarrow> stream_log option" where
  "sendMsg res rounds msg s =
     (if \<not> client_IsClosed (sl_writer s) then
        (case client_Write res msg (sl_writer s) of
           (Some e, c) \<Rightarrow>
             (case sl_cache msg (s\<lparr>sl_writer := c\<rparr>) of
                None \<Rightarrow> None
              | Some s' \<Rightarrow> Some (if sl_reConnecting s' < 1 then reConect rounds s' else s'))
         | (None, c) \<Rightarrow>
             Some (s\<lparr>sl_writer := c, sl_interval :=
               if sl_interval s > sl_minInterval s then sl_interval s - 100 else sl_interval s\<rparr>))
      else Some (if sl_reConnecting s < 1 then reConect rounds s else s))"

definition sl_ping :: "write_result \<Rightarrow> (client_error option \<times> string \<times> client_error option) list \<Rightarrow>
    stream_log \<Rightarrow> stream_log option" where
  "sl_ping res rounds s = sendMsg res rounds ''0x00ping'' s"

text \<open>One turn of \<^verbatim>\<open>send\<close> that takes a message from the queue.\<close>

definition send_turn :: "write_result \<Rightarrow> (client_error option \<times> string \<times> client_error option) list \<Rightarrow>
    stream_log \<Rightarrow> stream_log option" where
  "send_turn res rounds s =
     (case sl_cacheQueue s of
        [] \<Rightarrow> Some s
      | msg # q \<Rightarrow>
          (let s' = s\<lparr>sl_cacheQueue := q\<rparr>
           in if msg \<noteq> [] \<and> msg \<noteq> [CHR 0x0A] then sendMsg res rounds msg s' else Some s'))"

section \<open>From the node to the store\<close>

text \<open>The connection takes a whole frame, and reports no error.\<close>

definition goes_out :: "write_result \<Rightarrow> bool" where
  "goes_out res \<longleftrightarrow> wr_deadline res = None \<and> wr_err res = None \<and> wr_ferr res = None \<and>
     4096 \<le> wr_wrote res \<and> 4096 \<le> wr_out res"

definition connected :: "client \<Rightarrow> bool" where
  "connected c \<longleftrightarrow> cl_conn c \<and> cl_writer c \<and> \<not> cl_closeFlag c"

lemma client_Write_goes_out:
  assumes "connected c" "goes_out res" "msg \<noteq> []" "length msg \<le> 4092"
  shows "client_Write res msg c = (None, c\<lparr>cl_sent := cl_sent c @ encode msg\<rparr>)"
  using assms by (simp add: client_Write_def client_write_def connected_def goes_out_def)

fun send_turns :: "(write_result \<times> (client_error option \<times> string \<times> client_error option) list) list \<Rightarrow>
    stream_log \<Rightarrow> stream_log option" where
  "send_turns [] s = Some s"
| "send_turns ((res, rounds) # ts) s =
     (case send_turn res rounds s of None \<Rightarrow> None | Some s' \<Rightarrow> send_turns ts s')"

lemma send_turns_go_out:
  assumes "connected (sl_writer s)" "sl_cacheQueue s = q" "length ts = length q"
    and "\<forall>t \<in> set ts. goes_out (fst t)" "\<forall>m \<in> set q. m \<noteq> [] \<and> m \<noteq> [CHR 0x0A] \<and> length m \<le> 4092"
  shows "\<exists>s'. send_turns ts s = Some s' \<and> sl_cacheQueue s' = [] \<and>
    cl_sent (sl_writer s') = cl_sent (sl_writer s) @ frames q"
  using assms
proof (induction q arbitrary: s ts)
  case (Cons m q)
  obtain res rounds ts' where ts: "ts = (res, rounds) # ts'"
    using Cons.prems(3) by (cases ts) auto
  let ?c = "(sl_writer s)\<lparr>cl_sent := cl_sent (sl_writer s) @ encode m\<rparr>"
  let ?s = "s\<lparr>sl_cacheQueue := q, sl_writer := ?c, sl_interval :=
      if sl_interval s > sl_minInterval s then sl_interval s - 100 else sl_interval s\<rparr>"
  have "client_Write res m (sl_writer s) = (None, ?c)"
    by (rule client_Write_goes_out) (use Cons.prems ts in auto)
  then have turn: "send_turn res rounds s = Some ?s"
    using Cons.prems(1,2,5)
    by (simp add: send_turn_def sendMsg_def client_IsClosed_def connected_def Let_def)
  have "\<exists>s'. send_turns ts' ?s = Some s' \<and> sl_cacheQueue s' = [] \<and>
      cl_sent (sl_writer s') = cl_sent (sl_writer ?s) @ frames q"
    by (rule Cons.IH) (use Cons.prems ts in \<open>simp_all add: connected_def\<close>)
  then show ?case
    using turn ts by simp
qed simp

fun log_lines :: "(int \<times> string) list \<Rightarrow> stream_log \<Rightarrow> stream_log option" where
  "log_lines [] s = Some s"
| "log_lines ((t, l) # ls) s = (case sl_Log t l s of None \<Rightarrow> None | Some s' \<Rightarrow> log_lines ls s')"

lemma log_lines_queue:
  assumes "12 \<le> length (sl_containerID s)" "length (sl_cacheQueue s) + length ls \<le> cacheQueueCap"
  shows "log_lines ls s = Some (s\<lparr>sl_cacheQueue := sl_cacheQueue s @ map (\<lambda>(t, l). log_text t l s) ls\<rparr>)"
  using assms
proof (induction ls arbitrary: s)
  case (Cons p ls)
  obtain t l where p: "p = (t, l)" by (rule prod.exhaust)
  let ?s = "s\<lparr>sl_cacheQueue := sl_cacheQueue s @ [log_text t l s]\<rparr>"
  have "log_text t' l' ?s = log_text t' l' s" for t' l'
    by (simp add: log_text_def)
  then show ?case
    using Cons.IH [of ?s] Cons.prems p by (simp add: sl_Log_def sl_cache_def)
qed simp

lemma length_nat_str:
  "10 ^ k \<le> n \<Longrightarrow> n < 10 ^ Suc k \<Longrightarrow> length (nat_str n) = Suc k"
proof (induction k arbitrary: n)
  case 0
  then show ?case by (simp add: nat_str.simps [of n])
next
  case (Suc k)
  have "1 \<le> (10 :: nat) ^ k" by simp
  then have "10 \<le> n"
    using Suc.prems(1) unfolding power_Suc by linarith
  moreover have "10 ^ k \<le> n div 10" "n div 10 < 10 ^ Suc k"
    using Suc.prems by (simp_all add: less_eq_div_iff_mult_less_eq div_less_iff_less_mult)
  ultimately have "10 ^ k \<le> n div 10" "n div 10 < 10 ^ Suc k" "\<not> n < 10"
    by simp_all
  then show ?case
    using Suc.IH [of "n div 10"] by (simp add: nat_str.simps [of n])
qed

text \<open>Times in nanoseconds from the year 2001 to the end of the 64 bits have 19 digits.\<close>

lemma length_nanos: "10 ^ 18 \<le> t \<Longrightarrow> t < 2 ^ 63 \<Longrightarrow> length (go_itoa t) = 19"
  using length_nat_str [of 18 "nat t"] by (simp add: go_itoa_def nat_le_iff zless_nat_eq_int_zless)

lemma offered_all:
  "length ch + length ms \<le> cap \<Longrightarrow> [] \<notin> set ms \<Longrightarrow>
     foldl (\<lambda>s p. OnMessage cap taken p s) ch (map (\<lambda>m. \<lparr>pk_data = m, pk_isPing = False\<rparr>) ms) = ch @ ms"
  by (induction ms arbitrary: ch) (auto simp: OnMessage_def Let_def)

lemma concat_frames: "concat (map frames mss) = frames (concat mss)"
  by (induction mss) simp_all

text \<open>The parser of the store takes the text of a line apart again.\<close>

lemma handle_log_text:
  assumes "12 \<le> length (sl_containerID s)" "length (sl_serviceID s) = 32" "length (go_itoa t) = 19" "2 \<le> length l"
  shows "handleDockerLog parse_int (log_text t l s) =
    Some (docker_message (''v2:'' @ go_itoa t @ '' '' @ take 12 (sl_containerID s) @ '':'' @ l)
      (sl_serviceID s) (parse_int (go_itoa t)))"
proof -
  let ?c = "take 12 (sl_containerID s)"
  have len: "length ?c = 12" using assms(1) by simp
  have m: "log_text t l s = ''v2:'' @ go_itoa t @ [CHR '',''] @ ?c @ [CHR '',''] @ sl_serviceID s @ l"
    by (simp add: log_text_def)
  have parts: "take 19 (drop 3 (log_text t l s)) = go_itoa t" "take 12 (drop 23 (log_text t l s)) = ?c"
    "take 32 (drop 36 (log_text t l s)) = sl_serviceID s" "drop 68 (log_text t l s) = l"
    "take 3 (log_text t l s) = ''v2:''" "\<not> length (log_text t l s) < 70"
    unfolding m using assms(2,3,4) len by (simp_all add: drop_append numeral_eq_Suc)
  then show ?thesis
    by (simp add: handleDockerLog_def Let_def)
qed

text \<open>
  The lines a container writes reach the store: the driver queues them, sends them over its
  connection, and the server puts them into the channel of the store in the same order; the
  store files each under its component, with its time and with container name and content. This
  holds for lines of 2 to 4024 bytes while the queue and the channel have room, the connection
  takes every write, and the network delivers whole frames.
\<close>
theorem container_lines_reach_store:
  assumes "connected (sl_writer s)" "cl_sent (sl_writer s) = []" "sl_cacheQueue s = []"
    and "12 \<le> length (sl_containerID s)" "length (sl_serviceID s) = 32"
    and "length ls \<le> cacheQueueCap"
    and lines: "\<forall>(t, l) \<in> set ls. 10 ^ 18 \<le> t \<and> t < 2 ^ 63 \<and> 2 \<le> length l \<and> length l \<le> 4024"
    and "length ts = length ls" "\<forall>t \<in> set ts. goes_out (fst t)"
    and "concat mss = map (\<lambda>(t, l). log_text t l s) ls"
    and "\<forall>ms \<in> set mss. ms \<noteq> [] \<and> length (concat (map encode ms)) \<le> 4096"
    and "length ls \<le> cap" "length ls < n"
  shows "\<exists>s1 s2. log_lines ls s = Some s1 \<and> send_turns ts s1 = Some s2 \<and>
    cl_sent (sl_writer s2) = concat (map (\<lambda>ms. concat (map encode ms)) mss) \<and>
    readLoop n (OnMessage cap taken) (SetConn (map (\<lambda>ms. concat (map encode ms)) mss) EOF) [] =
      (Ended EOF, map (\<lambda>(t, l). log_text t l s) ls) \<and>
    map (handleDockerLog parse_int) (map (\<lambda>(t, l). log_text t l s) ls) =
      map (\<lambda>(t, l). Some (docker_message (''v2:'' @ go_itoa t @ '' '' @ take 12 (sl_containerID s) @ '':'' @ l)
        (sl_serviceID s) (parse_int (go_itoa t)))) ls"
proof -
  let ?texts = "map (\<lambda>(t, l). log_text t l s) ls"
  let ?s1 = "s\<lparr>sl_cacheQueue := ?texts\<rparr>"
  have one: "log_lines ls s = Some ?s1"
    using log_lines_queue [of s ls] assms(3,4,6) by simp
  have nineteen: "length (go_itoa t) = 19" if "(t, l) \<in> set ls" for t l
    using lines that length_nanos [of t] by auto
  have texts: "m \<noteq> [] \<and> m \<noteq> [CHR 0x0A] \<and> length m \<le> 4092 \<and> \<not> isPing m" if "m \<in> set ?texts" for m
  proof -
    note mem = that
    obtain t l where m: "m = log_text t l s" "(t, l) \<in> set ls"
      using mem by auto
    then show ?thesis
      using lines nineteen [OF m(2)] assms(4,5) by (auto simp: log_text_def isPing_def)
  qed
  have "\<exists>s2. send_turns ts ?s1 = Some s2 \<and> sl_cacheQueue s2 = [] \<and>
      cl_sent (sl_writer s2) = cl_sent (sl_writer ?s1) @ frames ?texts"
    by (rule send_turns_go_out) (use assms(1,8,9) texts in auto)
  then obtain s2 where two: "send_turns ts ?s1 = Some s2" "cl_sent (sl_writer s2) = frames ?texts"
    using assms(2) by auto
  have sent: "cl_sent (sl_writer s2) = concat (map frames mss)"
    using two(2) concat_frames [of mss] assms(10) by simp
  have nonempty: "[] \<notin> set ?texts" "filter (\<lambda>m. \<not> isPing m) ?texts = ?texts"
    using texts by (blast, simp add: filter_id_conv)
  have "\<forall>ms \<in> set mss. ms \<noteq> [] \<and> [] \<notin> set ms \<and> length (frames ms) \<le> 4096"
    using assms(10,11) nonempty(1) by (metis UN_I set_concat)
  moreover obtain k where "n = Suc (length (concat mss) + k)"
    using assms(10,13) by (metis length_map less_iff_Suc_add)
  ultimately have "readLoop n (OnMessage cap taken) (SetConn (map frames mss) EOF) [] = (Ended EOF, ?texts)"
    using readLoop_chunks [of mss k "OnMessage cap taken" EOF "[]"] offered_all [of "[]" ?texts cap taken]
      assms(10,12) nonempty by (simp add: SetConn_def packets_def)
  moreover have "map (handleDockerLog parse_int) ?texts =
      map (\<lambda>(t, l). Some (docker_message (''v2:'' @ go_itoa t @ '' '' @ take 12 (sl_containerID s) @ '':'' @ l)
        (sl_serviceID s) (parse_int (go_itoa t)))) ls"
    using handle_log_text [OF assms(4,5)] nineteen lines by (auto simp: comp_def)
  ultimately show ?thesis
    using one two(1) sent by blast
qed

section \<open>Lost lines\<close>

lemma reconnect_queue: "sl_cacheQueue (reConect rounds s) = sl_cacheQueue s"
proof -
  have "sl_cacheQueue (reconnect_rounds rounds s) = sl_cacheQueue s"
    by (induction rounds s rule: reconnect_rounds.induct) (simp_all split: prod.split option.split)
  then show ?thesis by (simp add: reConect_def)
qed

lemma reconnect_sent:
  "cl_sent (sl_writer (reConect rounds s)) \<in> {cl_sent (sl_writer s), []}"
proof -
  have dial: "cl_sent (snd (client_ReConnect d c)) \<in> {cl_sent c, []}" for d c
    by (simp add: client_ReConnect_def client_Dial_def client_Close_def split: option.split)
  have change: "cl_sent (snd (ChangeAddress d sv c)) \<in> {cl_sent c, []}" for d sv c
    using dial [of d "c\<lparr>cl_server := sv\<rparr>"] by (simp add: ChangeAddress_def)
  have "cl_sent (sl_writer (reconnect_rounds rounds s)) \<in> {cl_sent (sl_writer s), []}"
  proof (induction rounds arbitrary: s)
    case (Cons round rounds)
    obtain first server second where round: "round = (first, server, second)"
      by (rule prod_cases3)
    obtain e1 c1 where one: "client_ReConnect first (sl_writer s) = (e1, c1)"
      by (rule prod.exhaust)
    obtain e2 c2 where two: "client_ReConnect second c1 = (e2, c2)"
      by (rule prod.exhaust)
    obtain e3 c3 where three: "ChangeAddress second server c1 = (e3, c3)"
      by (rule prod.exhaust)
    have "cl_sent c1 \<in> {cl_sent (sl_writer s), []}" "cl_sent c2 \<in> {cl_sent c1, []}" "cl_sent c3 \<in> {cl_sent c1, []}"
      using dial [of first "sl_writer s"] dial [of second c1] change [of second server c1] one two three by simp_all
    then show ?case
      using Cons.IH [of "s\<lparr>sl_writer := c2\<rparr>"] Cons.IH [of "s\<lparr>sl_writer := c3\<rparr>"] one two three round
      by (cases e1; cases e2; cases e3; cases "server = cl_server c1") (auto simp: round)
  qed simp
  then show ?thesis by (simp add: reConect_def)
qed

text \<open>
  While the connection is closed, the driver loses what it takes from its queue: the message is
  neither sent nor put back, whatever the attempts to reconnect do.
\<close>
theorem closed_connection_loses_message:
  assumes "client_IsClosed (sl_writer s)" "sl_cacheQueue s = msg # q" "msg \<noteq> []" "msg \<noteq> [CHR 0x0A]"
  shows "\<exists>s'. send_turn res rounds s = Some s' \<and> sl_cacheQueue s' = q \<and>
    (cl_sent (sl_writer s') = cl_sent (sl_writer s) \<or> cl_sent (sl_writer s') = [])"
  using assms reconnect_queue [of rounds "s\<lparr>sl_cacheQueue := q\<rparr>"]
    reconnect_sent [of rounds "s\<lparr>sl_cacheQueue := q\<rparr>"]
  by (auto simp: send_turn_def sendMsg_def Let_def)

text \<open>
  The only goroutine that takes messages from the queue puts a message back when a write fails.
  With a full queue it waits for itself.
\<close>
lemma sender_waits_for_itself:
  assumes "\<not> client_IsClosed (sl_writer s)" "client_Write res msg (sl_writer s) = (Some e, c)"
    and "length (sl_cacheQueue s) = cacheQueueCap"
  shows "sendMsg res rounds msg s = None"
  using assms by (simp add: sendMsg_def sl_cache_def)

section \<open>Witnesses\<close>

theorem frame_decoded_iff_buffered_witness:
  "map_sum id fst (Decode (SetConn [encode ''ab'' @ ''xyz''] EOF)) = Inr (Inr ''ab'') \<and>
   map_sum id fst (Decode (SetConn [take 5 (encode ''ab''), drop 5 (encode ''ab'')] EOF)) = Inr (Inl ErrNoProgress)"
proof
  let ?c = "encode ''ab'' @ ''xyz''"
  let ?r = "\<lparr>rd_buf = [], rd_err = None, rd_in = [?c], rd_end = EOF\<rparr>"
  have "peek_fill ?r = ?r\<lparr>rd_buf := ?c, rd_in := []\<rparr>"
    by (rule peek_fill_chunk) simp_all
  moreover have "get_int32 ?c = 2"
    using get_int32_encode [of "''ab''" "''xyz''"] by simp
  moreover have "idle (SetConn [?c] EOF) ?r"
    by (simp add: idle_def SetConn_def reader_ok_def)
  moreover have "drop 4 ?c = ''abxyz''"
    by (simp add: encode_def)
  ultimately show "map_sum id fst (Decode (SetConn [?c] EOF)) = Inr (Inr ''ab'')"
    using frame_decoded_iff_buffered [of "SetConn [?c] EOF" ?r ?c 2] by simp
next
  let ?c = "take 5 (encode ''ab'')" and ?d = "drop 5 (encode ''ab'')"
  let ?q = "\<lparr>rd_buf = [], rd_err = None, rd_in = [?c, ?d], rd_end = EOF\<rparr>"
  have "peek_fill ?q = ?q\<lparr>rd_buf := ?c, rd_in := [?d]\<rparr>"
    by (rule peek_fill_chunk) simp_all
  moreover have "get_int32 ?c = 2"
    using get_int32_encode [of "''ab''" "[]"] get_int32_take [of ?c] get_int32_take [of "encode ''ab''"] by simp
  moreover have "idle (SetConn [?c, ?d] EOF) ?q"
    by (simp add: idle_def SetConn_def reader_ok_def)
  ultimately show "map_sum id fst (Decode (SetConn [?c, ?d] EOF)) = Inr (Inl ErrNoProgress)"
    using frame_decoded_iff_buffered [of "SetConn [?c, ?d] EOF" ?q ?c 2] by simp
qed

theorem delivered_is_prefix_witness:
  "\<exists>k e. k \<le> 2 \<and>
     readLoop 3 (\<lambda>p s. s @ [pk_data p]) (SetConn [take 7 (encode ''ab'' @ encode ''cd''), [],
         take 1 (drop 7 (encode ''ab'' @ encode ''cd''))] EOF) [] =
     (Ended e, foldl (\<lambda>s p. s @ [pk_data p]) []
       (map (\<lambda>m. \<lparr>pk_data = m, pk_isPing = False\<rparr>) (filter (\<lambda>m. \<not> isPing m) (take k [''ab'', ''cd'']))))"
proof -
  let ?cs = "[take 7 (encode ''ab'' @ encode ''cd''), [], take 1 (drop 7 (encode ''ab'' @ encode ''cd''))]"
  have "concat ?cs @ drop 8 (encode ''ab'' @ encode ''cd'') = concat (map encode [''ab'', ''cd''])"
    by (simp add: encode_def put_int32_def)
  from delivered_is_prefix [OF this, of 3 "\<lambda>p s. s @ [pk_data p]" EOF "[]"] show ?thesis
    by (simp add: numeral_2_eq_2) blast
qed

theorem frames_delivered_in_order_witness:
  "readLoop 5 (\<lambda>p s. s @ [pk_data p]) (SetConn [encode ''a'' @ encode ''0x00ping'', encode ''b''] EOF) [] =
     (Ended EOF, [''a'', ''b''])"
  using frames_delivered_in_order [of "[[''a'', ''0x00ping''], [''b'']]" 5 "\<lambda>p s. s @ [pk_data p]" EOF "[]"]
  by (simp add: isPing_def)

theorem long_message_ends_connection_witness:
  "readLoop (Suc 3) (\<lambda>p s. s @ [pk_data p]) (SetConn [encode (replicate 5000 (CHR ''x'')), encode ''b''] EOF) [] =
     (Ended ErrNoProgress, [])"
proof (rule long_message_ends_connection)
  show "concat [encode (replicate 5000 (CHR ''x'')), encode ''b''] = encode (replicate 5000 (CHR ''x'')) @ encode ''b''"
    by (simp only: concat.simps append_Nil2)
  show "[] \<notin> set [encode (replicate 5000 (CHR ''x'')), encode ''b'']"
    by (simp add: encode_def put_int32_def)
qed simp_all

definition sample_log :: stream_log where
  "sample_log = \<lparr>sl_writer = \<lparr>cl_writer = True, cl_conn = True, cl_server = ''e:6362'', cl_closeFlag = False,
       cl_sent = []\<rparr>, sl_serviceID = replicate 32 (CHR ''s''), sl_containerID = replicate 64 (CHR ''c''),
     sl_reConnecting = 0, sl_serverAddress = ''e:6362'', sl_cacheQueue = [], sl_interval = 10000,
     sl_minInterval = 1000\<rparr>"

definition sample_write :: write_result where
  "sample_write = \<lparr>wr_deadline = None, wr_wrote = 4096, wr_out = 4096, wr_err = None, wr_ferr = None\<rparr>"

theorem container_lines_reach_store_witness:
  "\<exists>s1 s2. log_lines [(10 ^ 18, ''hello'')] sample_log = Some s1 \<and>
    send_turns [(sample_write, [])] s1 = Some s2 \<and>
    cl_sent (sl_writer s2) = encode (log_text (10 ^ 18) ''hello'' sample_log) \<and>
    readLoop 2 (OnMessage 2048 []) (SetConn [encode (log_text (10 ^ 18) ''hello'' sample_log)] EOF) [] =
      (Ended EOF, [log_text (10 ^ 18) ''hello'' sample_log]) \<and>
    handleDockerLog (\<lambda>_. 0) (log_text (10 ^ 18) ''hello'' sample_log) =
      Some (docker_message (''v2:'' @ go_itoa (10 ^ 18) @ '' '' @ replicate 12 (CHR ''c'') @ '':hello'')
        (replicate 32 (CHR ''s'')) 0)"
proof -
  let ?m = "log_text (10 ^ 18) ''hello'' sample_log"
  have len: "length (encode ?m) \<le> 4096"
    using length_nanos [of "10 ^ 18"] by (simp add: log_text_def sample_log_def)
  have "connected (sl_writer sample_log)" "cl_sent (sl_writer sample_log) = []" "sl_cacheQueue sample_log = []"
    "12 \<le> length (sl_containerID sample_log)" "length (sl_serviceID sample_log) = 32"
    "take 12 (sl_containerID sample_log) = replicate 12 (CHR ''c'')"
    "sl_serviceID sample_log = replicate 32 (CHR ''s'')"
    by (simp_all add: sample_log_def connected_def)
  note facts = this
  have "\<forall>t \<in> set [(sample_write, [])]. goes_out (fst t)"
    by (simp add: sample_write_def goes_out_def)
  note sent = container_lines_reach_store [OF facts(1-5), of "[(10 ^ 18, ''hello'')]" "[(sample_write, [])]"
      "[[?m]]" 2048 2 "[]" "\<lambda>_. 0", OF _ _ _ this]
  show ?thesis
    using sent len facts(6,7) by (simp add: cacheQueueCap_def)
qed

theorem closed_connection_loses_message_witness:
  "\<exists>s'. send_turn sample_write [(None, [], None)]
      (sample_log\<lparr>sl_writer := client_Close (sl_writer sample_log), sl_cacheQueue := [''x'', ''y'']\<rparr>) = Some s' \<and>
    sl_cacheQueue s' = [''y''] \<and> cl_sent (sl_writer s') = []"
  using closed_connection_loses_message [of "sample_log\<lparr>sl_writer := client_Close (sl_writer sample_log),
      sl_cacheQueue := [''x'', ''y'']\<rparr>" "''x''" "[''y'']" sample_write "[(None, [], None)]"]
  by (simp add: client_IsClosed_def client_Close_def sample_log_def)

end
