(* ===== verification/Event_File.thy ===== *)
theory Event_File
  imports Event_Store
begin

text \<open>
  The files of operation logs (\<^verbatim>\<open>src/eventlog/db/event_file_plugin.go\<close>): every event has a file to which
  messages are appended, one line each, and from which they are read back with a level and a limit.

  \<open>parse_time\<close> stands for parsing a time stamp, \<open>to_int64\<close> for the conversion library that reads the
  time back. Reading lines follows \<^verbatim>\<open>bufio.Reader.ReadLine\<close> with its buffer of 4096 bytes. Messages of
  equal time come back in an unspecified order, so the properties speak of multisets.
\<close>

definition newline :: char where
  "newline = CHR 0x0A"

definition return_char :: char where
  "return_char = CHR 0x0D"

definition GetLevelFlag :: "string \<Rightarrow> int" where
  "GetLevelFlag level =
     (if level = ''error'' then 0 else if level = ''info'' then 1 else if level = ''debug'' then 2 else 0)"

definition CheckLevel :: "string \<Rightarrow> string \<Rightarrow> bool" where
  "CheckLevel flag level =
     (if flag = ''0'' then True
      else if flag = ''1'' then level \<noteq> ''error''
      else if flag = ''2'' then level = ''debug''
      else False)"

section \<open>Writing\<close>

text \<open>A message without a readable time gets the time of the one before it.\<close>

definition entry_line :: "int \<Rightarrow> int \<Rightarrow> string \<Rightarrow> string" where
  "entry_line flag t msg = go_itoa flag @ '' '' @ go_itoa t @ '' '' @ msg"

fun save_lines :: "(string \<Rightarrow> int) \<Rightarrow> int \<Rightarrow> event_message list \<Rightarrow> string" where
  "save_lines parse_time lastTime [] = []"
| "save_lines parse_time lastTime (e # es) =
     (let logtime = parse_time (em_Time e);
          lastTime' = (if logtime \<noteq> 0 then logtime else lastTime)
      in entry_line (GetLevelFlag (em_Level e)) lastTime' (em_Message e) @ [newline] @ save_lines parse_time lastTime' es)"

text \<open>The files, by event; a batch goes to the file of its first message.\<close>

definition SaveMessage :: "(string \<Rightarrow> int) \<Rightarrow> event_message list \<Rightarrow> string gomap \<Rightarrow> string gomap" where
  "SaveMessage parse_time events files = (case events of
       [] \<Rightarrow> files
     | e # _ \<Rightarrow> (let old = (case map_of files (em_EventID e) of None \<Rightarrow> [] | Some s \<Rightarrow> s)
                 in AList.update (em_EventID e) (old @ save_lines parse_time 0 events) files))"

section \<open>Reading\<close>

function read_lines :: "string \<Rightarrow> string list" where
  "read_lines s =
     (if s = [] then []
      else let l = takeWhile (\<lambda>c. c \<noteq> newline) s; k = length l
           in if k < 4096 \<and> k < length s
              then (if l \<noteq> [] \<and> last l = return_char then butlast l else l) # read_lines (drop (Suc k) s)
              else if k < 4096 then [l]
              else let chunk = take 4096 s
                   in if last chunk = return_char then butlast chunk # read_lines (drop 4095 s)
                      else chunk # read_lines (drop 4096 s))"
  by pat_completeness auto

termination
  by (relation "measure length") auto

declare read_lines.simps [simp del]

fun split_n :: "nat \<Rightarrow> char \<Rightarrow> string \<Rightarrow> string list" where
  "split_n 0 c s = []"
| "split_n (Suc 0) c s = [s]"
| "split_n (Suc (Suc n)) c s =
     (if c \<in> set s then takeWhile (\<lambda>x. x \<noteq> c) s # split_n (Suc n) c (tl (dropWhile (\<lambda>x. x \<noteq> c) s)) else [s])"

record message_data =
  md_Message :: string
  md_Unixtime :: int

definition parse_line :: "(string \<Rightarrow> int) \<Rightarrow> string \<Rightarrow> string \<Rightarrow> message_data option" where
  "parse_line to_int64 level line =
     (if length line > 2 \<and> CheckLevel [hd line] level then
        (let info = split_n 3 (CHR '' '') line
         in if length info = 3 then Some \<lparr>md_Message = info ! 2, md_Unixtime = to_int64 (info ! 1)\<rparr> else None)
      else None)"

fun collect_lines :: "(string \<Rightarrow> message_data option) \<Rightarrow> int \<Rightarrow> message_data list \<Rightarrow> string list \<Rightarrow> message_data list" where
  "collect_lines parse len acc [] = acc"
| "collect_lines parse len acc (l # ls) = (case parse l of
       None \<Rightarrow> collect_lines parse len acc ls
     | Some md \<Rightarrow>
         (let acc' = acc @ [md]
          in if int (length acc') > len \<and> len \<noteq> 0 then acc' else collect_lines parse len acc' ls))"

definition GetMessages :: "(string \<Rightarrow> int) \<Rightarrow> string \<Rightarrow> string \<Rightarrow> int \<Rightarrow> string gomap \<Rightarrow> message_data list" where
  "GetMessages to_int64 eventID level len files = (case map_of files eventID of
       None \<Rightarrow> []
     | Some content \<Rightarrow> sort_key md_Unixtime (collect_lines (parse_line to_int64 level) len [] (read_lines content)))"

section \<open>Lines survive\<close>

definition line_ok :: "string \<Rightarrow> bool" where
  "line_ok l \<longleftrightarrow> newline \<notin> set l \<and> length l < 4096 \<and> (l = [] \<or> last l \<noteq> return_char)"

lemma while_until:
  "c \<notin> set a \<Longrightarrow> takeWhile (\<lambda>x. x \<noteq> c) (a @ c # b) = a"
  "c \<notin> set a \<Longrightarrow> dropWhile (\<lambda>x. x \<noteq> c) (a @ c # b) = c # b"
  by (induction a) auto

lemma read_lines_Cons:
  assumes "line_ok l"
  shows "read_lines (l @ newline # rest) = l # read_lines rest"
proof -
  have tw: "takeWhile (\<lambda>c. c \<noteq> newline) (l @ newline # rest) = l"
    using assms by (simp add: line_ok_def while_until)
  show ?thesis
    using assms by (subst read_lines.simps) (auto simp: tw line_ok_def Let_def)
qed

lemma read_lines_Nil: "read_lines [] = []"
  by (simp add: read_lines.simps)

lemma split_n_once:
  "c \<notin> set a \<Longrightarrow> split_n (Suc (Suc n)) c (a @ c # b) = a # split_n (Suc n) c b"
  by (simp add: while_until)

lemma itoa_no_space: "c \<in> set (go_itoa i) \<Longrightarrow> c \<noteq> CHR '' '' \<and> c \<noteq> newline \<and> c \<noteq> return_char"
proof -
  have "char_digit c \<noteq> None \<Longrightarrow> c \<noteq> CHR '' '' \<and> c \<noteq> newline \<and> c \<noteq> return_char"
    by (auto simp: char_digit_def newline_def return_char_def)
  then show "c \<in> set (go_itoa i) \<Longrightarrow> c \<noteq> CHR '' '' \<and> c \<noteq> newline \<and> c \<noteq> return_char"
    using nat_str_digits by (auto simp: go_itoa_def newline_def return_char_def split: if_splits)
qed

lemma split_entry: "split_n 3 (CHR '' '') (entry_line f t m) = [go_itoa f, go_itoa t, m]"
proof -
  have "CHR '' '' \<notin> set (go_itoa i)" for i
    using itoa_no_space by blast
  then show ?thesis
    by (simp add: entry_line_def numeral_3_eq_3 split_n_once del: split_n.simps(3))
qed

lemma flag_char: "GetLevelFlag l \<in> {0, 1, 2}"
  by (simp add: GetLevelFlag_def)

lemma itoa_flag: "f \<in> {0, 1, 2 :: int} \<Longrightarrow> \<exists>c. go_itoa f = [c]"
  by (auto simp: go_itoa_def) (subst nat_str.simps, simp)+

lemma parse_entry:
  assumes "f \<in> {0, 1, 2 :: int}" "\<And>i. int64_range i \<Longrightarrow> to_int64 (go_itoa i) = i" "int64_range t"
  shows "parse_line to_int64 level (entry_line f t m) =
    (if CheckLevel (go_itoa f) level then Some \<lparr>md_Message = m, md_Unixtime = t\<rparr> else None)"
proof -
  obtain c where c: "go_itoa f = [c]"
    using itoa_flag [OF assms(1)] by blast
  have "go_itoa t \<noteq> []"
    by (simp add: go_itoa_def)
  then have "length (entry_line f t m) > 2" "hd (entry_line f t m) = c"
    by (cases "go_itoa t") (simp_all add: entry_line_def c)
  then show ?thesis
    using assms(2,3) by (simp add: parse_line_def split_entry Let_def c)
qed

text \<open>What a batch of messages stands for: flag, time and text of each.\<close>

fun entries :: "(string \<Rightarrow> int) \<Rightarrow> int \<Rightarrow> event_message list \<Rightarrow> (int \<times> int \<times> string) list" where
  "entries parse_time lastTime [] = []"
| "entries parse_time lastTime (e # es) =
     (let t = (if parse_time (em_Time e) \<noteq> 0 then parse_time (em_Time e) else lastTime)
      in (GetLevelFlag (em_Level e), t, em_Message e) # entries parse_time t es)"

definition entry_ok :: "int \<times> int \<times> string \<Rightarrow> bool" where
  "entry_ok x = (case x of (f, t, m) \<Rightarrow> newline \<notin> set m \<and> (m = [] \<or> last m \<noteq> return_char) \<and> length (entry_line f t m) < 4096 \<and> int64_range t)"

lemma entry_line_ok: "entry_ok (f, t, m) \<Longrightarrow> line_ok (entry_line f t m)"
  using itoa_no_space by (auto simp: entry_ok_def line_ok_def entry_line_def newline_def return_char_def)

lemma read_saved:
  assumes "\<forall>x \<in> set (entries parse_time t0 es). entry_ok x"
  shows "read_lines (save_lines parse_time t0 es @ rest) =
    map (\<lambda>(f, t, m). entry_line f t m) (entries parse_time t0 es) @ read_lines rest"
  using assms
proof (induction es arbitrary: t0)
  case (Cons e es)
  let ?t = "if parse_time (em_Time e) \<noteq> 0 then parse_time (em_Time e) else t0"
  have "line_ok (entry_line (GetLevelFlag (em_Level e)) ?t (em_Message e))"
    using Cons.prems entry_line_ok by (simp add: Let_def)
  then show ?case
    using Cons.IH [of ?t] Cons.prems by (simp add: Let_def read_lines_Cons)
qed simp

text \<open>The entries of a sequence of batches, and the file after it.\<close>

definition all_entries :: "(string \<Rightarrow> int) \<Rightarrow> event_message list list \<Rightarrow> (int \<times> int \<times> string) list" where
  "all_entries parse_time bs = concat (map (entries parse_time 0) bs)"

lemma read_batches:
  assumes "\<forall>x \<in> set (all_entries parse_time bs). entry_ok x"
  shows "read_lines (concat (map (save_lines parse_time 0) bs)) =
    map (\<lambda>(f, t, m). entry_line f t m) (all_entries parse_time bs)"
  using assms
proof (induction bs)
  case (Cons b bs)
  then have "\<forall>x \<in> set (entries parse_time 0 b). entry_ok x"
    by (auto simp: all_entries_def)
  then show ?case
    using Cons by (simp add: read_saved all_entries_def)
qed (simp add: read_lines_Nil all_entries_def)

lemma saved_file:
  assumes "\<forall>b \<in> set bs. b \<noteq> [] \<and> em_EventID (hd b) = k"
  shows "map_of (fold (SaveMessage parse_time) bs files) k =
    (if bs = [] then map_of files k
     else Some ((case map_of files k of None \<Rightarrow> [] | Some s \<Rightarrow> s) @ concat (map (save_lines parse_time 0) bs)))"
  using assms
proof (induction bs arbitrary: files)
  case (Cons b bs)
  then have b: "b \<noteq> []" "em_EventID (hd b) = k"
    by auto
  then have "map_of (SaveMessage parse_time b files) k =
      Some ((case map_of files k of None \<Rightarrow> [] | Some s \<Rightarrow> s) @ save_lines parse_time 0 b)"
    by (cases b) (simp_all add: SaveMessage_def update_conv')
  then show ?case
    using Cons by simp
qed simp

lemma entries_flag: "x \<in> set (entries parse_time t es) \<Longrightarrow> fst x \<in> {0, 1, 2}"
  by (induction es arbitrary: t) (auto simp: Let_def GetLevelFlag_def split: if_splits)

lemma parse_entries:
  assumes "\<And>i. int64_range i \<Longrightarrow> to_int64 (go_itoa i) = i" "\<forall>x \<in> set xs. fst x \<in> {0, 1, 2} \<and> int64_range (fst (snd x))"
  shows "List.map_filter (parse_line to_int64 level) (map (\<lambda>(f, t, m). entry_line f t m) xs) =
    map (\<lambda>(f, t, m). \<lparr>md_Message = m, md_Unixtime = t\<rparr>) (filter (\<lambda>x. CheckLevel (go_itoa (fst x)) level) xs)"
  using assms(2)
proof (induction xs)
  case (Cons x xs)
  obtain f t m where x: "x = (f, t, m)"
    by (cases x)
  have "parse_line to_int64 level (entry_line f t m) =
      (if CheckLevel (go_itoa f) level then Some \<lparr>md_Message = m, md_Unixtime = t\<rparr> else None)"
    using Cons.prems x by (intro parse_entry assms(1)) auto
  then show ?case
    using Cons x by (simp add: List.map_filter_simps)
qed (simp add: List.map_filter_simps)

lemma collect_lines_limit:
  "0 \<le> len \<Longrightarrow> (int (length acc) \<le> len \<or> len = 0) \<Longrightarrow>
   collect_lines parse len acc ls = (if len = 0 then acc @ List.map_filter parse ls
     else take (nat len + 1) (acc @ List.map_filter parse ls))"
proof (induction parse len acc ls rule: collect_lines.induct)
  case (2 parse len acc l ls)
  show ?case
  proof (cases "parse l")
    case (Some md)
    show ?thesis
    proof (cases "int (length (acc @ [md])) > len \<and> len \<noteq> 0")
      case True
      then have "nat len = length acc"
        using 2(4) by auto
      then show ?thesis
        using True Some by (simp add: List.map_filter_simps)
    qed (use 2 Some in \<open>auto simp: List.map_filter_simps Let_def\<close>)
  qed (use 2 in \<open>simp add: List.map_filter_simps\<close>)
qed (auto simp: List.map_filter_simps)

lemma GetMessages_saved:
  assumes "\<And>i. int64_range i \<Longrightarrow> to_int64 (go_itoa i) = i" and "0 \<le> len"
    and "bs \<noteq> []" "\<forall>b \<in> set bs. b \<noteq> [] \<and> em_EventID (hd b) = k" "map_of files k = None"
    and "\<forall>x \<in> set (all_entries parse_time bs). entry_ok x"
  shows "GetMessages to_int64 k level len (fold (SaveMessage parse_time) bs files) =
    sort_key md_Unixtime ((if len = 0 then id else take (nat len + 1))
      (map (\<lambda>(f, t, m). \<lparr>md_Message = m, md_Unixtime = t\<rparr>)
        (filter (\<lambda>x. CheckLevel (go_itoa (fst x)) level) (all_entries parse_time bs))))"
proof -
  have "fst x \<in> {0, 1, 2}" "int64_range (fst (snd x))" if "x \<in> set (all_entries parse_time bs)" for x
    using that entries_flag assms(6) by (fastforce simp: all_entries_def, fastforce simp: entry_ok_def)
  then have "\<forall>x \<in> set (all_entries parse_time bs). fst x \<in> {0, 1, 2} \<and> int64_range (fst (snd x))"
    by blast
  note parsed = parse_entries [OF assms(1) this]
  have "map_of (fold (SaveMessage parse_time) bs files) k = Some (concat (map (save_lines parse_time 0) bs))"
    using saved_file [OF assms(4), of parse_time files] assms(3,5) by simp
  then show ?thesis
    using assms(2) by (simp add: GetMessages_def read_batches [OF assms(6)] parsed collect_lines_limit)
qed

text \<open>
  C27: Operation logs survive the file: after any sequence of batches was appended for an event by writes that succeeded, reading
  them without a limit gives the messages that the level admits, with their times, sorted by time. This needs messages without
  a line break and without a carriage return at the end, lines of fewer than 4096 bytes, which is the reader's buffer, and times
  that fit into 64 bits, which the conversion library then reads back from their decimal form.
\<close>

theorem event_file_roundtrip:
  assumes "\<And>i. int64_range i \<Longrightarrow> to_int64 (go_itoa i) = i"
    and "bs \<noteq> []" "\<forall>b \<in> set bs. b \<noteq> [] \<and> em_EventID (hd b) = k" "map_of files k = None"
    and "\<forall>x \<in> set (all_entries parse_time bs). entry_ok x"
    and read: "got = GetMessages to_int64 k level 0 (fold (SaveMessage parse_time) bs files)"
  shows "mset (map (\<lambda>d. (md_Unixtime d, md_Message d)) got) =
      mset (map snd (filter (\<lambda>x. CheckLevel (go_itoa (fst x)) level) (all_entries parse_time bs))) \<and>
    sorted (map md_Unixtime got)"
proof -
  have got: "got = sort_key md_Unixtime (map (\<lambda>(f, t, m). \<lparr>md_Message = m, md_Unixtime = t\<rparr>)
      (filter (\<lambda>x. CheckLevel (go_itoa (fst x)) level) (all_entries parse_time bs)))"
    using GetMessages_saved [OF assms(1) _ assms(2-5), of 0 level] by (simp add: read)
  have "mset (map (\<lambda>d. (md_Unixtime d, md_Message d)) got) =
      mset (map ((\<lambda>d. (md_Unixtime d, md_Message d)) \<circ> (\<lambda>(f, t, m). \<lparr>md_Message = m, md_Unixtime = t\<rparr>))
        (filter (\<lambda>x. CheckLevel (go_itoa (fst x)) level) (all_entries parse_time bs)))"
    unfolding got by (simp add: image_mset.compositionality)
  also have "(\<lambda>d. (md_Unixtime d, md_Message d)) \<circ> (\<lambda>(f, t, m). \<lparr>md_Message = m, md_Unixtime = t :: int\<rparr>) = snd"
    by (auto simp: fun_eq_iff)
  finally show ?thesis
    by (simp add: got)
qed

text \<open>
  A limit of \<open>n\<close> gives \<open>n + 1\<close> messages when there are that many: the reader stops after it has
  exceeded the limit, not when it has reached it.
\<close>

theorem limit_exceeded_by_one:
  assumes "\<And>i. int64_range i \<Longrightarrow> to_int64 (go_itoa i) = i"
    and "bs \<noteq> []" "\<forall>b \<in> set bs. b \<noteq> [] \<and> em_EventID (hd b) = k" "map_of files k = None"
    and "\<forall>x \<in> set (all_entries parse_time bs). entry_ok x"
    and "0 < n" "n < length (filter (\<lambda>x. CheckLevel (go_itoa (fst x)) level) (all_entries parse_time bs))"
  shows "length (GetMessages to_int64 k level (int n) (fold (SaveMessage parse_time) bs files)) = n + 1"
  using GetMessages_saved [OF assms(1) _ assms(2-5), of "int n" level] assms(6,7) by simp

section \<open>Witnesses\<close>

text \<open>A reader of decimal integers, as the conversion library has it.\<close>

definition read_int :: "string \<Rightarrow> int" where
  "read_int s = (if s \<noteq> [] \<and> hd s = CHR ''-'' then - int (the (digits_val 0 (tl s))) else int (the (digits_val 0 s)))"

lemma read_int_itoa: "read_int (go_itoa i) = i"
  using nat_str_hd_not_sign [of "nat i"] by (simp add: read_int_def go_itoa_def digits_val_nat_str)

definition demo_batches :: "event_message list list" where
  "demo_batches = [[demo_message ''a'', demo_message ''b''], [demo_message ''c'']]"

lemma demo_batches_ok:
  "demo_batches \<noteq> []" "\<forall>b \<in> set demo_batches. b \<noteq> [] \<and> em_EventID (hd b) = ''e1''"
  "all_entries (\<lambda>_. 5) demo_batches = [(1, 5, ''a''), (1, 5, ''b''), (1, 5, ''c'')]"
  by (simp_all add: demo_batches_def demo_message_def all_entries_def GetLevelFlag_def)

lemma demo_entries_ok: "\<forall>x \<in> set (all_entries (\<lambda>_. 5) demo_batches). entry_ok x"
proof -
  have "length (go_itoa 1) = 1" "length (go_itoa 5) = 1"
    by (simp_all add: go_itoa_def) (subst nat_str.simps, simp)+
  then show ?thesis
    by (simp add: demo_batches_ok entry_ok_def entry_line_def newline_def return_char_def)
qed

lemma event_file_roundtrip_witness:
  "mset (map md_Message (GetMessages read_int ''e1'' ''debug'' 0 (fold (SaveMessage (\<lambda>_. 5)) demo_batches []))) =
     {#''a'', ''b'', ''c''#}"
proof -
  have "CheckLevel (go_itoa 1) ''debug''"
    by (simp add: go_itoa_def) (subst nat_str.simps, simp add: digit_char_def char_of_def bit_iff_odd CheckLevel_def)
  then have "mset (map (\<lambda>d. (md_Unixtime d, md_Message d))
      (GetMessages read_int ''e1'' ''debug'' 0 (fold (SaveMessage (\<lambda>_. 5)) demo_batches []))) =
      {#(5, ''a''), (5, ''b''), (5, ''c'')#}"
    using event_file_roundtrip [OF read_int_itoa demo_batches_ok(1,2) _ demo_entries_ok refl, of "[]" "''debug''"]
    by (simp add: demo_batches_ok)
  then have "image_mset snd (mset (map (\<lambda>d. (md_Unixtime d, md_Message d))
      (GetMessages read_int ''e1'' ''debug'' 0 (fold (SaveMessage (\<lambda>_. 5)) demo_batches [])))) = {#''a'', ''b'', ''c''#}"
    by simp
  then show ?thesis
    by (simp add: image_mset.compositionality comp_def)
qed

lemma limit_exceeded_by_one_witness:
  "length (GetMessages read_int ''e1'' ''debug'' (int 1) (fold (SaveMessage (\<lambda>_. 5)) demo_batches [])) = 1 + 1"
proof -
  have "CheckLevel (go_itoa 1) ''debug''"
    by (simp add: go_itoa_def) (subst nat_str.simps, simp add: digit_char_def char_of_def bit_iff_odd CheckLevel_def)
  then show ?thesis
    by (intro limit_exceeded_by_one [OF read_int_itoa demo_batches_ok(1,2) _ demo_entries_ok])
       (simp_all add: demo_batches_ok)
qed

end
