(* ===== verification/Third_Types.thy ===== *)
theory Third_Types
  imports Kube_Objects
begin

text \<open>
  The types of third-party components and the addresses of their endpoints
  (\<^verbatim>\<open>src/pkg/apis/wutong/v1alpha1/third_component.go\<close>, \<^verbatim>\<open>src/util/endpoint/validation.go\<close>).

  An endpoint address is a string: \<^verbatim>\<open>ip:port\<close>, or a host name, possibly with a scheme. \<open>ParseIP\<close> is the
  parser of the standard library for the textual forms of addresses, as 16 bytes. \<^verbatim>\<open>url.Parse\<close> is only
  called on strings that start with \<^verbatim>\<open>http://\<close> or \<^verbatim>\<open>https://\<close>; whether it accepts such a string is the
  argument \<open>url_ok\<close>, and its scheme is then the one in front.
\<close>

section \<open>IP addresses\<close>

definition hex_val :: "char \<Rightarrow> nat option" where
  "hex_val c = (let n = of_char c :: nat
     in if 48 \<le> n \<and> n \<le> 57 then Some (n - 48)
        else if 97 \<le> n \<and> n \<le> 102 then Some (n - 87)
        else if 65 \<le> n \<and> n \<le> 70 then Some (n - 55)
        else None)"

definition ipv4_field :: "string \<Rightarrow> nat option" where
  "ipv4_field s =
     (if s = [] \<or> (1 < length s \<and> hd s = CHR ''0'') then None
      else case digits_val 0 s of None \<Rightarrow> None | Some n \<Rightarrow> (if n \<le> 255 then Some n else None))"

definition parse_ipv4 :: "string \<Rightarrow> nat list option" where
  "parse_ipv4 s =
     (let fs = map ipv4_field (split_byte (CHR ''.'') s)
      in if length fs = 4 \<and> None \<notin> set fs then Some (map the fs) else None)"

text \<open>The hexadecimal digits at the front: how many, their value, and the rest; a group has at most four.\<close>

fun hex_field :: "nat \<Rightarrow> nat \<Rightarrow> string \<Rightarrow> (nat \<times> nat \<times> string) option" where
  "hex_field off acc [] = Some (off, acc, [])"
| "hex_field off acc (c # cs) = (case hex_val c of
       None \<Rightarrow> Some (off, acc, c # cs)
     | Some d \<Rightarrow> (if 3 < off then None else hex_field (Suc off) (16 * acc + d) cs))"

text \<open>Groups followed by colons; \<open>e\<close> is the place of the ellipsis. The end may be an IPv4 address.\<close>

function ipv6_loop :: "nat list \<Rightarrow> nat option \<Rightarrow> string \<Rightarrow> (nat list \<times> nat option \<times> string) option" where
  "ipv6_loop b e s =
     (if 16 \<le> length b then Some (b, e, s)
      else case hex_field 0 0 s of
        None \<Rightarrow> None
      | Some (off, acc, r) \<Rightarrow>
          (if off = 0 then None
           else if r \<noteq> [] \<and> hd r = CHR ''.'' then
             (if (e = None \<and> length b \<noteq> 12) \<or> 12 < length b then None
              else map_option (\<lambda>q. (b @ q, e, [])) (parse_ipv4 s))
           else let b' = b @ [acc div 256, acc mod 256]
                in if r = [] then Some (b', e, [])
                   else if hd r \<noteq> CHR '':'' \<or> tl r = [] then None
                   else if hd (tl r) = CHR '':'' then
                     (if e \<noteq> None then None
                      else if tl (tl r) = [] then Some (b', Some (length b'), [])
                      else ipv6_loop b' (Some (length b')) (tl (tl r)))
                   else ipv6_loop b' e (tl r)))"
  by pat_completeness auto

termination
  by (relation "measure (\<lambda>(b, e, s). 16 - length b)") auto

declare ipv6_loop.simps [simp del]

definition ipv6_expand :: "nat list \<times> nat option \<times> string \<Rightarrow> nat list option" where
  "ipv6_expand x = (let (b, e, s) = x
     in if s \<noteq> [] then None
        else if length b < 16 then map_option (\<lambda>k. take k b @ replicate (16 - length b) 0 @ drop k b) e
        else if e \<noteq> None then None else Some b)"

definition parse_ipv6 :: "string \<Rightarrow> nat list option" where
  "parse_ipv6 s =
     (if CHR ''%'' \<in> set s then None
      else if take 2 s = ''::'' then
        (if drop 2 s = [] then Some (replicate 16 0)
         else Option.bind (ipv6_loop [] (Some 0) (drop 2 s)) ipv6_expand)
      else Option.bind (ipv6_loop [] None s) ipv6_expand)"

definition ParseIP :: "string \<Rightarrow> nat list option" where
  "ParseIP s = (case filter (\<lambda>c. c \<in> {CHR ''.'', CHR '':'', CHR ''%''}) s of
       [] \<Rightarrow> None
     | c # _ \<Rightarrow> (if c = CHR ''.'' then map_option (\<lambda>q. replicate 10 0 @ [255, 255] @ q) (parse_ipv4 s)
                else if c = CHR '':'' then parse_ipv6 s else None))"

text \<open>\<^verbatim>\<open>IP.To4\<close> and the classes of addresses.\<close>

definition To4 :: "nat list \<Rightarrow> nat list option" where
  "To4 ip = (if take 12 ip = replicate 10 0 @ [255, 255] then Some (drop 12 ip) else None)"

definition IsUnspecified :: "nat list \<Rightarrow> bool" where
  "IsUnspecified ip \<longleftrightarrow> To4 ip = Some [0, 0, 0, 0] \<or> ip = replicate 16 0"

definition IsLoopback :: "nat list \<Rightarrow> bool" where
  "IsLoopback ip = (case To4 ip of Some q \<Rightarrow> q ! 0 = 127 | None \<Rightarrow> ip = replicate 15 0 @ [1])"

definition IsLinkLocalUnicast :: "nat list \<Rightarrow> bool" where
  "IsLinkLocalUnicast ip = (case To4 ip of
       Some q \<Rightarrow> q ! 0 = 169 \<and> q ! 1 = 254
     | None \<Rightarrow> ip ! 0 = 254 \<and> ip ! 1 div 64 = 2)"

definition IsLinkLocalMulticast :: "nat list \<Rightarrow> bool" where
  "IsLinkLocalMulticast ip = (case To4 ip of
       Some q \<Rightarrow> q ! 0 = 224 \<and> q ! 1 = 0 \<and> q ! 2 = 0
     | None \<Rightarrow> ip ! 0 = 255 \<and> ip ! 1 mod 16 = 2)"

definition ValidateEndpointIP :: "string \<Rightarrow> string list" where
  "ValidateEndpointIP a = (case ParseIP a of
       None \<Rightarrow> [a @ '' must be a valid IP address'']
     | Some ip \<Rightarrow>
         (if IsUnspecified ip then [a @ '' may not be unspecified (0.0.0.0)''] else []) @
         (if IsLoopback ip then [a @ '' may not be in the loopback range (127.0.0.0/8)''] else []) @
         (if IsLinkLocalUnicast ip then [a @ '' may not be in the link-local range (169.254.0.0/16)''] else []) @
         (if IsLinkLocalMulticast ip then [a @ '' may not be in the link-local multicast range (224.0.0.0/24)''] else []))"

definition IsDomainNotIP :: "string \<Rightarrow> bool" where
  "IsDomainNotIP address =
     (if address = ''1.1.1.1'' then True
      else let errs = ValidateEndpointIP address
           in if 0 < length errs then str_contains (hd errs) ''must be a valid IP address'' else False)"

section \<open>Endpoint addresses\<close>

definition ensureScheme :: "string \<Rightarrow> string" where
  "ensureScheme a = (if prefix ''http://'' a \<or> prefix ''https://'' a then a else ''http://'' @ a)"

definition url_scheme :: "string \<Rightarrow> string" where
  "url_scheme a = takeWhile (\<lambda>c. c \<noteq> CHR '':'') a"

definition addr_getIP :: "string \<Rightarrow> string" where
  "addr_getIP e = (let info = split_byte (CHR '':'') e in if length info = 2 then info ! 0 else [])"

definition addr_GetIP :: "string \<Rightarrow> string" where
  "addr_GetIP e = (let ip = addr_getIP e in if IsDomainNotIP ip then ''1.1.1.1'' else ip)"

definition addr_GetPort :: "(string \<Rightarrow> bool) \<Rightarrow> string \<Rightarrow> int" where
  "addr_GetPort url_ok e =
     (if \<not> IsDomainNotIP (addr_getIP e)
      then (let info = split_byte (CHR '':'') e in if length info = 2 then fst (go_atoi (info ! 1)) else 0)
      else let u = ensureScheme e
           in if \<not> url_ok u then 0 else if url_scheme u = ''https'' then 443 else 80)"

definition NewEndpointAddress :: "(string \<Rightarrow> bool) \<Rightarrow> string \<Rightarrow> int \<Rightarrow> string option" where
  "NewEndpointAddress url_ok host port =
     (if \<not> IsDomainNotIP host
      then (if ParseIP host = None then None
            else if port < 0 \<or> port > 65533 then None
            else Some (host @ '':'' @ go_itoa port))
      else (if \<not> url_ok (ensureScheme host) then None else Some host))"

section \<open>Components\<close>

record third_endpoint =
  te_Address :: string
  te_Name :: string

definition te_GetPort :: "third_endpoint \<Rightarrow> int" where
  "te_GetPort ep = (let arr = split_byte (CHR '':'') (te_Address ep)
     in if length arr \<noteq> 2 then 0 else fst (go_atoi (arr ! 1)))"

definition te_GetIP :: "third_endpoint \<Rightarrow> string" where
  "te_GetIP ep = (let arr = split_byte (CHR '':'') (te_Address ep) in if length arr \<noteq> 2 then [] else arr ! 0)"

record http_get =
  hg_Path :: string
  hg_HTTPHeaders :: "(string \<times> string) list"

record probe =
  pr_HTTPGet :: "http_get option"
  pr_TCPSocket :: bool
  TimeoutSeconds :: int
  PeriodSeconds :: int
  SuccessThreshold :: int
  FailureThreshold :: int

text \<open>The headers of the receiver become a map, in which a later value of a name wins.\<close>

definition HTTPGet_Equals :: "http_get option \<Rightarrow> http_get option \<Rightarrow> bool" where
  "HTTPGet_Equals x y = (case (x, y) of
       (None, None) \<Rightarrow> True
     | (Some a, Some b) \<Rightarrow>
         (if hg_Path a \<noteq> hg_Path b then False
          else if length (hg_HTTPHeaders a) \<noteq> length (hg_HTTPHeaders b) then False
          else let headers = foldl (\<lambda>m (k, v). AList.update k v m) [] (hg_HTTPHeaders a)
               in \<forall>(k, v) \<in> set (hg_HTTPHeaders b). map_of headers k = Some v)
     | _ \<Rightarrow> False)"

definition Probe_Equals :: "probe \<Rightarrow> probe \<Rightarrow> bool" where
  "Probe_Equals a b =
     (if TimeoutSeconds a \<noteq> TimeoutSeconds b then False
      else if PeriodSeconds a \<noteq> PeriodSeconds b then False
      else if SuccessThreshold a \<noteq> SuccessThreshold b then False
      else if FailureThreshold a \<noteq> FailureThreshold b then False
      else HTTPGet_Equals (pr_HTTPGet a) (pr_HTTPGet b))"

datatype endpoint_status = EndpointReady | EndpointNotReady | EndpointUnhealthy | EndpointNoStatus

record endpoint_st =
  es_Address :: string
  es_Name :: string
  es_TargetRef :: "string option"
  es_ServicePort :: int
  es_Status :: endpoint_status

record component_port =
  cp_Name :: string
  cp_Port :: int

text \<open>\<open>ks\<close>: namespace and name of the Kubernetes service that provides the endpoints.\<close>

record third_comp =
  tc_meta :: object_meta
  tc_Probe :: "probe option"
  tc_Ports :: "component_port list"
  tc_StaticEndpoints :: "third_endpoint list"
  tc_KubernetesService :: "(string \<times> string) option"
  tc_Phase :: component_phase
  tc_Reason :: string
  tc_Endpoints :: "endpoint_st list"

definition IsStaticEndpoints :: "third_comp \<Rightarrow> bool" where
  "IsStaticEndpoints c \<longleftrightarrow> 0 < length (tc_StaticEndpoints c)"

definition NeedProbe :: "third_comp \<Rightarrow> bool" where
  "NeedProbe c = (if tc_Probe c = None then False else IsStaticEndpoints c)"

definition GetEndpointID :: "third_comp \<Rightarrow> string \<Rightarrow> string" where
  "GetEndpointID c address = Namespace (tc_meta c) @ ''/'' @ Name (tc_meta c) @ ''/'' @ address"

section \<open>Addresses survive\<close>

text \<open>What an address is written with.\<close>

definition ip_char :: "char \<Rightarrow> bool" where
  "ip_char c \<longleftrightarrow> hex_val c \<noteq> None \<or> c = CHR ''.'' \<or> c = CHR '':''"

lemma digit_hex: "char_digit c = Some d \<Longrightarrow> hex_val c = Some d"
  by (auto simp: char_digit_def hex_val_def Let_def split: if_splits)

lemma digits_val_chars: "digits_val acc s = Some n \<Longrightarrow> c \<in> set s \<Longrightarrow> \<exists>d. char_digit c = Some d"
  by (induction s arbitrary: acc) (auto split: option.splits)

lemma ipv4_field_chars: "ipv4_field s = Some n \<Longrightarrow> c \<in> set s \<Longrightarrow> hex_val c \<noteq> None"
  using digits_val_chars [of 0 s _ c] digit_hex [of c]
  by (auto simp: ipv4_field_def split: if_splits option.splits)

lemma parse_ipv4_chars:
  assumes "parse_ipv4 s = Some q" "c \<in> set s"
  shows "hex_val c \<noteq> None \<or> c = CHR ''.''"
proof -
  have "c \<in> set (join_byte (CHR ''.'') (split_byte (CHR ''.'') s))"
    using assms(2) by (simp add: join_split_byte)
  then have "c = CHR ''.'' \<or> (\<exists>p \<in> set (split_byte (CHR ''.'') s). c \<in> set p)"
    using set_join_byte by fastforce
  moreover have "\<exists>n. ipv4_field p = Some n" if "p \<in> set (split_byte (CHR ''.'') s)" for p
  proof -
    have "None \<notin> ipv4_field ` set (split_byte (CHR ''.'') s)"
      using assms(1) by (auto simp: parse_ipv4_def Let_def split: if_splits)
    then show ?thesis
      using that by (metis image_eqI option.exhaust)
  qed
  ultimately show ?thesis
    using ipv4_field_chars by metis
qed

lemma hex_field_rest:
  "hex_field off acc s = Some (off', acc', r) \<Longrightarrow> \<exists>p. s = p @ r \<and> (\<forall>c \<in> set p. hex_val c \<noteq> None)"
proof (induction s arbitrary: off acc)
  case (Cons c s)
  show ?case
  proof (cases "hex_val c")
    case None
    then show ?thesis
      using Cons.prems by simp
  next
    case (Some d)
    then have "hex_field (Suc off) (16 * acc + d) s = Some (off', acc', r)"
      using Cons.prems by (simp split: if_splits)
    from Cons.IH [OF this] obtain p where p: "s = p @ r" "\<forall>c \<in> set p. hex_val c \<noteq> None"
      by blast
    with Some have "c # s = (c # p) @ r" "\<forall>x \<in> set (c # p). hex_val x \<noteq> None"
      by simp_all
    then show ?thesis
      by blast
  qed
qed simp

lemma ipv6_loop_chars:
  "ipv6_loop b e s = Some (b', e', []) \<Longrightarrow> c \<in> set s \<Longrightarrow> ip_char c"
proof (induction b e s arbitrary: c rule: ipv6_loop.induct)
  case (1 b e s)
  have len: "\<not> 16 \<le> length b"
    using "1.prems" by (auto simp: ipv6_loop.simps [of b e s])
  then obtain off acc r where h: "hex_field 0 0 s = Some (off, acc, r)"
    using "1.prems" by (cases "hex_field 0 0 s") (auto simp: ipv6_loop.simps [of b e s])
  obtain p where p: "s = p @ r" "\<forall>c \<in> set p. hex_val c \<noteq> None"
    using hex_field_rest [OF h] by blast
  have off: "off \<noteq> 0"
  proof
    assume "off = 0"
    then show False
      using "1.prems"(1) len h by (simp add: ipv6_loop.simps [of b e s])
  qed
  consider (v4) q where "parse_ipv4 s = Some q"
    | (fin) "r = []"
    | (last) "r = ''::''"
    | (ell) r' where "r = ''::'' @ r'" "ipv6_loop (b @ [acc div 256, acc mod 256]) (Some (length b + 2)) r' = Some (b', e', [])"
        "r' \<noteq> []" "e = None"
    | (more) r' where "r = '':'' @ r'" "r' \<noteq> []" "hd r' \<noteq> CHR '':''" "ipv6_loop (b @ [acc div 256, acc mod 256]) e r' = Some (b', e', [])"
  proof (cases "r \<noteq> [] \<and> hd r = CHR ''.''")
    case True
    then obtain q where "parse_ipv4 s = Some q"
      using "1.prems" len h off by (auto simp: ipv6_loop.simps [of b e s] split: if_splits)
    then show ?thesis
      by (rule v4)
  next
    case False
    note nodot = this
    show ?thesis
    proof (cases "r = []")
      case False
      then obtain x r1 where r: "r = x # r1"
        by (cases r) auto
      then have r1: "x = CHR '':''" "r1 \<noteq> []"
        using "1.prems" len h off nodot by (auto simp: ipv6_loop.simps [of b e s] Let_def split: if_splits)
      then obtain y r2 where r1': "r1 = y # r2"
        by (cases r1) auto
      show ?thesis
      proof (cases "y = CHR '':''")
        case True
        show ?thesis
        proof (cases "r2 = []")
          case True
          then show ?thesis
            using last r r1 r1' \<open>y = CHR '':''\<close> by simp
        next
          case False
          then show ?thesis
            using ell [of r2] "1.prems"(1) len h off nodot r r1 r1' \<open>y = CHR '':''\<close>
            by (simp add: ipv6_loop.simps [of b e s] Let_def split: if_splits)
        qed
      next
        case False
        then show ?thesis
          using more [of r1] "1.prems"(1) len h off nodot r r1 r1'
          by (simp add: ipv6_loop.simps [of b e s] Let_def split: if_splits)
      qed
    qed (rule fin)
  qed
  then show ?case
  proof cases
    case v4
    then show ?thesis
      using parse_ipv4_chars "1.prems"(2) by (auto simp: ip_char_def)
  next
    case fin
    then show ?thesis
      using p "1.prems"(2) by (auto simp: ip_char_def)
  next
    case last
    then show ?thesis
      using p "1.prems"(2) by (auto simp: ip_char_def)
  next
    case (ell r')
    then show ?thesis
      using p "1.prems"(2) "1.IH"(1) [OF len h refl refl off] by (auto simp: ip_char_def)
  next
    case (more r')
    then show ?thesis
      using p "1.prems"(2) "1.IH"(2) [OF len h refl refl off] by (auto simp: ip_char_def)
  qed
qed

lemma ipv6_expand_Some: "ipv6_expand x = Some ip \<Longrightarrow> snd (snd x) = []"
  by (auto simp: ipv6_expand_def Let_def split: if_splits prod.splits)

lemma ipv6_whole_chars:
  assumes "Option.bind (ipv6_loop [] e s) ipv6_expand = Some ip" "c \<in> set s"
  shows "ip_char c"
proof -
  obtain b' e' s' where z: "ipv6_loop [] e s = Some (b', e', s')" "ipv6_expand (b', e', s') = Some ip"
    using assms(1) by (cases "ipv6_loop [] e s") auto
  moreover have "s' = []"
    using ipv6_expand_Some [OF z(2)] by simp
  ultimately show ?thesis
    using ipv6_loop_chars assms(2) by blast
qed

lemma parse_ipv6_chars:
  assumes "parse_ipv6 s = Some ip" "c \<in> set s"
  shows "ip_char c"
proof (cases "take 2 s = ''::''")
  case True
  have "c \<in> set (take 2 s) \<or> c \<in> set (drop 2 s)"
    using assms(2) by (metis Un_iff append_take_drop_id set_append)
  moreover have "ip_char c" if "c \<in> set (drop 2 s)"
  proof -
    have "drop 2 s \<noteq> []"
      using that by auto
    then have "Option.bind (ipv6_loop [] (Some 0) (drop 2 s)) ipv6_expand = Some ip"
      using assms(1) True by (simp add: parse_ipv6_def split: if_splits)
    then show ?thesis
      using that by (rule ipv6_whole_chars)
  qed
  ultimately show ?thesis
    using True by (auto simp: ip_char_def)
next
  case False
  then have "Option.bind (ipv6_loop [] None s) ipv6_expand = Some ip"
    using assms(1) by (simp add: parse_ipv6_def split: if_splits)
  then show ?thesis
    using assms(2) by (rule ipv6_whole_chars)
qed

lemma ParseIP_chars:
  assumes "ParseIP s = Some ip" "c \<in> set s"
  shows "ip_char c"
proof -
  obtain x xs where x: "filter (\<lambda>c. c \<in> {CHR ''.'', CHR '':'', CHR ''%''}) s = x # xs"
    using assms(1) by (cases "filter (\<lambda>c. c \<in> {CHR ''.'', CHR '':'', CHR ''%''}) s") (auto simp: ParseIP_def)
  show ?thesis
  proof (cases "x = CHR ''.''")
    case True
    then obtain q where "parse_ipv4 s = Some q"
      using assms(1) x by (auto simp: ParseIP_def)
    then show ?thesis
      using parse_ipv4_chars assms(2) by (auto simp: ip_char_def)
  next
    case False
    then have "parse_ipv6 s = Some ip"
      using assms(1) x by (auto simp: ParseIP_def split: if_splits)
    then show ?thesis
      by (rule parse_ipv6_chars [OF _ assms(2)])
  qed
qed

text \<open>
  The test for domains looks for a text in the first error message; no other message has it, because a
  parsed address is written without letters beyond f.
\<close>

lemma IsDomainNotIP_iff: "IsDomainNotIP a \<longleftrightarrow> a = ''1.1.1.1'' \<or> ParseIP a = None"
proof (cases "ParseIP a")
  case None
  have "sublist ''must be a valid IP address'' (a @ '' must be a valid IP address'')"
    unfolding sublist_def by (intro exI [of _ "a @ '' ''"] exI [of _ "[]"]) simp
  with None show ?thesis
    by (simp add: IsDomainNotIP_def ValidateEndpointIP_def str_contains_def)
next
  case (Some ip)
  have no_v: "CHR ''v'' \<notin> set a"
    using ParseIP_chars [OF Some, of "CHR ''v''"] by (auto simp: ip_char_def hex_val_def Let_def)
  have "\<not> str_contains s ''must be a valid IP address''" if "CHR ''v'' \<notin> set s" for s
    using that set_mono_sublist [of "''must be a valid IP address''" s] by (auto simp: str_contains_def)
  moreover have "CHR ''v'' \<notin> set e" if "e \<in> set (ValidateEndpointIP a)" for e
    using that no_v by (auto simp: ValidateEndpointIP_def Some split: if_splits)
  ultimately show ?thesis
    using Some by (auto simp: IsDomainNotIP_def Let_def)
qed


lemma itoa_no_colon: "CHR '':'' \<notin> set (go_itoa i)"
  using nat_str_digits [of "CHR '':''"] by (auto simp: go_itoa_def char_digit_def)

lemma split_colon_length: "length (split_byte c (s @ c # t)) = length (split_byte c s) + length (split_byte c t)"
proof (induction s)
  case (Cons x s)
  then show ?case
    by (cases "split_byte c s"; cases "split_byte c (s @ c # t)") auto
qed simp

lemma split_byte_member: "c \<in> set s \<Longrightarrow> 2 \<le> length (split_byte c s)"
proof -
  assume "c \<in> set s"
  then obtain a b where "s = a @ c # b"
    by (meson split_list)
  moreover have "1 \<le> length (split_byte c x)" for x
    by (simp add: Suc_leI)
  note this [of a] this [of b]
  ultimately show ?thesis
    by (simp add: split_colon_length del: One_nat_def)
qed

text \<open>
  Making an endpoint address from an IP address and a port, and reading them back. The address is made
  exactly for ports from 0 to 65533, so the two highest ports are refused. An IPv4 address and its port
  are read back as they were; an IPv6 address is read back as the placeholder for domains.
\<close>

theorem endpoint_address_roundtrip:
  assumes ip: "ParseIP host \<noteq> None" "host \<noteq> ''1.1.1.1''"
  shows "case NewEndpointAddress url_ok host port of
      None \<Rightarrow> port < 0 \<or> 65533 < port
    | Some a \<Rightarrow> 0 \<le> port \<and> port \<le> 65533 \<and>
        (if CHR '':'' \<in> set host then addr_GetIP a = ''1.1.1.1''
         else addr_GetIP a = host \<and> addr_GetPort url_ok a = port)"
proof (cases "port < 0 \<or> 65533 < port")
  case True
  then show ?thesis
    using ip by (simp add: NewEndpointAddress_def IsDomainNotIP_iff)
next
  case False
  let ?a = "host @ '':'' @ go_itoa port"
  have a: "NewEndpointAddress url_ok host port = Some ?a"
    using ip False by (simp add: NewEndpointAddress_def IsDomainNotIP_iff)
  have digits: "split_byte (CHR '':'') (go_itoa port) = [go_itoa port]"
    by (rule split_byte_none [OF itoa_no_colon])
  show ?thesis
  proof (cases "CHR '':'' \<in> set host")
    case True
    then have "length (split_byte (CHR '':'') ?a) \<noteq> 2"
      using split_byte_member [OF True] split_colon_length [of "CHR '':''" host "go_itoa port"] by (simp add: digits)
    then have "addr_getIP ?a = []"
      by (simp add: addr_getIP_def)
    then show ?thesis
      using a False True by (simp add: addr_GetIP_def IsDomainNotIP_iff ParseIP_def)
  next
    case no: False
    then have parts: "split_byte (CHR '':'') (host @ CHR '':'' # go_itoa port) = [host, go_itoa port]"
      by (simp add: split_byte_append digits)
    have "go_atoi (go_itoa port) = (port, None)"
      using False by (intro go_atoi_itoa) simp
    then show ?thesis
      using a False no ip by (simp add: addr_GetIP_def addr_getIP_def addr_GetPort_def parts IsDomainNotIP_iff)
  qed
qed

text \<open>
  A static endpoint that names a host and a port loses the port: the address is the bare host, which
  is then read as port 80.
\<close>

theorem domain_port_dropped:
  assumes "te_Address ep = host @ '':'' @ go_itoa port" "CHR '':'' \<notin> set host" "ParseIP host = None"
    and "0 < port" "port \<le> 65535" "url_ok (''http://'' @ host)"
  shows "te_GetPort ep = port \<and> NewEndpointAddress url_ok (te_GetIP ep) (te_GetPort ep) = Some host \<and>
    addr_GetPort url_ok host = 80"
proof -
  have parts: "split_byte (CHR '':'') (te_Address ep) = [host, go_itoa port]"
    using assms(1,2) by (simp add: split_byte_append split_byte_none [OF itoa_no_colon])
  have "go_atoi (go_itoa port) = (port, None)"
    using assms(4,5) by (intro go_atoi_itoa) simp
  then have "te_GetPort ep = port" "te_GetIP ep = host"
    using parts by (simp_all add: te_GetPort_def te_GetIP_def)
  moreover have "\<not> prefix ''http://'' host" "\<not> prefix ''https://'' host"
    using assms(2) by (auto simp: prefix_def)
  then have "ensureScheme host = ''http://'' @ host"
    by (simp add: ensureScheme_def)
  moreover have "addr_getIP host = []"
    using split_byte_none [OF assms(2)] by (simp add: addr_getIP_def)
  ultimately show ?thesis
    using assms(3,6) by (simp add: NewEndpointAddress_def IsDomainNotIP_iff addr_GetPort_def ParseIP_def url_scheme_def)
qed

lemmas ip_eval = ParseIP_def parse_ipv4_def parse_ipv6_def ipv4_field_def char_digit_def hex_val_def
  ipv6_loop.simps ipv6_expand_def

lemma endpoint_address_roundtrip_witness:
  "case NewEndpointAddress (\<lambda>_. True) ''10.0.0.7'' 8080 of None \<Rightarrow> False
   | Some a \<Rightarrow> addr_GetIP a = ''10.0.0.7'' \<and> addr_GetPort (\<lambda>_. True) a = 8080"
proof -
  have "ParseIP ''10.0.0.7'' \<noteq> None"
    by (simp add: ip_eval)
  from endpoint_address_roundtrip [OF this, of 8080 "\<lambda>_. True"] show ?thesis
    by (auto split: option.splits)
qed

definition db_endpoint :: third_endpoint where
  "db_endpoint = \<lparr>te_Address = ''db.example:3306'', te_Name = []\<rparr>"

lemma domain_port_dropped_witness:
  "te_GetPort db_endpoint = 3306 \<and>
   NewEndpointAddress (\<lambda>_. True) (te_GetIP db_endpoint) (te_GetPort db_endpoint) = Some ''db.example'' \<and>
   addr_GetPort (\<lambda>_. True) ''db.example'' = 80"
proof (rule domain_port_dropped)
  have "go_itoa 3306 = ''3306''"
    by (simp add: go_itoa_def nat_str.simps digit_char_def char_of_def bit_iff_odd)
  then show "te_Address db_endpoint = ''db.example'' @ '':'' @ go_itoa 3306"
    by (simp add: db_endpoint_def)
qed (simp_all add: ip_eval)

end
