(* ===== verification/Prober.thy ===== *)
theory Prober
  imports Third_Types
begin

text \<open>
  Health checks of third-party endpoints
  (\<^verbatim>\<open>src/worker/master/controller/thirdcomponent/prober\<close>). A manager keeps one worker for each endpoint
  address; a worker probes its address periodically and publishes a result when it has come often enough
  in a row; the results cache reports changes.

  Every worker is a goroutine: \<open>pm_heap\<close> holds all workers ever started, \<open>pm_workers\<close> is the manager's
  map from addresses to workers. The HTTP and TCP probers are arguments (\<open>net\<close>): what the n-th attempt
  at a URL or address gives at that moment, with a flag for an error.
\<close>

section \<open>Results\<close>

datatype result = Unknown | Success | Failure

record results_manager =
  rm_cache :: "result gomap"
  rm_updates :: "(string \<times> result) list"

definition new_results :: results_manager where
  "new_results = \<lparr>rm_cache = [], rm_updates = []\<rparr>"

text \<open>A missing key reads as the zero value, which is \<open>Success\<close>.\<close>

definition rm_Get :: "string \<Rightarrow> results_manager \<Rightarrow> result \<times> bool" where
  "rm_Get i m = (case map_of (rm_cache m) i of None \<Rightarrow> (Success, False) | Some r \<Rightarrow> (r, True))"

definition setInternal :: "string \<Rightarrow> result \<Rightarrow> results_manager \<Rightarrow> results_manager \<times> bool" where
  "setInternal i r m =
     (if map_of (rm_cache m) i \<noteq> Some r then (m\<lparr>rm_cache := AList.update i r (rm_cache m)\<rparr>, True) else (m, False))"

definition rm_Set :: "string \<Rightarrow> result \<Rightarrow> results_manager \<Rightarrow> results_manager" where
  "rm_Set i r m = (let (m', changed) = setInternal i r m
     in if changed then m'\<lparr>rm_updates := rm_updates m' @ [(i, r)]\<rparr> else m')"

definition rm_Remove :: "string \<Rightarrow> results_manager \<Rightarrow> results_manager" where
  "rm_Remove i m = m\<lparr>rm_cache := AList.delete i (rm_cache m)\<rparr>"

text \<open>The contract of a results cache, which the workers rely on.\<close>

locale result_cache =
  fixes get :: "'m \<Rightarrow> string \<Rightarrow> result option"
    and put :: "string \<Rightarrow> result \<Rightarrow> 'm \<Rightarrow> 'm"
    and drop_result :: "string \<Rightarrow> 'm \<Rightarrow> 'm"
    and sent :: "'m \<Rightarrow> (string \<times> result) list"
  assumes get_put: "get (put i r m) j = (if i = j then Some r else get m j)"
    and get_drop: "get (drop_result i m) j = (if i = j then None else get m j)"
    and sent_put: "sent (put i r m) = sent m @ (if get m i = Some r then [] else [(i, r)])"
    and sent_drop: "sent (drop_result i m) = sent m"
begin

lemma get_puts: "get (fold (put i) rs m) i = (if rs = [] then get m i else Some (last rs))"
  by (induction rs arbitrary: m) (auto simp: get_put)

lemma get_puts_other: "i \<noteq> j \<Longrightarrow> get (fold (put i) rs m) j = get m j"
  by (induction rs arbitrary: m) (auto simp: get_put)

text \<open>Changes are reported once each: repetitions of a result are not sent.\<close>

lemma sent_puts:
  "sent (fold (put i) rs m) = sent m @ map (Pair i) (case get m i of None \<Rightarrow> remdups_adj rs | Some r \<Rightarrow> tl (remdups_adj (r # rs)))"
proof (induction rs arbitrary: m)
  case Nil
  then show ?case
    by (simp split: option.splits)
next
  case (Cons r rs)
  obtain t where t: "remdups_adj (r # rs) = r # t"
    by (metis list.exhaust_sel remdups_adj_Cons_alt)
  show ?case
    using Cons [of "put i r m"] t by (simp add: get_put sent_put split: option.splits)
qed

end

interpretation rm: result_cache "\<lambda>m. map_of (rm_cache m)" rm_Set rm_Remove rm_updates
proof
  fix i j r and m :: results_manager
  show "map_of (rm_cache (rm_Set i r m)) j = (if i = j then Some r else map_of (rm_cache m) j)"
    by (simp add: rm_Set_def setInternal_def update_conv')
  show "map_of (rm_cache (rm_Remove i m)) j = (if i = j then None else map_of (rm_cache m) j)"
    by (simp add: rm_Remove_def delete_conv')
  show "rm_updates (rm_Set i r m) = rm_updates m @ (if map_of (rm_cache m) i = Some r then [] else [(i, r)])"
    by (simp add: rm_Set_def setInternal_def)
  show "rm_updates (rm_Remove i m) = rm_updates m"
    by (simp add: rm_Remove_def)
qed

section \<open>One probe\<close>

datatype k8s_probe = KSuccess | KWarning | KFailure | KUnknown

record net =
  net_request_ok :: "string \<Rightarrow> bool"
  net_http :: "string \<Rightarrow> string list gomap \<Rightarrow> nat \<Rightarrow> k8s_probe \<times> bool"
  net_tcp :: "string \<Rightarrow> int \<Rightarrow> nat \<Rightarrow> k8s_probe \<times> bool"
  net_url_ok :: "string \<Rightarrow> bool"

definition buildHeader :: "(string \<times> string) list \<Rightarrow> string list gomap" where
  "buildHeader hs = foldl (\<lambda>m (k, v). gm_append k v m) [] hs"

text \<open>The path of the HTTP check is not used: the request goes to the address itself.\<close>

definition runProbe :: "net \<Rightarrow> probe \<Rightarrow> string \<Rightarrow> nat \<Rightarrow> k8s_probe \<times> bool" where
  "runProbe net p address i = (case pr_HTTPGet p of
       Some h \<Rightarrow>
         (if \<not> net_request_ok net (ensureScheme address) then (KUnknown, True)
          else net_http net (ensureScheme address) (buildHeader (hg_HTTPHeaders h)) i)
     | None \<Rightarrow>
         (if pr_TCPSocket p then net_tcp net (addr_GetIP address) (addr_GetPort (net_url_ok net) address) i
          else (KUnknown, True)))"

text \<open>At most \<open>retries\<close> attempts, until one gives no error; the last one counts.\<close>

fun runProbeWithRetries :: "net \<Rightarrow> probe \<Rightarrow> string \<Rightarrow> nat \<Rightarrow> nat \<Rightarrow> k8s_probe \<times> bool \<Rightarrow> k8s_probe \<times> bool" where
  "runProbeWithRetries net p address 0 i acc = acc"
| "runProbeWithRetries net p address (Suc n) i acc =
     (let r = runProbe net p address i
      in if \<not> snd r then r else runProbeWithRetries net p address n (Suc i) r)"

definition maxProbeRetries :: nat where
  "maxProbeRetries = 3"

definition probe_endpoint :: "net \<Rightarrow> probe option \<Rightarrow> string \<Rightarrow> result \<times> bool" where
  "probe_endpoint net spec address = (case spec of
       None \<Rightarrow> (Success, False)
     | Some p \<Rightarrow>
         (let (result, err) = runProbeWithRetries net p address maxProbeRetries 0 (KUnknown, False)
          in if err then (Failure, True) else if result \<noteq> KSuccess then (Failure, False) else (Success, False)))"

section \<open>Workers\<close>

text \<open>
  \<open>wk_stop\<close>: the stop channel holds a token. The specification is there: workers are only made for
  components with a probe. A worker that panics in a probe goes on as after an error.
\<close>

record worker =
  wk_component :: third_comp
  wk_address :: string
  wk_spec :: probe
  wk_lastResult :: result
  wk_resultRun :: int
  wk_stop :: bool
  wk_running :: bool

definition new_worker :: "third_comp \<Rightarrow> probe \<Rightarrow> endpoint_st \<Rightarrow> worker" where
  "new_worker c p ep = \<lparr>wk_component = c, wk_address = es_Address ep, wk_spec = p,
     wk_lastResult = Success, wk_resultRun = 0, wk_stop = False, wk_running = True\<rparr>"

abbreviation wk_id :: "worker \<Rightarrow> string" where
  "wk_id w \<equiv> GetEndpointID (wk_component w) (wk_address w)"

definition record_result :: "result \<Rightarrow> worker \<times> results_manager \<Rightarrow> worker \<times> results_manager" where
  "record_result r s =
     (let (w, m) = s;
          w1 = (if wk_lastResult w = r then w\<lparr>wk_resultRun := wrap64 (wk_resultRun w + 1)\<rparr>
                else w\<lparr>wk_lastResult := r, wk_resultRun := 1\<rparr>)
      in if (r = Failure \<and> wk_resultRun w1 < FailureThreshold (wk_spec w1)) \<or>
            (r = Success \<and> wk_resultRun w1 < SuccessThreshold (wk_spec w1))
         then (w1, m)
         else (w1, rm_Set (wk_id w1) r m))"

definition doProbe :: "net \<Rightarrow> worker \<times> results_manager \<Rightarrow> worker \<times> results_manager" where
  "doProbe net s =
     (let (r, err) = probe_endpoint net (Some (wk_spec (fst s))) (wk_address (fst s))
      in if err then s else record_result r s)"

section \<open>The manager\<close>

record prober_manager =
  pm_workers :: "nat gomap"
  pm_heap :: "worker list"
  pm_results :: results_manager

definition NewManager :: prober_manager where
  "NewManager = \<lparr>pm_workers = [], pm_heap = [], pm_results = new_results\<rparr>"

definition start_worker :: "worker \<Rightarrow> prober_manager \<Rightarrow> prober_manager" where
  "start_worker w m = m\<lparr>pm_heap := pm_heap m @ [w]\<rparr>"

definition stop_worker :: "nat \<Rightarrow> prober_manager \<Rightarrow> prober_manager" where
  "stop_worker i m = m\<lparr>pm_heap := (pm_heap m)[i := (pm_heap m ! i)\<lparr>wk_stop := True\<rparr>]\<rparr>"

text \<open>The state of the loop: the old workers not taken over yet, the new map, the manager.\<close>

definition add_endpoint ::
  "third_comp \<Rightarrow> probe \<Rightarrow> nat gomap \<times> nat gomap \<times> prober_manager \<Rightarrow> endpoint_st \<Rightarrow> nat gomap \<times> nat gomap \<times> prober_manager" where
  "add_endpoint c p s ep =
     (let (old, new, m) = s; key = es_Address ep
      in case map_of old key of
           Some i \<Rightarrow>
             (if Probe_Equals p (wk_spec (pm_heap m ! i)) then (AList.delete key old, AList.update key i new, m)
              else (old, AList.update key (length (pm_heap m)) new, start_worker (new_worker c p ep) m))
         | None \<Rightarrow> (old, AList.update key (length (pm_heap m)) new, start_worker (new_worker c p ep) m))"

definition AddThirdComponent :: "third_comp \<Rightarrow> prober_manager \<Rightarrow> prober_manager" where
  "AddThirdComponent c m =
     (if \<not> NeedProbe c then m
      else case tc_Probe c of
        None \<Rightarrow> m
      | Some p \<Rightarrow>
          (let (old, new, m1) = foldl (add_endpoint c p) (pm_workers m, [], m) (tc_Endpoints c)
           in (foldl (\<lambda>m (k, i). stop_worker i m) m1 old)\<lparr>pm_workers := new\<rparr>))"

definition pm_Stop :: "prober_manager \<Rightarrow> prober_manager" where
  "pm_Stop m = foldl (\<lambda>m (k, i). stop_worker i m) m (pm_workers m)"

definition GetResult :: "string \<Rightarrow> prober_manager \<Rightarrow> result \<times> bool" where
  "GetResult i m = rm_Get i (pm_results m)"

definition removeWorker :: "string \<Rightarrow> prober_manager \<Rightarrow> prober_manager" where
  "removeWorker address m = m\<lparr>pm_workers := AList.delete address (pm_workers m)\<rparr>"

text \<open>One round of a worker's loop, and its end, when it finds the token.\<close>

definition worker_tick :: "net \<Rightarrow> nat \<Rightarrow> prober_manager \<Rightarrow> prober_manager" where
  "worker_tick net i m = (let (w, rs) = doProbe net (pm_heap m ! i, pm_results m)
     in m\<lparr>pm_heap := (pm_heap m)[i := w], pm_results := rs\<rparr>)"

definition worker_exit :: "nat \<Rightarrow> prober_manager \<Rightarrow> prober_manager" where
  "worker_exit i m = (let w = pm_heap m ! i
     in removeWorker (wk_address w)
          (m\<lparr>pm_results := rm_Remove (wk_id w) (pm_results m), pm_heap := (pm_heap m)[i := w\<lparr>wk_running := False\<rparr>]\<rparr>))"

inductive pm_step :: "prober_manager \<Rightarrow> prober_manager \<Rightarrow> bool" where
  Add: "pm_step m (AddThirdComponent c m)"
| Tick: "i < length (pm_heap m) \<Longrightarrow> wk_running (pm_heap m ! i) \<Longrightarrow> pm_step m (worker_tick net i m)"
| Exit: "i < length (pm_heap m) \<Longrightarrow> wk_running (pm_heap m ! i) \<Longrightarrow> wk_stop (pm_heap m ! i) \<Longrightarrow> pm_step m (worker_exit i m)"
| Stop: "pm_step m (pm_Stop m)"

section \<open>What a worker publishes\<close>

text \<open>
  The reference: the results that were not errors, the length of the last run of equal results, and the
  prefixes after which that run had reached the threshold of its result.
\<close>

definition threshold :: "probe \<Rightarrow> result \<Rightarrow> int" where
  "threshold p r = (case r of Unknown \<Rightarrow> 0 | Success \<Rightarrow> SuccessThreshold p | Failure \<Rightarrow> FailureThreshold p)"

definition last_run :: "result list \<Rightarrow> nat" where
  "last_run rs = length (takeWhile (\<lambda>x. x = last rs) (rev rs))"

definition settled :: "probe \<Rightarrow> result list \<Rightarrow> result list" where
  "settled p rs = map last (filter (\<lambda>q. q \<noteq> [] \<and> threshold p (last q) \<le> int (last_run q)) (prefixes rs))"

definition outcomes :: "probe \<Rightarrow> string \<Rightarrow> net list \<Rightarrow> result list" where
  "outcomes p address nets =
     map fst (filter (\<lambda>x. \<not> snd x) (map (\<lambda>net. probe_endpoint net (Some p) address) nets))"

lemma prefixes_append1: "prefixes (xs @ [x]) = prefixes xs @ [xs @ [x]]"
  by (induction xs) simp_all

lemma settled_snoc:
  "settled p (rs @ [r]) = settled p rs @ (if threshold p r \<le> int (last_run (rs @ [r])) then [r] else [])"
  by (simp add: settled_def prefixes_append1)

lemma last_run_snoc: "last_run (rs @ [r]) = (if rs \<noteq> [] \<and> last rs = r then Suc (last_run rs) else 1)"
proof (cases rs rule: rev_cases)
  case (snoc ys y)
  then show ?thesis
    by (auto simp: last_run_def)
qed (simp add: last_run_def)

text \<open>The worker counts the last run, starting from the zero value.\<close>

definition tracks :: "result list \<Rightarrow> worker \<Rightarrow> bool" where
  "tracks rs w \<longleftrightarrow> (if rs = [] then wk_lastResult w = Success \<and> wk_resultRun w = 0
     else wk_lastResult w = last rs \<and> wk_resultRun w = int (last_run rs))"

lemma last_run_le: "last_run rs \<le> length rs"
  using length_takeWhile_le [of _ "rev rs"] by (simp add: last_run_def)

lemma record_result_step:
  assumes "tracks rs w" "int (length rs) < 9223372036854775807" "r \<noteq> Unknown"
  obtains w' where "record_result r (w, m) = (w', fold (rm_Set (wk_id w))
      (if threshold (wk_spec w) r \<le> int (last_run (rs @ [r])) then [r] else []) m)"
    and "tracks (rs @ [r]) w'" "wk_spec w' = wk_spec w" "wk_address w' = wk_address w" "wk_id w' = wk_id w"
proof -
  have "int (last_run rs) < 9223372036854775807"
    using last_run_le [of rs] assms(2) by linarith
  then have "wrap64 (wk_resultRun w + 1) = wk_resultRun w + 1"
    using assms(1) by (simp add: tracks_def split: if_splits)
  moreover define w' where "w' = (if wk_lastResult w = r then w\<lparr>wk_resultRun := wk_resultRun w + 1\<rparr>
     else w\<lparr>wk_lastResult := r, wk_resultRun := 1\<rparr>)"
  ultimately have rec: "record_result r (w, m) =
     (if wk_resultRun w' < threshold (wk_spec w') r then (w', m) else (w', rm_Set (wk_id w') r m))"
    using assms(3) by (cases r) (simp_all add: record_result_def threshold_def Let_def)
  have tr: "tracks (rs @ [r]) w'"
  proof (cases "rs = []")
    case True
    then show ?thesis
      using assms(1) by (simp add: w'_def tracks_def last_run_def)
  next
    case False
    then show ?thesis
      using assms(1) by (simp add: w'_def tracks_def last_run_snoc)
  qed
  then have "wk_resultRun w' = int (last_run (rs @ [r]))"
    by (simp add: tracks_def)
  moreover have keep: "wk_spec w' = wk_spec w" "wk_address w' = wk_address w" "wk_id w' = wk_id w"
    by (simp_all add: w'_def)
  ultimately have "record_result r (w, m) = (w', fold (rm_Set (wk_id w))
      (if threshold (wk_spec w) r \<le> int (last_run (rs @ [r])) then [r] else []) m)"
    using rec by simp
  then show thesis
    by (rule that) (fact tr keep)+
qed

lemma doProbe_eq:
  "probe_endpoint net (Some (wk_spec w)) (wk_address w) = (r, err) \<Longrightarrow>
     doProbe net (w, m) = (if err then (w, m) else record_result r (w, m))"
  by (simp add: doProbe_def)

lemma doProbe_run:
  assumes "int (length nets) < 9223372036854775807"
  shows "\<exists>w'. fold doProbe nets (new_worker c p ep, m) = (w', fold (rm_Set (wk_id (new_worker c p ep)))
      (settled p (outcomes p (es_Address ep) nets)) m) \<and>
    tracks (outcomes p (es_Address ep) nets) w' \<and> wk_spec w' = p \<and> wk_address w' = es_Address ep \<and>
    wk_id w' = wk_id (new_worker c p ep)"
  using assms
proof (induction nets rule: rev_induct)
  case Nil
  then show ?case
    by (simp add: outcomes_def settled_def tracks_def new_worker_def)
next
  case (snoc net nets)
  let ?rs = "outcomes p (es_Address ep) nets"
  have "int (length nets) < 9223372036854775807"
    using snoc.prems by simp
  from snoc.IH [OF this] obtain w' where w': "fold doProbe nets (new_worker c p ep, m) = (w', fold (rm_Set (wk_id (new_worker c p ep))) (settled p ?rs) m)"
      "tracks ?rs w'" "wk_spec w' = p" "wk_address w' = es_Address ep" "wk_id w' = wk_id (new_worker c p ep)"
    by blast
  obtain r err where pr: "probe_endpoint net (Some p) (es_Address ep) = (r, err)"
    by fastforce
  show ?case
  proof (cases err)
    case True
    then have "outcomes p (es_Address ep) (nets @ [net]) = ?rs"
      by (simp add: outcomes_def pr)
    then show ?thesis
      using w' pr True by (simp add: doProbe_eq)
  next
    case False
    have rs: "outcomes p (es_Address ep) (nets @ [net]) = ?rs @ [r]"
      using False by (simp add: outcomes_def pr)
    have "length ?rs \<le> length nets"
      by (simp add: outcomes_def order.trans [OF length_filter_le])
    then have len: "int (length ?rs) < 9223372036854775807"
      using snoc.prems by simp
    have known: "r \<noteq> Unknown"
      using pr by (auto simp: probe_endpoint_def Let_def split: if_splits prod.splits)
    obtain w2 where w2: "record_result r (w', fold (rm_Set (wk_id (new_worker c p ep))) (settled p ?rs) m) =
        (w2, fold (rm_Set (wk_id w')) (if threshold (wk_spec w') r \<le> int (last_run (?rs @ [r])) then [r] else [])
          (fold (rm_Set (wk_id (new_worker c p ep))) (settled p ?rs) m))"
      "tracks (?rs @ [r]) w2" "wk_spec w2 = wk_spec w'" "wk_address w2 = wk_address w'" "wk_id w2 = wk_id w'"
      using record_result_step [OF w'(2) len known] by metis
    then show ?thesis
      using w' pr False rs by (simp add: doProbe_eq settled_snoc)
  qed
qed

text \<open>
  C18: The published result of an endpoint is the last one whose run reached its threshold, errors left out,
  and the changes reported to the controller are exactly the changes of that value, in order. This holds
  for every run of a fresh worker of fewer than 2 to the 63 probes.
\<close>

theorem published_results_exact:
  assumes "int (length nets) < 9223372036854775807"
    and "fold doProbe nets (new_worker c p ep, new_results) = (w, m)"
  shows "map_of (rm_cache m) (GetEndpointID c (es_Address ep)) =
      (let s = settled p (outcomes p (es_Address ep) nets) in if s = [] then None else Some (last s)) \<and>
    rm_updates m = map (Pair (GetEndpointID c (es_Address ep))) (remdups_adj (settled p (outcomes p (es_Address ep) nets)))"
proof -
  have "m = fold (rm_Set (GetEndpointID c (es_Address ep))) (settled p (outcomes p (es_Address ep) nets)) new_results"
    using doProbe_run [OF assms(1), of c p ep new_results] assms(2) by (auto simp: new_worker_def)
  moreover have "map_of (rm_cache new_results) i = None" "rm_updates new_results = []" for i
    by (simp_all add: new_results_def)
  ultimately show ?thesis
    using rm.get_puts [of "GetEndpointID c (es_Address ep)" "settled p (outcomes p (es_Address ep) nets)" new_results]
      rm.sent_puts [of "GetEndpointID c (es_Address ep)" "settled p (outcomes p (es_Address ep) nets)" new_results]
    by (simp add: Let_def)
qed

section \<open>One worker for each endpoint\<close>

text \<open>A worker is active at an address when it runs and was not told to stop.\<close>

definition act :: "prober_manager \<Rightarrow> nat \<Rightarrow> string \<Rightarrow> bool" where
  "act m i a \<longleftrightarrow> i < length (pm_heap m) \<and> wk_running (pm_heap m ! i) \<and> \<not> wk_stop (pm_heap m ! i) \<and>
     wk_address (pm_heap m ! i) = a"

text \<open>The active workers are those of the two maps, which do not share any.\<close>

definition covered :: "prober_manager \<Rightarrow> nat gomap \<Rightarrow> nat gomap \<Rightarrow> bool" where
  "covered m old new \<longleftrightarrow> gm_wf old \<and> gm_wf new \<and>
     (\<forall>i a. act m i a \<longleftrightarrow> map_of new a = Some i \<or> map_of old a = Some i) \<and>
     (\<forall>i a. map_of old a = Some i \<longrightarrow> map_of new a \<noteq> Some i)"

definition pm_inv :: "prober_manager \<Rightarrow> bool" where
  "pm_inv m \<longleftrightarrow> covered m [] (pm_workers m)"

lemma coveredD:
  assumes "covered m old new"
  shows "gm_wf old" "gm_wf new" "act m i a \<longleftrightarrow> map_of new a = Some i \<or> map_of old a = Some i"
    and "map_of old a = Some i \<Longrightarrow> map_of new a \<noteq> Some i"
  using assms unfolding covered_def by blast+

lemma act_start: "act (start_worker w m) i a \<longleftrightarrow>
    act m i a \<or> (i = length (pm_heap m) \<and> wk_running w \<and> \<not> wk_stop w \<and> wk_address w = a)"
  by (auto simp: act_def start_worker_def nth_append)

lemma act_unique: "act m i a \<Longrightarrow> act m i b \<Longrightarrow> a = b"
  by (simp add: act_def)

lemma covered_start:
  assumes cov: "covered m old new" and new: "map_of new (es_Address ep) = None"
  shows "covered (start_worker (new_worker c p ep) m) old (AList.update (es_Address ep) (length (pm_heap m)) new)"
proof -
  let ?n = "length (pm_heap m)" and ?k = "es_Address ep"
  have fresh: "map_of old a \<noteq> Some ?n" "map_of new a \<noteq> Some ?n" for a
    using coveredD(3) [OF cov, where i = "?n" and a = a] by (auto simp: act_def)
  have "act (start_worker (new_worker c p ep) m) i a \<longleftrightarrow>
      map_of (AList.update ?k ?n new) a = Some i \<or> map_of old a = Some i" for i a
    using coveredD(3) [OF cov, where i = i and a = a] new fresh(1) by (auto simp: act_start new_worker_def update_conv')
  moreover have "map_of (AList.update ?k ?n new) a \<noteq> Some i" if "map_of old a = Some i" for i a
    using coveredD(4) [OF cov that] fresh(1) [of a] that by (auto simp: update_conv')
  ultimately show ?thesis
    using coveredD(1,2) [OF cov] by (simp add: covered_def)
qed

lemma covered_take:
  assumes cov: "covered m old new" and old: "map_of old k = Some i" and new: "map_of new k = None"
  shows "covered m (AList.delete k old) (AList.update k i new)"
proof -
  have "act m j a \<longleftrightarrow> map_of (AList.update k i new) a = Some j \<or> map_of (AList.delete k old) a = Some j" for j a
    using coveredD(3) [OF cov, where i = j and a = a] old new by (auto simp: update_conv' delete_conv')
  moreover have "map_of (AList.update k i new) a \<noteq> Some j" if "map_of (AList.delete k old) a = Some j" for j a
    using coveredD(4) [OF cov, where i = j and a = a] that by (auto simp: update_conv' delete_conv' split: if_splits)
  ultimately show ?thesis
    using coveredD(1,2) [OF cov] by (simp add: covered_def distinct_delete)
qed

text \<open>The loop over the endpoints: it keeps the cover and enters one worker for each address.\<close>

lemma add_endpoint_step:
  assumes cov: "covered m old new" and new: "map_of new (es_Address ep) = None"
    and step: "add_endpoint c p (old, new, m) ep = (old', new', m')"
  shows "covered m' old' new'" "dom (map_of new') = insert (es_Address ep) (dom (map_of new))"
proof -
  let ?k = "es_Address ep"
  consider (take) i where "map_of old ?k = Some i" "old' = AList.delete ?k old" "new' = AList.update ?k i new" "m' = m"
    | (start) "old' = old" "new' = AList.update ?k (length (pm_heap m)) new" "m' = start_worker (new_worker c p ep) m"
  proof (cases "map_of old ?k")
    case None
    then show ?thesis
      using step start by (simp add: add_endpoint_def)
  next
    case (Some i)
    show ?thesis
    proof (cases "Probe_Equals p (wk_spec (pm_heap m ! i))")
      case True
      then show ?thesis
        by (intro take [OF Some]) (use step Some True in \<open>simp_all add: add_endpoint_def Let_def\<close>)
    next
      case False
      then show ?thesis
        by (intro start) (use step Some False in \<open>simp_all add: add_endpoint_def Let_def\<close>)
    qed
  qed
  then have "covered m' old' new' \<and> dom (map_of new') = insert ?k (dom (map_of new))"
  proof cases
    case take
    then show ?thesis
      using covered_take [OF cov _ new] by (simp add: update_conv')
  next
    case start
    then show ?thesis
      using covered_start [OF cov new] by (simp add: update_conv')
  qed
  then show "covered m' old' new'" "dom (map_of new') = insert ?k (dom (map_of new))"
    by simp_all
qed

lemma add_endpoint_loop:
  assumes "covered m old new" "distinct (map es_Address eps)"
    and "\<And>ep. ep \<in> set eps \<Longrightarrow> map_of new (es_Address ep) = None"
    and "foldl (add_endpoint c p) (old, new, m) eps = (old', new', m')"
  shows "covered m' old' new' \<and> dom (map_of new') = es_Address ` set eps \<union> dom (map_of new)"
  using assms
proof (induction eps arbitrary: old new m)
  case (Cons ep eps)
  obtain o1 n1 m1 where s1: "add_endpoint c p (old, new, m) ep = (o1, n1, m1)"
    using prod_cases3 by blast
  have new: "map_of new (es_Address ep) = None"
    using Cons.prems(3) by simp
  note step = add_endpoint_step [OF Cons.prems(1) new s1]
  have "map_of n1 (es_Address e) = None" if "e \<in> set eps" for e
  proof -
    have "es_Address e \<notin> dom (map_of new)" "es_Address e \<noteq> es_Address ep"
      using that Cons.prems(2) Cons.prems(3) [of e] by (simp_all add: domIff) (metis image_eqI)
    then show ?thesis
      using step(2) by (metis domIff insert_iff)
  qed
  moreover have "distinct (map es_Address eps)" "foldl (add_endpoint c p) (o1, n1, m1) eps = (old', new', m')"
    using Cons.prems(2,4) s1 by simp_all
  ultimately show ?case
    using Cons.IH [OF step(1)] step(2) by auto
qed auto

lemma act_stop: "act (stop_worker j m) i a \<longleftrightarrow> act m i a \<and> i \<noteq> j"
  by (cases "i = j") (auto simp: act_def stop_worker_def)

lemma act_stop_all:
  "act (foldl (\<lambda>m (k, i). stop_worker i m) m xs) i a \<longleftrightarrow> act m i a \<and> i \<notin> snd ` set xs"
  by (induction xs arbitrary: m) (auto simp: act_stop)

lemma act_workers [simp]: "act (m\<lparr>pm_workers := w\<rparr>) = act m"
  by (intro ext) (simp add: act_def)

lemma AddThirdComponent_covers:
  assumes inv: "pm_inv m" and need: "NeedProbe c" and dist: "distinct (map es_Address (tc_Endpoints c))"
  shows "pm_inv (AddThirdComponent c m)"
    and "dom (map_of (pm_workers (AddThirdComponent c m))) = es_Address ` set (tc_Endpoints c)"
proof -
  obtain p where p: "tc_Probe c = Some p"
    using need by (auto simp: NeedProbe_def split: if_splits)
  obtain old new m1 where loop: "foldl (add_endpoint c p) (pm_workers m, [], m) (tc_Endpoints c) = (old, new, m1)"
    using prod_cases3 by blast
  have "covered m (pm_workers m) []"
    using inv by (auto simp: pm_inv_def covered_def)
  from add_endpoint_loop [OF this dist _ loop]
  have cov: "covered m1 old new" and dom: "dom (map_of new) = es_Address ` set (tc_Endpoints c)"
    by simp_all
  let ?m = "(foldl (\<lambda>m (k, i). stop_worker i m) m1 old)\<lparr>pm_workers := new\<rparr>"
  have m: "AddThirdComponent c m = ?m"
    using need p loop by (simp add: AddThirdComponent_def)
  have "act ?m i a \<longleftrightarrow> map_of new a = Some i" for i a
  proof -
    have "i \<in> snd ` set old \<longleftrightarrow> (\<exists>b. map_of old b = Some i)"
      using coveredD(1) [OF cov] by (force simp: map_of_eq_Some_iff)
    moreover have "b = a" if "map_of old b = Some i" "act m1 i a" for b
      using that coveredD(3) [OF cov, where i = i and a = b] act_unique by blast
    ultimately show ?thesis
      using coveredD(3) [OF cov, where i = i and a = a] coveredD(4) [OF cov, where i = i and a = a]
      by (auto simp: act_stop_all)
  qed
  then show "pm_inv (AddThirdComponent c m)"
    unfolding m pm_inv_def covered_def using coveredD(2) [OF cov] by simp
  show "dom (map_of (pm_workers (AddThirdComponent c m))) = es_Address ` set (tc_Endpoints c)"
    unfolding m using dom by simp
qed

text \<open>
  Orderly runs: components have distinct addresses, and a worker that was told to stop ends before the
  manager has a new one for its address.
\<close>

inductive orderly :: "prober_manager \<Rightarrow> prober_manager \<Rightarrow> bool" where
  OAdd: "distinct (map es_Address (tc_Endpoints c)) \<Longrightarrow> orderly m (AddThirdComponent c m)"
| OTick: "i < length (pm_heap m) \<Longrightarrow> wk_running (pm_heap m ! i) \<Longrightarrow> orderly m (worker_tick net i m)"
| OExit: "i < length (pm_heap m) \<Longrightarrow> wk_running (pm_heap m ! i) \<Longrightarrow> wk_stop (pm_heap m ! i) \<Longrightarrow>
    map_of (pm_workers m) (wk_address (pm_heap m ! i)) = None \<Longrightarrow> orderly m (worker_exit i m)"

lemma doProbe_keeps:
  "doProbe net (w, rs) = (w', rs') \<Longrightarrow>
     wk_running w' = wk_running w \<and> wk_stop w' = wk_stop w \<and> wk_address w' = wk_address w"
  by (auto simp: doProbe_def record_result_def Let_def split: if_splits prod.splits)

lemma act_tick: "act (worker_tick net i m) = act m"
proof (intro ext)
  fix j a
  obtain w rs where w: "doProbe net (pm_heap m ! i, pm_results m) = (w, rs)"
    by fastforce
  then show "act (worker_tick net i m) j a = act m j a"
    using doProbe_keeps [OF w] by (cases "i = j") (auto simp: act_def worker_tick_def)
qed

lemma pm_workers_tick: "pm_workers (worker_tick net i m) = pm_workers m"
  by (simp add: worker_tick_def Let_def split: prod.splits)

lemma act_exit: "act (worker_exit i m) j a \<longleftrightarrow> act m j a \<and> i \<noteq> j"
  by (cases "i = j") (auto simp: act_def worker_exit_def removeWorker_def Let_def)

lemma orderly_inv:
  assumes "orderly m m'" "pm_inv m"
  shows "pm_inv m'"
  using assms
proof cases
  case (OAdd c)
  then show ?thesis
    using AddThirdComponent_covers(1) [of m c] assms(2) by (cases "NeedProbe c") (auto simp: AddThirdComponent_def)
next
  case (OTick i net)
  then show ?thesis
    using assms(2) by (simp add: pm_inv_def covered_def act_tick pm_workers_tick)
next
  case (OExit i)
  have w: "pm_workers m' = AList.delete (wk_address (pm_heap m ! i)) (pm_workers m)"
    using OExit by (simp add: worker_exit_def removeWorker_def Let_def)
  have "map_of (pm_workers m') = map_of (pm_workers m)"
    using OExit(5) w by (auto simp: delete_conv')
  moreover have "\<not> act m i a" for a
    using OExit by (simp add: act_def)
  then have "act m' = act m"
    using OExit(1) by (intro ext) (auto simp: act_exit)
  ultimately show ?thesis
    using assms(2) w by (simp add: pm_inv_def covered_def distinct_delete)
qed

lemma orderly_run: "orderly\<^sup>*\<^sup>* NewManager m \<Longrightarrow> pm_inv m"
proof (induction rule: rtranclp_induct)
  case base
  then show ?case
    by (simp add: NewManager_def pm_inv_def covered_def act_def)
qed (rule orderly_inv)

text \<open>
  In an orderly run, in which no worker ends while its address is registered again, the manager is not
  stopped and the endpoints of a component have different addresses, the following holds: after the manager has
  been given a component with a probe, exactly one worker is active for every endpoint address of the
  component, the one in the manager's map, and none for any other address.
\<close>

theorem probers_exact:
  assumes "orderly\<^sup>*\<^sup>* NewManager m" "NeedProbe c" "distinct (map es_Address (tc_Endpoints c))"
    and m': "m' = AddThirdComponent c m"
  shows "if a \<in> es_Address ` set (tc_Endpoints c)
    then \<exists>i. map_of (pm_workers m') a = Some i \<and> {j. act m' j a} = {i}
    else {j. act m' j a} = {}"
proof -
  note add = AddThirdComponent_covers [OF orderly_run [OF assms(1)] assms(2,3), folded m']
  have "act m' j a \<longleftrightarrow> map_of (pm_workers m') a = Some j" for j
    using add(1) by (simp add: pm_inv_def covered_def)
  moreover have "a \<in> es_Address ` set (tc_Endpoints c) \<longleftrightarrow> map_of (pm_workers m') a \<noteq> None"
    using add(2) by (simp add: domIff flip: add(2))
  ultimately show ?thesis
    by auto
qed

lemma registered_act: "pm_inv m \<Longrightarrow> (k, j) \<in> set (pm_workers m) \<Longrightarrow> act m j k"
  by (simp add: pm_inv_def covered_def)

lemma stop_all_heap:
  "length (pm_heap (foldl (\<lambda>m (k, i). stop_worker i m) u xs)) = length (pm_heap u)"
  "wk_running (pm_heap (foldl (\<lambda>m (k, i). stop_worker i m) u xs) ! j) = wk_running (pm_heap u ! j)"
  "wk_address (pm_heap (foldl (\<lambda>m (k, i). stop_worker i m) u xs) ! j) = wk_address (pm_heap u ! j)"
proof -
  have eq: "f (pm_heap (stop_worker l u) ! j) = f (pm_heap u ! j)"
    if "\<And>w :: worker. f (w\<lparr>wk_stop := True\<rparr>) = f w" for f :: "worker \<Rightarrow> 'b" and l u
  proof (cases "l = j \<and> j < length (pm_heap u)")
    case True
    then show ?thesis
      using that by (simp add: stop_worker_def)
  next
    case False
    then have "(pm_heap u)[l := x] ! j = pm_heap u ! j" for x
      by (metis linorder_not_less list_update_beyond nth_list_update_neq)
    then show ?thesis
      by (simp add: stop_worker_def)
  qed
  have one: "length (pm_heap (stop_worker l u)) = length (pm_heap u)"
      "wk_running (pm_heap (stop_worker l u) ! j) = wk_running (pm_heap u ! j)"
      "wk_address (pm_heap (stop_worker l u) ! j) = wk_address (pm_heap u ! j)" for l u
    by (simp add: stop_worker_def, rule eq, simp, rule eq, simp)
  show "length (pm_heap (foldl (\<lambda>m (k, i). stop_worker i m) u xs)) = length (pm_heap u)"
    "wk_running (pm_heap (foldl (\<lambda>m (k, i). stop_worker i m) u xs) ! j) = wk_running (pm_heap u ! j)"
    "wk_address (pm_heap (foldl (\<lambda>m (k, i). stop_worker i m) u xs) ! j) = wk_address (pm_heap u ! j)"
    by (induction xs arbitrary: u) (auto simp: one)
qed

text \<open>
  C26: The end of a replaced worker takes its successor with it: when the specification of a component
  changes, the old worker is told to stop, and when it ends it removes the entry of its address, which by
  now is the new worker, and the result of that address. The new worker goes on unregistered, the
  manager cannot stop it any more, and the next update starts a second one beside it.
\<close>

theorem replaced_worker_removes_successor:
  assumes "pm_inv m" "map_of (pm_workers m) (es_Address ep) = Some i" "NeedProbe c" "tc_Endpoints c = [ep]"
    and "tc_Probe c = Some p" "\<not> Probe_Equals p (wk_spec (pm_heap m ! i))"
    and m1: "m1 = AddThirdComponent c m" and m2: "m2 = worker_exit i m1" and m3: "m3 = AddThirdComponent c m2"
  shows "pm_step m1 m2 \<and> map_of (pm_workers m2) (es_Address ep) = None \<and>
    act m2 (length (pm_heap m)) (es_Address ep) \<and>
    act m3 (length (pm_heap m)) (es_Address ep) \<and> act m3 (length (pm_heap m2)) (es_Address ep) \<and>
    length (pm_heap m) < length (pm_heap m2)"
proof -
  let ?a = "es_Address ep" and ?n = "length (pm_heap m)" and ?w = "new_worker c p ep"
  have i: "act m i ?a"
    using assms(1,2) by (simp add: pm_inv_def covered_def)
  then have lt: "i < ?n"
    by (simp add: act_def)
  have "AddThirdComponent c m = (foldl (\<lambda>m (k, i). stop_worker i m) (start_worker ?w m) (pm_workers m))\<lparr>pm_workers := [(?a, ?n)]\<rparr>"
    using assms(2-6) by (simp add: AddThirdComponent_def add_endpoint_def Let_def)
  note m1' = m1 [unfolded this]
  have ids: "i \<in> snd ` set (pm_workers m)" "?n \<notin> snd ` set (pm_workers m)"
    using map_of_SomeD [OF assms(2)] registered_act [OF assms(1)] by (force simp: act_def)+
  have old: "wk_running (pm_heap m1 ! i)" "wk_address (pm_heap m1 ! i) = ?a" "\<not> act m1 i ?a" "i < length (pm_heap m1)"
    using i lt stop_all_heap [of "start_worker ?w m" "pm_workers m"] ids(1)
    by (simp_all add: m1' act_stop_all) (auto simp: act_def start_worker_def nth_append)
  then have "pm_step m1 m2"
    unfolding m2 by (intro Exit) (auto simp: act_def)
  moreover have ws: "pm_workers m2 = []"
    using old(2) by (simp add: m2 worker_exit_def removeWorker_def Let_def m1')
  moreover have new: "act m2 ?n ?a"
    using ids(2) lt by (simp add: m2 act_exit m1' act_stop_all act_start) (simp add: new_worker_def)
  moreover have "m3 = (start_worker ?w m2)\<lparr>pm_workers := [(?a, length (pm_heap m2))]\<rparr>"
    using assms(3-5) ws by (simp add: m3 AddThirdComponent_def add_endpoint_def Let_def)
  ultimately show ?thesis
    using new by (auto simp: act_start) (simp_all add: new_worker_def act_def)
qed

section \<open>Witnesses\<close>

definition tc_object_meta :: object_meta where
  "tc_object_meta = \<lparr>Name = ''db'', Namespace = ''ns'', Labels = [], Annotations = [], CreationTimestamp = 0,
     DeletionTimestamp = None, ResourceVersion = []\<rparr>"

definition tcp_probe_spec :: "int \<Rightarrow> probe" where
  "tcp_probe_spec n = \<lparr>pr_HTTPGet = None, pr_TCPSocket = True, TimeoutSeconds = 5, PeriodSeconds = 10,
     SuccessThreshold = n, FailureThreshold = 3\<rparr>"

definition db_status :: endpoint_st where
  "db_status = \<lparr>es_Address = ''10.0.0.7:3306'', es_Name = ''e1'', es_TargetRef = None, es_ServicePort = 0,
     es_Status = EndpointNotReady\<rparr>"

definition db_component :: "int \<Rightarrow> third_comp" where
  "db_component n = \<lparr>tc_meta = tc_object_meta, tc_Probe = Some (tcp_probe_spec n), tc_Ports = [\<lparr>cp_Name = ''tcp'', cp_Port = 3306\<rparr>],
     tc_StaticEndpoints = [\<lparr>te_Address = ''10.0.0.7:3306'', te_Name = ''e1''\<rparr>], tc_KubernetesService = None,
     tc_Phase = ComponentRunning, tc_Reason = [], tc_Endpoints = [db_status]\<rparr>"

definition tcp_net :: "k8s_probe \<Rightarrow> net" where
  "tcp_net r = \<lparr>net_request_ok = \<lambda>_. True, net_http = \<lambda>_ _ _. (KUnknown, True), net_tcp = \<lambda>_ _ _. (r, False),
     net_url_ok = \<lambda>_. True\<rparr>"

lemmas prober_eval = db_component_def tcp_probe_spec_def db_status_def tcp_net_def tc_object_meta_def

lemma tcp_outcome: "probe_endpoint (tcp_net r) (Some (tcp_probe_spec n)) a = (if r = KSuccess then Success else Failure, False)"
  by (simp add: probe_endpoint_def maxProbeRetries_def numeral_3_eq_3 runProbe_def prober_eval)

lemma published_results_exact_witness:
  "\<exists>w m. fold doProbe [tcp_net KSuccess, tcp_net KSuccess, tcp_net KFailure]
      (new_worker (db_component 2) (tcp_probe_spec 2) db_status, new_results) = (w, m) \<and>
    map_of (rm_cache m) ''ns/db/10.0.0.7:3306'' = Some Success \<and> rm_updates m = [(''ns/db/10.0.0.7:3306'', Success)]"
proof -
  let ?nets = "[tcp_net KSuccess, tcp_net KSuccess, tcp_net KFailure]"
  obtain w m where run: "fold doProbe ?nets (new_worker (db_component 2) (tcp_probe_spec 2) db_status, new_results) = (w, m)"
    by (rule prod.exhaust)
  have out: "outcomes (tcp_probe_spec 2) (es_Address db_status) ?nets = [Success, Success, Failure]"
    by (simp add: outcomes_def tcp_outcome)
  have "settled (tcp_probe_spec 2) [Success, Success, Failure] = [Success]"
    by (simp add: settled_def last_run_def threshold_def tcp_probe_spec_def)
  moreover have "GetEndpointID (db_component 2) (es_Address db_status) = ''ns/db/10.0.0.7:3306''"
    by (simp add: GetEndpointID_def prober_eval)
  ultimately show ?thesis
    using published_results_exact [OF _ run] run unfolding out by simp
qed

lemma probers_exact_witness:
  "\<exists>i. map_of (pm_workers (AddThirdComponent (db_component 2) NewManager)) ''10.0.0.7:3306'' = Some i \<and>
     {j. act (AddThirdComponent (db_component 2) NewManager) j ''10.0.0.7:3306''} = {i}"
  using probers_exact [of NewManager "db_component 2" _ "''10.0.0.7:3306''", OF _ _ _ refl]
  by (simp add: NeedProbe_def IsStaticEndpoints_def prober_eval)

lemma replaced_worker_removes_successor_witness:
  "\<exists>m2. pm_step (AddThirdComponent (db_component 1) (AddThirdComponent (db_component 2) NewManager)) m2 \<and>
     map_of (pm_workers m2) ''10.0.0.7:3306'' = None \<and> act m2 1 ''10.0.0.7:3306''"
proof -
  let ?m = "AddThirdComponent (db_component 2) NewManager"
  have need: "NeedProbe (db_component n)" "tc_Endpoints (db_component n) = [db_status]" "tc_Probe (db_component n) = Some (tcp_probe_spec n)" for n
    by (simp_all add: NeedProbe_def IsStaticEndpoints_def prober_eval)
  have "pm_inv NewManager"
    by (rule orderly_run) simp
  then have inv: "pm_inv ?m"
    by (rule AddThirdComponent_covers(1)) (simp_all add: need)
  have m: "pm_workers ?m = [(''10.0.0.7:3306'', 0)]" "pm_heap ?m = [new_worker (db_component 2) (tcp_probe_spec 2) db_status]"
    using need by (simp_all add: AddThirdComponent_def add_endpoint_def NewManager_def start_worker_def Let_def) (simp add: db_status_def)
  have a: "es_Address db_status = ''10.0.0.7:3306''"
    by (simp add: db_status_def)
  have "\<not> Probe_Equals (tcp_probe_spec 1) (wk_spec (pm_heap ?m ! 0))"
    by (simp add: m(2) new_worker_def Probe_Equals_def tcp_probe_spec_def)
  from replaced_worker_removes_successor [OF inv _ need(1) need(2) need(3) this refl refl refl]
  show ?thesis
    using m by (auto simp: a)
qed

end
