(* ===== verification/Third_Component.thy ===== *)
theory Third_Component
  imports Prober "HOL-Library.Multiset"
begin

text \<open>
  The controller of third-party components (\<^verbatim>\<open>src/worker/master/controller/thirdcomponent\<close>:
  \<^verbatim>\<open>controller.go\<close>, \<^verbatim>\<open>discover_pool.go\<close>, \<^verbatim>\<open>worker.go\<close>, \<^verbatim>\<open>discover\<close>). A component is reconciled by
  finding its endpoints, static ones or those of a Kubernetes service, and publishing them as the
  endpoints of the component's services.

  The Kubernetes API is an argument (\<open>kube_api\<close>) with the answers it gives during one reconciliation;
  what is written is a list of effects. Prober managers are shared between a worker and its discovery, so
  they are kept in the pool and referred to by their index.
\<close>

section \<open>Cluster objects\<close>

datatype 'a fetched = Found 'a | NotFound string | GetFailed string

record svc_port =
  sp_Name :: string
  sp_Port :: int
  sp_Protocol :: string

record kube_service =
  ks_meta :: object_meta
  ks_Ports :: "svc_port list"

record ep_address =
  ea_IP :: string
  ea_TargetRef :: "(string \<times> string) option"

record kube_subset =
  kb_Ports :: "svc_port list"
  kb_Addresses :: "ep_address list"
  kb_NotReadyAddresses :: "ep_address list"

record kube_endpoints =
  ke_Name :: string
  ke_Namespace :: string
  ke_Labels :: "string gomap"
  ke_Annotations :: "string gomap"
  ke_Subsets :: "kube_subset list"

record kube_api =
  api_component :: "third_comp fetched"
  api_client_ok :: bool
  api_service :: "string \<Rightarrow> string \<Rightarrow> kube_service fetched"
  api_endpoints :: "string \<Rightarrow> string \<Rightarrow> kube_endpoints fetched"
  api_services :: "string \<Rightarrow> kube_service list"
  api_conflict :: bool
  api_status_ok :: bool
  api_url_ok :: "string \<Rightarrow> bool"

section \<open>Discovery\<close>

datatype discover = KubernetesDiscover third_comp | StaticDiscover third_comp "nat option"

fun GetComponent :: "discover \<Rightarrow> third_comp" where
  "GetComponent (KubernetesDiscover c) = c"
| "GetComponent (StaticDiscover c _) = c"

fun SetProberManager :: "nat \<Rightarrow> discover \<Rightarrow> discover" where
  "SetProberManager pm (KubernetesDiscover c) = KubernetesDiscover c"
| "SetProberManager pm (StaticDiscover c _) = StaticDiscover c (Some pm)"

definition NewDiscover :: "kube_api \<Rightarrow> third_comp \<Rightarrow> string + discover" where
  "NewDiscover api c =
     (if tc_KubernetesService c \<noteq> None
      then (if api_client_ok api then Inr (KubernetesDiscover c) else Inl ''create kube client error'')
      else if 0 < length (tc_StaticEndpoints c) then Inr (StaticDiscover c None)
      else Inl ''not support source type'')"

definition getServicePort :: "kube_service \<Rightarrow> string \<Rightarrow> int" where
  "getServicePort svc portName = (case find (\<lambda>p. sp_Name p = portName) (ks_Ports svc) of None \<Rightarrow> 0 | Some p \<Rightarrow> sp_Port p)"

definition discovered :: "kube_api \<Rightarrow> kube_service \<Rightarrow> svc_port \<Rightarrow> ep_address \<Rightarrow> endpoint_st list" where
  "discovered api svc port address = (case NewEndpointAddress (api_url_ok api) (ea_IP address) (sp_Port port) of
       None \<Rightarrow> []
     | Some ed \<Rightarrow> [\<lparr>es_Address = ed, es_Name = [], es_TargetRef = map_option snd (ea_TargetRef address),
         es_ServicePort = getServicePort svc (sp_Name port), es_Status = EndpointReady\<rparr>])"

text \<open>Addresses that are not ready are discovered as ready as well.\<close>

definition kube_DiscoverOne :: "kube_api \<Rightarrow> third_comp \<Rightarrow> string \<times> string \<Rightarrow> string + endpoint_st list" where
  "kube_DiscoverOne api c source =
     (let ns = (if fst source = [] then Namespace (tc_meta c) else fst source)
      in case api_service api ns (snd source) of
           NotFound e \<Rightarrow> Inl (''load kubernetes service failure '' @ e)
         | GetFailed e \<Rightarrow> Inl (''load kubernetes service failure '' @ e)
         | Found svc \<Rightarrow> (case api_endpoints api ns (Name (ks_meta svc)) of
               NotFound e \<Rightarrow> Inr []
             | GetFailed e \<Rightarrow> Inl (''load kubernetes endpoints failure '' @ e)
             | Found eps \<Rightarrow> Inr (concat (map (\<lambda>subset. concat (map (\<lambda>port.
                   concat (map (discovered api svc port) (kb_Addresses subset)) @
                   concat (map (discovered api svc port) (kb_NotReadyAddresses subset)))
                 (kb_Ports subset))) (ke_Subsets eps)))))"

definition static_status :: "third_endpoint \<Rightarrow> string option \<Rightarrow> endpoint_st list" where
  "static_status ep address = (case address of
       None \<Rightarrow> []
     | Some a \<Rightarrow> [\<lparr>es_Address = a, es_Name = te_Name ep, es_TargetRef = None, es_ServicePort = 0, es_Status = EndpointReady\<rparr>])"

definition static_endpoints :: "(string \<Rightarrow> bool) \<Rightarrow> third_comp \<Rightarrow> endpoint_st list" where
  "static_endpoints url_ok c = concat (map (\<lambda>ep.
     if te_GetPort ep \<noteq> 0 then static_status ep (NewEndpointAddress url_ok (te_GetIP ep) (te_GetPort ep))
     else concat (map (\<lambda>port. static_status ep (NewEndpointAddress url_ok (te_Address ep) (cp_Port port))) (tc_Ports c)))
   (tc_StaticEndpoints c))"

definition with_result :: "prober_manager \<Rightarrow> third_comp \<Rightarrow> endpoint_st \<Rightarrow> endpoint_st" where
  "with_result pm c ep =
     (let (result, found) = GetResult (GetEndpointID c (es_Address ep)) pm;
          ep1 = (if \<not> found then ep\<lparr>es_Status := EndpointNotReady\<rparr> else ep)
      in if result \<noteq> Success then ep1\<lparr>es_Status := EndpointUnhealthy\<rparr> else ep1)"

definition static_DiscoverOne :: "(string \<Rightarrow> bool) \<Rightarrow> prober_manager option \<Rightarrow> third_comp \<Rightarrow> endpoint_st list" where
  "static_DiscoverOne url_ok pm c = (case pm of
       None \<Rightarrow> static_endpoints url_ok c
     | Some m \<Rightarrow> map (with_result m c) (static_endpoints url_ok c))"

section \<open>The pool of discoveries\<close>

text \<open>\<open>pw_loop\<close> is the discovery whose loop the worker's goroutine runs, \<open>pw_discover\<close> the current one.\<close>

record pool_worker =
  pw_discover :: discover
  pw_loop :: "discover option"
  pw_stoped :: bool
  pw_manager :: "nat option"

record discover_pool =
  dp_workers :: "pool_worker gomap"
  dp_managers :: "prober_manager list"

definition NewDiscoverPool :: discover_pool where
  "NewDiscoverPool = \<lparr>dp_workers = [], dp_managers = []\<rparr>"

definition worker_Start :: "pool_worker \<Rightarrow> pool_worker" where
  "worker_Start w = w\<lparr>pw_stoped := False, pw_loop := Some (pw_discover w)\<rparr>"

definition on_manager :: "(prober_manager \<Rightarrow> prober_manager) \<Rightarrow> nat \<Rightarrow> discover_pool \<Rightarrow> discover_pool" where
  "on_manager f i d = d\<lparr>dp_managers := (dp_managers d)[i := f (dp_managers d ! i)]\<rparr>"

definition pool_newWorker :: "discover \<Rightarrow> discover_pool \<Rightarrow> discover \<times> pool_worker \<times> discover_pool" where
  "pool_newWorker dis d =
     (if IsStaticEndpoints (GetComponent dis)
      then (let i = length (dp_managers d); dis' = SetProberManager i dis
            in (dis', \<lparr>pw_discover = dis', pw_loop = None, pw_stoped = False, pw_manager = Some i\<rparr>,
                d\<lparr>dp_managers := dp_managers d @ [NewManager]\<rparr>))
      else (dis, \<lparr>pw_discover = dis, pw_loop = None, pw_stoped = False, pw_manager = None\<rparr>, d))"

definition UpdateDiscover :: "discover \<Rightarrow> pool_worker \<Rightarrow> discover_pool \<Rightarrow> (discover \<times> pool_worker \<times> discover_pool) go" where
  "UpdateDiscover dis w d =
     (if IsStaticEndpoints (GetComponent dis)
      then bind_go (deref (pw_manager w)) (\<lambda>i.
             let dis' = SetProberManager i dis
             in Inr (dis', w\<lparr>pw_discover := dis'\<rparr>, on_manager (AddThirdComponent (GetComponent dis)) i d))
      else Inr (dis, w\<lparr>pw_discover := dis\<rparr>, d))"

definition pool_key :: "third_comp \<Rightarrow> string" where
  "pool_key c = Namespace (tc_meta c) @ Name (tc_meta c)"

text \<open>\<open>AddDiscover\<close> gives back the discovery as well, because its manager is set here.\<close>

definition AddDiscover :: "discover \<Rightarrow> discover_pool \<Rightarrow> (discover \<times> discover_pool) go" where
  "AddDiscover dis d =
     (let key = pool_key (GetComponent dis)
      in case map_of (dp_workers d) key of
           Some olddis \<Rightarrow> bind_go (UpdateDiscover dis olddis d) (\<lambda>(dis', w, d1).
             Inr (dis', d1\<lparr>dp_workers := AList.update key (if pw_stoped w then worker_Start w else w) (dp_workers d1)\<rparr>))
         | None \<Rightarrow>
             (let (dis', w, d1) = pool_newWorker dis d
              in if IsStaticEndpoints (GetComponent dis)
                 then bind_go (deref (pw_manager w)) (\<lambda>i.
                        let d2 = on_manager (AddThirdComponent (GetComponent dis')) i d1
                        in Inr (dis', d2\<lparr>dp_workers := AList.update key (worker_Start w) (dp_workers d2)\<rparr>))
                 else Inr (dis', d1\<lparr>dp_workers := AList.update key (worker_Start w) (dp_workers d1)\<rparr>)))"

definition worker_Stop :: "pool_worker \<Rightarrow> discover_pool \<Rightarrow> discover_pool" where
  "worker_Stop w d = (case pw_manager w of None \<Rightarrow> d | Some i \<Rightarrow> on_manager pm_Stop i d)"

definition remove_key :: "string \<Rightarrow> discover_pool \<Rightarrow> discover_pool" where
  "remove_key key d = (case map_of (dp_workers d) key of
       None \<Rightarrow> d
     | Some olddis \<Rightarrow> (let d1 = worker_Stop olddis d in d1\<lparr>dp_workers := AList.delete key (dp_workers d1)\<rparr>))"

definition RemoveDiscover :: "third_comp \<Rightarrow> discover_pool \<Rightarrow> discover_pool" where
  "RemoveDiscover c d = remove_key (pool_key c) d"

definition RemoveDiscoverByName :: "string \<Rightarrow> string \<Rightarrow> discover_pool \<Rightarrow> discover_pool" where
  "RemoveDiscoverByName ns name d = remove_key (ns @ name) d"

text \<open>The end of a worker's loop, when the discovery gives up.\<close>

definition loop_ends :: "string \<Rightarrow> discover_pool \<Rightarrow> discover_pool" where
  "loop_ends key d = (case map_of (dp_workers d) key of
       None \<Rightarrow> d
     | Some w \<Rightarrow> (let d1 = worker_Stop w d
                 in d1\<lparr>dp_workers := AList.update key (w\<lparr>pw_stoped := True, pw_loop := None\<rparr>) (dp_workers d1)\<rparr>))"

text \<open>What the loop of a static discovery sends when the prober reports a change.\<close>

definition discover_DiscoverOne :: "kube_api \<Rightarrow> discover_pool \<Rightarrow> discover \<Rightarrow> string + endpoint_st list" where
  "discover_DiscoverOne api d dis = (case dis of
       KubernetesDiscover c \<Rightarrow>
         (case tc_KubernetesService c of None \<Rightarrow> Inl [] | Some source \<Rightarrow> kube_DiscoverOne api c source)
     | StaticDiscover c pm \<Rightarrow> Inr (static_DiscoverOne (api_url_ok api) (map_option (\<lambda>i. dp_managers d ! i) pm) c))"

definition static_update :: "kube_api \<Rightarrow> discover_pool \<Rightarrow> discover \<Rightarrow> third_comp option" where
  "static_update api d dis = (case discover_DiscoverOne api d dis of
       Inl e \<Rightarrow> None
     | Inr eps \<Rightarrow> (if eps \<noteq> tc_Endpoints (GetComponent dis) then Some ((GetComponent dis)\<lparr>tc_Endpoints := eps\<rparr>) else None))"

section \<open>Publishing endpoints\<close>

definition int_lookup :: "(int \<times> 'a list) list \<Rightarrow> int \<Rightarrow> 'a list" where
  "int_lookup m k = (case map_of m k of None \<Rightarrow> [] | Some xs \<Rightarrow> xs)"

definition portMap_step ::
  "(string \<Rightarrow> bool) \<Rightarrow> (int \<times> endpoint_st list) list \<Rightarrow> endpoint_st \<Rightarrow> (int \<times> endpoint_st list) list" where
  "portMap_step url_ok m e =
     (let addr_port = addr_GetPort url_ok (es_Address e);
          port = (if es_ServicePort e \<noteq> 0 then es_ServicePort e else addr_port)
      in AList.update port (int_lookup m addr_port @ [e]) m)"

definition portMap :: "(string \<Rightarrow> bool) \<Rightarrow> endpoint_st list \<Rightarrow> (int \<times> endpoint_st list) list" where
  "portMap url_ok eps = foldl (portMap_step url_ok) [] eps"

text \<open>The last endpoint that is a domain names the domain of the whole object.\<close>

definition domain_of :: "endpoint_st list \<Rightarrow> string" where
  "domain_of eps = foldl (\<lambda>domain e. if IsDomainNotIP (addr_GetIP (es_Address e)) then es_Address e else domain) [] eps"

definition domain_annotation :: "string \<Rightarrow> string gomap" where
  "domain_annotation domain = (if domain \<noteq> [] then [(''domain'', domain)] else [])"

definition group_ports :: "(string \<Rightarrow> bool) \<Rightarrow> endpoint_st list \<Rightarrow> (int \<times> endpoint_st list) list" where
  "group_ports url_ok eps = foldl (\<lambda>m e. let p = addr_GetPort url_ok (es_Address e)
     in AList.update p (int_lookup m p @ [e]) m) [] eps"

definition plain_address :: "endpoint_st \<Rightarrow> ep_address" where
  "plain_address e = \<lparr>ea_IP = addr_GetIP (es_Address e), ea_TargetRef = None\<rparr>"

definition port_subset :: "svc_port \<Rightarrow> int \<times> endpoint_st list \<Rightarrow> kube_subset" where
  "port_subset servicePort x = (let (port, eps) = x
     in \<lparr>kb_Ports = [servicePort\<lparr>sp_Port := wrap32 port\<rparr>],
         kb_Addresses = map plain_address (filter (\<lambda>e. es_Status e = EndpointReady) eps),
         kb_NotReadyAddresses = map plain_address (filter (\<lambda>e. es_Status e \<noteq> EndpointReady) eps)\<rparr>)"

definition createEndpointsOnlyOnePort ::
  "(string \<Rightarrow> bool) \<Rightarrow> third_comp \<Rightarrow> kube_service \<Rightarrow> endpoint_st list \<Rightarrow> kube_endpoints option go" where
  "createEndpointsOnlyOnePort url_ok c svc eps =
     (if length (tc_StaticEndpoints c) = 0 then Inr None
      else if length (tc_Ports c) \<noteq> 1 then Inr None
      else (let groups = group_ports url_ok eps
            in case ks_Ports svc of
                 [] \<Rightarrow> Inl IndexOutOfRange
               | servicePort # _ \<Rightarrow>
                   Inr (Some \<lparr>ke_Name = Name (ks_meta svc), ke_Namespace = Namespace (ks_meta svc), ke_Labels = Labels (ks_meta svc),
                     ke_Annotations = domain_annotation (domain_of (concat (map snd groups))),
                     ke_Subsets = map (port_subset servicePort) groups\<rparr>)))"

definition own_address :: "third_comp \<Rightarrow> endpoint_st \<Rightarrow> ep_address" where
  "own_address c e = \<lparr>ea_IP = addr_GetIP (es_Address e), ea_TargetRef = Some (Namespace (tc_meta c), Name (tc_meta c))\<rparr>"

definition createEndpoint :: "(string \<Rightarrow> bool) \<Rightarrow> third_comp \<Rightarrow> kube_service \<Rightarrow> endpoint_st list \<Rightarrow> kube_endpoints" where
  "createEndpoint url_ok c svc eps =
     (let spep = foldl (\<lambda>m e. if es_ServicePort e \<noteq> 0 then AList.update (es_ServicePort e) (addr_GetPort url_ok (es_Address e)) m else m) [] eps
      in \<lparr>ke_Name = Name (ks_meta svc), ke_Namespace = Namespace (ks_meta svc), ke_Labels = Labels (ks_meta svc),
          ke_Annotations = domain_annotation (domain_of eps),
          ke_Subsets = [\<lparr>
            kb_Ports = map (\<lambda>p. case map_of spep (sp_Port p) of None \<Rightarrow> p | Some endPort \<Rightarrow> p\<lparr>sp_Port := wrap32 endPort\<rparr>) (ks_Ports svc),
            kb_Addresses = map (own_address c) (filter (\<lambda>e. es_Status e = EndpointReady) eps),
            kb_NotReadyAddresses = map (own_address c)
              (filter (\<lambda>e. es_Status e = EndpointNotReady \<or> es_Status e = EndpointUnhealthy) eps)\<rparr>]\<rparr>)"

datatype effect = UpdateStatus third_comp | ApplyEndpoints kube_endpoints | ApplyService kube_service

definition annotated :: "kube_service \<Rightarrow> string gomap \<Rightarrow> kube_service" where
  "annotated svc anns = svc\<lparr>ks_meta := (ks_meta svc)\<lparr>Annotations := anns\<rparr>\<rparr>"

definition apply_both :: "kube_api \<Rightarrow> kube_service \<Rightarrow> kube_endpoints \<Rightarrow> effect list" where
  "apply_both api svc ep = [ApplyEndpoints ep, ApplyService (annotated svc (ke_Annotations ep))] @
     (if api_conflict api
      then (case api_service api (Namespace (ks_meta svc)) (Name (ks_meta svc)) of
              Found fresh \<Rightarrow> [ApplyService (annotated fresh (ke_Annotations ep))]
            | NotFound e \<Rightarrow> []
            | GetFailed e \<Rightarrow> [])
      else [])"

definition applyEndpointService :: "kube_api \<Rightarrow> kube_service \<Rightarrow> kube_endpoints \<Rightarrow> effect list" where
  "applyEndpointService api svc ep = (case api_endpoints api (ke_Namespace ep) (ke_Name ep) of
       Found old \<Rightarrow>
         (if ke_Subsets old = ke_Subsets ep \<and> ke_Annotations old = ke_Annotations ep then [] else apply_both api svc ep)
     | NotFound e \<Rightarrow> apply_both api svc ep
     | GetFailed e \<Rightarrow> apply_both api svc ep)"

definition publish :: "kube_api \<Rightarrow> third_comp \<Rightarrow> endpoint_st list \<Rightarrow> effect list go" where
  "publish api c eps =
     (if 0 < length (tc_Ports c) \<and> 0 < length eps
      then (let services = api_services api (gm_str (Labels (tc_meta c)) ''service_id'')
            in case services of
                 [] \<Rightarrow> Inr []
               | svc # _ \<Rightarrow>
                   (let pm = portMap (api_url_ok api) eps
                    in if length (tc_Ports c) = 1 \<and> 1 < length (tc_StaticEndpoints c)
                       then bind_go (createEndpointsOnlyOnePort (api_url_ok api) c svc eps) (\<lambda>r. case r of
                              None \<Rightarrow> Inr []
                            | Some ep \<Rightarrow> Inr (applyEndpointService api svc ep))
                       else Inr (concat (map (\<lambda>service. concat (map (\<lambda>port. case map_of pm (sp_Port port) of
                              None \<Rightarrow> []
                            | Some source \<Rightarrow> applyEndpointService api service (createEndpoint (api_url_ok api) c service source))
                            (ks_Ports service))) services))))
      else Inr [])"

text \<open>The result: the pool, the effects in order, and whether to try again.\<close>

definition Reconcile ::
  "kube_api \<Rightarrow> string \<Rightarrow> string \<Rightarrow> discover_pool \<Rightarrow> (discover_pool \<times> effect list \<times> bool) go" where
  "Reconcile api ns name d = (case api_component api of
       NotFound e \<Rightarrow> Inr (RemoveDiscoverByName ns name d, [], False)
     | GetFailed e \<Rightarrow> Inr (d, [], True)
     | Found c \<Rightarrow>
         (if DeletionTimestamp (tc_meta c) \<noteq> None then Inr (RemoveDiscover c d, [], False)
          else (case NewDiscover api c of
              Inl e \<Rightarrow> Inr (d, [UpdateStatus (c\<lparr>tc_Phase := ComponentFailed, tc_Reason := e, tc_Endpoints := []\<rparr>)], False)
            | Inr dis \<Rightarrow> bind_go (AddDiscover dis d) (\<lambda>(dis', d1). case discover_DiscoverOne api d1 dis' of
                  Inl e \<Rightarrow> Inr (d1, [UpdateStatus (c\<lparr>tc_Phase := ComponentFailed, tc_Reason := e\<rparr>)], False)
                | Inr eps \<Rightarrow>
                    (if length eps = 0
                     then Inr (d1, [UpdateStatus (c\<lparr>tc_Endpoints := eps, tc_Phase := ComponentPending, tc_Reason := ''endpoints not found''\<rparr>)], False)
                     else bind_go (publish api c eps) (\<lambda>es.
                       Inr (d1, es @ [UpdateStatus (c\<lparr>tc_Endpoints := eps, tc_Phase := ComponentRunning, tc_Reason := []\<rparr>)],
                            \<not> api_status_ok api)))))))"

section \<open>Ready means probed\<close>

lemma AddDiscover_static:
  assumes "AddDiscover (StaticDiscover c None) d = Inr (dis', d')" "IsStaticEndpoints c"
  obtains w i where "dis' = StaticDiscover c (Some i)" "map_of (dp_workers d') (pool_key c) = Some w" "pw_manager w = Some i"
proof (cases "map_of (dp_workers d) (pool_key c)")
  case None
  then show thesis
    using assms that by (auto simp: AddDiscover_def pool_newWorker_def Let_def worker_Start_def update_conv')
next
  case (Some w)
  then show thesis
    using assms that
    by (cases "pw_manager w") (auto simp: AddDiscover_def UpdateDiscover_def Let_def worker_Start_def update_conv' split: if_splits)
qed

lemma static_endpoints_ready: "e \<in> set (static_endpoints url_ok c) \<Longrightarrow> es_Status e = EndpointReady \<and> es_ServicePort e = 0"
  by (auto simp: static_endpoints_def static_status_def split: option.splits if_splits)

text \<open>The status of a static endpoint reports its published result.\<close>

lemma with_result_status:
  assumes "es_Status e = EndpointReady"
  shows "es_Status (with_result m c e) =
    (case map_of (rm_cache (pm_results m)) (GetEndpointID c (es_Address e)) of
       None \<Rightarrow> EndpointNotReady
     | Some r \<Rightarrow> (if r = Success then EndpointReady else EndpointUnhealthy))"
    and "es_Address (with_result m c e) = es_Address e"
  using assms by (simp_all add: with_result_def GetResult_def rm_Get_def split: option.splits)

lemma int_lookup_update: "int_lookup (AList.update k v m) j = (if j = k then v else int_lookup m j)"
  by (simp add: int_lookup_def update_conv')

lemma int_lookup_member: "e \<in> set (int_lookup m k) \<Longrightarrow> \<exists>xs. (k, xs) \<in> set m \<and> e \<in> set xs"
  by (cases "map_of m k") (auto simp: int_lookup_def dest: map_of_SomeD)

lemma portMap_members:
  "map_of (portMap url_ok eps) p = Some source \<Longrightarrow> set source \<subseteq> set eps"
proof (induction eps arbitrary: p source rule: rev_induct)
  case (snoc e eps)
  have "set (int_lookup (portMap url_ok eps) k) \<subseteq> set eps" for k
    using snoc.IH [of k] by (cases "map_of (portMap url_ok eps) k") (simp_all add: int_lookup_def)
  then show ?case
    using snoc by (fastforce simp: portMap_def portMap_step_def Let_def update_conv' split: if_splits)
qed (simp add: portMap_def)

text \<open>Grouping by port: every endpoint comes once, in the group of its port.\<close>

lemma group_ports_snoc:
  "group_ports url_ok (eps @ [e]) = (let m = group_ports url_ok eps; p = addr_GetPort url_ok (es_Address e)
     in AList.update p (int_lookup m p @ [e]) m)"
  by (simp add: group_ports_def Let_def)

lemma mset_update_int:
  "gm_wf m \<Longrightarrow> mset (concat (map snd (AList.update k (int_lookup m k @ [e]) m))) = add_mset e (mset (concat (map snd m)))"
proof (induction m)
  case (Cons x m)
  obtain j ys where x: "x = (j, ys)"
    by (cases x)
  show ?case
  proof (cases "j = k")
    case True
    then show ?thesis
      by (simp add: x int_lookup_def)
  next
    case False
    then show ?thesis
      using Cons by (simp add: x int_lookup_def)
  qed
qed (simp add: int_lookup_def)

lemma group_ports_exact:
  "gm_wf (group_ports url_ok eps) \<and> mset (concat (map snd (group_ports url_ok eps))) = mset eps \<and>
   (\<forall>p xs. (p, xs) \<in> set (group_ports url_ok eps) \<longrightarrow> (\<forall>e \<in> set xs. addr_GetPort url_ok (es_Address e) = p))"
proof (induction eps rule: rev_induct)
  case (snoc e eps)
  let ?m = "group_ports url_ok eps" and ?p = "addr_GetPort url_ok (es_Address e)"
  have wf: "gm_wf ?m" and ms: "mset (concat (map snd ?m)) = mset eps"
    using snoc by blast+
  have ports: "addr_GetPort url_ok (es_Address x) = p" if "(p, xs) \<in> set ?m" "x \<in> set xs" for p xs x
    using snoc that by blast
  have "addr_GetPort url_ok (es_Address x) = p" if "(p, xs) \<in> set (AList.update ?p (int_lookup ?m ?p @ [e]) ?m)" "x \<in> set xs" for p xs x
  proof -
    note mem = that
    consider "p = ?p" "xs = int_lookup ?m ?p @ [e]" | "(p, xs) \<in> set ?m"
      using subsetD [OF set_alist_update mem(1)] by blast
    then show ?thesis
    proof cases
      case 1
      then show ?thesis
        using that(2) int_lookup_member [of x ?m ?p] ports by auto
    next
      case 2
      then show ?thesis
        using that(2) by (rule ports)
    qed
  qed
  moreover have "gm_wf (AList.update ?p (int_lookup ?m ?p @ [e]) ?m)"
    using wf by simp
  moreover have "mset (concat (map snd (AList.update ?p (int_lookup ?m ?p @ [e]) ?m))) = mset (eps @ [e])"
    using ms by (simp only: mset_update_int [OF wf]) simp
  ultimately show ?case
    unfolding group_ports_snoc Let_def by blast
qed (simp add: group_ports_def)

lemma group_members: "(p, xs) \<in> set (group_ports url_ok eps) \<Longrightarrow> e \<in> set xs \<Longrightarrow> e \<in> set eps"
proof -
  assume "(p, xs) \<in> set (group_ports url_ok eps)" "e \<in> set xs"
  then have "e \<in> set (concat (map snd (group_ports url_ok eps)))"
    by force
  then show "e \<in> set eps"
    using group_ports_exact [of url_ok eps] by (metis set_mset_mset)
qed

lemma apply_shape:
  "applyEndpointService api svc ep = [] \<or>
   (\<exists>ys. applyEndpointService api svc ep = ApplyEndpoints ep # map ApplyService ys)"
proof -
  obtain ys where "apply_both api svc ep = ApplyEndpoints ep # map ApplyService ys"
  proof (cases "api_conflict api \<and> (\<exists>f. api_service api (Namespace (ks_meta svc)) (Name (ks_meta svc)) = Found f)")
    case True
    then show thesis
      using that [of "[annotated svc (ke_Annotations ep), annotated _ (ke_Annotations ep)]"] by (auto simp: apply_both_def)
  next
    case False
    then show thesis
      using that [of "[annotated svc (ke_Annotations ep)]"]
      by (cases "api_service api (Namespace (ks_meta svc)) (Name (ks_meta svc))") (auto simp: apply_both_def)
  qed
  then show ?thesis
    by (cases "api_endpoints api (ke_Namespace ep) (ke_Name ep)") (auto simp: applyEndpointService_def)
qed

lemma apply_members:
  "ApplyEndpoints q \<in> set (applyEndpointService api svc ep) \<Longrightarrow> q = ep"
  "UpdateStatus x \<notin> set (applyEndpointService api svc ep)"
  using apply_shape [of api svc ep] by auto

lemma in_nested: "y \<in> set (concat (map (\<lambda>s. concat (map (f s) (g s))) xs)) \<Longrightarrow> \<exists>s p. y \<in> set (f s p)"
  by auto

text \<open>Every address published as ready comes from an endpoint with the status ready.\<close>

lemma publish_ready:
  assumes "publish api c eps = Inr effs" "ApplyEndpoints o' \<in> set effs" "sub \<in> set (ke_Subsets o')" "x \<in> set (kb_Addresses sub)"
  obtains e where "e \<in> set eps" "es_Status e = EndpointReady" "ea_IP x = addr_GetIP (es_Address e)"
proof -
  obtain svc svcs where svc: "api_services api (gm_str (Labels (tc_meta c)) ''service_id'') = svc # svcs"
    using assms(1,2) by (auto simp: publish_def Let_def split: if_splits list.splits)
  show thesis
  proof (cases "length (tc_Ports c) = 1 \<and> 1 < length (tc_StaticEndpoints c)")
    case True
    then obtain ep where ep: "createEndpointsOnlyOnePort (api_url_ok api) c svc eps = Inr (Some ep)" "ApplyEndpoints o' \<in> set (applyEndpointService api svc ep)"
      using assms(1,2) svc by (auto simp: publish_def bind_go_eq_Inr Let_def split: if_splits option.splits)
    then have o: "createEndpointsOnlyOnePort (api_url_ok api) c svc eps = Inr (Some o')"
      using apply_members(1) by blast
    then obtain sp p xs where "(p, xs) \<in> set (group_ports (api_url_ok api) eps)" "sub = port_subset sp (p, xs)"
      using assms(3) by (auto simp: createEndpointsOnlyOnePort_def Let_def split: if_splits list.splits)
    then show thesis
      using assms(4) that group_members by (fastforce simp: port_subset_def plain_address_def)
  next
    case False
    then obtain service source p where ap: "map_of (portMap (api_url_ok api) eps) p = Some source"
        "ApplyEndpoints o' \<in> set (applyEndpointService api service (createEndpoint (api_url_ok api) c service source))"
    proof -
      let ?f = "\<lambda>(service :: kube_service) (port :: svc_port). case map_of (portMap (api_url_ok api) eps) (sp_Port port) of
            None \<Rightarrow> []
          | Some source \<Rightarrow> applyEndpointService api service (createEndpoint (api_url_ok api) c service source)"
      have "effs = concat (map (\<lambda>service. concat (map (?f service) (ks_Ports service))) (svc # svcs))"
        using assms(1,2) svc False by (simp add: publish_def Let_def split: if_splits)
      then obtain service port where "ApplyEndpoints o' \<in> set (?f service port)"
        using assms(2) in_nested [of "ApplyEndpoints o'" ?f ks_Ports "svc # svcs"] by blast
      then show thesis
        using that by (cases "map_of (portMap (api_url_ok api) eps) (sp_Port port)") auto
    qed
    then have "o' = createEndpoint (api_url_ok api) c service source"
      using apply_members(1) by blast
    then show thesis
      using assms(3,4) that portMap_members [OF ap(1)] by (fastforce simp: createEndpoint_def own_address_def Let_def)
  qed
qed

lemma publish_no_status:
  assumes "publish api c eps = Inr es"
  shows "UpdateStatus x \<notin> set es"
proof
  assume x: "UpdateStatus x \<in> set es"
  then obtain svc svcs where svc: "api_services api (gm_str (Labels (tc_meta c)) ''service_id'') = svc # svcs"
    using assms by (auto simp: publish_def Let_def split: if_splits list.splits)
  show False
  proof (cases "length (tc_Ports c) = 1 \<and> 1 < length (tc_StaticEndpoints c)")
    case True
    then show ?thesis
      using assms x svc apply_members(2)
      by (auto simp: publish_def bind_go_eq_Inr Let_def split: if_splits option.splits)
  next
    case False
    let ?f = "\<lambda>(service :: kube_service) (port :: svc_port). case map_of (portMap (api_url_ok api) eps) (sp_Port port) of
          None \<Rightarrow> []
        | Some source \<Rightarrow> applyEndpointService api service (createEndpoint (api_url_ok api) c service source)"
    have "es = concat (map (\<lambda>service. concat (map (?f service) (ks_Ports service))) (svc # svcs))"
      using assms x svc False by (simp add: publish_def Let_def split: if_splits)
    then obtain service port where "UpdateStatus x \<in> set (?f service port)"
      using x in_nested [of "UpdateStatus x" ?f ks_Ports "svc # svcs"] by blast
    then show ?thesis
      using apply_members(2) by (cases "map_of (portMap (api_url_ok api) eps) (sp_Port port)") auto
  qed
qed

lemma Reconcile_static:
  assumes "Reconcile api ns name d = Inr (d', effs, again)" "api_component api = Found c" "tc_KubernetesService c = None"
    and "ApplyEndpoints q \<in> set effs"
  obtains w i es where "map_of (dp_workers d') (pool_key c) = Some w" "pw_manager w = Some i"
    and "publish api c (static_DiscoverOne (api_url_ok api) (Some (dp_managers d' ! i)) c) = Inr es" "ApplyEndpoints q \<in> set es"
proof -
  have alive: "DeletionTimestamp (tc_meta c) = None"
    using assms by (auto simp: Reconcile_def split: if_splits)
  have st: "NewDiscover api c = Inr (StaticDiscover c None)" "IsStaticEndpoints c"
    using assms alive by (auto simp: Reconcile_def NewDiscover_def IsStaticEndpoints_def split: if_splits)
  then obtain dis' d1 where add: "AddDiscover (StaticDiscover c None) d = Inr (dis', d1)"
    using assms(1,2) alive by (auto simp: Reconcile_def bind_go_eq_Inr)
  obtain w i where wi: "dis' = StaticDiscover c (Some i)" "map_of (dp_workers d1) (pool_key c) = Some w" "pw_manager w = Some i"
    using AddDiscover_static [OF add st(2)] .
  let ?eps = "static_DiscoverOne (api_url_ok api) (Some (dp_managers d1 ! i)) c"
  have "length ?eps \<noteq> 0"
    using assms alive st add wi by (auto simp: Reconcile_def discover_DiscoverOne_def)
  then obtain es where "publish api c ?eps = Inr es" "effs = es @ [UpdateStatus (c\<lparr>tc_Endpoints := ?eps, tc_Phase := ComponentRunning, tc_Reason := []\<rparr>)]" "d' = d1"
    using assms(1,2) alive st add wi by (auto simp: Reconcile_def discover_DiscoverOne_def bind_go_eq_Inr)
  then show thesis
    using that [of w i es] wi assms(4) by auto
qed

text \<open>
  C6: Traffic goes to probed endpoints only: whatever a reconciliation of a component with static endpoints
  publishes as a ready address is the address of one of its endpoints, and the prober's published result
  for that endpoint is a success.
\<close>

theorem published_ready_is_probed:
  assumes "Reconcile api ns name d = Inr (d', effs, again)" "api_component api = Found c" "tc_KubernetesService c = None"
    and "ApplyEndpoints q \<in> set effs" "sub \<in> set (ke_Subsets q)" "x \<in> set (kb_Addresses sub)"
  shows "\<exists>w i e. map_of (dp_workers d') (pool_key c) = Some w \<and> pw_manager w = Some i \<and>
    e \<in> set (static_endpoints (api_url_ok api) c) \<and> ea_IP x = addr_GetIP (es_Address e) \<and>
    GetResult (GetEndpointID c (es_Address e)) (dp_managers d' ! i) = (Success, True)"
proof -
  obtain w i es where w: "map_of (dp_workers d') (pool_key c) = Some w" "pw_manager w = Some i"
      "publish api c (static_DiscoverOne (api_url_ok api) (Some (dp_managers d' ! i)) c) = Inr es" "ApplyEndpoints q \<in> set es"
    using Reconcile_static [OF assms(1-4)] .
  obtain e' where e': "e' \<in> set (static_DiscoverOne (api_url_ok api) (Some (dp_managers d' ! i)) c)"
      "es_Status e' = EndpointReady" "ea_IP x = addr_GetIP (es_Address e')"
    using publish_ready [OF w(3,4) assms(5,6)] .
  then obtain e where e: "e \<in> set (static_endpoints (api_url_ok api) c)" "e' = with_result (dp_managers d' ! i) c e"
    by (auto simp: static_DiscoverOne_def)
  have "map_of (rm_cache (pm_results (dp_managers d' ! i))) (GetEndpointID c (es_Address e)) = Some Success"
    using with_result_status [of e "dp_managers d' ! i" c] static_endpoints_ready [OF e(1)] e(2) e'(2)
    by (auto split: option.splits if_splits)
  then show ?thesis
    using w e e'(3) with_result_status(2) [of e] static_endpoints_ready [OF e(1)]
    by (auto simp: GetResult_def rm_Get_def intro!: exI [of _ e])
qed

text \<open>The prober manager of a component has no results, or there is none yet.\<close>

definition no_results :: "third_comp \<Rightarrow> discover_pool \<Rightarrow> bool" where
  "no_results c d \<longleftrightarrow> (case map_of (dp_workers d) (pool_key c) of
       None \<Rightarrow> True
     | Some w \<Rightarrow> (case pw_manager w of
         None \<Rightarrow> False
       | Some i \<Rightarrow> i < length (dp_managers d) \<and> rm_cache (pm_results (dp_managers d ! i)) = []))"

lemma AddDiscover_no_results:
  assumes "AddDiscover (StaticDiscover c None) d = Inr (dis', d')" "IsStaticEndpoints c" "tc_Probe c = None" "no_results c d"
  shows "no_results c d'"
proof (cases "map_of (dp_workers d) (pool_key c)")
  case None
  then show ?thesis
    using assms
    by (auto simp: AddDiscover_def pool_newWorker_def Let_def worker_Start_def no_results_def update_conv' on_manager_def
        AddThirdComponent_def NeedProbe_def NewManager_def new_results_def)
next
  case (Some w)
  then show ?thesis
    using assms
    by (cases "pw_manager w") (auto simp: AddDiscover_def UpdateDiscover_def Let_def worker_Start_def no_results_def
        update_conv' on_manager_def AddThirdComponent_def NeedProbe_def split: if_splits)
qed

lemma no_results_not_ready:
  assumes "rm_cache (pm_results m) = []" "e \<in> set (static_DiscoverOne url_ok (Some m) c)"
  shows "es_Status e = EndpointNotReady"
proof -
  obtain e0 where "e0 \<in> set (static_endpoints url_ok c)" "e = with_result m c e0"
    using assms(2) by (auto simp: static_DiscoverOne_def)
  then show ?thesis
    using with_result_status(1) [of e0 m c] static_endpoints_ready [of e0] assms(1) by simp
qed

text \<open>
  A component with static endpoints and no probe is never ready: its worker has a prober manager all the
  same, which has no result for any endpoint. As long as the component has no probe this stays so, and
  nothing is ever published as ready, although endpoints are meant to be ready by default.
\<close>

theorem without_probe_never_ready:
  assumes rec: "Reconcile api ns name d = Inr (d', effs, again)" "api_component api = Found c"
    and c: "DeletionTimestamp (tc_meta c) = None" "tc_KubernetesService c = None" "IsStaticEndpoints c" "tc_Probe c = None"
    and d: "no_results c d"
  shows "no_results c d' \<and>
    (\<forall>q sub. ApplyEndpoints q \<in> set effs \<longrightarrow> sub \<in> set (ke_Subsets q) \<longrightarrow> kb_Addresses sub = []) \<and>
    (\<forall>c' e. UpdateStatus c' \<in> set effs \<longrightarrow> e \<in> set (tc_Endpoints c') \<longrightarrow> es_Status e = EndpointNotReady)"
proof -
  have new: "NewDiscover api c = Inr (StaticDiscover c None)"
    using c by (simp add: NewDiscover_def IsStaticEndpoints_def)
  obtain dis' d1 where add: "AddDiscover (StaticDiscover c None) d = Inr (dis', d1)"
    using rec c new by (auto simp: Reconcile_def bind_go_eq_Inr)
  obtain w i where wi: "dis' = StaticDiscover c (Some i)" "map_of (dp_workers d1) (pool_key c) = Some w" "pw_manager w = Some i"
    using AddDiscover_static [OF add c(3)] .
  have nr: "no_results c d1"
    by (rule AddDiscover_no_results [OF add c(3,4) d])
  then have empty: "rm_cache (pm_results (dp_managers d1 ! i)) = []"
    using wi by (simp add: no_results_def)
  let ?eps = "static_DiscoverOne (api_url_ok api) (Some (dp_managers d1 ! i)) c"
  have d': "d' = d1" and status: "UpdateStatus c' \<in> set effs \<Longrightarrow> tc_Endpoints c' = ?eps" for c'
    using rec c new add wi publish_no_status
    by (fastforce simp: Reconcile_def discover_DiscoverOne_def bind_go_eq_Inr split: if_splits)+
  have "kb_Addresses sub = []" if "ApplyEndpoints q \<in> set effs" "sub \<in> set (ke_Subsets q)" for q sub
  proof (rule ccontr)
    note q = that
    assume "kb_Addresses sub \<noteq> []"
    then obtain x where x: "x \<in> set (kb_Addresses sub)"
      by (cases "kb_Addresses sub") auto
    obtain w' j es where "map_of (dp_workers d') (pool_key c) = Some w'" "pw_manager w' = Some j"
        "publish api c (static_DiscoverOne (api_url_ok api) (Some (dp_managers d' ! j)) c) = Inr es" "ApplyEndpoints q \<in> set es"
      using Reconcile_static [OF rec c(2) q(1)] .
    then have es: "publish api c ?eps = Inr es" "ApplyEndpoints q \<in> set es"
      using wi d' by simp_all
    obtain e where "e \<in> set ?eps" "es_Status e = EndpointReady"
      using publish_ready [OF es q(2) x] by metis
    then show False
      using no_results_not_ready [OF empty] by fastforce
  qed
  then show ?thesis
    using nr d' status no_results_not_ready [OF empty] by auto
qed

section \<open>What is published\<close>

text \<open>What an endpoints object says: for every address whether it is ready, and the port.\<close>

definition published :: "kube_endpoints \<Rightarrow> (bool \<times> int \<times> string) list" where
  "published o' = concat (map (\<lambda>sub. concat (map (\<lambda>p.
     map (\<lambda>x. (True, sp_Port p, ea_IP x)) (kb_Addresses sub) @ map (\<lambda>x. (False, sp_Port p, ea_IP x)) (kb_NotReadyAddresses sub))
   (kb_Ports sub))) (ke_Subsets o'))"

definition endpoint_entry :: "(string \<Rightarrow> bool) \<Rightarrow> endpoint_st \<Rightarrow> bool \<times> int \<times> string" where
  "endpoint_entry url_ok e = (es_Status e = EndpointReady, wrap32 (addr_GetPort url_ok (es_Address e)), addr_GetIP (es_Address e))"

lemma mset_partition: "mset (map f (filter P xs)) + mset (map f (filter (\<lambda>x. \<not> P x) xs)) = mset (map f xs)"
  by (induction xs) auto

lemma published_group:
  assumes "\<And>e. e \<in> set xs \<Longrightarrow> addr_GetPort url_ok (es_Address e) = p"
  shows "mset (map (\<lambda>x. (True, wrap32 p, ea_IP x)) (map plain_address (filter (\<lambda>e. es_Status e = EndpointReady) xs)) @
      map (\<lambda>x. (False, wrap32 p, ea_IP x)) (map plain_address (filter (\<lambda>e. es_Status e \<noteq> EndpointReady) xs)))
    = mset (map (endpoint_entry url_ok) xs)"
  using assms by (induction xs) (auto simp: endpoint_entry_def plain_address_def)

text \<open>
  A component with one port and several static endpoints: every endpoint is published exactly once, under
  its own port, as ready exactly when its status is ready.
\<close>

theorem one_port_endpoints_exact:
  assumes "createEndpointsOnlyOnePort url_ok c svc eps = Inr (Some o')"
  shows "mset (published o') = mset (map (endpoint_entry url_ok) eps)"
proof -
  let ?g = "group_ports url_ok eps"
  obtain sp rest where rest: "ks_Ports svc = sp # rest"
    using assms by (auto simp: createEndpointsOnlyOnePort_def Let_def split: if_splits list.splits)
  then have sp: "ke_Subsets o' = map (port_subset sp) ?g"
    using assms by (auto simp: createEndpointsOnlyOnePort_def Let_def split: if_splits)
  have ports: "addr_GetPort url_ok (es_Address e) = p" if "(p, xs) \<in> set ?g" "e \<in> set xs" for p xs e
    using group_ports_exact that by blast
  have "mset (concat (map (\<lambda>sub. concat (map (\<lambda>p.
     map (\<lambda>x. (True, sp_Port p, ea_IP x)) (kb_Addresses sub) @ map (\<lambda>x. (False, sp_Port p, ea_IP x)) (kb_NotReadyAddresses sub))
       (kb_Ports sub))) (map (port_subset sp) g))) = mset (concat (map (map (endpoint_entry url_ok) \<circ> snd) g))"
    if "set g \<subseteq> set ?g" for g
    using that
  proof (induction g)
    case (Cons x g)
    obtain p xs where x: "x = (p, xs)"
      by (cases x)
    have "mset (map (\<lambda>x. (True, wrap32 p, ea_IP x)) (map plain_address (filter (\<lambda>e. es_Status e = EndpointReady) xs)) @
        map (\<lambda>x. (False, wrap32 p, ea_IP x)) (map plain_address (filter (\<lambda>e. es_Status e \<noteq> EndpointReady) xs)))
      = mset (map (endpoint_entry url_ok) xs)"
      using Cons.prems x ports by (intro published_group) auto
    then show ?case
      using Cons x by (simp add: port_subset_def)
  qed simp
  then have "mset (published o') = mset (map (endpoint_entry url_ok) (concat (map snd ?g)))"
    unfolding published_def sp map_concat map_map by blast
  also have "\<dots> = mset (map (endpoint_entry url_ok) eps)"
    using group_ports_exact [of url_ok eps] by (metis mset_map)
  finally show ?thesis .
qed

text \<open>
  Endpoints without a service port are filed under the port of their address: the map has every one of
  them, in order, under exactly that port.
\<close>

theorem port_map_exact:
  assumes "\<forall>e \<in> set eps. es_ServicePort e = 0"
  shows "map_of (portMap url_ok eps) p =
    (let found = filter (\<lambda>e. addr_GetPort url_ok (es_Address e) = p) eps in if found = [] then None else Some found)"
  using assms
proof (induction eps arbitrary: p rule: rev_induct)
  case (snoc e eps)
  let ?q = "addr_GetPort url_ok (es_Address e)"
  have IH: "map_of (portMap url_ok eps) p =
    (let found = filter (\<lambda>e. addr_GetPort url_ok (es_Address e) = p) eps in if found = [] then None else Some found)" for p
    using snoc by simp
  have "int_lookup (portMap url_ok eps) ?q = filter (\<lambda>e. addr_GetPort url_ok (es_Address e) = ?q) eps"
    by (simp add: int_lookup_def IH Let_def)
  then show ?case
    using snoc.prems IH [of p] by (simp add: portMap_def [of _ "eps @ [e]"] portMap_step_def update_conv' Let_def flip: portMap_def)
qed (simp add: portMap_def)

text \<open>
  Endpoints of a Kubernetes service whose port differs from the target port overwrite each other: the
  list is read under the port of the address and written under the port of the service, so only the last
  endpoint stays.
\<close>

theorem service_port_keeps_last:
  assumes "eps \<noteq> []" "sp \<noteq> 0" "\<forall>e \<in> set eps. es_ServicePort e = sp \<and> addr_GetPort url_ok (es_Address e) \<noteq> sp"
  shows "portMap url_ok eps = [(sp, [last eps])]"
  using assms
proof (induction eps rule: rev_induct)
  case (snoc e eps)
  have "portMap url_ok eps = (if eps = [] then [] else [(sp, [last eps])])"
    using snoc by (cases "eps = []") (simp_all add: portMap_def)
  then show ?case
    using snoc.prems by (simp add: portMap_def [of _ "eps @ [e]"] portMap_step_def int_lookup_def Let_def flip: portMap_def)
qed simp

section \<open>Changing a component\<close>

text \<open>
  When a component changes its source from a Kubernetes service to static endpoints, its worker has no
  prober manager and the reconciliation panics.
\<close>

theorem source_change_panics:
  assumes "api_component api = Found c" "DeletionTimestamp (tc_meta c) = None"
    and "tc_KubernetesService c = None" "IsStaticEndpoints c"
    and "map_of (dp_workers d) (pool_key c) = Some w" "pw_manager w = None"
  shows "Reconcile api ns name d = Inl NilDereference"
  using assms by (simp add: Reconcile_def NewDiscover_def IsStaticEndpoints_def AddDiscover_def UpdateDiscover_def)

text \<open>
  A component that changes keeps the loop of its first version: the worker takes the new discovery, but
  the goroutine goes on with the old one, so the next report of the prober sends the endpoints of the
  old specification to the status.
\<close>

theorem update_keeps_old_loop:
  assumes "map_of (dp_workers d) (pool_key (GetComponent dis)) = Some w" "pw_loop w = Some (StaticDiscover old pm)" "\<not> pw_stoped w"
    and "AddDiscover dis d = Inr (dis', d')"
  shows "\<exists>w'. map_of (dp_workers d') (pool_key (GetComponent dis)) = Some w' \<and> pw_discover w' = dis' \<and>
      pw_loop w' = Some (StaticDiscover old pm) \<and>
    (\<forall>sent. static_update api d' (StaticDiscover old pm) = Some sent \<longrightarrow>
       map es_Address (tc_Endpoints sent) = map es_Address (static_endpoints (api_url_ok api) old))"
proof -
  have "map es_Address (tc_Endpoints sent) = map es_Address (static_endpoints (api_url_ok api) old)"
    if "static_update api d' (StaticDiscover old pm) = Some sent" for sent
  proof -
    have "tc_Endpoints sent = static_DiscoverOne (api_url_ok api) (map_option (\<lambda>i. dp_managers d' ! i) pm) old"
      using that by (auto simp: static_update_def discover_DiscoverOne_def split: if_splits)
    then show ?thesis
      by (cases pm) (auto simp: static_DiscoverOne_def static_endpoints_ready with_result_status(2))
  qed
  moreover have "\<exists>w'. map_of (dp_workers d') (pool_key (GetComponent dis)) = Some w' \<and> pw_discover w' = dis' \<and>
      pw_loop w' = Some (StaticDiscover old pm)"
    using assms by (auto simp: AddDiscover_def UpdateDiscover_def bind_go_eq_Inr Let_def update_conv' split: if_splits)
  ultimately show ?thesis
    by blast
qed

section \<open>Witnesses\<close>

definition db_service :: kube_service where
  "db_service = \<lparr>ks_meta = tc_object_meta, ks_Ports = [\<lparr>sp_Name = ''tcp'', sp_Port = 3306, sp_Protocol = ''TCP''\<rparr>]\<rparr>"

definition db_api :: "third_comp \<Rightarrow> kube_api" where
  "db_api c = \<lparr>api_component = Found c, api_client_ok = True, api_service = \<lambda>_ _. Found db_service,
     api_endpoints = \<lambda>_ _. NotFound [], api_services = \<lambda>_. [db_service], api_conflict = False, api_status_ok = True,
     api_url_ok = \<lambda>_. True\<rparr>"

definition passing_manager :: prober_manager where
  "passing_manager = NewManager\<lparr>pm_results := new_results\<lparr>rm_cache := [(''ns/db/10.0.0.7:3306'', Success)]\<rparr>\<rparr>"

definition db_pool :: "third_comp \<Rightarrow> prober_manager \<Rightarrow> discover_pool" where
  "db_pool c m = \<lparr>dp_workers = [(''nsdb'', \<lparr>pw_discover = StaticDiscover c (Some 0), pw_loop = Some (StaticDiscover c (Some 0)),
     pw_stoped = False, pw_manager = Some 0\<rparr>)], dp_managers = [m]\<rparr>"

lemma db_address:
  "IsDomainNotIP ''10.0.0.7'' \<longleftrightarrow> False" "split_byte (CHR '':'') ''10.0.0.7:3306'' = [''10.0.0.7'', ''3306'']"
  "go_atoi ''3306'' = (3306, None)" "go_itoa 3306 = ''3306''" "ParseIP ''10.0.0.7'' \<noteq> None"
  by (simp_all add: IsDomainNotIP_iff ip_eval go_atoi_def go_itoa_def nat_str.simps digit_char_def char_of_def bit_iff_odd)

lemma db_static: "static_endpoints url_ok (db_component n) = [db_status\<lparr>es_Status := EndpointReady\<rparr>]"
  using db_address(5)
  by (simp add: static_endpoints_def static_status_def te_GetPort_def te_GetIP_def NewEndpointAddress_def db_address prober_eval)

lemma db_read: "addr_GetPort url_ok ''10.0.0.7:3306'' = 3306" "addr_GetIP ''10.0.0.7:3306'' = ''10.0.0.7''"
  by (simp_all add: addr_GetPort_def addr_GetIP_def addr_getIP_def db_address)

lemma AddThirdComponent_results: "pm_results (AddThirdComponent c m) = pm_results m"
proof -
  have "pm_results (snd (snd (add_endpoint c p s ep))) = pm_results (snd (snd s))" for p s ep
    by (cases s) (simp add: add_endpoint_def start_worker_def Let_def split: option.split)
  then have "pm_results (snd (snd (foldl (add_endpoint c p) s eps))) = pm_results (snd (snd s))" for p s eps
    by (induction eps arbitrary: s) simp_all
  from this [of _ "(pm_workers m, [], m)"] have loop: "foldl (add_endpoint c p) (pm_workers m, [], m) eps = (x, y, z) \<Longrightarrow> pm_results z = pm_results m" for p eps x y z
    by (metis snd_conv)
  have stop: "pm_results (foldl (\<lambda>m (k, i). stop_worker i m) u xs) = pm_results u" for u xs
    by (induction xs arbitrary: u) (auto simp: stop_worker_def)
  show ?thesis
  proof (cases "NeedProbe c")
    case True
    then obtain p where p: "tc_Probe c = Some p"
      by (auto simp: NeedProbe_def split: if_splits)
    obtain x y z where xyz: "foldl (add_endpoint c p) (pm_workers m, [], m) (tc_Endpoints c) = (x, y, z)"
      using prod_cases3 by blast
    then show ?thesis
      using True p by (simp add: AddThirdComponent_def stop loop [OF xyz])
  qed (simp add: AddThirdComponent_def)
qed

lemma db_meta: "tc_meta (db_component n) = tc_object_meta" "pool_key (db_component n) = ''nsdb''"
  "IsStaticEndpoints (db_component n)" "tc_KubernetesService (db_component n) = None" "DeletionTimestamp tc_object_meta = None"
  by (simp_all add: prober_eval pool_key_def IsStaticEndpoints_def)

lemma db_run:
  assumes "tc_meta c = tc_object_meta" "tc_KubernetesService c = None" "IsStaticEndpoints c"
  shows "AddDiscover (StaticDiscover c None) (db_pool c m) = Inr (StaticDiscover c (Some 0),
     db_pool c (AddThirdComponent c m))"
  using assms by (simp add: AddDiscover_def UpdateDiscover_def db_pool_def on_manager_def pool_key_def tc_object_meta_def Let_def)

lemma db_apply: "applyEndpointService (db_api c) svc ep = [ApplyEndpoints ep, ApplyService (annotated svc (ke_Annotations ep))]"
  by (simp add: applyEndpointService_def apply_both_def db_api_def)

lemma db_publish:
  assumes "portMap (\<lambda>_. True) eps = [(3306, eps)]" "length (tc_Ports c) = 1" "length (tc_StaticEndpoints c) = 1" "0 < length eps"
  shows "publish (db_api c) c eps = Inr (applyEndpointService (db_api c) db_service (createEndpoint (\<lambda>_. True) c db_service eps))"
proof -
  have "api_url_ok (db_api c) = (\<lambda>_. True)" "api_services (db_api c) = (\<lambda>_. [db_service])" "map sp_Port (ks_Ports db_service) = [3306]"
    by (simp_all add: db_api_def db_service_def)
  then show ?thesis
    using assms unfolding publish_def Let_def by (cases "ks_Ports db_service") auto
qed

lemma db_Reconcile:
  "Reconcile (db_api (db_component 2)) ns name (db_pool (db_component 2) passing_manager) =
     Inr (db_pool (db_component 2) (AddThirdComponent (db_component 2) passing_manager),
       [ApplyEndpoints (createEndpoint (\<lambda>_. True) (db_component 2) db_service [db_status\<lparr>es_Status := EndpointReady\<rparr>]),
        ApplyService (annotated db_service []),
        UpdateStatus ((db_component 2)\<lparr>tc_Endpoints := [db_status\<lparr>es_Status := EndpointReady\<rparr>], tc_Phase := ComponentRunning, tc_Reason := []\<rparr>)], False)"
proof -
  let ?e = "db_status\<lparr>es_Status := EndpointReady\<rparr>"
  have id: "GetEndpointID (db_component 2) (es_Address ?e) = ''ns/db/10.0.0.7:3306''"
    by (simp add: GetEndpointID_def prober_eval)
  have "es_Status (with_result (AddThirdComponent (db_component 2) passing_manager) (db_component 2) ?e) = EndpointReady"
    using with_result_status(1) [of ?e "AddThirdComponent (db_component 2) passing_manager" "db_component 2"] id
    by (simp add: AddThirdComponent_results passing_manager_def)
  then have wr: "with_result (AddThirdComponent (db_component 2) passing_manager) (db_component 2) ?e = ?e"
    by (auto simp: with_result_def Let_def split: prod.splits if_splits)
  have pm: "portMap (\<lambda>_. True) [?e] = [(3306, [?e])]"
    by (simp add: portMap_def portMap_step_def int_lookup_def db_status_def db_read)
  have ann: "ke_Annotations (createEndpoint (\<lambda>_. True) (db_component 2) db_service [?e]) = []"
    by (simp add: createEndpoint_def Let_def domain_annotation_def domain_of_def db_status_def db_read db_address)
  have pub: "publish (db_api (db_component 2)) (db_component 2) [?e] = Inr
      [ApplyEndpoints (createEndpoint (\<lambda>_. True) (db_component 2) db_service [?e]), ApplyService (annotated db_service [])]"
    using db_publish [OF pm, of "db_component 2"] by (simp add: db_apply ann) (simp add: db_component_def)
  have nd: "NewDiscover (db_api (db_component 2)) (db_component 2) = Inr (StaticDiscover (db_component 2) None)"
    using db_meta(3,4) [of 2] by (simp add: NewDiscover_def IsStaticEndpoints_def)
  have dd: "discover_DiscoverOne (db_api (db_component 2)) (db_pool (db_component 2) (AddThirdComponent (db_component 2) passing_manager))
      (StaticDiscover (db_component 2) (Some 0)) = Inr [?e]"
    by (simp add: discover_DiscoverOne_def static_DiscoverOne_def db_pool_def db_static wr)
  show ?thesis
    using nd dd pub db_run [OF db_meta(1,4,3), of 2] db_meta
    by (simp add: Reconcile_def) (simp add: db_api_def)
qed

lemma published_ready_is_probed_witness:
  "\<exists>d' effs again q sub. Reconcile (db_api (db_component 2)) ''ns'' ''db'' (db_pool (db_component 2) passing_manager) = Inr (d', effs, again) \<and>
     ApplyEndpoints q \<in> set effs \<and> sub \<in> set (ke_Subsets q) \<and> map ea_IP (kb_Addresses sub) = [''10.0.0.7''] \<and>
     (\<exists>w i (e :: endpoint_st). map_of (dp_workers d') ''nsdb'' = Some w \<and> pw_manager w = Some i \<and> ''10.0.0.7'' = addr_GetIP (es_Address e) \<and>
       GetResult (GetEndpointID (db_component 2) (es_Address e)) (dp_managers d' ! i) = (Success, True))"
proof -
  let ?c = "db_component 2"
  let ?q = "createEndpoint (\<lambda>_. True) ?c db_service [db_status\<lparr>es_Status := EndpointReady\<rparr>]"
  let ?x = "\<lparr>ea_IP = ''10.0.0.7'', ea_TargetRef = Some (''ns'', ''db'')\<rparr>"
  obtain sub where sub: "sub \<in> set (ke_Subsets ?q)" "kb_Addresses sub = [?x]"
    by (simp add: createEndpoint_def own_address_def db_status_def db_read db_meta(1) Let_def) (simp add: tc_object_meta_def)
  have "\<exists>w i e. map_of (dp_workers (db_pool ?c (AddThirdComponent ?c passing_manager))) (pool_key ?c) = Some w \<and> pw_manager w = Some i \<and>
    e \<in> set (static_endpoints (api_url_ok (db_api ?c)) ?c) \<and> ea_IP ?x = addr_GetIP (es_Address e) \<and>
    GetResult (GetEndpointID ?c (es_Address e)) (dp_managers (db_pool ?c (AddThirdComponent ?c passing_manager)) ! i) = (Success, True)"
    by (rule published_ready_is_probed [OF db_Reconcile [of "''ns''" "''db''"] _ db_meta(4) _ sub(1), where x = "?x"])
       (simp_all add: sub(2) db_api_def)
  then obtain w i and e :: endpoint_st where w: "map_of (dp_workers (db_pool ?c (AddThirdComponent ?c passing_manager))) ''nsdb'' = Some w" "pw_manager w = Some i"
    "''10.0.0.7'' = addr_GetIP (es_Address e)"
    "GetResult (GetEndpointID ?c (es_Address e)) (dp_managers (db_pool ?c (AddThirdComponent ?c passing_manager)) ! i) = (Success, True)"
    unfolding db_meta(2) ep_address.simps by blast
  show ?thesis
    by (intro exI [of _ "db_pool ?c (AddThirdComponent ?c passing_manager)"] exI [of _ ?q] exI [of _ sub] exI conjI, rule db_Reconcile)
       (use sub w in auto)
qed

definition unprobed :: third_comp where
  "unprobed = (db_component 1)\<lparr>tc_Probe := None\<rparr>"

lemma without_probe_never_ready_witness:
  "\<exists>d' effs again. Reconcile (db_api unprobed) ''ns'' ''db'' NewDiscoverPool = Inr (d', effs, again) \<and> no_results unprobed d'"
proof -
  have c: "DeletionTimestamp (tc_meta unprobed) = None" "tc_KubernetesService unprobed = None" "IsStaticEndpoints unprobed" "tc_Probe unprobed = None"
    by (simp_all add: unprobed_def IsStaticEndpoints_def prober_eval)
  have one: "length (tc_Ports unprobed) = 1" "length (tc_StaticEndpoints unprobed) = 1"
    by (simp_all add: unprobed_def db_component_def)
  have single: "\<exists>x. publish (db_api unprobed) unprobed eps = Inr x" for eps
    using one by (cases "api_services (db_api unprobed) (gm_str (Labels (tc_meta unprobed)) ''service_id'')") (simp_all add: publish_def Let_def)
  have nd: "NewDiscover (db_api unprobed) unprobed = Inr (StaticDiscover unprobed None)"
    using c by (simp add: NewDiscover_def IsStaticEndpoints_def)
  obtain i d1 where ad: "AddDiscover (StaticDiscover unprobed None) NewDiscoverPool = Inr (StaticDiscover unprobed (Some i), d1)"
    using c by (simp add: AddDiscover_def NewDiscoverPool_def pool_newWorker_def Let_def)
  let ?eps = "static_DiscoverOne (\<lambda>_. True) (Some (dp_managers d1 ! i)) unprobed"
  obtain es where "publish (db_api unprobed) unprobed ?eps = Inr es"
    using single by blast
  then obtain r where r: "Reconcile (db_api unprobed) ''ns'' ''db'' NewDiscoverPool = Inr r"
    using nd ad c by (cases "length ?eps = 0") (simp_all add: Reconcile_def db_api_def discover_DiscoverOne_def)
  obtain d' effs again where r3: "r = (d', effs, again)"
    by (rule prod_cases3)
  have "no_results unprobed d'"
    using without_probe_never_ready [OF r [unfolded r3] _ c] by (simp add: no_results_def NewDiscoverPool_def db_api_def)
  then show ?thesis
    using r r3 by blast
qed

definition mysql_status :: "string \<Rightarrow> endpoint_status \<Rightarrow> endpoint_st" where
  "mysql_status a st = \<lparr>es_Address = a, es_Name = [], es_TargetRef = None, es_ServicePort = 0, es_Status = st\<rparr>"

lemma one_port_endpoints_exact_witness:
  "\<exists>q. createEndpointsOnlyOnePort (\<lambda>_. True) (db_component 1) db_service [mysql_status ''10.0.0.7:3306'' EndpointReady] = Inr (Some q) \<and>
     mset (published q) = {#(True, 3306, ''10.0.0.7'')#}"
proof -
  obtain q where q: "createEndpointsOnlyOnePort (\<lambda>_. True) (db_component 1) db_service [mysql_status ''10.0.0.7:3306'' EndpointReady] = Inr (Some q)"
    by (simp add: createEndpointsOnlyOnePort_def db_component_def db_service_def Let_def)
  show ?thesis
    using one_port_endpoints_exact [OF q] q by (simp add: endpoint_entry_def mysql_status_def db_read)
qed

lemma port_map_exact_witness:
  "map_of (portMap (\<lambda>_. True) [mysql_status ''10.0.0.7:3306'' EndpointReady]) 3306 = Some [mysql_status ''10.0.0.7:3306'' EndpointReady]"
  using port_map_exact [of "[mysql_status ''10.0.0.7:3306'' EndpointReady]" "\<lambda>_. True" 3306] by (simp add: mysql_status_def db_read)

lemma service_port_keeps_last_witness:
  "portMap (\<lambda>_. True) [(mysql_status ''10.0.0.7:3306'' EndpointReady)\<lparr>es_ServicePort := 80\<rparr>,
      (mysql_status ''10.0.0.7:3306'' EndpointReady)\<lparr>es_ServicePort := 80, es_Name := ''second''\<rparr>] =
    [(80, [(mysql_status ''10.0.0.7:3306'' EndpointReady)\<lparr>es_ServicePort := 80, es_Name := ''second''\<rparr>])]"
  using service_port_keeps_last [of "[(mysql_status ''10.0.0.7:3306'' EndpointReady)\<lparr>es_ServicePort := 80\<rparr>,
      (mysql_status ''10.0.0.7:3306'' EndpointReady)\<lparr>es_ServicePort := 80, es_Name := ''second''\<rparr>]" 80 "\<lambda>_. True"]
  by (simp add: mysql_status_def db_read)

lemma source_change_panics_witness:
  "Reconcile (db_api (db_component 1)) ''ns'' ''db''
     \<lparr>dp_workers = [(''nsdb'', \<lparr>pw_discover = KubernetesDiscover (db_component 1), pw_loop = None, pw_stoped = False, pw_manager = None\<rparr>)],
      dp_managers = []\<rparr> = Inl NilDereference"
  by (rule source_change_panics [of _ "db_component 1"]) (simp_all add: db_api_def db_meta, simp add: tc_object_meta_def)

lemma update_keeps_old_loop_witness:
  "\<exists>d'. AddDiscover (StaticDiscover (db_component 2) None) (db_pool (db_component 1) NewManager) = Inr (StaticDiscover (db_component 2) (Some 0), d') \<and>
     (\<exists>w'. map_of (dp_workers d') ''nsdb'' = Some w' \<and> pw_discover w' = StaticDiscover (db_component 2) (Some 0) \<and>
       pw_loop w' = Some (StaticDiscover (db_component 1) (Some 0)))"
proof -
  let ?d = "db_pool (db_component 1) NewManager"
  obtain d' where d': "AddDiscover (StaticDiscover (db_component 2) None) ?d = Inr (StaticDiscover (db_component 2) (Some 0), d')"
    by (simp add: AddDiscover_def UpdateDiscover_def db_pool_def db_meta Let_def)
  have "map_of (dp_workers ?d) (pool_key (GetComponent (StaticDiscover (db_component 2) None))) =
      Some \<lparr>pw_discover = StaticDiscover (db_component 1) (Some 0), pw_loop = Some (StaticDiscover (db_component 1) (Some 0)),
        pw_stoped = False, pw_manager = Some 0\<rparr>"
    by (simp add: db_pool_def db_meta)
  from update_keeps_old_loop [OF this _ _ d', of "db_component 1" "Some 0"] show ?thesis
    using d' by (auto simp: db_meta)
qed

end
