(* ===== verification/Helm_Client.thy ===== *)
theory Helm_Client
  imports Go_Prelude
begin

text \<open>
  The helm client of \<^verbatim>\<open>src/pkg/helm\<close>: the repository file and its lock
  (\<^verbatim>\<open>repo.go\<close>), locating a chart in the cache or downloading it, installing,
  upgrading and uninstalling a release (\<^verbatim>\<open>helm.go\<close>).

  The helm library, the file system and the network are not part of the sources. They are the
  fields of \<open>helm_ext\<close>, one function per call the client makes; what the theorems need of
  them is stated as hypotheses on these functions. The state the client changes through them is
  the content of the repository file and the stored releases (\<open>helm_state\<close>).
\<close>

section \<open>Paths\<close>

text \<open>
  \<^verbatim>\<open>path.Clean\<close>: empty elements and \<open>.\<close> are dropped, \<open>..\<close> removes the element
  before it, or is dropped at the root.
\<close>

fun clean_elems :: "bool \<Rightarrow> string list \<Rightarrow> string list \<Rightarrow> string list" where
  "clean_elems rooted acc [] = rev acc"
| "clean_elems rooted acc (e # es) =
     (if e = [] \<or> e = ''.'' then clean_elems rooted acc es
      else if e = ''..'' then
        (case acc of
           [] \<Rightarrow> clean_elems rooted (if rooted then [] else [e]) es
         | a # as \<Rightarrow> clean_elems rooted (if a = ''..'' then e # acc else as) es)
      else clean_elems rooted (e # acc) es)"

definition path_clean :: "string \<Rightarrow> string" where
  "path_clean s =
     (let rooted = (s \<noteq> [] \<and> hd s = CHR ''/'');
          body = join_byte (CHR ''/'') (clean_elems rooted [] (split_byte (CHR ''/'') s))
      in if rooted then CHR ''/'' # body else if body = [] then ''.'' else body)"

definition path_join :: "string list \<Rightarrow> string" where
  "path_join es =
     (case filter (\<lambda>e. e \<noteq> []) es of [] \<Rightarrow> [] | fs \<Rightarrow> path_clean (join_byte (CHR ''/'') fs))"

text \<open>\<^verbatim>\<open>filepath.Ext\<close> and \<^verbatim>\<open>filepath.Dir\<close>.\<close>

definition path_ext :: "string \<Rightarrow> string" where
  "path_ext s =
     (let name = rev (takeWhile (\<lambda>c. c \<noteq> CHR ''/'') (rev s))
      in if CHR ''.'' \<in> set name
         then CHR ''.'' # rev (takeWhile (\<lambda>c. c \<noteq> CHR ''.'') (rev name)) else [])"

definition path_dir :: "string \<Rightarrow> string" where
  "path_dir s = path_clean (rev (dropWhile (\<lambda>c. c \<noteq> CHR ''/'') (rev s)))"

section \<open>Errors\<close>

text \<open>
  The errors of the client, one constructor per message it formats; \<open>Lib_error\<close> is any other
  error of a library. \<^verbatim>\<open>errors.Wrap\<close> and \<^verbatim>\<open>errors.WithMessage\<close> keep the cause,
  so that \<^verbatim>\<open>errors.Is\<close> sees through them.
\<close>

datatype herr =
    ErrReleaseNotFound
  | ErrExist
  | ErrNotExist
  | Lib_error string
  | Wrap string herr
  | Repo_deprecated string string
  | Repo_exists string
  | Not_a_repository string herr
  | Invalid_chart string
  | Wrong_chart_format string
  | Chart_not_found string
  | Version_not_found string string
  | Path_not_found string
  | Download_failed string string
  | Not_installable string

fun is_release_not_found :: "herr \<Rightarrow> bool" where
  "is_release_not_found ErrReleaseNotFound = True"
| "is_release_not_found (Wrap _ e) = is_release_not_found e"
| "is_release_not_found (Not_a_repository _ e) = is_release_not_found e"
| "is_release_not_found _ = False"

section \<open>The library\<close>

record repo_entry =
  re_Name :: string
  re_URL :: string
  re_Username :: string
  re_Password :: string
  re_InsecureSkipTLSverify :: bool
  re_rest :: string \<comment> \<open>the fields the code leaves empty\<close>

datatype hval = Scalar string | Values "hval list" | Table "(string \<times> hval) list"

type_synonym hvals = "(string \<times> hval) list"

record helm_chart =
  ch_id :: string
  ch_Type :: string
  ch_Dependencies :: "string list option"

record helm_release =
  rel_chart :: helm_chart
  rel_values :: hvals
  rel_status :: string

type_synonym releases = "((string \<times> string) \<times> helm_release) list"

type_synonym index_file = "(string \<times> (string \<times> string) list) list"

record helm_ext =
  hx_Init :: "string \<Rightarrow> herr option"
  hx_MkdirAll :: "string \<Rightarrow> herr option"
  hx_TryLock :: "string \<Rightarrow> herr option"
  hx_ReadFile :: "string \<Rightarrow> herr option"
  hx_Unmarshal :: "string \<Rightarrow> herr option"
  hx_Get :: "repo_entry list \<Rightarrow> string \<Rightarrow> repo_entry option"
  hx_Update :: "repo_entry list \<Rightarrow> repo_entry \<Rightarrow> repo_entry list"
  hx_NewChartRepository :: "repo_entry \<Rightarrow> herr option"
  hx_DownloadIndexFile :: "repo_entry \<Rightarrow> string \<Rightarrow> herr option"
  hx_WriteFile :: "string \<Rightarrow> herr option"
  hx_Open :: "string \<Rightarrow> string option"
  hx_Digest :: "string \<Rightarrow> herr + string"
  hx_LoadIndexFile :: "string \<Rightarrow> herr + index_file"
  hx_Stat :: "string \<Rightarrow> bool"
  hx_Abs :: "string \<Rightarrow> herr + string"
  hx_VerifyChart :: "string \<Rightarrow> herr option"
  hx_FindChartInRepoURL :: "string \<Rightarrow> string \<Rightarrow> string \<Rightarrow> herr + string"
  hx_DownloadTo :: "string \<Rightarrow> string \<Rightarrow> string \<Rightarrow> herr + string"
  hx_Load :: "string \<Rightarrow> herr + helm_chart"
  hx_CheckDependencies :: "helm_chart \<Rightarrow> string list \<Rightarrow> herr option"
  hx_ParseInto :: "string \<Rightarrow> hvals \<Rightarrow> herr + hvals"
  hx_Install :: "releases \<Rightarrow> string \<Rightarrow> string \<Rightarrow> bool \<Rightarrow> helm_chart \<Rightarrow> hvals \<Rightarrow> herr option \<times> releases"
  hx_Upgrade :: "releases \<Rightarrow> string \<Rightarrow> string \<Rightarrow> helm_chart \<Rightarrow> hvals \<Rightarrow> herr option \<times> releases"
  hx_Status :: "releases \<Rightarrow> string \<Rightarrow> string \<Rightarrow> herr + string"
  hx_Uninstall :: "releases \<Rightarrow> string \<Rightarrow> string \<Rightarrow> herr option \<times> releases"
  hx_Error :: "herr \<Rightarrow> string"

record helm_state =
  hs_repos :: "repo_entry list"
  hs_releases :: releases

section \<open>The repository file\<close>

record repo =
  rp_repoFile :: string
  rp_repoCache :: string
  rp_forceUpdate :: bool
  rp_insecureSkipTLSverify :: bool

definition NewRepo :: "string \<Rightarrow> string \<Rightarrow> repo" where
  "NewRepo repoFile repoCache =
     \<lparr>rp_repoFile = repoFile, rp_repoCache = repoCache, rp_forceUpdate = False,
      rp_insecureSkipTLSverify = False\<rparr>"

definition deprecatedRepos :: "(string \<times> string) list" where
  "deprecatedRepos =
     [(''//kubernetes-charts.storage.googleapis.com'', ''https://charts.helm.sh/stable''),
      (''//kubernetes-charts-incubator.storage.googleapis.com'', ''https://charts.helm.sh/incubator'')]"

definition new_entry :: "repo \<Rightarrow> string \<Rightarrow> string \<Rightarrow> string \<Rightarrow> string \<Rightarrow> repo_entry" where
  "new_entry r name url username password =
     \<lparr>re_Name = name, re_URL = url, re_Username = username, re_Password = password,
      re_InsecureSkipTLSverify = rp_insecureSkipTLSverify r, re_rest = []\<rparr>"

text \<open>The idiom \<^verbatim>\<open>if err != nil { return err }\<close>.\<close>

definition or_return :: "herr option \<Rightarrow> (herr + 'a) \<Rightarrow> herr + 'a" where
  "or_return err k = (case err of Some e \<Rightarrow> Inl e | None \<Rightarrow> k)"

definition or_bind :: "herr + 'a \<Rightarrow> ('a \<Rightarrow> herr + 'b) \<Rightarrow> herr + 'b" where
  "or_bind m k = (case m of Inl e \<Rightarrow> Inl e | Inr v \<Rightarrow> k v)"

definition wrap :: "string \<Rightarrow> herr + 'a \<Rightarrow> herr + 'a" where
  "wrap msg m = (case m of Inl e \<Rightarrow> Inl (Wrap msg e) | Inr v \<Rightarrow> Inr v)"

lemma or_return_simps [simp]:
  "or_return (Some e) k = Inl e" "or_return None k = k"
  by (simp_all add: or_return_def)

lemma or_bind_simps [simp]:
  "or_bind (Inl e) k = Inl e" "or_bind (Inr v) k = k v"
  by (simp_all add: or_bind_def)

lemma or_return_Inr: "or_return err k = Inr v \<longleftrightarrow> err = None \<and> k = Inr v"
  by (cases err) simp_all

lemma or_bind_Inr: "or_bind m k = Inr v \<longleftrightarrow> (\<exists>u. m = Inr u \<and> k u = Inr v)"
  by (cases m) simp_all

lemma wrap_simps [simp]: "wrap msg (Inl e) = Inl (Wrap msg e)" "wrap msg (Inr v) = Inr v"
  by (simp_all add: wrap_def)

text \<open>
  The steps before the entries are looked at: the directory, the lock, reading and parsing. A file
  that does not exist reads as an empty one.
\<close>

definition read_repo_file :: "helm_ext \<Rightarrow> repo \<Rightarrow> repo_entry list \<Rightarrow> herr + repo_entry list" where
  "read_repo_file x r repos =
     (let file = rp_repoFile r;
          mkdir = hx_MkdirAll x (path_dir file);
          read = hx_ReadFile x file
      in or_return (if mkdir = Some ErrExist then None else mkdir)
        (or_return (hx_TryLock x (replace_first (path_ext file) ''.lock'' file))
        (or_return (if read = Some ErrNotExist then None else read)
        (or_return (hx_Unmarshal x file)
        (Inr (if read = None then repos else []))))))"

text \<open>
  The result is the new content of the file. \<^verbatim>\<open>f.Has(name)\<close> says whether
  \<^verbatim>\<open>f.Get(name)\<close> finds an entry.
\<close>

definition repo_add :: "helm_ext \<Rightarrow> repo \<Rightarrow> repo_entry list \<Rightarrow> string \<Rightarrow> string \<Rightarrow> string \<Rightarrow> string \<Rightarrow>
    herr + repo_entry list" where
  "repo_add x r repos name url username password =
     (case find (\<lambda>(old, new). str_contains url old) deprecatedRepos of
        Some (old, new) \<Rightarrow> Inl (Repo_deprecated url new)
      | None \<Rightarrow>
          or_bind (read_repo_file x r repos) (\<lambda>f.
            let c = new_entry r name url username password
            in if \<not> rp_forceUpdate r \<and> hx_Get x f name \<noteq> None then
                 (if hx_Get x f name \<noteq> Some c then Inl (Repo_exists name) else Inr repos)
               else or_return (hx_NewChartRepository x c)
                 (case hx_DownloadIndexFile x c (rp_repoCache r) of
                    Some e \<Rightarrow> Inl (Not_a_repository url e)
                  | None \<Rightarrow> or_return (hx_WriteFile x (rp_repoFile r)) (Inr (hx_Update x f c)))))"

definition Repo_Add :: "helm_ext \<Rightarrow> repo \<Rightarrow> helm_state \<Rightarrow> string \<Rightarrow> string \<Rightarrow> string \<Rightarrow> string \<Rightarrow>
    herr option \<times> helm_state" where
  "Repo_Add x r st name url username password =
     (case repo_add x r (hs_repos st) name url username password of
        Inl e \<Rightarrow> (Some e, st)
      | Inr repos \<Rightarrow> (None, st\<lparr>hs_repos := repos\<rparr>))"

section \<open>Charts\<close>

record helm_cmd =
  hm_namespace :: string
  hm_repoFile :: string
  hm_repoCache :: string
  hm_RepositoryCache :: string
  hm_Debug :: bool

definition NewHelm :: "helm_ext \<Rightarrow> string \<Rightarrow> string \<Rightarrow> string \<Rightarrow> herr + helm_cmd" where
  "NewHelm x namespace repoFile repoCache =
     (case hx_Init x namespace of
        Some e \<Rightarrow> Inl (Wrap ''init config'' e)
      | None \<Rightarrow> Inr \<lparr>hm_namespace = namespace, hm_repoFile = repoFile, hm_repoCache = repoCache,
                    hm_RepositoryCache = repoCache, hm_Debug = True\<rparr>)"

record chart_path_options =
  cpo_Version :: string
  cpo_Verify :: bool
  cpo_RepoURL :: string

definition LocateChart :: "helm_ext \<Rightarrow> helm_cmd \<Rightarrow> chart_path_options \<Rightarrow> string \<Rightarrow> string \<Rightarrow> herr + string" where
  "LocateChart x h c name0 dest =
     (let name = trim_space name0;
          version = trim_space (cpo_Version c)
      in if hx_Stat x name then
           or_bind (hx_Abs x name) (\<lambda>abs.
             or_return (if cpo_Verify c then hx_VerifyChart x abs else None) (Inr abs))
         else if prefix ''/'' name \<or> prefix ''.'' name then Inl (Path_not_found name)
         else or_bind (if cpo_RepoURL c \<noteq> [] then hx_FindChartInRepoURL x (cpo_RepoURL c) name version
                       else Inr name) (\<lambda>name.
           or_return (hx_MkdirAll x dest)
             (case hx_DownloadTo x name version dest of
                Inr filename \<Rightarrow> hx_Abs x filename
              | Inl e \<Rightarrow> if hm_Debug h then Inl e else Inl (Download_failed name version))))"

definition getDigest :: "helm_ext \<Rightarrow> helm_cmd \<Rightarrow> string \<Rightarrow> string \<Rightarrow> herr + string" where
  "getDigest x h chart version =
     (case split_byte (CHR ''/'') chart of
        [repoName, appName] \<Rightarrow>
          or_bind (wrap ''load index file''
              (hx_LoadIndexFile x (path_join [hm_repoCache h, repoName @ ''-index.yaml'']))) (\<lambda>index.
            case map_of index appName of
              None \<Rightarrow> Inl (Chart_not_found chart)
            | Some entries \<Rightarrow>
                (case map_of entries version of
                   Some digest \<Rightarrow> Inr digest
                 | None \<Rightarrow> Inl (Version_not_found chart version)))
      | _ \<Rightarrow> Inl (Wrong_chart_format chart))"

text \<open>
  The archive in the cache is used when its digest is the one of the repository index; otherwise
  the chart is looked for anew.
\<close>

definition locateChart :: "helm_ext \<Rightarrow> helm_cmd \<Rightarrow> string \<Rightarrow> string \<Rightarrow> herr + string" where
  "locateChart x h chart version =
     (case split_byte (CHR ''/'') chart of
        [repoName, appName] \<Rightarrow>
          (let chartCache = path_join [hm_RepositoryCache h, chart, version];
               cp = path_join [chartCache, appName @ ''-'' @ version @ ''.tgz''];
               fetch = LocateChart x h \<lparr>cpo_Version = version, cpo_Verify = False, cpo_RepoURL = []\<rparr>
                         chart chartCache
           in case hx_Open x cp of
                None \<Rightarrow> fetch
              | Some f \<Rightarrow>
                  or_bind (wrap ''digist chart file'' (hx_Digest x f)) (\<lambda>hash.
                  or_bind (getDigest x h chart version) (\<lambda>digest.
                    if hash = digest then Inr cp else fetch)))
      | _ \<Rightarrow> Inl (Invalid_chart chart))"

definition checkIfInstallable :: "helm_chart \<Rightarrow> herr option" where
  "checkIfInstallable ch =
     (if ch_Type ch = [] \<or> ch_Type ch = ''application'' then None else Some (Not_installable (ch_Type ch)))"

fun parse_all :: "helm_ext \<Rightarrow> hvals \<Rightarrow> string list \<Rightarrow> herr + hvals" where
  "parse_all x vals [] = Inr vals"
| "parse_all x vals (o' # os) =
     or_bind (wrap ''failed parsing --set data'' (hx_ParseInto x o' vals)) (\<lambda>vals'. parse_all x vals' os)"

definition parseOverrides :: "helm_ext \<Rightarrow> string list \<Rightarrow> herr + hvals" where
  "parseOverrides x overrides = parse_all x [] overrides"

text \<open>\<^verbatim>\<open>if req := chart.Metadata.Dependencies; req != nil\<close>: the error of the check, if any.\<close>

definition check_deps :: "helm_ext \<Rightarrow> helm_chart \<Rightarrow> herr option" where
  "check_deps x ch = (case ch_Dependencies ch of None \<Rightarrow> None | Some req \<Rightarrow> hx_CheckDependencies x ch req)"

section \<open>Releases\<close>

text \<open>
  What \<^verbatim>\<open>install\<close> does before it runs the action; \<^verbatim>\<open>DependencyUpdate\<close> of a fresh action
  is off, so an unmet dependency is an error.
\<close>

definition install_chart :: "helm_ext \<Rightarrow> helm_cmd \<Rightarrow> string \<Rightarrow> string \<Rightarrow> string list \<Rightarrow> herr + helm_chart \<times> hvals" where
  "install_chart x h chart version overrides =
     or_bind (locateChart x h chart version) (\<lambda>cp.
     or_bind (parseOverrides x overrides) (\<lambda>vals.
     or_bind (hx_Load x cp) (\<lambda>ch.
     or_return (checkIfInstallable ch)
     (or_return (check_deps x ch) (Inr (ch, vals))))))"

definition helm_install :: "helm_ext \<Rightarrow> helm_cmd \<Rightarrow> helm_state \<Rightarrow> string \<Rightarrow> string \<Rightarrow> string \<Rightarrow> string list \<Rightarrow>
    bool \<Rightarrow> herr option \<times> helm_state" where
  "helm_install x h st name chart version overrides dryRun =
     (case install_chart x h chart version overrides of
        Inl e \<Rightarrow> (Some e, st)
      | Inr (ch, vals) \<Rightarrow>
          (case hx_Install x (hs_releases st) (hm_namespace h) name dryRun ch vals of
             (err, rels) \<Rightarrow> (err, st\<lparr>hs_releases := rels\<rparr>)))"

definition helm_PreInstall :: "helm_ext \<Rightarrow> helm_cmd \<Rightarrow> helm_state \<Rightarrow> string \<Rightarrow> string \<Rightarrow> string \<Rightarrow>
    herr option \<times> helm_state" where
  "helm_PreInstall x h st name chart version = helm_install x h st name chart version [] True"

definition helm_Install :: "helm_ext \<Rightarrow> helm_cmd \<Rightarrow> helm_state \<Rightarrow> string \<Rightarrow> string \<Rightarrow> string \<Rightarrow> string list \<Rightarrow>
    herr option \<times> helm_state" where
  "helm_Install x h st name chart version overrides = helm_install x h st name chart version overrides False"

definition upgrade_chart :: "helm_ext \<Rightarrow> helm_cmd \<Rightarrow> string \<Rightarrow> string \<Rightarrow> string list \<Rightarrow> herr + helm_chart \<times> hvals" where
  "upgrade_chart x h chart version overrides =
     or_bind (locateChart x h chart version) (\<lambda>cp.
     or_bind (parseOverrides x overrides) (\<lambda>vals.
     or_bind (hx_Load x cp) (\<lambda>ch.
     or_return (check_deps x ch) (Inr (ch, vals)))))"

definition helm_Upgrade :: "helm_ext \<Rightarrow> helm_cmd \<Rightarrow> helm_state \<Rightarrow> string \<Rightarrow> string \<Rightarrow> string \<Rightarrow> string list \<Rightarrow>
    herr option \<times> helm_state" where
  "helm_Upgrade x h st name chart version overrides =
     (case upgrade_chart x h chart version overrides of
        Inl e \<Rightarrow> (Some e, st)
      | Inr (ch, vals) \<Rightarrow>
          (case hx_Upgrade x (hs_releases st) (hm_namespace h) name ch vals of
             (err, rels) \<Rightarrow> (err, st\<lparr>hs_releases := rels\<rparr>)))"

definition helm_Status :: "helm_ext \<Rightarrow> helm_cmd \<Rightarrow> helm_state \<Rightarrow> string \<Rightarrow> herr + string" where
  "helm_Status x h st name = wrap ''helm status'' (hx_Status x (hs_releases st) (hm_namespace h) name)"

definition helm_Uninstall :: "helm_ext \<Rightarrow> helm_cmd \<Rightarrow> helm_state \<Rightarrow> string \<Rightarrow> herr option \<times> helm_state" where
  "helm_Uninstall x h st name =
     (case hx_Uninstall x (hs_releases st) (hm_namespace h) name of
        (err, rels) \<Rightarrow> (err, st\<lparr>hs_releases := rels\<rparr>))"

end
