(* ===== verification/Helm_App.thy ===== *)
theory Helm_App
  imports Helm_Client
begin

text \<open>
  The controller of helm applications: the conditions of a \<^verbatim>\<open>HelmApp\<close>
  (\<^verbatim>\<open>src/pkg/apis/wutong/v1alpha1/helmapp_status.go\<close>), and its reconciliation
  (\<^verbatim>\<open>src/worker/master/controller/helmapp\<close>): set-up of the defaults, detection of the
  chart, installation or upgrade, and the phase that is written back.

  The API server is not part of the sources. A reconciliation gets the cached object; every write
  goes through \<^verbatim>\<open>RetryOnConflict\<close>, and the list of the attempts it makes, with the answer of
  the server to each, is a parameter (\<open>api\<close>). A write of the status stores the status, a
  write of the object stores the specification, as for every resource with a status subresource.
\<close>

section \<open>The resource\<close>

definition HelmAppStatusPhaseDetecting :: string where "HelmAppStatusPhaseDetecting = ''detecting''"
definition HelmAppStatusPhaseConfiguring :: string where "HelmAppStatusPhaseConfiguring = ''configuring''"
definition HelmAppStatusPhaseInstalling :: string where "HelmAppStatusPhaseInstalling = ''installing''"
definition HelmAppStatusPhaseInstalled :: string where "HelmAppStatusPhaseInstalled = ''installed''"
definition HelmAppChartReady :: string where "HelmAppChartReady = ''ChartReady''"
definition HelmAppPreInstalled :: string where "HelmAppPreInstalled = ''PreInstalled''"
definition HelmAppInstalled :: string where "HelmAppInstalled = ''HelmAppInstalled''"
definition HelmAppPreStatusNotConfigured :: string where "HelmAppPreStatusNotConfigured = ''NotConfigured''"
definition HelmAppPreStatusConfigured :: string where "HelmAppPreStatusConfigured = ''Configured''"
definition ConditionTrue :: string where "ConditionTrue = ''True''"
definition ConditionFalse :: string where "ConditionFalse = ''False''"

lemmas helm_consts =
  HelmAppStatusPhaseDetecting_def HelmAppStatusPhaseConfiguring_def
  HelmAppStatusPhaseInstalling_def HelmAppStatusPhaseInstalled_def
  HelmAppChartReady_def HelmAppPreInstalled_def HelmAppInstalled_def
  HelmAppPreStatusNotConfigured_def HelmAppPreStatusConfigured_def
  ConditionTrue_def ConditionFalse_def

record helm_condition =
  hc_Type :: string
  hc_Status :: string
  hc_LastTransitionTime :: int
  hc_Reason :: string
  hc_Message :: string

record helm_app_store =
  as_Version :: string
  as_Name :: string
  as_URL :: string
  as_Branch :: string
  as_Username :: string
  as_Password :: string

record helm_app_spec =
  sp_PreStatus :: string
  sp_TemplateName :: string
  sp_Version :: string
  sp_Revision :: int
  sp_AppStore :: "helm_app_store option"
  sp_Overrides :: "string list"

record helm_app_status =
  hst_Status :: string
  hst_Phase :: string
  hst_Conditions :: "helm_condition list"
  hst_CurrentVersion :: string
  hst_Overrides :: "string list"

record helm_app =
  ha_Name :: string
  ha_Namespace :: string
  ha_ResourceVersion :: string
  ha_Spec :: helm_app_spec
  ha_Status :: helm_app_status

text \<open>The lengths agree and every override in effect is wanted.\<close>

definition OverridesEqual :: "helm_app \<Rightarrow> bool" where
  "OverridesEqual app \<longleftrightarrow>
     length (sp_Overrides (ha_Spec app)) = length (hst_Overrides (ha_Status app)) \<and>
     list_all (\<lambda>o'. o' \<in> set (sp_Overrides (ha_Spec app))) (hst_Overrides (ha_Status app))"

section \<open>Conditions\<close>

definition NewHelmAppCondition :: "int \<Rightarrow> string \<Rightarrow> string \<Rightarrow> string \<Rightarrow> string \<Rightarrow> helm_condition" where
  "NewHelmAppCondition now condType status reason message =
     \<lparr>hc_Type = condType, hc_Status = status, hc_LastTransitionTime = now, hc_Reason = reason,
      hc_Message = message\<rparr>"

text \<open>The first condition of the type and its position.\<close>

fun condition_from :: "nat \<Rightarrow> helm_condition list \<Rightarrow> string \<Rightarrow> (nat \<times> helm_condition) option" where
  "condition_from i [] t = None"
| "condition_from i (c # cs) t = (if t = hc_Type c then Some (i, c) else condition_from (Suc i) cs t)"

definition GetCondition :: "helm_app_status \<Rightarrow> string \<Rightarrow> (nat \<times> helm_condition) option" where
  "GetCondition st t = condition_from 0 (hst_Conditions st) t"

definition IsConditionTrue :: "helm_app_status \<Rightarrow> string \<Rightarrow> bool" where
  "IsConditionTrue st t =
     (case GetCondition st t of None \<Rightarrow> False | Some (i, c) \<Rightarrow> hc_Status c = ConditionTrue)"

definition SetCondition :: "helm_condition \<Rightarrow> helm_app_status \<Rightarrow> helm_app_status" where
  "SetCondition c st =
     (case GetCondition st (hc_Type c) of
        None \<Rightarrow> st\<lparr>hst_Conditions := hst_Conditions st @ [c]\<rparr>
      | Some (pos, cp) \<Rightarrow>
          if hc_Status cp = hc_Status c \<and> hc_Reason cp = hc_Reason c \<and> hc_Message cp = hc_Message c
          then st
          else st\<lparr>hst_Conditions := (hst_Conditions st)[pos := c]\<rparr>)"

text \<open>The boolean says whether the condition has changed or is new.\<close>

definition UpdateCondition :: "int \<Rightarrow> helm_condition \<Rightarrow> helm_app_status \<Rightarrow> bool \<times> helm_app_status" where
  "UpdateCondition now c st =
     (case GetCondition st (hc_Type c) of
        None \<Rightarrow> (True, st\<lparr>hst_Conditions := hst_Conditions st @ [c\<lparr>hc_LastTransitionTime := now\<rparr>]\<rparr>)
      | Some (pos, old) \<Rightarrow>
          (let c' = c\<lparr>hc_LastTransitionTime :=
                 if hc_Status c = hc_Status old then hc_LastTransitionTime old else now\<rparr>
           in (\<not> (hc_Status c' = hc_Status old \<and> hc_Reason c' = hc_Reason old \<and>
                  hc_Message c' = hc_Message old \<and>
                  hc_LastTransitionTime c' = hc_LastTransitionTime old),
               st\<lparr>hst_Conditions := (hst_Conditions st)[pos := c']\<rparr>)))"

definition UpdateConditionStatus :: "int \<Rightarrow> string \<Rightarrow> string \<Rightarrow> helm_app_status \<Rightarrow> helm_app_status" where
  "UpdateConditionStatus now t status st =
     (case GetCondition st t of
        Some (i, c) \<Rightarrow>
          snd (UpdateCondition now
            (if status = ConditionTrue then c\<lparr>hc_Status := status, hc_Reason := [], hc_Message := []\<rparr>
             else c\<lparr>hc_Status := status\<rparr>) st)
      | None \<Rightarrow> snd (UpdateCondition now (NewHelmAppCondition now t status [] []) st))"

section \<open>Writing back\<close>

datatype attempt = Get_fails herr | Write_fails herr | Written string

record api =
  api_status :: "attempt list"
  api_spec :: "attempt list"
  api_running :: "attempt list"

record world =
  w_helm :: helm_state
  w_stored :: "helm_app option"

definition isDetected :: "helm_app_status \<Rightarrow> bool" where
  "isDetected st = list_all (IsConditionTrue st) [HelmAppChartReady, HelmAppPreInstalled]"

definition getPhase :: "helm_app \<Rightarrow> string" where
  "getPhase app =
     (let phase = HelmAppStatusPhaseDetecting;
          phase = (if isDetected (ha_Status app) then HelmAppStatusPhaseConfiguring else phase);
          phase = (if sp_PreStatus (ha_Spec app) = HelmAppPreStatusConfigured
                   then HelmAppStatusPhaseInstalling else phase)
      in case GetCondition (ha_Status app) HelmAppInstalled of
           Some (i, c) \<Rightarrow> if hc_Status c = ConditionTrue then HelmAppStatusPhaseInstalled else phase
         | None \<Rightarrow> phase)"

abbreviation with_phase :: "helm_app \<Rightarrow> helm_app" where
  "with_phase app \<equiv> app\<lparr>ha_Status := (ha_Status app)\<lparr>hst_Phase := getPhase app\<rparr>\<rparr>"

text \<open>One attempt of \<^verbatim>\<open>Status.Update\<close>, and of \<^verbatim>\<open>App.UpdateSpec\<close>.\<close>

fun try_status :: "attempt \<Rightarrow> helm_app \<Rightarrow> helm_app option \<Rightarrow> herr option \<times> helm_app \<times> helm_app option" where
  "try_status (Get_fails e) app stored = (Some (Wrap ''get helm app before update'' e), app, stored)"
| "try_status a app None =
     (Some (Wrap ''get helm app before update'' (Lib_error ''NotFound'')), app, None)"
| "try_status (Write_fails e) app (Some s) =
     (Some e, (with_phase app)\<lparr>ha_ResourceVersion := ha_ResourceVersion s\<rparr>, Some s)"
| "try_status (Written rv) app (Some s) =
     (None, (with_phase app)\<lparr>ha_ResourceVersion := ha_ResourceVersion s\<rparr>,
      Some (s\<lparr>ha_Status := ha_Status (with_phase app), ha_ResourceVersion := rv\<rparr>))"

fun try_spec :: "attempt \<Rightarrow> helm_app \<Rightarrow> helm_app option \<Rightarrow> herr option \<times> helm_app \<times> helm_app option" where
  "try_spec (Get_fails e) app stored = (Some (Wrap ''get helm app before update'' e), app, stored)"
| "try_spec a app None =
     (Some (Wrap ''get helm app before update'' (Lib_error ''NotFound'')), app, None)"
| "try_spec (Write_fails e) app (Some s) =
     (Some (Wrap ''update helm app spec'' e), app\<lparr>ha_ResourceVersion := ha_ResourceVersion s\<rparr>, Some s)"
| "try_spec (Written rv) app (Some s) =
     (None, app\<lparr>ha_ResourceVersion := ha_ResourceVersion s\<rparr>,
      Some (s\<lparr>ha_Spec := ha_Spec app, ha_ResourceVersion := rv\<rparr>))"

text \<open>The last attempt decides; \<^verbatim>\<open>RetryOnConflict\<close> makes at least one.\<close>

fun retry :: "(attempt \<Rightarrow> helm_app \<Rightarrow> helm_app option \<Rightarrow> herr option \<times> helm_app \<times> helm_app option) \<Rightarrow>
    attempt list \<Rightarrow> helm_app \<Rightarrow> helm_app option \<Rightarrow> herr option \<times> helm_app \<times> helm_app option" where
  "retry try [] app stored = (Some (Lib_error ''timed out''), app, stored)"
| "retry try [a] app stored = try a app stored"
| "retry try (a # b # as) app stored =
     (case try a app stored of (err, app', stored') \<Rightarrow> retry try (b # as) app' stored')"

definition Status_Update :: "attempt list \<Rightarrow> helm_app \<Rightarrow> world \<Rightarrow> herr option \<times> helm_app \<times> world" where
  "Status_Update as app w =
     (case retry try_status as app (w_stored w) of
        (err, app', stored) \<Rightarrow> (err, app', w\<lparr>w_stored := stored\<rparr>))"

definition Spec_Update :: "attempt list \<Rightarrow> helm_app \<Rightarrow> world \<Rightarrow> herr option \<times> helm_app \<times> world" where
  "Spec_Update as app w =
     (case retry try_spec as app (w_stored w) of
        (err, app', stored) \<Rightarrow> (err, app', w\<lparr>w_stored := stored\<rparr>))"

section \<open>The application of a reconciliation\<close>

record app =
  ap_helmApp :: helm_app
  ap_originalHelmApp :: helm_app
  ap_name :: string
  ap_namespace :: string
  ap_templateName :: string
  ap_version :: string
  ap_repoName :: string
  ap_repoURL :: string
  ap_overrides :: "string list"
  ap_revision :: int
  ap_chartDir :: string
  ap_helmCmd :: helm_cmd
  ap_repo :: repo

abbreviation app_status :: "app \<Rightarrow> helm_app_status" where
  "app_status a \<equiv> ha_Status (ap_helmApp a)"

abbreviation app_spec :: "app \<Rightarrow> helm_app_spec" where
  "app_spec a \<equiv> ha_Spec (ap_helmApp a)"

text \<open>A change of the status of the object the application holds.\<close>

definition on_status :: "(helm_app_status \<Rightarrow> helm_app_status) \<Rightarrow> app \<Rightarrow> app" where
  "on_status f a = a\<lparr>ap_helmApp := (ap_helmApp a)\<lparr>ha_Status := f (app_status a)\<rparr>\<rparr>"

definition Chart :: "app \<Rightarrow> string" where
  "Chart a = ap_repoName a @ ''/'' @ ap_templateName a"

record dirs =
  d_repoFile :: string
  d_repoCache :: string
  d_chartCache :: string

text \<open>An object without a store panics when its name is read.\<close>

definition NewApp :: "helm_ext \<Rightarrow> dirs \<Rightarrow> helm_app \<Rightarrow> (herr + app) go" where
  "NewApp x d helmApp =
     (case NewHelm x (ha_Namespace helmApp) (d_repoFile d) (d_repoCache d) of
        Inl e \<Rightarrow> Inr (Inl e)
      | Inr helmCmd \<Rightarrow>
          bind_go (deref (sp_AppStore (ha_Spec helmApp))) (\<lambda>store.
            Inr (Inr \<lparr>ap_helmApp = helmApp, ap_originalHelmApp = helmApp,
              ap_name = ha_Name helmApp, ap_namespace = ha_Namespace helmApp,
              ap_templateName = sp_TemplateName (ha_Spec helmApp),
              ap_version = sp_Version (ha_Spec helmApp),
              ap_repoName = as_Name store, ap_repoURL = as_URL store,
              ap_overrides = sp_Overrides (ha_Spec helmApp),
              ap_revision = sp_Revision (ha_Spec helmApp),
              ap_chartDir = path_join [d_chartCache d, ha_Namespace helmApp, ha_Name helmApp,
                sp_Version (ha_Spec helmApp)],
              ap_helmCmd = helmCmd, ap_repo = NewRepo (d_repoFile d) (d_repoCache d)\<rparr>)))"

definition defaultConditionTypes :: "string list" where
  "defaultConditionTypes = [HelmAppChartReady, HelmAppPreInstalled, HelmAppInstalled]"

definition NeedSetup :: "app \<Rightarrow> bool" where
  "NeedSetup a \<longleftrightarrow> sp_PreStatus (app_spec a) = [] \<or> hst_Phase (app_status a) = [] \<or>
     list_ex (\<lambda>t. GetCondition (app_status a) t = None) defaultConditionTypes"

definition NeedDetect :: "app \<Rightarrow> bool" where
  "NeedDetect a \<longleftrightarrow>
     list_ex (\<lambda>t. \<not> IsConditionTrue (app_status a) t) [HelmAppChartReady, HelmAppPreInstalled]"

definition NeedUpdate :: "app \<Rightarrow> bool" where
  "NeedUpdate a \<longleftrightarrow> sp_PreStatus (app_spec a) = HelmAppPreStatusConfigured \<and>
     (\<not> OverridesEqual (ap_helmApp a) \<or>
      sp_Version (app_spec a) \<noteq> hst_CurrentVersion (app_status a))"

definition UpdateStatus :: "attempt list \<Rightarrow> app \<Rightarrow> world \<Rightarrow> herr option \<times> app \<times> world" where
  "UpdateStatus as a w =
     (case Status_Update as (ap_helmApp a) w of
        (err, h, w') \<Rightarrow> (err, a\<lparr>ap_helmApp := h\<rparr>, w'))"

definition UpdateSpec :: "attempt list \<Rightarrow> app \<Rightarrow> world \<Rightarrow> herr option \<times> app \<times> world" where
  "UpdateSpec as a w =
     (case Spec_Update as (ap_helmApp a) w of
        (err, h, w') \<Rightarrow> (err, a\<lparr>ap_helmApp := h\<rparr>, w'))"

definition Update :: "api \<Rightarrow> app \<Rightarrow> world \<Rightarrow> herr option \<times> app \<times> world" where
  "Update env a w =
     (case UpdateStatus (api_status env) a w of
        (Some e, a', w') \<Rightarrow> (Some e, a', w')
      | (None, a', w') \<Rightarrow> UpdateSpec (api_spec env) a' w')"

definition default_condition :: "int \<Rightarrow> helm_app_status \<Rightarrow> string \<Rightarrow> helm_app_status" where
  "default_condition now st t =
     (if GetCondition st t = None then UpdateConditionStatus now t ConditionFalse st else st)"

definition setup_defaults :: "int \<Rightarrow> helm_app \<Rightarrow> helm_app" where
  "setup_defaults now h =
     (let spec = ha_Spec h; st = ha_Status h;
          spec = (if sp_PreStatus spec = [] then spec\<lparr>sp_PreStatus := HelmAppPreStatusNotConfigured\<rparr> else spec);
          st = (if hst_Phase st = [] then st\<lparr>hst_Phase := HelmAppStatusPhaseDetecting\<rparr> else st)
      in h\<lparr>ha_Spec := spec, ha_Status := foldl (default_condition now) st defaultConditionTypes\<rparr>)"

definition Setup :: "api \<Rightarrow> int \<Rightarrow> app \<Rightarrow> world \<Rightarrow> herr option \<times> app \<times> world" where
  "Setup env now a w = Update env (a\<lparr>ap_helmApp := setup_defaults now (ap_helmApp a)\<rparr>) w"

section \<open>Detection\<close>

definition on_helm :: "world \<Rightarrow> herr option \<times> helm_state \<Rightarrow> herr option \<times> world" where
  "on_helm w r = (fst r, w\<lparr>w_helm := snd r\<rparr>)"

text \<open>Adding the repository comes before every use of the chart.\<close>

definition with_repo :: "helm_ext \<Rightarrow> app \<Rightarrow> world \<Rightarrow> (world \<Rightarrow> herr option \<times> world) \<Rightarrow> herr option \<times> world" where
  "with_repo x a w k =
     (case on_helm w (Repo_Add x (ap_repo a) (w_helm w) (ap_repoName a) (ap_repoURL a) [] []) of
        (Some e, w') \<Rightarrow> (Some e, w')
      | (None, w') \<Rightarrow> k w')"

definition LoadChart :: "helm_ext \<Rightarrow> app \<Rightarrow> world \<Rightarrow> herr option \<times> world" where
  "LoadChart x a w = with_repo x a w (\<lambda>w'.
     (case locateChart x (ap_helmCmd a) (Chart a) (ap_version a) of
        Inl e \<Rightarrow> (Some e, w') | Inr p \<Rightarrow> (None, w')))"

definition PreInstall :: "helm_ext \<Rightarrow> app \<Rightarrow> world \<Rightarrow> herr option \<times> world" where
  "PreInstall x a w = with_repo x a w (\<lambda>w'.
     on_helm w' (helm_PreInstall x (ap_helmCmd a) (w_helm w') (ap_name a) (Chart a) (ap_version a)))"

text \<open>
  \<^verbatim>\<open>Detector.Detect\<close>. A failure of the repository is recorded with
  \<^verbatim>\<open>SetCondition\<close>, the others with \<^verbatim>\<open>UpdateCondition\<close>.
\<close>

definition Detector_Detect :: "helm_ext \<Rightarrow> int \<Rightarrow> app \<Rightarrow> world \<Rightarrow> (herr option \<times> app \<times> world) go" where
  "Detector_Detect x now a w =
     (if \<not> IsConditionTrue (app_status a) HelmAppChartReady then
        bind_go (deref (sp_AppStore (app_spec a))) (\<lambda>store.
          Inr (case on_helm w (Repo_Add x (ap_repo a) (w_helm w) (as_Name store) (as_URL store) [] []) of
            (Some e, w1) \<Rightarrow>
              (Some e, on_status (SetCondition (NewHelmAppCondition now HelmAppChartReady ConditionFalse
                ''RepoFailed'' (hx_Error x e))) a, w1)
          | (None, w1) \<Rightarrow>
              (case LoadChart x a w1 of
                 (Some e, w2) \<Rightarrow>
                   (Some e, on_status (\<lambda>st. snd (UpdateCondition now
                     (NewHelmAppCondition now HelmAppChartReady ConditionFalse ''ChartFailed''
                       (hx_Error x e)) st)) a, w2)
               | (None, w2) \<Rightarrow>
                   (None, on_status (UpdateConditionStatus now HelmAppChartReady ConditionTrue) a, w2))))
      else if \<not> IsConditionTrue (app_status a) HelmAppPreInstalled then
        Inr (case PreInstall x a w of
          (Some e, w1) \<Rightarrow>
            (Some e, on_status (\<lambda>st. snd (UpdateCondition now
              (NewHelmAppCondition now HelmAppPreInstalled ConditionFalse ''PreInstallFailed''
                (hx_Error x e)) st)) a, w1)
        | (None, w1) \<Rightarrow>
            (None, on_status (UpdateConditionStatus now HelmAppPreInstalled ConditionTrue) a, w1))
      else Inr (None, a, w))"

definition Detect :: "helm_ext \<Rightarrow> api \<Rightarrow> int \<Rightarrow> app \<Rightarrow> world \<Rightarrow> (herr option \<times> app \<times> world) go" where
  "Detect x env now a w =
     bind_go (Detector_Detect x now a w) (\<lambda>(err, a', w').
       Inr (case err of
         Some e \<Rightarrow>
           (case UpdateStatus (api_status env) a' w' of
              (err', a'', w'') \<Rightarrow> (Some (Wrap ''detect helm app'' e), a'', w''))
       | None \<Rightarrow> UpdateStatus (api_status env) a' w'))"

section \<open>Installation\<close>

text \<open>The release is installed when helm does not know it, and upgraded otherwise.\<close>

definition install_or_upgrade :: "helm_ext \<Rightarrow> app \<Rightarrow> world \<Rightarrow> herr option \<times> world" where
  "install_or_upgrade x a w =
     (case helm_Status x (ap_helmCmd a) (w_helm w) (ap_name a) of
        Inl e \<Rightarrow>
          if \<not> is_release_not_found e then (Some e, w)
          else on_helm w (helm_Install x (ap_helmCmd a) (w_helm w) (ap_name a) (Chart a)
                 (ap_version a) (ap_overrides a))
      | Inr rel \<Rightarrow>
          on_helm w (helm_Upgrade x (ap_helmCmd a) (w_helm w) (ap_name a) (Chart a)
            (ap_version a) (ap_overrides a)))"

definition installOrUpdate :: "helm_ext \<Rightarrow> app \<Rightarrow> world \<Rightarrow> herr option \<times> world" where
  "installOrUpdate x a w = with_repo x a w (install_or_upgrade x a)"

definition mark_installed :: "int \<Rightarrow> helm_app_spec \<Rightarrow> helm_app_status \<Rightarrow> helm_app_status" where
  "mark_installed now spec st =
     (UpdateConditionStatus now HelmAppInstalled ConditionTrue st)
       \<lparr>hst_CurrentVersion := sp_Version spec, hst_Overrides := sp_Overrides spec\<rparr>"

definition InstallOrUpdate :: "helm_ext \<Rightarrow> api \<Rightarrow> int \<Rightarrow> app \<Rightarrow> world \<Rightarrow> herr option \<times> app \<times> world" where
  "InstallOrUpdate x env now a w =
     (case installOrUpdate x a w of
        (Some e, w') \<Rightarrow>
          UpdateStatus (api_status env)
            (on_status (SetCondition (NewHelmAppCondition now HelmAppInstalled ConditionFalse
              ''InstallFailed'' (hx_Error x e))) a) w'
      | (None, w') \<Rightarrow>
          UpdateStatus (api_status env) (on_status (mark_installed now (app_spec a)) a) w')"

definition Uninstall :: "helm_ext \<Rightarrow> app \<Rightarrow> world \<Rightarrow> herr option \<times> world" where
  "Uninstall x a w = on_helm w (helm_Uninstall x (ap_helmCmd a) (w_helm w) (ap_name a))"

section \<open>The control loop\<close>

definition UpdateRunningStatus :: "helm_ext \<Rightarrow> api \<Rightarrow> app \<Rightarrow> world \<Rightarrow> world" where
  "UpdateRunningStatus x env a w =
     (if hst_Phase (app_status a) \<noteq> HelmAppStatusPhaseInstalled then w
      else case helm_Status x (ap_helmCmd a) (w_helm w) (ap_name a) of
        Inl e \<Rightarrow> w
      | Inr newStatus \<Rightarrow>
          if hst_Status (app_status a) = newStatus then w
          else snd (snd (Status_Update (api_running env)
            (ap_helmApp (on_status (\<lambda>st. st\<lparr>hst_Status := newStatus\<rparr>) a)) w)))"

text \<open>The work of a reconciliation, without the deferred update of the running status.\<close>

definition reconcile_app :: "helm_ext \<Rightarrow> api \<Rightarrow> int \<Rightarrow> app \<Rightarrow> world \<Rightarrow> (herr option \<times> app \<times> world) go" where
  "reconcile_app x env now a w =
     (if NeedSetup a then Inr (Setup env now a w)
      else if NeedDetect a then Detect x env now a w
      else if NeedUpdate a then Inr (InstallOrUpdate x env now a w)
      else Inr (None, a, w))"

definition helm_Reconcile :: "helm_ext \<Rightarrow> api \<Rightarrow> int \<Rightarrow> dirs \<Rightarrow> helm_app \<Rightarrow> world \<Rightarrow> (herr option \<times> world) go" where
  "helm_Reconcile x env now d helmApp w =
     bind_go (NewApp x d helmApp) (\<lambda>r.
       case r of
         Inl e \<Rightarrow> Inr (Some e, w)
       | Inr a \<Rightarrow> bind_go (reconcile_app x env now a w) (\<lambda>(err, a', w').
           Inr (err, UpdateRunningStatus x env a' w')))"

definition ObjKey :: "helm_app \<Rightarrow> string" where
  "ObjKey h = ha_Name h @ ''/'' @ ha_Namespace h"

definition nameNamespace :: "string \<Rightarrow> (string \<times> string) go" where
  "nameNamespace key =
     (case split_byte (CHR ''/'') key of
        n # ns # rest \<Rightarrow> Inr (n, ns) | _ \<Rightarrow> Inl IndexOutOfRange)"

datatype queued = Queued_key string | Queued_app helm_app | Queued_other

text \<open>The boolean says whether the item is marked as done in its queue.\<close>

definition ControlLoop_run :: "helm_ext \<Rightarrow> api \<Rightarrow> int \<Rightarrow> dirs \<Rightarrow> (string \<Rightarrow> string \<Rightarrow> herr + helm_app) \<Rightarrow>
    queued \<Rightarrow> world \<Rightarrow> (bool \<times> world) go" where
  "ControlLoop_run x env now d getHelmApp obj w =
     (case obj of
        Queued_key key \<Rightarrow>
          bind_go (nameNamespace key) (\<lambda>(name, ns).
            case getHelmApp ns name of
              Inl e \<Rightarrow> Inr (True, w)
            | Inr helmApp \<Rightarrow>
                bind_go (helm_Reconcile x env now d helmApp w) (\<lambda>(err, w'). Inr (True, w')))
      | _ \<Rightarrow> Inr (False, w))"

definition Finalizer_run :: "helm_ext \<Rightarrow> dirs \<Rightarrow> queued \<Rightarrow> world \<Rightarrow> (herr option \<times> world) go" where
  "Finalizer_run x d obj w =
     (case obj of
        Queued_app helmApp \<Rightarrow>
          bind_go (NewApp x d helmApp) (\<lambda>r.
            case r of Inl e \<Rightarrow> Inr (Some e, w) | Inr a \<Rightarrow> Inr (Uninstall x a w))
      | _ \<Rightarrow> Inr (None, w))"

text \<open>An item whose clean-up fails is neither marked as done nor put back.\<close>

definition Finalizer_step :: "helm_ext \<Rightarrow> dirs \<Rightarrow> queued \<Rightarrow> world \<Rightarrow> (bool \<times> world) go" where
  "Finalizer_step x d obj w =
     bind_go (Finalizer_run x d obj w) (\<lambda>(err, w'). Inr (err = None, w'))"

section \<open>Conditions as a map\<close>

text \<open>
  The abstract view of the conditions: at most one per type. Every operation is an update of
  this map, and keeps the types in the list distinct.
\<close>

definition cond_of :: "helm_app_status \<Rightarrow> string \<Rightarrow> helm_condition option" where
  "cond_of st t = map_option snd (GetCondition st t)"

abbreviation types_of :: "helm_app_status \<Rightarrow> string list" where
  "types_of st \<equiv> map hc_Type (hst_Conditions st)"

lemma condition_from_SomeD:
  "condition_from i cs t = Some (j, c) \<Longrightarrow>
     i \<le> j \<and> j - i < length cs \<and> cs ! (j - i) = c \<and> hc_Type c = t"
proof (induction cs arbitrary: i)
  case (Cons d cs)
  show ?case
  proof (cases "t = hc_Type d")
    case False
    then have "condition_from (Suc i) cs t = Some (j, c)"
      using Cons.prems by simp
    from Cons.IH [OF this] show ?thesis
      by (auto simp: nth_Cons' Suc_diff_le)
  qed (use Cons.prems in auto)
qed simp

lemma condition_from_None: "condition_from i cs t = None \<longleftrightarrow> t \<notin> hc_Type ` set cs"
  by (induction cs arbitrary: i) auto

lemma condition_from_find:
  "map_option snd (condition_from i cs t) = find (\<lambda>c. t = hc_Type c) cs"
  by (induction cs arbitrary: i) auto

lemma find_append: "find P (xs @ ys) = (case find P xs of None \<Rightarrow> find P ys | Some x \<Rightarrow> Some x)"
  by (induction xs) auto

lemma condition_from_update:
  "condition_from i cs t = Some (j, old) \<Longrightarrow> hc_Type c = t \<Longrightarrow>
     map_option snd (condition_from i (cs[j - i := c]) t') =
       (if t' = t then Some c else map_option snd (condition_from i cs t'))"
proof (induction cs arbitrary: i)
  case (Cons d cs)
  show ?case
  proof (cases "t = hc_Type d")
    case False
    then have rest: "condition_from (Suc i) cs t = Some (j, old)"
      using Cons.prems by simp
    then have "j - i = Suc (j - Suc i)"
      using condition_from_SomeD [OF rest] by linarith
    then show ?thesis
      using Cons.IH [OF rest Cons.prems(2)] False by auto
  qed (use Cons.prems in auto)
qed simp

lemma GetCondition_SomeD:
  "GetCondition st t = Some (j, c) \<Longrightarrow>
     j < length (hst_Conditions st) \<and> hst_Conditions st ! j = c \<and> hc_Type c = t"
  using condition_from_SomeD [of 0 "hst_Conditions st" t j c] by (simp add: GetCondition_def)

lemma GetCondition_None: "GetCondition st t = None \<longleftrightarrow> t \<notin> set (types_of st)"
  by (simp add: GetCondition_def condition_from_None)

lemma GetCondition_cases:
  obtains "GetCondition st t = None" "cond_of st t = None"
  | j c where "GetCondition st t = Some (j, c)" "cond_of st t = Some c" "hc_Type c = t"
  using GetCondition_SomeD by (cases "GetCondition st t") (fastforce simp: cond_of_def)+

lemma cond_of_replace:
  assumes "GetCondition st t = Some (j, old)" "hc_Type c = t"
  shows "cond_of (st\<lparr>hst_Conditions := (hst_Conditions st)[j := c]\<rparr>) t' =
    (if t' = t then Some c else cond_of st t')"
  using condition_from_update [of 0 "hst_Conditions st" t j old c t'] assms
  by (simp add: cond_of_def GetCondition_def)

lemma cond_of_append:
  assumes "GetCondition st (hc_Type c) = None"
  shows "cond_of (st\<lparr>hst_Conditions := hst_Conditions st @ [c]\<rparr>) t' =
    (if t' = hc_Type c then Some c else cond_of st t')"
proof -
  have "find (\<lambda>d. hc_Type c = hc_Type d) (hst_Conditions st) = None"
    using assms condition_from_find [of 0 "hst_Conditions st" "hc_Type c"]
    by (simp add: GetCondition_def)
  then show ?thesis
    by (auto simp: cond_of_def GetCondition_def condition_from_find find_append split: option.split)
qed

lemma types_replace:
  assumes "GetCondition st t = Some (j, old)" "hc_Type c = t"
  shows "types_of (st\<lparr>hst_Conditions := (hst_Conditions st)[j := c]\<rparr>) = types_of st"
proof -
  have "types_of st ! j = t" "j < length (hst_Conditions st)"
    using GetCondition_SomeD [OF assms(1)] by auto
  then show ?thesis
    using assms(2) list_update_id [of "types_of st" j] by (simp add: map_update)
qed

lemma IsConditionTrue_cond:
  "IsConditionTrue st t \<longleftrightarrow> (\<exists>c. cond_of st t = Some c \<and> hc_Status c = ConditionTrue)"
  by (rule GetCondition_cases [of st t]) (simp_all add: IsConditionTrue_def)

lemma GetCondition_cond: "GetCondition st t = None \<longleftrightarrow> cond_of st t = None"
  by (simp add: cond_of_def)

text \<open>What the three operations do to the map.\<close>

lemma cond_of_UpdateCondition:
  "cond_of (snd (UpdateCondition now c st)) t =
     (if t = hc_Type c then Some (c\<lparr>hc_LastTransitionTime :=
         (case cond_of st (hc_Type c) of
            Some old \<Rightarrow> if hc_Status c = hc_Status old then hc_LastTransitionTime old else now
          | None \<Rightarrow> now)\<rparr>)
      else cond_of st t)"
proof (rule GetCondition_cases [of st "hc_Type c"])
  assume "GetCondition st (hc_Type c) = None" "cond_of st (hc_Type c) = None"
  then show ?thesis
    using cond_of_append [of st "c\<lparr>hc_LastTransitionTime := now\<rparr>" t]
    by (simp add: UpdateCondition_def)
next
  fix j old
  assume "GetCondition st (hc_Type c) = Some (j, old)" "cond_of st (hc_Type c) = Some old"
  then show ?thesis
    using cond_of_replace [of st "hc_Type c" j old _ t]
    by (simp add: UpdateCondition_def Let_def)
qed

lemma cond_of_UpdateConditionStatus:
  "cond_of (UpdateConditionStatus now t s st) t' =
     (if t' = t then
        Some (case cond_of st t of
          None \<Rightarrow> NewHelmAppCondition now t s [] []
        | Some c \<Rightarrow> \<lparr>hc_Type = t, hc_Status = s,
            hc_LastTransitionTime = (if s = hc_Status c then hc_LastTransitionTime c else now),
            hc_Reason = (if s = ConditionTrue then [] else hc_Reason c),
            hc_Message = (if s = ConditionTrue then [] else hc_Message c)\<rparr>)
      else cond_of st t')"
proof (rule GetCondition_cases [of st t])
  assume "GetCondition st t = None" "cond_of st t = None"
  then show ?thesis
    by (simp add: UpdateConditionStatus_def cond_of_UpdateCondition NewHelmAppCondition_def)
next
  fix j c
  assume "GetCondition st t = Some (j, c)" "cond_of st t = Some c" "hc_Type c = t"
  then show ?thesis
    by (cases c) (auto simp: UpdateConditionStatus_def cond_of_UpdateCondition)
qed

lemma cond_of_SetCondition:
  "cond_of (SetCondition c st) t =
     (if t = hc_Type c then
        Some (case cond_of st (hc_Type c) of
          None \<Rightarrow> c
        | Some old \<Rightarrow> if hc_Status old = hc_Status c \<and> hc_Reason old = hc_Reason c \<and>
            hc_Message old = hc_Message c then old else c)
      else cond_of st t)"
proof (rule GetCondition_cases [of st "hc_Type c"])
  assume "GetCondition st (hc_Type c) = None" "cond_of st (hc_Type c) = None"
  then show ?thesis
    using cond_of_append [of st c t] by (simp add: SetCondition_def)
next
  fix j old
  assume "GetCondition st (hc_Type c) = Some (j, old)" "cond_of st (hc_Type c) = Some old"
  then show ?thesis
    using cond_of_replace [of st "hc_Type c" j old c t] by (auto simp: SetCondition_def)
qed

text \<open>The types stay distinct, and a type that is there stays.\<close>

lemma types_UpdateCondition:
  "types_of (snd (UpdateCondition now c st)) =
     (if hc_Type c \<in> set (types_of st) then types_of st else types_of st @ [hc_Type c])"
proof (rule GetCondition_cases [of st "hc_Type c"])
  assume none: "GetCondition st (hc_Type c) = None"
  then have "hc_Type c \<notin> set (types_of st)"
    by (simp only: GetCondition_None not_False_eq_True)
  with none show ?thesis
    by (simp add: UpdateCondition_def)
next
  fix j old
  assume some: "GetCondition st (hc_Type c) = Some (j, old)"
  then have "hc_Type c \<in> set (types_of st)"
    by (metis GetCondition_None option.distinct(1))
  with some show ?thesis
    using types_replace [OF some, of "c\<lparr>hc_LastTransitionTime := _\<rparr>"]
    by (simp add: UpdateCondition_def Let_def)
qed

lemma types_SetCondition:
  "types_of (SetCondition c st) =
     (if hc_Type c \<in> set (types_of st) then types_of st else types_of st @ [hc_Type c])"
proof (rule GetCondition_cases [of st "hc_Type c"])
  assume none: "GetCondition st (hc_Type c) = None"
  then have "hc_Type c \<notin> set (types_of st)"
    by (simp only: GetCondition_None not_False_eq_True)
  with none show ?thesis
    by (simp add: SetCondition_def)
next
  fix j old
  assume some: "GetCondition st (hc_Type c) = Some (j, old)"
  then have "hc_Type c \<in> set (types_of st)"
    by (metis GetCondition_None option.distinct(1))
  with some show ?thesis
    using types_replace [OF some, of c] by (simp add: SetCondition_def)
qed

lemma types_UpdateConditionStatus:
  "types_of (UpdateConditionStatus now t s st) =
     (if t \<in> set (types_of st) then types_of st else types_of st @ [t])"
  by (rule GetCondition_cases [of st t])
    (auto simp: UpdateConditionStatus_def types_UpdateCondition NewHelmAppCondition_def)

lemmas types_ops = types_UpdateCondition types_SetCondition types_UpdateConditionStatus
lemmas cond_ops = cond_of_UpdateCondition cond_of_SetCondition cond_of_UpdateConditionStatus

lemma UpdateCondition_rest [simp]:
  "hst_Phase (snd (UpdateCondition now c st)) = hst_Phase st"
  "hst_Status (snd (UpdateCondition now c st)) = hst_Status st"
  "hst_CurrentVersion (snd (UpdateCondition now c st)) = hst_CurrentVersion st"
  "hst_Overrides (snd (UpdateCondition now c st)) = hst_Overrides st"
  by (simp_all add: UpdateCondition_def Let_def split: option.splits)

lemma SetCondition_rest [simp]:
  "hst_Phase (SetCondition c st) = hst_Phase st"
  "hst_Status (SetCondition c st) = hst_Status st"
  "hst_CurrentVersion (SetCondition c st) = hst_CurrentVersion st"
  "hst_Overrides (SetCondition c st) = hst_Overrides st"
  by (simp_all add: SetCondition_def split: option.splits)

lemma UpdateConditionStatus_rest [simp]:
  "hst_Phase (UpdateConditionStatus now t s st) = hst_Phase st"
  "hst_Status (UpdateConditionStatus now t s st) = hst_Status st"
  "hst_CurrentVersion (UpdateConditionStatus now t s st) = hst_CurrentVersion st"
  "hst_Overrides (UpdateConditionStatus now t s st) = hst_Overrides st"
  by (simp_all add: UpdateConditionStatus_def split: option.splits)

section \<open>What a write stores\<close>

lemma cond_of_phase [simp]:
  "cond_of (st\<lparr>hst_Phase := p\<rparr>) t = cond_of st t"
  "cond_of (st\<lparr>hst_Status := q\<rparr>) t = cond_of st t"
  "cond_of (st\<lparr>hst_CurrentVersion := v\<rparr>) t = cond_of st t"
  "cond_of (st\<lparr>hst_Overrides := os\<rparr>) t = cond_of st t"
  by (simp_all add: cond_of_def GetCondition_def)

lemma getPhase_cond:
  "getPhase h =
     (if IsConditionTrue (ha_Status h) HelmAppInstalled then HelmAppStatusPhaseInstalled
      else if sp_PreStatus (ha_Spec h) = HelmAppPreStatusConfigured then HelmAppStatusPhaseInstalling
      else if isDetected (ha_Status h) then HelmAppStatusPhaseConfiguring
      else HelmAppStatusPhaseDetecting)"
  by (rule GetCondition_cases [of "ha_Status h" HelmAppInstalled])
    (simp_all add: getPhase_def IsConditionTrue_def Let_def)

lemma IsConditionTrue_phase [simp]:
  "IsConditionTrue (st\<lparr>hst_Phase := p\<rparr>) t = IsConditionTrue st t"
  "IsConditionTrue (st\<lparr>hst_Status := q\<rparr>) t = IsConditionTrue st t"
  "IsConditionTrue (st\<lparr>hst_CurrentVersion := v\<rparr>) t = IsConditionTrue st t"
  "IsConditionTrue (st\<lparr>hst_Overrides := os\<rparr>) t = IsConditionTrue st t"
  by (simp_all add: IsConditionTrue_cond)

lemma isDetected_phase [simp]:
  "isDetected (st\<lparr>hst_Phase := p\<rparr>) = isDetected st"
  "isDetected (st\<lparr>hst_Status := q\<rparr>) = isDetected st"
  by (simp_all add: isDetected_def)

lemma getPhase_idem [simp]:
  "getPhase (h\<lparr>ha_Status := (ha_Status h)\<lparr>hst_Phase := p\<rparr>\<rparr>) = getPhase h"
  "getPhase (h\<lparr>ha_ResourceVersion := rv\<rparr>) = getPhase h"
  by (simp_all add: getPhase_cond)

text \<open>
  During the attempts the object in memory changes in its phase and its resource version only.
\<close>

definition same_app :: "helm_app \<Rightarrow> helm_app \<Rightarrow> bool" where
  "same_app h h' \<longleftrightarrow> ha_Spec h' = ha_Spec h \<and> ha_Name h' = ha_Name h \<and>
     ha_Namespace h' = ha_Namespace h \<and>
     (ha_Status h' = ha_Status h \<or> ha_Status h' = ha_Status (with_phase h))"

lemma same_app_phase: "same_app h h' \<Longrightarrow> ha_Status (with_phase h') = ha_Status (with_phase h)"
  by (auto simp: same_app_def getPhase_cond)

lemma same_app_trans: "same_app h h' \<Longrightarrow> same_app h' h'' \<Longrightarrow> same_app h h''"
  using same_app_phase [of h h'] by (auto simp: same_app_def)

definition status_stored :: "helm_app \<Rightarrow> helm_app option \<Rightarrow> helm_app option \<Rightarrow> bool" where
  "status_stored h stored stored' \<longleftrightarrow> stored' = stored \<or>
     (\<exists>s rv. stored = Some s \<and>
       stored' = Some (s\<lparr>ha_Status := ha_Status (with_phase h), ha_ResourceVersion := rv\<rparr>))"

lemma try_status_spec:
  "try_status a h stored = (err, h', stored') \<Longrightarrow> same_app h h' \<and> status_stored h stored stored'"
  by (cases "(a, h, stored)" rule: try_status.cases) (auto simp: same_app_def status_stored_def)

lemma retry_status_spec:
  "retry try_status as h stored = (err, h', stored') \<Longrightarrow> same_app h h' \<and> status_stored h stored stored'"
proof (induction try_status as h stored rule: retry.induct)
  case (1 h stored)
  then show ?case by (simp add: same_app_def status_stored_def)
next
  case (2 a h stored)
  then show ?case using try_status_spec [of a h stored] by simp
next
  case (3 a b as h stored)
  obtain e h1 s1 where first: "try_status a h stored = (e, h1, s1)"
    by (rule prod_cases3)
  then have one: "same_app h h1" "status_stored h stored s1"
    using try_status_spec by blast+
  have two: "same_app h1 h' \<and> status_stored h1 s1 stored'"
    using "3.hyps" [OF first [symmetric] refl] "3.prems" first by simp
  have "status_stored h stored stored'"
    using one two same_app_phase [OF one(1)] by (auto simp: status_stored_def)
  then show ?case
    using same_app_trans one(1) two by blast
qed

end
