(* ===== verification/Helm_Reconcile.thy ===== *)
theory Helm_Reconcile
  imports Helm_App
begin

text \<open>
  Properties of the reconciliation of helm applications: what is invariant in the cluster under
  every interleaving of users, cache and controller, when releases are touched, that a configured
  application gets installed, and three ways in which the loop misses its goal.
\<close>

section \<open>Writes that succeed\<close>

definition answered :: "attempt list \<Rightarrow> bool" where
  "answered as \<longleftrightarrow> as \<noteq> [] \<and> (case last as of Written rv \<Rightarrow> True | _ \<Rightarrow> False)"

lemma answered_Cons: "answered (a # b # as) \<longleftrightarrow> answered (b # as)"
  by (simp add: answered_def)

lemma answered_single: "answered [a] \<longleftrightarrow> (\<exists>rv. a = Written rv)"
  by (cases a) (simp_all add: answered_def)

lemma retry_status_answered:
  assumes "answered as"
  shows "\<exists>h' rv. retry try_status as h (Some s) =
      (None, h', Some (s\<lparr>ha_Status := ha_Status (with_phase h), ha_ResourceVersion := rv\<rparr>)) \<and>
    same_app h h' \<and> ha_Status h' = ha_Status (with_phase h)"
  using assms
proof (induction try_status as h "Some s" arbitrary: s rule: retry.induct)
  case (2 a h)
  then obtain rv where "a = Written rv"
    by (auto simp: answered_single)
  then show ?case by (auto simp: same_app_def)
next
  case (3 a b as h)
  obtain e h1 s1 where first: "try_status a h (Some s) = (e, h1, s1)"
    by (rule prod_cases3)
  then have one: "same_app h h1" "status_stored h (Some s) s1"
    using try_status_spec by blast+
  then obtain s' where s': "s1 = Some s'" "s' = s \<or>
      (\<exists>rv. s' = s\<lparr>ha_Status := ha_Status (with_phase h), ha_ResourceVersion := rv\<rparr>)"
    by (auto simp: status_stored_def)
  have "\<exists>h' rv. retry try_status (b # as) h1 (Some s') =
      (None, h', Some (s'\<lparr>ha_Status := ha_Status (with_phase h1), ha_ResourceVersion := rv\<rparr>)) \<and>
    same_app h1 h' \<and> ha_Status h' = ha_Status (with_phase h1)"
    by (rule "3.hyps" [of e "(h1, s1)" h1 s']) (use first s'(1) "3.prems" in \<open>simp_all only: answered_Cons\<close>)
  then obtain h' rv where h': "retry try_status (b # as) h1 (Some s') =
      (None, h', Some (s'\<lparr>ha_Status := ha_Status (with_phase h1), ha_ResourceVersion := rv\<rparr>))"
    "same_app h1 h'" "ha_Status h' = ha_Status (with_phase h1)"
    by blast
  have phase: "ha_Status (with_phase h1) = ha_Status (with_phase h)"
    by (rule same_app_phase [OF one(1)])
  have "s'\<lparr>ha_Status := ha_Status (with_phase h1), ha_ResourceVersion := rv\<rparr> =
      s\<lparr>ha_Status := ha_Status (with_phase h), ha_ResourceVersion := rv\<rparr>"
    using s'(2) phase by auto
  then show ?case
    using h' first s'(1) phase same_app_trans [OF one(1)] by auto
qed (simp add: answered_def)

lemma Status_Update_answered:
  assumes "answered as" "w_stored w = Some s"
  obtains h' rv where "Status_Update as h w =
      (None, h', w\<lparr>w_stored := Some (s\<lparr>ha_Status := ha_Status (with_phase h), ha_ResourceVersion := rv\<rparr>)\<rparr>)"
    "same_app h h'" "ha_Status h' = ha_Status (with_phase h)"
  using retry_status_answered [OF assms(1), of h s] assms(2) by (auto simp: Status_Update_def)

lemma retry_spec_answered:
  assumes "answered as"
  shows "\<exists>h' rv. retry try_spec as h (Some s) =
      (None, h', Some (s\<lparr>ha_Spec := ha_Spec h, ha_ResourceVersion := rv\<rparr>)) \<and>
    ha_Spec h' = ha_Spec h \<and> ha_Status h' = ha_Status h \<and> ha_Name h' = ha_Name h"
  using assms
proof (induction try_spec as h "Some s" arbitrary: s rule: retry.induct)
  case (2 a h)
  then show ?case by (auto simp: answered_single)
next
  case (3 a b as h)
  obtain e h1 s1 where first: "try_spec a h (Some s) = (e, h1, Some s1)"
    by (cases a) auto
  then have one: "ha_Spec h1 = ha_Spec h" "ha_Status h1 = ha_Status h" "ha_Name h1 = ha_Name h"
    "s1\<lparr>ha_Spec := ha_Spec h, ha_ResourceVersion := rv\<rparr> = s\<lparr>ha_Spec := ha_Spec h, ha_ResourceVersion := rv\<rparr>"
    for rv
    by (cases a; auto)+
  have "answered (b # as)"
    using "3.prems" by (simp add: answered_Cons)
  then have "\<exists>h' rv. retry try_spec (b # as) h1 (Some s1) =
      (None, h', Some (s1\<lparr>ha_Spec := ha_Spec h1, ha_ResourceVersion := rv\<rparr>)) \<and>
    ha_Spec h' = ha_Spec h1 \<and> ha_Status h' = ha_Status h1 \<and> ha_Name h' = ha_Name h1"
    using "3.hyps" [of e "(h1, Some s1)" h1 s1] first by simp
  then show ?case
    using first one by simp
qed (simp add: answered_def)

lemma UpdateSpec_answered:
  assumes "answered as" "w_stored w = Some s"
  obtains a' rv where "UpdateSpec as a w =
      (None, a', w\<lparr>w_stored := Some (s\<lparr>ha_Spec := app_spec a, ha_ResourceVersion := rv\<rparr>)\<rparr>)"
    "app_spec a' = app_spec a" "app_status a' = app_status a" "ap_helmCmd a' = ap_helmCmd a"
    "ap_name a' = ap_name a"
  using retry_spec_answered [OF assms(1), of "ap_helmApp a" s] assms(2)
  by (auto simp: UpdateSpec_def Spec_Update_def)

lemma UpdateStatus_answered:
  assumes "answered as" "w_stored w = Some s"
  obtains a' rv where "UpdateStatus as a w =
      (None, a', w\<lparr>w_stored := Some (s\<lparr>ha_Status := ha_Status (with_phase (ap_helmApp a)),
        ha_ResourceVersion := rv\<rparr>)\<rparr>)"
    "app_spec a' = app_spec a" "app_status a' = ha_Status (with_phase (ap_helmApp a))"
    "ap_helmCmd a' = ap_helmCmd a" "ap_name a' = ap_name a"
proof -
  obtain h' rv where "Status_Update as (ap_helmApp a) w = (None, h', w\<lparr>w_stored :=
        Some (s\<lparr>ha_Status := ha_Status (with_phase (ap_helmApp a)), ha_ResourceVersion := rv\<rparr>)\<rparr>)"
    "same_app (ap_helmApp a) h'" "ha_Status h' = ha_Status (with_phase (ap_helmApp a))"
    using Status_Update_answered [OF assms] .
  then show ?thesis
    by (intro that [of "a\<lparr>ap_helmApp := h'\<rparr>" rv]) (simp_all add: UpdateStatus_def same_app_def)
qed

lemma UpdateStatus_to:
  assumes "answered as" "w_stored w = Some s" "ha_Status (with_phase (ap_helmApp a)) = st"
  shows "\<exists>a' rv. UpdateStatus as a w =
      (None, a', w\<lparr>w_stored := Some (s\<lparr>ha_Status := st, ha_ResourceVersion := rv\<rparr>)\<rparr>) \<and>
    app_spec a' = app_spec a \<and> app_status a' = st \<and> ap_helmCmd a' = ap_helmCmd a \<and> ap_name a' = ap_name a"
  using UpdateStatus_answered [OF assms(1,2), of a] unfolding assms(3) by metis

lemma Status_Update_to:
  assumes "answered as" "w_stored w = Some s" "ha_Status (with_phase h) = st"
  shows "\<exists>h' rv. Status_Update as h w =
      (None, h', w\<lparr>w_stored := Some (s\<lparr>ha_Status := st, ha_ResourceVersion := rv\<rparr>)\<rparr>)"
  using Status_Update_answered [OF assms(1,2), of h] unfolding assms(3) by metis

lemma UpdateSpec_to:
  assumes "answered as" "w_stored w = Some s" "app_spec a = sp"
  shows "\<exists>a' rv. UpdateSpec as a w =
      (None, a', w\<lparr>w_stored := Some (s\<lparr>ha_Spec := sp, ha_ResourceVersion := rv\<rparr>)\<rparr>) \<and>
    app_status a' = app_status a"
  using UpdateSpec_answered [OF assms(1,2), of a] unfolding assms(3) by metis

section \<open>What a reconciliation changes\<close>

lemma on_helm_simps [simp]:
  "w_stored (snd (on_helm w r)) = w_stored w" "w_helm (snd (on_helm w r)) = snd r"
  "fst (on_helm w r) = fst r"
  by (simp_all add: on_helm_def)

lemma with_repo_stored:
  assumes "\<And>w'. w_stored (snd (k w')) = w_stored w'"
  shows "w_stored (snd (with_repo x a w k)) = w_stored w"
  using assms by (simp add: with_repo_def on_helm_def split: prod.split option.split)

lemma helm_stored:
  "w_stored (snd (LoadChart x a w)) = w_stored w"
  "w_stored (snd (PreInstall x a w)) = w_stored w"
  "w_stored (snd (installOrUpdate x a w)) = w_stored w"
  "w_stored (snd (Uninstall x a w)) = w_stored w"
  unfolding LoadChart_def PreInstall_def installOrUpdate_def Uninstall_def
  by (rule with_repo_stored | simp add: install_or_upgrade_def split: sum.split)+

lemma helm_stored_eq:
  "LoadChart x a w = (err, w') \<Longrightarrow> w_stored w' = w_stored w"
  "PreInstall x a w = (err, w') \<Longrightarrow> w_stored w' = w_stored w"
  "installOrUpdate x a w = (err, w') \<Longrightarrow> w_stored w' = w_stored w"
  "on_helm w r = (err, w') \<Longrightarrow> w_stored w' = w_stored w"
  using helm_stored [of x a w] by (auto simp: on_helm_def)

text \<open>
  A reconciliation that changes an object in memory keeps its condition types distinct. The
  relation says the rest: the specification stays, and what is stored is not touched.
\<close>

definition edited :: "app \<Rightarrow> app \<Rightarrow> bool" where
  "edited a a' \<longleftrightarrow> app_spec a' = app_spec a \<and> ap_helmCmd a' = ap_helmCmd a \<and> ap_name a' = ap_name a \<and>
     (distinct (types_of (app_status a)) \<longrightarrow> distinct (types_of (app_status a')))"

lemma edited_refl: "edited a a"
  by (simp add: edited_def)

lemma edited_on_status:
  "(\<And>st. distinct (types_of st) \<Longrightarrow> distinct (types_of (f st))) \<Longrightarrow> edited a (on_status f a)"
  by (simp add: edited_def on_status_def)

lemma edited_ops:
  "edited a (on_status (SetCondition c) a)"
  "edited a (on_status (\<lambda>st. snd (UpdateCondition now c st)) a)"
  "edited a (on_status (UpdateConditionStatus now t s) a)"
  "edited a (on_status (mark_installed now spec) a)"
  by (rule edited_on_status; simp add: types_ops mark_installed_def; fail)+

lemma Detector_edits:
  assumes "Detector_Detect x now a w = Inr (err, a', w')"
  shows "edited a a' \<and> w_stored w' = w_stored w"
proof (cases "IsConditionTrue (app_status a) HelmAppChartReady")
  case False
  then obtain store where store: "sp_AppStore (app_spec a) = Some store"
    using assms by (cases "sp_AppStore (app_spec a)") (auto simp: Detector_Detect_def)
  obtain e1 w1 where add: "on_helm w (Repo_Add x (ap_repo a) (w_helm w) (as_Name store) (as_URL store) [] [])
      = (e1, w1)"
    by (rule prod.exhaust)
  obtain e2 w2 where load: "LoadChart x a w1 = (e2, w2)"
    by (rule prod.exhaust)
  show ?thesis
    using assms False store add load helm_stored_eq(4) [OF add] helm_stored_eq(1) [OF load]
    by (cases e1; cases e2) (auto simp: Detector_Detect_def edited_ops)
next
  case True
  obtain e1 w1 where pre: "PreInstall x a w = (e1, w1)"
    by (rule prod.exhaust)
  show ?thesis
    using assms True pre helm_stored_eq(2) [OF pre]
    by (cases e1) (auto simp: Detector_Detect_def edited_ops edited_refl split: if_splits)
qed

lemma Status_Update_spec:
  assumes "Status_Update as h w = (err, h', w')"
  shows "same_app h h' \<and> status_stored h (w_stored w) (w_stored w') \<and> w_helm w' = w_helm w"
  using assms retry_status_spec [of as h "w_stored w"]
  by (cases "retry try_status as h (w_stored w)") (auto simp: Status_Update_def)

lemma UpdateStatus_spec:
  assumes "UpdateStatus as a w = (err, a', w')"
  shows "status_stored (ap_helmApp a) (w_stored w) (w_stored w') \<and> w_helm w' = w_helm w \<and>
    same_app (ap_helmApp a) (ap_helmApp a') \<and> ap_helmCmd a' = ap_helmCmd a \<and> ap_name a' = ap_name a"
proof (cases "Status_Update as (ap_helmApp a) w")
  case (fields e h w'')
  then show ?thesis
    using assms Status_Update_spec [OF fields] by (auto simp: UpdateStatus_def)
qed

section \<open>The invariant of the stored objects\<close>

text \<open>
  One condition per type; and once there is a phase, it is \<^verbatim>\<open>installed\<close> exactly when the
  condition \<^verbatim>\<open>HelmAppInstalled\<close> holds.
\<close>

definition status_ok :: "helm_app_status \<Rightarrow> bool" where
  "status_ok st \<longleftrightarrow> distinct (types_of st) \<and>
     (hst_Phase st \<noteq> [] \<longrightarrow>
        (hst_Phase st = HelmAppStatusPhaseInstalled \<longleftrightarrow> IsConditionTrue st HelmAppInstalled))"

abbreviation object_ok :: "helm_app option \<Rightarrow> bool" where
  "object_ok s \<equiv> pred_option (\<lambda>h. status_ok (ha_Status h)) s"

lemma status_ok_phase:
  "distinct (types_of (ha_Status h)) \<Longrightarrow> status_ok (ha_Status (with_phase h))"
  by (simp add: status_ok_def getPhase_cond helm_consts)

lemma stored_ok:
  "distinct (types_of (ha_Status h)) \<Longrightarrow> status_stored h stored stored' \<Longrightarrow> object_ok stored \<Longrightarrow>
     object_ok stored'"
  using status_ok_phase [of h] by (auto simp: status_stored_def)

lemma retry_spec_status:
  "retry try_spec as h stored = (err, h', stored') \<Longrightarrow>
     ha_Status h' = ha_Status h \<and> map_option ha_Status stored' = map_option ha_Status stored"
proof (induction try_spec as h stored rule: retry.induct)
  case (3 a b as h stored)
  obtain e h1 s1 where first: "try_spec a h stored = (e, h1, s1)"
    by (rule prod_cases3)
  then have "ha_Status h1 = ha_Status h" "map_option ha_Status s1 = map_option ha_Status stored"
    by (cases "(a, h, stored)" rule: try_spec.cases; auto)+
  moreover have "ha_Status h' = ha_Status h1 \<and> map_option ha_Status stored' = map_option ha_Status s1"
    by (rule "3.hyps" [of e "(h1, s1)" h1 s1]) (use first "3.prems" in simp_all)
  ultimately show ?case by simp
next
  case (2 a h stored)
  then show ?case by (cases "(a, h, stored)" rule: try_spec.cases) auto
qed simp

lemma object_ok_status: "map_option ha_Status s = map_option ha_Status s' \<Longrightarrow> object_ok s = object_ok s'"
  by (cases s; cases s') auto

lemma default_condition_types:
  "distinct (types_of st) \<Longrightarrow> distinct (types_of (foldl (default_condition now) st ts))"
  by (induction ts arbitrary: st) (simp_all add: default_condition_def types_ops)

lemma setup_types:
  "distinct (types_of (ha_Status h)) \<Longrightarrow> distinct (types_of (ha_Status (setup_defaults now h)))"
  by (simp add: setup_defaults_def Let_def default_condition_types)

text \<open>What the result of \<open>reconcile_app\<close> is like.\<close>

definition kept :: "app \<Rightarrow> world \<Rightarrow> app \<Rightarrow> world \<Rightarrow> bool" where
  "kept a w a' w' \<longleftrightarrow> distinct (types_of (app_status a')) \<and> (object_ok (w_stored w) \<longrightarrow> object_ok (w_stored w'))"

lemma UpdateStatus_kept:
  assumes "UpdateStatus as a w = (err, a', w')" "distinct (types_of (app_status a))"
  shows "kept a w a' w'"
  using UpdateStatus_spec [OF assms(1)] stored_ok [OF assms(2)] assms(2)
  by (auto simp: kept_def same_app_def)

lemma Setup_kept:
  assumes "Setup env now a w = (err, a', w')" "distinct (types_of (app_status a))"
  shows "kept a w a' w'"
proof -
  obtain e1 a1 w1 where status: "UpdateStatus (api_status env)
      (a\<lparr>ap_helmApp := setup_defaults now (ap_helmApp a)\<rparr>) w = (e1, a1, w1)"
    by (rule prod_cases3)
  then have one: "kept a w a1 w1"
    using UpdateStatus_kept setup_types [OF assms(2)] by (fastforce simp: kept_def)
  obtain e2 h2 s2 where spec: "retry try_spec (api_spec env) (ap_helmApp a1) (w_stored w1) = (e2, h2, s2)"
    by (rule prod_cases3)
  show ?thesis
    using assms(1) status spec one retry_spec_status [OF spec] object_ok_status [of s2 "w_stored w1"]
    by (cases e1) (auto simp: Setup_def Update_def UpdateSpec_def Spec_Update_def kept_def)
qed

lemma Detect_kept:
  assumes "Detect x env now a w = Inr (err, a', w')" "distinct (types_of (app_status a))"
  shows "kept a w a' w'"
proof -
  obtain e1 a1 w1 where detect: "Detector_Detect x now a w = Inr (e1, a1, w1)"
    using assms(1) by (auto simp: Detect_def bind_go_eq_Inr)
  obtain e2 a2 w2 where status: "UpdateStatus (api_status env) a1 w1 = (e2, a2, w2)"
    by (rule prod_cases3)
  have one: "distinct (types_of (app_status a1))" "w_stored w1 = w_stored w"
    using Detector_edits [OF detect] assms(2) by (simp_all add: edited_def)
  show ?thesis
    using assms(1) detect status UpdateStatus_kept [OF status one(1)] one(2)
    by (cases e1) (auto simp: Detect_def kept_def)
qed

lemma InstallOrUpdate_kept:
  assumes "InstallOrUpdate x env now a w = (err, a', w')" "distinct (types_of (app_status a))"
  shows "kept a w a' w'"
proof -
  obtain e1 w1 where inst: "installOrUpdate x a w = (e1, w1)"
    by (rule prod.exhaust)
  obtain a1 where a1: "UpdateStatus (api_status env) a1 w1 = (err, a', w')" "edited a a1"
    using assms(1) inst edited_ops by (cases e1) (auto simp: InstallOrUpdate_def)
  have "distinct (types_of (app_status a1))"
    using a1(2) assms(2) by (simp add: edited_def)
  then show ?thesis
    using UpdateStatus_kept [OF a1(1)] helm_stored_eq(3) [OF inst] by (simp add: kept_def)
qed

lemma reconcile_app_kept:
  assumes "reconcile_app x env now a w = Inr (err, a', w')" "distinct (types_of (app_status a))"
  shows "kept a w a' w'"
  using assms Setup_kept Detect_kept InstallOrUpdate_kept
  by (auto simp: reconcile_app_def kept_def split: if_splits; blast)

lemma UpdateRunningStatus_ok:
  assumes "distinct (types_of (app_status a))" "object_ok (w_stored w)"
  shows "object_ok (w_stored (UpdateRunningStatus x env a w))"
proof -
  let ?h = "\<lambda>s. ap_helmApp (on_status (\<lambda>st. st\<lparr>hst_Status := s\<rparr>) a)"
  have "object_ok (w_stored (snd (snd (Status_Update as (?h s) w))))" for as s
  proof -
    obtain e h w' where "Status_Update as (?h s) w = (e, h, w')"
      by (rule prod_cases3)
    then show ?thesis
      using Status_Update_spec [of as "?h s" w e h w'] stored_ok [of "?h s"] assms
      by (auto simp: on_status_def)
  qed
  then show ?thesis
    using assms(2) by (simp add: UpdateRunningStatus_def split: sum.split)
qed

lemma Reconcile_ok:
  assumes "helm_Reconcile x env now d c w = Inr (err, w')" "object_ok (w_stored w)" "object_ok (Some c)"
  shows "object_ok (w_stored w')"
proof -
  obtain r where r: "NewApp x d c = Inr r"
    using assms(1) by (auto simp: helm_Reconcile_def bind_go_eq_Inr)
  show ?thesis
  proof (cases r)
    case (Inl e)
    then show ?thesis using assms r by (simp add: helm_Reconcile_def)
  next
    case (Inr a)
    then have "ap_helmApp a = c"
      using r by (auto simp: NewApp_def bind_go_eq_Inr split: sum.splits)
    then have types: "distinct (types_of (app_status a))"
      using assms(3) by (simp add: status_ok_def)
    obtain a' w1 where run: "reconcile_app x env now a w = Inr (err, a', w1)"
      "w' = UpdateRunningStatus x env a' w1"
      using assms(1) r Inr by (auto simp: helm_Reconcile_def bind_go_eq_Inr)
    then show ?thesis
      using reconcile_app_kept [OF run(1) types] assms(2) UpdateRunningStatus_ok
      by (simp add: kept_def)
  qed
qed

section \<open>Users, cache and controller\<close>

text \<open>
  The system: the stored object and helm's state, and the copy of the object in the informer's
  cache. Users create, edit and delete the object at any time, the cache follows with any delay,
  and the controller reconciles what is in the cache; every helm call and every attempt of a
  write may fail. A created object has no status, since the status is a subresource.
\<close>

record helm_system =
  y_world :: world
  y_cache :: "helm_app option"

definition no_status :: helm_app_status where
  "no_status = \<lparr>hst_Status = [], hst_Phase = [], hst_Conditions = [], hst_CurrentVersion = [],
     hst_Overrides = []\<rparr>"

inductive helm_step :: "helm_system \<Rightarrow> helm_system \<Rightarrow> bool" where
  user_creates: "w_stored (y_world y) = None \<Longrightarrow> ha_Status h = no_status \<Longrightarrow>
    helm_step y (y\<lparr>y_world := (y_world y)\<lparr>w_stored := Some h\<rparr>\<rparr>)"
| user_edits: "w_stored (y_world y) = Some s \<Longrightarrow>
    helm_step y (y\<lparr>y_world := (y_world y)\<lparr>w_stored := Some (s\<lparr>ha_Spec := spec, ha_ResourceVersion := rv\<rparr>)\<rparr>\<rparr>)"
| user_deletes: "helm_step y (y\<lparr>y_world := (y_world y)\<lparr>w_stored := None\<rparr>\<rparr>)"
| cache_follows: "helm_step y (y\<lparr>y_cache := w_stored (y_world y)\<rparr>)"
| reconciles: "y_cache y = Some c \<Longrightarrow> helm_Reconcile x env now d c (y_world y) = Inr (err, w') \<Longrightarrow>
    helm_step y (y\<lparr>y_world := w'\<rparr>)"
| finalizes: "Finalizer_step x d obj (y_world y) = Inr (marked, w') \<Longrightarrow> helm_step y (y\<lparr>y_world := w'\<rparr>)"

definition helm_start :: "helm_state \<Rightarrow> helm_system" where
  "helm_start st = \<lparr>y_world = \<lparr>w_helm = st, w_stored = None\<rparr>, y_cache = None\<rparr>"

lemma Finalizer_stored:
  assumes "Finalizer_step x d obj w = Inr (marked, w')"
  shows "w_stored w' = w_stored w"
proof -
  obtain err where run: "Finalizer_run x d obj w = Inr (err, w')"
    using assms by (auto simp: Finalizer_step_def bind_go_eq_Inr)
  show ?thesis
  proof (cases obj)
    case (Queued_app h)
    obtain r where r: "NewApp x d h = Inr r"
      using run Queued_app by (auto simp: Finalizer_run_def bind_go_eq_Inr)
    show ?thesis
    proof (cases r)
      case (Inr a)
      then have "Uninstall x a w = (err, w')"
        using run r Queued_app by (simp add: Finalizer_run_def)
      then show ?thesis
        using helm_stored(4) [of x a w] by simp
    qed (use run r Queued_app in \<open>simp add: Finalizer_run_def\<close>)
  qed (use run in \<open>simp_all add: Finalizer_run_def\<close>)
qed

lemma helm_step_ok:
  assumes "helm_step y y'" "object_ok (w_stored (y_world y)) \<and> object_ok (y_cache y)"
  shows "object_ok (w_stored (y_world y')) \<and> object_ok (y_cache y')"
  using assms
proof (induction rule: helm_step.induct)
  case (reconciles y c x env now d err w')
  then show ?case using Reconcile_ok [OF reconciles.hyps(2)] by simp
next
  case (finalizes x d obj y marked w')
  then show ?case using Finalizer_stored [OF finalizes.hyps] by simp
qed (simp_all add: status_ok_def no_status_def)

text \<open>
  C9: Whatever users, cache, helm and the API server do, the conditions of a stored object have
  distinct types, and a stored phase is \<^verbatim>\<open>installed\<close> exactly when the condition
  \<^verbatim>\<open>HelmAppInstalled\<close> is true.
\<close>
theorem helm_conditions_consistent:
  assumes "helm_step\<^sup>*\<^sup>* (helm_start st) y" "w_stored (y_world y) = Some h"
  shows "distinct (map hc_Type (hst_Conditions (ha_Status h))) \<and>
    (hst_Phase (ha_Status h) \<noteq> [] \<longrightarrow>
      (hst_Phase (ha_Status h) = HelmAppStatusPhaseInstalled \<longleftrightarrow>
       IsConditionTrue (ha_Status h) HelmAppInstalled))"
proof -
  have "object_ok (w_stored (y_world y)) \<and> object_ok (y_cache y)"
    using assms(1)
    by (induction rule: rtranclp_induct) (simp add: helm_start_def, rule helm_step_ok)
  then show ?thesis
    using assms(2) by (simp add: status_ok_def)
qed

section \<open>When releases are touched\<close>

abbreviation releases_of :: "world \<Rightarrow> releases" where
  "releases_of w \<equiv> hs_releases (w_helm w)"

text \<open>A dry run stores nothing.\<close>

definition dry_runs :: "helm_ext \<Rightarrow> bool" where
  "dry_runs x \<longleftrightarrow> (\<forall>rels ns name ch vals. snd (hx_Install x rels ns name True ch vals) = rels)"

lemma Repo_Add_releases: "hs_releases (snd (Repo_Add x r st name url u p)) = hs_releases st"
  by (simp add: Repo_Add_def split: sum.split)

lemma with_repo_releases:
  assumes "\<And>w'. releases_of (snd (k w')) = releases_of w'"
  shows "releases_of (snd (with_repo x a w k)) = releases_of w"
  using assms Repo_Add_releases [of x "ap_repo a" "w_helm w" "ap_repoName a" "ap_repoURL a" "[]" "[]"]
  by (simp add: with_repo_def on_helm_def split: prod.split option.split)

lemma LoadChart_releases: "releases_of (snd (LoadChart x a w)) = releases_of w"
  unfolding LoadChart_def by (rule with_repo_releases) (simp split: sum.split)

lemma PreInstall_releases:
  assumes "dry_runs x"
  shows "releases_of (snd (PreInstall x a w)) = releases_of w"
  unfolding PreInstall_def
proof (rule with_repo_releases)
  fix w'
  have "snd (hx_Install x rels ns name True ch vals) = rels" for rels ns name ch vals
    using assms by (simp add: dry_runs_def)
  then show "releases_of (snd (on_helm w' (helm_PreInstall x (ap_helmCmd a) (w_helm w') (ap_name a)
      (Chart a) (ap_version a)))) = releases_of w'"
    by (simp add: helm_PreInstall_def helm_install_def split: sum.split prod.split)
      (metis snd_conv)
qed

lemma Detector_releases:
  assumes "dry_runs x" "Detector_Detect x now a w = Inr (err, a', w')"
  shows "releases_of w' = releases_of w"
proof (cases "IsConditionTrue (app_status a) HelmAppChartReady")
  case False
  then obtain store where store: "sp_AppStore (app_spec a) = Some store"
    using assms by (cases "sp_AppStore (app_spec a)") (auto simp: Detector_Detect_def)
  obtain e1 w1 where add: "on_helm w (Repo_Add x (ap_repo a) (w_helm w) (as_Name store) (as_URL store) [] [])
      = (e1, w1)"
    by (rule prod.exhaust)
  then have "releases_of w1 = releases_of w"
    using Repo_Add_releases [of x "ap_repo a" "w_helm w" "as_Name store" "as_URL store" "[]" "[]"]
    by (auto simp: on_helm_def)
  moreover obtain e2 w2 where load: "LoadChart x a w1 = (e2, w2)"
    by (rule prod.exhaust)
  ultimately show ?thesis
    using assms False store add load LoadChart_releases [of x a w1]
    by (cases e1; cases e2) (auto simp: Detector_Detect_def)
next
  case True
  obtain e1 w1 where pre: "PreInstall x a w = (e1, w1)"
    by (rule prod.exhaust)
  show ?thesis
    using assms True pre PreInstall_releases [OF assms(1), of a w]
    by (cases e1) (auto simp: Detector_Detect_def split: if_splits)
qed

lemma UpdateStatus_helm: "w_helm (snd (snd (UpdateStatus as a w))) = w_helm w"
  using UpdateStatus_spec [of as a w] by (cases "UpdateStatus as a w") auto

lemma Setup_helm: "w_helm (snd (snd (Setup env now a w))) = w_helm w"
proof -
  obtain e1 a1 w1 where "UpdateStatus (api_status env)
      (a\<lparr>ap_helmApp := setup_defaults now (ap_helmApp a)\<rparr>) w = (e1, a1, w1)"
    by (rule prod_cases3)
  then show ?thesis
    using UpdateStatus_helm [of "api_status env" "a\<lparr>ap_helmApp := setup_defaults now (ap_helmApp a)\<rparr>" w]
    by (cases e1) (simp_all add: Setup_def Update_def UpdateSpec_def Spec_Update_def split: prod.split)
qed

lemma UpdateRunningStatus_helm: "w_helm (UpdateRunningStatus x env a w) = w_helm w"
proof -
  have "w_helm (snd (snd (Status_Update as h w))) = w_helm w" for as h
    using Status_Update_spec [of as h w] by (cases "Status_Update as h w") auto
  then show ?thesis
    by (simp add: UpdateRunningStatus_def split: sum.split)
qed

lemma Detect_releases:
  assumes "dry_runs x" "Detect x env now a w = Inr (err, a', w')"
  shows "releases_of w' = releases_of w"
proof -
  obtain e1 a1 w1 where detect: "Detector_Detect x now a w = Inr (e1, a1, w1)"
    using assms(2) by (auto simp: Detect_def bind_go_eq_Inr)
  obtain e2 a2 w2 where status: "UpdateStatus (api_status env) a1 w1 = (e2, a2, w2)"
    by (rule prod_cases3)
  show ?thesis
    using assms(2) detect status Detector_releases [OF assms(1) detect]
      UpdateStatus_helm [of "api_status env" a1 w1]
    by (cases e1) (auto simp: Detect_def)
qed

lemma NewApp_helmApp: "NewApp x d c = Inr (Inr a) \<Longrightarrow> ap_helmApp a = c"
  by (auto simp: NewApp_def bind_go_eq_Inr split: sum.splits)

text \<open>
  C29: A reconciliation touches the stored releases only for an object that is configured, detected,
  and whose version or overrides differ from the ones in effect, provided that dry runs of helm
  store nothing.
\<close>
theorem releases_touched_only_when_due:
  assumes "dry_runs x" "helm_Reconcile x env now d c w = Inr (err, w')" "releases_of w' \<noteq> releases_of w"
  shows "sp_PreStatus (ha_Spec c) = HelmAppPreStatusConfigured \<and>
    IsConditionTrue (ha_Status c) HelmAppChartReady \<and> IsConditionTrue (ha_Status c) HelmAppPreInstalled \<and>
    (\<not> OverridesEqual c \<or> sp_Version (ha_Spec c) \<noteq> hst_CurrentVersion (ha_Status c))"
proof -
  obtain r where r: "NewApp x d c = Inr r"
    using assms(2) by (auto simp: helm_Reconcile_def bind_go_eq_Inr)
  then obtain a where a: "r = Inr a"
    using assms(2,3) by (cases r) (auto simp: helm_Reconcile_def)
  obtain a' w1 where run: "reconcile_app x env now a w = Inr (err, a', w1)"
    "w' = UpdateRunningStatus x env a' w1"
    using assms(2) r a by (auto simp: helm_Reconcile_def bind_go_eq_Inr)
  then have "releases_of w1 \<noteq> releases_of w"
    using assms(3) UpdateRunningStatus_helm by metis
  then have "\<not> NeedSetup a" "\<not> NeedDetect a" "NeedUpdate a"
    using run(1) Setup_helm [of env now a w] Detect_releases [OF assms(1), of env now a w err a' w1]
    by (auto simp: reconcile_app_def split: if_splits)
  then show ?thesis
    using NewApp_helmApp [of x d c a] r a by (simp add: NeedDetect_def NeedUpdate_def)
qed

section \<open>A configured application gets installed\<close>

definition cmd_of :: "dirs \<Rightarrow> string \<Rightarrow> helm_cmd" where
  "cmd_of d ns = \<lparr>hm_namespace = ns, hm_repoFile = d_repoFile d, hm_repoCache = d_repoCache d,
     hm_RepositoryCache = d_repoCache d, hm_Debug = True\<rparr>"

definition entry_of :: "helm_app_store \<Rightarrow> repo_entry" where
  "entry_of store = \<lparr>re_Name = as_Name store, re_URL = as_URL store, re_Username = [], re_Password = [],
     re_InsecureSkipTLSverify = False, re_rest = []\<rparr>"

text \<open>What is documented of a file system and a repository that answer.\<close>

definition repo_answers :: "helm_ext \<Rightarrow> helm_app_store \<Rightarrow> bool" where
  "repo_answers x store \<longleftrightarrow>
     (\<forall>p. hx_MkdirAll x p = None \<and> hx_TryLock x p = None \<and> hx_ReadFile x p = None \<and>
        hx_Unmarshal x p = None \<and> hx_WriteFile x p = None) \<and>
     (\<forall>e p. hx_NewChartRepository x e = None \<and> hx_DownloadIndexFile x e p = None) \<and>
     (\<forall>f e. hx_Get x (hx_Update x f e) (re_Name e) = Some e) \<and>
     find (\<lambda>(old, new). str_contains (as_URL store) old) deprecatedRepos = None"

text \<open>What is documented of helm's storage of releases.\<close>

definition releases_answer :: "helm_ext \<Rightarrow> bool" where
  "releases_answer x \<longleftrightarrow>
     (\<forall>rels ns n. hx_Status x rels ns n =
        (case map_of rels (ns, n) of None \<Rightarrow> Inl ErrReleaseNotFound | Some r \<Rightarrow> Inr (rel_status r))) \<and>
     (\<forall>rels ns n ch vals. map_of rels (ns, n) = None \<longrightarrow>
        hx_Install x rels ns n True ch vals = (None, rels) \<and>
        fst (hx_Install x rels ns n False ch vals) = None \<and>
        map_of (snd (hx_Install x rels ns n False ch vals)) (ns, n) =
          Some \<lparr>rel_chart = ch, rel_values = vals, rel_status = ''deployed''\<rparr>)"

text \<open>The chart of the object can be fetched and installed, and its overrides parse.\<close>

definition chart_available :: "helm_ext \<Rightarrow> dirs \<Rightarrow> helm_app \<Rightarrow> helm_app_store \<Rightarrow> helm_chart \<Rightarrow> hvals \<Rightarrow> bool" where
  "chart_available x d h store ch vals \<longleftrightarrow>
     hx_Init x (ha_Namespace h) = None \<and> sp_AppStore (ha_Spec h) = Some store \<and>
     install_chart x (cmd_of d (ha_Namespace h)) (as_Name store @ ''/'' @ sp_TemplateName (ha_Spec h))
       (sp_Version (ha_Spec h)) (sp_Overrides (ha_Spec h)) = Inr (ch, vals)"

definition repo_fits :: "helm_ext \<Rightarrow> helm_app_store \<Rightarrow> world \<Rightarrow> bool" where
  "repo_fits x store w \<longleftrightarrow>
     hx_Get x (hs_repos (w_helm w)) (as_Name store) \<in> {None, Some (entry_of store)}"

definition app_of :: "dirs \<Rightarrow> helm_app \<Rightarrow> helm_app_store \<Rightarrow> app" where
  "app_of d h store =
     \<lparr>ap_helmApp = h, ap_originalHelmApp = h, ap_name = ha_Name h, ap_namespace = ha_Namespace h,
      ap_templateName = sp_TemplateName (ha_Spec h), ap_version = sp_Version (ha_Spec h),
      ap_repoName = as_Name store, ap_repoURL = as_URL store,
      ap_overrides = sp_Overrides (ha_Spec h), ap_revision = sp_Revision (ha_Spec h),
      ap_chartDir = path_join [d_chartCache d, ha_Namespace h, ha_Name h, sp_Version (ha_Spec h)],
      ap_helmCmd = cmd_of d (ha_Namespace h), ap_repo = NewRepo (d_repoFile d) (d_repoCache d)\<rparr>"

lemma app_of_simps [simp]:
  "ap_helmApp (app_of d h store) = h" "ap_name (app_of d h store) = ha_Name h"
  "ap_version (app_of d h store) = sp_Version (ha_Spec h)"
  "ap_overrides (app_of d h store) = sp_Overrides (ha_Spec h)"
  "ap_helmCmd (app_of d h store) = cmd_of d (ha_Namespace h)"
  "ap_repoName (app_of d h store) = as_Name store" "ap_repoURL (app_of d h store) = as_URL store"
  "ap_repo (app_of d h store) = NewRepo (d_repoFile d) (d_repoCache d)"
  by (simp_all add: app_of_def)

lemma on_status_sel:
  "ap_helmCmd (on_status f a) = ap_helmCmd a" "ap_name (on_status f a) = ap_name a"
  by (simp_all add: on_status_def)

lemma NewApp_available:
  "chart_available x d h store ch vals \<Longrightarrow> NewApp x d h = Inr (Inr (app_of d h store))"
  by (simp add: chart_available_def NewApp_def NewHelm_def app_of_def cmd_of_def)

lemma Repo_Add_answers:
  assumes "repo_answers x store" "hx_Get x (hs_repos st) (as_Name store) \<in> {None, Some (entry_of store)}"
  obtains repos where "Repo_Add x (NewRepo f c) st (as_Name store) (as_URL store) [] [] =
      (None, st\<lparr>hs_repos := repos\<rparr>)"
    "hx_Get x repos (as_Name store) = Some (entry_of store)"
proof -
  have entry: "new_entry (NewRepo f c) (as_Name store) (as_URL store) [] [] = entry_of store"
    by (simp add: new_entry_def NewRepo_def entry_of_def)
  have read: "read_repo_file x (NewRepo f c) (hs_repos st) = Inr (hs_repos st)"
    using assms(1) by (simp add: repo_answers_def read_repo_file_def Let_def)
  have new: "hx_Get x (hx_Update x (hs_repos st) (entry_of store)) (as_Name store) = Some (entry_of store)"
    using assms(1) by (metis repo_answers_def entry_of_def repo_entry.select_convs(1))
  show ?thesis
  proof (cases "hx_Get x (hs_repos st) (as_Name store)")
    case None
    then show ?thesis
      using assms(1) read entry new that [of "hx_Update x (hs_repos st) (entry_of store)"]
      by (simp add: repo_answers_def Repo_Add_def repo_add_def Let_def NewRepo_def)
  next
    case (Some e)
    then have "e = entry_of store" using assms(2) by simp
    then show ?thesis
      using assms(1) read entry Some that [of "hs_repos st"]
      by (simp add: repo_answers_def Repo_Add_def repo_add_def Let_def NewRepo_def)
  qed
qed

text \<open>With the repository in place, the continuation runs and finds it there.\<close>

lemma with_repo_answers:
  assumes "repo_answers x store" "repo_fits x store w"
  obtains w' where "with_repo x (app_of d h store) w k = k w'"
    "w_stored w' = w_stored w" "releases_of w' = releases_of w" "repo_fits x store w'"
proof -
  obtain repos where add: "Repo_Add x (NewRepo (d_repoFile d) (d_repoCache d)) (w_helm w) (as_Name store)
      (as_URL store) [] [] = (None, (w_helm w)\<lparr>hs_repos := repos\<rparr>)"
    "hx_Get x repos (as_Name store) = Some (entry_of store)"
    using Repo_Add_answers [of x store "w_helm w" "d_repoFile d" "d_repoCache d"] assms
    unfolding repo_fits_def by blast
  show ?thesis
    by (rule that [of "w\<lparr>w_helm := (w_helm w)\<lparr>hs_repos := repos\<rparr>\<rparr>"])
      (simp_all add: with_repo_def on_helm_def app_of_def add repo_fits_def)
qed

lemma chart_located:
  assumes "chart_available x d h store ch vals"
  obtains p where "locateChart x (cmd_of d (ha_Namespace h)) (Chart (app_of d h store))
      (sp_Version (ha_Spec h)) = Inr p"
    "hx_Load x p = Inr ch" "checkIfInstallable ch = None" "check_deps x ch = None"
  using assms
  by (auto simp: chart_available_def install_chart_def or_bind_Inr or_return_Inr Chart_def app_of_def)

lemma pre_install_chart:
  assumes "chart_available x d h store ch vals"
  shows "install_chart x (cmd_of d (ha_Namespace h)) (Chart (app_of d h store)) (sp_Version (ha_Spec h)) []
    = Inr (ch, [])"
proof -
  obtain p where "locateChart x (cmd_of d (ha_Namespace h)) (Chart (app_of d h store))
      (sp_Version (ha_Spec h)) = Inr p"
    "hx_Load x p = Inr ch" "checkIfInstallable ch = None" "check_deps x ch = None"
    using chart_located [OF assms] .
  then show ?thesis by (simp add: install_chart_def parseOverrides_def)
qed

text \<open>A cycle: the cache catches up, then the object is reconciled.\<close>

definition cycle :: "helm_ext \<Rightarrow> dirs \<Rightarrow> world \<Rightarrow> api \<times> int \<Rightarrow> world go" where
  "cycle x d w e =
     (case w_stored w of
        None \<Rightarrow> Inr w
      | Some c \<Rightarrow> bind_go (helm_Reconcile x (fst e) (snd e) d c w) (\<lambda>(err, w'). Inr w'))"

definition all_answered :: "api \<Rightarrow> bool" where
  "all_answered env \<longleftrightarrow> answered (api_status env) \<and> answered (api_spec env) \<and> answered (api_running env)"

text \<open>The status on the way: no release yet, two conditions that become true one after the other.\<close>

definition staged :: "int \<Rightarrow> int \<Rightarrow> int \<Rightarrow> string \<Rightarrow> string \<Rightarrow> helm_app_status" where
  "staged t1 t2 t3 ready pre =
     \<lparr>hst_Status = [], hst_Phase = HelmAppStatusPhaseInstalling,
      hst_Conditions = [NewHelmAppCondition t1 HelmAppChartReady ready [] [],
        NewHelmAppCondition t2 HelmAppPreInstalled pre [] [],
        NewHelmAppCondition t3 HelmAppInstalled ConditionFalse [] []],
      hst_CurrentVersion = [], hst_Overrides = []\<rparr>"

lemmas cond_defs = GetCondition_def UpdateConditionStatus_def UpdateCondition_def
  NewHelmAppCondition_def IsConditionTrue_def

text \<open>
  The stages of the stored object \<open>h\<close>, with the facts about the environment that every cycle needs
  and keeps.
\<close>

definition on_the_way :: "helm_ext \<Rightarrow> dirs \<Rightarrow> helm_app \<Rightarrow> helm_app_store \<Rightarrow> helm_app_status \<Rightarrow> world \<Rightarrow> bool" where
  "on_the_way x d h store st w \<longleftrightarrow>
     (\<exists>rv. w_stored w = Some (h\<lparr>ha_Status := st, ha_ResourceVersion := rv\<rparr>)) \<and> repo_fits x store w \<and>
     map_of (releases_of w) (ha_Namespace h, ha_Name h) = None"

lemma setup_fresh:
  assumes "ha_Status h = no_status" "sp_PreStatus (ha_Spec h) = HelmAppPreStatusConfigured"
  shows "ha_Status (with_phase (setup_defaults now h)) =
      staged now now now ConditionFalse ConditionFalse"
    "ha_Spec (setup_defaults now h) = ha_Spec h"
  using assms
  by (simp_all add: setup_defaults_def Let_def defaultConditionTypes_def default_condition_def
      no_status_def staged_def getPhase_cond isDetected_def cond_defs helm_consts)

lemma cycle_setup:
  assumes avail: "chart_available x d h store ch vals" and env: "all_answered env"
    and conf: "sp_PreStatus (ha_Spec h) = HelmAppPreStatusConfigured"
    and way: "on_the_way x d h store no_status w"
  obtains w' where "cycle x d w (env, now) = Inr w'"
    "on_the_way x d h store (staged now now now ConditionFalse ConditionFalse) w'"
proof -
  from way obtain rv where stored: "w_stored w = Some (h\<lparr>ha_Status := no_status, ha_ResourceVersion := rv\<rparr>)"
    by (auto simp: on_the_way_def)
  define c where "c = h\<lparr>ha_Status := no_status, ha_ResourceVersion := rv\<rparr>"
  define a where "a = (app_of d c store)\<lparr>ap_helmApp := setup_defaults now c\<rparr>"
  have new: "NewApp x d c = Inr (Inr (app_of d c store))"
    by (rule NewApp_available) (use avail in \<open>simp add: chart_available_def c_def\<close>)
  have fresh: "ha_Status (with_phase (setup_defaults now c)) = staged now now now ConditionFalse ConditionFalse"
    "ha_Spec (setup_defaults now c) = ha_Spec h"
    using setup_fresh [of c now] conf by (simp_all add: c_def)
  obtain a1 rv1 where one: "UpdateStatus (api_status env) a w = (None, a1, w\<lparr>w_stored :=
      Some (c\<lparr>ha_Status := staged now now now ConditionFalse ConditionFalse, ha_ResourceVersion := rv1\<rparr>)\<rparr>)"
    "app_spec a1 = ha_Spec h" "app_status a1 = staged now now now ConditionFalse ConditionFalse"
    using UpdateStatus_to [of "api_status env" w c a "staged now now now ConditionFalse ConditionFalse"]
      env stored fresh unfolding all_answered_def c_def [symmetric] a_def by auto
  define w1 where "w1 = w\<lparr>w_stored :=
      Some (c\<lparr>ha_Status := staged now now now ConditionFalse ConditionFalse, ha_ResourceVersion := rv1\<rparr>)\<rparr>"
  obtain a2 rv2 where two: "UpdateSpec (api_spec env) a1 w1 = (None, a2, w1\<lparr>w_stored :=
      Some (c\<lparr>ha_Status := staged now now now ConditionFalse ConditionFalse,
        ha_Spec := ha_Spec h, ha_ResourceVersion := rv2\<rparr>)\<rparr>)"
    "app_status a2 = staged now now now ConditionFalse ConditionFalse"
    using UpdateSpec_to [of "api_spec env" w1
        "c\<lparr>ha_Status := staged now now now ConditionFalse ConditionFalse, ha_ResourceVersion := rv1\<rparr>" a1]
      env one(2,3)
    unfolding all_answered_def by (auto simp: w1_def)
  have "NeedSetup (app_of d c store)"
    by (simp add: NeedSetup_def app_of_def c_def no_status_def)
  then have "reconcile_app x env now (app_of d c store) w = Inr (UpdateSpec (api_spec env) a1 w1)"
    using one(1) by (simp add: reconcile_app_def Setup_def Update_def a_def w1_def app_of_def)
  then have "cycle x d w (env, now) = Inr (w1\<lparr>w_stored := Some (c\<lparr>ha_Status :=
      staged now now now ConditionFalse ConditionFalse, ha_Spec := ha_Spec h, ha_ResourceVersion := rv2\<rparr>)\<rparr>)"
    using stored new two
    by (simp add: cycle_def helm_Reconcile_def c_def UpdateRunningStatus_def staged_def helm_consts)
  then show ?thesis
    by (rule that) (use way in \<open>auto simp: on_the_way_def c_def w1_def repo_fits_def\<close>)
qed

lemma cycle_eq:
  assumes "w_stored w = Some c" "chart_available x d c store ch vals"
    "reconcile_app x env now (app_of d c store) w = Inr (err, a', w1)"
  shows "cycle x d w (env, now) = Inr (UpdateRunningStatus x env a' w1)"
  using assms NewApp_available [OF assms(2)] by (simp add: cycle_def helm_Reconcile_def)

lemma available_status:
  "chart_available x d (h\<lparr>ha_Status := st, ha_ResourceVersion := rv\<rparr>) store ch vals =
     chart_available x d h store ch vals"
  by (simp add: chart_available_def)

lemma staged_needs:
  assumes "ha_Status c = staged t1 t2 t3 ready pre" "sp_PreStatus (ha_Spec c) = HelmAppPreStatusConfigured"
  shows "\<not> NeedSetup (app_of d c store)"
    "NeedDetect (app_of d c store) \<longleftrightarrow> ready \<noteq> ConditionTrue \<or> pre \<noteq> ConditionTrue"
  using assms
  by (auto simp: NeedSetup_def NeedDetect_def app_of_def staged_def defaultConditionTypes_def cond_defs
      helm_consts)

lemma staged_true:
  "IsConditionTrue (staged t1 t2 t3 ready pre) HelmAppChartReady \<longleftrightarrow> ready = ConditionTrue"
  "IsConditionTrue (staged t1 t2 t3 ready pre) HelmAppPreInstalled \<longleftrightarrow> pre = ConditionTrue"
  by (simp_all add: staged_def cond_defs helm_consts)

lemma staged_updates:
  assumes "ha_Status c = staged t1 t2 t3 ready pre" "sp_PreStatus (ha_Spec c) = HelmAppPreStatusConfigured"
  shows "ready = ConditionFalse \<Longrightarrow> ha_Status (with_phase (ap_helmApp
      (on_status (UpdateConditionStatus now HelmAppChartReady ConditionTrue) (app_of d c store)))) =
      staged now t2 t3 ConditionTrue pre"
    and "pre = ConditionFalse \<Longrightarrow> ha_Status (with_phase (ap_helmApp
      (on_status (UpdateConditionStatus now HelmAppPreInstalled ConditionTrue) (app_of d c store)))) =
      staged t1 now t3 ready ConditionTrue"
  using assms
  by (simp_all add: on_status_def app_of_def staged_def getPhase_cond cond_defs helm_consts)

lemma UpdateRunningStatus_skips:
  "hst_Phase (app_status a) \<noteq> HelmAppStatusPhaseInstalled \<Longrightarrow> UpdateRunningStatus x env a w = w"
  by (simp add: UpdateRunningStatus_def)

lemma staged_phase: "hst_Phase (staged t1 t2 t3 ready pre) \<noteq> HelmAppStatusPhaseInstalled"
  by (simp add: staged_def helm_consts)

text \<open>A detection that succeeds, followed by the write of its result.\<close>

lemma cycle_detect:
  assumes avail: "chart_available x d h store ch vals" and env: "all_answered env"
    and conf: "sp_PreStatus (ha_Spec h) = HelmAppPreStatusConfigured"
    and c: "c = h\<lparr>ha_Status := staged t1 t2 t3 ready pre, ha_ResourceVersion := rv\<rparr>"
    and stored: "w_stored w = Some c" and due: "ready \<noteq> ConditionTrue \<or> pre \<noteq> ConditionTrue"
    and detect: "Detector_Detect x now (app_of d c store) w = Inr (None, on_status f (app_of d c store), w1)"
    and world: "w_stored w1 = Some c" "repo_fits x store w1"
      "map_of (releases_of w1) (ha_Namespace h, ha_Name h) = None"
    and next_stage: "ha_Status (with_phase (ap_helmApp (on_status f (app_of d c store)))) =
      staged u1 u2 u3 ready' pre'"
  obtains w' where "cycle x d w (env, now) = Inr w'" "on_the_way x d h store (staged u1 u2 u3 ready' pre') w'"
proof -
  have c_facts: "ha_Status c = staged t1 t2 t3 ready pre" "sp_PreStatus (ha_Spec c) = HelmAppPreStatusConfigured"
    "chart_available x d c store ch vals"
    using c conf avail by (simp_all add: available_status)
  have ans: "answered (api_status env)"
    using env by (simp add: all_answered_def)
  obtain a' rv' where status: "UpdateStatus (api_status env) (on_status f (app_of d c store)) w1 =
      (None, a', w1\<lparr>w_stored := Some (c\<lparr>ha_Status := staged u1 u2 u3 ready' pre', ha_ResourceVersion := rv'\<rparr>)\<rparr>)"
    "app_status a' = staged u1 u2 u3 ready' pre'"
    using UpdateStatus_to [OF ans world(1) next_stage] by blast
  let ?w = "w1\<lparr>w_stored := Some (c\<lparr>ha_Status := staged u1 u2 u3 ready' pre', ha_ResourceVersion := rv'\<rparr>)\<rparr>"
  have "reconcile_app x env now (app_of d c store) w = Inr (None, a', ?w)"
    using staged_needs [OF c_facts(1,2), of d store] due detect status(1)
    by (simp add: reconcile_app_def Detect_def)
  then have "cycle x d w (env, now) = Inr ?w"
    using cycle_eq [OF stored c_facts(3)] UpdateRunningStatus_skips [of a'] status(2) staged_phase by simp
  then show ?thesis
    by (rule that) (use world in \<open>auto simp: on_the_way_def c repo_fits_def\<close>)
qed

lemma cycle_chart:
  assumes avail: "chart_available x d h store ch vals" and repo: "repo_answers x store"
    and env: "all_answered env" and conf: "sp_PreStatus (ha_Spec h) = HelmAppPreStatusConfigured"
    and way: "on_the_way x d h store (staged t1 t2 t3 ConditionFalse ConditionFalse) w"
  obtains w' where "cycle x d w (env, now) = Inr w'"
    "on_the_way x d h store (staged now t2 t3 ConditionTrue ConditionFalse) w'"
proof -
  obtain rv where stored: "w_stored w = Some (h\<lparr>ha_Status := staged t1 t2 t3 ConditionFalse ConditionFalse,
      ha_ResourceVersion := rv\<rparr>)"
    using way by (auto simp: on_the_way_def)
  define c where c: "c = h\<lparr>ha_Status := staged t1 t2 t3 ConditionFalse ConditionFalse, ha_ResourceVersion := rv\<rparr>"
  let ?a = "app_of d c store"
  have fits: "repo_fits x store w" and free: "map_of (releases_of w) (ha_Namespace h, ha_Name h) = None"
    using way by (simp_all add: on_the_way_def)
  obtain w1 where w1: "with_repo x ?a w (\<lambda>w'. (None, w')) = (None, w1)"
    "w_stored w1 = w_stored w" "releases_of w1 = releases_of w" "repo_fits x store w1"
    using with_repo_answers [OF repo fits, of d c "\<lambda>w'. (None, w')"] by metis
  then have add: "on_helm w (Repo_Add x (ap_repo ?a) (w_helm w) (as_Name store) (as_URL store) [] []) = (None, w1)"
    by (simp add: with_repo_def app_of_def split: prod.splits option.splits)
  have avail_c: "chart_available x d c store ch vals"
    using avail c by (simp add: available_status)
  obtain p where p: "locateChart x (cmd_of d (ha_Namespace c)) (Chart ?a) (sp_Version (ha_Spec c)) = Inr p"
    using chart_located [OF avail_c] by metis
  obtain w2 where w2: "LoadChart x ?a w1 = (None, w2)"
    "w_stored w2 = w_stored w1" "releases_of w2 = releases_of w1" "repo_fits x store w2"
    using with_repo_answers [OF repo w1(4), of d c] p
    unfolding LoadChart_def by (simp add: app_of_def) metis
  have det: "Detector_Detect x now ?a w =
      Inr (None, on_status (UpdateConditionStatus now HelmAppChartReady ConditionTrue) ?a, w2)"
    using avail_c add w2(1) staged_true(1) [of t1 t2 t3 ConditionFalse ConditionFalse]
    by (simp add: Detector_Detect_def chart_available_def app_of_def c helm_consts)
  have nxt: "ha_Status (with_phase (ap_helmApp
      (on_status (UpdateConditionStatus now HelmAppChartReady ConditionTrue) ?a))) =
      staged now t2 t3 ConditionTrue ConditionFalse"
    using staged_updates(1) [of c t1 t2 t3 ConditionFalse ConditionFalse] c conf by simp
  show ?thesis
    by (rule cycle_detect [OF avail env conf c stored [folded c] _ det _ w2(4) _ nxt that])
      (use stored c w1(2,3) w2(2,3) free in \<open>simp_all add: helm_consts\<close>)
qed

lemma cycle_pre_install:
  assumes avail: "chart_available x d h store ch vals" and repo: "repo_answers x store"
    and rels: "releases_answer x"
    and env: "all_answered env" and conf: "sp_PreStatus (ha_Spec h) = HelmAppPreStatusConfigured"
    and way: "on_the_way x d h store (staged t1 t2 t3 ConditionTrue ConditionFalse) w"
  obtains w' where "cycle x d w (env, now) = Inr w'"
    "on_the_way x d h store (staged t1 now t3 ConditionTrue ConditionTrue) w'"
proof -
  obtain rv where stored: "w_stored w = Some (h\<lparr>ha_Status := staged t1 t2 t3 ConditionTrue ConditionFalse,
      ha_ResourceVersion := rv\<rparr>)"
    using way by (auto simp: on_the_way_def)
  define c where c: "c = h\<lparr>ha_Status := staged t1 t2 t3 ConditionTrue ConditionFalse, ha_ResourceVersion := rv\<rparr>"
  let ?a = "app_of d c store"
  have fits: "repo_fits x store w" and free: "map_of (releases_of w) (ha_Namespace h, ha_Name h) = None"
    using way by (simp_all add: on_the_way_def)
  have avail_c: "chart_available x d c store ch vals"
    using avail c by (simp add: available_status)
  obtain w1 where w1: "PreInstall x ?a w = on_helm w1 (helm_PreInstall x (cmd_of d (ha_Namespace c)) (w_helm w1)
      (ha_Name c) (Chart ?a) (sp_Version (ha_Spec c)))"
    "w_stored w1 = w_stored w" "releases_of w1 = releases_of w" "repo_fits x store w1"
    by (rule with_repo_answers [OF repo fits, of d c "\<lambda>w'. on_helm w' (helm_PreInstall x
        (cmd_of d (ha_Namespace c)) (w_helm w') (ha_Name c) (Chart ?a) (sp_Version (ha_Spec c)))"])
      (simp add: PreInstall_def)
  have "map_of (releases_of w1) (ha_Namespace c, ha_Name c) = None"
    using w1(3) free c by simp
  then have "hx_Install x (releases_of w1) (ha_Namespace c) (ha_Name c) True ch [] = (None, releases_of w1)"
    using rels by (simp add: releases_answer_def)
  then have pre: "PreInstall x ?a w = (None, w1)"
    using w1(1) pre_install_chart [OF avail_c]
    by (simp add: helm_PreInstall_def helm_install_def on_helm_def cmd_of_def)
  have det: "Detector_Detect x now ?a w =
      Inr (None, on_status (UpdateConditionStatus now HelmAppPreInstalled ConditionTrue) ?a, w1)"
    using pre staged_true [of t1 t2 t3 ConditionTrue ConditionFalse]
    by (simp add: Detector_Detect_def app_of_def c helm_consts)
  have nxt: "ha_Status (with_phase (ap_helmApp
      (on_status (UpdateConditionStatus now HelmAppPreInstalled ConditionTrue) ?a))) =
      staged t1 now t3 ConditionTrue ConditionTrue"
    using staged_updates(2) [of c t1 t2 t3 ConditionTrue ConditionFalse] c conf by simp
  show ?thesis
    by (rule cycle_detect [OF avail env conf c stored [folded c] _ det _ w1(4) _ nxt that])
      (use stored c w1(2,3) free in \<open>simp_all add: helm_consts\<close>)
qed

definition deployed_status :: "int \<Rightarrow> int \<Rightarrow> int \<Rightarrow> helm_app_spec \<Rightarrow> string \<Rightarrow> helm_app_status" where
  "deployed_status t1 t2 t3 spec running =
     \<lparr>hst_Status = running, hst_Phase = HelmAppStatusPhaseInstalled,
      hst_Conditions = [NewHelmAppCondition t1 HelmAppChartReady ConditionTrue [] [],
        NewHelmAppCondition t2 HelmAppPreInstalled ConditionTrue [] [],
        NewHelmAppCondition t3 HelmAppInstalled ConditionTrue [] []],
      hst_CurrentVersion = sp_Version spec, hst_Overrides = sp_Overrides spec\<rparr>"

lemma staged_installed:
  "ha_Status c = staged t1 t2 t3 ConditionTrue ConditionTrue \<Longrightarrow>
   ha_Status (with_phase (ap_helmApp (on_status (mark_installed now (ha_Spec c)) (app_of d c store)))) =
     deployed_status t1 t2 now (ha_Spec c) []"
  by (simp add: on_status_def mark_installed_def staged_def deployed_status_def getPhase_cond cond_defs
      helm_consts)

lemma deployed_running:
  "app_status a = deployed_status t1 t2 t3 spec [] \<Longrightarrow>
   ha_Status (with_phase (ap_helmApp (on_status (\<lambda>st. st\<lparr>hst_Status := r\<rparr>) a))) =
     deployed_status t1 t2 t3 spec r"
  by (simp add: on_status_def deployed_status_def getPhase_cond cond_defs helm_consts)

lemma install_answers:
  assumes avail: "chart_available x d c store ch vals" and repo: "repo_answers x store"
    and rels: "releases_answer x" and fits: "repo_fits x store w"
    and free: "map_of (releases_of w) (ha_Namespace c, ha_Name c) = None"
  obtains w' where "installOrUpdate x (app_of d c store) w = (None, w')" "w_stored w' = w_stored w"
    "map_of (releases_of w') (ha_Namespace c, ha_Name c) =
       Some \<lparr>rel_chart = ch, rel_values = vals, rel_status = ''deployed''\<rparr>"
proof -
  let ?a = "app_of d c store" and ?ns = "ha_Namespace c" and ?n = "ha_Name c"
  obtain w1 where w1: "installOrUpdate x ?a w = install_or_upgrade x ?a w1"
    "w_stored w1 = w_stored w" "releases_of w1 = releases_of w"
    by (rule with_repo_answers [OF repo fits, of d c "install_or_upgrade x ?a"])
      (simp add: installOrUpdate_def)
  obtain rels' where inst: "hx_Install x (releases_of w1) ?ns ?n False ch vals = (None, rels')"
    "map_of rels' (?ns, ?n) = Some \<lparr>rel_chart = ch, rel_values = vals, rel_status = ''deployed''\<rparr>"
    using rels free w1(3) by (metis releases_answer_def prod.collapse)
  have "helm_Status x (cmd_of d ?ns) (w_helm w1) ?n = Inl (Wrap ''helm status'' ErrReleaseNotFound)"
    using rels free w1(3) by (simp add: helm_Status_def releases_answer_def cmd_of_def)
  moreover have "install_chart x (cmd_of d ?ns) (Chart ?a) (sp_Version (ha_Spec c)) (sp_Overrides (ha_Spec c))
      = Inr (ch, vals)"
    using avail by (simp add: chart_available_def Chart_def app_of_def)
  ultimately have "installOrUpdate x ?a w = (None, w1\<lparr>w_helm := (w_helm w1)\<lparr>hs_releases := rels'\<rparr>\<rparr>)"
    using w1(1) inst(1)
    by (simp add: install_or_upgrade_def helm_Install_def helm_install_def on_helm_def cmd_of_def)
  then show ?thesis
    by (rule that) (use w1(2) inst(2) in simp_all)
qed

lemma cycle_install:
  assumes avail: "chart_available x d h store ch vals" and repo: "repo_answers x store"
    and rels: "releases_answer x" and env: "all_answered env"
    and conf: "sp_PreStatus (ha_Spec h) = HelmAppPreStatusConfigured"
    and wanted: "sp_Version (ha_Spec h) \<noteq> [] \<or> sp_Overrides (ha_Spec h) \<noteq> []"
    and way: "on_the_way x d h store (staged t1 t2 t3 ConditionTrue ConditionTrue) w"
  obtains w' rv where "cycle x d w (env, now) = Inr w'"
    "w_stored w' = Some (h\<lparr>ha_Status := deployed_status t1 t2 now (ha_Spec h) ''deployed'',
       ha_ResourceVersion := rv\<rparr>)"
    "map_of (releases_of w') (ha_Namespace h, ha_Name h) =
       Some \<lparr>rel_chart = ch, rel_values = vals, rel_status = ''deployed''\<rparr>"
proof -
  obtain rv where stored: "w_stored w = Some (h\<lparr>ha_Status := staged t1 t2 t3 ConditionTrue ConditionTrue,
      ha_ResourceVersion := rv\<rparr>)"
    using way by (auto simp: on_the_way_def)
  define c where c: "c = h\<lparr>ha_Status := staged t1 t2 t3 ConditionTrue ConditionTrue, ha_ResourceVersion := rv\<rparr>"
  let ?a = "app_of d c store" and ?S = "deployed_status t1 t2 now (ha_Spec h)"
  have c_facts: "ha_Status c = staged t1 t2 t3 ConditionTrue ConditionTrue" "ha_Spec c = ha_Spec h"
    "sp_PreStatus (ha_Spec c) = HelmAppPreStatusConfigured" "chart_available x d c store ch vals"
    "ha_Namespace c = ha_Namespace h" "ha_Name c = ha_Name h"
    using c conf avail by (simp_all add: available_status)
  obtain w1 where w1: "installOrUpdate x ?a w = (None, w1)" "w_stored w1 = Some c"
    "map_of (releases_of w1) (ha_Namespace h, ha_Name h) =
       Some \<lparr>rel_chart = ch, rel_values = vals, rel_status = ''deployed''\<rparr>"
    using install_answers [OF c_facts(4) repo rels, of w] way stored c
    by (metis c_facts(5,6) on_the_way_def)
  have ans: "answered (api_status env)" "answered (api_running env)"
    using env by (simp_all add: all_answered_def)
  have marked: "ha_Status (with_phase (ap_helmApp (on_status (mark_installed now (ha_Spec c)) ?a))) = ?S []"
    using staged_installed [OF c_facts(1), of now d store] c_facts(2) by simp
  obtain a2 rv2 where two: "UpdateStatus (api_status env) (on_status (mark_installed now (ha_Spec c)) ?a) w1 =
      (None, a2, w1\<lparr>w_stored := Some (c\<lparr>ha_Status := ?S [], ha_ResourceVersion := rv2\<rparr>)\<rparr>)"
    "app_status a2 = ?S []" "ap_helmCmd a2 = cmd_of d (ha_Namespace h)" "ap_name a2 = ha_Name h"
    using UpdateStatus_to [OF ans(1) w1(2) marked] c_facts(5,6) by (simp only: on_status_sel app_of_simps) blast
  let ?w2 = "w1\<lparr>w_stored := Some (c\<lparr>ha_Status := ?S [], ha_ResourceVersion := rv2\<rparr>)\<rparr>"
  let ?a2 = "on_status (\<lambda>st. st\<lparr>hst_Status := ''deployed''\<rparr>) a2"
  have "NeedUpdate ?a"
    using wanted c_facts(1,2,3) by (auto simp: NeedUpdate_def OverridesEqual_def staged_def)
  then have run: "reconcile_app x env now ?a w = Inr (None, a2, ?w2)"
    using staged_needs [OF c_facts(1,3), of d store] w1(1) two(1) c_facts(2)
    by (simp add: reconcile_app_def InstallOrUpdate_def)
  have "helm_Status x (ap_helmCmd a2) (w_helm ?w2) (ap_name a2) = Inr ''deployed''"
    using w1(3) two(3,4) rels by (simp add: helm_Status_def releases_answer_def cmd_of_def)
  then have "UpdateRunningStatus x env a2 ?w2 = snd (snd (Status_Update (api_running env) (ap_helmApp ?a2) ?w2))"
    using two(2) by (simp add: UpdateRunningStatus_def deployed_status_def)
  moreover have "w_stored ?w2 = Some (c\<lparr>ha_Status := ?S [], ha_ResourceVersion := rv2\<rparr>)"
    by simp
  from Status_Update_to [OF ans(2) this deployed_running [OF two(2)]]
  obtain h3 rv3 where "Status_Update (api_running env) (ap_helmApp ?a2) ?w2 = (None, h3, ?w2\<lparr>w_stored :=
      Some (c\<lparr>ha_Status := ?S [], ha_ResourceVersion := rv2, ha_Status := ?S ''deployed'',
        ha_ResourceVersion := rv3\<rparr>)\<rparr>)"
    by blast
  ultimately have "cycle x d w (env, now) =
      Inr (w1\<lparr>w_stored := Some (c\<lparr>ha_Status := ?S ''deployed'', ha_ResourceVersion := rv3\<rparr>)\<rparr>)"
    using cycle_eq [OF stored [folded c] c_facts(4) run] by simp
  then show ?thesis
    by (rule that [of _ rv3]) (use w1(3) c in simp_all)
qed

text \<open>
  C8: A fresh object that is configured is installed after four cycles, whenever the repository, the
  chart, helm's storage and the API server answer: its chart is released with its values, and
  the stored status says so, with the version and the overrides now in effect.
\<close>
theorem configured_app_gets_installed:
  assumes "chart_available x d h store ch vals" "repo_answers x store" "releases_answer x"
    and "sp_PreStatus (ha_Spec h) = HelmAppPreStatusConfigured"
    and "sp_Version (ha_Spec h) \<noteq> [] \<or> sp_Overrides (ha_Spec h) \<noteq> []"
    and "w_stored w = Some h" "ha_Status h = no_status" "repo_fits x store w"
    and "map_of (releases_of w) (ha_Namespace h, ha_Name h) = None"
    and "all_answered e1" "all_answered e2" "all_answered e3" "all_answered e4"
  shows "\<exists>w' h'. for_go (cycle x d) w [(e1, t1), (e2, t2), (e3, t3), (e4, t4)] = Inr w' \<and>
    w_stored w' = Some h' \<and> ha_Spec h' = ha_Spec h \<and>
    hst_Phase (ha_Status h') = HelmAppStatusPhaseInstalled \<and> hst_Status (ha_Status h') = ''deployed'' \<and>
    hst_CurrentVersion (ha_Status h') = sp_Version (ha_Spec h) \<and>
    hst_Overrides (ha_Status h') = sp_Overrides (ha_Spec h) \<and>
    map_of (releases_of w') (ha_Namespace h, ha_Name h) =
      Some \<lparr>rel_chart = ch, rel_values = vals, rel_status = ''deployed''\<rparr>"
proof -
  have eq: "h\<lparr>ha_Status := no_status, ha_ResourceVersion := ha_ResourceVersion h\<rparr> = h"
    using assms(7) by (cases h) simp
  have "\<exists>rv. w_stored w = Some (h\<lparr>ha_Status := no_status, ha_ResourceVersion := rv\<rparr>)"
    by (rule exI [of _ "ha_ResourceVersion h"]) (simp only: eq assms(6))
  then have way: "on_the_way x d h store no_status w"
    using assms(8,9) by (simp add: on_the_way_def)
  obtain w1 where w1: "cycle x d w (e1, t1) = Inr w1"
    "on_the_way x d h store (staged t1 t1 t1 ConditionFalse ConditionFalse) w1"
    using cycle_setup [OF assms(1,10,4) way] .
  obtain w2 where w2: "cycle x d w1 (e2, t2) = Inr w2"
    "on_the_way x d h store (staged t2 t1 t1 ConditionTrue ConditionFalse) w2"
    using cycle_chart [OF assms(1,2,11,4) w1(2)] .
  obtain w3 where w3: "cycle x d w2 (e3, t3) = Inr w3"
    "on_the_way x d h store (staged t2 t3 t1 ConditionTrue ConditionTrue) w3"
    using cycle_pre_install [OF assms(1,2,3,12,4) w2(2)] .
  obtain w4 rv where "cycle x d w3 (e4, t4) = Inr w4"
    "w_stored w4 = Some (h\<lparr>ha_Status := deployed_status t2 t3 t4 (ha_Spec h) ''deployed'',
       ha_ResourceVersion := rv\<rparr>)"
    "map_of (releases_of w4) (ha_Namespace h, ha_Name h) =
       Some \<lparr>rel_chart = ch, rel_values = vals, rel_status = ''deployed''\<rparr>"
    using cycle_install [OF assms(1,2,3,13,4,5) w3(2)] .
  then show ?thesis
    using w1(1) w2(1) w3(1) by (simp add: deployed_status_def)
qed

section \<open>Where the loop misses its goal\<close>

lemma NewApp_of:
  "hx_Init x (ha_Namespace h) = None \<Longrightarrow> sp_AppStore (ha_Spec h) = Some store \<Longrightarrow>
     NewApp x d h = Inr (Inr (app_of d h store))"
  by (simp add: NewApp_def NewHelm_def app_of_def cmd_of_def)

definition failed_status :: "int \<Rightarrow> int \<Rightarrow> int \<Rightarrow> helm_app_spec \<Rightarrow> string \<Rightarrow> string \<Rightarrow> helm_app_status" where
  "failed_status t1 t2 t3 old running msg =
     \<lparr>hst_Status = running, hst_Phase = HelmAppStatusPhaseInstalling,
      hst_Conditions = [NewHelmAppCondition t1 HelmAppChartReady ConditionTrue [] [],
        NewHelmAppCondition t2 HelmAppPreInstalled ConditionTrue [] [],
        NewHelmAppCondition t3 HelmAppInstalled ConditionFalse ''InstallFailed'' msg],
      hst_CurrentVersion = sp_Version old, hst_Overrides = sp_Overrides old\<rparr>"

lemma deployed_fails:
  assumes "ha_Status c = deployed_status t1 t2 t3 old r" "sp_PreStatus (ha_Spec c) = HelmAppPreStatusConfigured"
  shows "ha_Status (with_phase (ap_helmApp (on_status (SetCondition (NewHelmAppCondition now HelmAppInstalled
      ConditionFalse ''InstallFailed'' msg)) (app_of d c store)))) = failed_status t1 t2 now old r msg"
  using assms
  by (simp add: on_status_def deployed_status_def failed_status_def SetCondition_def getPhase_cond cond_defs
      helm_consts)

lemma deployed_needs:
  assumes "ha_Status c = deployed_status t1 t2 t3 old r \<or> ha_Status c = failed_status t1 t2 t3 old r msg"
    "sp_PreStatus (ha_Spec c) = HelmAppPreStatusConfigured"
  shows "\<not> NeedSetup (app_of d c store)" "\<not> NeedDetect (app_of d c store)"
    "NeedUpdate (app_of d c store) \<longleftrightarrow> \<not> OverridesEqual c \<or> sp_Version (ha_Spec c) \<noteq> sp_Version old"
  using assms
  by (auto simp: NeedSetup_def NeedDetect_def NeedUpdate_def deployed_status_def failed_status_def
      defaultConditionTypes_def cond_defs helm_consts)

text \<open>
  C38: An upgrade that fails leaves the application in the phase \<^verbatim>\<open>installing\<close>. When the user
  goes back to the version and the overrides that are still in effect, no later reconciliation
  does anything, whatever the state of helm and of the cluster: the application stays in that
  phase although its release is the one the specification asks for.
\<close>
theorem reverted_upgrade_stays_installing:
  assumes "hx_Init x (ha_Namespace c) = None" "sp_AppStore (ha_Spec c) = Some store"
    and "ha_Status c = deployed_status t1 t2 t3 old r"
    and "sp_PreStatus (ha_Spec c) = HelmAppPreStatusConfigured" "sp_Version (ha_Spec c) \<noteq> sp_Version old"
    and "w_stored w = Some c" "installOrUpdate x (app_of d c store) w = (Some e, w1)"
    and "answered (api_status env)"
  shows "\<exists>h' w'. helm_Reconcile x env now d c w = Inr (None, w') \<and> w_stored w' = Some h' \<and>
    hst_Phase (ha_Status h') = HelmAppStatusPhaseInstalling \<and>
    (\<forall>x' env' now' rv w2. hx_Init x' (ha_Namespace c) = None \<longrightarrow>
      helm_Reconcile x' env' now' d (h'\<lparr>ha_Spec := (ha_Spec c)\<lparr>sp_Version := sp_Version old,
        sp_Overrides := sp_Overrides old\<rparr>, ha_ResourceVersion := rv\<rparr>) w2 = Inr (None, w2))"
proof -
  let ?st = "failed_status t1 t2 now old r (hx_Error x e)"
  have "w_stored w1 = Some c"
    using helm_stored_eq(3) [OF assms(7)] assms(6) by simp
  then obtain a' rv where upd: "UpdateStatus (api_status env) (on_status (SetCondition (NewHelmAppCondition now
      HelmAppInstalled ConditionFalse ''InstallFailed'' (hx_Error x e))) (app_of d c store)) w1 =
      (None, a', w1\<lparr>w_stored := Some (c\<lparr>ha_Status := ?st, ha_ResourceVersion := rv\<rparr>)\<rparr>)" "app_status a' = ?st"
    using UpdateStatus_to [OF assms(8) _ deployed_fails [OF assms(3,4)]] by blast
  let ?h = "c\<lparr>ha_Status := ?st, ha_ResourceVersion := rv\<rparr>"
  have "reconcile_app x env now (app_of d c store) w = Inr (None, a', w1\<lparr>w_stored := Some ?h\<rparr>)"
    using deployed_needs [OF disjI1 [OF assms(3)] assms(4), of d store] assms(5,7) upd(1)
    by (simp add: reconcile_app_def InstallOrUpdate_def)
  then have run: "helm_Reconcile x env now d c w = Inr (None, w1\<lparr>w_stored := Some ?h\<rparr>)"
    using NewApp_of [OF assms(1,2), of d] UpdateRunningStatus_skips [of a'] upd(2)
    by (simp add: helm_Reconcile_def failed_status_def helm_consts)
  have idle: "helm_Reconcile x' env' now' d c' w2 = Inr (None, w2)"
    if "hx_Init x' (ha_Namespace c) = None" and c': "c' = ?h\<lparr>ha_Spec := (ha_Spec c)\<lparr>sp_Version :=
      sp_Version old, sp_Overrides := sp_Overrides old\<rparr>, ha_ResourceVersion := rv'\<rparr>" for x' env' now' rv' w2 c'
  proof -
    have "OverridesEqual c'"
      using c' by (simp add: OverridesEqual_def failed_status_def list_all_iff)
    then have "reconcile_app x' env' now' (app_of d c' store) w2 = Inr (None, app_of d c' store, w2)"
      using deployed_needs [of c' t1 t2 now old r "hx_Error x e" d store] assms(4) c' by (simp add: reconcile_app_def)
    moreover have "NewApp x' d c' = Inr (Inr (app_of d c' store))"
      by (rule NewApp_of) (use that assms(2) in simp_all)
    ultimately show ?thesis
      using UpdateRunningStatus_skips [of "app_of d c' store" x' env' w2] c'
      by (simp add: helm_Reconcile_def failed_status_def helm_consts)
  qed
  show ?thesis
    by (intro exI [of _ ?h] exI [of _ "w1\<lparr>w_stored := Some ?h\<rparr>"] conjI allI impI run idle [OF _ refl])
      (simp_all add: failed_status_def)
qed

lemma setup_spec:
  "ha_Spec (setup_defaults now h) = (if sp_PreStatus (ha_Spec h) = []
     then (ha_Spec h)\<lparr>sp_PreStatus := HelmAppPreStatusNotConfigured\<rparr> else ha_Spec h)"
  by (simp add: setup_defaults_def Let_def)

lemma setup_phase:
  "ha_Status h = no_status \<Longrightarrow>
     hst_Phase (ha_Status (with_phase (setup_defaults now h))) \<noteq> HelmAppStatusPhaseInstalled"
  by (simp add: setup_defaults_def Let_def defaultConditionTypes_def default_condition_def
      no_status_def getPhase_cond isDetected_def cond_defs helm_consts)

text \<open>
  The first reconciliation of an object writes the specification of the cached object back. Edits
  made since the cache saw the object are lost: whatever specification is stored, afterwards it
  is the cached one with the default prerequisite status.
\<close>
theorem setup_discards_concurrent_edits:
  assumes "hx_Init x (ha_Namespace c) = None" "sp_AppStore (ha_Spec c) = Some store"
    and "ha_Status c = no_status" "w_stored w = Some s"
    and "answered (api_status env)" "answered (api_spec env)"
  shows "\<exists>h' w'. helm_Reconcile x env now d c w = Inr (None, w') \<and> w_stored w' = Some h' \<and>
    ha_Spec h' = (if sp_PreStatus (ha_Spec c) = []
      then (ha_Spec c)\<lparr>sp_PreStatus := HelmAppPreStatusNotConfigured\<rparr> else ha_Spec c)"
proof -
  let ?a = "(app_of d c store)\<lparr>ap_helmApp := setup_defaults now c\<rparr>"
  obtain a1 rv1 where one: "UpdateStatus (api_status env) ?a w = (None, a1, w\<lparr>w_stored :=
      Some (s\<lparr>ha_Status := ha_Status (with_phase (ap_helmApp ?a)), ha_ResourceVersion := rv1\<rparr>)\<rparr>)"
    "app_spec a1 = ha_Spec (setup_defaults now c)"
    "app_status a1 = ha_Status (with_phase (setup_defaults now c))"
    using UpdateStatus_to [OF assms(5,4) refl, of ?a] by auto
  let ?w1 = "w\<lparr>w_stored :=
      Some (s\<lparr>ha_Status := ha_Status (with_phase (ap_helmApp ?a)), ha_ResourceVersion := rv1\<rparr>)\<rparr>"
  have "w_stored ?w1 = Some (s\<lparr>ha_Status := ha_Status (with_phase (ap_helmApp ?a)), ha_ResourceVersion := rv1\<rparr>)"
    by simp
  from UpdateSpec_to [OF assms(6) this one(2)]
  obtain a2 h' w' where two: "UpdateSpec (api_spec env) a1 ?w1 = (None, a2, w')" "w_stored w' = Some h'"
    "ha_Spec h' = ha_Spec (setup_defaults now c)" "app_status a2 = app_status a1"
    by force
  have "NeedSetup (app_of d c store)"
    using assms(3) by (simp add: NeedSetup_def no_status_def)
  then have "reconcile_app x env now (app_of d c store) w = Inr (None, a2, w')"
    using one(1) two(1) by (simp add: reconcile_app_def Setup_def Update_def)
  then have "helm_Reconcile x env now d c w = Inr (None, w')"
    using NewApp_of [OF assms(1,2), of d] UpdateRunningStatus_skips [of a2] two(4) one(3)
      setup_phase [OF assms(3), of now]
    by (simp add: helm_Reconcile_def)
  then show ?thesis
    using two(2,3) setup_spec [of now c] by metis
qed

text \<open>
  For overrides without duplicates the comparison decides whether the same overrides are in
  effect; their order is not compared.
\<close>
lemma overrides_equal_exact:
  assumes "distinct (sp_Overrides (ha_Spec h))" "distinct (hst_Overrides (ha_Status h))"
  shows "OverridesEqual h \<longleftrightarrow> set (sp_Overrides (ha_Spec h)) = set (hst_Overrides (ha_Status h))"
  using all_matched_distinct [OF assms(2,1)]
  by (auto simp: OverridesEqual_def all_matched_def list_all_iff)

text \<open>
  The queue holds keys of objects, and the control loop gets name and namespace back from a key.
\<close>
lemma key_roundtrip:
  assumes "CHR ''/'' \<notin> set (ha_Name h)" "CHR ''/'' \<notin> set (ha_Namespace h)"
  shows "nameNamespace (ObjKey h) = Inr (ha_Name h, ha_Namespace h)"
  using assms by (simp add: nameNamespace_def ObjKey_def split_byte_append split_byte_none)

section \<open>Witnesses\<close>

definition sample_chart :: helm_chart where
  "sample_chart = \<lparr>ch_id = ''c1'', ch_Type = [], ch_Dependencies = None\<rparr>"

definition sample_ext :: helm_ext where
  "sample_ext = \<lparr>hx_Init = \<lambda>_. None, hx_MkdirAll = \<lambda>_. None, hx_TryLock = \<lambda>_. None, hx_ReadFile = \<lambda>_. None,
     hx_Unmarshal = \<lambda>_. None, hx_Get = \<lambda>f n. find (\<lambda>e. re_Name e = n) f, hx_Update = \<lambda>f e. e # f,
     hx_NewChartRepository = \<lambda>_. None, hx_DownloadIndexFile = \<lambda>_ _. None, hx_WriteFile = \<lambda>_. None,
     hx_Open = \<lambda>_. None, hx_Digest = Inr, hx_LoadIndexFile = \<lambda>_. Inr [], hx_Stat = \<lambda>_. False, hx_Abs = Inr,
     hx_VerifyChart = \<lambda>_. None, hx_FindChartInRepoURL = \<lambda>_ n _. Inr n, hx_DownloadTo = \<lambda>n _ _. Inr n,
     hx_Load = \<lambda>_. Inr sample_chart, hx_CheckDependencies = \<lambda>_ _. None,
     hx_ParseInto = \<lambda>s v. Inr (v @ [(s, Scalar [])]),
     hx_Install = \<lambda>rels ns n dry ch v. (None, if dry then rels
       else ((ns, n), \<lparr>rel_chart = ch, rel_values = v, rel_status = ''deployed''\<rparr>) # rels),
     hx_Upgrade = \<lambda>rels ns n ch v. (Some (Lib_error ''timeout''), rels),
     hx_Status = \<lambda>rels ns n. (case map_of rels (ns, n) of None \<Rightarrow> Inl ErrReleaseNotFound | Some r \<Rightarrow> Inr (rel_status r)),
     hx_Uninstall = \<lambda>rels ns n. (None, rels), hx_Error = \<lambda>_. ''error''\<rparr>"

definition sample_store :: helm_app_store where
  "sample_store = \<lparr>as_Version = [], as_Name = ''r'', as_URL = ''https://r'', as_Branch = [], as_Username = [],
     as_Password = []\<rparr>"

definition sample_dirs :: dirs where
  "sample_dirs = \<lparr>d_repoFile = ''/h/r.yaml'', d_repoCache = ''/h/c'', d_chartCache = ''/h/t''\<rparr>"

definition sample_spec :: helm_app_spec where
  "sample_spec = \<lparr>sp_PreStatus = HelmAppPreStatusConfigured, sp_TemplateName = ''t'', sp_Version = ''1'',
     sp_Revision = 0, sp_AppStore = Some sample_store, sp_Overrides = [''a'']\<rparr>"

definition sample_app :: helm_app where
  "sample_app = \<lparr>ha_Name = ''n'', ha_Namespace = ''s'', ha_ResourceVersion = [], ha_Spec = sample_spec,
     ha_Status = no_status\<rparr>"

definition sample_api :: api where
  "sample_api = \<lparr>api_status = [Written ''2''], api_spec = [Written ''3''], api_running = [Written ''4'']\<rparr>"

definition sample_world :: "helm_app \<Rightarrow> releases \<Rightarrow> world" where
  "sample_world h rels = \<lparr>w_helm = \<lparr>hs_repos = [], hs_releases = rels\<rparr>, w_stored = Some h\<rparr>"

lemma sample_answers: "all_answered sample_api"
  by (simp add: sample_api_def all_answered_def answered_def)

lemma sample_locate:
  "locateChart sample_ext (cmd_of sample_dirs ''s'') ''r/t'' v = Inr ''r/t''"
  by (simp add: locateChart_def LocateChart_def sample_ext_def Let_def trim_space_def ascii_space_def)

lemma sample_available:
  "chart_available sample_ext sample_dirs sample_app sample_store sample_chart [(''a'', Scalar [])]"
proof -
  have "parseOverrides sample_ext [''a''] = Inr [(''a'', Scalar [])]"
    "hx_Load sample_ext p = Inr sample_chart" "hx_Init sample_ext ns = None" for p ns
    by (simp_all add: parseOverrides_def sample_ext_def)
  then show ?thesis
    using sample_locate [of "''1''"]
    by (simp add: chart_available_def install_chart_def sample_app_def sample_spec_def sample_store_def
        checkIfInstallable_def check_deps_def sample_chart_def)
qed

lemma sample_repo: "repo_answers sample_ext sample_store"
  by (simp add: repo_answers_def sample_ext_def deprecatedRepos_def str_contains_def sample_store_def
      sublist_code)

lemma sample_releases: "releases_answer sample_ext"
  by (simp add: releases_answer_def sample_ext_def)

theorem configured_app_gets_installed_witness:
  "\<exists>w' h'. for_go (cycle sample_ext sample_dirs) (sample_world sample_app [])
      [(sample_api, 1), (sample_api, 2), (sample_api, 3), (sample_api, 4)] = Inr w' \<and>
    w_stored w' = Some h' \<and> hst_Phase (ha_Status h') = HelmAppStatusPhaseInstalled \<and>
    hst_CurrentVersion (ha_Status h') = ''1'' \<and>
    map_of (releases_of w') (''s'', ''n'') = Some \<lparr>rel_chart = sample_chart,
      rel_values = [(''a'', Scalar [])], rel_status = ''deployed''\<rparr>"
proof -
  have "sp_PreStatus (ha_Spec sample_app) = HelmAppPreStatusConfigured"
    "sp_Version (ha_Spec sample_app) \<noteq> [] \<or> sp_Overrides (ha_Spec sample_app) \<noteq> []"
    "w_stored (sample_world sample_app []) = Some sample_app" "ha_Status sample_app = no_status"
    "repo_fits sample_ext sample_store (sample_world sample_app [])"
    "map_of (releases_of (sample_world sample_app [])) (ha_Namespace sample_app, ha_Name sample_app) = None"
    by (simp_all add: sample_app_def sample_spec_def sample_world_def repo_fits_def sample_ext_def)
  from configured_app_gets_installed [OF sample_available sample_repo sample_releases this
      sample_answers sample_answers sample_answers sample_answers]
  show ?thesis
    by (simp add: sample_app_def sample_spec_def) metis
qed

lemma cycle_Reconcile:
  "cycle x d w (env, now) = Inr w' \<Longrightarrow> w_stored w = Some c \<Longrightarrow> \<exists>err. helm_Reconcile x env now d c w = Inr (err, w')"
  by (auto simp: cycle_def bind_go_eq_Inr)

theorem helm_conditions_consistent_witness:
  "\<exists>y h. helm_step\<^sup>*\<^sup>* (helm_start \<lparr>hs_repos = [], hs_releases = []\<rparr>) y \<and> w_stored (y_world y) = Some h \<and>
     hst_Phase (ha_Status h) \<noteq> HelmAppStatusPhaseInstalled \<and> \<not> IsConditionTrue (ha_Status h) HelmAppInstalled"
proof -
  let ?y0 = "helm_start \<lparr>hs_repos = [], hs_releases = []\<rparr>"
  let ?y1 = "?y0\<lparr>y_world := (y_world ?y0)\<lparr>w_stored := Some sample_app\<rparr>\<rparr>"
  let ?y2 = "?y1\<lparr>y_cache := w_stored (y_world ?y1)\<rparr>"
  have world: "y_world ?y2 = sample_world sample_app []"
    by (simp add: helm_start_def sample_world_def)
  have "sample_app = sample_app\<lparr>ha_Status := no_status, ha_ResourceVersion := []\<rparr>"
    by (simp add: sample_app_def)
  then have "on_the_way sample_ext sample_dirs sample_app sample_store no_status (y_world ?y2)"
    unfolding on_the_way_def world by (auto simp: sample_world_def repo_fits_def sample_ext_def)
  then obtain w' where w': "cycle sample_ext sample_dirs (y_world ?y2) (sample_api, 1) = Inr w'"
    "on_the_way sample_ext sample_dirs sample_app sample_store (staged 1 1 1 ConditionFalse ConditionFalse) w'"
    using cycle_setup [OF sample_available sample_answers] by (metis sample_app_def sample_spec_def
        helm_app.select_convs(4) helm_app_spec.select_convs(1))
  obtain err where "helm_Reconcile sample_ext sample_api 1 sample_dirs sample_app (y_world ?y2) = Inr (err, w')"
    using cycle_Reconcile [OF w'(1)] by (auto simp: helm_start_def)
  then have "helm_step ?y2 (?y2\<lparr>y_world := w'\<rparr>)"
    by (intro helm_step.reconciles [where c = sample_app]) simp_all
  moreover have "helm_step ?y0 ?y1"
    by (rule helm_step.user_creates) (simp_all add: helm_start_def sample_app_def)
  moreover have "helm_step ?y1 ?y2"
    by (rule helm_step.cache_follows)
  ultimately have run: "helm_step\<^sup>*\<^sup>* ?y0 (?y2\<lparr>y_world := w'\<rparr>)"
    by (meson rtranclp.rtrancl_into_rtrancl rtranclp.rtrancl_refl)
  obtain h where h: "w_stored w' = Some h" "ha_Status h = staged 1 1 1 ConditionFalse ConditionFalse"
    using w'(2) by (auto simp: on_the_way_def)
  then have phase: "hst_Phase (ha_Status h) \<noteq> []" "hst_Phase (ha_Status h) \<noteq> HelmAppStatusPhaseInstalled"
    by (simp_all add: staged_def helm_consts)
  have "\<not> IsConditionTrue (ha_Status h) HelmAppInstalled"
    using helm_conditions_consistent [OF run, of h] h(1) phase by simp
  then show ?thesis
    using run h(1) phase(2) by (intro exI [of _ "?y2\<lparr>y_world := w'\<rparr>"] exI [of _ h]) simp
qed

definition sample_ready :: helm_app where
  "sample_ready = sample_app\<lparr>ha_Status := staged 1 2 3 ConditionTrue ConditionTrue\<rparr>"

theorem releases_touched_only_when_due_witness:
  "\<exists>err w'. helm_Reconcile sample_ext sample_api 5 sample_dirs sample_ready (sample_world sample_ready []) = Inr (err, w') \<and>
     releases_of w' \<noteq> [] \<and> sp_PreStatus (ha_Spec sample_ready) = HelmAppPreStatusConfigured"
proof -
  let ?w = "sample_world sample_ready []"
  have "sample_ready = sample_app\<lparr>ha_Status := staged 1 2 3 ConditionTrue ConditionTrue, ha_ResourceVersion := []\<rparr>"
    by (simp add: sample_ready_def sample_app_def)
  then have way: "on_the_way sample_ext sample_dirs sample_app sample_store (staged 1 2 3 ConditionTrue ConditionTrue) ?w"
    unfolding on_the_way_def by (auto simp: sample_world_def repo_fits_def sample_ext_def)
  have conf: "sp_PreStatus (ha_Spec sample_app) = HelmAppPreStatusConfigured"
    "sp_Version (ha_Spec sample_app) \<noteq> [] \<or> sp_Overrides (ha_Spec sample_app) \<noteq> []"
    by (simp_all add: sample_app_def sample_spec_def)
  obtain w' where w': "cycle sample_ext sample_dirs ?w (sample_api, 5) = Inr w'"
    "map_of (releases_of w') (ha_Namespace sample_app, ha_Name sample_app) \<noteq> None"
    using cycle_install [OF sample_available sample_repo sample_releases sample_answers conf way, of 5]
    by (metis option.distinct(1))
  then have touched: "releases_of w' \<noteq> releases_of ?w"
    by (auto simp: sample_world_def)
  obtain err where run: "helm_Reconcile sample_ext sample_api 5 sample_dirs sample_ready ?w = Inr (err, w')"
    using cycle_Reconcile [OF w'(1), of sample_ready] by (auto simp: sample_world_def)
  have "dry_runs sample_ext"
    by (simp add: dry_runs_def sample_ext_def)
  from releases_touched_only_when_due [OF this run touched] show ?thesis
    using run touched by (auto simp: sample_world_def)
qed

definition sample_upgraded :: helm_app where
  "sample_upgraded = sample_app\<lparr>ha_Status := deployed_status 1 2 3 (sample_spec\<lparr>sp_Version := ''0''\<rparr>) ''deployed''\<rparr>"

definition sample_running :: releases where
  "sample_running = [((''s'', ''n''), \<lparr>rel_chart = sample_chart, rel_values = [], rel_status = ''deployed''\<rparr>)]"

lemma sample_upgrade_fails:
  "\<exists>w1. installOrUpdate sample_ext (app_of sample_dirs sample_upgraded sample_store)
     (sample_world sample_upgraded sample_running) = (Some (Lib_error ''timeout''), w1)"
proof -
  let ?w = "sample_world sample_upgraded sample_running" and ?a = "app_of sample_dirs sample_upgraded sample_store"
  have "repo_fits sample_ext sample_store ?w"
    by (simp add: sample_world_def repo_fits_def sample_ext_def)
  then obtain w1 where w1: "installOrUpdate sample_ext ?a ?w = install_or_upgrade sample_ext ?a w1"
    "releases_of w1 = releases_of ?w"
    using with_repo_answers [OF sample_repo, of ?w sample_dirs sample_upgraded "install_or_upgrade sample_ext ?a"]
    by (metis installOrUpdate_def)
  have "Chart ?a = ''r/t''" "ap_helmCmd ?a = cmd_of sample_dirs ''s''"
    by (simp_all add: Chart_def app_of_def sample_upgraded_def sample_app_def sample_spec_def sample_store_def)
  then have "\<exists>vals. upgrade_chart sample_ext (ap_helmCmd ?a) (Chart ?a) (ap_version ?a) (ap_overrides ?a) =
      Inr (sample_chart, vals)"
    using sample_locate
    by (simp add: upgrade_chart_def sample_upgraded_def sample_app_def sample_spec_def parseOverrides_def
        check_deps_def) (simp add: sample_ext_def sample_chart_def)
  moreover have "helm_Status sample_ext (ap_helmCmd ?a) (w_helm w1) (ap_name ?a) = Inr ''deployed''"
    using w1(2)
    by (simp add: helm_Status_def sample_ext_def sample_world_def sample_running_def sample_upgraded_def
        sample_app_def cmd_of_def)
  moreover have "hx_Upgrade sample_ext rels ns n ch v = (Some (Lib_error ''timeout''), rels)" for rels ns n ch v
    by (simp add: sample_ext_def)
  ultimately show ?thesis
    using w1(1) by (auto simp: install_or_upgrade_def helm_Upgrade_def on_helm_def)
qed

theorem reverted_upgrade_stays_installing_witness:
  "\<exists>h' w'. helm_Reconcile sample_ext sample_api 9 sample_dirs sample_upgraded
      (sample_world sample_upgraded sample_running) = Inr (None, w') \<and> w_stored w' = Some h' \<and>
    hst_Phase (ha_Status h') = HelmAppStatusPhaseInstalling \<and>
    helm_Reconcile sample_ext sample_api 10 sample_dirs (h'\<lparr>ha_Spec := (ha_Spec sample_upgraded)\<lparr>sp_Version := ''0'',
      sp_Overrides := [''a'']\<rparr>, ha_ResourceVersion := ''7''\<rparr>) w' = Inr (None, w')"
proof -
  let ?old = "sample_spec\<lparr>sp_Version := ''0''\<rparr>"
  obtain w1 where fails: "installOrUpdate sample_ext (app_of sample_dirs sample_upgraded sample_store)
      (sample_world sample_upgraded sample_running) = (Some (Lib_error ''timeout''), w1)"
    using sample_upgrade_fails by blast
  have facts: "hx_Init sample_ext ns = None" "sp_AppStore (ha_Spec sample_upgraded) = Some sample_store"
    "ha_Status sample_upgraded = deployed_status 1 2 3 ?old ''deployed''"
    "sp_PreStatus (ha_Spec sample_upgraded) = HelmAppPreStatusConfigured"
    "sp_Version (ha_Spec sample_upgraded) \<noteq> sp_Version ?old"
    "w_stored (sample_world sample_upgraded sample_running) = Some sample_upgraded"
    "answered (api_status sample_api)" for ns
    by (simp_all add: sample_ext_def sample_upgraded_def sample_app_def sample_spec_def sample_world_def
        sample_api_def answered_def)
  have "sp_Version ?old = ''0''" "sp_Overrides ?old = [''a'']"
    by (simp_all add: sample_spec_def)
  then show ?thesis
    using reverted_upgrade_stays_installing [OF facts(1-6) fails facts(7), of 9] facts(1) by simp metis
qed

theorem setup_discards_concurrent_edits_witness:
  "\<exists>h' w'. helm_Reconcile sample_ext sample_api 1 sample_dirs (sample_app\<lparr>ha_Spec := sample_spec\<lparr>sp_PreStatus := []\<rparr>\<rparr>)
      (sample_world (sample_app\<lparr>ha_Spec := sample_spec\<lparr>sp_Version := ''2''\<rparr>\<rparr>) []) = Inr (None, w') \<and>
    w_stored w' = Some h' \<and> sp_Version (ha_Spec h') = ''1'' \<and>
    sp_PreStatus (ha_Spec h') = HelmAppPreStatusNotConfigured"
proof -
  let ?c = "sample_app\<lparr>ha_Spec := sample_spec\<lparr>sp_PreStatus := []\<rparr>\<rparr>"
  have "hx_Init sample_ext (ha_Namespace ?c) = None" "sp_AppStore (ha_Spec ?c) = Some sample_store"
    "ha_Status ?c = no_status" "answered (api_status sample_api)" "answered (api_spec sample_api)"
    by (simp_all add: sample_ext_def sample_spec_def sample_app_def sample_api_def answered_def)
  from setup_discards_concurrent_edits [OF this(1,2,3) _ this(4,5), of
      "sample_world (sample_app\<lparr>ha_Spec := sample_spec\<lparr>sp_Version := ''2''\<rparr>\<rparr>) []" _ 1 sample_dirs]
  show ?thesis
    by (simp add: sample_world_def) (force simp: sample_spec_def)
qed

end
