(* ===== verification/Kube_Calls.thy ===== *)
theory Kube_Calls
  imports App_Status
begin

text \<open>
  Calls to the Kubernetes API, and the functions that bring objects of a component to the cluster
  (\<^verbatim>\<open>src/worker/appm/f/function.go\<close>, \<^verbatim>\<open>src/worker/appm/controller/kube-controller.go\<close>).

  The API server is a parameter: \<open>kc_answer\<close> answers a call after the calls made so far, and
  \<open>kc_stored\<close> and \<open>kc_found\<close> are the objects that it returns, \<open>kc_applied\<close> the contents that the applicator's
  three-way merge (\<^verbatim>\<open>src/util/apply\<close>) gives the object of a manifest. The history of calls with their answers is the
  state; \<open>cluster\<close> reads from it what the successful calls leave behind.
\<close>

section \<open>Calls and their effect\<close>

text \<open>
  The namespace is that of the client. \<open>Delete_ext_ingress\<close> is the deletion through
  \<^verbatim>\<open>extensions/v1beta1\<close>, which serves the objects of the beta API. \<open>Apply_manifest\<close> carries the
  manifest and the contents that its object has afterwards.
\<close>

datatype api_call =
  Get_obj api_kind string string
| Create_obj api_kind string named_obj
| Create_sts string statefulset
| Create_dep string deployment
| Create_ep string endpoints_obj
| Update_obj api_kind string named_obj
| Update_status api_kind string named_obj
| Update_ep string endpoints_obj
| Patch_obj api_kind string string string
| Delete_obj api_kind string string
| Delete_ext_ingress string string
| Delete_workload workload
| Apply_manifest manifest string
| Delete_manifest manifest

datatype api_answer = Api_ok | Already_exists | Not_found | Invalid_obj | Conflict | Forbidden | Api_failed

type_synonym history = "(api_call \<times> api_answer) list"

record kube_client =
  kc_answer :: "history \<Rightarrow> api_call \<Rightarrow> api_answer"
  kc_stored :: "history \<Rightarrow> named_obj \<Rightarrow> named_obj"
  kc_found :: "history \<Rightarrow> api_kind \<Rightarrow> string \<Rightarrow> string \<Rightarrow> named_obj"
  kc_found_ep :: "history \<Rightarrow> string \<Rightarrow> string \<Rightarrow> endpoints_obj"
  kc_applied :: "history \<Rightarrow> manifest \<Rightarrow> string"

definition api :: "kube_client \<Rightarrow> api_call \<Rightarrow> history \<Rightarrow> api_answer \<times> history" where
  "api kc c h = (let a = kc_answer kc h c in (a, h @ [(c, a)]))"

text \<open>The key of an object, of a manifest and of a workload.\<close>

definition key_of :: "api_kind \<Rightarrow> named_obj \<Rightarrow> api_key" where
  "key_of k x = (k, Namespace (o_meta x), obj_name x)"

definition manifest_key :: "manifest \<Rightarrow> api_key" where
  "manifest_key x = key_of (mf_kind x) (mf_obj x)"

definition obj_meta_key :: "api_kind \<Rightarrow> object_meta \<Rightarrow> api_key" where
  "obj_meta_key k m = (k, Namespace m, Name m)"

definition workload_key :: "workload \<Rightarrow> api_key" where
  "workload_key w = (case w_obj w of
     WDeployment d \<Rightarrow> obj_meta_key DeploymentK (d_meta d)
   | WStatefulSet s \<Rightarrow> obj_meta_key StatefulSetK (s_meta s)
   | WThird m t \<Rightarrow> obj_meta_key (OtherK ''ThirdComponent'') m
   | WUnstructured k m doc \<Rightarrow> obj_meta_key k m
   | WOther k m \<Rightarrow> obj_meta_key k m)"

text \<open>
  What a successful call does: an update of the status leaves the rest of an object alone.
\<close>

fun api_effect :: "api_call \<Rightarrow> (api_key \<rightharpoonup> string) \<Rightarrow> (api_key \<rightharpoonup> string)" where
  "api_effect (Create_obj k ns x) m = m((k, ns, obj_name x) \<mapsto> o_data x)"
| "api_effect (Create_sts ns s) m = m((StatefulSetK, ns, Name (s_meta s)) \<mapsto> [])"
| "api_effect (Create_dep ns d) m = m((DeploymentK, ns, Name (d_meta d)) \<mapsto> [])"
| "api_effect (Create_ep ns e) m = m((EndpointsK, ns, Name (e_meta e)) \<mapsto> [])"
| "api_effect (Update_obj k ns x) m = m((k, ns, obj_name x) \<mapsto> o_data x)"
| "api_effect (Delete_obj k ns n) m = m((k, ns, n) := None)"
| "api_effect (Delete_ext_ingress ns n) m = m((BetaIngressK, ns, n) := None)"
| "api_effect (Delete_workload w) m = m(workload_key w := None)"
| "api_effect (Apply_manifest x d) m = m(manifest_key x \<mapsto> d)"
| "api_effect (Delete_manifest x) m = m(manifest_key x := None)"
| "api_effect _ m = m"

definition apply_call :: "api_call \<times> api_answer \<Rightarrow> (api_key \<rightharpoonup> string) \<Rightarrow> (api_key \<rightharpoonup> string)" where
  "apply_call x m = (if snd x = Api_ok then api_effect (fst x) m else m)"

definition cluster :: "(api_key \<rightharpoonup> string) \<Rightarrow> history \<Rightarrow> (api_key \<rightharpoonup> string)" where
  "cluster m h = fold apply_call h m"

text \<open>
  What the code relies on: a deletion that finds nothing is answered for an object that is not there, and a
  creation is refused as a duplicate for an object that is there.
\<close>

definition truthful :: "kube_client \<Rightarrow> (api_key \<rightharpoonup> string) \<Rightarrow> bool" where
  "truthful kc m \<longleftrightarrow> (\<forall>h.
     (\<forall>k ns n. kc_answer kc h (Delete_obj k ns n) = Not_found \<longrightarrow> cluster m h (k, ns, n) = None) \<and>
     (\<forall>ns n. kc_answer kc h (Delete_ext_ingress ns n) = Not_found \<longrightarrow> cluster m h (BetaIngressK, ns, n) = None) \<and>
     (\<forall>k ns x. kc_answer kc h (Create_obj k ns x) = Already_exists \<longrightarrow> cluster m h (k, ns, obj_name x) \<noteq> None))"

section \<open>Loops\<close>

text \<open>A loop that ends with the first error.\<close>

fun try_each :: "('x \<Rightarrow> history \<Rightarrow> 'e option \<times> history) \<Rightarrow> 'x list \<Rightarrow> history \<Rightarrow> 'e option \<times> history" where
  "try_each f [] h = (None, h)"
| "try_each f (x # xs) h = (case f x h of
     (Some e, h') \<Rightarrow> (Some e, h')
   | (None, h') \<Rightarrow> try_each f xs h')"

text \<open>A call whose tolerated answers count as success.\<close>

definition try_call :: "kube_client \<Rightarrow> api_answer set \<Rightarrow> 'e \<Rightarrow> api_call \<Rightarrow> history \<Rightarrow> 'e option \<times> history" where
  "try_call kc good e c h = (let (a, h') = api kc c h in (if a \<in> good then None else Some e, h'))"

text \<open>A call whose error is only logged.\<close>

definition log_call :: "kube_client \<Rightarrow> api_call \<Rightarrow> history \<Rightarrow> history" where
  "log_call kc c h = snd (api kc c h)"

section \<open>Services\<close>

text \<open>\<^verbatim>\<open>CreateKubeService\<close>: the services that could not be created or updated are tried again.\<close>

definition create_service :: "kube_client \<Rightarrow> string \<Rightarrow> named_obj list \<times> history \<Rightarrow> named_obj \<Rightarrow> named_obj list \<times> history" where
  "create_service kc ns st x =
     (let (retry, h) = st; (a, h1) = api kc (Create_obj ServiceK ns x) h
      in if a = Api_ok then (retry, h1)
         else if a \<noteq> Already_exists \<and> a \<noteq> Invalid_obj then (retry @ [x], h1)
         else let (b, h2) = api kc (Update_obj ServiceK ns x) h1
              in if b \<noteq> Api_ok then (retry @ [x], h2) else (retry, h2))"

definition CreateKubeService :: "kube_client \<Rightarrow> string \<Rightarrow> named_obj list \<Rightarrow> 'e \<Rightarrow> history \<Rightarrow> 'e option \<times> history" where
  "CreateKubeService kc ns xs e h =
     (let (retry, h1) = foldl (create_service kc ns) ([], h) xs
      in try_each (\<lambda>x. try_call kc {Api_ok, Already_exists} e (Create_obj ServiceK ns x)) retry h1)"

text \<open>
  \<^verbatim>\<open>persistUpdate\<close>: at most \<open>n\<close> attempts to update the status; an object that is gone or has changed ends them.
\<close>

fun persistUpdate :: "nat \<Rightarrow> kube_client \<Rightarrow> named_obj \<Rightarrow> history \<Rightarrow> history" where
  "persistUpdate 0 kc x h = h"
| "persistUpdate (Suc n) kc x h =
     (let (a, h1) = api kc (Update_status ServiceK (Namespace (o_meta x)) x) h
      in if a = Api_ok \<or> a = Not_found \<or> a = Conflict then h1 else persistUpdate n kc x h1)"

definition clientRetryCount :: nat where
  "clientRetryCount = 5"

definition ensureService :: "kube_client \<Rightarrow> named_obj \<Rightarrow> history \<Rightarrow> history" where
  "ensureService kc new h =
     (let ns = Namespace (o_meta new); n = obj_name new; (a, h1) = api kc (Get_obj ServiceK ns n) h
      in if a = Not_found then log_call kc (Create_obj ServiceK ns new) h1
         else if a \<noteq> Api_ok then h1
         else let old = kc_found kc h ServiceK ns n
              in persistUpdate clientRetryCount kc
                   \<lparr>o_meta = (o_meta old)\<lparr>Labels := Labels (o_meta new), Annotations := Annotations (o_meta new)\<rparr>,
                    o_data = o_data new\<rparr> h1)"

section \<open>Other objects\<close>

text \<open>\<^verbatim>\<open>ensureIngress\<close>, \<^verbatim>\<open>ensureBetaIngress\<close> and \<^verbatim>\<open>ensureSecret\<close> update an object and create it when it is missing.\<close>

definition update_or_create :: "kube_client \<Rightarrow> api_kind \<Rightarrow> named_obj \<Rightarrow> history \<Rightarrow> history" where
  "update_or_create kc k x h =
     (let ns = Namespace (o_meta x); (a, h1) = api kc (Update_obj k ns x) h
      in if a = Not_found then log_call kc (Create_obj k ns x) h1 else h1)"

definition ensureIngress :: "kube_client \<Rightarrow> named_obj \<Rightarrow> history \<Rightarrow> history" where
  "ensureIngress kc = update_or_create kc IngressK"

definition ensureBetaIngress :: "kube_client \<Rightarrow> named_obj \<Rightarrow> history \<Rightarrow> history" where
  "ensureBetaIngress kc = update_or_create kc BetaIngressK"

definition ensureSecret :: "kube_client \<Rightarrow> named_obj \<Rightarrow> history \<Rightarrow> history" where
  "ensureSecret kc = update_or_create kc SecretK"

definition EnsureHPA :: "kube_client \<Rightarrow> named_obj \<Rightarrow> history \<Rightarrow> history" where
  "EnsureHPA kc new h =
     (let ns = Namespace (o_meta new); (a, h1) = api kc (Get_obj HpaK ns (obj_name new)) h
      in if a = Not_found then log_call kc (Create_obj HpaK ns new) h1
         else if a \<noteq> Api_ok then h1 else log_call kc (Update_obj HpaK ns new) h1)"

definition EnsureEndpoints :: "kube_client \<Rightarrow> endpoints_obj \<Rightarrow> history \<Rightarrow> history" where
  "EnsureEndpoints kc ep h =
     (let ns = Namespace (e_meta ep); n = Name (e_meta ep); (a, h1) = api kc (Get_obj EndpointsK ns n) h
      in if a \<noteq> Api_ok \<and> a \<noteq> Not_found then h1
         else let cur = (if a = Not_found then \<lparr>e_meta = zero_meta\<lparr>Name := n, Labels := Labels (e_meta ep)\<rparr>, Subsets = []\<rparr>
                         else kc_found_ep kc h ns n);
                  create = (ResourceVersion (e_meta cur) = []);
                  new = \<lparr>e_meta = (e_meta cur)\<lparr>Labels := Labels (e_meta ep)\<rparr>, Subsets = Subsets ep\<rparr>
              in if \<not> create \<and> Subsets cur = Subsets ep \<and> Labels (e_meta cur) = Labels (e_meta ep) then h1
                 else log_call kc (if create then Create_ep ns new else Update_ep ns new) h1)"

definition CreateOrUpdateSecret :: "kube_client \<Rightarrow> 'e \<Rightarrow> named_obj \<Rightarrow> history \<Rightarrow> 'e option \<times> history" where
  "CreateOrUpdateSecret kc e x h =
     (let ns = Namespace (o_meta x); (a, h1) = api kc (Get_obj SecretK ns (obj_name x)) h
      in if a = Not_found then try_call kc {Api_ok} e (Create_obj SecretK ns x) h1
         else if a \<noteq> Api_ok then (Some e, h1)
         else let old = kc_found kc h SecretK ns (obj_name x)
              in try_call kc {Api_ok} e (Update_obj SecretK ns
                   (x\<lparr>o_meta := (o_meta x)\<lparr>ResourceVersion := ResourceVersion (o_meta old)\<rparr>\<rparr>)) h1)"

section \<open>Upgrading the objects of a component\<close>

text \<open>
  The common form of \<^verbatim>\<open>UpgradeSecrets\<close>, \<^verbatim>\<open>UpgradeIngress\<close> and \<^verbatim>\<open>UpgradeServiceMonitor\<close>: the new objects are
  updated or created, and what is left in the map of old objects is deleted. An object leaves the map when
  its update succeeds. \<open>he\<close> is the error handler, \<open>put\<close> gets the object that the server returned and the
  object that was sent. The boolean is an error that was returned.
\<close>

definition old_map :: "named_obj list \<Rightarrow> named_obj gomap" where
  "old_map old = fold (\<lambda>o'. AList.update (obj_name o') o') old []"

definition with_version :: "named_obj \<Rightarrow> named_obj \<Rightarrow> named_obj" where
  "with_version o' n = n\<lparr>o_meta := (o_meta n)\<lparr>ResourceVersion := ResourceVersion (o_meta o')\<rparr>\<rparr>"

fun upgrade_loop :: "kube_client \<Rightarrow> api_kind \<Rightarrow> (api_answer \<Rightarrow> bool) \<Rightarrow> (bool \<Rightarrow> named_obj \<Rightarrow> named_obj \<Rightarrow> app_service \<Rightarrow> app_service) \<Rightarrow>
    named_obj list \<Rightarrow> named_obj gomap \<times> app_service \<times> history \<Rightarrow> bool \<times> named_obj gomap \<times> app_service \<times> history" where
  "upgrade_loop kc k he put [] (m, as, h) = (False, m, as, h)"
| "upgrade_loop kc k he put (n # ns) (m, as, h) = (case map_of m (obj_name n) of
     Some o' \<Rightarrow>
       (let n' = with_version o' n; (a, h1) = api kc (Update_obj k (Namespace (o_meta n)) n') h
        in if a \<noteq> Api_ok then (if he a then (True, m, as, h1) else upgrade_loop kc k he put ns (m, as, h1))
           else upgrade_loop kc k he put ns (AList.delete (obj_name n) m, put True (kc_stored kc h n') n' as, h1))
   | None \<Rightarrow>
       (let (a, h1) = api kc (Create_obj k (Namespace (o_meta n)) n) h
        in if a \<noteq> Api_ok then (if he a then (True, m, as, h1) else upgrade_loop kc k he put ns (m, as, h1))
           else upgrade_loop kc k he put ns (m, put False (kc_stored kc h n) n as, h1)))"

definition delete_rest :: "kube_client \<Rightarrow> (named_obj \<Rightarrow> api_call) \<Rightarrow> (api_answer \<Rightarrow> bool) \<Rightarrow> named_obj gomap \<Rightarrow> history \<Rightarrow> unit option \<times> history" where
  "delete_rest kc del he m h = try_each (\<lambda>(n, o') h.
     let (a, h1) = api kc (del o') h in (if a \<noteq> Api_ok \<and> he a then Some () else None, h1)) m h"

definition upgrade_objs :: "kube_client \<Rightarrow> api_kind \<Rightarrow> (named_obj \<Rightarrow> api_call) \<Rightarrow> (api_answer \<Rightarrow> bool) \<Rightarrow>
    (bool \<Rightarrow> named_obj \<Rightarrow> named_obj \<Rightarrow> app_service \<Rightarrow> app_service) \<Rightarrow>
    named_obj list \<Rightarrow> named_obj list \<Rightarrow> app_service \<times> history \<Rightarrow> bool \<times> app_service \<times> history" where
  "upgrade_objs kc k del he put old new st =
     (let (err, m, as, h) = upgrade_loop kc k he put new (old_map old, st)
      in if err then (True, as, h)
         else let (e, h1) = delete_rest kc del he m h in (e \<noteq> None, as, h1))"

definition delete_of :: "api_kind \<Rightarrow> named_obj \<Rightarrow> api_call" where
  "delete_of k x = Delete_obj k (Namespace (o_meta x)) (obj_name x)"

definition UpgradeSecrets :: "kube_client \<Rightarrow> (api_answer \<Rightarrow> bool) \<Rightarrow> named_obj list \<Rightarrow> named_obj list \<Rightarrow>
    app_service \<times> history \<Rightarrow> bool \<times> app_service \<times> history" where
  "UpgradeSecrets kc he = upgrade_objs kc SecretK (delete_of SecretK) he (\<lambda>u got sent. SetSecret (Some got))"

text \<open>The old ingresses are deleted through the extensions API.\<close>

definition UpgradeIngress :: "kube_client \<Rightarrow> (api_answer \<Rightarrow> bool) \<Rightarrow> named_obj list \<Rightarrow> named_obj list \<Rightarrow> named_obj list \<Rightarrow> named_obj list \<Rightarrow>
    app_service \<times> history \<Rightarrow> bool \<times> app_service \<times> history" where
  "UpgradeIngress kc he old new oldBeta newBeta st =
     (let (err, st1) = upgrade_objs kc IngressK (\<lambda>x. Delete_ext_ingress (Namespace (o_meta x)) (obj_name x)) he
            (\<lambda>u got sent. SetIngress (NetIngress got)) old new st
      in if err then (True, st1)
         else upgrade_objs kc BetaIngressK (delete_of BetaIngressK) he (\<lambda>u got sent. SetIngress (BetaIngress got)) oldBeta newBeta st1)"

text \<open>An updated service monitor is stored as it was sent.\<close>

definition UpgradeServiceMonitor :: "kube_client \<Rightarrow> (api_answer \<Rightarrow> bool) \<Rightarrow> named_obj list \<Rightarrow> named_obj list \<Rightarrow>
    app_service \<times> history \<Rightarrow> bool \<times> app_service \<times> history" where
  "UpgradeServiceMonitor kc he = upgrade_objs kc MonitorK (delete_of MonitorK) he
     (\<lambda>u got sent. SetServiceMonitor (if u then sent else got))"

section \<open>Applying the rules of a component\<close>

datatype apply_error = NamespaceError | ManifestError

text \<open>
  The namespace is created when it is missing; any other answer than success is an error in the end.
\<close>

definition check_namespace :: "kube_client \<Rightarrow> 'e \<Rightarrow> string \<Rightarrow> named_obj \<Rightarrow> history \<Rightarrow> 'e option \<times> history" where
  "check_namespace kc e ns env h =
     (let (a, h1) = api kc (Get_obj NamespaceK [] ns) h
      in if a = Api_ok then (None, h1)
         else if a = Not_found then try_call kc {Api_ok} e (Create_obj NamespaceK [] env) h1
         else (Some e, h1))"

definition apply_manifests :: "kube_client \<Rightarrow> 'e \<Rightarrow> manifest list \<Rightarrow> history \<Rightarrow> 'e option \<times> history" where
  "apply_manifests kc e ms h = try_each (\<lambda>m h. try_call kc {Api_ok} e (Apply_manifest m (kc_applied kc h m)) h) ms h"

text \<open>What the specification of an ingress says: the host of its first rule and its first secret.\<close>

record ing_view =
  iv_host :: "named_obj \<Rightarrow> string option"
  iv_secret :: "named_obj \<Rightarrow> string option"

definition apply_domain :: "kube_client \<Rightarrow> ing_view \<Rightarrow> string \<Rightarrow> named_obj list \<Rightarrow> (named_obj \<Rightarrow> history \<Rightarrow> history) \<Rightarrow> named_obj list \<Rightarrow> history \<Rightarrow> history" where
  "apply_domain kc iv domain secs ensure ings h = foldl (\<lambda>h ing.
     if iv_host iv ing = Some domain
     then ensure ing (case iv_secret iv ing of None \<Rightarrow> h
            | Some s \<Rightarrow> foldl (\<lambda>h x. if s = obj_name x then ensureSecret kc x h else h) h secs)
     else h) h ings"

definition l4_address :: "named_obj \<Rightarrow> string option" where
  "l4_address ing = map_option (\<lambda>host. host @ '':'' @ gm_str (Annotations (o_meta ing)) ''nginx.ingress.kubernetes.io/l4-port'')
     (map_of (Annotations (o_meta ing)) ''nginx.ingress.kubernetes.io/l4-host'')"

definition apply_address :: "string \<Rightarrow> (named_obj \<Rightarrow> history \<Rightarrow> history) \<Rightarrow> named_obj list \<Rightarrow> history \<Rightarrow> history" where
  "apply_address addr ensure ings h = foldl (\<lambda>h ing. if l4_address ing = Some addr then ensure ing h else h) h ings"

definition nil_list :: "'a list option \<Rightarrow> 'a list" where
  "nil_list x = (case x of None \<Rightarrow> [] | Some xs \<Rightarrow> xs)"

text \<open>\<open>params\<close> is \<^verbatim>\<open>CustomParams\<close>, which may be nil; \<open>high\<close> is the version of the cluster.\<close>

definition apply_objects :: "kube_client \<Rightarrow> ing_view \<Rightarrow> bool \<Rightarrow> string gomap option \<Rightarrow> app_service \<Rightarrow> history \<Rightarrow> history" where
  "apply_objects kc iv high params app h =
     (let (ings, betas) = GetIngress high True app; secs = GetSecrets True app;
          ingsl = nil_list ings; betasl = nil_list betas
      in case params of
           Some ps \<Rightarrow>
             (let h1 = (case map_of ps ''domain'' of None \<Rightarrow> h
                  | Some d \<Rightarrow> apply_domain kc iv d secs (ensureBetaIngress kc) betasl
                                (apply_domain kc iv d secs (ensureIngress kc) ingsl h))
              in case map_of ps ''tcp-address'' of None \<Rightarrow> h1
                 | Some d \<Rightarrow> apply_address d (ensureBetaIngress kc) betasl (apply_address d (ensureIngress kc) ingsl h1))
         | None \<Rightarrow>
             fold (ensureBetaIngress kc) betasl (fold (ensureIngress kc) ingsl
               (fold (EnsureEndpoints kc) (GetEndpoints True app)
                 (fold (ensureSecret kc) secs (fold (ensureService kc) (GetServices True app) h)))))"

definition delete_objects :: "kube_client \<Rightarrow> app_service \<Rightarrow> history \<Rightarrow> history" where
  "delete_objects kc app h =
     (let (ings, betas) = GetDelIngs app; del = (\<lambda>k x. log_call kc (delete_of k x))
      in fold (del ServiceK) (GetDelServices app) (fold (del SecretK) (GetDelSecrets app)
           (fold (del BetaIngressK) betas (fold (del IngressK) ings h))))"

definition ApplyOne :: "kube_client \<Rightarrow> ing_view \<Rightarrow> bool \<Rightarrow> string gomap option \<Rightarrow> app_service \<Rightarrow> history \<Rightarrow> (apply_error option \<times> history) go" where
  "ApplyOne kc iv high params app h =
     bind_go (deref (GetTenantEnv app)) (\<lambda>env. Inr (
       case check_namespace kc NamespaceError (obj_name env) env h of
         (Some e, h1) \<Rightarrow> (Some e, h1)
       | (None, h1) \<Rightarrow> (case apply_manifests kc ManifestError (GetManifests app) h1 of
           (Some e, h2) \<Rightarrow> (Some e, h2)
         | (None, h2) \<Rightarrow> (None, delete_objects kc app (apply_objects kc iv high params app h2)))))"

section \<open>What the calls leave behind\<close>

lemma cluster_nil [simp]: "cluster m [] = m"
  by (simp add: cluster_def)

lemma cluster_snoc: "cluster m (h @ [x]) = apply_call x (cluster m h)"
  by (simp add: cluster_def)

lemma api_eq: "api kc c h = (a, h') \<longleftrightarrow> a = kc_answer kc h c \<and> h' = h @ [(c, a)]"
  by (auto simp: api_def Let_def)

lemma api_pair: "api kc c h = (kc_answer kc h c, h @ [(c, kc_answer kc h c)])"
  by (simp add: api_def Let_def)

text \<open>An answer other than success has no effect.\<close>

lemma apply_call_failed [simp]: "a \<noteq> Api_ok \<Longrightarrow> apply_call (c, a) m = m"
  by (simp add: apply_call_def)

lemma apply_call_ok [simp]: "apply_call (c, Api_ok) m = api_effect c m"
  by (simp add: apply_call_def)

lemma cluster_persistUpdate [simp]: "cluster m (persistUpdate n kc x h) = cluster m h"
  by (induction n arbitrary: h) (auto simp: Let_def api_pair cluster_snoc apply_call_def)

text \<open>
  The rules of a component do not change its existing services: their update goes to the status only,
  so that ports and selectors stay what they were.
\<close>

theorem existing_service_not_updated:
  assumes "kc_answer kc h (Get_obj ServiceK (Namespace (o_meta new)) (obj_name new)) = Api_ok"
  shows "cluster m (ensureService kc new h) = cluster m h"
  using assms by (simp add: ensureService_def api_pair Let_def cluster_snoc)

lemma map_of_old_map: "map_of (old_map old) q = find (\<lambda>x. obj_name x = q) (rev old)"
proof -
  have "map_of (fold (\<lambda>o'. AList.update (obj_name o') o') old m) q =
      (case find (\<lambda>x. obj_name x = q) (rev old) of None \<Rightarrow> map_of m q | Some x \<Rightarrow> Some x)" for m
    by (induction old arbitrary: m rule: rev_induct) (auto simp: update_conv' split: option.splits)
  then show ?thesis
    by (simp add: old_map_def split: option.splits)
qed

lemma gm_wf_old_map: "gm_wf (old_map old)"
proof -
  have "gm_wf m \<Longrightarrow> gm_wf (fold (\<lambda>o'. AList.update (obj_name o') o') old m)" for m
    by (induction old arbitrary: m) simp_all
  then show ?thesis
    by (simp add: old_map_def)
qed

lemma old_map_entries:
  assumes "(q, x) \<in> set (old_map old)"
  shows "x \<in> set old" "obj_name x = q"
proof -
  have "find (\<lambda>x. obj_name x = q) (rev old) = Some x"
    using map_of_is_SomeI [OF gm_wf_old_map assms] by (simp add: map_of_old_map)
  then obtain i where "i < length (rev old)" "obj_name (rev old ! i) = q" "x = rev old ! i"
    by (auto simp: find_Some_iff)
  then show "x \<in> set old" "obj_name x = q"
    using nth_mem [of i "rev old"] by simp_all
qed

lemma with_version_same [simp]: "obj_name (with_version o' n) = obj_name n" "o_data (with_version o' n) = o_data n"
    "Namespace (o_meta (with_version o' n)) = Namespace (o_meta n)"
  by (simp_all add: with_version_def)

lemma delete_rest_cluster:
  assumes "\<forall>(q, x) \<in> set mp. \<forall>h. kc_answer kc h (delete_of k x) = Api_ok"
  shows "\<exists>h'. delete_rest kc (delete_of k) he mp h = (None, h') \<and>
    cluster m h' = (\<lambda>key. if key \<in> (\<lambda>(q, x). key_of k x) ` set mp then None else cluster m h key)"
  using assms
proof (induction mp arbitrary: h)
  case (Cons e mp)
  obtain q x where e: "e = (q, x)" by fastforce
  let ?h = "h @ [(delete_of k x, Api_ok)]"
  obtain h' where h': "delete_rest kc (delete_of k) he mp ?h = (None, h')"
      "cluster m h' = (\<lambda>key. if key \<in> (\<lambda>(q, x). key_of k x) ` set mp then None else cluster m ?h key)"
    using Cons.IH [of ?h] Cons.prems by auto
  have "kc_answer kc h (delete_of k x) = Api_ok"
    using Cons.prems e by simp
  then have "delete_rest kc (delete_of k) he (e # mp) h = (None, h')"
    using h'(1) by (simp add: delete_rest_def e api_pair)
  moreover have "cluster m ?h = (cluster m h)(key_of k x := None)"
    by (simp add: cluster_snoc delete_of_def key_of_def)
  moreover from this have "cluster m h' = (\<lambda>key. if key \<in> (\<lambda>(q, x). key_of k x) ` set (e # mp) then None else cluster m h key)"
    unfolding h'(2) e by (intro ext) simp
  ultimately show ?case
    by blast
qed (simp add: delete_rest_def)

text \<open>The first loop when every call succeeds.\<close>

lemma upgrade_loop_cluster:
  assumes "\<And>h c. kc_answer kc h c = Api_ok" "distinct (map (key_of k) new)" "gm_wf mp"
  shows "\<exists>mp' as' h'. upgrade_loop kc k he put new (mp, as, h) = (False, mp', as', h') \<and> gm_wf mp' \<and>
    (\<forall>q. map_of mp' q = (if q \<in> obj_name ` set new then None else map_of mp q)) \<and>
    (\<forall>x \<in> set new. cluster m h' (key_of k x) = Some (o_data x)) \<and>
    (\<forall>key. key \<notin> key_of k ` set new \<longrightarrow> cluster m h' key = cluster m h key)"
  using assms(2,3)
proof (induction new arbitrary: mp as h)
  case (Cons n ns)
  have step: "\<exists>mp1 as1 h1. upgrade_loop kc k he put (n # ns) (mp, as, h) = upgrade_loop kc k he put ns (mp1, as1, h1) \<and>
      gm_wf mp1 \<and> (\<forall>q. map_of mp1 q = (if q = obj_name n then None else map_of mp q)) \<and>
      cluster m h1 = (cluster m h)(key_of k n \<mapsto> o_data n)"
  proof (cases "map_of mp (obj_name n)")
    case None
    show ?thesis
      using None Cons.prems(2)
      by (intro exI [of _ mp] exI [of _ "put False (kc_stored kc h n) n as"] exI [of _ "h @ [(Create_obj k (Namespace (o_meta n)) n, Api_ok)]"])
        (auto simp: api_pair assms(1) cluster_snoc key_of_def)
  next
    case (Some o')
    show ?thesis
      using Some Cons.prems(2)
      by (intro exI [of _ "AList.delete (obj_name n) mp"] exI [of _ "put True (kc_stored kc h (with_version o' n)) (with_version o' n) as"]
          exI [of _ "h @ [(Update_obj k (Namespace (o_meta n)) (with_version o' n), Api_ok)]"])
        (auto simp: api_pair assms(1) cluster_snoc key_of_def delete_conv' distinct_delete Let_def)
  qed
  then obtain mp1 as1 h1 where s1: "upgrade_loop kc k he put (n # ns) (mp, as, h) = upgrade_loop kc k he put ns (mp1, as1, h1)"
      "gm_wf mp1" "\<forall>q. map_of mp1 q = (if q = obj_name n then None else map_of mp q)"
      "cluster m h1 = (cluster m h)(key_of k n \<mapsto> o_data n)"
    by blast
  obtain mp' as' h' where s2: "upgrade_loop kc k he put ns (mp1, as1, h1) = (False, mp', as', h')" "gm_wf mp'"
      "\<forall>q. map_of mp' q = (if q \<in> obj_name ` set ns then None else map_of mp1 q)"
      "\<forall>x \<in> set ns. cluster m h' (key_of k x) = Some (o_data x)"
      "\<forall>key. key \<notin> key_of k ` set ns \<longrightarrow> cluster m h' key = cluster m h1 key"
    using Cons.IH [OF _ s1(2), of as1 h1] Cons.prems(1) by auto
  have "key_of k n \<notin> key_of k ` set ns"
    using Cons.prems(1) by auto
  then have "cluster m h' (key_of k n) = cluster m h1 (key_of k n)"
    using s2(5) by blast
  then have n: "cluster m h' (key_of k n) = Some (o_data n)"
    by (simp add: s1(4))
  have rest: "cluster m h' key = cluster m h key" if key: "key \<notin> key_of k ` set (n # ns)" for key
  proof -
    have *: "key \<noteq> key_of k n" "key \<notin> key_of k ` set ns"
      using key by simp_all
    then have "cluster m h' key = cluster m h1 key"
      using s2(5) by blast
    then show ?thesis
      by (metis *(1) s1(4) fun_upd_other)
  qed
  have "map_of mp' q = (if q \<in> obj_name ` set (n # ns) then None else map_of mp q)" for q
    using s1(3) s2(3) by auto
  then show ?case
    using s1(1) s2(1,2,4) n rest by (metis (no_types, lifting) set_ConsD)
qed simp


lemma key_of_same: "Namespace (o_meta x) = ns \<Longrightarrow> Namespace (o_meta y) = ns \<Longrightarrow> key_of k x = key_of k y \<longleftrightarrow> obj_name x = obj_name y"
  by (simp add: key_of_def)

lemma upgrade_objs_exact:
  assumes ok: "\<And>h c. kc_answer kc h c = Api_ok" and new: "distinct (map obj_name new)"
    and ns: "\<And>x. x \<in> set old \<union> set new \<Longrightarrow> Namespace (o_meta x) = ns"
  shows "\<exists>as' h'. upgrade_objs kc k (delete_of k) he put old new (as, h) = (False, as', h') \<and>
    (\<forall>x \<in> set new. cluster m h' (key_of k x) = Some (o_data x)) \<and>
    (\<forall>x \<in> set old. obj_name x \<notin> obj_name ` set new \<longrightarrow> cluster m h' (key_of k x) = None) \<and>
    (\<forall>key. key \<notin> key_of k ` (set old \<union> set new) \<longrightarrow> cluster m h' key = cluster m h key)"
proof -
  have dist: "distinct (map (key_of k) new)"
    using new ns by (auto simp: distinct_map inj_on_def key_of_same)
  obtain mp as' h1 where l: "upgrade_loop kc k he put new (old_map old, as, h) = (False, mp, as', h1)" "gm_wf mp"
      "\<forall>q. map_of mp q = (if q \<in> obj_name ` set new then None else map_of (old_map old) q)"
      "\<forall>x \<in> set new. cluster m h1 (key_of k x) = Some (o_data x)"
      "\<forall>key. key \<notin> key_of k ` set new \<longrightarrow> cluster m h1 key = cluster m h key"
    using upgrade_loop_cluster [OF ok dist gm_wf_old_map] by blast
  obtain h' where d: "delete_rest kc (delete_of k) he mp h1 = (None, h')"
      "cluster m h' = (\<lambda>key. if key \<in> (\<lambda>(q, x). key_of k x) ` set mp then None else cluster m h1 key)"
    using delete_rest_cluster [of mp kc k he h1 m] ok by blast
  have mp: "x \<in> set old \<and> obj_name x = q \<and> q \<notin> obj_name ` set new" if e: "(q, x) \<in> set mp" for q x
  proof -
    have "map_of mp q = Some x"
      using map_of_is_SomeI [OF l(2) e] .
    then have "q \<notin> obj_name ` set new" "map_of (old_map old) q = Some x"
      using l(3) by (metis option.distinct(1))+
    then show ?thesis
      using old_map_entries [OF map_of_SomeD] by blast
  qed
  have left: "key_of k x \<in> (\<lambda>(q, x). key_of k x) ` set mp" if x: "x \<in> set old" "obj_name x \<notin> obj_name ` set new" for x
  proof -
    have "find (\<lambda>y. obj_name y = obj_name x) (rev old) \<noteq> None"
      using x(1) by (auto simp: find_None_iff)
    then obtain y where y: "map_of (old_map old) (obj_name x) = Some y"
      by (auto simp: map_of_old_map)
    then have "(obj_name x, y) \<in> set mp" "y \<in> set old" "obj_name y = obj_name x"
      using l(3) x(2) old_map_entries [OF map_of_SomeD [OF y]] by (auto intro: map_of_SomeD)
    moreover have "key_of k x = key_of k y"
      using calculation x(1) ns by (auto simp: key_of_def)
    ultimately show ?thesis
      by force
  qed
  have new_kept: "key_of k x \<notin> (\<lambda>(q, x). key_of k x) ` set mp" if x: "x \<in> set new" for x
    using mp x ns by (force simp: key_of_def)
  have other: "key \<notin> (\<lambda>(q, x). key_of k x) ` set mp" if key: "key \<notin> key_of k ` (set old \<union> set new)" for key
  proof
    assume "key \<in> (\<lambda>(q, x). key_of k x) ` set mp"
    then obtain q x where "(q, x) \<in> set mp" "key = key_of k x"
      by auto
    then show False
      using mp key by blast
  qed
  have "upgrade_objs kc k (delete_of k) he put old new (as, h) = (False, as', h')"
    using l(1) d(1) by (simp add: upgrade_objs_def)
  moreover have "cluster m h' (key_of k x) = Some (o_data x)" if "x \<in> set new" for x
    using d(2) new_kept [OF that] l(4) that by simp
  moreover have "cluster m h' (key_of k x) = None" if "x \<in> set old" "obj_name x \<notin> obj_name ` set new" for x
    using d(2) left [OF that] by simp
  moreover have "cluster m h' key = cluster m h key" if key: "key \<notin> key_of k ` (set old \<union> set new)" for key
  proof -
    have "key \<notin> key_of k ` set new"
      using key by blast
    then have "cluster m h1 key = cluster m h key"
      using l(5) by blast
    then show ?thesis
      using other [OF key] by (simp only: d(2) if_False)
  qed
  ultimately show ?thesis
    by blast
qed


text \<open>
  C11: An upgrade whose calls all succeed leaves exactly the new secrets of the component in the cluster: the new ones
  with their new contents, the old ones that have no successor not at all, and everything else as it was.
\<close>

theorem upgrade_secrets_exact:
  assumes "\<And>h c. kc_answer kc h c = Api_ok" "distinct (map obj_name new)"
    "\<forall>x \<in> set old \<union> set new. Namespace (o_meta x) = ns"
  shows "\<exists>as' h'. UpgradeSecrets kc he old new (as, h) = (False, as', h') \<and>
    (\<forall>x \<in> set new. cluster m h' (key_of SecretK x) = Some (o_data x)) \<and>
    (\<forall>x \<in> set old. obj_name x \<notin> obj_name ` set new \<longrightarrow> cluster m h' (key_of SecretK x) = None) \<and>
    (\<forall>key. key \<notin> key_of SecretK ` (set old \<union> set new) \<longrightarrow> cluster m h' key = cluster m h key)"
  unfolding UpgradeSecrets_def using assms(3) by (intro upgrade_objs_exact [OF assms(1,2)]) blast

lemma upgrade_loop_keeps_refused:
  assumes he: "\<And>a. \<not> he a" and refused: "\<And>h x. obj_name x = q \<Longrightarrow> kc_answer kc h (Update_obj k (Namespace (o_meta x)) x) \<noteq> Api_ok"
    and "gm_wf mp"
  shows "\<exists>mp' as' h'. upgrade_loop kc k he put new (mp, as, h) = (False, mp', as', h') \<and> gm_wf mp' \<and>
    map_of mp' q = map_of mp q"
  using assms(3)
proof (induction new arbitrary: mp as h)
  case (Cons n ns)
  have "\<exists>mp1 as1 h1. upgrade_loop kc k he put (n # ns) (mp, as, h) = upgrade_loop kc k he put ns (mp1, as1, h1) \<and>
      gm_wf mp1 \<and> map_of mp1 q = map_of mp q"
  proof (cases "map_of mp (obj_name n)")
    case None
    then show ?thesis
      using Cons.prems he by (auto simp: api_pair)
  next
    case (Some o')
    let ?n = "with_version o' n"
    show ?thesis
    proof (cases "kc_answer kc h (Update_obj k (Namespace (o_meta n)) ?n) = Api_ok")
      case True
      then have "obj_name n \<noteq> q"
        using refused [of ?n h] by auto
      then have "map_of (AList.delete (obj_name n) mp) q = map_of mp q"
        by (simp add: delete_conv')
      then show ?thesis
        using True Some Cons.prems
        by (intro exI [of _ "AList.delete (obj_name n) mp"] exI [of _ "put True (kc_stored kc h ?n) ?n as"]
            exI [of _ "h @ [(Update_obj k (Namespace (o_meta n)) ?n, Api_ok)]"])
          (simp add: api_pair Let_def distinct_delete)
    next
      case False
      then show ?thesis
        using Some Cons.prems he by (auto simp: api_pair Let_def)
    qed
  qed
  then obtain mp1 as1 h1 where s1: "upgrade_loop kc k he put (n # ns) (mp, as, h) = upgrade_loop kc k he put ns (mp1, as1, h1)"
      "gm_wf mp1" "map_of mp1 q = map_of mp q"
    by blast
  then show ?case
    using Cons.IH [OF s1(2), of as1 h1] by metis
qed simp

text \<open>
  C34: A secret whose update the server refuses is lost: it is still among the old objects when the update loop ends,
  so that the clean-up deletes it although the component needs it, and the upgrade reports no error.
\<close>

theorem refused_update_deletes_secret:
  assumes refused: "\<And>h x. obj_name x = q \<Longrightarrow> kc_answer kc h (Update_obj SecretK (Namespace (o_meta x)) x) \<noteq> Api_ok"
    and deleted: "\<And>h x. kc_answer kc h (Delete_obj SecretK (Namespace (o_meta x)) (obj_name x)) = Api_ok"
    and old: "find (\<lambda>x. obj_name x = q) (rev old) = Some x"
  shows "\<exists>as' h'. UpgradeSecrets kc (\<lambda>_. False) old new (as, h) = (False, as', h') \<and>
    cluster m h' (key_of SecretK x) = None"
proof -
  obtain mp as' h1 where l: "upgrade_loop kc SecretK (\<lambda>_. False) (\<lambda>u got sent. SetSecret (Some got)) new (old_map old, as, h) = (False, mp, as', h1)"
      "map_of mp q = map_of (old_map old) q"
    using upgrade_loop_keeps_refused [OF _ refused gm_wf_old_map, of "\<lambda>_. False"] by blast
  obtain h' where d: "delete_rest kc (delete_of SecretK) (\<lambda>_. False) mp h1 = (None, h')"
      "cluster m h' = (\<lambda>key. if key \<in> (\<lambda>(q, x). key_of SecretK x) ` set mp then None else cluster m h1 key)"
    using delete_rest_cluster [of mp kc SecretK "\<lambda>_. False" h1 m] deleted by (fastforce simp: delete_of_def)
  have "(q, x) \<in> set mp"
    using l(2) old by (intro map_of_SomeD) (simp add: map_of_old_map)
  then have "key_of SecretK x \<in> (\<lambda>(q, x). key_of SecretK x) ` set mp"
    by force
  then have "cluster m h' (key_of SecretK x) = None"
    using d(2) by simp
  then show ?thesis
    using l(1) d(1) by (simp add: UpgradeSecrets_def upgrade_objs_def)
qed


section \<open>Witnesses\<close>

definition demo_secret :: "string \<Rightarrow> string \<Rightarrow> named_obj" where
  "demo_secret n d = \<lparr>o_meta = zero_meta\<lparr>Name := n, Namespace := ''ns''\<rparr>, o_data = d\<rparr>"

definition demo_client :: "(api_call \<Rightarrow> api_answer) \<Rightarrow> kube_client" where
  "demo_client f = \<lparr>kc_answer = (\<lambda>h. f), kc_stored = (\<lambda>h x. x), kc_found = (\<lambda>h k ns n. demo_secret n []),
     kc_found_ep = (\<lambda>h ns n. \<lparr>e_meta = zero_meta, Subsets = []\<rparr>), kc_applied = (\<lambda>h x. o_data (mf_obj x))\<rparr>"

definition refuse_updates :: "api_call \<Rightarrow> api_answer" where
  "refuse_updates c = (case c of Update_obj k ns x \<Rightarrow> Conflict | _ \<Rightarrow> Api_ok)"

lemma demo_secret_simps [simp]: "obj_name (demo_secret n d) = n" "o_data (demo_secret n d) = d" "Namespace (o_meta (demo_secret n d)) = ''ns''"
  by (simp_all add: demo_secret_def)

theorem existing_service_not_updated_witness:
  "cluster [(ServiceK, ''ns'', ''s'') \<mapsto> ''port 80''] (ensureService (demo_client (\<lambda>c. Api_ok)) (demo_secret ''s'' ''port 90'') []) (ServiceK, ''ns'', ''s'')
     = Some ''port 80''"
  using existing_service_not_updated [of "demo_client (\<lambda>c. Api_ok)" "[]" "demo_secret ''s'' ''port 90''" "[(ServiceK, ''ns'', ''s'') \<mapsto> ''port 80'']"]
  by (simp add: demo_client_def)

theorem upgrade_secrets_exact_witness:
  "\<exists>as' h'. UpgradeSecrets (demo_client (\<lambda>c. Api_ok)) (\<lambda>_. False) [demo_secret ''a'' ''1'', demo_secret ''b'' ''2''] [demo_secret ''b'' ''3''] (zero_app, [])
       = (False, as', h') \<and>
     cluster [(SecretK, ''ns'', ''a'') \<mapsto> ''1'', (SecretK, ''ns'', ''b'') \<mapsto> ''2''] h' (SecretK, ''ns'', ''b'') = Some ''3'' \<and>
     cluster [(SecretK, ''ns'', ''a'') \<mapsto> ''1'', (SecretK, ''ns'', ''b'') \<mapsto> ''2''] h' (SecretK, ''ns'', ''a'') = None"
  using upgrade_secrets_exact [of "demo_client (\<lambda>c. Api_ok)" "[demo_secret ''b'' ''3'']" "[demo_secret ''a'' ''1'', demo_secret ''b'' ''2'']" "''ns''"
      "\<lambda>_. False" zero_app "[]" "[(SecretK, ''ns'', ''a'') \<mapsto> ''1'', (SecretK, ''ns'', ''b'') \<mapsto> ''2'']"]
  by (auto simp: demo_client_def key_of_def)

theorem refused_update_deletes_secret_witness:
  "\<exists>as' h'. UpgradeSecrets (demo_client refuse_updates) (\<lambda>_. False) [demo_secret ''a'' ''1''] [demo_secret ''a'' ''2''] (zero_app, [])
       = (False, as', h') \<and> cluster [(SecretK, ''ns'', ''a'') \<mapsto> ''1''] h' (SecretK, ''ns'', ''a'') = None"
  using refused_update_deletes_secret [of "''a''" "demo_client refuse_updates" "[demo_secret ''a'' ''1'']" "demo_secret ''a'' ''1''" "[demo_secret ''a'' ''2'']"
      zero_app "[]" "[(SecretK, ''ns'', ''a'') \<mapsto> ''1'']"]
  by (simp add: demo_client_def refuse_updates_def key_of_def)

end
