(* ===== verification/Deploy_Wait.thy ===== *)
theory Deploy_Wait
  imports Store_Status
begin

text \<open>
  Waiting for a component to start, stop or be upgraded (\<^verbatim>\<open>src/worker/appm/controller/status.go\<close> and the
  \<^verbatim>\<open>WaitingReady\<close> methods of \<^verbatim>\<open>start.go\<close>, \<^verbatim>\<open>stop.go\<close>, \<^verbatim>\<open>upgrade.go\<close> and \<^verbatim>\<open>scaling.go\<close>).

  The loops share the component with the informer callbacks and select over three channels. What they cannot
  control is a list of rounds: the store and the environment that a refresh finds, what other goroutines
  write to the component before it is read, and the channel that fires. A loop that is still waiting after
  the last round has the value \<open>None\<close>. The messages of the logger appear where they depend on the pods.
\<close>

section \<open>The state of the pods\<close>

datatype podCheckStatus = Waiting | Running | Abnormal

definition isNewPod :: "pod \<Rightarrow> app_service \<Rightarrow> bool" where
  "isNewPod p a =
     (if gm_str (Labels (p_meta p)) ''version'' \<noteq> DeployVersion a then False
      else if (case GetNewestReplicaSet a of None \<Rightarrow> False
           | Some rs \<Rightarrow> gm_str (Labels (p_meta p)) ''pod-template-hash'' \<noteq> gm_str (Labels (rs_meta rs)) ''pod-template-hash'')
        then False
      else if (case GetStatefulSet a of None \<Rightarrow> False
           | Some s \<Rightarrow> gm_str (Labels (p_meta p)) ''controller-revision-hash'' \<noteq> s_update_revision s)
        then False
      else True)"

definition bad_reason :: "string \<Rightarrow> bool" where
  "bad_reason r \<longleftrightarrow> r = ''ImagePullBackOff'' \<or> r = ''ErrImagePull'' \<or> r = ''CrashLoopBackOff'' \<or> r = ''CreateContainerConfigError''"

definition bad_container :: "container_status \<Rightarrow> bool" where
  "bad_container cs = (if \<not> cs_ready cs then (case cs_waiting cs of None \<Rightarrow> False | Some r \<Rightarrow> bad_reason r) else False)"

text \<open>One pod: the running pods counted so far and the status so far.\<close>

definition check_pod :: "app_service \<Rightarrow> int \<times> podCheckStatus \<Rightarrow> pod \<Rightarrow> int \<times> podCheckStatus" where
  "check_pod a st p =
     (let (n, status) = st
      in if \<not> isNewPod p a then (n, status)
         else (if p_phase p = PodRunning then wrap32 (n + 1) else n,
               if gm_str (Labels (p_meta p)) ''version'' = DeployVersion a
               then foldl (\<lambda>status cs. if bad_container cs then Abnormal else status) status (ContainerStatuses p)
               else status))"

definition checkPodStatus :: "app_service \<Rightarrow> podCheckStatus" where
  "checkPodStatus a =
     (let (n, status) = foldl (check_pod a) (0, Waiting) (GetPods False a)
      in if Replicas a = n \<and> status \<noteq> Abnormal then Running else status)"

text \<open>
  \<^verbatim>\<open>printAbnormalPods\<close>: what is logged about the new pods, without the detail lines. A container that fails
  for a known reason is named; otherwise the first condition that is false is.
\<close>

datatype pod_note = ImageNote | CrashNote | ConfigNote | InitNote | ScheduleNote | ReadyNote

definition container_note :: "container_status \<Rightarrow> pod_note option" where
  "container_note cs =
     (if \<not> cs_ready cs then (case cs_waiting cs of None \<Rightarrow> None
        | Some r \<Rightarrow> if r = ''ImagePullBackOff'' \<or> r = ''ErrImagePull'' then Some ImageNote
                    else if r = ''CrashLoopBackOff'' then Some CrashNote
                    else if r = ''CreateContainerConfigError'' then Some ConfigNote else None)
      else None)"

definition condition_note :: "pod \<Rightarrow> pod_note option" where
  "condition_note p = (case find (\<lambda>c. cond_status c = ''False'') (p_conditions p) of None \<Rightarrow> None
     | Some c \<Rightarrow> if cond_type c = ''Initialized'' then Some InitNote
                 else if cond_type c = ''PodScheduled'' then Some ScheduleNote
                 else if cond_type c = ''Ready'' \<or> cond_type c = ''ContainersReady'' then Some ReadyNote else None)"

definition pod_notes :: "pod \<Rightarrow> pod_note list" where
  "pod_notes p = (case List.map_filter container_note (ContainerStatuses p) of
       [] \<Rightarrow> (case condition_note p of None \<Rightarrow> [] | Some n \<Rightarrow> [n])
     | ns \<Rightarrow> ns)"

definition printAbnormalPods :: "app_service option \<Rightarrow> (string \<times> pod_note) list go" where
  "printAbnormalPods a = bind_go (deref a) (\<lambda>x. Inr (concat (map (\<lambda>p. if isNewPod p x then map (Pair (pod_name p)) (pod_notes p) else []) (GetPods False x))))"

section \<open>The loops\<close>

datatype wait_error = ErrWaitTimeOut | ErrWaitCancel | ErrPodStatus

datatype wait_event = WaitTick | WaitTimer | WaitCancel

record wait_round =
  r_env :: store_env
  r_store :: runtime_store
  r_change :: "app_service \<Rightarrow> app_service"
  r_event :: wait_event

text \<open>\<^verbatim>\<open>a = store.UpdateGetAppService(a.ServiceID)\<close>\<close>

definition refetch :: "wait_round \<Rightarrow> app_service option \<Rightarrow> app_service option go" where
  "refetch r a = bind_go (deref a) (\<lambda>x. bind_go (UpdateGetAppService (r_env r) (ServiceID x) (r_store r)) (\<lambda>(b, _). Inr b))"

text \<open>
  The loop of \<^verbatim>\<open>WaitReady\<close> and of \<^verbatim>\<open>WaitUpgradeReady\<close>. Each of the three states of the pods leaves the switch,
  so that the test of readiness after it is never reached.
\<close>

fun ready_loop :: "nat \<Rightarrow> app_service option \<Rightarrow> wait_round list \<Rightarrow> wait_error option go option" where
  "ready_loop i a [] = None"
| "ready_loop i a (r # rs) = (case (if 2 < i then refetch r a else Inr a) of
     Inl p \<Rightarrow> Some (Inl p)
   | Inr b \<Rightarrow> (let c = map_option (r_change r) b
       in case r_event r of
            WaitCancel \<Rightarrow> Some (bind_go (printAbnormalPods c) (\<lambda>_. Inr (Some ErrWaitCancel)))
          | WaitTimer \<Rightarrow> Some (Inr None)
          | WaitTick \<Rightarrow> (case deref c of Inl p \<Rightarrow> Some (Inl p)
              | Inr x \<Rightarrow> (case checkPodStatus x of
                    Waiting \<Rightarrow> ready_loop (Suc i) c rs
                  | Running \<Rightarrow> Some (Inr None)
                  | Abnormal \<Rightarrow> Some (bind_go (printAbnormalPods c) (\<lambda>_. Inr (Some ErrPodStatus)))))))"

fun stop_loop :: "nat \<Rightarrow> app_service option \<Rightarrow> wait_round list \<Rightarrow> wait_error option go option" where
  "stop_loop i a [] = None"
| "stop_loop i a (r # rs) = (let c = map_option (r_change r) a
     in case (if 2 < Suc i then refetch r c else Inr c) of
     Inl p \<Rightarrow> Some (Inl p)
   | Inr b \<Rightarrow> (case deref b of Inl p \<Rightarrow> Some (Inl p)
       | Inr x \<Rightarrow> (case checkPodStatus x of
             Running \<Rightarrow> Some (Inr None)
           | Abnormal \<Rightarrow> Some (bind_go (printAbnormalPods b) (\<lambda>_. Inr (Some ErrPodStatus)))
           | Waiting \<Rightarrow>
               (if IsClosed x then Some (Inr None)
                else case r_event r of
                       WaitCancel \<Rightarrow> Some (Inr (Some ErrWaitCancel))
                     | WaitTimer \<Rightarrow> Some (Inr None)
                     | WaitTick \<Rightarrow> stop_loop (Suc i) b rs))))"

definition WaitReady :: "app_service option \<Rightarrow> wait_round list \<Rightarrow> wait_error option go option" where
  "WaitReady a rs = ready_loop 0 a rs"

definition WaitStop :: "app_service option \<Rightarrow> wait_round list \<Rightarrow> wait_error option go option" where
  "WaitStop a rs = (if a = None then Some (Inr None) else stop_loop 0 a rs)"

definition WaitUpgradeReady :: "app_service option \<Rightarrow> wait_round list \<Rightarrow> wait_error option go option" where
  "WaitUpgradeReady a rs = (if a = None then Some (Inr None) else ready_loop 0 a rs)"

section \<open>Timeouts\<close>

text \<open>Durations are nanoseconds in an int64. A wait function replaces a duration below its own least number of nanoseconds.\<close>

definition seconds :: "int \<Rightarrow> int" where
  "seconds n = wrap64 (n * 1000000000)"

definition ready_timeout :: "int \<Rightarrow> int" where
  "ready_timeout t = (if t < 80 then seconds 80 else t)"

definition upgrade_ready_timeout :: "int \<Rightarrow> int" where
  "upgrade_ready_timeout t = (if t < 40 then seconds 40 else t)"

text \<open>The first probe that is set decides.\<close>

fun probe_delay :: "container list \<Rightarrow> int" where
  "probe_delay [] = 0"
| "probe_delay (c # cs) = (case c_readiness c of Some d \<Rightarrow> d
     | None \<Rightarrow> (case c_liveness c of Some d \<Rightarrow> d | None \<Rightarrow> probe_delay cs))"

definition init_time :: "app_service \<Rightarrow> int" where
  "init_time app = (case GetPodTemplate app of None \<Rightarrow> 0 | Some t \<Rightarrow> probe_delay (Containers t))"

text \<open>\<^verbatim>\<open>timeout.Seconds() < 40\<close>\<close>

definition at_least_40 :: "int \<Rightarrow> int" where
  "at_least_40 t = (if t < seconds 40 then seconds 40 else t)"

definition start_timeout :: "app_service \<Rightarrow> int" where
  "start_timeout app = at_least_40 (wrap32 (wrap32 (init_time app + 40) * wrap32 (Replicas app)))"

definition scaling_timeout :: "app_service \<Rightarrow> app_service option \<Rightarrow> int go" where
  "scaling_timeout app stored =
     bind_go (case GetPodTemplate app of None \<Rightarrow> Inr 0
        | Some t \<Rightarrow> (case Containers t of [] \<Rightarrow> Inl IndexOutOfRange
            | c # _ \<Rightarrow> Inr (case c_readiness c of None \<Rightarrow> 0 | Some d \<Rightarrow> d))) (\<lambda>initTime.
     bind_go (deref stored) (\<lambda>x.
       let waitingReplicas = abs (Replicas x - GetReadyReplicas x)
       in Inr (at_least_40 (wrap32 (wrap32 (initTime + 40) * wrap32 waitingReplicas)))))"

definition stop_timeout :: "int \<Rightarrow> app_service option \<Rightarrow> int" where
  "stop_timeout waiting stored =
     (let t = (case stored of Some x \<Rightarrow> if 0 < Replicas x then wrap64 (Replicas x * seconds 40) else seconds 40
               | None \<Rightarrow> seconds 40)
      in if waiting \<noteq> 0 then waiting else t)"

definition upgrade_timeout :: "app_service \<Rightarrow> app_service option \<Rightarrow> int" where
  "upgrade_timeout app stored =
     (let t = seconds (wrap32 (40 + init_time app))
      in case stored of Some x \<Rightarrow> if 0 \<le> Replicas x then wrap64 (t * wrap64 (Replicas x * 2)) else t | None \<Rightarrow> t)"


section \<open>What the check of the pods says\<close>

definition running_new :: "app_service \<Rightarrow> nat" where
  "running_new a = length (filter (\<lambda>p. isNewPod p a \<and> p_phase p = PodRunning) (pods a))"

definition failing_new :: "app_service \<Rightarrow> bool" where
  "failing_new a \<longleftrightarrow> (\<exists>p \<in> set (pods a). isNewPod p a \<and> (\<exists>cs \<in> set (ContainerStatuses p). bad_container cs))"

lemma isNewPod_version: "isNewPod p a \<Longrightarrow> gm_str (Labels (p_meta p)) ''version'' = DeployVersion a"
  by (auto simp: isNewPod_def split: if_splits)

lemma foldl_bad_container:
  "foldl (\<lambda>status cs. if bad_container cs then Abnormal else status) st css =
     (if \<exists>cs \<in> set css. bad_container cs then Abnormal else st)"
  by (induction css arbitrary: st) auto

lemma check_pods:
  "foldl (check_pod a) (wrap32 n, st) ps =
     (wrap32 (n + int (length (filter (\<lambda>p. isNewPod p a \<and> p_phase p = PodRunning) ps))),
      if \<exists>p \<in> set ps. isNewPod p a \<and> (\<exists>cs \<in> set (ContainerStatuses p). bad_container cs) then Abnormal else st)"
proof (induction ps arbitrary: n st)
  case (Cons p ps)
  have step: "check_pod a (wrap32 n, st) p =
      (wrap32 (n + (if isNewPod p a \<and> p_phase p = PodRunning then 1 else 0)),
       if isNewPod p a \<and> (\<exists>cs \<in> set (ContainerStatuses p). bad_container cs) then Abnormal else st)"
    by (cases "isNewPod p a") (auto simp: check_pod_def isNewPod_version foldl_bad_container)
  show ?case
    unfolding foldl_Cons step Cons.IH by (auto simp: ac_simps)
qed simp

text \<open>
  The check of the pods: abnormal exactly when a container of a new pod fails for a known reason, otherwise running
  exactly when as many new pods run as the component has replicas, otherwise waiting.
\<close>

theorem pod_check_spec:
  "checkPodStatus a = (if failing_new a then Abnormal
     else if Replicas a = wrap32 (int (running_new a)) then Running else Waiting)"
  using check_pods [of a 0 Waiting "pods a"]
  by (simp add: checkPodStatus_def GetPods_def failing_new_def running_new_def)

lemma pod_check_running:
  "\<not> failing_new a \<Longrightarrow> int (running_new a) < 2147483648 \<Longrightarrow> Replicas a = int (running_new a) \<Longrightarrow> checkPodStatus a = Running"
  using check_pods [of a 0 Waiting "pods a"]
  by (simp add: checkPodStatus_def GetPods_def failing_new_def running_new_def)

section \<open>The loops end\<close>

text \<open>
  Refreshing a component from the listers returns it under the same id; the workloads of the listers come
  from the API server and so have a replica count.
\<close>

definition listers_admitted :: "listers \<Rightarrow> bool" where
  "listers_admitted ls \<longleftrightarrow> (\<forall>ns n d. ls_deployment ls ns n = Listed d \<longrightarrow> d_replicas d \<noteq> None) \<and>
     (\<forall>ns n d. ls_statefulset ls ns n = Listed d \<longrightarrow> s_replicas d \<noteq> None)"

lemma for_go_keeps:
  assumes "\<And>s x. P s \<Longrightarrow> \<exists>t. f s x = Inr t \<and> P t"
  shows "P s \<Longrightarrow> \<exists>t. for_go f s xs = Inr t \<and> P t"
proof (induction xs arbitrary: s)
  case (Cons x xs)
  obtain t where "f s x = Inr t" "P t"
    using assms Cons.prems by blast
  then show ?case
    using Cons.IH by simp
qed simp

lemma refresh_objs_returns:
  assumes "\<And>x a. ServiceID (del x a) = ServiceID a" "\<And>x a. ServiceID (put x a) = ServiceID a"
  shows "\<exists>b. refresh_objs lister meta del put xs a = Inr b \<and> ServiceID b = ServiceID a"
  unfolding refresh_objs_def
  by (rule for_go_keeps) (auto simp: refresh_def assms split: lister_result.split)

lemma refresh_lists:
  "\<exists>b. refresh_objs lister meta DeleteServices SetService xs a = Inr b \<and> ServiceID b = ServiceID a"
  "\<exists>b. refresh_objs lister meta DeleteIngress (\<lambda>i. SetIngress (NetIngress i)) xs a = Inr b \<and> ServiceID b = ServiceID a"
  "\<exists>b. refresh_objs lister meta DeleteBetaIngress (\<lambda>i. SetIngress (BetaIngress i)) xs a = Inr b \<and> ServiceID b = ServiceID a"
  "\<exists>b. refresh_objs lister meta DeleteSecrets (\<lambda>d. SetSecret (Some d)) xs a = Inr b \<and> ServiceID b = ServiceID a"
  "\<exists>b. refresh_objs lister' meta' DeletePods SetPods ps a = Inr b \<and> ServiceID b = ServiceID a"
  by (rule refresh_objs_returns; simp)+

lemma SetWorkload_returns:
  "d_replicas d \<noteq> None \<Longrightarrow> \<exists>b. SetDeployment d a = Inr b \<and> ServiceID b = ServiceID a"
  "s_replicas st \<noteq> None \<Longrightarrow> \<exists>b. SetStatefulSet st a = Inr b \<and> ServiceID b = ServiceID a"
  using SetDeployment_Some [of d] SetStatefulSet_Some [of st] by blast+

lemma refresh_app_returns:
  assumes "listers_admitted (se_listers env)"
  shows "\<exists>b. refresh_app env a = Inr b \<and> ServiceID b = ServiceID a"
proof -
  let ?ls = "se_listers env"
  have "\<exists>b. (case GetStatefulSet a of None \<Rightarrow> Inr a
      | Some st \<Rightarrow> refresh (ls_statefulset ?ls (Namespace (s_meta st)) (Name (s_meta st))) (DeleteStatefulSet st) SetStatefulSet a) = Inr b
      \<and> ServiceID b = ServiceID a"
    using assms SetWorkload_returns(2) by (auto simp: refresh_def listers_admitted_def split: option.split lister_result.split)
  then obtain a1 where a1: "(case GetStatefulSet a of None \<Rightarrow> Inr a
      | Some st \<Rightarrow> refresh (ls_statefulset ?ls (Namespace (s_meta st)) (Name (s_meta st))) (DeleteStatefulSet st) SetStatefulSet a) = Inr a1"
      "ServiceID a1 = ServiceID a"
    by blast
  have "\<exists>b. (case GetDeployment a1 of None \<Rightarrow> Inr a1
      | Some d \<Rightarrow> refresh (ls_deployment ?ls (Namespace (d_meta d)) (Name (d_meta d))) (DeleteDeployment d) SetDeployment a1) = Inr b
      \<and> ServiceID b = ServiceID a1"
    using assms SetWorkload_returns(1) by (auto simp: refresh_def listers_admitted_def split: option.split lister_result.split)
  then obtain a2 where a2: "(case GetDeployment a1 of None \<Rightarrow> Inr a1
      | Some d \<Rightarrow> refresh (ls_deployment ?ls (Namespace (d_meta d)) (Name (d_meta d))) (DeleteDeployment d) SetDeployment a1) = Inr a2"
      "ServiceID a2 = ServiceID a1"
    by blast
  obtain a3 where a3: "refresh_objs (ls_service ?ls) o_meta DeleteServices SetService (GetServices True a2) a2 = Inr a3" "ServiceID a3 = ServiceID a2"
    using refresh_lists(1) by meson
  obtain ings betas where ing: "GetIngress (se_high_version env) True a3 = (ings, betas)"
    by (cases "GetIngress (se_high_version env) True a3")
  obtain a4 where a4: "refresh_objs (ls_ingress ?ls) o_meta DeleteIngress (\<lambda>i. SetIngress (NetIngress i)) (case ings of None \<Rightarrow> [] | Some l \<Rightarrow> l) a3 = Inr a4"
      "ServiceID a4 = ServiceID a3"
    using refresh_lists(2) by meson
  obtain a5 where a5: "refresh_objs (ls_beta_ingress ?ls) o_meta DeleteBetaIngress (\<lambda>i. SetIngress (BetaIngress i)) (case betas of None \<Rightarrow> [] | Some l \<Rightarrow> l) a4 = Inr a5"
      "ServiceID a5 = ServiceID a4"
    using refresh_lists(3) by meson
  obtain a6 where a6: "refresh_objs (ls_secret ?ls) o_meta DeleteSecrets (\<lambda>d. SetSecret (Some d)) (GetSecrets True a5) a5 = Inr a6" "ServiceID a6 = ServiceID a5"
    using refresh_lists(4) by meson
  obtain a7 where a7: "refresh_objs (ls_pod ?ls) p_meta DeletePods SetPods (GetPods True a6) a6 = Inr a7" "ServiceID a7 = ServiceID a6"
    using refresh_lists(5) by meson
  have "refresh_app env a = Inr a7"
    unfolding refresh_app_def Let_def a1(1) bind_go_simps a2(1) a3(1) ing prod.case a4(1) a5(1) a6(1) a7(1) ..
  then show ?thesis
    using a1(2) a2(2) a3(2) a4(2) a5(2) a6(2) a7(2) by simp
qed

text \<open>A round in which the component is still in the store, and other goroutines leave its id alone.\<close>

definition present :: "string \<Rightarrow> wait_round \<Rightarrow> bool" where
  "present sid r \<longleftrightarrow> (\<exists>b. GetAppService sid (r_store r) = Some b \<and> ServiceID b = sid) \<and>
     (\<forall>x. ServiceID (r_change r x) = ServiceID x) \<and> listers_admitted (se_listers (r_env r))"

lemma refetch_present:
  assumes "present sid r" "ServiceID a = sid"
  shows "\<exists>b. refetch r (Some a) = Inr (Some b) \<and> ServiceID b = sid"
proof -
  obtain x where x: "map_of (appServices (r_store r)) sid = Some x" "ServiceID x = sid"
    using assms(1) by (auto simp: present_def GetAppService_def)
  moreover obtain b where "refresh_app (r_env r) x = Inr b" "ServiceID b = ServiceID x"
    using refresh_app_returns assms(1) unfolding present_def by meson
  ultimately show ?thesis
    using assms(2) by (simp add: refetch_def UpdateGetAppService_def deref_def del: map_of_eq_Some_iff)
qed

lemma ready_loop_ends:
  "\<exists>r \<in> set rs. r_event r \<noteq> WaitTick \<Longrightarrow> \<forall>r \<in> set rs. present sid r \<Longrightarrow> ServiceID a = sid \<Longrightarrow>
     \<exists>x. ready_loop i (Some a) rs = Some (Inr x)"
proof (induction rs arbitrary: i a)
  case (Cons r rs)
  have r: "present sid r" and rs: "\<forall>r \<in> set rs. present sid r"
    using Cons.prems(2) by simp_all
  obtain b where b: "(if 2 < i then refetch r (Some a) else Inr (Some a)) = Inr (Some b)" "ServiceID b = sid"
    using refetch_present [OF r Cons.prems(3)] Cons.prems(3) by (cases "2 < i") auto
  let ?c = "r_change r b"
  have c: "ServiceID ?c = sid"
    using r b(2) by (simp add: present_def)
  have next_round: "\<exists>x. ready_loop (Suc i) (Some ?c) rs = Some (Inr x)" if "r_event r = WaitTick"
    using Cons.IH [OF _ rs c] Cons.prems(1) that by simp
  show ?case
    unfolding ready_loop.simps b(1)
    using next_round by (auto simp: Let_def deref_def printAbnormalPods_def split: wait_event.split podCheckStatus.split)
qed simp

lemma stop_loop_ends:
  "\<exists>r \<in> set rs. r_event r \<noteq> WaitTick \<Longrightarrow> \<forall>r \<in> set rs. present sid r \<Longrightarrow> ServiceID a = sid \<Longrightarrow>
     \<exists>x. stop_loop i (Some a) rs = Some (Inr x)"
proof (induction rs arbitrary: i a)
  case (Cons r rs)
  have r: "present sid r" and rs: "\<forall>r \<in> set rs. present sid r"
    using Cons.prems(2) by simp_all
  have c: "ServiceID (r_change r a) = sid"
    using r Cons.prems(3) by (simp add: present_def)
  obtain b where b: "(if 2 < Suc i then refetch r (Some (r_change r a)) else Inr (Some (r_change r a))) = Inr (Some b)" "ServiceID b = sid"
    using refetch_present [OF r c] c by (cases "2 < Suc i") auto
  have next_round: "\<exists>x. stop_loop (Suc i) (Some b) rs = Some (Inr x)" if "r_event r = WaitTick"
    using Cons.IH [OF _ rs b(2)] Cons.prems(1) that by simp
  show ?case
    unfolding stop_loop.simps Let_def option.map b(1)
    using next_round by (auto simp: deref_def printAbnormalPods_def split: wait_event.split podCheckStatus.split)
qed simp

text \<open>
  C15: Every wait ends: once the timer fires or the operation is cancelled the three loops have returned, without a panic,
  whatever the pods do, as long as every refresh still finds the component in the store under its id.
\<close>

theorem waits_end:
  assumes "\<exists>r \<in> set rs. r_event r \<noteq> WaitTick"
    and "\<forall>r \<in> set rs. \<exists>b. GetAppService (ServiceID a) (r_store r) = Some b \<and> ServiceID b = ServiceID a"
    and "\<forall>r \<in> set rs. \<forall>x. ServiceID (r_change r x) = ServiceID x"
    and "\<forall>r \<in> set rs. listers_admitted (se_listers (r_env r))"
  shows "\<exists>x y z. WaitReady (Some a) rs = Some (Inr x) \<and> WaitStop (Some a) rs = Some (Inr y) \<and>
    WaitUpgradeReady (Some a) rs = Some (Inr z)"
proof -
  have "\<forall>r \<in> set rs. present (ServiceID a) r"
    using assms(2-4) by (simp add: present_def)
  from ready_loop_ends [OF assms(1) this refl, of 0] stop_loop_ends [OF assms(1) this refl, of 0] show ?thesis
    by (auto simp: WaitReady_def WaitStop_def WaitUpgradeReady_def)
qed

text \<open>
  A wait for a stop whose component leaves the store panics in its third round: the refreshed component is nil and is
  dereferenced.
\<close>

theorem stop_wait_panics_when_gone:
  assumes "map r_change rs = [id, id, id]" "r_event (rs ! 0) = WaitTick" "r_event (rs ! 1) = WaitTick"
    and "checkPodStatus a = Waiting" "\<not> IsClosed a" "GetAppService (ServiceID a) (r_store (rs ! 2)) = None"
  shows "WaitStop (Some a) rs = Some (Inl NilDereference)"
proof -
  obtain r1 r2 r3 where rs: "rs = [r1, r2, r3]" "r_change r1 = id" "r_change r2 = id" "r_change r3 = id"
    using assms(1) by (auto simp: map_eq_Cons_conv)
  have "refetch r3 (Some a) = Inr None"
    using assms(6) by (simp add: rs refetch_def deref_def UpdateGetAppService_def GetAppService_def)
  then show ?thesis
    using assms(2-5) by (simp add: WaitStop_def rs deref_def)
qed

text \<open>
  A timeout is not an error: no wait returns the error that the callers test for.
\<close>

lemma ready_loop_no_timeout: "ready_loop i a rs \<noteq> Some (Inr (Some ErrWaitTimeOut))"
  by (induction rs arbitrary: i a) (auto simp: Let_def bind_go_eq_Inr split: sum.splits wait_event.splits podCheckStatus.splits)

lemma stop_loop_no_timeout: "stop_loop i a rs \<noteq> Some (Inr (Some ErrWaitTimeOut))"
  by (induction rs arbitrary: i a) (auto simp: Let_def bind_go_eq_Inr split: sum.splits wait_event.splits podCheckStatus.splits)

text \<open>
  The waits never report a timeout: a component that does not come up or does not go down in time counts as a success,
  and the branches of the callers for \<^verbatim>\<open>ErrWaitTimeOut\<close> are never taken.
\<close>

theorem timeout_never_reported:
  "WaitReady a rs \<noteq> Some (Inr (Some ErrWaitTimeOut)) \<and> WaitStop a rs \<noteq> Some (Inr (Some ErrWaitTimeOut)) \<and>
   WaitUpgradeReady a rs \<noteq> Some (Inr (Some ErrWaitTimeOut))"
  by (simp add: WaitReady_def WaitStop_def WaitUpgradeReady_def ready_loop_no_timeout stop_loop_no_timeout)

text \<open>
  C35: Stopping a component reports success at once while all its replicas still run: the first check of the pods finds them
  running, which ends the wait.
\<close>

theorem stop_succeeds_while_running:
  assumes "\<not> failing_new (r_change r a)" "int (running_new (r_change r a)) < 2147483648"
    "Replicas (r_change r a) = int (running_new (r_change r a))"
  shows "WaitStop (Some a) (r # rs) = Some (Inr None)"
  using pod_check_running [OF assms] by (simp add: WaitStop_def)

section \<open>The timeouts\<close>

lemma at_least_40_wrap32 [simp]: "at_least_40 (wrap32 x) = 40000000000"
  using wrap32_range [of x] by (simp add: at_least_40_def seconds_def)

text \<open>
  The wait for a start is always 40 seconds, and so is that for a scaling: the delay of the probes and the number of
  replicas are read as nanoseconds, and the minimum of 80 of the wait function is compared with nanoseconds too.
\<close>

theorem start_timeout_fixed:
  "ready_timeout (start_timeout app) = 40000000000 \<and>
   (scaling_timeout app stored = Inr 40000000000 \<or> scaling_timeout app stored = Inl IndexOutOfRange \<or>
    scaling_timeout app stored = Inl NilDereference)"
  by (cases stored) (auto simp: ready_timeout_def start_timeout_def scaling_timeout_def Let_def split: option.splits list.splits)

text \<open>The wait for an upgrade grows with the delay of the probe and the number of replicas, as long as nothing overflows.\<close>

lemma upgrade_timeout_bound:
  assumes "0 \<le> init_time app" "init_time app < 1000000" "stored = Some x" "1 \<le> Replicas x" "Replicas x \<le> 1000"
  shows "upgrade_ready_timeout (upgrade_timeout app stored) = 2000000000 * Replicas x * (40 + init_time app)"
proof -
  let ?t = "40 + init_time app"
  have t: "seconds (wrap32 ?t) = ?t * 1000000000"
    using assms(1,2) by (simp add: seconds_def)
  have "?t * 1000000000 \<le> 1000040 * 1000000000" "Replicas x * 2 \<le> 2000" "40000000000 \<le> ?t * 1000000000" "2 \<le> Replicas x * 2"
    using assms by simp_all
  then have "?t * 1000000000 * (Replicas x * 2) \<le> 1000040 * 1000000000 * 2000" "40000000000 * 2 \<le> ?t * 1000000000 * (Replicas x * 2)"
    using assms by (intro mult_mono; simp)+
  then show ?thesis
    using assms t by (simp add: upgrade_timeout_def upgrade_ready_timeout_def seconds_def)
qed


section \<open>Witnesses\<close>

definition sample_round :: "wait_event \<Rightarrow> wait_round" where
  "sample_round e = \<lparr>r_env = sample_env (sample_db []), r_store = NewStore, r_change = (\<lambda>a. a), r_event = e\<rparr>"

definition running_app :: app_service where
  "running_app = zero_app\<lparr>ServiceID := ''s1'', DeployVersion := ''v1'', Replicas := 1, pods := [sample_pod ''p1'' ''v1'' 0]\<rparr>"

lemma running_app_pods: "\<not> failing_new running_app" "running_new running_app = 1" "Replicas running_app = 1"
  by (simp_all add: running_app_def failing_new_def running_new_def isNewPod_def GetNewestReplicaSet_def GetStatefulSet_def
      gm_str_def sample_defs)

definition kept_round :: "wait_event \<Rightarrow> wait_round" where
  "kept_round e = (sample_round e)\<lparr>r_store := store_of [zero_app\<lparr>ServiceID := ''s1''\<rparr>]\<rparr>"

theorem waits_end_witness:
  "\<exists>x y z. WaitReady (Some (zero_app\<lparr>ServiceID := ''s1''\<rparr>)) (replicate 4 (kept_round WaitTick) @ [kept_round WaitTimer]) = Some (Inr x) \<and>
     WaitStop (Some (zero_app\<lparr>ServiceID := ''s1''\<rparr>)) (replicate 4 (kept_round WaitTick) @ [kept_round WaitTimer]) = Some (Inr y) \<and>
     WaitUpgradeReady (Some (zero_app\<lparr>ServiceID := ''s1''\<rparr>)) (replicate 4 (kept_round WaitTick) @ [kept_round WaitTimer]) = Some (Inr z)"
  by (rule waits_end)
     (auto simp: kept_round_def sample_round_def GetAppService_def store_of_def NewStore_def listers_admitted_def
        sample_env_def sample_listers_def)

definition waiting_app :: app_service where
  "waiting_app = running_app\<lparr>Replicas := 2\<rparr>"

theorem stop_wait_panics_when_gone_witness:
  "WaitStop (Some waiting_app) [sample_round WaitTick, sample_round WaitTick, sample_round WaitTimer] = Some (Inl NilDereference)"
proof (rule stop_wait_panics_when_gone)
  show "map r_change [sample_round WaitTick, sample_round WaitTick, sample_round WaitTimer] = [id, id, id]"
    by (simp add: sample_round_def id_def)
  show "checkPodStatus waiting_app = Waiting" "\<not> IsClosed waiting_app"
    by (simp_all add: waiting_app_def checkPodStatus_def check_pod_def GetPods_def running_app_def isNewPod_def GetNewestReplicaSet_def
        GetStatefulSet_def gm_str_def sample_defs IsClosed_def IsCustomComponent_def IsThirdComponent_def IsEmpty_def IsPodNodeLost_def
        ServiceKindThirdParty_def ServiceKindCustom_def wrap32_def)
qed (simp_all add: sample_round_def GetAppService_def NewStore_def)

theorem stop_succeeds_while_running_witness:
  "WaitStop (Some running_app) [sample_round WaitTick] = Some (Inr None) \<and> \<not> IsClosed running_app"
  using stop_succeeds_while_running [of "sample_round WaitTick" running_app "[]"] running_app_pods
  by (simp add: sample_round_def running_app_def IsClosed_def IsCustomComponent_def IsThirdComponent_def IsEmpty_def IsPodNodeLost_def
      ServiceKindThirdParty_def ServiceKindCustom_def sample_defs)

end
