(* ===== verification/Deploy_Control.thy ===== *)
theory Deploy_Control
  imports Kube_Calls Deploy_Wait
begin

text \<open>
  The controllers that start, stop, restart, scale and upgrade a component
  (\<^verbatim>\<open>src/worker/appm/controller\<close>: \<^verbatim>\<open>start.go\<close>, \<^verbatim>\<open>stop.go\<close>, \<^verbatim>\<open>restart.go\<close>, \<^verbatim>\<open>scaling.go\<close>, \<^verbatim>\<open>upgrade.go\<close>,
  \<^verbatim>\<open>refresh_xpa.go\<close>, \<^verbatim>\<open>apply_plugin_config.go\<close>).

  An operation is a list of steps over the history of the calls to the API server and the runtime store. The first
  step that fails ends it; the operation that reaches the end of the list waits for the pods.
\<close>

section \<open>Steps\<close>

datatype deploy_error = NamespaceErr | ManifestErr | ConfigMapErr | ClaimErr | StatefulSetErr | DeploymentErr | ServiceErr
  | SecretErr | IngressErr | HpaErr | PodErr | InitErr | WaitErr wait_error

type_synonym deploy_state = "history \<times> runtime_store"

type_synonym step = "deploy_state \<Rightarrow> (deploy_error option \<times> deploy_state) go"

text \<open>
  The surroundings of an operation: the clients, the version of the cluster, whether the definition of service
  monitors exists and their client can be created, and the environment of the store. \<open>de_merge\<close> is the
  specification of a service with the ports and the type of another.
\<close>

record deploy_env =
  de_client :: kube_client
  de_high :: bool
  de_monitor_crd :: bool
  de_monitor_client :: bool
  de_store_env :: store_env
  de_merge :: "string \<Rightarrow> string \<Rightarrow> string"

fun run_steps :: "step list \<Rightarrow> step" where
  "run_steps [] st = Inr (None, st)"
| "run_steps (f # fs) st = bind_go (f st) (\<lambda>(e, st'). case e of Some x \<Rightarrow> Inr (Some x, st') | None \<Rightarrow> run_steps fs st')"

definition api_step :: "(history \<Rightarrow> deploy_error option \<times> history) \<Rightarrow> step" where
  "api_step f st = (let (e, h) = f (fst st) in Inr (e, h, snd st))"

text \<open>A loop whose body asks for the namespace of the component, which panics when the tenant environment is not set.\<close>

definition ns_step :: "app_service \<Rightarrow> (string \<Rightarrow> 'x \<Rightarrow> history \<Rightarrow> deploy_error option \<times> history) \<Rightarrow> 'x list \<Rightarrow> step" where
  "ns_step app f xs st = (if xs = [] then Inr (None, st)
     else bind_go (GetNamespace app) (\<lambda>ns. api_step (try_each (f ns) xs) st))"

definition log_step :: "kube_client \<Rightarrow> ('x \<Rightarrow> api_call) \<Rightarrow> 'x list \<Rightarrow> step" where
  "log_step kc c xs = api_step (\<lambda>h. (None, fold (\<lambda>x. log_call kc (c x)) xs h))"

definition opt_list :: "'x option \<Rightarrow> 'x list" where
  "opt_list x = (case x of None \<Rightarrow> [] | Some y \<Rightarrow> [y])"

definition unversioned :: "named_obj list \<Rightarrow> named_obj list" where
  "unversioned xs = filter (\<lambda>x. length (ResourceVersion (o_meta x)) = 0) xs"

definition namespace_step :: "kube_client \<Rightarrow> app_service \<Rightarrow> step" where
  "namespace_step kc app st = bind_go (deref (GetTenantEnv app)) (\<lambda>env. api_step (check_namespace kc NamespaceErr (obj_name env) env) st)"

definition monitors :: "deploy_env \<Rightarrow> app_service \<Rightarrow> named_obj list" where
  "monitors env app = (if de_monitor_crd env \<and> de_monitor_client env then GetServiceMonitors True app else [])"

section \<open>Starting\<close>

definition create_each :: "kube_client \<Rightarrow> api_kind \<Rightarrow> deploy_error \<Rightarrow> string \<Rightarrow> named_obj \<Rightarrow> history \<Rightarrow> deploy_error option \<times> history" where
  "create_each kc k e ns x = try_call kc {Api_ok, Already_exists} e (Create_obj k ns x)"

definition create_services :: "kube_client \<Rightarrow> app_service \<Rightarrow> step" where
  "create_services kc app st = (let xs = GetServices True app
     in if xs = [] then Inr (None, st)
        else bind_go (GetNamespace app) (\<lambda>ns. api_step (CreateKubeService kc ns xs ServiceErr) st))"

definition start_steps :: "deploy_env \<Rightarrow> app_service \<Rightarrow> step list" where
  "start_steps env app = (let kc = de_client env; (ings, betas) = GetIngress (de_high env) True app in
    [namespace_step kc app,
     api_step (apply_manifests kc ManifestErr (GetManifests app)),
     ns_step app (create_each kc ConfigMapK ConfigMapErr) (GetConfigMaps app),
     ns_step app (create_each kc ClaimK ClaimErr) (GetClaimsManually app),
     ns_step app (\<lambda>ns s. try_call kc {Api_ok} StatefulSetErr (Create_sts ns s)) (opt_list (GetStatefulSet app)),
     ns_step app (\<lambda>ns d. try_call kc {Api_ok} DeploymentErr (Create_dep ns d)) (opt_list (GetDeployment app)),
     create_services kc app,
     ns_step app (create_each kc SecretK SecretErr) (unversioned (GetSecrets True app @ GetEnvVarSecrets True app)),
     ns_step app (create_each kc IngressK IngressErr) (unversioned (nil_list ings)),
     ns_step app (create_each kc BetaIngressK IngressErr) (unversioned (nil_list betas)),
     api_step (try_each (\<lambda>x. create_each kc HpaK HpaErr (Namespace (o_meta x)) x) (unversioned (GetHPAs app))),
     log_step kc (\<lambda>x. Create_obj MonitorK (Namespace (o_meta x)) x) (unversioned (monitors env app))])"

text \<open>An operation ends with a wait over the given rounds; \<open>None\<close> is a wait that has not ended.\<close>

type_synonym deploy_result = "(deploy_error option \<times> deploy_state) go option"

definition then_wait :: "(runtime_store \<Rightarrow> wait_error option go option) \<Rightarrow> step list \<Rightarrow> deploy_state \<Rightarrow> deploy_result" where
  "then_wait w fs st = (case run_steps fs st of
       Inl p \<Rightarrow> Some (Inl p)
     | Inr (Some e, st') \<Rightarrow> Some (Inr (Some e, st'))
     | Inr (None, st') \<Rightarrow> map_option (\<lambda>r. bind_go r (\<lambda>e. Inr (map_option WaitErr e, st'))) (w (snd st')))"

definition startOne :: "deploy_env \<Rightarrow> app_service \<Rightarrow> wait_round list \<Rightarrow> deploy_state \<Rightarrow> deploy_result" where
  "startOne env app rounds = then_wait (\<lambda>s. WaitReady (GetAppService (ServiceID app) s) rounds) (start_steps env app)"

section \<open>Stopping\<close>

definition delete_each :: "kube_client \<Rightarrow> deploy_error \<Rightarrow> api_call \<Rightarrow> history \<Rightarrow> deploy_error option \<times> history" where
  "delete_each kc e c = try_call kc {Api_ok, Not_found} e c"

definition named :: "named_obj list \<Rightarrow> named_obj list" where
  "named xs = filter (\<lambda>x. obj_name x \<noteq> []) xs"

definition delete_named :: "kube_client \<Rightarrow> api_kind \<Rightarrow> deploy_error \<Rightarrow> app_service \<Rightarrow> named_obj list \<Rightarrow> step" where
  "delete_named kc k e app xs = ns_step app (\<lambda>ns x. delete_each kc e (Delete_obj k ns (obj_name x))) (named xs)"

text \<open>The networking ingresses, or else those of the beta API.\<close>

definition delete_ingresses :: "deploy_env \<Rightarrow> app_service \<Rightarrow> step" where
  "delete_ingresses env app = (let kc = de_client env in case GetIngress (de_high env) True app of
       (Some ings, _) \<Rightarrow> delete_named kc IngressK IngressErr app ings
     | (None, Some betas) \<Rightarrow> ns_step app (\<lambda>ns x. delete_each kc IngressErr (Delete_ext_ingress ns (obj_name x))) (named betas)
     | (None, None) \<Rightarrow> (\<lambda>st. Inr (None, st)))"

definition delete_statefulset :: "deploy_env \<Rightarrow> app_service \<Rightarrow> step" where
  "delete_statefulset env app st = (case GetStatefulSet app of None \<Rightarrow> Inr (None, st)
     | Some x \<Rightarrow> bind_go (GetNamespace app) (\<lambda>ns.
         case delete_each (de_client env) StatefulSetErr (Delete_obj StatefulSetK ns (Name (s_meta x))) (fst st) of
           (Some e, h) \<Rightarrow> Inr (Some e, h, snd st)
         | (None, h) \<Rightarrow> bind_go (OnDeletes (de_store_env env) [KStatefulSet x] (snd st)) (\<lambda>s. Inr (None, h, s))))"

definition delete_deployment :: "deploy_env \<Rightarrow> app_service \<Rightarrow> step" where
  "delete_deployment env app st = (case GetDeployment app of None \<Rightarrow> Inr (None, st)
     | Some x \<Rightarrow> if Name (d_meta x) = [] then Inr (None, st)
         else bind_go (GetNamespace app) (\<lambda>ns.
         case delete_each (de_client env) DeploymentErr (Delete_obj DeploymentK ns (Name (d_meta x))) (fst st) of
           (Some e, h) \<Rightarrow> Inr (Some e, h, snd st)
         | (None, h) \<Rightarrow> bind_go (OnDeletes (de_store_env env) [KDeployment x] (snd st)) (\<lambda>s. Inr (None, h, s))))"

definition stop_steps :: "deploy_env \<Rightarrow> app_service \<Rightarrow> step list" where
  "stop_steps env app = (let kc = de_client env in
    [delete_named kc ServiceK ServiceErr app (GetServices True app),
     delete_named kc SecretK SecretErr app (GetSecrets True app),
     delete_ingresses env app,
     delete_named kc ConfigMapK ConfigMapErr app (GetConfigMaps app),
     log_step kc Delete_manifest (GetManifests app),
     log_step kc Delete_workload (opt_list (GetWorkload app)),
     delete_statefulset env app,
     delete_deployment env app,
     ns_step app (\<lambda>ns n. delete_each kc PodErr (Delete_obj PodK ns n)) (filter (\<lambda>n. n \<noteq> []) (map pod_name (GetPods True app))),
     api_step (try_each (\<lambda>x. delete_each kc HpaErr (delete_of HpaK x)) (GetHPAs app)),
     log_step kc (delete_of MonitorK) (monitors env app)])"

definition stopOne :: "deploy_env \<Rightarrow> app_service \<Rightarrow> wait_round list \<Rightarrow> deploy_state \<Rightarrow> deploy_result" where
  "stopOne env app rounds = then_wait (\<lambda>s. WaitStop (GetAppService (ServiceID app) s) rounds) (stop_steps env app)"

text \<open>A start that fails other than by a timeout stops the component again.\<close>

definition start_begin :: "deploy_env \<Rightarrow> app_service \<Rightarrow> wait_round list \<Rightarrow> wait_round list \<Rightarrow> deploy_state \<Rightarrow> deploy_result" where
  "start_begin env app rounds rounds' st = (case startOne env app rounds st of
       Some (Inr (Some e, st')) \<Rightarrow> if e \<noteq> WaitErr ErrWaitTimeOut then stopOne env app rounds' st' else Some (Inr (Some e, st'))
     | r \<Rightarrow> r)"

section \<open>Restarting and scaling\<close>

text \<open>
  \<open>init\<close> is the conversion of the component from the database. The loop after a timeout only sleeps and reads.
\<close>

definition restartOne :: "(string \<Rightarrow> string gomap option \<Rightarrow> app_service option) \<Rightarrow> deploy_env \<Rightarrow> app_service \<Rightarrow> wait_round list \<Rightarrow> wait_round list \<Rightarrow>
    deploy_state \<Rightarrow> deploy_result" where
  "restartOne init env app rounds rounds' st = (case stopOne env app rounds st of
       Some (Inr (e, st')) \<Rightarrow>
         (if e \<noteq> None \<and> e \<noteq> Some (WaitErr ErrWaitTimeOut) then Some (Inr (e, st'))
          else case init (ServiceID app) (ExtensionSet app) of
             None \<Rightarrow> Some (Inr (Some InitErr, st'))
           | Some new \<Rightarrow> map_option (\<lambda>r. bind_go r (\<lambda>(e, st''). Inr (if e = Some (WaitErr ErrWaitTimeOut) then None else e, st'')))
               (startOne env new rounds' (fst st', RegistAppService new (snd st'))))
     | r \<Rightarrow> r)"

definition replicas_patch :: "int \<Rightarrow> string" where
  "replicas_patch n = ''{'' @ [CHR 0x22] @ ''spec'' @ [CHR 0x22] @ '':{'' @ [CHR 0x22] @ ''replicas'' @ [CHR 0x22] @ '':'' @ go_itoa n @ ''}}''"

definition scaling_steps :: "deploy_env \<Rightarrow> app_service \<Rightarrow> step list" where
  "scaling_steps env service = (let kc = de_client env; p = replicas_patch (Replicas service) in
    [api_step (try_each (\<lambda>s. try_call kc {Api_ok} StatefulSetErr (Patch_obj StatefulSetK (Namespace (s_meta s)) (Name (s_meta s)) p))
       (opt_list (GetStatefulSet service))),
     api_step (try_each (\<lambda>d. try_call kc {Api_ok} DeploymentErr (Patch_obj DeploymentK (Namespace (d_meta d)) (Name (d_meta d)) p))
       (opt_list (GetDeployment service)))])"

text \<open>The length of the wait is computed first, which panics for a component that is not in the store.\<close>

definition scalingOne :: "deploy_env \<Rightarrow> app_service \<Rightarrow> wait_round list \<Rightarrow> deploy_state \<Rightarrow> deploy_result" where
  "scalingOne env service rounds = then_wait (\<lambda>s. let stored = GetAppService (ServiceID service) s in
     case scaling_timeout service stored of Inl p \<Rightarrow> Some (Inl p) | Inr t \<Rightarrow> WaitReady stored rounds) (scaling_steps env service)"

definition refresh_hpas :: "kube_client \<Rightarrow> app_service \<Rightarrow> history \<Rightarrow> history" where
  "refresh_hpas kc app h = fold (\<lambda>x. log_call kc (delete_of HpaK x)) (GetDelHPAs app) (fold (EnsureHPA kc) (GetHPAs app) h)"

section \<open>Upgrading\<close>

text \<open>
  The map of old objects holds nil for an object that was handled. \<open>update\<close> is the object that is sent for an old and a new
  one, and \<open>touch\<close> what writing it does to the old object in the component. Every call is only logged; the answer of the server goes to the component in the store.
\<close>

definition nil_map :: "named_obj list \<Rightarrow> named_obj option gomap" where
  "nil_map now = fold (\<lambda>x. AList.update (obj_name x) (Some x)) now []"

definition replace_obj :: "kube_client \<Rightarrow> api_kind \<Rightarrow> string \<Rightarrow> (named_obj \<Rightarrow> named_obj \<Rightarrow> named_obj) \<Rightarrow> (named_obj \<Rightarrow> app_service \<Rightarrow> app_service) \<Rightarrow>
    (named_obj \<Rightarrow> history \<Rightarrow> named_obj \<times> history) \<Rightarrow> (named_obj \<Rightarrow> app_service \<Rightarrow> app_service) \<Rightarrow>
    named_obj option gomap \<times> app_service \<times> history \<Rightarrow> named_obj \<Rightarrow> (named_obj option gomap \<times> app_service \<times> history) go" where
  "replace_obj kc k ns update touch create put st new = (let (m, a, h) = st in case map_of m (obj_name new) of
       Some old \<Rightarrow> bind_go (deref old) (\<lambda>x. let sent = update x new in
         Inr (AList.update (obj_name new) None m, put (kc_stored kc h sent) (touch sent a), log_call kc (Update_obj k ns sent) h))
     | None \<Rightarrow> (let (got, h1) = create new h in Inr (m, put got a, h1)))"

definition delete_unhandled :: "kube_client \<Rightarrow> api_kind \<Rightarrow> string \<Rightarrow> named_obj option gomap \<Rightarrow> history \<Rightarrow> history" where
  "delete_unhandled kc k ns m h = fold (\<lambda>(n, x). if x \<noteq> None then log_call kc (Delete_obj k ns n) else id) m h"

text \<open>The namespace is read in the loops only.\<close>

definition replace_objs :: "kube_client \<Rightarrow> api_kind \<Rightarrow> (named_obj \<Rightarrow> named_obj \<Rightarrow> named_obj) \<Rightarrow> (named_obj \<Rightarrow> app_service \<Rightarrow> app_service) \<Rightarrow>
    (string \<Rightarrow> named_obj \<Rightarrow> history \<Rightarrow> named_obj \<times> history) \<Rightarrow> (named_obj \<Rightarrow> app_service \<Rightarrow> app_service) \<Rightarrow>
    (app_service \<Rightarrow> named_obj list) \<Rightarrow> app_service \<Rightarrow> deploy_state \<Rightarrow> deploy_state go" where
  "replace_objs kc k update touch create put get newapp st =
     bind_go (deref (GetAppService (ServiceID newapp) (snd st))) (\<lambda>nowApp.
       let m = nil_map (get nowApp)
       in if get newapp = [] \<and> m = [] then Inr st
          else bind_go (GetNamespace nowApp) (\<lambda>ns.
            bind_go (for_go (replace_obj kc k ns update touch (create ns) put) (m, nowApp, fst st) (get newapp)) (\<lambda>(m', a, h).
              Inr (delete_unhandled kc k ns m' h, put_app (ServiceID newapp) a (snd st)))))"

definition upgradeConfigMap :: "kube_client \<Rightarrow> app_service \<Rightarrow> deploy_state \<Rightarrow> deploy_state go" where
  "upgradeConfigMap kc = replace_objs kc ConfigMapK (\<lambda>old new. new) (\<lambda>x a. a)
     (\<lambda>ns new h. (kc_stored kc h new, log_call kc (Create_obj ConfigMapK ns new) h)) SetConfigMap GetConfigMaps"

text \<open>An old service gets the ports, the type and the labels of the new one.\<close>

definition upgradeService :: "deploy_env \<Rightarrow> app_service \<Rightarrow> deploy_state \<Rightarrow> deploy_state go" where
  "upgradeService env = (let kc = de_client env in replace_objs kc ServiceK
     (\<lambda>old new. \<lparr>o_meta = (o_meta old)\<lparr>Labels := Labels (o_meta new)\<rparr>, o_data = de_merge env (o_data old) (o_data new)\<rparr>) SetService
     (\<lambda>ns new h. (new, snd (CreateKubeService kc ns [new] ServiceErr h))) SetService (GetServices True))"

definition quiet_step :: "(deploy_state \<Rightarrow> deploy_state go) \<Rightarrow> step" where
  "quiet_step f st = bind_go (f st) (\<lambda>st'. Inr (None, st'))"

text \<open>
  Secrets and ingresses: \<open>oldApp\<close> is the component of the store before its services are upgraded. Errors are
  ignored, and what is written to the local copy of the new component is not read again.
\<close>

definition upgrade_rest :: "deploy_env \<Rightarrow> app_service \<Rightarrow> deploy_state \<Rightarrow> deploy_state go" where
  "upgrade_rest env app st = (let kc = de_client env; old = GetAppService (ServiceID app) (snd st) in
     bind_go (upgradeService env app st) (\<lambda>st1. bind_go (deref old) (\<lambda>oldApp.
       let (oldI, oldB) = GetIngress (de_high env) True oldApp; (newI, newB) = GetIngress (de_high env) True app;
           (_, app1, h1) = UpgradeSecrets kc (\<lambda>_. False) (GetSecrets True oldApp) (GetSecrets True app) (app, fst st1);
           (_, app2, h2) = UpgradeIngress kc (\<lambda>_. False) (nil_list oldI) (nil_list newI) (nil_list oldB) (nil_list newB) (app1, h1)
       in Inr (h2, snd st1))))"

definition upgrade_monitors :: "deploy_env \<Rightarrow> app_service \<Rightarrow> deploy_state \<Rightarrow> deploy_state go" where
  "upgrade_monitors env app st = (if de_monitor_crd env \<and> de_monitor_client env
     then bind_go (deref (GetAppService (ServiceID app) (snd st))) (\<lambda>oldApp.
       let (_, _, h) = UpgradeServiceMonitor (de_client env) (\<lambda>_. False) (GetServiceMonitors True oldApp) (GetServiceMonitors True app) (app, fst st)
       in Inr (h, snd st))
     else Inr st)"

definition upgrade_steps :: "deploy_env \<Rightarrow> app_service \<Rightarrow> step list" where
  "upgrade_steps env app = (let kc = de_client env in
    [namespace_step kc app,
     api_step (apply_manifests kc ManifestErr (GetManifests app)),
     quiet_step (upgradeConfigMap kc app),
     api_step (try_each (\<lambda>d. try_call kc {Api_ok} DeploymentErr
       (Patch_obj DeploymentK (Namespace (d_meta d)) (Name (d_meta d)) (gm_str (UpgradePatch app) ''deployment''))) (opt_list (GetDeployment app))),
     ns_step app (create_each kc ClaimK ClaimErr) (GetClaimsManually app),
     api_step (try_each (\<lambda>s. try_call kc {Api_ok} StatefulSetErr
       (Patch_obj StatefulSetK (Namespace (s_meta s)) (Name (s_meta s)) (gm_str (UpgradePatch app) ''statefulset''))) (opt_list (GetStatefulSet app))),
     quiet_step (upgrade_rest env app),
     api_step (try_each (CreateOrUpdateSecret kc SecretErr) (GetEnvVarSecrets True app)),
     quiet_step (upgrade_monitors env app)])"

definition upgradeOne :: "deploy_env \<Rightarrow> app_service \<Rightarrow> wait_round list \<Rightarrow> deploy_state \<Rightarrow> deploy_result" where
  "upgradeOne env app rounds = then_wait (\<lambda>s. WaitUpgradeReady (GetAppService (ServiceID app) s) rounds) (upgrade_steps env app)"

text \<open>The configuration of the plugins is applied like the config maps of an upgrade.\<close>

definition apply_config :: "kube_client \<Rightarrow> app_service \<Rightarrow> deploy_state \<Rightarrow> deploy_state go" where
  "apply_config kc = upgradeConfigMap kc"


section \<open>What the steps do to the cluster\<close>

text \<open>
  A deleting operation removes the objects of \<open>must\<close> when it succeeds, and nothing outside \<open>may\<close> in any case.
\<close>

definition hist_effect :: "(api_key \<rightharpoonup> string) \<Rightarrow> api_key set \<Rightarrow> api_key set \<Rightarrow> (history \<Rightarrow> 'e option \<times> history) \<Rightarrow> bool" where
  "hist_effect m must may f \<longleftrightarrow> (\<forall>h e h'. f h = (e, h') \<longrightarrow>
     (\<forall>key. cluster m h' key = cluster m h key \<or> key \<in> may \<and> cluster m h' key = None) \<and>
     (e = None \<longrightarrow> (\<forall>key \<in> must. cluster m h' key = None)))"

definition step_effect :: "(api_key \<rightharpoonup> string) \<Rightarrow> api_key set \<Rightarrow> api_key set \<Rightarrow> step \<Rightarrow> bool" where
  "step_effect m must may f \<longleftrightarrow> (\<forall>h s e h' s'. f (h, s) = Inr (e, h', s') \<longrightarrow>
     (\<forall>key. cluster m h' key = cluster m h key \<or> key \<in> may \<and> cluster m h' key = None) \<and>
     (e = None \<longrightarrow> (\<forall>key \<in> must. cluster m h' key = None)))"

lemma hist_effectD:
  assumes "hist_effect m must may f" "f h = (e, h')"
  shows "cluster m h' key = cluster m h key \<or> key \<in> may \<and> cluster m h' key = None"
    and "e = None \<Longrightarrow> key \<in> must \<Longrightarrow> cluster m h' key = None"
  using assms unfolding hist_effect_def by blast+

lemma step_effectD:
  assumes "step_effect m must may f" "f (h, s) = Inr (e, h', s')"
  shows "cluster m h' key = cluster m h key \<or> key \<in> may \<and> cluster m h' key = None"
    and "e = None \<Longrightarrow> key \<in> must \<Longrightarrow> cluster m h' key = None"
  using assms unfolding step_effect_def by blast+

lemma hist_effectI:
  assumes "\<And>h e h' key. f h = (e, h') \<Longrightarrow> cluster m h' key = cluster m h key \<or> key \<in> may \<and> cluster m h' key = None"
    and "\<And>h h' key. f h = (None, h') \<Longrightarrow> key \<in> must \<Longrightarrow> cluster m h' key = None"
  shows "hist_effect m must may f"
  using assms unfolding hist_effect_def by blast

lemma step_effectI:
  assumes "\<And>h s e h' s' key. f (h, s) = Inr (e, h', s') \<Longrightarrow> cluster m h' key = cluster m h key \<or> key \<in> may \<and> cluster m h' key = None"
    and "\<And>h s h' s' key. f (h, s) = Inr (None, h', s') \<Longrightarrow> key \<in> must \<Longrightarrow> cluster m h' key = None"
  shows "step_effect m must may f"
  using assms unfolding step_effect_def by blast

lemma effect_trans:
  assumes "cluster m h1 key = cluster m h key \<or> key \<in> K \<and> cluster m h1 key = None"
    "cluster m h2 key = cluster m h1 key \<or> key \<in> L \<and> cluster m h2 key = None"
  shows "cluster m h2 key = cluster m h key \<or> key \<in> K \<union> L \<and> cluster m h2 key = None"
  using assms by auto

lemma try_each_effect:
  assumes "\<And>x. x \<in> set xs \<Longrightarrow> hist_effect m (K x) (K x) (f x)"
  shows "hist_effect m (\<Union>x \<in> set xs. K x) (\<Union>x \<in> set xs. K x) (try_each f xs)"
  using assms
proof (induction xs)
  case (Cons x xs)
  have IH: "hist_effect m (\<Union>x \<in> set xs. K x) (\<Union>x \<in> set xs. K x) (try_each f xs)" and fx: "hist_effect m (K x) (K x) (f x)"
    using Cons by auto
  show ?case
  proof (rule hist_effectI)
    fix h e h' key
    assume r: "try_each f (x # xs) h = (e, h')"
    obtain e1 h1 where s1: "f x h = (e1, h1)" by fastforce
    show "cluster m h' key = cluster m h key \<or> key \<in> (\<Union>x \<in> set (x # xs). K x) \<and> cluster m h' key = None"
    proof (cases e1)
      case None
      then have "try_each f xs h1 = (e, h')" using r s1 by simp
      then show ?thesis
        using effect_trans [OF hist_effectD(1) [OF fx s1] hist_effectD(1) [OF IH]] by auto
    next
      case (Some y)
      then show ?thesis using r s1 hist_effectD(1) [OF fx s1, of key] by auto
    qed
  next
    fix h h' key
    assume r: "try_each f (x # xs) h = (None, h')" and key: "key \<in> (\<Union>x \<in> set (x # xs). K x)"
    obtain h1 where s1: "f x h = (None, h1)" and s2: "try_each f xs h1 = (None, h')"
      using r by (auto split: prod.splits option.splits)
    show "cluster m h' key = None"
      using key hist_effectD(2) [OF fx s1, of key] hist_effectD [OF IH s2, of key] by auto
  qed
qed (simp add: hist_effect_def)

lemma run_steps_effect:
  assumes "list_all2 (\<lambda>(must, may) f. step_effect m must may f) ks fs"
  shows "step_effect m (\<Union>k \<in> set ks. fst k) (\<Union>k \<in> set ks. snd k) (run_steps fs)"
  using assms
proof (induction rule: list_all2_induct)
  case Nil
  then show ?case by (simp add: step_effect_def)
next
  case (Cons k ks f fs)
  obtain must may where k: "k = (must, may)" by fastforce
  have fx: "step_effect m must may f" using Cons.hyps(1) k by simp
  show ?case
  proof (rule step_effectI)
    fix h s e h' s' key
    assume r: "run_steps (f # fs) (h, s) = Inr (e, h', s')"
    obtain e1 h1 t1 where s1: "f (h, s) = Inr (e1, h1, t1)"
      using r by (cases "f (h, s)") auto
    show "cluster m h' key = cluster m h key \<or> key \<in> (\<Union>k \<in> set (k # ks). snd k) \<and> cluster m h' key = None"
    proof (cases e1)
      case None
      then have "run_steps fs (h1, t1) = Inr (e, h', s')" using r s1 by simp
      then show ?thesis
        using effect_trans [OF step_effectD(1) [OF fx s1] step_effectD(1) [OF Cons.IH]] k by auto
    next
      case (Some y)
      then show ?thesis using r s1 step_effectD(1) [OF fx s1, of key] k by auto
    qed
  next
    fix h s h' s' key
    assume r: "run_steps (f # fs) (h, s) = Inr (None, h', s')" and key: "key \<in> (\<Union>k \<in> set (k # ks). fst k)"
    obtain h1 t1 where s1: "f (h, s) = Inr (None, h1, t1)" and s2: "run_steps fs (h1, t1) = Inr (None, h', s')"
      using r by (auto simp: bind_go_eq_Inr split: option.splits)
    show "cluster m h' key = None"
      using key k step_effectD(2) [OF fx s1, of key] step_effectD [OF Cons.IH s2, of key] by auto
  qed
qed

lemma api_step_effect: "hist_effect m must may f \<Longrightarrow> step_effect m must may (api_step f)"
  unfolding step_effect_def hist_effect_def api_step_def by (simp split: prod.splits)


lemma ns_step_effect:
  assumes "tenantEnv app = Some t" "\<And>x. x \<in> set xs \<Longrightarrow> hist_effect m (K x) (K x) (f (obj_name t) x)"
  shows "step_effect m (\<Union>x \<in> set xs. K x) (\<Union>x \<in> set xs. K x) (ns_step app f xs)"
proof (cases "xs = []")
  case False
  then have "ns_step app f xs = api_step (try_each (f (obj_name t)) xs)"
    using assms(1) by (intro ext) (simp add: ns_step_def GetNamespace_def)
  then show ?thesis
    using api_step_effect [OF try_each_effect [OF assms(2)]] by simp
qed (simp add: ns_step_def step_effect_def)

text \<open>A call that deletes at most the objects of a set.\<close>

definition call_deletes :: "api_key set \<Rightarrow> api_call \<Rightarrow> bool" where
  "call_deletes K c \<longleftrightarrow> (\<forall>m key. api_effect c m key = m key \<or> key \<in> K \<and> api_effect c m key = None)"

lemma call_deletesI: "(\<And>m. api_effect c m = m(key := None)) \<Longrightarrow> key \<in> K \<Longrightarrow> call_deletes K c"
  unfolding call_deletes_def by (metis fun_upd_apply)

lemma call_deletes_cluster:
  assumes "call_deletes K c"
  shows "cluster m (h @ [(c, a)]) key = cluster m h key \<or> key \<in> K \<and> cluster m (h @ [(c, a)]) key = None"
proof (cases "a = Api_ok")
  case True
  then show ?thesis
    using assms [unfolded call_deletes_def, rule_format, of "cluster m h" key] by (simp add: cluster_snoc)
qed (simp add: cluster_snoc)

lemma delete_call_effect:
  assumes c: "\<And>m. api_effect c m = m(k := None)" and gone: "\<And>h. kc_answer kc h c = Not_found \<Longrightarrow> cluster m h k = None"
  shows "hist_effect m {k} {k} (delete_each kc e c)"
proof (rule hist_effectI)
  fix h e' h' key
  assume "delete_each kc e c h = (e', h')"
  then have "h' = h @ [(c, kc_answer kc h c)]"
    by (simp add: delete_each_def try_call_def api_pair)
  then show "cluster m h' key = cluster m h key \<or> key \<in> {k} \<and> cluster m h' key = None"
    using call_deletes_cluster [OF call_deletesI [OF c, of "{k}"], of m h "kc_answer kc h c" key] by simp
next
  fix h h' key
  assume r: "delete_each kc e c h = (None, h')" and key: "key \<in> {k}"
  have "kc_answer kc h c = Api_ok \<or> kc_answer kc h c = Not_found" "h' = h @ [(c, kc_answer kc h c)]"
    using r by (auto simp: delete_each_def try_call_def api_pair split: if_splits)
  then show "cluster m h' key = None"
    using key gone [of h] by (elim disjE) (simp_all add: cluster_snoc c)
qed

lemma delete_effect:
  "truthful kc m \<Longrightarrow> hist_effect m {(k, ns, n)} {(k, ns, n)} (delete_each kc e (Delete_obj k ns n))"
  by (rule delete_call_effect) (auto simp: truthful_def)

lemma delete_ext_effect:
  "truthful kc m \<Longrightarrow> hist_effect m {(BetaIngressK, ns, n)} {(BetaIngressK, ns, n)} (delete_each kc e (Delete_ext_ingress ns n))"
  by (rule delete_call_effect) (auto simp: truthful_def)

lemma delete_named_effect:
  assumes "truthful kc m" "tenantEnv app = Some t"
  shows "step_effect m (\<Union>x \<in> set (named xs). {(k, obj_name t, obj_name x)}) (\<Union>x \<in> set (named xs). {(k, obj_name t, obj_name x)})
    (delete_named kc k e app xs)"
  unfolding delete_named_def by (rule ns_step_effect [OF assms(2)]) (rule delete_effect [OF assms(1)])

text \<open>Deletions whose errors are logged.\<close>

lemma log_fold_effect:
  assumes "\<And>x. x \<in> set xs \<Longrightarrow> call_deletes K (c x)"
  shows "cluster m (fold (\<lambda>x. log_call kc (c x)) xs h) key = cluster m h key \<or>
    key \<in> K \<and> cluster m (fold (\<lambda>x. log_call kc (c x)) xs h) key = None"
  using assms
proof (induction xs arbitrary: h)
  case (Cons x xs)
  have "cluster m (log_call kc (c x) h) key = cluster m h key \<or> key \<in> K \<and> cluster m (log_call kc (c x) h) key = None"
    using call_deletes_cluster [OF Cons.prems [of x], of m h "kc_answer kc h (c x)" key] by (simp add: log_call_def api_pair)
  then show ?case
    using Cons.IH [of "log_call kc (c x) h"] Cons.prems by auto
qed simp

lemma log_step_effect:
  assumes "\<And>x. x \<in> set xs \<Longrightarrow> call_deletes K (c x)"
  shows "step_effect m {} K (log_step kc c xs)"
  unfolding log_step_def
proof (intro api_step_effect hist_effectI)
  fix h e h' key
  assume "(None, fold (\<lambda>x. log_call kc (c x)) xs h) = (e, h')"
  then show "cluster m h' key = cluster m h key \<or> key \<in> K \<and> cluster m h' key = None"
    using log_fold_effect [of xs K c m kc h key] assms by simp
qed simp

section \<open>Stopping a component\<close>

text \<open>The objects that a stop removes, and those whose removal it only tries.\<close>

definition keys_in :: "string \<Rightarrow> api_kind \<Rightarrow> named_obj list \<Rightarrow> api_key set" where
  "keys_in ns k xs = (\<Union>x \<in> set (named xs). {(k, ns, obj_name x)})"

definition stop_sets :: "deploy_env \<Rightarrow> app_service \<Rightarrow> string \<Rightarrow> api_key set list" where
  "stop_sets env app ns =
    [keys_in ns ServiceK (services app), keys_in ns SecretK (secrets app),
     if de_high env then keys_in ns IngressK (ingresses app) else keys_in ns BetaIngressK (betaIngresses app),
     keys_in ns ConfigMapK (configMaps app),
     (\<Union>x \<in> set (opt_list (statefulset app)). {(StatefulSetK, ns, Name (s_meta x))}),
     (\<Union>x \<in> set (filter (\<lambda>d. Name (d_meta d) \<noteq> []) (opt_list (deployment app))). {(DeploymentK, ns, Name (d_meta x))}),
     (\<Union>n \<in> set (filter (\<lambda>n. n \<noteq> []) (map pod_name (pods app))). {(PodK, ns, n)}),
     (\<Union>x \<in> set (hpas app). {key_of HpaK x})]"

definition tried_keys :: "app_service \<Rightarrow> api_key set" where
  "tried_keys app = manifest_key ` set (manifests app) \<union> workload_key ` set (opt_list (workload app)) \<union>
     key_of MonitorK ` set (serviceMonitor app)"

lemma delete_ingresses_effect:
  assumes "truthful (de_client env) m" "tenantEnv app = Some t"
  shows "let K = (if de_high env then keys_in (obj_name t) IngressK (ingresses app) else keys_in (obj_name t) BetaIngressK (betaIngresses app))
    in step_effect m K K (delete_ingresses env app)"
proof (cases "de_high env")
  case True
  then show ?thesis
    using delete_named_effect [OF assms] by (simp add: delete_ingresses_def GetIngress_def keys_in_def)
next
  case False
  have "step_effect m (\<Union>x \<in> set (named (betaIngresses app)). {(BetaIngressK, obj_name t, obj_name x)})
      (\<Union>x \<in> set (named (betaIngresses app)). {(BetaIngressK, obj_name t, obj_name x)})
      (ns_step app (\<lambda>ns x. delete_each (de_client env) IngressErr (Delete_ext_ingress ns (obj_name x))) (named (betaIngresses app)))"
    by (rule ns_step_effect [OF assms(2)]) (rule delete_ext_effect [OF assms(1)])
  then show ?thesis
    using False by (simp add: delete_ingresses_def GetIngress_def keys_in_def)
qed

text \<open>A deletion followed by a change of the store.\<close>

lemma store_step_effect:
  assumes "hist_effect m K K f" "\<And>h s. g (h, s) = (case f h of (Some e, h') \<Rightarrow> Inr (Some e, h', s)
      | (None, h') \<Rightarrow> bind_go (upd s) (\<lambda>s'. Inr (None, h', s')))"
  shows "step_effect m K K g"
proof (rule step_effectI)
  fix h s e h' s' key
  assume r: "g (h, s) = Inr (e, h', s')"
  have "\<exists>e. f h = (e, h')"
    using r unfolding assms(2) by (auto simp: bind_go_eq_Inr split: prod.splits option.splits)
  then show "cluster m h' key = cluster m h key \<or> key \<in> K \<and> cluster m h' key = None"
    using hist_effectD(1) [OF assms(1)] by blast
next
  fix h s h' s' key
  assume r: "g (h, s) = Inr (None, h', s')" and key: "key \<in> K"
  have "f h = (None, h')"
    using r unfolding assms(2) by (auto simp: bind_go_eq_Inr split: prod.splits option.splits)
  then show "cluster m h' key = None"
    using hist_effectD(2) [OF assms(1) _ refl key] by blast
qed


lemma delete_statefulset_effect:
  assumes "truthful (de_client env) m" "tenantEnv app = Some t"
  shows "let K = (\<Union>x \<in> set (opt_list (statefulset app)). {(StatefulSetK, obj_name t, Name (s_meta x))})
    in step_effect m K K (delete_statefulset env app)"
proof (cases "statefulset app")
  case None
  then show ?thesis by (simp add: delete_statefulset_def GetStatefulSet_def opt_list_def step_effect_def)
next
  case (Some x)
  have "step_effect m {(StatefulSetK, obj_name t, Name (s_meta x))} {(StatefulSetK, obj_name t, Name (s_meta x))} (delete_statefulset env app)"
    using Some assms(2)
    by (intro store_step_effect [OF delete_effect [OF assms(1), where e = StatefulSetErr], where upd = "OnDeletes (de_store_env env) [KStatefulSet x]"])
      (simp add: delete_statefulset_def GetStatefulSet_def GetNamespace_def split: prod.splits option.splits)
  then show ?thesis
    using Some by (simp add: opt_list_def)
qed

lemma delete_deployment_effect:
  assumes "truthful (de_client env) m" "tenantEnv app = Some t"
  shows "let K = (\<Union>x \<in> set (filter (\<lambda>d. Name (d_meta d) \<noteq> []) (opt_list (deployment app))). {(DeploymentK, obj_name t, Name (d_meta x))})
    in step_effect m K K (delete_deployment env app)"
proof (cases "deployment app")
  case None
  then show ?thesis by (simp add: delete_deployment_def GetDeployment_def opt_list_def step_effect_def)
next
  case (Some x)
  show ?thesis
  proof (cases "Name (d_meta x) = []")
    case True
    then show ?thesis
      using Some by (simp add: delete_deployment_def GetDeployment_def opt_list_def step_effect_def)
  next
    case False
    then have "step_effect m {(DeploymentK, obj_name t, Name (d_meta x))} {(DeploymentK, obj_name t, Name (d_meta x))} (delete_deployment env app)"
      using Some assms(2)
      by (intro store_step_effect [OF delete_effect [OF assms(1), where e = DeploymentErr], where upd = "OnDeletes (de_store_env env) [KDeployment x]"])
        (simp add: delete_deployment_def GetDeployment_def GetNamespace_def split: prod.splits option.splits)
    then show ?thesis
      using Some False by (simp add: opt_list_def)
  qed
qed

lemma tried_deletes:
  "x \<in> set (manifests app) \<Longrightarrow> call_deletes (tried_keys app) (Delete_manifest x)"
  "w \<in> set (opt_list (workload app)) \<Longrightarrow> call_deletes (tried_keys app) (Delete_workload w)"
  "y \<in> set (monitors env app) \<Longrightarrow> call_deletes (tried_keys app) (delete_of MonitorK y)"
proof -
  show "x \<in> set (manifests app) \<Longrightarrow> call_deletes (tried_keys app) (Delete_manifest x)"
    by (rule call_deletesI [where key = "manifest_key x"]) (simp_all add: tried_keys_def)
  show "w \<in> set (opt_list (workload app)) \<Longrightarrow> call_deletes (tried_keys app) (Delete_workload w)"
    by (rule call_deletesI [where key = "workload_key w"]) (simp_all add: tried_keys_def)
  show "y \<in> set (monitors env app) \<Longrightarrow> call_deletes (tried_keys app) (delete_of MonitorK y)"
    by (rule call_deletesI [where key = "key_of MonitorK y"])
      (auto simp: tried_keys_def delete_of_def key_of_def monitors_def GetServiceMonitors_def split: if_splits)
qed

lemma GetConfigMaps_eq: "GetConfigMaps app = configMaps app"
  by (simp add: GetConfigMaps_def)

lemma stop_steps_effect:
  assumes tr: "truthful (de_client env) m" and t: "tenantEnv app = Some t"
  shows "step_effect m (\<Union>(set (stop_sets env app (obj_name t)))) (\<Union>(set (stop_sets env app (obj_name t))) \<union> tried_keys app)
    (run_steps (stop_steps env app))"
proof -
  let ?S = "\<lambda>i. stop_sets env app (obj_name t) ! i"
  let ?ks = "[(?S 0, ?S 0), (?S 1, ?S 1), (?S 2, ?S 2), (?S 3, ?S 3), ({}, tried_keys app), ({}, tried_keys app), (?S 4, ?S 4), (?S 5, ?S 5), (?S 6, ?S 6),
    (?S 7, ?S 7), ({}, tried_keys app)]"
  note del = delete_named_effect [OF tr t, folded keys_in_def]
  have pods: "step_effect m (?S 6) (?S 6) (ns_step app (\<lambda>ns n. delete_each (de_client env) PodErr (Delete_obj PodK ns n))
      (filter (\<lambda>n. n \<noteq> []) (map pod_name (GetPods True app))))"
    using ns_step_effect [OF t, where K = "\<lambda>n. {(PodK, obj_name t, n)}"
        and f = "\<lambda>ns n. delete_each (de_client env) PodErr (Delete_obj PodK ns n)" and xs = "filter (\<lambda>n. n \<noteq> []) (map pod_name (pods app))"]
      delete_effect [OF tr] by (simp add: stop_sets_def GetPods_def)
  have hpa: "step_effect m (?S 7) (?S 7) (api_step (try_each (\<lambda>x. delete_each (de_client env) HpaErr (delete_of HpaK x)) (GetHPAs app)))"
    using api_step_effect [OF try_each_effect [where K = "\<lambda>x. {key_of HpaK x}"]] delete_effect [OF tr]
    by (simp add: stop_sets_def GetHPAs_def delete_of_def key_of_def)
  have wl: "step_effect m {} (tried_keys app) (log_step (de_client env) Delete_workload (opt_list (workload app)))"
    by (rule log_step_effect) (rule tried_deletes)
  have mon: "step_effect m {} (tried_keys app) (log_step (de_client env) (delete_of MonitorK) (monitors env app))"
    by (rule log_step_effect) (rule tried_deletes)
  have man: "step_effect m {} (tried_keys app) (log_step (de_client env) Delete_manifest (manifests app))"
    by (rule log_step_effect) (rule tried_deletes)
  have "list_all2 (\<lambda>(must, may) f. step_effect m must may f) ?ks (stop_steps env app)"
    using del [of ServiceK "services app" ServiceErr] del [of SecretK "secrets app" SecretErr] del [of ConfigMapK "configMaps app" ConfigMapErr]
      delete_ingresses_effect [OF tr t] delete_statefulset_effect [OF tr t] delete_deployment_effect [OF tr t] pods hpa wl mon man
    by (simp add: stop_steps_def Let_def stop_sets_def GetServices_def GetSecrets_def GetConfigMaps_eq GetManifests_def GetWorkload_def numeral_eq_Suc)
  then have "step_effect m (\<Union>k \<in> set ?ks. fst k) (\<Union>k \<in> set ?ks. snd k) (run_steps (stop_steps env app))"
    by (rule run_steps_effect)
  moreover have "(\<Union>k \<in> set ?ks. fst k) = \<Union>(set (stop_sets env app (obj_name t)))"
      "(\<Union>k \<in> set ?ks. snd k) = \<Union>(set (stop_sets env app (obj_name t))) \<union> tried_keys app"
    by (simp_all add: stop_sets_def numeral_eq_Suc Un_ac)
  ultimately show ?thesis
    by simp
qed

text \<open>
  C10: A stop that reports success has removed the services, secrets, ingresses, config maps, workloads, pods and autoscalers of the
  component from the cluster. Every other object is what it was, except that the objects of the component's own manifests, its workload
  object and its own service monitors may be gone: their removal is tried, and an error is only logged.
\<close>

theorem stop_removes_objects:
  assumes "truthful (de_client env) m" "tenantEnv app = Some t" "stopOne env app rounds (h, s) = Some (Inr (None, h', s'))"
  shows "(\<forall>key \<in> \<Union>(set (stop_sets env app (obj_name t))). cluster m h' key = None) \<and>
    (\<forall>key. key \<notin> \<Union>(set (stop_sets env app (obj_name t))) \<longrightarrow>
       cluster m h' key = cluster m h key \<or> key \<in> tried_keys app \<and> cluster m h' key = None)"
proof -
  have "run_steps (stop_steps env app) (h, s) = Inr (None, h', s')"
    using assms(3) by (auto simp: stopOne_def then_wait_def bind_go_eq_Inr split: sum.splits option.splits prod.splits)
  then show ?thesis
    using step_effectD [OF stop_steps_effect [OF assms(1,2)]] by blast
qed

section \<open>Starting a component\<close>

text \<open>
  What the API promises: an object that exists is not created again.
\<close>

definition creates_fresh :: "kube_client \<Rightarrow> (api_key \<rightharpoonup> string) \<Rightarrow> bool" where
  "creates_fresh kc m \<longleftrightarrow> (\<forall>h.
     (\<forall>k ns x. cluster m h (k, ns, obj_name x) \<noteq> None \<longrightarrow> kc_answer kc h (Create_obj k ns x) \<noteq> Api_ok) \<and>
     (\<forall>ns x. cluster m h (StatefulSetK, ns, Name (s_meta x)) \<noteq> None \<longrightarrow> kc_answer kc h (Create_sts ns x) \<noteq> Api_ok) \<and>
     (\<forall>ns x. cluster m h (DeploymentK, ns, Name (d_meta x)) \<noteq> None \<longrightarrow> kc_answer kc h (Create_dep ns x) \<noteq> Api_ok))"

text \<open>Calls, loops and steps that keep a property of the history.\<close>

definition call_keeps :: "kube_client \<Rightarrow> (history \<Rightarrow> bool) \<Rightarrow> api_call \<Rightarrow> bool" where
  "call_keeps kc P c \<longleftrightarrow> (\<forall>h. P h \<longrightarrow> P (h @ [(c, kc_answer kc h c)]))"

definition hist_keeps :: "(history \<Rightarrow> bool) \<Rightarrow> (history \<Rightarrow> 'e option \<times> history) \<Rightarrow> bool" where
  "hist_keeps P f \<longleftrightarrow> (\<forall>h. P h \<longrightarrow> P (snd (f h)))"

definition step_keeps :: "(history \<Rightarrow> bool) \<Rightarrow> step \<Rightarrow> bool" where
  "step_keeps P f \<longleftrightarrow> (\<forall>h s e h' s'. P h \<longrightarrow> f (h, s) = Inr (e, h', s') \<longrightarrow> P h')"

lemma call_keepsD: "call_keeps kc P c \<Longrightarrow> P h \<Longrightarrow> P (h @ [(c, kc_answer kc h c)])"
  by (simp add: call_keeps_def)

lemma api_keeps: "call_keeps kc P c \<Longrightarrow> api kc c h = (a, h') \<Longrightarrow> P h \<Longrightarrow> P h'"
  using call_keepsD by (auto simp: api_eq)

lemma try_call_keeps: "call_keeps kc P c \<Longrightarrow> hist_keeps P (try_call kc good e c)"
  by (simp add: hist_keeps_def try_call_def api_pair call_keepsD)

lemma try_each_keeps: "(\<And>x. x \<in> set xs \<Longrightarrow> hist_keeps P (f x)) \<Longrightarrow> hist_keeps P (try_each f xs)"
proof (induction xs)
  case (Cons x xs)
  show ?case
    unfolding hist_keeps_def
  proof (intro allI impI)
    fix h
    assume "P h"
    obtain e h1 where f: "f x h = (e, h1)" by fastforce
    then have "P h1"
      using Cons.prems [of x] \<open>P h\<close> by (metis hist_keeps_def list.set_intros(1) snd_conv)
    then show "P (snd (try_each f (x # xs) h))"
      using f Cons by (cases e) (auto simp: hist_keeps_def)
  qed
qed (simp add: hist_keeps_def)

lemma api_step_keeps: "hist_keeps P f \<Longrightarrow> step_keeps P (api_step f)"
  by (auto simp: hist_keeps_def step_keeps_def api_step_def split: prod.splits)

lemma step_keepsD: "step_keeps P f \<Longrightarrow> P h \<Longrightarrow> f (h, s) = Inr (e, h', s') \<Longrightarrow> P h'"
  unfolding step_keeps_def by blast

lemma ns_step_keeps: "(\<And>ns x. hist_keeps P (f ns x)) \<Longrightarrow> step_keeps P (ns_step app f xs)"
proof -
  assume f: "\<And>ns x. hist_keeps P (f ns x)"
  have "step_keeps P (api_step (try_each (f ns) xs))" for ns
    by (rule api_step_keeps [OF try_each_keeps]) (rule f)
  then show ?thesis
    unfolding step_keeps_def ns_step_def by (auto simp: bind_go_eq_Inr split: if_splits; blast)
qed

lemma run_steps_keeps: "(\<And>f. f \<in> set fs \<Longrightarrow> step_keeps P f) \<Longrightarrow> step_keeps P (run_steps fs)"
proof (induction fs)
  case (Cons f fs)
  have f: "step_keeps P f" and fs: "step_keeps P (run_steps fs)"
    using Cons by auto
  show ?case
    unfolding step_keeps_def
  proof (intro allI impI)
    fix h s e h' s'
    assume h: "P h" and r: "run_steps (f # fs) (h, s) = Inr (e, h', s')"
    obtain e1 h1 t1 where s1: "f (h, s) = Inr (e1, h1, t1)"
      using r by (cases "f (h, s)") auto
    then have "P h1"
      using f h unfolding step_keeps_def by blast
    then show "P h'"
      using r s1 step_keepsD [OF fs] by (cases e1) auto
  qed
qed (simp add: step_keeps_def)

lemma fold_log_keeps: "(\<And>x. call_keeps kc P (c x)) \<Longrightarrow> P h \<Longrightarrow> P (fold (\<lambda>x. log_call kc (c x)) xs h)"
  by (induction xs arbitrary: h) (simp_all add: log_call_def api_pair call_keepsD)

lemma log_step_keeps: "(\<And>x. call_keeps kc P (c x)) \<Longrightarrow> step_keeps P (log_step kc c xs)"
  unfolding log_step_def by (intro api_step_keeps) (simp add: hist_keeps_def fold_log_keeps)


text \<open>An object that is not a service stays what it is.\<close>

definition holds :: "(api_key \<rightharpoonup> string) \<Rightarrow> api_key \<Rightarrow> string \<Rightarrow> history \<Rightarrow> bool" where
  "holds m key d h \<longleftrightarrow> cluster m h key = Some d"

lemma upd_call_keeps:
  assumes "\<And>m. api_effect c m = m(k \<mapsto> v)" "\<And>h. cluster m h k \<noteq> None \<Longrightarrow> kc_answer kc h c \<noteq> Api_ok"
  shows "call_keeps kc (holds m key d) c"
  unfolding call_keeps_def holds_def
proof (intro allI impI)
  fix h
  assume h: "cluster m h key = Some d"
  show "cluster m (h @ [(c, kc_answer kc h c)]) key = Some d"
  proof (cases "kc_answer kc h c = Api_ok")
    case True
    then have "key \<noteq> k"
      using assms(2) [of h] h by auto
    then show ?thesis
      using True h by (simp add: cluster_snoc assms(1))
  qed (simp add: cluster_snoc h)
qed

lemma create_keeps: "creates_fresh kc m \<Longrightarrow> call_keeps kc (holds m key d) (Create_obj k ns x)"
  by (rule upd_call_keeps) (auto simp: creates_fresh_def)

lemma create_sts_keeps: "creates_fresh kc m \<Longrightarrow> call_keeps kc (holds m key d) (Create_sts ns x)"
  by (rule upd_call_keeps) (auto simp: creates_fresh_def)

lemma create_dep_keeps: "creates_fresh kc m \<Longrightarrow> call_keeps kc (holds m key d) (Create_dep ns x)"
  by (rule upd_call_keeps) (auto simp: creates_fresh_def)

lemma service_update_keeps: "fst key \<noteq> ServiceK \<Longrightarrow> call_keeps kc (holds m key d) (Update_obj ServiceK ns x)"
  unfolding call_keeps_def holds_def by (auto simp: cluster_snoc apply_call_def)

lemma no_effect_keeps: "(\<And>m. api_effect c m = m) \<Longrightarrow> call_keeps kc (holds m key d) c"
  unfolding call_keeps_def holds_def by (simp add: cluster_snoc apply_call_def)

lemma create_services_keeps:
  assumes "creates_fresh kc m" "fst key \<noteq> ServiceK"
  shows "hist_keeps (holds m key d) (CreateKubeService kc ns xs e)"
proof -
  let ?P = "holds m key d"
  note c = api_keeps [OF create_keeps [OF assms(1)]] and u = api_keeps [OF service_update_keeps [OF assms(2)]]
  have one: "?P (snd st) \<Longrightarrow> ?P (snd (create_service kc ns st x))" for st x
    by (cases st) (auto simp: create_service_def Let_def split: prod.splits intro: c u)
  have "?P (snd st) \<Longrightarrow> ?P (snd (foldl (create_service kc ns) st xs))" for st
    by (induction xs arbitrary: st) (simp_all add: one)
  then have loop: "?P h \<Longrightarrow> foldl (create_service kc ns) ([], h) xs = (ys, h1) \<Longrightarrow> ?P h1" for h ys h1
    by (metis snd_conv)
  have "hist_keeps ?P (try_each (\<lambda>x. try_call kc {Api_ok, Already_exists} e (Create_obj ServiceK ns x)) ys)" for ys
    by (rule try_each_keeps) (rule try_call_keeps [OF create_keeps [OF assms(1)]])
  then show ?thesis
    using loop unfolding hist_keeps_def CreateKubeService_def by (simp split: prod.splits)
qed

lemma start_steps_keep:
  assumes fr: "creates_fresh (de_client env) m" and key: "fst key \<noteq> ServiceK" and other: "key \<notin> manifest_key ` set (manifests app)"
  shows "step_keeps (holds m key d) (run_steps (start_steps env app))"
proof (rule run_steps_keeps)
  fix f
  let ?kc = "de_client env" and ?P = "holds m key d"
  have create: "hist_keeps ?P (create_each ?kc k e ns x)" for k e ns x
    unfolding create_each_def by (rule try_call_keeps [OF create_keeps [OF fr]])
  have ns: "step_keeps ?P (namespace_step ?kc app)"
  proof -
    have g: "api ?kc (Get_obj k n x) h = (a, h') \<Longrightarrow> ?P h \<Longrightarrow> ?P h'" for k n x h a h'
      by (rule api_keeps [OF no_effect_keeps]) simp_all
    have "hist_keeps ?P (check_namespace ?kc NamespaceErr n x)" for n x
      by (auto simp: hist_keeps_def check_namespace_def try_call_def split: prod.splits intro: g api_keeps [OF create_keeps [OF fr]])
    then show ?thesis
      using api_step_keeps unfolding step_keeps_def namespace_step_def by (auto simp: bind_go_eq_Inr; blast)
  qed
  have svc: "step_keeps ?P (create_services ?kc app)"
    using api_step_keeps [OF create_services_keeps [OF fr key]] unfolding step_keeps_def create_services_def
    by (auto simp: bind_go_eq_Inr Let_def split: if_splits; blast)
  have "call_keeps ?kc ?P (Apply_manifest x c)" if "x \<in> set (manifests app)" for x c
    using that other by (auto simp: call_keeps_def holds_def cluster_snoc apply_call_def)
  then have one: "hist_keeps ?P (\<lambda>h. try_call ?kc {Api_ok} ManifestErr (Apply_manifest x (kc_applied ?kc h x)) h)" if "x \<in> set (manifests app)" for x
    using that by (simp add: hist_keeps_def try_call_def api_pair call_keepsD)
  have man: "hist_keeps ?P (apply_manifests ?kc ManifestErr (GetManifests app))"
    using try_each_keeps [of "manifests app", OF one] by (simp add: hist_keeps_def apply_manifests_def GetManifests_def)
  assume "f \<in> set (start_steps env app)"
  then show "step_keeps ?P f"
    by (auto simp: start_steps_def Let_def ns svc man split: prod.splits
        intro!: ns_step_keeps create api_step_keeps try_each_keeps log_step_keeps try_call_keeps create_keeps create_sts_keeps create_dep_keeps fr)
qed


text \<open>
  C33: A restart does not bring new contents to an object that a stop leaves alone: the secrets of the configuration groups and the
  volume claims keep what they had, because the stop does not delete them and the start takes an existing object for a created one. The objects of
  the manifests of the component are excepted: a start applies them anew.
\<close>

theorem restart_keeps_leftovers:
  assumes tr: "truthful (de_client env) m" and fr: "creates_fresh (de_client env) m" and t: "tenantEnv app = Some t"
    and key: "key \<notin> \<Union>(set (stop_sets env app (obj_name t)))" "key \<notin> tried_keys app" "fst key \<noteq> ServiceK"
    and other: "\<forall>new. init (ServiceID app) (ExtensionSet app) = Some new \<longrightarrow> key \<notin> manifest_key ` set (manifests new)"
    and before: "cluster m h key = Some d"
    and r: "restartOne init env app rounds rounds' (h, s) = Some (Inr (e, h', s'))"
  shows "cluster m h' key = Some d"
proof -
  have stop: "holds m key d h1" if st: "run_steps (stop_steps env app) (h, s) = Inr (e1, h1, s1)" for e1 h1 s1
    using step_effectD(1) [OF stop_steps_effect [OF tr t] st, of key] key before by (auto simp: holds_def)
  note start = step_keepsD [OF start_steps_keep [OF fr key(3)]]
  obtain e1 h1 s1 where one: "stopOne env app rounds (h, s) = Some (Inr (e1, h1, s1))"
    using r by (auto simp: restartOne_def split: option.splits sum.splits)
  have h1: "holds m key d h1"
    using one stop by (auto simp: stopOne_def then_wait_def bind_go_eq_Inr split: sum.splits option.splits prod.splits)
  have "holds m key d h'"
  proof (cases "h' = h1")
    case False
    obtain new e2 where new: "init (ServiceID app) (ExtensionSet app) = Some new"
        and "startOne env new rounds' (h1, RegistAppService new s1) = Some (Inr (e2, h', s'))"
      using r one False by (auto simp: restartOne_def bind_go_eq_Inr split: if_splits option.splits sum.splits)
    then show ?thesis
      using start [OF other [rule_format, OF new] h1] by (auto simp: startOne_def then_wait_def bind_go_eq_Inr split: sum.splits option.splits prod.splits)
  qed (simp add: h1)
  then show ?thesis
    by (simp add: holds_def)
qed


section \<open>Witnesses\<close>

text \<open>A server that answers by the state of the cluster.\<close>

definition honest_answer :: "(api_key \<rightharpoonup> string) \<Rightarrow> history \<Rightarrow> api_call \<Rightarrow> api_answer" where
  "honest_answer m h c = (let has = (\<lambda>key. cluster m h key \<noteq> None) in case c of
       Create_obj k ns x \<Rightarrow> if has (k, ns, obj_name x) then Already_exists else Api_ok
     | Create_sts ns x \<Rightarrow> if has (StatefulSetK, ns, Name (s_meta x)) then Already_exists else Api_ok
     | Create_dep ns x \<Rightarrow> if has (DeploymentK, ns, Name (d_meta x)) then Already_exists else Api_ok
     | Delete_obj k ns n \<Rightarrow> if has (k, ns, n) then Api_ok else Not_found
     | Delete_ext_ingress ns n \<Rightarrow> if has (BetaIngressK, ns, n) then Api_ok else Not_found
     | _ \<Rightarrow> Api_ok)"

definition honest_env :: "(api_key \<rightharpoonup> string) \<Rightarrow> deploy_env" where
  "honest_env m = \<lparr>de_client = (demo_client (\<lambda>c. Api_ok))\<lparr>kc_answer := honest_answer m\<rparr>, de_high = True, de_monitor_crd = False,
     de_monitor_client = False, de_store_env = sample_env (sample_db []), de_merge = (\<lambda>old new. new)\<rparr>"

lemma honest: "truthful (de_client (honest_env m)) m" "creates_fresh (de_client (honest_env m)) m"
  by (auto simp: truthful_def creates_fresh_def honest_env_def honest_answer_def Let_def)

definition demo_cluster :: "api_key \<rightharpoonup> string" where
  "demo_cluster = [(ServiceK, ''ns1'', ''web'') \<mapsto> ''80'', (SecretK, ''ns1'', ''tls'') \<mapsto> ''k'', (SecretK, ''ns1'', ''group'') \<mapsto> ''old'']"

definition demo_app :: "string \<Rightarrow> app_service" where
  "demo_app d = zero_app\<lparr>ServiceID := ''s1'', tenantEnv := Some (sample_obj ''ns1'' []), services := [sample_obj ''web'' ''80''],
     secrets := [sample_obj ''tls'' ''k''], envVarSecrets := [sample_obj ''group'' d],
     manifests := [\<lparr>mf_kind = OtherK ''Canvas'', mf_obj = sample_obj ''web'' []\<rparr>]\<rparr>"

lemmas demo_run = stopOne_def startOne_def restartOne_def then_wait_def stop_steps_def start_steps_def delete_named_def delete_ingresses_def
  delete_statefulset_def delete_deployment_def log_step_def api_step_def ns_step_def delete_each_def create_each_def try_call_def api_pair
  honest_env_def honest_answer_def demo_cluster_def demo_app_def sample_defs GetServices_def GetSecrets_def GetConfigMaps_def GetIngress_def
  GetStatefulSet_def GetDeployment_def GetPods_def GetHPAs_def GetWorkload_def GetManifests_def opt_list_def monitors_def named_def
  GetNamespace_def WaitStop_def GetAppService_def NewStore_def cluster_def apply_call_def demo_client_def Let_def manifest_key_def key_of_def

theorem stop_removes_objects_witness:
  "\<exists>h'. stopOne (honest_env demo_cluster) (demo_app ''new'') [] ([], NewStore) = Some (Inr (None, h', NewStore)) \<and>
     cluster demo_cluster h' (ServiceK, ''ns1'', ''web'') = None \<and> cluster demo_cluster h' (SecretK, ''ns1'', ''group'') = Some ''old''"
proof -
  have "\<exists>h'. stopOne (honest_env demo_cluster) (demo_app ''new'') [] ([], NewStore) = Some (Inr (None, h', NewStore))"
    by (simp add: demo_run)
  then obtain h' where r: "stopOne (honest_env demo_cluster) (demo_app ''new'') [] ([], NewStore) = Some (Inr (None, h', NewStore))"
    by blast
  have t: "tenantEnv (demo_app ''new'') = Some (sample_obj ''ns1'' [])"
    by (simp add: demo_app_def)
  have "(ServiceK, ''ns1'', ''web'') \<in> \<Union>(set (stop_sets (honest_env demo_cluster) (demo_app ''new'') (obj_name (sample_obj ''ns1'' []))))"
    "(SecretK, ''ns1'', ''group'') \<notin> \<Union>(set (stop_sets (honest_env demo_cluster) (demo_app ''new'') (obj_name (sample_obj ''ns1'' []))))"
    "(SecretK, ''ns1'', ''group'') \<notin> tried_keys (demo_app ''new'')"
    by (auto simp: stop_sets_def keys_in_def demo_app_def named_def opt_list_def honest_env_def sample_defs tried_keys_def manifest_key_def key_of_def)
  moreover have "cluster demo_cluster [] (SecretK, ''ns1'', ''group'') = Some ''old''"
    by (simp add: demo_cluster_def)
  ultimately show ?thesis
    using stop_removes_objects [OF honest(1) t r] r by metis
qed

theorem restart_keeps_leftovers_witness:
  "\<exists>h' s'. restartOne (\<lambda>sid cfg. Some (demo_app ''new'')) (honest_env demo_cluster) (demo_app ''old'') [] [sample_round WaitTimer] ([], NewStore)
       = Some (Inr (None, h', s')) \<and> cluster demo_cluster h' (SecretK, ''ns1'', ''group'') = Some ''old''"
proof -
  have "\<exists>h' s'. restartOne (\<lambda>sid cfg. Some (demo_app ''new'')) (honest_env demo_cluster) (demo_app ''old'') [] [sample_round WaitTimer] ([], NewStore)
       = Some (Inr (None, h', s'))"
    by (simp add: demo_run namespace_step_def GetTenantEnv_def check_namespace_def apply_manifests_def GetClaimsManually_def
        create_services_def CreateKubeService_def create_service_def GetEnvVarSecrets_def unversioned_def nil_list_def
        WaitReady_def sample_round_def RegistAppService_def)
  then obtain h' s' where r: "restartOne (\<lambda>sid cfg. Some (demo_app ''new'')) (honest_env demo_cluster) (demo_app ''old'') [] [sample_round WaitTimer] ([], NewStore)
       = Some (Inr (None, h', s'))"
    by blast
  have t: "tenantEnv (demo_app ''old'') = Some (sample_obj ''ns1'' [])"
    by (simp add: demo_app_def)
  have "(SecretK, ''ns1'', ''group'') \<notin> \<Union>(set (stop_sets (honest_env demo_cluster) (demo_app ''old'') (obj_name (sample_obj ''ns1'' []))))"
    "(SecretK, ''ns1'', ''group'') \<notin> tried_keys (demo_app ''old'')" "fst (SecretK, ''ns1'', ''group'') \<noteq> ServiceK"
    "\<forall>new. (\<lambda>sid cfg. Some (demo_app ''new'')) (ServiceID (demo_app ''old'')) (ExtensionSet (demo_app ''old'')) = Some new \<longrightarrow>
       (SecretK, ''ns1'', ''group'') \<notin> manifest_key ` set (manifests new)"
    "cluster demo_cluster [] (SecretK, ''ns1'', ''group'') = Some ''old''"
    by (auto simp: stop_sets_def keys_in_def demo_app_def named_def opt_list_def honest_env_def sample_defs tried_keys_def manifest_key_def
        key_of_def demo_cluster_def)
  then have "cluster demo_cluster h' (SecretK, ''ns1'', ''group'') = Some ''old''"
    by (rule restart_keeps_leftovers [OF honest t _ _ _ _ _ r])
  then show ?thesis
    using r by blast
qed

end
