(* ===== verification/Upgrade_Patch.thy ===== *)
theory Upgrade_Patch
  imports App_Status
begin

text \<open>
  The patch that an upgrade sends to the cluster
  (\<^verbatim>\<open>src/worker/appm/types/v1/patch.go\<close>): the JSON documents of the old and the new workload are decoded
  into nodes, compared field by field, and the differences are printed as a merge patch.

  Documents are trees: an object with the documents of its fields, any other text as it is. The
  encoder writes equal trees as equal texts, so that comparing bodies is comparing trees.
\<close>

section \<open>Nodes\<close>

datatype json = Raw string | Object "(string \<times> json) list"

text \<open>A nil slice or map is \<open>None\<close>.\<close>

datatype encode_node = Node (en_body: "json option") (en_value: "json option") (en_Field: "(string \<times> encode_node) list option")

definition zero_node :: encode_node where
  "zero_node = Node None None None"

fun UnmarshalJSON :: "json \<Rightarrow> encode_node" where
  "UnmarshalJSON (Raw t) = Node (Some (Raw t)) (if t = [] then None else Some (Raw t)) None"
| "UnmarshalJSON (Object fs) = Node (Some (Object fs)) None (Some (map (\<lambda>(k, v). (k, UnmarshalJSON v)) fs))"

text \<open>\<^verbatim>\<open>MarshalJSON\<close>; \<open>None\<close> is its error.\<close>

fun MarshalJSON :: "encode_node \<Rightarrow> json option" where
  "MarshalJSON (Node b v f) = (case v of
       Some t \<Rightarrow> Some t
     | None \<Rightarrow> (case f of
         Some fs \<Rightarrow> map_option Object (those (map (\<lambda>(k, n). map_option (Pair k) (MarshalJSON n)) fs))
       | None \<Rightarrow> b))"

text \<open>A field of a node; a missing one is the zero value.\<close>

definition field_of :: "encode_node \<Rightarrow> string \<Rightarrow> encode_node" where
  "field_of n k = (case en_Field n of None \<Rightarrow> zero_node
     | Some fs \<Rightarrow> (case map_of fs k of None \<Rightarrow> zero_node | Some v \<Rightarrow> v))"

definition node_fields :: "encode_node \<Rightarrow> (string \<times> encode_node) list" where
  "node_fields n = (case en_Field n of None \<Rightarrow> [] | Some fs \<Rightarrow> fs)"

text \<open>What stands for a field that was removed.\<close>

definition starts_with_bracket :: "json \<Rightarrow> bool" where
  "starts_with_bracket j = (case j of Raw (c # _) \<Rightarrow> c = CHR ''['' | _ \<Rightarrow> False)"

definition blank :: "json \<Rightarrow> json" where
  "blank j = (if starts_with_bracket j then Raw ''[]'' else Raw [CHR 0x22, CHR 0x22])"

definition removed_field :: "encode_node \<Rightarrow> encode_node" where
  "removed_field n = Node (map_option blank (en_body n)) None None"

lemma field_size: "(k, v) \<in> set fs \<Longrightarrow> size v < size_list (size_prod (\<lambda>x. 0) size) fs"
  by (induction fs) auto

text \<open>\<^verbatim>\<open>getChange\<close>; \<open>None\<close> is the nil pointer.\<close>

function getChange :: "encode_node \<Rightarrow> encode_node \<Rightarrow> encode_node option" where
  "getChange old new =
     (if en_body old = en_body new then None
      else if en_Field old = None \<and> en_Field new = None \<and> en_value old \<noteq> en_value new
      then Some (Node None (en_value new) None)
      else
        let changed = concat (map (\<lambda>(k, v). case getChange (field_of old k) v of None \<Rightarrow> [] | Some n \<Rightarrow> [(k, n)]) (node_fields new));
            removed = map (\<lambda>(k, v). (k, removed_field v)) (filter (\<lambda>(k, v). map_of (node_fields new) k = None) (node_fields old))
        in Some (Node None None (if node_fields new = [] \<and> removed = [] then None else Some (changed @ removed))))"
  by pat_completeness auto
termination
proof (relation "measure (\<lambda>(old, new). size new)")
  fix old new :: encode_node and p k v
  assume "p \<in> set (node_fields new)" "(k, v) = p"
  then show "((field_of old k, v), old, new) \<in> measure (\<lambda>(old, new). size new)"
    by (cases new) (auto simp: node_fields_def less_SucI split: option.splits dest: field_size)
qed simp

declare getChange.simps [simp del]

definition GetChange :: "encode_node \<Rightarrow> encode_node \<Rightarrow> encode_node option" where
  "GetChange e endpoint = (if en_body e = en_body endpoint then None else getChange e endpoint)"

text \<open>\<^verbatim>\<open>getchange\<close> on encoded documents: the encoding of a nil change is \<open>null\<close>.\<close>

definition getchange :: "json \<Rightarrow> json \<Rightarrow> json option" where
  "getchange old new = (case GetChange (UnmarshalJSON old) (UnmarshalJSON new) of
       None \<Rightarrow> Some (Raw ''null'')
     | Some n \<Rightarrow> MarshalJSON n)"

section \<open>The patches of a component\<close>

text \<open>
  \<open>pe_sts\<close> and \<open>pe_dep\<close> are the encodings of the fields of a workload that may be changed, \<open>pe_text\<close> prints
  a document, and \<open>pe_now\<close> is the time stamp.
\<close>

record patch_env =
  pe_sts :: "statefulset \<Rightarrow> json"
  pe_dep :: "deployment \<Rightarrow> json"
  pe_text :: "json \<Rightarrow> string"
  pe_now :: string

datatype patch_error = NoUpgrade | PatchError

definition isContainsBootSequence :: "container list \<Rightarrow> bool" where
  "isContainsBootSequence cs \<longleftrightarrow> (\<exists>c \<in> set cs. str_contains (c_name c) ''probe-mesh-'')"

definition with_boot_sequence :: "pod_template \<Rightarrow> container option \<Rightarrow> pod_template \<Rightarrow> pod_template" where
  "with_boot_sequence old boot new =
     (case boot of
        Some c \<Rightarrow> if isContainsBootSequence (InitContainers old) \<and> \<not> isContainsBootSequence (InitContainers new)
                  then new\<lparr>InitContainers := InitContainers new @ [c]\<rparr> else new
      | None \<Rightarrow> new)"

definition stamp :: "string \<Rightarrow> pod_template \<Rightarrow> pod_template" where
  "stamp now t = t\<lparr>t_labels := AList.update ''settingTime'' now (t_labels t)\<rparr>"

text \<open>The patch of a workload; the empty text is the case of no change.\<close>

definition patch_result :: "json option \<Rightarrow> patch_error + json" where
  "patch_result p = (case p of None \<Rightarrow> Inl PatchError
     | Some j \<Rightarrow> if j = Raw [] then Inl NoUpgrade else Inr j)"

definition set_patch :: "patch_env \<Rightarrow> string \<Rightarrow> json \<Rightarrow> app_service \<Rightarrow> app_service" where
  "set_patch env k j new = new\<lparr>UpgradePatch := AList.update k (pe_text env j) (UpgradePatch new)\<rparr>"

text \<open>
  The results: the error, the cached component and the new one. The status of the cached workload
  becomes that of the new one.
\<close>

definition getStatefulsetModifiedConfiguration :: "patch_env \<Rightarrow> statefulset \<Rightarrow> statefulset \<Rightarrow> statefulset \<times> statefulset \<times> json option" where
  "getStatefulsetModifiedConfiguration env old new =
     (let old' = old\<lparr>s_ready := s_ready new, s_update_revision := s_update_revision new\<rparr>; new' = new\<lparr>s_template := stamp (pe_now env) (s_template new)\<rparr>
      in (old', new', getchange (pe_sts env old') (pe_sts env new')))"

definition getDeploymentModifiedConfiguration :: "patch_env \<Rightarrow> deployment \<Rightarrow> deployment \<Rightarrow> deployment \<times> deployment \<times> json option" where
  "getDeploymentModifiedConfiguration env old new =
     (let old' = old\<lparr>d_ready := d_ready new\<rparr>; new' = new\<lparr>d_template := stamp (pe_now env) (d_template new)\<rparr>
      in (old', new', getchange (pe_dep env old') (pe_dep env new')))"

definition patch_statefulset :: "patch_env \<Rightarrow> app_service \<Rightarrow> app_service \<Rightarrow> patch_error option \<times> app_service \<times> app_service" where
  "patch_statefulset env a new =
     (case (statefulset a, statefulset new) of
        (Some old, Some s) \<Rightarrow>
          (let (old', s', p) = getStatefulsetModifiedConfiguration env old
                 (s\<lparr>s_template := with_boot_sequence (s_template old) (BootSeqContainer new) (s_template s)\<rparr>);
               a' = write_statefulset old' a; new' = write_statefulset s' new
           in case patch_result p of
                Inl e \<Rightarrow> (Some e, a', new')
              | Inr j \<Rightarrow> (None, a', set_patch env ''statefulset'' j new'))
      | _ \<Rightarrow> (None, a, new))"

definition patch_deployment :: "patch_env \<Rightarrow> app_service \<Rightarrow> app_service \<Rightarrow> patch_error option \<times> app_service \<times> app_service" where
  "patch_deployment env a new =
     (case (deployment a, deployment new) of
        (Some old, Some d) \<Rightarrow>
          (let (old', d', p) = getDeploymentModifiedConfiguration env old
                 (d\<lparr>d_template := with_boot_sequence (d_template old) (BootSeqContainer new) (d_template d)\<rparr>);
               a' = write_deployment old' a; new' = write_deployment d' new
           in case patch_result p of
                Inl e \<Rightarrow> (Some e, a', new')
              | Inr j \<Rightarrow> (None, a', set_patch env ''deployment'' j new'))
      | _ \<Rightarrow> (None, a, new))"

definition copy_base :: "app_service \<Rightarrow> app_service \<Rightarrow> app_service" where
  "copy_base new a = a\<lparr>TenantEnvID := TenantEnvID new, TenantEnvName := TenantEnvName new, AppID := AppID new,
     ServiceID := ServiceID new, ServiceAlias := ServiceAlias new, ServiceType := ServiceType new,
     ServiceKind := ServiceKind new, discoveryCfg := discoveryCfg new, DeployVersion := DeployVersion new,
     ContainerRequestCPU := ContainerRequestCPU new, ContainerCPU := ContainerCPU new,
     ContainerRequestMemory := ContainerRequestMemory new, ContainerMemory := ContainerMemory new,
     ContainerGPUType := ContainerGPUType new, ContainerGPU := ContainerGPU new, UpgradeMethod := UpgradeMethod new,
     Replicas := Replicas new, NeedProxy := NeedProxy new, IsWindowsService := IsWindowsService new,
     CreaterID := CreaterID new, Dependces := Dependces new, ExtensionSet := ExtensionSet new,
     GovernanceMode := GovernanceMode new, K8sApp := K8sApp new, K8sComponentName := K8sComponentName new\<rparr>"

definition SetUpgradePatch :: "patch_env \<Rightarrow> app_service \<Rightarrow> app_service \<Rightarrow> patch_error option \<times> app_service \<times> app_service" where
  "SetUpgradePatch env a new =
     (case patch_statefulset env a new of
        (Some e, a1, new1) \<Rightarrow> (Some e, a1, new1)
      | (None, a1, new1) \<Rightarrow> (case patch_deployment env a1 new1 of
          (Some e, a2, new2) \<Rightarrow> (Some e, a2, new2)
        | (None, a2, new2) \<Rightarrow> (None, copy_base new2 a2, new2)))"

section \<open>Merge patches\<close>

text \<open>Applying a merge patch, as RFC 7386 specifies it. The argument is the target, if there is one.\<close>

fun members :: "json option \<Rightarrow> (string \<times> json) list" where
  "members (Some (Object fs)) = fs"
| "members _ = []"

lemma member_size: "(k, v) \<in> set fs \<Longrightarrow> size v < Suc (size_list (size_prod (\<lambda>x. 0) size) fs)"
  by (induction fs) auto

function merge_patch :: "json option \<Rightarrow> json \<Rightarrow> json" where
  "merge_patch target (Raw t) = Raw t"
| "merge_patch target (Object ps) =
     Object (filter (\<lambda>(k, v). map_of ps k = None) (members target) @
       map (\<lambda>(k, v). (k, merge_patch (map_of (members target) k) v)) (filter (\<lambda>(k, v). v \<noteq> Raw ''null'') ps))"
  by pat_completeness auto
termination
  by (relation "measure (\<lambda>(t, p). size p)") (auto dest: member_size)

text \<open>What a document shows at a path: a text, an object, or nothing.\<close>

fun shape_at :: "json option \<Rightarrow> string list \<Rightarrow> (string + unit) option" where
  "shape_at None ks = None"
| "shape_at (Some (Raw t)) [] = Some (Inl t)"
| "shape_at (Some (Object fs)) [] = Some (Inr ())"
| "shape_at (Some j) (k # ks) = shape_at (map_of (members (Some j)) k) ks"

definition same_doc :: "json \<Rightarrow> json \<Rightarrow> bool" where
  "same_doc a b \<longleftrightarrow> (\<forall>ks. shape_at (Some a) ks = shape_at (Some b) ks)"

section \<open>What a patch does\<close>

text \<open>
  The result of an upgrade: the new document, with the removed fields of the old one blanked instead of
  removed.
\<close>

function blanked :: "json option \<Rightarrow> json \<Rightarrow> json" where
  "blanked old (Raw t) = Raw t"
| "blanked old (Object fs) =
     Object (map (\<lambda>(k, v). (k, blanked (map_of (members old) k) v)) fs @
       map (\<lambda>(k, v). (k, blank v)) (filter (\<lambda>(k, v). map_of fs k = None) (members old)))"
  by pat_completeness auto
termination
  by (relation "measure (\<lambda>(t, p). size p)") (auto dest: member_size)

text \<open>
  Documents that differ in a way the comparison handles: texts are not empty and not \<open>null\<close>, an object
  does not become a text, and no empty object appears.
\<close>

function patchable :: "json option \<Rightarrow> json \<Rightarrow> bool" where
  "patchable old (Raw t) \<longleftrightarrow> t \<noteq> [] \<and> t \<noteq> ''null'' \<and> (\<forall>fs. old \<noteq> Some (Object fs))"
| "patchable old (Object fs) \<longleftrightarrow> (fs = [] \<longrightarrow> (\<exists>gs. old = Some (Object gs))) \<and>
     (\<forall>(k, v) \<in> set fs. map_of (members old) k = Some v \<or> patchable (map_of (members old) k) v)"
  by pat_completeness auto
termination
  by (relation "measure (\<lambda>(t, p). size p)") (auto dest: member_size)

text \<open>Documents in which no object has a field twice.\<close>

fun json_wf :: "json \<Rightarrow> bool" where
  "json_wf (Raw t) \<longleftrightarrow> True"
| "json_wf (Object fs) \<longleftrightarrow> distinct (map fst fs) \<and> (\<forall>(k, v) \<in> set fs. json_wf v)"

section \<open>Lemmas\<close>

fun dec_opt :: "json option \<Rightarrow> encode_node" where
  "dec_opt None = zero_node"
| "dec_opt (Some j) = UnmarshalJSON j"

lemma map_of_map_values: "map_of (map (\<lambda>(k, v). (k, h k v)) xs) k = map_option (h k) (map_of xs k)"
  by (induction xs) auto

lemma map_of_filter_keys:
  "map_of (filter (\<lambda>(k, v). P k) xs) k = (if P k then map_of xs k else None)"
  by (induction xs) auto

lemma en_body_dec [simp]: "en_body (UnmarshalJSON j) = Some j" "en_body (dec_opt o') = o'"
  by (cases j; simp) (cases o'; cases "the o'"; simp add: zero_node_def)

lemma fields_dec: "node_fields (dec_opt o') = map (\<lambda>(k, v). (k, UnmarshalJSON v)) (members o')"
  by (cases o' rule: members.cases) (simp_all add: node_fields_def zero_node_def)

lemma field_of_dec: "field_of (dec_opt o') k = dec_opt (map_of (members o') k)"
  by (cases o' rule: members.cases)
    (auto simp: field_of_def zero_node_def map_of_map_values split: option.splits)

lemma en_Field_dec: "en_Field (dec_opt o') = None \<longleftrightarrow> (\<forall>fs. o' \<noteq> Some (Object fs))"
  by (cases o' rule: members.cases) (auto simp: zero_node_def)

declare UnmarshalJSON.simps [simp del]

lemma getChange_same: "getChange (dec_opt (Some j)) (UnmarshalJSON j) = None"
  by (simp add: getChange.simps)

lemma getChange_text:
  assumes "\<forall>fs. old \<noteq> Some (Object fs)" "t \<noteq> []" "old \<noteq> Some (Raw t)"
  shows "getChange (dec_opt old) (UnmarshalJSON (Raw t)) = Some (Node None (Some (Raw t)) None)"
proof -
  have "en_value (dec_opt old) \<noteq> Some (Raw t)"
    using assms by (cases old rule: members.cases) (auto simp: zero_node_def UnmarshalJSON.simps)
  then show ?thesis
    using assms(2,3) iffD2 [OF en_Field_dec assms(1)] by (simp add: getChange.simps [of "dec_opt old"] UnmarshalJSON.simps)
qed

lemma getChange_refl [simp]: "getChange (UnmarshalJSON j) (UnmarshalJSON j) = None"
  by (simp add: getChange.simps)

lemma map_of_changes:
  assumes "distinct (map fst fs)"
  shows "map_of (concat (map (\<lambda>(k, v). case g k v of None \<Rightarrow> [] | Some n \<Rightarrow> [(k, n)]) fs)) k =
    (case map_of fs k of None \<Rightarrow> None | Some v \<Rightarrow> g k v)"
  using assms
proof (induction fs)
  case (Cons x fs)
  obtain k' v where x: "x = (k', v)" by fastforce
  have "map_of fs k' = None"
    using Cons.prems by (simp add: x map_of_eq_None_iff)
  then show ?case
    using Cons by (auto simp: x split: option.splits)
qed simp

lemma those_fields:
  assumes "\<forall>(k, n) \<in> set xs. \<exists>p. MarshalJSON n = Some p"
  shows "\<exists>ps. those (map (\<lambda>(k, n). map_option (Pair k) (MarshalJSON n)) xs) = Some ps \<and>
    (\<forall>k. map_of ps k = Option.bind (map_of xs k) MarshalJSON) \<and>
    (\<forall>(k, p) \<in> set ps. \<exists>n. (k, n) \<in> set xs \<and> MarshalJSON n = Some p)"
  using assms
proof (induction xs)
  case (Cons x xs)
  obtain k n p where x: "x = (k, n)" "MarshalJSON n = Some p"
    using Cons.prems by (cases x) auto
  obtain ps where "those (map (\<lambda>(k, n). map_option (Pair k) (MarshalJSON n)) xs) = Some ps"
    "\<forall>k. map_of ps k = Option.bind (map_of xs k) MarshalJSON"
    "\<forall>(k, p) \<in> set ps. \<exists>n. (k, n) \<in> set xs \<and> MarshalJSON n = Some p"
    using Cons by auto
  then show ?case
    using x by (intro exI [of _ "(k, p) # ps"]) auto
qed simp

lemma members_merge:
  assumes "\<forall>(k, v) \<in> set ps. v \<noteq> Raw ''null''"
  shows "map_of (members (Some (merge_patch old (Object ps)))) k =
    (case map_of ps k of None \<Rightarrow> map_of (members old) k | Some v \<Rightarrow> Some (merge_patch (map_of (members old) k) v))"
proof -
  have "filter (\<lambda>(k, v). v \<noteq> Raw ''null'') ps = ps"
    using assms by (auto simp: filter_id_conv)
  moreover have "map_of (filter (\<lambda>(k, v). map_of ps k = None) (members old)) k = (if map_of ps k = None then map_of (members old) k else None)"
    by (rule map_of_filter_keys)
  ultimately show ?thesis
    by (auto simp: map_of_map_values [of "\<lambda>k v. merge_patch (map_of (members old) k) v"] map_add_def split: option.splits)
qed

lemma members_blanked:
  "map_of (members (Some (blanked old (Object fs)))) k = (case map_of fs k of
     None \<Rightarrow> map_option blank (map_of (members old) k) | Some v \<Rightarrow> Some (blanked (map_of (members old) k) v))"
proof -
  have "map_of (filter (\<lambda>(k, v). map_of fs k = None) (members old)) k = (if map_of fs k = None then map_of (members old) k else None)"
    by (rule map_of_filter_keys)
  then show ?thesis
    by (auto simp: map_of_map_values [of "\<lambda>k v. blanked (map_of (members old) k) v"] map_of_map_values [of "\<lambda>k. blank"]
        map_add_def split: option.splits)
qed

lemma blanked_same: "json_wf v \<Longrightarrow> same_doc (blanked (Some v) v) v"
  unfolding same_doc_def
proof (induction "Some v" v rule: blanked.induct)
  case (2 fs)
  show ?case
  proof (rule allI)
    fix ks
    show "shape_at (Some (blanked (Some (Object fs)) (Object fs))) ks = shape_at (Some (Object fs)) ks"
    proof (cases ks)
      case (Cons k ks')
      have "shape_at (map_of (members (Some (blanked (Some (Object fs)) (Object fs)))) k) ks' = shape_at (map_of fs k) ks'"
      proof (cases "map_of fs k")
        case (Some v)
        then have "(k, v) \<in> set fs" by (rule map_of_SomeD)
        then show ?thesis
          unfolding members_blanked using 2 Some by auto
      next
        case None
        then show ?thesis
          unfolding members_blanked by simp
      qed
      then show ?thesis
        by (simp add: Cons)
    qed simp
  qed
qed simp

text \<open>The changes of an object, field by field.\<close>

lemma getChange_object:
  assumes "old \<noteq> Some (Object fs)" "distinct (map fst fs)" "fs = [] \<Longrightarrow> \<exists>gs. old = Some (Object gs)"
  shows "\<exists>xs. getChange (dec_opt old) (UnmarshalJSON (Object fs)) = Some (Node None None (Some xs)) \<and>
    (\<forall>k. map_of xs k = (case map_of fs k of
        Some v \<Rightarrow> getChange (dec_opt (map_of (members old) k)) (UnmarshalJSON v)
      | None \<Rightarrow> map_option (\<lambda>v. Node (Some (blank v)) None None) (map_of (members old) k))) \<and>
    (\<forall>(k, n) \<in> set xs. (\<exists>v. (k, v) \<in> set fs \<and> getChange (dec_opt (map_of (members old) k)) (UnmarshalJSON v) = Some n) \<or>
      (\<exists>v. n = Node (Some (blank v)) None None))"
proof -
  let ?new = "UnmarshalJSON (Object fs)"
  let ?g = "\<lambda>k v. getChange (dec_opt (map_of (members old) k)) v"
  let ?changed = "concat (map (\<lambda>(k, v). case ?g k v of None \<Rightarrow> [] | Some n \<Rightarrow> [(k, n)]) (node_fields ?new))"
  let ?removed = "map (\<lambda>(k, v). (k, removed_field v)) (filter (\<lambda>(k, v). map_of (node_fields ?new) k = None) (node_fields (dec_opt old)))"
  have new: "node_fields ?new = map (\<lambda>(k, v). (k, UnmarshalJSON v)) fs" "en_Field ?new \<noteq> None"
    by (simp_all add: node_fields_def UnmarshalJSON.simps)
  have some: "\<not> (node_fields ?new = [] \<and> ?removed = [])"
  proof
    assume none: "node_fields ?new = [] \<and> ?removed = []"
    then have "fs = []" by (simp add: new(1))
    then obtain gs where "old = Some (Object gs)" "gs = []"
      using assms(3) none by (auto simp: fields_dec new(1))
    then show False
      using assms(1) \<open>fs = []\<close> by simp
  qed
  have change: "getChange (dec_opt old) ?new = Some (Node None None (Some (?changed @ ?removed)))"
    using assms(1) new(2) some by (simp add: getChange.simps [of "dec_opt old"] field_of_dec)
  have "distinct (map fst (node_fields ?new))"
    using assms(2) by (simp add: new(1) comp_def case_prod_beta)
  then have "map_of ?changed k = (case map_of fs k of None \<Rightarrow> None | Some v \<Rightarrow> ?g k (UnmarshalJSON v))" for k
    unfolding map_of_changes [OF \<open>distinct (map fst (node_fields ?new))\<close>]
    by (cases "map_of fs k") (simp_all add: new(1) map_of_map_values [of "\<lambda>k. UnmarshalJSON"])
  moreover have "map_of ?removed k = (if map_of fs k = None then map_option (\<lambda>v. Node (Some (blank v)) None None) (map_of (members old) k) else None)" for k
    by (simp only: map_of_map_values [of "\<lambda>k. removed_field"] map_of_filter_keys fields_dec new(1)
        map_of_map_values [of "\<lambda>k. UnmarshalJSON"])
      (cases "map_of (members old) k"; simp add: removed_field_def)
  ultimately have "map_of (?changed @ ?removed) k = (case map_of fs k of
        Some v \<Rightarrow> ?g k (UnmarshalJSON v) | None \<Rightarrow> map_option (\<lambda>v. Node (Some (blank v)) None None) (map_of (members old) k))" for k
    by (simp add: map_add_def split: option.splits)
  moreover have "(\<exists>v. (k, v) \<in> set fs \<and> ?g k (UnmarshalJSON v) = Some n) \<or> (\<exists>v. n = Node (Some (blank v)) None None)"
    if "(k, n) \<in> set (?changed @ ?removed)" for k n
    using that by (auto simp: new(1) fields_dec removed_field_def split: option.splits)
  ultimately show ?thesis
    using change by blast
qed

text \<open>
  The text of a patch, once its fields can be printed, and what merging it does.
\<close>

lemma patch_applied:
  assumes "json_wf new" "patchable old new" "old \<noteq> Some new"
  shows "\<exists>n p. getChange (dec_opt old) (UnmarshalJSON new) = Some n \<and> MarshalJSON n = Some p \<and> p \<noteq> Raw ''null'' \<and>
    same_doc (merge_patch old p) (blanked old new)"
  using assms
proof (induction old new rule: patchable.induct)
  case (1 old t)
  then show ?case
    using getChange_text [of old t] by (auto simp: same_doc_def)
next
  case (2 old fs)
  let ?g = "\<lambda>k v. getChange (dec_opt (map_of (members old) k)) (UnmarshalJSON v)"
  have wf: "distinct (map fst fs)" "json_wf v" if "(k, v) \<in> set fs" for k v
    using 2(2) that by auto
  have field: "?g k v = None \<and> map_of (members old) k = Some v \<or>
      (\<exists>n p. ?g k v = Some n \<and> MarshalJSON n = Some p \<and> p \<noteq> Raw ''null'' \<and>
        same_doc (merge_patch (map_of (members old) k) p) (blanked (map_of (members old) k) v))"
    if mem: "(k, v) \<in> set fs" for k v
  proof (cases "map_of (members old) k = Some v")
    case True
    then show ?thesis
      using getChange_same [of v] by (simp del: dec_opt.simps)
  next
    case False
    then have "patchable (map_of (members old) k) v"
      using 2(3) mem by auto
    then show ?thesis
      using 2(1) [OF mem refl wf(2) [OF mem] _ False] by blast
  qed
  obtain xs where xs: "getChange (dec_opt old) (UnmarshalJSON (Object fs)) = Some (Node None None (Some xs))"
      "\<And>k. map_of xs k = (case map_of fs k of Some v \<Rightarrow> ?g k v
        | None \<Rightarrow> map_option (\<lambda>v. Node (Some (blank v)) None None) (map_of (members old) k))"
      "\<forall>(k, n) \<in> set xs. (\<exists>v. (k, v) \<in> set fs \<and> ?g k v = Some n) \<or> (\<exists>v. n = Node (Some (blank v)) None None)"
    using getChange_object [of old fs] 2(2-4) by auto
  have printed: "\<exists>p. MarshalJSON n = Some p \<and> p \<noteq> Raw ''null''" if "(k, n) \<in> set xs" for k n
  proof -
    from xs(3) that consider v where "(k, v) \<in> set fs" "?g k v = Some n" | v where "n = Node (Some (blank v)) None None"
      by blast
    then show ?thesis
    proof cases
      case 1
      then show ?thesis using field [of k v] by auto
    next
      case 2
      then show ?thesis by (simp add: blank_def)
    qed
  qed
  then have "\<forall>(k, n) \<in> set xs. \<exists>p. MarshalJSON n = Some p"
    by auto
  from those_fields [OF this] obtain ps where
      ps: "those (map (\<lambda>(k, n). map_option (Pair k) (MarshalJSON n)) xs) = Some ps"
        "\<And>k. map_of ps k = Option.bind (map_of xs k) MarshalJSON"
        "\<forall>(k, p) \<in> set ps. \<exists>n. (k, n) \<in> set xs \<and> MarshalJSON n = Some p"
    by blast
  have nonnull: "\<forall>(k, v) \<in> set ps. v \<noteq> Raw ''null''"
    using ps(3) printed by fastforce
  have "shape_at (map_of (members (Some (merge_patch old (Object ps)))) k) ks =
      shape_at (map_of (members (Some (blanked old (Object fs)))) k) ks" for k ks
  proof (cases "map_of fs k")
    case None
    then show ?thesis
      unfolding members_merge [OF nonnull] members_blanked
      by (cases "map_of (members old) k") (auto simp: ps(2) xs(2) blank_def)
  next
    case (Some v)
    note mem = map_of_SomeD [OF Some]
    from field [OF mem] show ?thesis
    proof
      assume "?g k v = None \<and> map_of (members old) k = Some v"
      then show ?thesis
        unfolding members_merge [OF nonnull] members_blanked
        using Some blanked_same [OF wf(2) [OF mem]] by (simp add: ps(2) xs(2) same_doc_def)
    next
      assume "\<exists>n p. ?g k v = Some n \<and> MarshalJSON n = Some p \<and> p \<noteq> Raw ''null'' \<and>
        same_doc (merge_patch (map_of (members old) k) p) (blanked (map_of (members old) k) v)"
      then show ?thesis
        unfolding members_merge [OF nonnull] members_blanked
        using Some by (auto simp: ps(2) xs(2) same_doc_def)
    qed
  qed
  then have "shape_at (Some (merge_patch old (Object ps))) ks = shape_at (Some (blanked old (Object fs))) ks" for ks
    by (cases ks) simp_all
  then show ?case
    using xs(1) ps(1) by (simp add: same_doc_def del: merge_patch.simps blanked.simps)
qed

section \<open>Properties\<close>

lemma getchange_patch:
  assumes "json_wf new" "patchable (Some old) new" "old \<noteq> new"
  shows "\<exists>p. getchange old new = Some p \<and> same_doc (merge_patch (Some old) p) (blanked (Some old) new)"
  using patch_applied [of new "Some old"] assms by (auto simp: getchange_def GetChange_def)

text \<open>Documents of which no object loses a field.\<close>

function keeps_fields :: "json option \<Rightarrow> json \<Rightarrow> bool" where
  "keeps_fields old (Raw t) \<longleftrightarrow> True"
| "keeps_fields old (Object fs) \<longleftrightarrow> (\<forall>k \<in> fst ` set (members old). map_of fs k \<noteq> None) \<and>
     (\<forall>(k, v) \<in> set fs. keeps_fields (map_of (members old) k) v)"
  by pat_completeness auto
termination
  by (relation "measure (\<lambda>(t, p). size p)") (auto dest: member_size)

lemma blanked_kept: "json_wf new \<Longrightarrow> keeps_fields old new \<Longrightarrow> same_doc (blanked old new) new"
  unfolding same_doc_def
proof (induction old new rule: keeps_fields.induct)
  case (2 old fs)
  have "shape_at (map_of (members (Some (blanked old (Object fs)))) k) ks = shape_at (map_of fs k) ks" for k ks
  proof (cases "map_of fs k")
    case None
    then have "map_of (members old) k = None"
      using 2(3) by (auto simp: map_of_eq_None_iff)
    then show ?thesis
      unfolding members_blanked using None by simp
  next
    case (Some v)
    note mem = map_of_SomeD [OF Some]
    have "json_wf v" "keeps_fields (map_of (members old) k) v"
      using 2(2,3) mem by auto
    then show ?thesis
      unfolding members_blanked using Some 2(1) [OF mem refl] by simp
  qed
  then have "shape_at (Some (blanked old (Object fs))) ks = shape_at (Some (Object fs)) ks" for ks
    by (cases ks) simp_all
  then show ?case by blast
qed simp

text \<open>
  C12: The patch brings the cluster to the new document. For documents that differ in a way the comparison
  handles, the patch can be printed, and merging it into the old document gives the new one except that
  removed fields are blanked; when no field is removed it gives the new document.
\<close>

theorem patch_reaches_new:
  assumes "json_wf new" "patchable (Some old) new" "old \<noteq> new"
  shows "\<exists>p. getchange old new = Some p \<and> same_doc (merge_patch (Some old) p) (blanked (Some old) new) \<and>
    (keeps_fields (Some old) new \<longrightarrow> same_doc (merge_patch (Some old) p) new)"
  using getchange_patch [OF assms] blanked_kept [OF assms(1), of "Some old"] by (auto simp: same_doc_def)

text \<open>
  Removing a field fails. A field of the old document that the new one does not have and whose value is
  not an array is set to the empty string by the patch, also when it was an object.
\<close>

theorem removed_field_blanked:
  assumes "json_wf (Object fs)" "patchable (Some (Object os)) (Object fs)"
    and "map_of os k = Some v" "\<not> starts_with_bracket v" "map_of fs k = None"
  shows "\<exists>p. getchange (Object os) (Object fs) = Some p \<and>
    shape_at (Some (merge_patch (Some (Object os)) p)) [k] = Some (Inl [CHR 0x22, CHR 0x22])"
proof -
  have "Object os \<noteq> Object fs"
    using assms(3,5) by auto
  then obtain p where p: "getchange (Object os) (Object fs) = Some p"
      "same_doc (merge_patch (Some (Object os)) p) (blanked (Some (Object os)) (Object fs))"
    using getchange_patch [OF assms(1,2)] by blast
  have "shape_at (Some (blanked (Some (Object os)) (Object fs))) [k] = Some (Inl [CHR 0x22, CHR 0x22])"
  proof -
    have "map_of (members (Some (blanked (Some (Object os)) (Object fs)))) k = Some (blank v)"
      unfolding members_blanked using assms(3,5) by simp
    then show ?thesis
      using assms(4) by (simp add: blank_def)
  qed
  then have "shape_at (Some (merge_patch (Some (Object os)) p)) [k] = Some (Inl [CHR 0x22, CHR 0x22])"
    using p(2) unfolding same_doc_def by metis
  then show ?thesis
    using p(1) by blast
qed

lemma getchange_not_empty: "getchange old new \<noteq> Some (Raw [])"
proof -
  have "MarshalJSON n \<noteq> Some (Raw [])" if "getChange a (UnmarshalJSON new) = Some n" for a n
  proof -
    have "en_value (UnmarshalJSON new) \<noteq> Some (Raw [])"
      by (cases new) (simp_all add: UnmarshalJSON.simps)
    then show ?thesis
      using that by (auto simp: getChange.simps [of a] Let_def split: if_splits option.splits)
  qed
  then show ?thesis
    by (auto simp: getchange_def GetChange_def split: option.splits if_splits)
qed

text \<open>
  Equal workloads are patched as well: the encoding of no change is not empty, so the answer that there is
  nothing to upgrade is never given.
\<close>

theorem no_upgrade_never_reported: "fst (SetUpgradePatch env a new) \<noteq> Some NoUpgrade"
proof -
  have none: "patch_result (getchange x y) \<noteq> Inl NoUpgrade" for x y
    using getchange_not_empty by (auto simp: patch_result_def split: option.splits)
  have "fst (patch_statefulset env b c) \<noteq> Some NoUpgrade" "fst (patch_deployment env b c) \<noteq> Some NoUpgrade" for b c
    using none by (auto simp: patch_statefulset_def patch_deployment_def getStatefulsetModifiedConfiguration_def
        getDeploymentModifiedConfiguration_def Let_def split: option.splits sum.splits)
  then show ?thesis
    by (auto simp: SetUpgradePatch_def split: prod.splits option.splits) (metis fst_conv)+
qed

section \<open>Examples\<close>

definition demo_old :: json where
  "demo_old = Object [(''replicas'', Raw ''1''), (''affinity'', Object [(''node'', Raw ''1'')])]"

theorem patch_reaches_new_witness:
  "\<exists>p. getchange demo_old (Object [(''replicas'', Raw ''2''), (''affinity'', Object [(''node'', Raw ''1'')])]) = Some p \<and>
     same_doc (merge_patch (Some demo_old) p) (Object [(''replicas'', Raw ''2''), (''affinity'', Object [(''node'', Raw ''1'')])])"
proof -
  let ?new = "Object [(''replicas'', Raw ''2''), (''affinity'', Object [(''node'', Raw ''1'')])]"
  have "json_wf ?new" "patchable (Some demo_old) ?new" "demo_old \<noteq> ?new" "keeps_fields (Some demo_old) ?new"
    by (simp_all add: demo_old_def)
  then show ?thesis
    using patch_reaches_new [of ?new demo_old] by blast
qed

theorem removed_field_blanked_witness:
  "\<exists>p. getchange demo_old (Object [(''replicas'', Raw ''1'')]) = Some p \<and>
     shape_at (Some (merge_patch (Some demo_old) p)) [''affinity''] = Some (Inl [CHR 0x22, CHR 0x22])"
  using removed_field_blanked [of "[(''replicas'', Raw ''1'')]" "[(''replicas'', Raw ''1''), (''affinity'', Object [(''node'', Raw ''1'')])]"
      "''affinity''"] by (simp add: demo_old_def starts_with_bracket_def)

end
