(* ===== verification/Task_Handle.thy ===== *)
theory Task_Handle
  imports Deploy_Control Upgrade_Patch
begin

text \<open>
  The tasks of the worker: the message loop (\<^verbatim>\<open>src/worker/discover/manager.go\<close>), the handlers
  (\<^verbatim>\<open>src/worker/handle/manager.go\<close>) and the manager of the running controllers
  (\<^verbatim>\<open>src/worker/appm/controller/controller.go\<close>).

  A handler changes the runtime store, starts controllers and calls the API server. The conversion of a component from
  the database is the parameter \<open>te_init\<close>; a controller that was started is an entry of the map of controllers until its
  callback removes it.
\<close>

section \<open>Tasks and their surroundings\<close>

datatype task_body =
  StartTaskBody string "string gomap"
| StopTaskBody string "string gomap"
| RestartTaskBody string "string gomap"
| HorizontalScalingTaskBody string
| VerticalScalingTaskBody string
| RollingUpgradeTaskBody string "string gomap"
| ApplyRuleTaskBody string string "string gomap"
| ApplyPluginConfigTaskBody string
| ServiceGCTaskBody string "string list"
| DeleteTenantEnvTaskBody string
| RefreshHPATaskBody string
| ApplyRegistryAuthSecretTaskBody string string string string string string
| ExportTaskBody string
| OtherTaskBody

record task =
  Type :: string
  Body :: task_body

datatype controller_type = TypeStartController | TypeStopController | TypeRestartController | TypeUpgradeController
  | TypeScalingController | TypeApplyRuleController | TypeApplyConfigController | TypeControllerRefreshHPA
  | ExportController

datatype db_op = DelTenantEnv string | SetDeleteFailed string

record handle_state =
  hs_store :: runtime_store
  hs_controllers :: "(controller_type \<times> app_service) gomap"
  hs_history :: history
  hs_scalings :: "(string \<times> int \<times> int) list"
  hs_gc :: "(string \<times> string list) list"
  hs_db :: "db_op list"

text \<open>
  \<open>te_env\<close> answers the two queries for a tenant environment that one handler makes; \<open>te_secret\<close> is the contents of a secret
  with the domain, the user and the password of a registry.
\<close>

record task_env =
  te_max :: int
  te_ready :: bool
  te_uuid :: string
  te_init :: "string \<Rightarrow> string gomap \<Rightarrow> string list \<Rightarrow> app_service option"
  te_db :: database
  te_high :: bool
  te_patch :: patch_env
  te_client :: kube_client
  te_env :: "bool \<Rightarrow> string \<Rightarrow> env_row option"
  te_del_fails :: bool
  te_update_fails :: bool
  te_secret :: "string \<Rightarrow> string \<Rightarrow> string \<Rightarrow> string"

text \<open>\<open>TaskPanic\<close> is a panic of the handler, which ends the worker.\<close>

datatype task_error = ErrCallback | TaskFailed | TaskPanic go_panic

type_synonym handled = "task_error option \<times> handle_state"

section \<open>The running controllers\<close>

definition GetControllerSize :: "handle_state \<Rightarrow> int" where
  "GetControllerSize s = int (length (hs_controllers s))"

definition StartController :: "task_env \<Rightarrow> controller_type \<Rightarrow> app_service \<Rightarrow> handle_state \<Rightarrow> handle_state" where
  "StartController env t app s = s\<lparr>hs_controllers := AList.update (te_uuid env) (t, app) (hs_controllers s)\<rparr>"

definition callback :: "string \<Rightarrow> handle_state \<Rightarrow> handle_state" where
  "callback controllerID s = s\<lparr>hs_controllers := AList.delete controllerID (hs_controllers s)\<rparr>"

definition get_app :: "string \<Rightarrow> handle_state \<Rightarrow> app_service option" where
  "get_app sid s = GetAppService sid (hs_store s)"

definition put :: "string \<Rightarrow> app_service \<Rightarrow> handle_state \<Rightarrow> handle_state" where
  "put sid a s = s\<lparr>hs_store := put_app sid a (hs_store s)\<rparr>"

definition regist :: "app_service \<Rightarrow> handle_state \<Rightarrow> handle_state" where
  "regist a s = s\<lparr>hs_store := RegistAppService a (hs_store s)\<rparr>"

definition closed :: "app_service option \<Rightarrow> bool" where
  "closed a = (case a of None \<Rightarrow> True | Some x \<Rightarrow> IsClosed x)"

section \<open>The handlers\<close>

definition startExec :: "task_env \<Rightarrow> task \<Rightarrow> handle_state \<Rightarrow> handled" where
  "startExec env t s = (case Body t of
       StartTaskBody sid configs \<Rightarrow>
         (if \<not> closed (get_app sid s) then (None, s)
          else case te_init env sid configs [] of
             None \<Rightarrow> (Some TaskFailed, s)
           | Some new \<Rightarrow> (None, StartController env TypeStartController new (regist new s)))
     | _ \<Rightarrow> (Some TaskFailed, s))"

text \<open>
  The extension set of a component is the map it was converted with, which is nil for a task without
  configurations; writing to a nil map panics.
\<close>

definition add_configs :: "string gomap \<Rightarrow> app_service \<Rightarrow> app_service go" where
  "add_configs configs a = (case ExtensionSet a of
       None \<Rightarrow> (if configs = [] then Inr a else Inl NilMapWrite)
     | Some m \<Rightarrow> Inr (a\<lparr>ExtensionSet := Some (fold (\<lambda>(k, v). AList.update k v) configs m)\<rparr>))"

definition stop_with :: "task_env \<Rightarrow> controller_type \<Rightarrow> string \<Rightarrow> string gomap \<Rightarrow> handle_state \<Rightarrow> handled" where
  "stop_with env ct sid configs s = (case get_app sid s of
       None \<Rightarrow> (None, s)
     | Some a \<Rightarrow> (case add_configs configs a of
         Inl p \<Rightarrow> (Some (TaskPanic p), s)
       | Inr a' \<Rightarrow> (None, StartController env ct a' (put sid a' s))))"

definition stopExec :: "task_env \<Rightarrow> task \<Rightarrow> handle_state \<Rightarrow> handled" where
  "stopExec env t s = (case Body t of
       StopTaskBody sid configs \<Rightarrow> stop_with env TypeStopController sid configs s
     | _ \<Rightarrow> (Some TaskFailed, s))"

definition restartExec :: "task_env \<Rightarrow> task \<Rightarrow> handle_state \<Rightarrow> handled" where
  "restartExec env t s = (case Body t of
       RestartTaskBody sid configs \<Rightarrow> stop_with env TypeRestartController sid configs s
     | _ \<Rightarrow> (Some TaskFailed, s))"

text \<open>The number of replicas is written to the component of the store, and the change is recorded.\<close>

definition horizontalScalingExec :: "task_env \<Rightarrow> task \<Rightarrow> handle_state \<Rightarrow> handled" where
  "horizontalScalingExec env t s = (case Body t of
       HorizontalScalingTaskBody sid \<Rightarrow> (case GetServiceByID (te_db env) sid of
           Inl _ \<Rightarrow> (Some TaskFailed, s)
         | Inr service \<Rightarrow> (case get_app sid s of
               None \<Rightarrow> (None, s)
             | Some a \<Rightarrow>
                 (if IsClosed a then (None, s)
                  else let a' = a\<lparr>Replicas := sr_Replicas service\<rparr>;
                           s' = StartController env TypeScalingController a' (put sid a' s)
                       in (None, s'\<lparr>hs_scalings := hs_scalings s' @ [(sid, Replicas a, sr_Replicas service)]\<rparr>))))
     | _ \<Rightarrow> (Some TaskFailed, s))"

definition with_resources :: "service_row \<Rightarrow> app_service \<Rightarrow> app_service" where
  "with_resources service a = a\<lparr>ContainerRequestCPU := sr_ContainerRequestCPU service, ContainerCPU := sr_ContainerCPU service,
     ContainerRequestMemory := sr_ContainerRequestMemory service, ContainerMemory := sr_ContainerMemory service,
     ContainerGPUType := sr_ContainerGPUType service, ContainerGPU := sr_ContainerGPU service\<rparr>"

text \<open>The error of \<^verbatim>\<open>SetUpgradePatch\<close> is not looked at.\<close>

definition verticalScalingExec :: "task_env \<Rightarrow> task \<Rightarrow> handle_state \<Rightarrow> handled" where
  "verticalScalingExec env t s = (case Body t of
       VerticalScalingTaskBody sid \<Rightarrow> (case GetServiceByID (te_db env) sid of
           Inl _ \<Rightarrow> (Some TaskFailed, s)
         | Inr service \<Rightarrow> (case get_app sid s of
               None \<Rightarrow> (None, s)
             | Some a \<Rightarrow>
                 (if IsClosed a then (None, s)
                  else let a1 = with_resources service a
                       in case te_init env sid [] [] of
                            None \<Rightarrow> (Some TaskFailed, put sid a1 s)
                          | Some new \<Rightarrow> (let (_, a2, new') = SetUpgradePatch (te_patch env) a1 new
                              in (None, StartController env TypeUpgradeController new' (put sid a2 s))))))
     | _ \<Rightarrow> (Some TaskFailed, s))"

definition rollingUpgradeExec :: "task_env \<Rightarrow> task \<Rightarrow> handle_state \<Rightarrow> handled" where
  "rollingUpgradeExec env t s = (case Body t of
       RollingUpgradeTaskBody sid configs \<Rightarrow> (case te_init env sid configs [] of
           None \<Rightarrow> (Some TaskFailed, s)
         | Some new \<Rightarrow>
             (if closed (get_app sid s) then (None, StartController env TypeStartController new (regist new s))
              else case get_app sid s of None \<Rightarrow> (None, s)
                 | Some old \<Rightarrow> (let (e, old', new') = SetUpgradePatch (te_patch env) old new; s' = put sid old' s
                     in if e \<noteq> None then (None, s') else (None, StartController env TypeUpgradeController new' s'))))
     | _ \<Rightarrow> (Some TaskFailed, s))"

definition applyRuleExec :: "task_env \<Rightarrow> task \<Rightarrow> handle_state \<Rightarrow> handled" where
  "applyRuleExec env t s = (case Body t of
       ApplyRuleTaskBody sid action limit \<Rightarrow> (case GetServiceByID (te_db env) sid of
           Inl _ \<Rightarrow> (Some TaskFailed, s)
         | Inr svc \<Rightarrow>
             (let third = (sr_Kind svc = ServiceKindThirdParty); old = get_app sid s
              in if \<not> third \<and> take 4 action \<noteq> ''port'' \<and> closed old then (None, s)
                 else case te_init env sid [] (if third then [''ServiceSource'', ''TenantEnvServiceBase'', ''TenantEnvServiceRegist''] else []) of
                        None \<Rightarrow> (Some TaskFailed, s)
                      | Some new \<Rightarrow> (None, StartController env TypeApplyRuleController
                          ((SetDeletedResources (te_high env) old new)\<lparr>CustomParams := limit\<rparr>) s)))
     | _ \<Rightarrow> (Some TaskFailed, s))"

definition applyPluginConfig :: "task_env \<Rightarrow> task \<Rightarrow> handle_state \<Rightarrow> handled" where
  "applyPluginConfig env t s = (case Body t of
       ApplyPluginConfigTaskBody sid \<Rightarrow>
         (if closed (get_app sid s) then (None, s)
          else case te_init env sid [] [''ServiceSource'', ''TenantEnvServiceBase'', ''TenantEnvServicePlugin''] of
             None \<Rightarrow> (Some TaskFailed, s)
           | Some new \<Rightarrow> (None, StartController env TypeApplyConfigController new s))
     | _ \<Rightarrow> (Some TaskFailed, s))"

text \<open>The collection itself is the component of \<^verbatim>\<open>src/worker/gc\<close>.\<close>

definition ExecServiceGCTask :: "task_env \<Rightarrow> task \<Rightarrow> handle_state \<Rightarrow> handled" where
  "ExecServiceGCTask env t s = (case Body t of
       ServiceGCTaskBody sid events \<Rightarrow> (None, s\<lparr>hs_gc := hs_gc s @ [(sid, events)]\<rparr>)
     | _ \<Rightarrow> (Some TaskFailed, s))"

text \<open>
  The deferred function of \<^verbatim>\<open>deleteTenantEnv\<close>: it looks the environment up again, which overwrites the error that is returned,
  and marks it. The error of the last update is a variable of its own.
\<close>

definition mark_failed :: "task_env \<Rightarrow> string \<Rightarrow> handle_state \<Rightarrow> handled" where
  "mark_failed env eid s = (case te_env env True eid of
       None \<Rightarrow> (Some TaskFailed, s)
     | Some row \<Rightarrow> (None, if te_update_fails env then s else s\<lparr>hs_db := hs_db s @ [SetDeleteFailed eid]\<rparr>))"

definition deleteTenantEnv :: "task_env \<Rightarrow> task \<Rightarrow> handle_state \<Rightarrow> handled" where
  "deleteTenantEnv env t s = (case Body t of
       DeleteTenantEnvTaskBody eid \<Rightarrow> (case te_env env False eid of
           None \<Rightarrow> mark_failed env eid s
         | Some row \<Rightarrow>
             (let (a, h) = api (te_client env) (Delete_obj NamespaceK [] (er_Namespace row)) (hs_history s); s1 = s\<lparr>hs_history := h\<rparr>
              in if a \<noteq> Api_ok \<and> a \<noteq> Not_found then mark_failed env eid s1
                 else if te_del_fails env then mark_failed env eid s1
                 else (None, s1\<lparr>hs_db := hs_db s1 @ [DelTenantEnv eid]\<rparr>)))
     | _ \<Rightarrow> (Some TaskFailed, s))"

definition ExecRefreshHPATask :: "task_env \<Rightarrow> task \<Rightarrow> handle_state \<Rightarrow> handled" where
  "ExecRefreshHPATask env t s = (case Body t of
       RefreshHPATaskBody sid \<Rightarrow> (let old = get_app sid s in
         if (case old of None \<Rightarrow> False | Some a \<Rightarrow> IsClosed a) then (None, s)
         else case te_init env sid [] [] of
            None \<Rightarrow> (Some TaskFailed, s)
          | Some new \<Rightarrow> (None, StartController env TypeControllerRefreshHPA (SetDeletedResources (te_high env) old new) s))
     | _ \<Rightarrow> (Some TaskFailed, s))"

definition registry_secret :: "task_env \<Rightarrow> env_row \<Rightarrow> string \<Rightarrow> string \<Rightarrow> named_obj" where
  "registry_secret env row n d = \<lparr>o_meta = zero_meta\<lparr>Name := n, Namespace := er_Namespace row,
     Labels := [(''tenant_id'', er_TenantID row), (''tenant_name'', er_TenantName row), (''tenant_env_id'', er_UUID row),
       (''tenant_env_name'', er_Name row), (''creator'', ''Wutong''), (''wutong.io/registry-auth-secret'', ''true'')]\<rparr>, o_data = d\<rparr>"

definition ExecApplyRegistryAuthSecretTask :: "task_env \<Rightarrow> task \<Rightarrow> handle_state \<Rightarrow> handled" where
  "ExecApplyRegistryAuthSecretTask env t s = (case Body t of
       ApplyRegistryAuthSecretTaskBody action eid secretID domain user password \<Rightarrow> (case te_env env False eid of
           None \<Rightarrow> (Some TaskFailed, s)
         | Some row \<Rightarrow>
             (let kc = te_client env; ns = er_Namespace row; n = ''wt-registry-auth-'' @ secretID; d = te_secret env domain user password;
                  call = (\<lambda>c h. let (a, h') = api kc c h in (if a = Api_ok then None else Some TaskFailed, s\<lparr>hs_history := h'\<rparr>));
                  (a, h1) = api kc (Get_obj SecretK ns n) (hs_history s)
              in if action = ''apply'' then
                   (if a = Not_found then call (Create_obj SecretK ns (registry_secret env row n d)) h1
                    else if a \<noteq> Api_ok then (Some TaskFailed, s\<lparr>hs_history := h1\<rparr>)
                    else call (Update_obj SecretK ns ((kc_found kc (hs_history s) SecretK ns n)\<lparr>o_data := d\<rparr>)) h1)
                 else if action = ''delete'' then call (Delete_obj SecretK ns n) h1
                 else (None, s\<lparr>hs_history := h1\<rparr>)))
     | _ \<Rightarrow> (Some TaskFailed, s))"

text \<open>
  Exporting a component registers it when it is closed. The controller runs within the handler and removes itself;
  what it writes to files is not modelled.
\<close>

definition exec_export :: "task_env \<Rightarrow> (app_service \<Rightarrow> app_service) \<Rightarrow> task \<Rightarrow> handle_state \<Rightarrow> handled" where
  "exec_export env f t s = (case Body t of
       ExportTaskBody sid \<Rightarrow> (case te_init env sid [] [] of
           None \<Rightarrow> (Some TaskFailed, s)
         | Some new \<Rightarrow> (let s1 = (if closed (get_app sid s) then regist (f new) s else s)
             in (None, callback (te_uuid env) (StartController env ExportController (f new) s1))))
     | _ \<Rightarrow> (Some TaskFailed, s))"

definition ExecExportHelmChartTask :: "task_env \<Rightarrow> task \<Rightarrow> handle_state \<Rightarrow> handled" where
  "ExecExportHelmChartTask env = exec_export env id"

definition ExecExportK8sYamlTask :: "task_env \<Rightarrow> task \<Rightarrow> handle_state \<Rightarrow> handled" where
  "ExecExportK8sYamlTask env = exec_export env (\<lambda>new. new\<lparr>GovernanceMode := ''KUBERNETES_NATIVE_SERVICE''\<rparr>)"

definition checkCount :: "task_env \<Rightarrow> handle_state \<Rightarrow> bool" where
  "checkCount env s \<longleftrightarrow> te_max env < GetControllerSize s"

definition AnalystToExec :: "task_env \<Rightarrow> task option \<Rightarrow> handle_state \<Rightarrow> handled" where
  "AnalystToExec env t s = (case t of None \<Rightarrow> (None, s)
     | Some t \<Rightarrow>
        (if checkCount env s then (Some ErrCallback, s)
         else if \<not> te_ready env then (Some ErrCallback, s)
         else if Type t = ''start'' then startExec env t s
         else if Type t = ''stop'' then stopExec env t s
         else if Type t = ''restart'' then restartExec env t s
         else if Type t = ''horizontal_scaling'' then horizontalScalingExec env t s
         else if Type t = ''vertical_scaling'' then verticalScalingExec env t s
         else if Type t = ''rolling_upgrade'' then rollingUpgradeExec env t s
         else if Type t = ''apply_rule'' then applyRuleExec env t s
         else if Type t = ''apply_plugin_config'' then applyPluginConfig env t s
         else if Type t = ''service_gc'' then ExecServiceGCTask env t s
         else if Type t = ''delete_tenant_env'' then deleteTenantEnv env t s
         else if Type t = ''refreshhpa'' then ExecRefreshHPATask env t s
         else if Type t = ''apply_registry_auth_secret'' then ExecApplyRegistryAuthSecretTask env t s
         else if Type t = ''export_helm_chart'' then ExecExportHelmChartTask env t s
         else if Type t = ''export_k8s_yaml'' then ExecExportK8sYamlTask env t s
         else (None, s)))"

section \<open>The message loop\<close>

datatype dequeued = GotTask task | DeadlineExceeded | ContextCanceled | ContextTimeout | DequeueError | UnreadableTask

record task_manager =
  tm_state :: handle_state
  TaskNum :: nat
  TaskError :: nat
  tm_requeued :: "task list"
  tm_lost :: "task list"
  tm_health :: string
  tm_panic :: "go_panic option"

text \<open>
  One message: the environment of its handler, and whether the queue takes a task that is put back; when
  it does not, the error is logged and the task is gone.
\<close>

definition do_task :: "task_env \<Rightarrow> bool \<Rightarrow> task \<Rightarrow> task_manager \<Rightarrow> task_manager" where
  "do_task env accepted t m = (let (rc, s) = AnalystToExec env (Some t) (tm_state m); m1 = m\<lparr>tm_state := s\<rparr>
     in case rc of
          Some (TaskPanic p) \<Rightarrow> m1\<lparr>tm_panic := Some p\<rparr>
        | _ \<Rightarrow>
          if rc \<noteq> None \<and> rc \<noteq> Some ErrCallback then m1\<lparr>TaskError := TaskError m + 1\<rparr>
          else if rc = Some ErrCallback then
            (if accepted then m1\<lparr>tm_requeued := tm_requeued m @ [t]\<rparr> else m1\<lparr>tm_lost := tm_lost m @ [t]\<rparr>)
          else m1\<lparr>TaskNum := TaskNum m + 1\<rparr>)"

fun Do :: "(task_env \<times> bool \<times> dequeued) list \<Rightarrow> task_manager \<Rightarrow> task_manager" where
  "Do [] m = m"
| "Do ((env, accepted, d) # ds) m = (case d of
     GotTask t \<Rightarrow> (let m1 = do_task env accepted t m in if tm_panic m1 \<noteq> None then m1 else Do ds m1)
   | ContextCanceled \<Rightarrow> m\<lparr>tm_health := ''unusual''\<rparr>
   | _ \<Rightarrow> Do ds m)"


section \<open>What a handler does to the controllers\<close>

lemma length_update_le: "length (AList.update k v m) \<le> Suc (length m)"
  by (induction m) auto

lemma length_delete_le: "length (AList.delete k m) \<le> length m"
  by (simp add: AList.delete_eq)

lemma delete_update_length: "length (AList.delete k (AList.update k v m)) \<le> length m"
  by (induction m) (auto simp: AList.delete_eq le_SucI)

text \<open>A handler never asks for the task to be put back, and starts one controller at most.\<close>

definition well_behaved :: "(handle_state \<Rightarrow> handled) \<Rightarrow> bool" where
  "well_behaved f \<longleftrightarrow> (\<forall>s. fst (f s) \<noteq> Some ErrCallback \<and> length (hs_controllers (snd (f s))) \<le> Suc (length (hs_controllers s)))"

lemma controllers_simps [simp]:
  "hs_controllers (put sid a s) = hs_controllers s" "hs_controllers (regist a s) = hs_controllers s"
  "hs_controllers (StartController env t a s) = AList.update (te_uuid env) (t, a) (hs_controllers s)"
  "hs_controllers (callback n s) = AList.delete n (hs_controllers s)"
  by (simp_all add: put_def regist_def StartController_def callback_def)

lemma start_le: "length (hs_controllers (StartController env t a s)) \<le> Suc (length (hs_controllers s))"
  by (simp add: length_update_le)

lemma mark_failed_behaved: "fst (mark_failed env eid s) \<noteq> Some ErrCallback" "hs_controllers (snd (mark_failed env eid s)) = hs_controllers s"
  by (simp_all add: mark_failed_def split: option.splits)

lemma handlers_behave:
  "well_behaved (startExec env t)" "well_behaved (stopExec env t)" "well_behaved (restartExec env t)"
  "well_behaved (applyRuleExec env t)" "well_behaved (applyPluginConfig env t)" "well_behaved (ExecServiceGCTask env t)"
  "well_behaved (ExecRefreshHPATask env t)"
  by (auto simp: well_behaved_def startExec_def stopExec_def restartExec_def stop_with_def applyRuleExec_def applyPluginConfig_def
      ExecServiceGCTask_def ExecRefreshHPATask_def Let_def length_update_le split: task_body.splits option.splits sum.splits)

lemma scaling_behaves: "well_behaved (horizontalScalingExec env t)" "well_behaved (verticalScalingExec env t)" "well_behaved (rollingUpgradeExec env t)"
  by (auto simp: well_behaved_def horizontalScalingExec_def verticalScalingExec_def rollingUpgradeExec_def Let_def length_update_le
      split: task_body.splits option.splits sum.splits prod.splits)

lemma env_behaves: "well_behaved (deleteTenantEnv env t)" "well_behaved (ExecApplyRegistryAuthSecretTask env t)"
  by (auto simp: well_behaved_def deleteTenantEnv_def ExecApplyRegistryAuthSecretTask_def Let_def mark_failed_behaved
      split: task_body.splits option.splits prod.splits)

lemma export_behaves: "well_behaved (ExecExportHelmChartTask env t)" "well_behaved (ExecExportK8sYamlTask env t)"
  by (auto simp: well_behaved_def ExecExportHelmChartTask_def ExecExportK8sYamlTask_def exec_export_def Let_def le_SucI delete_update_length
      split: task_body.splits option.splits)

lemmas all_behave = handlers_behave scaling_behaves env_behaves export_behaves

lemma analyst_handles:
  assumes "\<not> checkCount env s" "te_ready env"
  shows "fst (AnalystToExec env t s) \<noteq> Some ErrCallback \<and> length (hs_controllers (snd (AnalystToExec env t s))) \<le> Suc (length (hs_controllers s))"
  using assms all_behave [unfolded well_behaved_def, rule_format]
  by (cases t) (simp_all add: AnalystToExec_def)


section \<open>Properties of the tasks\<close>

lemma analyst_busy: "checkCount env s \<or> \<not> te_ready env \<Longrightarrow> AnalystToExec env (Some t) s = (Some ErrCallback, s)"
  by (auto simp: AnalystToExec_def)

lemma analyst_skips:
  assumes "t = None \<or> checkCount env s \<or> \<not> te_ready env"
  shows "snd (AnalystToExec env t s) = s"
proof (cases t)
  case (Some u)
  then show ?thesis
    using assms by (cases "checkCount env s") (simp_all add: AnalystToExec_def)
qed (simp add: AnalystToExec_def)

text \<open>Tasks interleaved with controllers that end.\<close>

datatype manager_event = TaskEvent task_env "task option" | DoneEvent string

fun manager_step :: "manager_event \<Rightarrow> handle_state \<Rightarrow> handle_state" where
  "manager_step (TaskEvent env t) s = snd (AnalystToExec env t s)"
| "manager_step (DoneEvent n) s = callback n s"

lemma manager_step_bound:
  assumes "int (length (hs_controllers s)) \<le> lim + 1" "\<forall>env t. e = TaskEvent env t \<longrightarrow> te_max env = lim"
  shows "int (length (hs_controllers (manager_step e s))) \<le> lim + 1"
proof (cases e)
  case (TaskEvent env t)
  show ?thesis
  proof (cases "t = None \<or> checkCount env s \<or> \<not> te_ready env")
    case True
    then show ?thesis
      using TaskEvent assms(1) analyst_skips [OF True] by simp
  next
    case False
    then have "int (length (hs_controllers s)) \<le> lim"
      using assms(2) TaskEvent by (simp add: checkCount_def GetControllerSize_def)
    moreover have "length (hs_controllers (snd (AnalystToExec env t s))) \<le> Suc (length (hs_controllers s))"
      using analyst_handles False by blast
    ultimately show ?thesis
      using TaskEvent by simp
  qed
next
  case (DoneEvent n)
  then show ?thesis
    using assms(1) length_delete_le [of n "hs_controllers s"] by simp
qed

text \<open>
  C13: The number of running controllers is bounded: whatever tasks arrive and controllers end, at most one more than the configured
  maximum run at a time.
\<close>

theorem controllers_bounded:
  assumes "hs_controllers s = []" "0 \<le> lim" "\<forall>e \<in> set es. \<forall>env t. e = TaskEvent env t \<longrightarrow> te_max env = lim"
  shows "int (length (hs_controllers (fold manager_step es s))) \<le> lim + 1"
proof -
  have "int (length (hs_controllers u)) \<le> lim + 1 \<Longrightarrow> int (length (hs_controllers (fold manager_step es u))) \<le> lim + 1" for u
    using assms(3)
  proof (induction es arbitrary: u)
    case (Cons e es)
    then show ?case
      using manager_step_bound [of u lim e] by simp
  qed simp
  then show ?thesis
    using assms(1,2) by simp
qed

text \<open>
  A start of a component that is not closed does nothing: the store, the controllers and the cluster stay as they are.
\<close>

theorem start_of_running_ignored:
  assumes "Type t = ''start''" "Body t = StartTaskBody sid configs" "GetAppService sid (hs_store s) = Some a" "\<not> IsClosed a"
    "int (length (hs_controllers s)) \<le> te_max env" "te_ready env"
  shows "AnalystToExec env (Some t) s = (None, s)"
  using assms by (simp add: AnalystToExec_def checkCount_def GetControllerSize_def startExec_def get_app_def closed_def)

text \<open>
  A vertical scaling that cannot convert the component has already written the new resources to the component of the store,
  although it fails and the cluster keeps the old ones.
\<close>

theorem failed_vertical_scaling_changes_record:
  assumes "Type t = ''vertical_scaling''" "Body t = VerticalScalingTaskBody sid" "GetServiceByID (te_db env) sid = Inr service"
    "GetAppService sid (hs_store s) = Some a" "\<not> IsClosed a" "te_init env sid [] [] = None"
    "int (length (hs_controllers s)) \<le> te_max env" "te_ready env"
  shows "\<exists>s' b. AnalystToExec env (Some t) s = (Some TaskFailed, s') \<and> GetAppService sid (hs_store s') = Some b \<and>
    ContainerMemory b = sr_ContainerMemory service \<and> ContainerCPU b = sr_ContainerCPU service \<and>
    hs_history s' = hs_history s \<and> hs_controllers s' = hs_controllers s"
  using assms
  by (simp add: AnalystToExec_def checkCount_def GetControllerSize_def verticalScalingExec_def get_app_def Let_def put_def with_resources_def)

text \<open>
  The failure to delete a tenant environment is not reported: when its row can still be read, the handler returns no error although the
  namespace is still there.
\<close>

theorem failed_env_deletion_unreported:
  assumes "Body t = DeleteTenantEnvTaskBody eid" "te_env env False eid = Some row"
    "kc_answer (te_client env) (hs_history s) (Delete_obj NamespaceK [] (er_Namespace row)) = Api_failed" "te_env env True eid = Some row'"
  shows "\<exists>s'. deleteTenantEnv env t s = (None, s') \<and> cluster m (hs_history s') = cluster m (hs_history s)"
  using assms by (simp add: deleteTenantEnv_def mark_failed_def api_pair Let_def cluster_snoc)

section \<open>The message loop\<close>

lemma do_task_busy:
  assumes "checkCount env (tm_state m) \<or> \<not> te_ready env"
  shows "do_task env accepted t m =
    (if accepted then m\<lparr>tm_requeued := tm_requeued m @ [t]\<rparr> else m\<lparr>tm_lost := tm_lost m @ [t]\<rparr>)"
  by (simp add: do_task_def analyst_busy [OF assms])

lemma do_task_handled:
  assumes "\<not> (checkCount env (tm_state m) \<or> \<not> te_ready env)"
  shows "tm_requeued (do_task env accepted t m) = tm_requeued m" "tm_lost (do_task env accepted t m) = tm_lost m"
    "tm_state (do_task env accepted t m) = snd (AnalystToExec env (Some t) (tm_state m))"
    "tm_panic m = None \<Longrightarrow> TaskNum (do_task env accepted t m) + TaskError (do_task env accepted t m) +
       (if tm_panic (do_task env accepted t m) = None then 0 else 1) = TaskNum m + TaskError m + 1"
proof -
  obtain rc s where rc: "AnalystToExec env (Some t) (tm_state m) = (rc, s)"
    by (cases "AnalystToExec env (Some t) (tm_state m)")
  then have "rc \<noteq> Some ErrCallback"
    using analyst_handles [of env "tm_state m" "Some t"] assms by auto
  then show "tm_requeued (do_task env accepted t m) = tm_requeued m" "tm_lost (do_task env accepted t m) = tm_lost m"
    "tm_state (do_task env accepted t m) = snd (AnalystToExec env (Some t) (tm_state m))"
    "tm_panic m = None \<Longrightarrow> TaskNum (do_task env accepted t m) + TaskError (do_task env accepted t m) +
       (if tm_panic (do_task env accepted t m) = None then 0 else 1) = TaskNum m + TaskError m + 1"
    by (auto simp: do_task_def rc Let_def split: option.splits task_error.splits)
qed

text \<open>
  C14: The message loop puts a task back on the queue exactly when too many controllers run or the store is not
  ready. Then the task has had no effect, and the loop goes on; if the queue does not take the task back, it
  is lost. Otherwise the task is handled and neither put back nor lost: it is counted as done or as failed,
  unless its handler panics, which ends the loop.
\<close>

theorem requeue_exact:
  assumes "tm_panic m = None"
  shows "if te_max env < int (length (hs_controllers (tm_state m))) \<or> \<not> te_ready env
    then Do ((env, accepted, GotTask t) # ds) m =
      Do ds (if accepted then m\<lparr>tm_requeued := tm_requeued m @ [t]\<rparr> else m\<lparr>tm_lost := tm_lost m @ [t]\<rparr>)
    else \<exists>m1. Do ((env, accepted, GotTask t) # ds) m = (if tm_panic m1 = None then Do ds m1 else m1) \<and>
      tm_state m1 = snd (AnalystToExec env (Some t) (tm_state m)) \<and>
      tm_requeued m1 = tm_requeued m \<and> tm_lost m1 = tm_lost m \<and>
      TaskNum m1 + TaskError m1 + (if tm_panic m1 = None then 0 else 1) = TaskNum m + TaskError m + 1"
proof (cases "checkCount env (tm_state m) \<or> \<not> te_ready env")
  case True
  then show ?thesis
    using assms do_task_busy [OF True, of accepted t] by (auto simp: checkCount_def GetControllerSize_def)
next
  case False
  let ?m = "do_task env accepted t m"
  have "Do ((env, accepted, GotTask t) # ds) m = (if tm_panic ?m = None then Do ds ?m else ?m)"
    by (auto simp: Let_def)
  moreover have "\<not> (te_max env < int (length (hs_controllers (tm_state m))) \<or> \<not> te_ready env)"
    using False by (simp add: checkCount_def GetControllerSize_def)
  ultimately show ?thesis
    using do_task_handled(1-3) [OF False, of accepted t] do_task_handled(4) [OF False assms, of accepted t]
    by (simp only: if_False) (intro exI [of _ ?m] conjI refl)
qed

text \<open>
  A stop or a restart that brings configurations for a component converted without any panics, and so ends
  the worker: the map it writes to is nil.
\<close>

theorem stop_of_unconfigured_panics:
  assumes "Type t = ''stop''" "Body t = StopTaskBody sid (cfg # configs)" "GetAppService sid (hs_store (tm_state m)) = Some a"
    "ExtensionSet a = None" "int (length (hs_controllers (tm_state m))) \<le> te_max env" "te_ready env"
  shows "Do ((env, accepted, GotTask t) # ds) m = m\<lparr>tm_panic := Some NilMapWrite\<rparr>"
  using assms by (simp add: do_task_def AnalystToExec_def checkCount_def GetControllerSize_def stopExec_def stop_with_def
      get_app_def add_configs_def)

fun received :: "(task_env \<times> bool \<times> dequeued) list \<Rightarrow> nat" where
  "received [] = 0"
| "received ((env, accepted, d) # ds) = (case d of GotTask t \<Rightarrow> Suc (received ds) | ContextCanceled \<Rightarrow> 0 | _ \<Rightarrow> received ds)"

definition accounted_tasks :: "task_manager \<Rightarrow> nat" where
  "accounted_tasks m = TaskNum m + TaskError m + length (tm_requeued m) + length (tm_lost m)"

lemma do_task_accounts:
  "tm_panic m = None \<Longrightarrow> tm_panic (do_task env accepted t m) = None \<Longrightarrow>
     accounted_tasks (do_task env accepted t m) = Suc (accounted_tasks m)"
  by (cases "checkCount env (tm_state m) \<or> \<not> te_ready env")
     (use do_task_busy [of env m accepted t] do_task_handled [of env m accepted t] in \<open>simp_all add: accounted_tasks_def\<close>)

lemma do_task_lost: "accepted \<Longrightarrow> tm_lost (do_task env accepted t m) = tm_lost m"
  by (cases "checkCount env (tm_state m) \<or> \<not> te_ready env")
     (use do_task_busy [of env m accepted t] do_task_handled [of env m accepted t] in simp_all)

lemma Do_accounts:
  "tm_panic m = None \<Longrightarrow> tm_panic (Do ds m) = None \<Longrightarrow> accounted_tasks (Do ds m) = accounted_tasks m + received ds"
proof (induction ds m rule: Do.induct)
  case (2 env accepted d ds m)
  then show ?case
    by (cases d) (auto simp: do_task_accounts Let_def split: if_splits, simp add: accounted_tasks_def)
qed simp

lemma Do_lost: "\<forall>(env, accepted, d) \<in> set ds. accepted \<Longrightarrow> tm_lost (Do ds m) = tm_lost m"
proof (induction ds m rule: Do.induct)
  case (2 env accepted d ds m)
  then show ?case
    by (cases d) (simp_all add: do_task_lost Let_def)
qed simp

text \<open>
  Every task that the loop takes from the queue is counted as done, counted as failed or put back, as long as the queue accepts what
  is put back and no handler panics; none disappears.
\<close>

theorem no_task_lost:
  assumes "\<forall>(env, accepted, d) \<in> set ds. accepted" "tm_lost m = []" "tm_panic m = None" "tm_panic (Do ds m) = None"
  shows "TaskNum (Do ds m) + TaskError (Do ds m) + length (tm_requeued (Do ds m)) =
    TaskNum m + TaskError m + length (tm_requeued m) + received ds"
  using Do_accounts [OF assms(3,4)] Do_lost [OF assms(1), of m] assms(2) by (simp add: accounted_tasks_def)


section \<open>Witnesses\<close>

definition demo_patch_env :: patch_env where
  "demo_patch_env = \<lparr>pe_sts = (\<lambda>s. Raw ''null''), pe_dep = (\<lambda>d. Raw ''null''), pe_text = (\<lambda>j. []), pe_now = []\<rparr>"

definition demo_task_env :: "int \<Rightarrow> task_env" where
  "demo_task_env n = \<lparr>te_max = n, te_ready = True, te_uuid = ''u1'', te_init = (\<lambda>sid cfg parts. Some (zero_app\<lparr>ServiceID := sid\<rparr>)), te_db = sample_db [],
     te_high = True, te_patch = demo_patch_env, te_client = demo_client (\<lambda>c. Api_failed), te_env = (\<lambda>again eid. None), te_del_fails = False,
     te_update_fails = False, te_secret = (\<lambda>d u p. [])\<rparr>"

definition demo_state :: handle_state where
  "demo_state = \<lparr>hs_store = store_of [running_app], hs_controllers = [], hs_history = [], hs_scalings = [], hs_gc = [], hs_db = []\<rparr>"

theorem controllers_bounded_witness:
  "int (length (hs_controllers (fold manager_step [TaskEvent (demo_task_env 1) (Some \<lparr>Type = ''start'', Body = StartTaskBody ''s2'' []\<rparr>), DoneEvent ''u0''] demo_state))) \<le> 2"
  using controllers_bounded [of demo_state 1 "[TaskEvent (demo_task_env 1) (Some \<lparr>Type = ''start'', Body = StartTaskBody ''s2'' []\<rparr>), DoneEvent ''u0'']"]
  by (simp add: demo_state_def demo_task_env_def)

theorem start_of_running_ignored_witness:
  "AnalystToExec (demo_task_env 1) (Some \<lparr>Type = ''start'', Body = StartTaskBody ''s1'' []\<rparr>) demo_state = (None, demo_state)"
  using start_of_running_ignored [of "\<lparr>Type = ''start'', Body = StartTaskBody ''s1'' []\<rparr>" "''s1''" "[]" demo_state running_app "demo_task_env 1"]
  by (simp add: demo_state_def demo_task_env_def GetAppService_def store_of_def running_app_def IsClosed_def IsCustomComponent_def IsThirdComponent_def
      IsEmpty_def IsPodNodeLost_def ServiceKindThirdParty_def ServiceKindCustom_def NewStore_def sample_defs)

definition demo_manager :: task_manager where
  "demo_manager = \<lparr>tm_state = demo_state, TaskNum = 0, TaskError = 0, tm_requeued = [], tm_lost = [], tm_health = [], tm_panic = None\<rparr>"

text \<open>With one controller running and a maximum of zero the next task has to wait.\<close>

definition busy_manager :: task_manager where
  "busy_manager = demo_manager\<lparr>tm_state := StartController (demo_task_env 0) TypeStartController zero_app demo_state\<rparr>"

definition demo_stop :: task where
  "demo_stop = \<lparr>Type = ''stop'', Body = OtherTaskBody\<rparr>"

lemma requeue_exact_witness:
  "Do [(demo_task_env 0, True, GotTask demo_stop)] busy_manager = busy_manager\<lparr>tm_requeued := [demo_stop]\<rparr> \<and>
   Do [(demo_task_env 0, False, GotTask demo_stop)] busy_manager = busy_manager\<lparr>tm_lost := [demo_stop]\<rparr> \<and>
   tm_requeued (Do [(demo_task_env 0, True, GotTask demo_stop)] demo_manager) = []"
proof -
  have busy: "0 < int (length (hs_controllers (tm_state busy_manager)))"
    by (simp add: busy_manager_def demo_state_def)
  have none: "tm_panic busy_manager = None" "tm_panic demo_manager = None" "tm_requeued busy_manager = []" "tm_lost busy_manager = []"
      "tm_requeued demo_manager = []" "hs_controllers (tm_state demo_manager) = []" "te_max (demo_task_env 0) = 0" "te_ready (demo_task_env 0)"
    by (simp_all add: busy_manager_def demo_manager_def demo_task_env_def demo_state_def)
  show ?thesis
    using requeue_exact [OF none(1), of "demo_task_env 0" True demo_stop "[]"]
      requeue_exact [OF none(1), of "demo_task_env 0" False demo_stop "[]"]
      requeue_exact [OF none(2), of "demo_task_env 0" True demo_stop "[]"] busy
    by (auto simp: none)
qed

theorem no_task_lost_witness:
  "TaskNum (Do [(demo_task_env 0, True, GotTask demo_stop)] busy_manager) + TaskError (Do [(demo_task_env 0, True, GotTask demo_stop)] busy_manager) +
   length (tm_requeued (Do [(demo_task_env 0, True, GotTask demo_stop)] busy_manager)) = 1"
proof -
  have "Do [(demo_task_env 0, True, GotTask demo_stop)] busy_manager = busy_manager\<lparr>tm_requeued := tm_requeued busy_manager @ [demo_stop]\<rparr>"
    using do_task_busy [of "demo_task_env 0" busy_manager True demo_stop]
    by (simp add: checkCount_def GetControllerSize_def busy_manager_def demo_manager_def demo_task_env_def demo_state_def Let_def)
  then show ?thesis
    using no_task_lost [of "[(demo_task_env 0, True, GotTask demo_stop)]" busy_manager]
    by (simp add: busy_manager_def demo_manager_def)
qed

lemma stop_of_unconfigured_panics_witness:
  "tm_panic (Do [(demo_task_env 1, True, GotTask \<lparr>Type = ''stop'', Body = StopTaskBody ''s1'' [(''k'', ''v'')]\<rparr>)] demo_manager) =
     Some NilMapWrite"
proof -
  have "GetAppService ''s1'' (hs_store (tm_state demo_manager)) = Some running_app" "ExtensionSet running_app = None"
    by (simp_all add: demo_manager_def demo_state_def GetAppService_def store_of_def running_app_def NewStore_def sample_defs)
  then show ?thesis
    using stop_of_unconfigured_panics [of "\<lparr>Type = ''stop'', Body = StopTaskBody ''s1'' [(''k'', ''v'')]\<rparr>" "''s1''" "(''k'', ''v'')" "[]"
        demo_manager running_app "demo_task_env 1" True "[]"]
    by (simp add: demo_manager_def demo_state_def demo_task_env_def)
qed

end
