(* ===== verification/Rule_Conversion.thy ===== *)
theory Rule_Conversion
  imports Gateway_Routing App_Init
begin

text \<open>
  How the gateway rules and ports of a component become Kubernetes objects:
  \<^verbatim>\<open>src/worker/appm/conversion/gateway.go\<close> builds the services, ingresses and secrets
  from the rows of the database, and \<^verbatim>\<open>createPorts\<close> of \<^verbatim>\<open>version.go\<close>
  the ports of the containers behind them.

  The tables these functions read are a record \<open>gw_tables\<close>, with a failure flag per query and
  key; its last fields are the environment variable \<^verbatim>\<open>EX_DOMAIN\<close> and whether the
  cluster has the networking API. A row is read afresh by every query, so rewriting its port does
  not reach the table. An error is a string on the left of the inner sum, a panic on the left of the
  outer one. The built ingresses have the fields of the two ingress APIs; \<open>gateway_view\<close> is the
  part that the gateway's store reads.
\<close>

section \<open>Tables\<close>

record port_row =
  pr_ID :: int
  pr_ServiceID :: string
  pr_ContainerPort :: int
  pr_MappingPort :: int
  pr_Protocol :: string
  pr_IsInnerService :: "bool option"
  pr_IsOuterService :: "bool option"
  pr_K8sServiceName :: string

record plugin_port_row =
  pl_ServiceID :: string
  pl_ContainerPort :: int
  pl_PluginPort :: int

record plugin_relation_row =
  rl_ServiceID :: string
  rl_PluginModel :: string
  rl_Switch :: bool

record http_rule_row =
  hr_UUID :: string
  hr_ServiceID :: string
  hr_ContainerPort :: int
  hr_Domain :: string
  hr_Path :: string
  hr_Header :: string
  hr_Cookie :: string
  hr_Weight :: int
  hr_CertificateID :: string
  hr_PathRewrite :: bool

record http_rewrite_row =
  rw_HTTPRuleID :: string
  rw_Regex :: string
  rw_Replacement :: string
  rw_Flag :: string

record tcp_rule_row =
  tr_UUID :: string
  tr_ServiceID :: string
  tr_ContainerPort :: int
  tr_IP :: string
  tr_Port :: int

record rule_extension_row =
  rx_RuleID :: string
  rx_Key :: string
  rx_Value :: string

record rule_config_row =
  rc_RuleID :: string
  rc_Key :: string
  rc_Value :: string

record certificate_row =
  ct_UUID :: string
  ct_Certificate :: string
  ct_PrivateKey :: string

datatype gw_query =
  QPortsOfService | QPort | QPluginRelation | QPluginPorts | QHTTPRules | QTCPRules | QRewrites
| QExtensions | QRuleConfigs | QCertificate

record gw_tables =
  t_ports :: "port_row list"
  t_plugin_ports :: "plugin_port_row list"
  t_plugin_relations :: "plugin_relation_row list"
  t_http_rules :: "http_rule_row list"
  t_rewrites :: "http_rewrite_row list"
  t_tcp_rules :: "tcp_rule_row list"
  t_extensions :: "rule_extension_row list"
  t_configs :: "rule_config_row list"
  t_certificates :: "certificate_row list"
  t_fails :: "gw_query \<Rightarrow> string \<Rightarrow> bool"
  ex_domain :: string
  high_version :: bool

definition rows_of :: "gw_tables \<Rightarrow> gw_query \<Rightarrow> string \<Rightarrow> ('r \<Rightarrow> bool) \<Rightarrow> 'r list \<Rightarrow> string + 'r list" where
  "rows_of g q key P rows = (if t_fails g q key then Inl ''query failed'' else Inr (filter P rows))"

definition GetPortsByServiceID :: "gw_tables \<Rightarrow> string \<Rightarrow> string + port_row list" where
  "GetPortsByServiceID g sid = rows_of g QPortsOfService sid (\<lambda>r. pr_ServiceID r = sid) (t_ports g)"

text \<open>A query for one row scans all matching rows into the same struct: the last one remains.\<close>

definition dao_GetPort :: "gw_tables \<Rightarrow> string \<Rightarrow> int \<Rightarrow> string + port_row" where
  "dao_GetPort g sid port =
     (if t_fails g QPort sid then Inl ''query failed''
      else case find_row (\<lambda>r. pr_ServiceID r = sid \<and> pr_ContainerPort r = port) (t_ports g) of
        None \<Rightarrow> Inl ''port not found'' | Some r \<Rightarrow> Inr r)"

definition CheckSomeModelPluginByServiceID :: "gw_tables \<Rightarrow> string \<Rightarrow> string \<Rightarrow> string + bool" where
  "CheckSomeModelPluginByServiceID g sid pluginModel =
     (case rows_of g QPluginRelation sid
        (\<lambda>r. rl_ServiceID r = sid \<and> rl_PluginModel r = pluginModel \<and> rl_Switch r) (t_plugin_relations g) of
        Inl e \<Rightarrow> Inl e
      | Inr relations \<Rightarrow> (if length relations = 1 then Inr True else Inr False))"

definition GetPluginMappingPorts :: "gw_tables \<Rightarrow> string \<Rightarrow> string + plugin_port_row list" where
  "GetPluginMappingPorts g sid =
     rows_of g QPluginPorts sid (\<lambda>r. pl_ServiceID r = sid) (sort_key pl_PluginPort (t_plugin_ports g))"

definition GetHTTPRuleByServiceIDAndContainerPort ::
  "gw_tables \<Rightarrow> string \<Rightarrow> int \<Rightarrow> string + http_rule_row list" where
  "GetHTTPRuleByServiceIDAndContainerPort g sid port =
     rows_of g QHTTPRules sid (\<lambda>r. hr_ServiceID r = sid \<and> hr_ContainerPort r = port) (t_http_rules g)"

definition GetTCPRuleByServiceIDAndContainerPort ::
  "gw_tables \<Rightarrow> string \<Rightarrow> int \<Rightarrow> string + tcp_rule_row list" where
  "GetTCPRuleByServiceIDAndContainerPort g sid port =
     rows_of g QTCPRules sid (\<lambda>r. tr_ServiceID r = sid \<and> tr_ContainerPort r = port) (t_tcp_rules g)"

definition ListByHTTPRuleID :: "gw_tables \<Rightarrow> string \<Rightarrow> string + http_rewrite_row list" where
  "ListByHTTPRuleID g rid = rows_of g QRewrites rid (\<lambda>r. rw_HTTPRuleID r = rid) (t_rewrites g)"

definition GetRuleExtensionByRuleID :: "gw_tables \<Rightarrow> string \<Rightarrow> string + rule_extension_row list" where
  "GetRuleExtensionByRuleID g rid = rows_of g QExtensions rid (\<lambda>r. rx_RuleID r = rid) (t_extensions g)"

definition config_ListByRuleID :: "gw_tables \<Rightarrow> string \<Rightarrow> string + rule_config_row list" where
  "config_ListByRuleID g rid = rows_of g QRuleConfigs rid (\<lambda>r. rc_RuleID r = rid) (t_configs g)"

definition GetCertificateByID :: "gw_tables \<Rightarrow> string \<Rightarrow> string + certificate_row option" where
  "GetCertificateByID g cid =
     (if t_fails g QCertificate cid then Inl ''query failed''
      else Inr (find_row (\<lambda>r. ct_UUID r = cid) (t_certificates g)))"

section \<open>Objects\<close>

record svc_port =
  kp_Name :: string
  kp_Protocol :: string
  kp_Port :: int
  kp_TargetPort :: int

record k8s_service =
  ks_meta :: object_meta
  ks_ports :: "svc_port list"
  ks_selector :: "string gomap"
  ks_type :: string
  ks_ClusterIP :: string
  ks_PublishNotReadyAddresses :: bool

record k8s_secret =
  sec_meta :: object_meta
  sec_data :: "string gomap"
  sec_type :: string

text \<open>A backend names a service and a port; the path type is nil in the older API.\<close>

record http_path =
  hp_path :: string
  hp_type :: "string option"
  hp_backend :: "string \<times> int"

record k8s_ingress =
  ki_beta :: bool
  ki_meta :: object_meta
  ki_tls :: "ing_tls list"
  ki_rules :: "(string \<times> http_path list) list"
  ki_default :: "(string \<times> int) option"

record K8sResources =
  Services :: "k8s_service list"
  Secrets :: "k8s_secret list"
  Ingresses :: "k8s_ingress list"

record AppServiceBuild =
  ab_serviceID :: string
  ab_eventID :: string
  ab_tenantEnv :: env_row
  ab_service :: service_row
  ab_appService :: app_service
  ab_replicationType :: string

definition AppServiceBuilder :: "database \<Rightarrow> string \<Rightarrow> string \<Rightarrow> app_service \<Rightarrow> string + AppServiceBuild" where
  "AppServiceBuilder db serviceID replicationType a = (case GetServiceByID db serviceID of
       Inl _ \<Rightarrow> Inl ''find service error''
     | Inr service \<Rightarrow> (case GetTenantEnvByUUID db (sr_TenantEnvID service) of
         Inl _ \<Rightarrow> Inl ''find tenant env error''
       | Inr env \<Rightarrow>
           Inr \<lparr>ab_serviceID = serviceID, ab_eventID = [], ab_tenantEnv = env, ab_service = service,
                ab_appService = a, ab_replicationType = replicationType\<rparr>))"

section \<open>Names, labels and services\<close>

text \<open>The default domain; a value like \<^verbatim>\<open>:80\<close> leaves nothing whose first byte could be read.\<close>

definition createDefaultDomain :: "gw_tables \<Rightarrow> string \<Rightarrow> string \<Rightarrow> int \<Rightarrow> string go" where
  "createDefaultDomain g ns serviceAlias servicePort =
     (if ex_domain g = [] then Inr []
      else let d1 = (if str_contains (ex_domain g) '':'' then hd (split_byte (CHR '':'') (ex_domain g))
                     else ex_domain g)
        in if d1 = [] then Inl IndexOutOfRange
           else let d2 = (if hd d1 = CHR ''.'' then tl d1 else d1); d3 = trim_space d2
             in Inr (go_itoa servicePort @ ''.'' @ serviceAlias @ ''.'' @ ns @ ''.'' @ d3))"

definition KeepMaxLength :: "string \<Rightarrow> nat \<Rightarrow> string" where
  "KeepMaxLength raw maxl = (if length raw > maxl then take maxl raw else raw)"

definition conversionPortProtocol :: "string \<Rightarrow> string" where
  "conversionPortProtocol protocol =
     (if protocol = ''udp'' then ''UDP'' else if protocol = ''sctp'' then ''SCTP'' else ''TCP'')"

text \<open>\<^verbatim>\<open>strings.ToLower\<close> on ASCII text.\<close>

definition to_lower :: "string \<Rightarrow> string" where
  "to_lower s = map (\<lambda>c. let n = of_char c :: nat in if 65 \<le> n \<and> n \<le> 90 then char_of (n + 32) else c) s"

definition svc_port_name :: "string \<Rightarrow> int \<Rightarrow> string" where
  "svc_port_name protocol port = to_lower protocol @ ''-'' @ go_itoa port"

definition tolerate_unready :: string where
  "tolerate_unready = ''wutong-paas.com/tolerate-unready-endpoints''"

definition createServiceAnnotations :: "AppServiceBuild \<Rightarrow> string gomap" where
  "createServiceAnnotations b =
     (if sr_Replicas (ab_service b) \<le> 1 then [(tolerate_unready, ''true'')] else [])"

definition service_selector :: "AppServiceBuild \<Rightarrow> string gomap" where
  "service_selector b =
     (if ServiceKind (ab_appService b) \<noteq> ServiceKindThirdParty
      then [(''name'', sr_ServiceAlias (ab_service b))] else [])"

definition with_unready_label :: "AppServiceBuild \<Rightarrow> string gomap \<Rightarrow> string gomap" where
  "with_unready_label b labels =
     (if sr_Replicas (ab_service b) \<le> 1 then AList.update tolerate_unready ''true'' labels else labels)"

definition createInnerService :: "database \<Rightarrow> AppServiceBuild \<Rightarrow> port_row \<Rightarrow> k8s_service go" where
  "createInnerService db b port =
     (let name = (if pr_K8sServiceName port = []
            then KeepMaxLength (GetK8sWorkloadName (ab_appService b) @ ''-'' @ go_itoa (pr_ID port) @ ''-'' @
                   go_itoa (pr_ContainerPort port)) 63
            else pr_K8sServiceName port)
      in bind_go (GetNamespace (ab_appService b)) (\<lambda>ns.
        let labels = with_unready_label b (GetCommonLabels (tenant_of db)
              [[(''service_type'', ''inner''),
                (''name'', sr_ServiceAlias (ab_service b) @ ''Service''),
                (''port_protocol'', pr_Protocol port),
                (''service_port'', go_itoa (pr_ContainerPort port)),
                (''version'', sr_DeployVersion (ab_service b))]] (ab_appService b));
            protocol = (if pr_Protocol port = ''udp'' then ''UDP'' else ''TCP'');
            mapped = wrap32 (pr_MappingPort port);
            servicePort = \<lparr>kp_Name = svc_port_name protocol (pr_ContainerPort port), kp_Protocol = protocol,
              kp_Port = (if mapped = 0 then wrap32 (pr_ContainerPort port) else mapped),
              kp_TargetPort = wrap32 (pr_ContainerPort port)\<rparr>
        in Inr \<lparr>ks_meta = zero_meta\<lparr>Name := name, Namespace := ns, Labels := labels,
                  Annotations := createServiceAnnotations b\<rparr>,
                ks_ports = [servicePort], ks_selector = service_selector b, ks_type = [], ks_ClusterIP = [],
                ks_PublishNotReadyAddresses = False\<rparr>))"

definition createKubernetesNativeService :: "database \<Rightarrow> AppServiceBuild \<Rightarrow> port_row \<Rightarrow> k8s_service go" where
  "createKubernetesNativeService db b port = bind_go (createInnerService db b port) (\<lambda>svc.
     let name = (if pr_K8sServiceName port = []
           then GetK8sWorkloadName (ab_appService b) @ ''-'' @ go_itoa (pr_ContainerPort port)
           else pr_K8sServiceName port)
     in Inr (svc\<lparr>ks_meta := (ks_meta svc)\<lparr>Name := name\<rparr>\<rparr>))"

definition createOuterService :: "database \<Rightarrow> AppServiceBuild \<Rightarrow> port_row \<Rightarrow> k8s_service go" where
  "createOuterService db b port =
     (let n0 = (if pr_K8sServiceName port = []
            then GetK8sWorkloadName (ab_appService b) @ ''-'' @ go_itoa (pr_ID port) @ ''-'' @
                   go_itoa (pr_ContainerPort port)
            else pr_K8sServiceName port);
          name = KeepMaxLength n0 59 @ ''-out''
      in bind_go (GetNamespace (ab_appService b)) (\<lambda>ns.
        let labels = with_unready_label b (GetCommonLabels (tenant_of db)
              [[(''service_type'', ''outer''),
                (''name'', sr_ServiceAlias (ab_service b) @ ''ServiceOUT''),
                (''tenant_env_name'', er_Name (ab_tenantEnv b)),
                (''protocol'', pr_Protocol port),
                (''port_protocol'', pr_Protocol port),
                (''service_port'', go_itoa (pr_ContainerPort port)),
                (''event_id'', ab_eventID b),
                (''version'', sr_DeployVersion (ab_service b))]] (ab_appService b));
            protocol = conversionPortProtocol (pr_Protocol port);
            servicePort = \<lparr>kp_Name = svc_port_name protocol (pr_ContainerPort port), kp_Protocol = protocol,
              kp_Port = wrap32 (pr_ContainerPort port), kp_TargetPort = wrap32 (pr_ContainerPort port)\<rparr>
        in Inr \<lparr>ks_meta = zero_meta\<lparr>Name := name, Namespace := ns, Labels := labels\<rparr>,
                ks_ports = [servicePort], ks_selector = service_selector b, ks_type = ''ClusterIP'',
                ks_ClusterIP = [], ks_PublishNotReadyAddresses = False\<rparr>))"

definition stateful_port :: "port_row \<Rightarrow> svc_port" where
  "stateful_port p =
     (let mapped = wrap32 (pr_MappingPort p)
      in \<lparr>kp_Name = svc_port_name ''TCP'' (pr_ContainerPort p), kp_Protocol = ''TCP'',
          kp_Port = (if mapped = 0 then wrap32 (pr_ContainerPort p) else mapped),
          kp_TargetPort = wrap32 (pr_ContainerPort p)\<rparr>)"

definition createStatefulService :: "database \<Rightarrow> AppServiceBuild \<Rightarrow> port_row list \<Rightarrow> k8s_service go" where
  "createStatefulService db b ports = bind_go (GetNamespace (ab_appService b)) (\<lambda>ns.
     Inr \<lparr>ks_meta = zero_meta\<lparr>Name := GetK8sWorkloadName (ab_appService b), Namespace := ns,
            Labels := GetCommonLabels (tenant_of db)
              [[(''service_type'', ''stateful''), (''name'', sr_ServiceAlias (ab_service b))]] (ab_appService b),
            Annotations := [(''service.alpha.kubernetes.io/tolerate-unready-endpoints'', ''true'')]\<rparr>,
          ks_ports = map stateful_port ports,
          ks_selector = [(''name'', ServiceAlias (ab_appService b))], ks_type = [],
          ks_ClusterIP = ''None'', ks_PublishNotReadyAddresses = True\<rparr>)"

definition BuildOnPort :: "gw_tables \<Rightarrow> database \<Rightarrow> AppServiceBuild \<Rightarrow> int \<Rightarrow> bool \<Rightarrow> (string + k8s_service) go" where
  "BuildOnPort g db b p isOut = (case dao_GetPort g (ab_serviceID b) p of
       Inl _ \<Rightarrow> Inr (Inl ''find service port from db error'')
     | Inr port \<Rightarrow>
         bind_go (if isOut then Inr False else deref (pr_IsInnerService port)) (\<lambda>inner.
           if inner then bind_go (createInnerService db b port) (\<lambda>s. Inr (Inr s))
           else bind_go (if isOut then deref (pr_IsOuterService port) else Inr False) (\<lambda>outer.
             if outer then bind_go (createOuterService db b port) (\<lambda>s. Inr (Inr s))
             else Inr (Inl ''tenant env service port is not exist''))))"

section \<open>Rules\<close>

definition createIngressMeta :: "string \<Rightarrow> string \<Rightarrow> string gomap \<Rightarrow> object_meta" where
  "createIngressMeta name ns labels = zero_meta\<lparr>Name := name, Namespace := ns, Labels := labels\<rparr>"

definition createNtwIngress ::
  "string \<Rightarrow> string \<Rightarrow> string \<Rightarrow> string \<Rightarrow> string \<Rightarrow> string gomap \<Rightarrow> int \<Rightarrow> k8s_ingress" where
  "createNtwIngress domain path name ns serviceName labels pluginContainerPort =
     \<lparr>ki_beta = False, ki_meta = createIngressMeta name ns labels, ki_tls = [],
      ki_rules = [(domain, [\<lparr>hp_path = path, hp_type = Some ''Exact'',
        hp_backend = (serviceName, wrap32 pluginContainerPort)\<rparr>])],
      ki_default = Some (serviceName, wrap32 pluginContainerPort)\<rparr>"

definition createBetaIngress ::
  "string \<Rightarrow> string \<Rightarrow> string \<Rightarrow> string \<Rightarrow> string \<Rightarrow> string gomap \<Rightarrow> int \<Rightarrow> k8s_ingress" where
  "createBetaIngress domain path name ns serviceName labels pluginContainerPort =
     \<lparr>ki_beta = True, ki_meta = createIngressMeta name ns labels, ki_tls = [],
      ki_rules = [(domain, [\<lparr>hp_path = path, hp_type = None,
        hp_backend = (serviceName, wrap32 pluginContainerPort)\<rparr>])],
      ki_default = None\<rparr>"

definition SetAnnotations :: "string gomap \<Rightarrow> k8s_ingress \<Rightarrow> k8s_ingress" where
  "SetAnnotations annos i = i\<lparr>ki_meta := (ki_meta i)\<lparr>Annotations := annos\<rparr>\<rparr>"

definition put_ann :: "string \<Rightarrow> string \<Rightarrow> string gomap \<Rightarrow> string gomap" where
  "put_ann name v annos = AList.update (GetAnnotationWithPrefix name) v annos"

text \<open>The configurations of a rule come last and so replace what the code derived itself.\<close>

definition put_configs :: "rule_config_row list \<Rightarrow> string gomap \<Rightarrow> string gomap" where
  "put_configs configs annos = foldl (\<lambda>m cfg. put_ann (rc_Key cfg) (rc_Value cfg) m) annos configs"

definition rewrite_step :: "string gomap \<Rightarrow> nat \<times> http_rewrite_row \<Rightarrow> string gomap" where
  "rewrite_step annos ir = (case ir of (i, rw) \<Rightarrow>
     put_ann (''rewrite-'' @ nat_str i @ ''-flag'') (rw_Flag rw)
      (put_ann (''rewrite-'' @ nat_str i @ ''-replacement'') (rw_Replacement rw)
        (put_ann (''rewrite-'' @ nat_str i @ ''-regex'') (rw_Regex rw) annos)))"

definition extension_step :: "http_rule_row \<Rightarrow> string gomap \<Rightarrow> rule_extension_row \<Rightarrow> string gomap" where
  "extension_step rule annos ext =
     (if rx_Key ext = ''httptohttps''
      then (if hr_CertificateID rule = [] then annos else put_ann ''force-ssl-redirect'' ''true'' annos)
      else if rx_Key ext = ''lb-type''
      then (if prefix ''upstream-hash-by'' (rx_Value ext)
            then (let s = split_byte (CHR '':'') (rx_Value ext)
                  in if length s < 2 then annos else put_ann ''upstream-hash-by'' (s ! 1) annos)
            else put_ann ''lb-type'' (rx_Value ext) annos)
      else annos)"

definition rule_annotations :: "http_rule_row \<Rightarrow> string gomap" where
  "rule_annotations rule =
     (let m1 = (if 1 < hr_Weight rule then put_ann ''weight'' (go_itoa (hr_Weight rule)) [] else []);
          m2 = (if hr_Header rule \<noteq> [] then put_ann ''header'' (hr_Header rule) m1 else m1);
          m3 = (if hr_Cookie rule \<noteq> [] then put_ann ''cookie'' (hr_Cookie rule) m2 else m2)
      in if hr_PathRewrite rule then put_ann ''path-rewrite'' ''true'' m3 else m3)"

definition parseAnnotations :: "gw_tables \<Rightarrow> http_rule_row \<Rightarrow> string + string gomap" where
  "parseAnnotations g rule =
     (let m4 = rule_annotations rule
      in case ListByHTTPRuleID g (hr_UUID rule) of Inl e \<Rightarrow> Inl e
         | Inr rewrites \<Rightarrow> (let m5 = foldl rewrite_step m4 (enumerate 0 rewrites)
             in case GetRuleExtensionByRuleID g (hr_UUID rule) of Inl e \<Rightarrow> Inl e
                | Inr extensions \<Rightarrow> (let m6 = foldl (extension_step rule) m5 extensions
                    in case config_ListByRuleID g (hr_UUID rule) of Inl e \<Rightarrow> Inl e
                       | Inr configs \<Rightarrow> Inr (put_configs configs m6))))"

definition createSecret ::
  "gw_tables \<Rightarrow> http_rule_row \<Rightarrow> string \<Rightarrow> string \<Rightarrow> string gomap \<Rightarrow> string + k8s_secret option" where
  "createSecret g rule name ns labels =
     (if hr_CertificateID rule = [] then Inr None
      else case GetCertificateByID g (hr_CertificateID rule) of
        Inl _ \<Rightarrow> Inl ''cant not get certificate by id''
      | Inr None \<Rightarrow> Inl ''certificate not found''
      | Inr (Some cert) \<Rightarrow>
          (if trim_space (ct_Certificate cert) = [] \<or> trim_space (ct_PrivateKey cert) = []
           then Inl ''certificate not found''
           else Inr (Some \<lparr>sec_meta = createIngressMeta name ns labels,
                  sec_data = [(''tls.crt'', ct_Certificate cert), (''tls.key'', ct_PrivateKey cert)],
                  sec_type = ''Opaque''\<rparr>)))"

definition rule_path :: "http_rule_row \<Rightarrow> string" where
  "rule_path rule = (let path = replace_byte (CHR '' '') [] (hr_Path rule) in if path = [] then ''/'' else path)"

definition create_ingress ::
  "gw_tables \<Rightarrow> string \<Rightarrow> string \<Rightarrow> string \<Rightarrow> string \<Rightarrow> string \<Rightarrow> string gomap \<Rightarrow> int \<Rightarrow> k8s_ingress" where
  "create_ingress g = (if high_version g then createNtwIngress else createBetaIngress)"

definition applyHTTPRule ::
  "gw_tables \<Rightarrow> database \<Rightarrow> AppServiceBuild \<Rightarrow> http_rule_row \<Rightarrow> int \<Rightarrow> int \<Rightarrow> k8s_service \<Rightarrow>
     (string + k8s_ingress \<times> k8s_secret option) go" where
  "applyHTTPRule g db b rule containerPort pluginContainerPort service =
     (let path = rule_path rule;
          d0 = replace_byte (CHR '' '') [] (hr_Domain rule)
      in bind_go (if d0 = []
           then createDefaultDomain g (er_Namespace (ab_tenantEnv b)) (sr_ServiceAlias (ab_service b)) containerPort
           else Inr d0) (\<lambda>domain.
         let labels = GetCommonLabels (tenant_of db) [] (ab_appService b);
             name = hr_UUID rule
         in bind_go (GetNamespace (ab_appService b)) (\<lambda>ns.
           case createSecret g rule name ns labels of Inl e \<Rightarrow> Inr (Inl e)
           | Inr sec \<Rightarrow> (case parseAnnotations g rule of Inl e \<Rightarrow> Inr (Inl e)
             | Inr annotations \<Rightarrow>
                 (let ing = create_ingress g domain path name ns (Name (ks_meta service)) labels pluginContainerPort;
                      ing1 = (case sec of None \<Rightarrow> ing
                        | Some s \<Rightarrow> ing\<lparr>ki_tls := [\<lparr>tls_hosts = [domain], tls_secret = Name (sec_meta s)\<rparr>]\<rparr>)
                  in Inr (Inr (SetAnnotations annotations ing1, sec)))))))"

definition l4_annotations :: "tcp_rule_row \<Rightarrow> string gomap" where
  "l4_annotations rule =
     put_ann ''l4-port'' (go_itoa (tr_Port rule)) (put_ann ''l4-host'' (tr_IP rule) (put_ann ''l4-enable'' ''true'' []))"

definition applyTCPRule ::
  "gw_tables \<Rightarrow> database \<Rightarrow> AppServiceBuild \<Rightarrow> tcp_rule_row \<Rightarrow> k8s_service \<Rightarrow> string \<Rightarrow> (string + k8s_ingress) go" where
  "applyTCPRule g db b rule service ns =
     (let annos = l4_annotations rule
      in case config_ListByRuleID g (tr_UUID rule) of Inl e \<Rightarrow> Inr (Inl e)
         | Inr configs \<Rightarrow>
             (let annos1 = put_configs configs annos;
                  meta = createIngressMeta (tr_UUID rule) ns (GetCommonLabels (tenant_of db) [] (ab_appService b))
              in case ks_ports service of [] \<Rightarrow> Inl IndexOutOfRange
                 | p # _ \<Rightarrow> Inr (Inr (SetAnnotations annos1
                     \<lparr>ki_beta = \<not> high_version g, ki_meta = meta, ki_tls = [], ki_rules = [],
                      ki_default = Some (Name (ks_meta service), kp_Port p)\<rparr>))))"

text \<open>A rule whose conversion fails is skipped; a failed query for the rules counts as no rules.\<close>

definition http_rule_step ::
  "gw_tables \<Rightarrow> database \<Rightarrow> AppServiceBuild \<Rightarrow> int \<Rightarrow> int \<Rightarrow> k8s_service \<Rightarrow>
     k8s_ingress list \<times> k8s_secret list \<Rightarrow> http_rule_row \<Rightarrow> (k8s_ingress list \<times> k8s_secret list) go" where
  "http_rule_step g db b containerPort pluginContainerPort service acc rule = (case acc of (ings, secs) \<Rightarrow>
     bind_go (applyHTTPRule g db b rule containerPort pluginContainerPort service) (\<lambda>r. case r of
       Inl _ \<Rightarrow> Inr (ings, secs)
     | Inr (ing, sec) \<Rightarrow> Inr (ings @ [ing], (case sec of None \<Rightarrow> secs | Some s \<Rightarrow> secs @ [s]))))"

definition tcp_rule_step ::
  "gw_tables \<Rightarrow> database \<Rightarrow> AppServiceBuild \<Rightarrow> k8s_service \<Rightarrow> k8s_ingress list \<Rightarrow> tcp_rule_row \<Rightarrow> k8s_ingress list go" where
  "tcp_rule_step g db b service ings rule =
     bind_go (GetNamespace (ab_appService b)) (\<lambda>ns. bind_go (applyTCPRule g db b rule service ns) (\<lambda>r. case r of
       Inl _ \<Rightarrow> Inr ings
     | Inr ing \<Rightarrow> Inr (ings @ [ing])))"

definition rows_or_none :: "string + 'r list \<Rightarrow> 'r list" where
  "rows_or_none r = (case r of Inl _ \<Rightarrow> [] | Inr rows \<Rightarrow> rows)"

definition ApplyRules ::
  "gw_tables \<Rightarrow> database \<Rightarrow> AppServiceBuild \<Rightarrow> string \<Rightarrow> int \<Rightarrow> int \<Rightarrow> k8s_service \<Rightarrow>
     (k8s_ingress list \<times> k8s_secret list) go" where
  "ApplyRules g db b serviceID containerPort pluginContainerPort service =
     bind_go (for_go (http_rule_step g db b containerPort pluginContainerPort service) ([], [])
        (rows_or_none (GetHTTPRuleByServiceIDAndContainerPort g serviceID containerPort))) (\<lambda>(ings, secs).
     bind_go (for_go (tcp_rule_step g db b service) ings
        (rows_or_none (GetTCPRuleByServiceIDAndContainerPort g serviceID containerPort))) (\<lambda>ings'.
     Inr (ings', secs)))"

section \<open>Ports of plugins and the whole build\<close>

definition InBoundNetPlugin :: string where
  "InBoundNetPlugin = ''net-plugin:up''"

definition InBoundAndOutBoundNetPlugin :: string where
  "InBoundAndOutBoundNetPlugin = ''net-plugin:in-and-out''"

definition checkUpstreamPluginRelation :: "gw_tables \<Rightarrow> string \<Rightarrow> string + bool" where
  "checkUpstreamPluginRelation g sid = (case CheckSomeModelPluginByServiceID g sid InBoundNetPlugin of
       Inl e \<Rightarrow> Inl e
     | Inr inBoundOK \<Rightarrow> (if inBoundOK then Inr True
                        else CheckSomeModelPluginByServiceID g sid InBoundAndOutBoundNetPlugin))"

text \<open>One port against one plugin port; the map remembers the port that the plugin took over.\<close>

definition map_port :: "port_row \<times> (int \<times> int) list \<Rightarrow> plugin_port_row \<Rightarrow> port_row \<times> (int \<times> int) list" where
  "map_port st pport = (case st of (port, pp) \<Rightarrow>
     (if pl_ContainerPort pport = pr_ContainerPort port
      then (port\<lparr>pr_ContainerPort := pl_PluginPort pport, pr_MappingPort := pl_PluginPort pport\<rparr>,
            AList.update (wrap32 (pl_PluginPort pport)) (pr_ContainerPort port) pp)
      else (port, pp)))"

definition CreateUpstreamPluginMappingPort ::
  "port_row list \<Rightarrow> plugin_port_row list \<Rightarrow> port_row list \<times> (int \<times> int) list" where
  "CreateUpstreamPluginMappingPort ports pluginPorts =
     foldl (\<lambda>(done, pp) port. case foldl map_port (port, pp) pluginPorts of (port', pp') \<Rightarrow> (done @ [port'], pp'))
       ([], []) ports"

definition pp_get :: "(int \<times> int) list \<Rightarrow> int \<Rightarrow> int" where
  "pp_get pp k = (case map_of pp k of None \<Rightarrow> 0 | Some v \<Rightarrow> v)"

definition origin_label :: "(int \<times> int) list \<Rightarrow> k8s_service \<Rightarrow> k8s_service go" where
  "origin_label pp service = (case ks_ports service of
       [] \<Rightarrow> Inl IndexOutOfRange
     | p # _ \<Rightarrow> Inr (service\<lparr>ks_meta := (ks_meta service)\<lparr>Labels :=
         AList.update ''origin_port'' (go_itoa (pp_get pp (kp_Port p))) (Labels (ks_meta service))\<rparr>\<rparr>))"

definition CreateUpstreamPluginMappingService :: "k8s_service list \<Rightarrow> (int \<times> int) list \<Rightarrow> k8s_service list go" where
  "CreateUpstreamPluginMappingService svcs pp =
     for_go (\<lambda>done s. bind_go (origin_label pp s) (\<lambda>s'. Inr (done @ [s']))) [] svcs"

definition inner_service :: "database \<Rightarrow> AppServiceBuild \<Rightarrow> port_row \<Rightarrow> k8s_service go" where
  "inner_service db b port =
     (if GovernanceMode (ab_appService b) = GovernanceModeKubernetesNativeService
      then createKubernetesNativeService db b port else createInnerService db b port)"

definition build_port ::
  "gw_tables \<Rightarrow> database \<Rightarrow> AppServiceBuild \<Rightarrow> (int \<times> int) list \<Rightarrow> K8sResources \<Rightarrow> port_row \<Rightarrow> K8sResources go" where
  "build_port g db b pp res port =
     bind_go (deref (pr_IsInnerService port)) (\<lambda>inner.
     bind_go (if inner then bind_go (inner_service db b port) (\<lambda>s. Inr (res\<lparr>Services := Services res @ [s]\<rparr>))
              else Inr res) (\<lambda>res1.
     bind_go (deref (pr_IsOuterService port)) (\<lambda>outer.
     if \<not> outer then Inr res1
     else bind_go (createOuterService db b port) (\<lambda>service.
       let mapped = pp_get pp (wrap32 (pr_ContainerPort port));
           relContainerPort = (if mapped = 0 then pr_ContainerPort port else mapped)
       in bind_go (ApplyRules g db b (pr_ServiceID port) relContainerPort (pr_ContainerPort port) service)
            (\<lambda>(ings, secs). Inr (res1\<lparr>Services := Services res1 @ [service],
               Ingresses := Ingresses res1 @ ings, Secrets := Secrets res1 @ secs\<rparr>))))))"

definition mapped_ports ::
  "gw_tables \<Rightarrow> string \<Rightarrow> port_row list \<Rightarrow> bool \<Rightarrow> string + port_row list \<times> (int \<times> int) list" where
  "mapped_ports g sid ports crt =
     (if \<not> crt then Inr (ports, [])
      else case GetPluginMappingPorts g sid of
        Inl _ \<Rightarrow> Inl ''find upstream plugin mapping port error''
      | Inr pluginPorts \<Rightarrow> Inr (CreateUpstreamPluginMappingPort ports pluginPorts))"

definition Build :: "gw_tables \<Rightarrow> database \<Rightarrow> AppServiceBuild \<Rightarrow> (string + K8sResources) go" where
  "Build g db b = (case GetPortsByServiceID g (ab_serviceID b) of
       Inl _ \<Rightarrow> Inr (Inl ''find service port from db error'')
     | Inr ports0 \<Rightarrow> (case checkUpstreamPluginRelation g (ab_serviceID b) of
         Inl _ \<Rightarrow> Inr (Inl ''get service upstream plugin relation error'')
       | Inr crt \<Rightarrow> (case mapped_ports g (ab_serviceID b) ports0 crt of
           Inl e \<Rightarrow> Inr (Inl e)
         | Inr (ports, pp) \<Rightarrow>
             bind_go (for_go (build_port g db b pp) \<lparr>Services = [], Secrets = [], Ingresses = []\<rparr> ports) (\<lambda>res.
             bind_go (if ab_replicationType b = ''statefulset''
                      then bind_go (createStatefulService db b ports) (\<lambda>s. Inr (res\<lparr>Services := Services res @ [s]\<rparr>))
                      else Inr res) (\<lambda>res1.
             bind_go (if crt then CreateUpstreamPluginMappingService (Services res1) pp else Inr (Services res1))
               (\<lambda>svcs. Inr (Inr (res1\<lparr>Services := svcs\<rparr>))))))))"

text \<open>The ports of the containers; the plugin may take them over there as well.\<close>

definition createUpstreamPluginMappingPort :: "port_row list \<Rightarrow> plugin_port_row list \<Rightarrow> port_row list" where
  "createUpstreamPluginMappingPort ports pluginPorts =
     map (\<lambda>port. foldl (\<lambda>port pport. if pl_ContainerPort pport = pr_ContainerPort port
         then port\<lparr>pr_ContainerPort := pl_PluginPort pport, pr_MappingPort := pl_PluginPort pport\<rparr>
         else port) port pluginPorts) ports"

definition container_port :: "port_row \<Rightarrow> int \<times> string" where
  "container_port p = (wrap32 (pr_ContainerPort p), conversionPortProtocol (pr_Protocol p))"

definition createPorts :: "gw_tables \<Rightarrow> string \<Rightarrow> (int \<times> string) list" where
  "createPorts g sid = (case GetPortsByServiceID g sid of
       Inl _ \<Rightarrow> []
     | Inr ps \<Rightarrow> (if ps = [] then []
         else case checkUpstreamPluginRelation g sid of
           Inl _ \<Rightarrow> []
         | Inr crt \<Rightarrow> (if \<not> crt then map container_port ps
             else case GetPluginMappingPorts g sid of
               Inl _ \<Rightarrow> []
             | Inr pluginPorts \<Rightarrow> map container_port (createUpstreamPluginMappingPort ps pluginPorts))))"

section \<open>What the gateway reads\<close>

definition gateway_view :: "k8s_ingress \<Rightarrow> ingress" where
  "gateway_view i =
     \<lparr>i_beta = ki_beta i, i_meta = ki_meta i,
      i_default = map_option (\<lambda>(s, p). \<lparr>ib_service = Some s, ib_port = p\<rparr>) (ki_default i),
      i_tls = ki_tls i,
      i_rules = map (\<lambda>(h, ps). \<lparr>r_host = h,
        r_http = Some (map (\<lambda>p. \<lparr>ip_path = hp_path p, ip_service = Some (fst (hp_backend p))\<rparr>) ps)\<rparr>) (ki_rules i)\<rparr>"

text \<open>The backends of an ingress, and the service that provides them all.\<close>

definition ing_backends :: "k8s_ingress \<Rightarrow> (string \<times> int) list" where
  "ing_backends i = (case ki_default i of None \<Rightarrow> [] | Some d \<Rightarrow> [d]) @
     concat (map (\<lambda>(_, ps). map hp_backend ps) (ki_rules i))"

definition backed_by :: "k8s_ingress \<Rightarrow> k8s_service \<Rightarrow> bool" where
  "backed_by i s \<longleftrightarrow> ing_backends i \<noteq> [] \<and> Namespace (ki_meta i) = Namespace (ks_meta s) \<and>
     (\<forall>(n, p) \<in> set (ing_backends i). n = Name (ks_meta s) \<and> p \<in> kp_Port ` set (ks_ports s))"

definition secured_by :: "k8s_ingress \<Rightarrow> k8s_secret \<Rightarrow> bool" where
  "secured_by i sec \<longleftrightarrow> Namespace (ki_meta i) = Namespace (sec_meta sec) \<and>
     (\<forall>t \<in> set (ki_tls i). tls_secret t = Name (sec_meta sec))"

definition resources_closed :: "K8sResources \<Rightarrow> bool" where
  "resources_closed res \<longleftrightarrow> (\<forall>i \<in> set (Ingresses res).
     (\<exists>s \<in> set (Services res). backed_by i s) \<and>
     (ki_tls i \<noteq> [] \<longrightarrow> (\<exists>sec \<in> set (Secrets res). secured_by i sec)))"

section \<open>Facts about the operations\<close>

lemmas service_defs = createInnerService_def createKubernetesNativeService_def createOuterService_def
  createStatefulService_def inner_service_def Let_def bind_go_eq_Inr

lemma zero_meta_fields [simp]: "Annotations zero_meta = []" "Labels zero_meta = []"
  by (simp_all add: zero_meta_def)

lemma meta_fields [simp]:
  "Name (createIngressMeta n ns l) = n" "Namespace (createIngressMeta n ns l) = ns"
  "Name (ki_meta (SetAnnotations as i)) = Name (ki_meta i)"
  "Namespace (ki_meta (SetAnnotations as i)) = Namespace (ki_meta i)"
  "Annotations (ki_meta (SetAnnotations as i)) = as"
  "ki_tls (SetAnnotations as i) = ki_tls i" "ki_rules (SetAnnotations as i) = ki_rules i"
  "ki_default (SetAnnotations as i) = ki_default i"
  by (simp_all add: createIngressMeta_def SetAnnotations_def)

lemma outer_service_shape:
  assumes "createOuterService db b port = Inr s"
  shows "GetNamespace (ab_appService b) = Inr (Namespace (ks_meta s))"
    and "map kp_Port (ks_ports s) = [wrap32 (pr_ContainerPort port)]"
    and "map kp_TargetPort (ks_ports s) = [wrap32 (pr_ContainerPort port)]"
    and "map kp_Protocol (ks_ports s) = [conversionPortProtocol (pr_Protocol port)]"
    and "length (Name (ks_meta s)) \<le> 63"
  using assms by (auto simp: service_defs KeepMaxLength_def)

lemma inner_service_shape:
  assumes "inner_service db b port = Inr s"
  shows "map kp_TargetPort (ks_ports s) = [wrap32 (pr_ContainerPort port)]"
  using assms by (auto simp: service_defs split: if_splits)

lemma create_ingress_tls [simp]:
  "(create_ingress g d p n ns s l pcp)\<lparr>ki_tls := []\<rparr> = create_ingress g d p n ns s l pcp"
  by (simp add: create_ingress_def createNtwIngress_def createBetaIngress_def)

definition tls_of :: "string \<Rightarrow> k8s_secret option \<Rightarrow> ing_tls list" where
  "tls_of domain sec = (case sec of None \<Rightarrow> [] | Some x \<Rightarrow> [\<lparr>tls_hosts = [domain], tls_secret = Name (sec_meta x)\<rparr>])"

lemma applyHTTPRule_shape:
  assumes "applyHTTPRule g db b rule cp pcp s = Inr (Inr (ing, sec))"
    and "GetNamespace (ab_appService b) = Inr ns"
  shows "\<exists>domain annos.
    (if replace_byte (CHR '' '') [] (hr_Domain rule) = []
     then createDefaultDomain g (er_Namespace (ab_tenantEnv b)) (sr_ServiceAlias (ab_service b)) cp
     else Inr (replace_byte (CHR '' '') [] (hr_Domain rule))) = Inr domain \<and>
    parseAnnotations g rule = Inr annos \<and>
    createSecret g rule (hr_UUID rule) ns (GetCommonLabels (tenant_of db) [] (ab_appService b)) = Inr sec \<and>
    ing = SetAnnotations annos ((create_ingress g domain (rule_path rule) (hr_UUID rule) ns (Name (ks_meta s))
       (GetCommonLabels (tenant_of db) [] (ab_appService b)) pcp)\<lparr>ki_tls := tls_of domain sec\<rparr>)"
  (is "\<exists>domain annos. ?dom = Inr domain \<and> ?rest domain annos")
proof -
  from assms obtain domain where d: "?dom = Inr domain"
    unfolding applyHTTPRule_def Let_def bind_go_eq_Inr by blast
  moreover obtain annos where "?rest domain annos"
    using assms(1) unfolding applyHTTPRule_def Let_def d assms(2) bind_go_simps
    by (auto simp: tls_of_def split: sum.splits option.splits)
  ultimately show ?thesis by blast
qed

lemma createSecret_meta:
  "createSecret g rule n ns l = Inr (Some x) \<Longrightarrow> Name (sec_meta x) = n \<and> Namespace (sec_meta x) = ns"
  by (auto simp: createSecret_def split: if_splits sum.splits option.splits)

lemma applyHTTPRule_backed:
  assumes app: "applyHTTPRule g db b rule cp pcp s = Inr (Inr (ing, sec))"
    and s: "GetNamespace (ab_appService b) = Inr (Namespace (ks_meta s))" "map kp_Port (ks_ports s) = [wrap32 pcp]"
  shows "backed_by ing s" "ki_tls ing \<noteq> [] \<Longrightarrow> \<exists>x. sec = Some x \<and> secured_by ing x"
proof -
  from applyHTTPRule_shape [OF app s(1)] obtain domain annos where
    sec: "createSecret g rule (hr_UUID rule) (Namespace (ks_meta s))
       (GetCommonLabels (tenant_of db) [] (ab_appService b)) = Inr sec" and
    ing: "ing = SetAnnotations annos ((create_ingress g domain (rule_path rule) (hr_UUID rule) (Namespace (ks_meta s))
       (Name (ks_meta s)) (GetCommonLabels (tenant_of db) [] (ab_appService b)) pcp)\<lparr>ki_tls := tls_of domain sec\<rparr>)"
    by blast
  have ns: "Namespace (ki_meta ing) = Namespace (ks_meta s)" "ki_tls ing = tls_of domain sec"
    by (simp_all add: ing create_ingress_def createNtwIngress_def createBetaIngress_def)
  have port: "wrap32 pcp \<in> kp_Port ` set (ks_ports s)"
    using s(2) by (metis list.set_intros(1) list.set_map)
  show "backed_by ing s"
    using port by (simp add: ing backed_by_def ing_backends_def create_ingress_def createNtwIngress_def createBetaIngress_def)
  show "\<exists>x. sec = Some x \<and> secured_by ing x" if "ki_tls ing \<noteq> []"
    using that createSecret_meta sec ns by (auto simp: secured_by_def tls_of_def split: option.splits)
qed

lemma applyTCPRule_shape:
  assumes "applyTCPRule g db b rule s ns = Inr (Inr ing)"
  obtains configs p ps where "config_ListByRuleID g (tr_UUID rule) = Inr configs" "ks_ports s = p # ps"
    "ing = SetAnnotations (put_configs configs (l4_annotations rule))
       \<lparr>ki_beta = \<not> high_version g,
        ki_meta = createIngressMeta (tr_UUID rule) ns (GetCommonLabels (tenant_of db) [] (ab_appService b)),
        ki_tls = [], ki_rules = [], ki_default = Some (Name (ks_meta s), kp_Port p)\<rparr>"
  using assms by (auto simp: applyTCPRule_def Let_def split: sum.splits list.splits)

lemma applyTCPRule_backed:
  assumes "applyTCPRule g db b rule s (Namespace (ks_meta s)) = Inr (Inr ing)"
  shows "backed_by ing s" "ki_tls ing = []"
  using assms by (auto elim!: applyTCPRule_shape simp: backed_by_def ing_backends_def)

section \<open>The built objects fit together\<close>

lemma http_rule_step_cases:
  "http_rule_step g db b cp pcp s (ings, secs) rule = Inr (ings', secs') \<Longrightarrow>
     (ings' = ings \<and> secs' = secs) \<or>
     (\<exists>ing sec. applyHTTPRule g db b rule cp pcp s = Inr (Inr (ing, sec)) \<and> ings' = ings @ [ing] \<and>
       secs' = (case sec of None \<Rightarrow> secs | Some x \<Rightarrow> secs @ [x]))"
  by (cases "applyHTTPRule g db b rule cp pcp s") (auto simp: http_rule_step_def split: sum.splits)

lemma http_rule_step_closed:
  assumes "http_rule_step g db b cp pcp s (ings, secs) rule = Inr (ings', secs')"
    and "GetNamespace (ab_appService b) = Inr (Namespace (ks_meta s))" "map kp_Port (ks_ports s) = [wrap32 pcp]"
    and "\<forall>i \<in> set ings. backed_by i s \<and> (ki_tls i \<noteq> [] \<longrightarrow> (\<exists>sec \<in> set secs. secured_by i sec))"
  shows "\<forall>i \<in> set ings'. backed_by i s \<and> (ki_tls i \<noteq> [] \<longrightarrow> (\<exists>sec \<in> set secs'. secured_by i sec))"
  using http_rule_step_cases [OF assms(1)]
proof (elim disjE exE conjE)
  fix ing sec
  assume app: "applyHTTPRule g db b rule cp pcp s = Inr (Inr (ing, sec))"
    and new: "ings' = ings @ [ing]" "secs' = (case sec of None \<Rightarrow> secs | Some x \<Rightarrow> secs @ [x])"
  have "\<exists>x \<in> set secs'. secured_by ing x" if "ki_tls ing \<noteq> []"
    using applyHTTPRule_backed(2) [OF app assms(2,3) that] new(2) by auto
  then show ?thesis
    using assms(4) new applyHTTPRule_backed(1) [OF app assms(2,3)] by (auto split: option.splits)
qed (use assms(4) in simp)

lemma tcp_rule_step_closed:
  assumes "tcp_rule_step g db b s ings rule = Inr ings'"
    and "GetNamespace (ab_appService b) = Inr (Namespace (ks_meta s))"
  shows "set ings' \<subseteq> set ings \<union> {i. backed_by i s \<and> ki_tls i = []}"
proof (cases "applyTCPRule g db b rule s (Namespace (ks_meta s))")
  case (Inr r)
  then show ?thesis
    using assms applyTCPRule_backed [of g db b rule s] by (cases r) (auto simp: tcp_rule_step_def)
qed (use assms in \<open>simp add: tcp_rule_step_def\<close>)

lemma ApplyRules_closed:
  assumes "ApplyRules g db b sid cp pcp s = Inr (ings, secs)"
    and s: "GetNamespace (ab_appService b) = Inr (Namespace (ks_meta s))" "map kp_Port (ks_ports s) = [wrap32 pcp]"
  shows "\<forall>i \<in> set ings. backed_by i s \<and> (ki_tls i \<noteq> [] \<longrightarrow> (\<exists>sec \<in> set secs. secured_by i sec))"
proof -
  let ?P = "\<lambda>(ings, secs). \<forall>i \<in> set ings. backed_by i s \<and> (ki_tls i \<noteq> [] \<longrightarrow> (\<exists>sec \<in> set secs. secured_by i sec))"
  from assms(1) obtain ings1 where
    h: "for_go (http_rule_step g db b cp pcp s) ([], []) (rows_or_none
          (GetHTTPRuleByServiceIDAndContainerPort g sid cp)) = Inr (ings1, secs)" and
    t: "for_go (tcp_rule_step g db b s) ings1 (rows_or_none
          (GetTCPRuleByServiceIDAndContainerPort g sid cp)) = Inr ings"
    by (auto simp: ApplyRules_def bind_go_eq_Inr)
  have "?P (ings1, secs)"
    by (rule for_go_invariant [OF h]) (use http_rule_step_closed s in \<open>fastforce+\<close>)
  then show ?thesis
    using for_go_invariant [OF t, of "\<lambda>ings. ?P (ings, secs)"] tcp_rule_step_closed [OF _ s(1)] by fastforce
qed

lemma resources_closed_mono:
  assumes "resources_closed res" "set (Services res) \<subseteq> set svcs"
  shows "resources_closed (res\<lparr>Services := svcs\<rparr>)"
  using assms by (fastforce simp: resources_closed_def)

text \<open>What one port adds.\<close>

lemma build_port_cases:
  assumes "build_port g db b pp res port = Inr res'"
  shows "\<exists>ins outs ings secs. res' = res\<lparr>Services := Services res @ ins @ outs,
        Ingresses := Ingresses res @ ings, Secrets := Secrets res @ secs\<rparr> \<and>
      (\<forall>s \<in> set ins. inner_service db b port = Inr s) \<and>
      (outs = [] \<and> ings = [] \<and> secs = [] \<or>
       (\<exists>s cp. outs = [s] \<and> createOuterService db b port = Inr s \<and>
         cp = (if pp_get pp (wrap32 (pr_ContainerPort port)) = 0 then pr_ContainerPort port
               else pp_get pp (wrap32 (pr_ContainerPort port))) \<and>
         ApplyRules g db b (pr_ServiceID port) cp (pr_ContainerPort port) s = Inr (ings, secs)))"
proof -
  obtain inner outer where io: "pr_IsInnerService port = Some inner" "pr_IsOuterService port = Some outer"
    using assms by (auto simp: build_port_def bind_go_eq_Inr deref_def split: option.splits)
  obtain ins where ins: "(if inner then bind_go (inner_service db b port) (\<lambda>s. Inr (res\<lparr>Services := Services res @ [s]\<rparr>))
      else Inr res) = Inr (res\<lparr>Services := Services res @ ins\<rparr>)" "\<forall>s \<in> set ins. inner_service db b port = Inr s"
  proof (cases inner)
    case True
    then obtain s where "inner_service db b port = Inr s"
      using assms io by (auto simp: build_port_def bind_go_eq_Inr)
    with True show thesis using that [of "[s]"] by simp
  qed (use that [of "[]"] in simp)
  show ?thesis
  proof (cases outer)
    case True
    then obtain s where s: "createOuterService db b port = Inr s"
      using assms io ins(1) by (auto simp: build_port_def bind_go_eq_Inr)
    then show ?thesis
      using assms io ins True
      by (intro exI [of _ ins] exI [of _ "[s]"]) (auto simp: build_port_def Let_def bind_go_eq_Inr)
  next
    case False
    then show ?thesis
      using assms io ins by - (rule exI [of _ ins], rule exI [of _ "[]"], rule exI [of _ "[]"], rule exI [of _ "[]"],
        auto simp: build_port_def)
  qed
qed

lemma build_port_closed:
  assumes "build_port g db b pp res port = Inr res'" "resources_closed res"
  shows "resources_closed res'"
proof -
  obtain ins outs ings secs where res': "res' = res\<lparr>Services := Services res @ ins @ outs,
      Ingresses := Ingresses res @ ings, Secrets := Secrets res @ secs\<rparr>"
    and new: "outs = [] \<and> ings = [] \<and> secs = [] \<or> (\<exists>s cp. outs = [s] \<and> createOuterService db b port = Inr s \<and>
        ApplyRules g db b (pr_ServiceID port) cp (pr_ContainerPort port) s = Inr (ings, secs))"
    using build_port_cases [OF assms(1)] by blast
  have "\<forall>i \<in> set ings. (\<exists>s \<in> set outs. backed_by i s) \<and> (ki_tls i \<noteq> [] \<longrightarrow> (\<exists>sec \<in> set secs. secured_by i sec))"
    using new
  proof (elim disjE exE conjE)
    fix s cp
    assume "outs = [s]" and s: "createOuterService db b port = Inr s"
      and rules: "ApplyRules g db b (pr_ServiceID port) cp (pr_ContainerPort port) s = Inr (ings, secs)"
    then show ?thesis
      using ApplyRules_closed [OF rules outer_service_shape(1) [OF s] outer_service_shape(2) [OF s]] by simp
  qed simp
  then show ?thesis
    using assms(2) unfolding res' resources_closed_def by fastforce
qed

text \<open>Labelling the services with their original port leaves everything else of them alone.\<close>

definition same_but_labels :: "k8s_service \<Rightarrow> k8s_service \<Rightarrow> bool" where
  "same_but_labels s t \<longleftrightarrow> t = s\<lparr>ks_meta := (ks_meta s)\<lparr>Labels := Labels (ks_meta t)\<rparr>\<rparr>"

lemma same_but_labels_backed: "same_but_labels s t \<Longrightarrow> backed_by i s \<Longrightarrow> backed_by i t"
  unfolding same_but_labels_def backed_by_def by (erule ssubst) simp

lemma same_but_labels_ports: "same_but_labels s t \<Longrightarrow> ks_ports t = ks_ports s"
  unfolding same_but_labels_def by (erule ssubst) simp

lemma origin_label_same: "origin_label pp s = Inr t \<Longrightarrow> same_but_labels s t"
  by (auto simp: origin_label_def same_but_labels_def split: list.splits)

lemma label_services:
  "CreateUpstreamPluginMappingService svcs pp = Inr svcs' \<Longrightarrow> list_all2 same_but_labels svcs svcs'"
proof -
  have "for_go (\<lambda>done s. bind_go (origin_label pp s) (\<lambda>s'. Inr (done @ [s']))) acc svcs = Inr out \<Longrightarrow>
      \<exists>ts. out = acc @ ts \<and> list_all2 same_but_labels svcs ts" for acc out
  proof (induction svcs arbitrary: acc out)
    case (Cons s svcs)
    from Cons.prems obtain t where t: "origin_label pp s = Inr t"
      and rest: "for_go (\<lambda>done s. bind_go (origin_label pp s) (\<lambda>s'. Inr (done @ [s']))) (acc @ [t]) svcs = Inr out"
      by (auto simp: bind_go_eq_Inr)
    show ?case
      using Cons.IH [OF rest] origin_label_same [OF t] by (metis append_assoc append_Cons append_Nil list_all2_Cons)
  qed simp
  then show "CreateUpstreamPluginMappingService svcs pp = Inr svcs' \<Longrightarrow> ?thesis"
    by (fastforce simp: CreateUpstreamPluginMappingService_def)
qed

text \<open>A build that succeeds: the loop over the ports, the headless service, the labels.\<close>

lemma Build_steps:
  assumes "Build g db b = Inr (Inr res)"
  obtains ports0 crt ports pp res0 svcs where
    "GetPortsByServiceID g (ab_serviceID b) = Inr ports0"
    "checkUpstreamPluginRelation g (ab_serviceID b) = Inr crt"
    "mapped_ports g (ab_serviceID b) ports0 crt = Inr (ports, pp)"
    "for_go (build_port g db b pp) \<lparr>Services = [], Secrets = [], Ingresses = []\<rparr> ports = Inr res0"
    "set svcs \<subseteq> {s. createStatefulService db b ports = Inr s}"
    "list_all2 same_but_labels (Services res0 @ svcs) (Services res)"
    "Ingresses res = Ingresses res0" "Secrets res = Secrets res0"
proof -
  from assms obtain ports0 crt ports pp where q: "GetPortsByServiceID g (ab_serviceID b) = Inr ports0"
    "checkUpstreamPluginRelation g (ab_serviceID b) = Inr crt"
    "mapped_ports g (ab_serviceID b) ports0 crt = Inr (ports, pp)"
    by (auto simp: Build_def split: sum.splits)
  from assms q obtain res0 where r0:
    "for_go (build_port g db b pp) \<lparr>Services = [], Secrets = [], Ingresses = []\<rparr> ports = Inr res0"
    by (auto simp: Build_def bind_go_eq_Inr)
  obtain svcs where svcs: "(if ab_replicationType b = ''statefulset''
       then bind_go (createStatefulService db b ports) (\<lambda>s. Inr (res0\<lparr>Services := Services res0 @ [s]\<rparr>))
       else Inr res0) = Inr (res0\<lparr>Services := Services res0 @ svcs\<rparr>)"
    "set svcs \<subseteq> {s. createStatefulService db b ports = Inr s}"
  proof (cases "ab_replicationType b = ''statefulset''")
    case True
    then obtain s where "createStatefulService db b ports = Inr s"
      using assms q r0 by (auto simp: Build_def bind_go_eq_Inr)
    with True show thesis using that [of "[s]"] by simp
  qed (use that [of "[]"] in simp)
  from assms q r0 svcs(1) obtain out where out: "(if crt
      then CreateUpstreamPluginMappingService (Services res0 @ svcs) pp else Inr (Services res0 @ svcs)) = Inr out"
    and res: "res = res0\<lparr>Services := out\<rparr>"
    by (cases crt) (auto simp: Build_def bind_go_eq_Inr)
  have "list_all2 same_but_labels (Services res0 @ svcs) out"
    using out label_services [of "Services res0 @ svcs" pp out]
    by (cases crt) (auto intro!: list_all2_refl simp: same_but_labels_def)
  then show thesis
    using that [OF q r0 svcs(2)] res by simp
qed

lemma all2_partner: "list_all2 R xs ys \<Longrightarrow> x \<in> set xs \<Longrightarrow> \<exists>y \<in> set ys. R x y"
  by (induction rule: list_all2_induct) auto

lemma all2_partner_left: "list_all2 R xs ys \<Longrightarrow> y \<in> set ys \<Longrightarrow> \<exists>x \<in> set xs. R x y"
  by (induction rule: list_all2_induct) auto

lemma Build_closed:
  assumes "Build g db b = Inr (Inr res)"
  shows "resources_closed res"
  using assms
proof (rule Build_steps)
  fix ports pp res0 svcs
  assume loop: "for_go (build_port g db b pp) \<lparr>Services = [], Secrets = [], Ingresses = []\<rparr> ports = Inr res0"
    and all: "list_all2 same_but_labels (Services res0 @ svcs) (Services res)"
    and rest: "Ingresses res = Ingresses res0" "Secrets res = Secrets res0"
  have "resources_closed res0"
    by (rule for_go_invariant [OF loop]) (simp add: resources_closed_def, erule (1) build_port_closed)
  moreover have "\<exists>t \<in> set (Services res). backed_by i t" if "s \<in> set (Services res0)" "backed_by i s" for i s
    using all2_partner [OF all, of s] that same_but_labels_backed by auto
  ultimately show ?thesis
    using rest by (simp add: resources_closed_def) blast
qed

lemma map_port_fold:
  "fst (foldl map_port (port, pp) pls) =
     foldl (\<lambda>port pport. if pl_ContainerPort pport = pr_ContainerPort port
       then port\<lparr>pr_ContainerPort := pl_PluginPort pport, pr_MappingPort := pl_PluginPort pport\<rparr> else port) port pls"
  by (induction pls arbitrary: port pp) (auto simp: map_port_def)

lemma mapping_rows: "fst (CreateUpstreamPluginMappingPort ports pls) = createUpstreamPluginMappingPort ports pls"
proof -
  have "fst (foldl (\<lambda>(done, pp) port. case foldl map_port (port, pp) pls of (port', pp') \<Rightarrow> (done @ [port'], pp'))
      (acc, pp) ports) = acc @ createUpstreamPluginMappingPort ports pls" for acc pp
  proof (induction ports arbitrary: acc pp)
    case (Cons port ports)
    show ?case
      using Cons.IH map_port_fold [of port pp pls]
      by (auto simp: createUpstreamPluginMappingPort_def split: prod.splits)
  qed (simp add: createUpstreamPluginMappingPort_def)
  then show ?thesis by (simp add: CreateUpstreamPluginMappingPort_def)
qed

lemma createPorts_rows:
  assumes "GetPortsByServiceID g sid = Inr ports0" "checkUpstreamPluginRelation g sid = Inr crt"
    "mapped_ports g sid ports0 crt = Inr (ports, pp)"
  shows "createPorts g sid = map container_port ports"
proof (cases crt)
  case True
  with assms(3) obtain pls where pls: "GetPluginMappingPorts g sid = Inr pls"
    "CreateUpstreamPluginMappingPort ports0 pls = (ports, pp)"
    by (auto simp: mapped_ports_def split: sum.splits)
  then have "ports = createUpstreamPluginMappingPort ports0 pls"
    using mapping_rows [of ports0 pls] by simp
  then show ?thesis
    using assms True pls by (simp add: createPorts_def) (simp add: createUpstreamPluginMappingPort_def)
qed (use assms in \<open>auto simp: createPorts_def mapped_ports_def\<close>)

lemma service_targets:
  assumes "for_go (build_port g db b pp) \<lparr>Services = [], Secrets = [], Ingresses = []\<rparr> ports = Inr res0"
    and "s \<in> set (Services res0)" "kp \<in> set (ks_ports s)"
  shows "\<exists>p \<in> set ports. kp_TargetPort kp = wrap32 (pr_ContainerPort p)"
proof -
  let ?P = "\<lambda>res. \<forall>s \<in> set (Services res). \<forall>kp \<in> set (ks_ports s). \<exists>p \<in> set ports. kp_TargetPort kp = wrap32 (pr_ContainerPort p)"
  have step: "?P v" if p: "p \<in> set ports" and u: "?P u" and v: "build_port g db b pp u p = Inr v" for u p v
  proof -
    obtain ins outs ings secs where v': "v = u\<lparr>Services := Services u @ ins @ outs,
          Ingresses := Ingresses u @ ings, Secrets := Secrets u @ secs\<rparr>"
        "\<forall>s \<in> set ins. inner_service db b p = Inr s"
        "outs = [] \<or> (\<exists>s. outs = [s] \<and> createOuterService db b p = Inr s)"
      using build_port_cases [OF v] by blast
    then have "Services v = Services u @ ins @ outs" "\<forall>s \<in> set outs. createOuterService db b p = Inr s"
      by auto
    moreover note v'(2)
    moreover have "\<forall>kp \<in> set (ks_ports s). kp_TargetPort kp = wrap32 (pr_ContainerPort p)"
      if "inner_service db b p = Inr s \<or> createOuterService db b p = Inr s" for s
      using that inner_service_shape [of db b p s] outer_service_shape(3) [of db b p s] by auto
    ultimately show ?thesis
      using u p by fastforce
  qed
  have "?P res0"
    by (rule for_go_invariant [OF assms(1)]) (simp, erule (2) step)
  with assms(2,3) show ?thesis by blast
qed

end
