(* ===== verification/Rule_Properties.thy ===== *)
theory Rule_Properties
  imports Rule_Conversion "HOL-Library.Multiset"
begin

text \<open>
  What the conversion of gateway rules guarantees. The annotations it writes are read back by the
  parsers of the gateway; exactly the rules of the open ports become ingresses, also when a plugin has
  taken ports over; the built services, ingresses, secrets and container ports fit together; and, with
  the gateway's own guarantee, a rule leads to the pods of its component. The last properties show
  where the conversion loses something: rules on a failed query, the order of rewrites, the
  distinction of long service names.
\<close>

section \<open>Annotations that the gateway reads back\<close>

lemma prefix_ann_inj [simp]: "GetAnnotationWithPrefix a = GetAnnotationWithPrefix c \<longleftrightarrow> a = c"
  by (simp add: GetAnnotationWithPrefix_def)

lemma map_of_put_ann:
  "map_of (put_ann n v m) (GetAnnotationWithPrefix k) =
     (if k = n then Some v else map_of m (GetAnnotationWithPrefix k))"
  by (simp add: put_ann_def update_conv')

lemma map_of_put_configs:
  "\<forall>c \<in> set cfgs. rc_Key c \<noteq> k \<Longrightarrow>
     map_of (put_configs cfgs m) (GetAnnotationWithPrefix k) = map_of m (GetAnnotationWithPrefix k)"
proof (induction cfgs arbitrary: m)
  case (Cons c cfgs)
  then have "rc_Key c \<noteq> k" and rest: "\<forall>c \<in> set cfgs. rc_Key c \<noteq> k"
    by simp_all
  then show ?case
    using Cons.IH [OF rest, of "put_ann (rc_Key c) (rc_Value c) m"]
    by (auto simp: put_configs_def map_of_put_ann)
qed (simp add: put_configs_def)

lemma gm_wf_put_ann [simp]: "gm_wf m \<Longrightarrow> gm_wf (put_ann n v m)"
  by (simp add: put_ann_def)

text \<open>The typed access to annotations, as a look-up.\<close>

lemma checkAnnotation_prefixed:
  "checkAnnotation (GetAnnotationWithPrefix n) meta =
     (if Annotations meta = [] then Some ErrMissingAnnotations else None)"
  by (simp add: checkAnnotation_def GetAnnotationWithPrefix_def AnnotationsPrefix_def)

lemma GetStringAnnotation_lookup:
  "GetStringAnnotation n meta = (case map_of (Annotations meta) (GetAnnotationWithPrefix n) of
     None \<Rightarrow> Inl ErrMissingAnnotations | Some v \<Rightarrow> Inr v)"
  by (simp add: GetStringAnnotation_def checkAnnotation_prefixed parseString_def Let_def split: option.splits)

lemma GetIntAnnotation_lookup:
  "map_of (Annotations meta) (GetAnnotationWithPrefix n) = Some (go_itoa i) \<Longrightarrow> int64_range i \<Longrightarrow>
     GetIntAnnotation n meta = Inr i"
  by (auto simp: GetIntAnnotation_def checkAnnotation_prefixed parseInt_def Let_def go_atoi_itoa)

lemma GetBoolAnnotation_lookup:
  "map_of (Annotations meta) (GetAnnotationWithPrefix n) = Some ''true'' \<Longrightarrow> GetBoolAnnotation n meta = Inr True"
  by (auto simp: GetBoolAnnotation_def checkAnnotation_prefixed parseBool_def Let_def go_parse_bool_def)

lemma weight_Parse_lookup:
  "map_of (Annotations meta) (GetAnnotationWithPrefix ''weight'') =
     (if 1 < w then Some (go_itoa w) else None) \<Longrightarrow> int64_range w \<Longrightarrow> weight_Parse meta = max 1 w"
  using go_atoi_itoa [of w] by (auto simp: weight_Parse_def GetStringAnnotation_lookup go_itoa_def)

text \<open>The keys that the conversion of an HTTP rule may touch after the fields of the rule.\<close>

lemma map_of_rewrites:
  "\<not> prefix ''rewrite-'' k \<Longrightarrow>
     map_of (foldl rewrite_step m rws) (GetAnnotationWithPrefix k) = map_of m (GetAnnotationWithPrefix k)"
  by (induction rws arbitrary: m) (auto simp: rewrite_step_def map_of_put_ann split: prod.splits)

lemma map_of_extensions:
  "k \<notin> {''force-ssl-redirect'', ''upstream-hash-by'', ''lb-type''} \<Longrightarrow>
     map_of (foldl (extension_step rule) m exts) (GetAnnotationWithPrefix k) = map_of m (GetAnnotationWithPrefix k)"
  by (induction exts arbitrary: m) (auto simp: extension_step_def map_of_put_ann Let_def)

lemma map_of_parseAnnotations:
  assumes "parseAnnotations g rule = Inr annos" "config_ListByRuleID g (hr_UUID rule) = Inr cfgs"
    and "\<forall>c \<in> set cfgs. rc_Key c \<noteq> k" "\<not> prefix ''rewrite-'' k"
    and "k \<notin> {''force-ssl-redirect'', ''upstream-hash-by'', ''lb-type''}"
  shows "map_of annos (GetAnnotationWithPrefix k) = map_of (rule_annotations rule) (GetAnnotationWithPrefix k)"
  using assms
  by (auto simp: parseAnnotations_def Let_def map_of_put_configs map_of_extensions map_of_rewrites split: sum.splits)

subsection \<open>Rewrites\<close>

definition rw_key :: "nat \<Rightarrow> string \<Rightarrow> string" where
  "rw_key i f = nat_str i @ CHR ''-'' # f"

abbreviation rw_fields :: "string set" where
  "rw_fields \<equiv> {''regex'', ''replacement'', ''flag''}"

definition rewrite_of :: "http_rewrite_row \<Rightarrow> rewrite" where
  "rewrite_of r = \<lparr>Regex = rw_Regex r, Replacement = rw_Replacement r, Flag = rw_Flag r\<rparr>"

lemma split_rw_key: "f \<in> rw_fields \<Longrightarrow> split_byte (CHR ''-'') (rw_key i f) = [nat_str i, f]"
proof -
  assume "f \<in> rw_fields"
  moreover have "CHR ''-'' \<notin> set (nat_str i)"
    using nat_str_digits [of "CHR ''-''" i] by (auto simp: char_digit_def Let_def)
  ultimately show ?thesis
    unfolding rw_key_def by (subst split_byte_append) auto
qed

lemma rw_key_inj: "f \<in> rw_fields \<Longrightarrow> h \<in> rw_fields \<Longrightarrow> rw_key i f = rw_key j h \<longleftrightarrow> i = j \<and> f = h"
  using split_rw_key nat_str_inj by (metis list.inject)

definition set_field :: "string \<Rightarrow> string \<Rightarrow> rewrite \<Rightarrow> rewrite" where
  "set_field f v r = \<lparr>Regex = (if f = ''regex'' then v else Regex r),
     Replacement = (if f = ''replacement'' then v else Replacement r), Flag = (if f = ''flag'' then v else Flag r)\<rparr>"

lemma convert_step_key:
  assumes "f \<in> rw_fields"
  shows "convert_step m (rw_key i f, v) = AList.update (nat_str i) (set_field f v
    (case map_of m (nat_str i) of Some r \<Rightarrow> r | None \<Rightarrow> \<lparr>Regex = [], Replacement = [], Flag = []\<rparr>)) m"
proof -
  have "set_field f v r = (if f = ''regex'' then r\<lparr>Regex := v\<rparr> else if f = ''replacement'' then r\<lparr>Replacement := v\<rparr>
      else if f = ''flag'' then r\<lparr>Flag := v\<rparr> else r)" for r
    by (simp add: set_field_def)
  then show ?thesis
    by (simp add: convert_step_def split_rw_key [OF assms] Let_def)
qed

lemma gm_str_snoc:
  assumes "k \<notin> fst ` set xs"
  shows "gm_str (xs @ [(k, v)]) q = (if q = k then v else gm_str xs q)"
proof -
  have "map_of xs k = None" using assms by (simp add: map_of_eq_None_iff)
  then show ?thesis by (simp add: gm_str_def map_add_def split: option.split)
qed

text \<open>Whatever the order of the annotations, the entries of one rewrite are collected.\<close>

lemma convert_fold:
  assumes "gm_wf M" "\<forall>k \<in> fst ` set M. \<exists>i. \<exists>f \<in> rw_fields. k = rw_key i f"
  shows "gm_wf (foldl convert_step [] M) \<and> fst ` set (foldl convert_step [] M) \<subseteq> range nat_str \<and>
    (\<forall>i. map_of (foldl convert_step [] M) (nat_str i) =
      (if \<exists>f \<in> rw_fields. rw_key i f \<in> fst ` set M
       then Some \<lparr>Regex = gm_str M (rw_key i ''regex''), Replacement = gm_str M (rw_key i ''replacement''),
                  Flag = gm_str M (rw_key i ''flag'')\<rparr> else None))"
    (is "?wf M \<and> ?range M \<and> (\<forall>i. ?at M i)")
  using assms
proof (induction M rule: rev_induct)
  case (snoc x M)
  obtain k v where x: "x = (k, v)" by fastforce
  from snoc.prems(2) obtain j f where f: "f \<in> rw_fields" "k = rw_key j f" by (auto simp: x)
  have prems: "gm_wf M" "\<forall>k \<in> fst ` set M. \<exists>i. \<exists>f \<in> rw_fields. k = rw_key i f" and new: "rw_key j f \<notin> fst ` set M"
    using snoc.prems by (auto simp: x f(2))
  have IH: "?wf M" "?range M" "?at M i" for i
    using snoc.IH [OF prems] by blast+
  have step: "foldl convert_step [] (M @ [x]) = convert_step (foldl convert_step [] M) (rw_key j f, v)"
    by (simp add: x f)
  have "?at (M @ [x]) i" for i
  proof (cases "i = j")
    case True
    let ?old = "\<lparr>Regex = gm_str M (rw_key j ''regex''), Replacement = gm_str M (rw_key j ''replacement''),
       Flag = gm_str M (rw_key j ''flag'')\<rparr>"
    have "rw_key j h \<notin> fst ` set M \<Longrightarrow> gm_str M (rw_key j h) = []" for h
      using map_of_eq_None_iff [of M "rw_key j h"] by (simp add: gm_str_def)
    then have old: "(case map_of (foldl convert_step [] M) (nat_str j) of Some r \<Rightarrow> r
        | None \<Rightarrow> \<lparr>Regex = [], Replacement = [], Flag = []\<rparr>) = ?old"
      using IH(3) [of j] by (cases "\<exists>f \<in> rw_fields. rw_key j f \<in> fst ` set M") simp_all
    have now: "gm_str (M @ [x]) (rw_key j h) = (if f = h then v else gm_str M (rw_key j h))" if "h \<in> rw_fields" for h
      using rw_key_inj [OF f(1) that, of j j] by (auto simp: x f(2) gm_str_snoc [OF new])
    have "set_field f v ?old =
      \<lparr>Regex = gm_str (M @ [x]) (rw_key j ''regex''), Replacement = gm_str (M @ [x]) (rw_key j ''replacement''),
       Flag = gm_str (M @ [x]) (rw_key j ''flag'')\<rparr>"
      by (simp add: set_field_def now)
    moreover have "\<exists>h \<in> rw_fields. rw_key j h \<in> fst ` set (M @ [x])"
      using f by (intro bexI [OF _ f(1)]) (simp add: x)
    ultimately show ?thesis
      unfolding True step convert_step_key [OF f(1)] old by (simp add: update_conv')
  next
    case False
    then have "nat_str i \<noteq> nat_str j" "\<And>h. h \<in> rw_fields \<Longrightarrow> rw_key i h \<noteq> rw_key j f"
      using nat_str_inj rw_key_inj f(1) by blast+
    then show ?thesis
      using IH(3) [of i] f new by (simp add: step convert_step_key update_conv' x gm_str_snoc)
  qed
  moreover have "?wf (M @ [x])"
    using IH(1) unfolding step convert_step_key [OF f(1)] by (rule gm_wf_update)
  moreover have "fst ` set (AList.update (nat_str j) r m) \<subseteq> range nat_str" if "fst ` set m \<subseteq> range nat_str"
    for r and m :: "rewrite gomap"
    using that image_mono [OF set_alist_update [of "nat_str j" r m], of fst] by (simp only: image_insert fst_conv) blast
  then have "?range (M @ [x])"
    using IH(2) unfolding step convert_step_key [OF f(1)] by blast
  ultimately show ?case by blast
qed simp

text \<open>The annotations of the rewrites of a rule, by key.\<close>

lemma nat_str_rw_key: "nat_str i @ ''-regex'' = rw_key i ''regex''" "nat_str i @ ''-replacement'' = rw_key i ''replacement''"
  "nat_str i @ ''-flag'' = rw_key i ''flag''"
  by (simp_all add: rw_key_def)

definition row_field :: "string \<Rightarrow> http_rewrite_row \<Rightarrow> string" where
  "row_field f r = (if f = ''regex'' then rw_Regex r else if f = ''replacement'' then rw_Replacement r else rw_Flag r)"

lemma map_of_rewrite_step:
  assumes "f \<in> rw_fields"
  shows "map_of (rewrite_step m (n, r)) (GetAnnotationWithPrefix (''rewrite-'' @ rw_key i f)) =
    (if i = n then Some (row_field f r) else map_of m (GetAnnotationWithPrefix (''rewrite-'' @ rw_key i f)))"
proof -
  have "rw_key i f = rw_key n h \<longleftrightarrow> i = n \<and> f = h" if "h \<in> rw_fields" for h
    by (rule rw_key_inj [OF assms that])
  then show ?thesis
    using assms by (auto simp: rewrite_step_def nat_str_rw_key map_of_put_ann row_field_def)
qed

lemma map_of_rewrites_at:
  assumes "f \<in> rw_fields"
  shows "map_of (foldl rewrite_step m (enumerate n rws)) (GetAnnotationWithPrefix (''rewrite-'' @ rw_key i f)) =
    (if n \<le> i \<and> i < n + length rws then Some (row_field f (rws ! (i - n)))
     else map_of m (GetAnnotationWithPrefix (''rewrite-'' @ rw_key i f)))"
proof (induction rws arbitrary: n m)
  case (Cons r rws)
  show ?case
    using Cons.IH [of "rewrite_step m (n, r)" "Suc n"] map_of_rewrite_step [OF assms, of m n r i]
    by (auto simp: nth_Cons' not_le)
qed auto

lemma map_of_rewrites_other:
  assumes "\<And>i f. f \<in> rw_fields \<Longrightarrow> k \<noteq> rw_key i f"
  shows "map_of (foldl rewrite_step m rws) (GetAnnotationWithPrefix (''rewrite-'' @ k)) =
    map_of m (GetAnnotationWithPrefix (''rewrite-'' @ k))"
proof (induction rws arbitrary: m)
  case (Cons r rws)
  then show ?case
    using assms by (cases r) (simp add: rewrite_step_def nat_str_rw_key map_of_put_ann)
qed simp

text \<open>
  A map with exactly these entries converts to the rewrites of the rule, in an order that
  depends on the order of the map.
\<close>

lemma convert_rewrites:
  assumes wf: "gm_wf M"
    and at: "\<And>i f. f \<in> rw_fields \<Longrightarrow>
      map_of M (rw_key i f) = (if i < length rws then Some (row_field f (rws ! i)) else None)"
    and keys: "\<forall>k \<in> fst ` set M. \<exists>i. \<exists>f \<in> rw_fields. k = rw_key i f"
  shows "mset (convert M) = mset (map rewrite_of rws)"
proof -
  let ?C = "foldl convert_step [] M"
  have C: "gm_wf ?C" "fst ` set ?C \<subseteq> range nat_str"
    using convert_fold [OF wf keys] by blast+
  have entry: "map_of ?C (nat_str i) = (if i < length rws then Some (rewrite_of (rws ! i)) else None)" for i
  proof -
    have "rw_key i f \<in> fst ` set M \<longleftrightarrow> i < length rws" if "f \<in> rw_fields" for f
      using at [OF that, of i] map_of_eq_None_iff [of M "rw_key i f"] by (auto split: if_splits)
    moreover have "gm_str M (rw_key i f) = row_field f (rws ! i)" if "f \<in> rw_fields" "i < length rws" for f
      using at [OF that(1), of i] that(2) by (simp add: gm_str_def)
    ultimately show ?thesis
      using convert_fold [OF wf keys] by (simp add: rewrite_of_def row_field_def)
  qed
  have dom: "fst ` set ?C = nat_str ` {..<length rws}"
  proof (intro set_eqI iffI)
    fix k assume k: "k \<in> fst ` set ?C"
    with C(2) obtain i where "k = nat_str i" by blast
    then show "k \<in> nat_str ` {..<length rws}"
      using k entry [of i] map_of_eq_None_iff [of ?C k] by (auto split: if_splits)
  next
    fix k assume "k \<in> nat_str ` {..<length rws}"
    then show "k \<in> fst ` set ?C"
      using entry map_of_eq_None_iff [of ?C k] by fastforce
  qed
  have "mset (map fst ?C) = mset (map nat_str [0..<length rws])"
    using C(1) dom nat_str_inj
    by (intro set_eq_iff_mset_eq_distinct [THEN iffD1]) (auto simp: distinct_map inj_on_def atLeast0LessThan)
  then have "mset (map (\<lambda>k. the (map_of ?C k)) (map fst ?C)) =
      mset (map (\<lambda>k. the (map_of ?C k)) (map nat_str [0..<length rws]))"
    by (simp only: mset_map)
  moreover have "map (\<lambda>k. the (map_of ?C k)) (map fst ?C) = map snd ?C"
    using C(1) by (auto simp: map_of_eq_Some_iff [THEN iffD2])
  moreover have "map (\<lambda>k. the (map_of ?C k)) (map nat_str [0..<length rws]) = map rewrite_of rws"
    by (rule nth_equalityI) (simp_all add: entry)
  ultimately show ?thesis
    by (simp only: convert_def)
qed

lemma rule_annotations_keys:
  "map_of (rule_annotations rule) (GetAnnotationWithPrefix k) =
     (if k = ''weight'' \<and> 1 < hr_Weight rule then Some (go_itoa (hr_Weight rule))
      else if k = ''header'' \<and> hr_Header rule \<noteq> [] then Some (hr_Header rule)
      else if k = ''cookie'' \<and> hr_Cookie rule \<noteq> [] then Some (hr_Cookie rule)
      else if k = ''path-rewrite'' \<and> hr_PathRewrite rule then Some ''true'' else None)"
  by (simp add: rule_annotations_def Let_def map_of_put_ann del: map_of_eq_Some_iff)

lemma map_of_rewrite_annotations:
  assumes "parseAnnotations g rule = Inr annos" "config_ListByRuleID g (hr_UUID rule) = Inr cfgs"
    and "ListByHTTPRuleID g (hr_UUID rule) = Inr rws" "\<forall>c \<in> set cfgs. \<not> prefix ''rewrite-'' (rc_Key c)"
  shows "map_of annos (GetAnnotationWithPrefix (''rewrite-'' @ k)) =
    map_of (foldl rewrite_step (rule_annotations rule) (enumerate 0 rws)) (GetAnnotationWithPrefix (''rewrite-'' @ k))"
proof -
  have "\<forall>c \<in> set cfgs. rc_Key c \<noteq> ''rewrite-'' @ k"
    using assms(4) by (metis prefixI)
  then show ?thesis
    using assms(1-3)
    by (auto simp: parseAnnotations_def Let_def map_of_put_configs map_of_extensions split: sum.splits)
qed

text \<open>The rewrites of a rule, as the gateway reads them.\<close>

lemma parsed_rewrites:
  assumes "parseAnnotations g rule = Inr annos" "config_ListByRuleID g (hr_UUID rule) = Inr cfgs"
    and "ListByHTTPRuleID g (hr_UUID rule) = Inr rws" "\<forall>c \<in> set cfgs. \<not> prefix ''rewrite-'' (rc_Key c)"
    and meta: "gm_wf (Annotations meta)" "map_of (Annotations meta) = map_of annos"
  shows "mset (Rewrites (rewrite_Parse d meta)) = mset (map rewrite_of rws)"
proof -
  let ?M = "or_else [] (GetStringAnnotationWithPrefix ''rewrite-'' meta)"
  have M: "map_of ?M k = map_of (foldl rewrite_step (rule_annotations rule) (enumerate 0 rws))
      (GetAnnotationWithPrefix (''rewrite-'' @ k))" if "k \<noteq> []" for k
    using annotations_with_prefix(3) [OF meta(1) that, of "''rewrite-''"] map_of_rewrite_annotations [OF assms(1-4), of k]
    by (simp add: meta(2) GetAnnotationWithPrefix_def)
  have none: "map_of (rule_annotations rule) (GetAnnotationWithPrefix (''rewrite-'' @ k)) = None" for k
    by (simp add: rule_annotations_keys)
  have "mset (convert ?M) = mset (map rewrite_of rws)"
  proof (rule convert_rewrites)
    show "gm_wf ?M" by (rule annotations_with_prefix(1) [OF meta(1)])
    show "map_of ?M (rw_key i f) = (if i < length rws then Some (row_field f (rws ! i)) else None)"
      if "f \<in> rw_fields" for i f
      using M [of "rw_key i f"] map_of_rewrites_at [OF that, of "rule_annotations rule" 0 rws i] none
      by (simp add: rw_key_def)
    show "\<forall>k \<in> fst ` set ?M. \<exists>i. \<exists>f \<in> rw_fields. k = rw_key i f"
    proof (rule ccontr)
      assume "\<not> ?thesis"
      then obtain k where k: "k \<in> fst ` set ?M" and other: "\<And>i f. f \<in> rw_fields \<Longrightarrow> k \<noteq> rw_key i f" by blast
      then have "k \<noteq> []"
        using annotations_with_prefix(2) [OF meta(1)] by metis
      then have "map_of ?M k = None"
        using M [of k] map_of_rewrites_other [OF other] none by simp
      then show False
        using k map_of_eq_None_iff [of ?M k] by simp
    qed
  qed
  then show ?thesis by (simp add: rewrite_Parse_def)
qed

section \<open>Which rules are converted\<close>

text \<open>A rule has no certificate or one that is there and not blank.\<close>

definition certificate_ok :: "gw_tables \<Rightarrow> http_rule_row \<Rightarrow> bool" where
  "certificate_ok g rule \<longleftrightarrow> hr_CertificateID rule = [] \<or>
     (\<exists>cert. find_row (\<lambda>r. ct_UUID r = hr_CertificateID rule) (t_certificates g) = Some cert \<and>
        trim_space (ct_Certificate cert) \<noteq> [] \<and> trim_space (ct_PrivateKey cert) \<noteq> [])"

abbreviation queries_answer :: "gw_tables \<Rightarrow> bool" where
  "queries_answer g \<equiv> \<forall>q k. \<not> t_fails g q k"

lemma createSecret_ok:
  "queries_answer g \<Longrightarrow> (\<exists>sec. createSecret g rule n ns l = Inr sec) \<longleftrightarrow> certificate_ok g rule"
  by (auto simp: createSecret_def GetCertificateByID_def certificate_ok_def split: option.splits)

lemma parseAnnotations_ok: "queries_answer g \<Longrightarrow> \<exists>annos. parseAnnotations g rule = Inr annos"
  by (simp add: parseAnnotations_def ListByHTTPRuleID_def GetRuleExtensionByRuleID_def config_ListByRuleID_def
      rows_of_def Let_def)

lemma http_rule_step_names:
  assumes "queries_answer g" "http_rule_step g db b cp pcp s acc rule = Inr acc'"
  shows "map (Name \<circ> ki_meta) (fst acc') =
    map (Name \<circ> ki_meta) (fst acc) @ (if certificate_ok g rule then [hr_UUID rule] else [])"
proof -
  obtain ings secs ings' secs' where acc: "acc = (ings, secs)" "acc' = (ings', secs')"
    by (cases acc, cases acc') auto
  obtain r where r: "applyHTTPRule g db b rule cp pcp s = Inr r"
    using assms(2) by (auto simp: http_rule_step_def acc bind_go_eq_Inr)
  then obtain ns where ns: "GetNamespace (ab_appService b) = Inr ns"
    by (auto simp: applyHTTPRule_def Let_def bind_go_eq_Inr)
  show ?thesis
  proof (cases r)
    case (Inl e)
    have "\<nexists>sec. createSecret g rule (hr_UUID rule) ns (GetCommonLabels (tenant_of db) [] (ab_appService b)) = Inr sec"
      using r Inl parseAnnotations_ok [OF assms(1), of rule]
      by (auto simp: applyHTTPRule_def Let_def bind_go_eq_Inr ns)
    then show ?thesis
      using assms(2) r Inl createSecret_ok [OF assms(1)] by (auto simp: http_rule_step_def acc)
  next
    case (Inr ingsec)
    obtain ing sec where pair: "ingsec = (ing, sec)" by fastforce
    note shape = applyHTTPRule_shape [OF r [unfolded Inr pair] ns]
    have "Name (ki_meta ing) = hr_UUID rule"
      using shape by (auto simp: create_ingress_def createNtwIngress_def createBetaIngress_def)
    moreover have "certificate_ok g rule"
      using shape createSecret_ok [OF assms(1)] by blast
    ultimately show ?thesis
      using assms(2) r Inr pair by (auto simp: http_rule_step_def acc)
  qed
qed

lemma tcp_rule_step_names:
  assumes "queries_answer g" "tcp_rule_step g db b s ings rule = Inr ings'"
  shows "map (Name \<circ> ki_meta) ings' = map (Name \<circ> ki_meta) ings @ [tr_UUID rule]"
proof -
  obtain ns r where r: "GetNamespace (ab_appService b) = Inr ns" "applyTCPRule g db b rule s ns = Inr r"
    using assms(2) by (auto simp: tcp_rule_step_def bind_go_eq_Inr)
  then obtain ing where ing: "r = Inr ing"
    using assms(1) by (auto simp: applyTCPRule_def Let_def config_ListByRuleID_def rows_of_def split: list.splits)
  then have "ings' = ings @ [ing]"
    using assms(2) r by (simp add: tcp_rule_step_def)
  with r ing show ?thesis by (auto elim!: applyTCPRule_shape)
qed

definition http_rules_of :: "gw_tables \<Rightarrow> string \<Rightarrow> int \<Rightarrow> http_rule_row list" where
  "http_rules_of g sid port = filter (\<lambda>r. hr_ServiceID r = sid \<and> hr_ContainerPort r = port) (t_http_rules g)"

definition tcp_rules_of :: "gw_tables \<Rightarrow> string \<Rightarrow> int \<Rightarrow> tcp_rule_row list" where
  "tcp_rules_of g sid port = filter (\<lambda>r. tr_ServiceID r = sid \<and> tr_ContainerPort r = port) (t_tcp_rules g)"

lemma ApplyRules_names:
  assumes ok: "queries_answer g" and "ApplyRules g db b sid cp pcp s = Inr (ings, secs)"
  shows "map (Name \<circ> ki_meta) ings =
    map hr_UUID (filter (certificate_ok g) (http_rules_of g sid cp)) @ map tr_UUID (tcp_rules_of g sid cp)"
proof -
  from assms(2) obtain ings1 where
    h: "for_go (http_rule_step g db b cp pcp s) ([], []) (http_rules_of g sid cp) = Inr (ings1, secs)" and
    t: "for_go (tcp_rule_step g db b s) ings1 (tcp_rules_of g sid cp) = Inr ings"
    using ok by (auto simp: ApplyRules_def bind_go_eq_Inr GetHTTPRuleByServiceIDAndContainerPort_def
        GetTCPRuleByServiceIDAndContainerPort_def rows_of_def rows_or_none_def http_rules_of_def tcp_rules_of_def)
  have "concat (map (\<lambda>r. if P r then [f r] else []) xs) = map f (filter P xs)" for P f and xs :: "http_rule_row list"
    by (induction xs) auto
  then have "map (Name \<circ> ki_meta) ings1 = map hr_UUID (filter (certificate_ok g) (http_rules_of g sid cp))"
    using for_go_collect [OF h, of "map (Name \<circ> ki_meta) \<circ> fst"] http_rule_step_names [OF ok] by simp
  moreover have "concat (map (\<lambda>r. [f r]) xs) = map f xs" for f and xs :: "tcp_rule_row list"
    by (induction xs) auto
  ultimately show ?thesis
    using for_go_collect [OF t, of "map (Name \<circ> ki_meta)"] tcp_rule_step_names [OF ok] by simp
qed

section \<open>Ports that a plugin has taken over\<close>

definition takes_over :: "plugin_port_row list \<Rightarrow> port_row \<Rightarrow> plugin_port_row option" where
  "takes_over pls port = find (\<lambda>x. pl_ContainerPort x = pr_ContainerPort port) pls"

definition over_port :: "plugin_port_row \<Rightarrow> port_row \<Rightarrow> port_row" where
  "over_port x port = port\<lparr>pr_ContainerPort := pl_PluginPort x, pr_MappingPort := pl_PluginPort x\<rparr>"

lemma over_port_container [simp]: "pr_ContainerPort (over_port x port) = pl_PluginPort x"
  by (simp add: over_port_def)

lemma map_port_step: "map_port (port, pp) x = (if pl_ContainerPort x = pr_ContainerPort port
    then (over_port x port, AList.update (wrap32 (pl_PluginPort x)) (pr_ContainerPort port) pp) else (port, pp))"
  by (simp add: map_port_def over_port_def)

lemma map_port_scan:
  assumes "\<forall>x \<in> set pls. pl_PluginPort x \<notin> pl_ContainerPort ` set pls"
  shows "foldl map_port (port, pp) pls = (case takes_over pls port of
      None \<Rightarrow> (port, pp)
    | Some x \<Rightarrow> (over_port x port, AList.update (wrap32 (pl_PluginPort x)) (pr_ContainerPort port) pp))"
proof -
  have skip: "foldl map_port (q, pp) ys = (q, pp)" if "pr_ContainerPort q \<notin> pl_ContainerPort ` set ys" for q pp ys
    using that by (induction ys) (auto simp: map_port_step)
  have "\<forall>x \<in> set pls. pl_PluginPort x \<notin> pl_ContainerPort ` set ys \<Longrightarrow> set ys \<subseteq> set pls \<Longrightarrow>
      foldl map_port (port, pp) ys = (case takes_over ys port of None \<Rightarrow> (port, pp)
    | Some x \<Rightarrow> (over_port x port, AList.update (wrap32 (pl_PluginPort x)) (pr_ContainerPort port) pp))" for ys
  proof (induction ys)
    case (Cons y ys)
    then show ?case
      using skip [of "over_port y port" ys] by (auto simp: map_port_step takes_over_def)
  qed (simp add: takes_over_def)
  then show ?thesis using assms by blast
qed

definition over_all :: "plugin_port_row list \<Rightarrow> port_row \<Rightarrow> port_row" where
  "over_all pls port = (case takes_over pls port of None \<Rightarrow> port | Some x \<Rightarrow> over_port x port)"

lemma mapping_scan:
  assumes fresh: "\<forall>x \<in> set pls. pl_PluginPort x \<notin> pl_ContainerPort ` set pls"
    and inj: "inj_on (\<lambda>x. wrap32 (pl_PluginPort x)) (set pls)"
    and mapped: "CreateUpstreamPluginMappingPort ports pls = (ports', pp)"
  shows "ports' = map (over_all pls) ports" and "fst ` set pp \<subseteq> (\<lambda>x. wrap32 (pl_PluginPort x)) ` set pls"
    and "port \<in> set ports \<Longrightarrow> takes_over pls port = Some x \<Longrightarrow>
      map_of pp (wrap32 (pl_PluginPort x)) = Some (pr_ContainerPort port)"
proof -
  let ?step = "\<lambda>(done, pp) port. case foldl map_port (port, pp) pls of (port', pp') \<Rightarrow> (done @ [port'], pp')"
  have found: "x \<in> set pls" "pl_ContainerPort x = pr_ContainerPort port" if "takes_over pls port = Some x" for x port
    using that by (auto simp: takes_over_def find_Some_iff)
  have "fst (foldl ?step ([], []) ports) = map (over_all pls) ports \<and>
      fst ` set (snd (foldl ?step ([], []) ports)) \<subseteq> (\<lambda>x. wrap32 (pl_PluginPort x)) ` set pls \<and>
      (\<forall>port \<in> set ports. \<forall>x. takes_over pls port = Some x \<longrightarrow>
        map_of (snd (foldl ?step ([], []) ports)) (wrap32 (pl_PluginPort x)) = Some (pr_ContainerPort port))"
  proof (induction ports rule: rev_induct)
    case (snoc q ports)
    obtain ds pp0 where st: "foldl ?step ([], []) ports = (ds, pp0)" by fastforce
    note scan = map_port_scan [OF fresh, of q pp0]
    have IH: "ds = map (over_all pls) ports" "fst ` set pp0 \<subseteq> (\<lambda>x. wrap32 (pl_PluginPort x)) ` set pls"
      "\<And>port x. port \<in> set ports \<Longrightarrow> takes_over pls port = Some x \<Longrightarrow>
        map_of pp0 (wrap32 (pl_PluginPort x)) = Some (pr_ContainerPort port)"
      using snoc.IH by (simp_all add: st)
    show ?case
    proof (cases "takes_over pls q")
      case None
      then have now: "foldl ?step ([], []) (ports @ [q]) = (ds @ [q], pp0)"
        by (simp add: st scan)
      show ?thesis
        unfolding now using IH None by (auto simp: over_all_def)
    next
      case (Some y)
      let ?pp = "AList.update (wrap32 (pl_PluginPort y)) (pr_ContainerPort q) pp0"
      have now: "foldl ?step ([], []) (ports @ [q]) = (ds @ [over_port y q], ?pp)"
        by (simp add: st scan Some)
      have "fst ` set ?pp \<subseteq> (\<lambda>x. wrap32 (pl_PluginPort x)) ` set pls"
        using IH(2) found(1) [OF Some]
          image_mono [OF set_alist_update [of "wrap32 (pl_PluginPort y)" "pr_ContainerPort q" pp0], of fst]
        by (simp only: image_insert fst_conv) blast
      moreover have "map_of ?pp (wrap32 (pl_PluginPort x)) = Some (pr_ContainerPort port)"
        if "port \<in> set (ports @ [q])" "takes_over pls port = Some x" for port x
      proof (cases "wrap32 (pl_PluginPort x) = wrap32 (pl_PluginPort y)")
        case True
        then have "x = y"
          using inj_onD [OF inj] found(1) [OF Some] found(1) [OF that(2)] by blast
        then show ?thesis
          using found(2) [OF Some] found(2) [OF that(2)] by (simp add: update_conv')
      next
        case False
        then have "port \<in> set ports"
          using that Some by auto
        then show ?thesis
          using IH(3) [OF _ that(2)] False by (simp add: update_conv' del: map_of_eq_Some_iff)
      qed
      ultimately show ?thesis
        unfolding now using IH(1) Some by (simp add: over_all_def)
    qed
  qed simp
  then show "ports' = map (over_all pls) ports" "fst ` set pp \<subseteq> (\<lambda>x. wrap32 (pl_PluginPort x)) ` set pls"
    "port \<in> set ports \<Longrightarrow> takes_over pls port = Some x \<Longrightarrow>
      map_of pp (wrap32 (pl_PluginPort x)) = Some (pr_ContainerPort port)"
    using mapped by (auto simp: CreateUpstreamPluginMappingPort_def)
qed

text \<open>
  The plugin ports of a component are clean: different from each other and from all ports of the
  component, and all ports fit into 32 bits. (Plugin ports are taken from 65301 on.)
\<close>

definition own_ports :: "gw_tables \<Rightarrow> string \<Rightarrow> port_row list" where
  "own_ports g sid = filter (\<lambda>r. pr_ServiceID r = sid) (t_ports g)"

definition clean_plugins :: "gw_tables \<Rightarrow> string \<Rightarrow> bool" where
  "clean_plugins g sid \<longleftrightarrow> (let pls = filter (\<lambda>r. pl_ServiceID r = sid) (t_plugin_ports g) in
     distinct (map pl_PluginPort pls) \<and>
     (\<forall>x \<in> set pls. int32_range (pl_PluginPort x) \<and>
        pl_PluginPort x \<notin> pl_ContainerPort ` set pls \<union> pr_ContainerPort ` set (own_ports g sid)) \<and>
     (\<forall>p \<in> set (own_ports g sid). int32_range (pr_ContainerPort p) \<and> pr_ContainerPort p \<noteq> 0))"

lemma over_all_fields [simp]:
  "pr_IsOuterService (over_all pls p) = pr_IsOuterService p" "pr_ServiceID (over_all pls p) = pr_ServiceID p"
  by (simp_all add: over_all_def over_port_def split: option.split)

text \<open>The rules of a port are looked up under its own number, whoever serves it.\<close>

lemma mapped_ports_origin:
  assumes ok: "queries_answer g" and clean: "clean_plugins g sid"
    and mapped: "mapped_ports g sid (own_ports g sid) crt = Inr (ports, pp)"
  obtains pls where "ports = map (over_all pls) (own_ports g sid)"
    "\<And>p. p \<in> set (own_ports g sid) \<Longrightarrow> (let m = pp_get pp (wrap32 (pr_ContainerPort (over_all pls p)))
       in if m = 0 then pr_ContainerPort (over_all pls p) else m) = pr_ContainerPort p"
proof (cases crt)
  case False
  have "over_all [] = id"
    by (rule ext) (simp add: over_all_def takes_over_def)
  then show thesis
    using that [of "[]"] mapped False by (simp add: mapped_ports_def pp_get_def)
next
  case True
  let ?pls = "filter (\<lambda>r. pl_ServiceID r = sid) (sort_key pl_PluginPort (t_plugin_ports g))"
  have pls: "set ?pls = set (filter (\<lambda>r. pl_ServiceID r = sid) (t_plugin_ports g))" by simp
  have "CreateUpstreamPluginMappingPort (own_ports g sid) ?pls = (ports, pp)"
    using mapped True ok by (simp add: mapped_ports_def GetPluginMappingPorts_def rows_of_def)
  moreover have range: "wrap32 (pl_PluginPort x) = pl_PluginPort x" "pl_PluginPort x \<notin> pl_ContainerPort ` set ?pls"
      "pl_PluginPort x \<notin> pr_ContainerPort ` set (own_ports g sid)" if "x \<in> set ?pls" for x
    using clean that by (auto simp: clean_plugins_def Let_def)
  moreover have "inj_on (\<lambda>x. wrap32 (pl_PluginPort x)) (set ?pls)"
    using clean range(1) unfolding pls by (auto simp: clean_plugins_def Let_def distinct_map inj_on_def)
  ultimately have scan: "ports = map (over_all ?pls) (own_ports g sid)"
      "fst ` set pp \<subseteq> (\<lambda>x. wrap32 (pl_PluginPort x)) ` set ?pls"
      "\<And>port x. port \<in> set (own_ports g sid) \<Longrightarrow> takes_over ?pls port = Some x \<Longrightarrow>
        map_of pp (wrap32 (pl_PluginPort x)) = Some (pr_ContainerPort port)"
    using mapping_scan [of ?pls "own_ports g sid" ports pp] by blast+
  show thesis
  proof (rule that [OF scan(1)])
    fix p assume p: "p \<in> set (own_ports g sid)"
    then have own: "wrap32 (pr_ContainerPort p) = pr_ContainerPort p" "pr_ContainerPort p \<noteq> 0"
      using clean by (auto simp: clean_plugins_def Let_def)
    show "(let m = pp_get pp (wrap32 (pr_ContainerPort (over_all ?pls p)))
       in if m = 0 then pr_ContainerPort (over_all ?pls p) else m) = pr_ContainerPort p"
    proof (cases "takes_over ?pls p")
      case None
      have "pr_ContainerPort p \<notin> fst ` set pp"
      proof
        assume "pr_ContainerPort p \<in> fst ` set pp"
        then obtain x where x: "x \<in> set ?pls" "pr_ContainerPort p = wrap32 (pl_PluginPort x)"
          using scan(2) by blast
        then show False
          using range(1,3) [OF x(1)] p by (metis imageI)
      qed
      then have "map_of pp (pr_ContainerPort p) = None"
        by (simp add: map_of_eq_None_iff)
      then show ?thesis
        using None own by (simp add: over_all_def pp_get_def Let_def)
    next
      case (Some x)
      then show ?thesis
        using scan(3) [OF p Some] own by (simp add: over_all_def pp_get_def Let_def)
    qed
  qed
qed

section \<open>Storing the built objects in the component\<close>

text \<open>
  The built objects as the record of a component keeps them: metadata and an opaque rest, for any
  encoding of the rest.
\<close>

definition resource_objects ::
  "(k8s_service \<Rightarrow> string) \<Rightarrow> (k8s_ingress \<Rightarrow> string) \<Rightarrow> (k8s_secret \<Rightarrow> string) \<Rightarrow> K8sResources \<Rightarrow> k8s_resources" where
  "resource_objects es ei ec res =
     (map (\<lambda>s. \<lparr>o_meta = ks_meta s, o_data = es s\<rparr>) (Services res),
      map (\<lambda>i. (if ki_beta i then BetaIngress else NetIngress) \<lparr>o_meta = ki_meta i, o_data = ei i\<rparr>) (Ingresses res),
      map (\<lambda>c. \<lparr>o_meta = sec_meta c, o_data = ec c\<rparr>) (Secrets res))"

lemma fold_SetService: "obj_name ` set (services (fold SetService xs a)) = obj_name ` set xs \<union> obj_name ` set (services a)"
  by (induction xs arbitrary: a) (auto simp: SetService_def names_set_named)

lemma fold_SetIngress:
  "services (fold SetIngress xs a) = services a"
  "NetIngress d \<in> set xs \<Longrightarrow> obj_name d \<in> obj_name ` set (ingresses (fold SetIngress xs a))"
  "BetaIngress d \<in> set xs \<Longrightarrow> obj_name d \<in> obj_name ` set (betaIngresses (fold SetIngress xs a))"
proof -
  have loop: "obj_name ` set (set_ingress_loop x ys) = insert (obj_name x) (obj_name ` set ys)" for x ys
    by (induction ys) auto
  show "services (fold SetIngress xs a) = services a"
    by (induction xs arbitrary: a) (simp_all add: SetIngress_def split: any_ingress.split)
  have keep: "obj_name ` set (ingresses a) \<subseteq> obj_name ` set (ingresses (fold SetIngress xs a))"
    "obj_name ` set (betaIngresses a) \<subseteq> obj_name ` set (betaIngresses (fold SetIngress xs a))" for xs a
    by (induction xs rule: rev_induct) (auto simp: SetIngress_def loop split: any_ingress.split)
  show "NetIngress d \<in> set xs \<Longrightarrow> obj_name d \<in> obj_name ` set (ingresses (fold SetIngress xs a))"
    "BetaIngress d \<in> set xs \<Longrightarrow> obj_name d \<in> obj_name ` set (betaIngresses (fold SetIngress xs a))"
    by (induction xs rule: rev_induct) (auto simp: SetIngress_def loop split: any_ingress.split)
qed

lemma fold_SetSecret:
  "obj_name ` set (secrets (fold (\<lambda>d. SetSecret (Some d)) xs a)) = obj_name ` set xs \<union> obj_name ` set (secrets a)"
  "services (fold (\<lambda>d. SetSecret (Some d)) xs a) = services a"
  "ingresses (fold (\<lambda>d. SetSecret (Some d)) xs a) = ingresses a"
  "betaIngresses (fold (\<lambda>d. SetSecret (Some d)) xs a) = betaIngresses a"
  by (induction xs arbitrary: a) (auto simp: SetSecret_def names_set_named)

section \<open>Properties\<close>

text \<open>
  C22: The built objects are closed: every ingress has a backend, all its backends are one service built
  with it, in its namespace and under a port of that service, and an ingress with a certificate comes
  with the secret that holds it.
\<close>

theorem built_ingresses_backed:
  assumes "Build g db b = Inr (Inr res)"
  shows "\<forall>i \<in> set (Ingresses res). (\<exists>s \<in> set (Services res). backed_by i s) \<and>
    (ki_tls i \<noteq> [] \<longrightarrow> (\<exists>sec \<in> set (Secrets res). secured_by i sec))"
  using Build_closed [OF assms] by (simp add: resources_closed_def)

text \<open>
  The component that has the built objects stored holds every ingress of them by name, together with
  the service of each of its backends and the secret of its certificate.
\<close>

theorem registered_routes_complete:
  assumes builder: "AppServiceBuilder db (ServiceID a) (ServiceType a) a = Inr b"
    and built: "Build g db b = Inr (Inr res)" and stored: "k8s_build db a = Inr (Inr (Some (resource_objects es ei ec res)))"
  shows "\<exists>a'. TenantEnvServiceRegist db a = Inr (Inr a') \<and> (\<forall>i \<in> set (Ingresses res).
    Name (ki_meta i) \<in> obj_name ` set (if ki_beta i then betaIngresses a' else ingresses a') \<and>
    (\<forall>(n, _) \<in> set (ing_backends i). n \<in> obj_name ` set (services a')) \<and>
    (\<forall>t \<in> set (ki_tls i). tls_secret t \<in> obj_name ` set (secrets a')))"
proof -
  obtain svcs ings secs where objs: "resource_objects es ei ec res = (svcs, ings, secs)"
    by (cases "resource_objects es ei ec res") auto
  let ?a = "fold (\<lambda>d. SetSecret (Some d)) secs (fold SetIngress ings (fold SetService svcs a))"
  have reg: "TenantEnvServiceRegist db a = Inr (Inr ?a)"
    using builder stored objs
    by (auto simp: TenantEnvServiceRegist_def AppServiceBuilder_def Let_def split: sum.splits)
  have svc: "Name (ks_meta s) \<in> obj_name ` set (services ?a)" if "s \<in> set (Services res)" for s
    using that objs by (force simp: fold_SetSecret fold_SetIngress fold_SetService resource_objects_def)
  have sec: "Name (sec_meta c) \<in> obj_name ` set (secrets ?a)" if "c \<in> set (Secrets res)" for c
    using that objs by (force simp: fold_SetSecret resource_objects_def)
  have ing: "Name (ki_meta i) \<in> obj_name ` set (if ki_beta i then betaIngresses ?a else ingresses ?a)"
    if "i \<in> set (Ingresses res)" for i
  proof -
    have "(if ki_beta i then BetaIngress else NetIngress) \<lparr>o_meta = ki_meta i, o_data = ei i\<rparr> \<in> set ings"
      using objs by (auto simp only: resource_objects_def prod.inject set_map intro: image_eqI [OF refl that])
    then show ?thesis
      using fold_SetIngress(2,3) [of "\<lparr>o_meta = ki_meta i, o_data = ei i\<rparr>" ings "fold SetService svcs a"]
      by (auto simp: fold_SetSecret split: if_splits)
  qed
  have closed: "resources_closed res" by (rule Build_closed [OF built])
  have "(\<forall>(n, _) \<in> set (ing_backends i). n \<in> obj_name ` set (services ?a)) \<and>
      (\<forall>t \<in> set (ki_tls i). tls_secret t \<in> obj_name ` set (secrets ?a))" if "i \<in> set (Ingresses res)" for i
  proof -
    obtain s where "s \<in> set (Services res)" "backed_by i s"
      using closed \<open>i \<in> set (Ingresses res)\<close> by (auto simp: resources_closed_def)
    moreover have "\<exists>c \<in> set (Secrets res). secured_by i c" if "ki_tls i \<noteq> []"
      using closed \<open>i \<in> set (Ingresses res)\<close> that by (auto simp: resources_closed_def)
    ultimately show ?thesis
      using svc sec by (cases "ki_tls i = []") (auto simp: backed_by_def secured_by_def)
  qed
  with reg ing show ?thesis by blast
qed

text \<open>
  C23: Services and containers agree: every port of every built service directs to a port that the
  containers of the component declare, whether or not a plugin has taken the ports over. The two are
  computed by different copies of the same loop.
\<close>

theorem service_ports_open:
  assumes "Build g db b = Inr (Inr res)" "s \<in> set (Services res)" "kp \<in> set (ks_ports s)"
  shows "kp_TargetPort kp \<in> fst ` set (createPorts g (ab_serviceID b))"
  using assms(1)
proof (rule Build_steps)
  fix ports0 crt ports pp res0 svcs
  assume q: "GetPortsByServiceID g (ab_serviceID b) = Inr ports0" "checkUpstreamPluginRelation g (ab_serviceID b) = Inr crt"
      "mapped_ports g (ab_serviceID b) ports0 crt = Inr (ports, pp)"
    and loop: "for_go (build_port g db b pp) \<lparr>Services = [], Secrets = [], Ingresses = []\<rparr> ports = Inr res0"
    and headless: "set svcs \<subseteq> {s. createStatefulService db b ports = Inr s}"
    and all: "list_all2 same_but_labels (Services res0 @ svcs) (Services res)"
  obtain s0 where s0: "s0 \<in> set (Services res0 @ svcs)" "same_but_labels s0 s"
    using all2_partner_left [OF all assms(2)] by blast
  then have kp: "kp \<in> set (ks_ports s0)"
    using assms(3) same_but_labels_ports by metis
  have "\<exists>p \<in> set ports. kp_TargetPort kp = wrap32 (pr_ContainerPort p)"
  proof (cases "s0 \<in> set (Services res0)")
    case False
    then have "createStatefulService db b ports = Inr s0"
      using s0 headless by auto
    then have "ks_ports s0 = map stateful_port ports"
      by (auto simp: service_defs)
    then obtain p where "p \<in> set ports" "kp = stateful_port p"
      using kp by auto
    then show ?thesis
      by (intro bexI [of _ p]) (simp_all add: stateful_port_def Let_def)
  qed (use service_targets [OF loop _ kp] in blast)
  then show ?thesis
    using createPorts_rows [OF q] by (force simp: container_port_def)
qed

text \<open>
  C24: What the gateway reads from the ingress of an HTTP rule is what the rule says, in whatever order
  the annotations come: its weight (at least one), its header and cookie conditions, and its
  rewrites, as long as no configuration of the rule overrides one of these annotations.
\<close>

theorem http_rule_read_back:
  assumes parsed: "parseAnnotations g rule = Inr annos"
    and rows: "config_ListByRuleID g (hr_UUID rule) = Inr cfgs" "ListByHTTPRuleID g (hr_UUID rule) = Inr rws"
    and own: "\<forall>c \<in> set cfgs. rc_Key c \<notin> {''weight'', ''header'', ''cookie''} \<and> \<not> prefix ''rewrite-'' (rc_Key c)"
    and meta: "gm_wf (Annotations meta)" "map_of (Annotations meta) = map_of annos"
    and "int64_range (hr_Weight rule)"
  shows "weight_Parse meta = max 1 (hr_Weight rule) \<and>
    header_Parse meta = (if hr_Header rule = [] then Inl ErrMissingAnnotations else Inr (transform (hr_Header rule))) \<and>
    cookie_Parse meta = (if hr_Cookie rule = [] then Inl ErrMissingAnnotations else Inr (transform (hr_Cookie rule))) \<and>
    mset (Rewrites (rewrite_Parse d meta)) = mset (map rewrite_of rws)"
proof -
  have at: "map_of (Annotations meta) (GetAnnotationWithPrefix k) = map_of (rule_annotations rule) (GetAnnotationWithPrefix k)"
    if "k \<in> {''weight'', ''header'', ''cookie''}" for k
    using map_of_parseAnnotations [OF parsed rows(1), of k] own that by (auto simp: meta(2))
  have "weight_Parse meta = max 1 (hr_Weight rule)"
    by (rule weight_Parse_lookup) (use at [of "''weight''"] assms(7) in \<open>simp_all add: rule_annotations_keys\<close>)
  moreover have "mset (Rewrites (rewrite_Parse d meta)) = mset (map rewrite_of rws)"
    using own by (intro parsed_rewrites [OF parsed rows _ meta]) auto
  ultimately show ?thesis
    using at by (simp add: header_Parse_def cookie_Parse_def GetStringAnnotation_lookup rule_annotations_keys)
qed

text \<open>
  A TCP rule with a valid port is read back by the gateway as it was written: layer 4 enabled, its
  address (all addresses when it has none) and its port, in front of the service it was built for.
  A port outside 1 to 65535 is refused by the gateway, not by the conversion.
\<close>

theorem tcp_rule_read_back:
  assumes app: "applyTCPRule g db b rule s ns = Inr (Inr ing)"
    and rows: "config_ListByRuleID g (tr_UUID rule) = Inr cfgs"
    and own: "\<forall>c \<in> set cfgs. rc_Key c \<notin> {''l4-enable'', ''l4-host'', ''l4-port''}"
    and range: "int64_range (tr_Port rule)"
  shows "(if 0 < tr_Port rule \<and> tr_Port rule \<le> 65535
     then \<exists>c. l4_Parse (ki_meta ing) = Inr c \<and> L4Enable c \<and> L4Port c = tr_Port rule \<and>
       L4Host c = (if tr_IP rule = [] then ''0.0.0.0'' else tr_IP rule)
     else l4_Parse (ki_meta ing) = Inl (AnnError ''error l4Port'')) \<and>
    i_default (gateway_view ing) = Some \<lparr>ib_service = Some (Name (ks_meta s)), ib_port = kp_Port (hd (ks_ports s))\<rparr>"
  using app
proof (rule applyTCPRule_shape)
  fix configs p ps
  assume "config_ListByRuleID g (tr_UUID rule) = Inr configs" and ports: "ks_ports s = p # ps"
    and ing: "ing = SetAnnotations (put_configs configs (l4_annotations rule))
       \<lparr>ki_beta = \<not> high_version g,
        ki_meta = createIngressMeta (tr_UUID rule) ns (GetCommonLabels (tenant_of db) [] (ab_appService b)),
        ki_tls = [], ki_rules = [], ki_default = Some (Name (ks_meta s), kp_Port p)\<rparr>"
  then have at: "map_of (Annotations (ki_meta ing)) (GetAnnotationWithPrefix k) =
      map_of (l4_annotations rule) (GetAnnotationWithPrefix k)" if "k \<in> {''l4-enable'', ''l4-host'', ''l4-port''}" for k
    using rows own that by (auto simp: map_of_put_configs)
  have "GetBoolAnnotation ''l4-enable'' (ki_meta ing) = Inr True"
    by (rule GetBoolAnnotation_lookup) (simp add: at l4_annotations_def map_of_put_ann del: map_of_eq_Some_iff)
  moreover have "GetStringAnnotation ''l4-host'' (ki_meta ing) = Inr (tr_IP rule)"
    by (simp add: GetStringAnnotation_lookup at l4_annotations_def map_of_put_ann)
  moreover have "GetIntAnnotation ''l4-port'' (ki_meta ing) = Inr (tr_Port rule)"
    using range by (intro GetIntAnnotation_lookup) (simp_all add: at l4_annotations_def map_of_put_ann del: map_of_eq_Some_iff)
  ultimately have "if 0 < tr_Port rule \<and> tr_Port rule \<le> 65535
     then \<exists>c. l4_Parse (ki_meta ing) = Inr c \<and> L4Enable c \<and> L4Port c = tr_Port rule \<and>
       L4Host c = (if tr_IP rule = [] then ''0.0.0.0'' else tr_IP rule)
     else l4_Parse (ki_meta ing) = Inl (AnnError ''error l4Port'')"
    by (auto simp: l4_Parse_def or_else_def Let_def)
  then show ?thesis
    using ports by (simp add: gateway_view_def ing)
qed

text \<open>
  C4: Exactly the rules of the open ports become ingresses: when the database answers, the ingresses
  are, port by port in the order of the table, the HTTP rules of the ports open to the outside whose
  certificate is there, and their TCP rules, each under its own id. This holds also when a plugin has
  taken ports over: the rules are looked up under the original number.
\<close>

theorem rules_converted_exactly:
  assumes built: "Build g db b = Inr (Inr res)" and ok: "queries_answer g"
    and clean: "clean_plugins g (ab_serviceID b)"
  shows "map (Name \<circ> ki_meta) (Ingresses res) =
    concat (map (\<lambda>p. if pr_IsOuterService p = Some True
      then map hr_UUID (filter (certificate_ok g) (http_rules_of g (ab_serviceID b) (pr_ContainerPort p))) @
           map tr_UUID (tcp_rules_of g (ab_serviceID b) (pr_ContainerPort p))
      else []) (own_ports g (ab_serviceID b)))"
  using built
proof (rule Build_steps)
  fix ports0 crt ports pp res0 svcs
  assume q: "GetPortsByServiceID g (ab_serviceID b) = Inr ports0"
      "mapped_ports g (ab_serviceID b) ports0 crt = Inr (ports, pp)"
    and loop: "for_go (build_port g db b pp) \<lparr>Services = [], Secrets = [], Ingresses = []\<rparr> ports = Inr res0"
    and ings: "Ingresses res = Ingresses res0"
  have "ports0 = own_ports g (ab_serviceID b)"
    using q(1) ok by (simp add: GetPortsByServiceID_def rows_of_def own_ports_def)
  with q(2) obtain pls where ports: "ports = map (over_all pls) (own_ports g (ab_serviceID b))"
    and origin: "\<And>p. p \<in> set (own_ports g (ab_serviceID b)) \<Longrightarrow>
      (let m = pp_get pp (wrap32 (pr_ContainerPort (over_all pls p)))
       in if m = 0 then pr_ContainerPort (over_all pls p) else m) = pr_ContainerPort p"
    by (metis mapped_ports_origin [OF ok clean])
  let ?e = "\<lambda>p. if pr_IsOuterService p = Some True
      then map hr_UUID (filter (certificate_ok g) (http_rules_of g (ab_serviceID b) (pr_ContainerPort p))) @
           map tr_UUID (tcp_rules_of g (ab_serviceID b) (pr_ContainerPort p))
      else []"
  have step: "map (Name \<circ> ki_meta) (Ingresses v) = map (Name \<circ> ki_meta) (Ingresses u) @ ?e p"
    if p: "p \<in> set (own_ports g (ab_serviceID b))" and v: "build_port g db b pp u (over_all pls p) = Inr v" for u p v
  proof (cases "pr_IsOuterService p = Some True")
    case True
    with v origin [OF p] obtain pcp s ings secs where
        s: "ApplyRules g db b (pr_ServiceID p) (pr_ContainerPort p) pcp s = Inr (ings, secs)"
      and new: "Ingresses v = Ingresses u @ ings"
      by (auto simp: build_port_def bind_go_eq_Inr Let_def split: if_splits)
    moreover have "pr_ServiceID p = ab_serviceID b"
      using p by (simp add: own_ports_def)
    ultimately show ?thesis
      using ApplyRules_names [OF ok s] True by simp
  next
    case False
    then have "Ingresses v = Ingresses u"
      using v by (auto simp: build_port_def bind_go_eq_Inr deref_def split: if_splits option.splits)
    with False show ?thesis by simp
  qed
  show ?thesis
    using for_go_collect [OF loop [unfolded ports for_go_map], of "map (Name \<circ> ki_meta) \<circ> Ingresses", of ?e] step ings
    by simp
qed

text \<open>
  C3: From the rule to the pods. When the gateway sees the ingress of an HTTP rule with a domain and
  serves it, then for every ready address and port of the endpoints of the rule's service there is a
  virtual service with the rule's domain as its name, in it a location for the rule's path, and a pool
  of that location with a node for the address, with the weight of the rule (at least one).
\<close>

theorem http_rule_reaches_pods:
  assumes "env_ok env" "ListVirtualService env base p7 p4 = Inr (l7, l4, gb)"
    and "ListPool env gb base7 base4 = (pools7, pools4)"
    and app: "applyHTTPRule g db b rule cp pcp s = Inr (Inr (ing, sec))"
    and rows: "config_ListByRuleID g (hr_UUID rule) = Inr cfgs" "\<forall>c \<in> set cfgs. rc_Key c \<noteq> ''weight''"
    and weight: "int64_range (hr_Weight rule)" "a_weight (g_extract env (ki_meta ing)) = weight_Parse (ki_meta ing)"
    and domain: "replace_byte (CHR '' '') [] (hr_Domain rule) = host" "host \<noteq> []"
    and view: "gateway_view ing \<in> set (g_ingresses env)" "served_l7 env (gateway_view ing)"
    and ep: "(key, e) \<in> set (g_endpoints env)" "Name (ge_meta e) = Name (ks_meta s)" "ss \<in> set (ge_subsets e)"
      "port \<in> set (Ports ss)" "ip \<in> set (Addresses ss)"
  shows "\<exists>vs \<in> set l7. ServerName vs = (if hostSSLMap env (gateway_view ing) = [] then host else ''tls'' @ host) \<and>
    (\<exists>a loc. Ptr a loc \<in> set (Locations vs) \<and> Path loc = rule_path rule \<and>
      (\<exists>pool \<in> set pools7. m_Name (p_Meta pool) \<in> fst ` set (NameCondition loc) \<and>
        (\<exists>a' node. Ptr a' node \<in> set (Nodes pool) \<and> Host node = ip \<and> Port node = port \<and>
           Weight node = max 1 (hr_Weight rule))))"
proof -
  from app obtain ns where ns: "GetNamespace (ab_appService b) = Inr ns"
    by (auto simp: applyHTTPRule_def Let_def bind_go_eq_Inr)
  obtain annos where annos: "parseAnnotations g rule = Inr annos" "Annotations (ki_meta ing) = annos"
    and rules: "ki_rules ing = [(host, [\<lparr>hp_path = rule_path rule,
      hp_type = (if high_version g then Some ''Exact'' else None), hp_backend = (Name (ks_meta s), wrap32 pcp)\<rparr>])]"
    using applyHTTPRule_shape [OF app ns] domain
    by (auto simp: create_ingress_def createNtwIngress_def createBetaIngress_def)
  let ?p = "\<lparr>ip_path = rule_path rule, ip_service = Some (Name (ks_meta s))\<rparr>"
  let ?r = "\<lparr>r_host = host, r_http = Some [?p]\<rparr>"
  have "i_rules (gateway_view ing) = [?r]" "i_meta (gateway_view ing) = ki_meta ing"
    by (simp_all add: gateway_view_def rules)
  moreover have "vir_srv_name (hostSSLMap env (gateway_view ing)) ?r =
      (if hostSSLMap env (gateway_view ing) = [] then host else ''tls'' @ host)"
    using domain by (auto simp: vir_srv_name_def Let_def replace_byte_delete)
  moreover have "weight_Parse (ki_meta ing) = max 1 (hr_Weight rule)"
    using map_of_parseAnnotations [OF annos(1) rows(1), of "''weight''"] rows(2) weight(1) annos(2)
    by (intro weight_Parse_lookup) (simp_all add: rule_annotations_keys)
  ultimately show ?thesis
    using l7_route [OF assms(1-3) view, of ?r "[?p]" ?p "Name (ks_meta s)" key e ss port ip] ep weight(2) by simp
qed

text \<open>
  A service for the outside has a name of at most 63 bytes. The cut costs the part that tells
  the ports apart: two ports of a component whose workload name has 59 bytes or more get the same
  service name, and so do the services for the inside from 63 bytes on.
\<close>

theorem service_name_cut:
  assumes "createOuterService db b p = Inr s" "createOuterService db b q = Inr t"
    and "createInnerService db b p = Inr s'" "createInnerService db b q = Inr t'"
    and "pr_K8sServiceName p = []" "pr_K8sServiceName q = []"
  shows "length (Name (ks_meta s)) \<le> 63 \<and> length (Name (ks_meta s')) \<le> 63 \<and>
    (59 \<le> length (GetK8sWorkloadName (ab_appService b)) \<longrightarrow> Name (ks_meta s) = Name (ks_meta t)) \<and>
    (63 \<le> length (GetK8sWorkloadName (ab_appService b)) \<longrightarrow> Name (ks_meta s') = Name (ks_meta t'))"
  using assms by (auto simp: service_defs KeepMaxLength_def)

text \<open>
  C36: A failed query for the rules counts as no rules: when the tables of the rules cannot be read, a
  build that would have succeeded still succeeds, with the same services and without a single ingress
  or certificate.
\<close>

theorem failed_rule_query_drops_routes:
  assumes "Build g db b = Inr (Inr res)"
  shows "Build (g\<lparr>t_fails := (\<lambda>q k. q \<in> {QHTTPRules, QTCPRules} \<or> t_fails g q k)\<rparr>) db b =
    Inr (Inr (res\<lparr>Ingresses := [], Secrets := []\<rparr>))"
proof -
  let ?g = "g\<lparr>t_fails := (\<lambda>q k. q \<in> {QHTTPRules, QTCPRules} \<or> t_fails g q k)\<rparr>"
  let ?h = "\<lambda>res. res\<lparr>Ingresses := [], Secrets := []\<rparr>"
  have none: "ApplyRules ?g db b sid cp pcp s = Inr ([], [])" for sid cp pcp s
    by (simp add: ApplyRules_def GetHTTPRuleByServiceIDAndContainerPort_def GetTCPRuleByServiceIDAndContainerPort_def
        rows_of_def rows_or_none_def)
  have same: "GetPortsByServiceID ?g = GetPortsByServiceID g" "checkUpstreamPluginRelation ?g = checkUpstreamPluginRelation g"
      "mapped_ports ?g = mapped_ports g"
    by (simp_all add: fun_eq_iff GetPortsByServiceID_def checkUpstreamPluginRelation_def mapped_ports_def
        CheckSomeModelPluginByServiceID_def GetPluginMappingPorts_def rows_of_def)
  have step: "build_port ?g db b pp (?h u) p = Inr (?h v)" if v: "build_port g db b pp u p = Inr v" for pp u p v
  proof -
    obtain inner outer where io: "pr_IsInnerService p = Some inner" "pr_IsOuterService p = Some outer"
      using v by (auto simp: build_port_def bind_go_eq_Inr deref_def split: option.splits)
    show ?thesis
      using v unfolding build_port_def none io deref_simps bind_go_simps
      by (cases "inner_service db b p"; cases "createOuterService db b p"; cases inner; cases outer)
        (simp_all add: Let_def bind_go_eq_Inr, auto)
  qed
  have loop: "for_go (build_port ?g db b pp) \<lparr>Services = [], Secrets = [], Ingresses = []\<rparr> ports = Inr (?h res0)"
    if "for_go (build_port g db b pp) \<lparr>Services = [], Secrets = [], Ingresses = []\<rparr> ports = Inr res0" for pp ports res0
    using for_go_simulation [where h = ?h and f' = "build_port ?g db b pp", OF that step] by simp
  from assms obtain ports0 crt ports pp res0 where q: "GetPortsByServiceID g (ab_serviceID b) = Inr ports0"
    "checkUpstreamPluginRelation g (ab_serviceID b) = Inr crt"
    "mapped_ports g (ab_serviceID b) ports0 crt = Inr (ports, pp)"
    "for_go (build_port g db b pp) \<lparr>Services = [], Secrets = [], Ingresses = []\<rparr> ports = Inr res0"
    by (auto simp: Build_def bind_go_eq_Inr split: sum.splits)
  show ?thesis
    using assms unfolding Build_def same q sum.case prod.case bind_go_simps loop [OF q(4)]
    by (cases "createStatefulService db b ports"; cases crt) (auto simp: bind_go_eq_Inr split: if_splits)
qed

text \<open>
  A stateful component without ports that has an inbound plugin cannot be built: its headless
  service has no port to read the label from, and the build panics.
\<close>

theorem stateful_plugin_panics:
  assumes "GetPortsByServiceID g (ab_serviceID b) = Inr []"
    and "checkUpstreamPluginRelation g (ab_serviceID b) = Inr True"
    and "GetPluginMappingPorts g (ab_serviceID b) = Inr pls"
    and "ab_replicationType b = ''statefulset''" "GetNamespace (ab_appService b) = Inr ns"
  shows "Build g db b = Inl IndexOutOfRange"
  using assms
  by (simp add: Build_def mapped_ports_def CreateUpstreamPluginMappingPort_def createStatefulService_def
      CreateUpstreamPluginMappingService_def origin_label_def)

text \<open>
  The order of the rewrites of a rule is lost: they are stored as annotations, and the gateway
  lists them in the order in which it meets these. The same two rewrites come out in both orders.
\<close>

theorem rewrite_order_lost:
  "let annos = foldl rewrite_step [] (enumerate 0 [r0, r1])
   in map_of (rev annos) = map_of annos \<and>
      Rewrites (rewrite_Parse d (zero_meta\<lparr>Annotations := annos\<rparr>)) = [rewrite_of r0, rewrite_of r1] \<and>
      Rewrites (rewrite_Parse d (zero_meta\<lparr>Annotations := rev annos\<rparr>)) = [rewrite_of r1, rewrite_of r0]"
proof -
  have "nat_str 0 = ''0''" "nat_str (Suc 0) = ''1''"
    by (simp_all add: nat_str.simps digit_char_def char_of_def bit_iff_odd)
  then show ?thesis
    by (auto simp: rewrite_step_def put_ann_def GetAnnotationWithPrefix_def AnnotationsPrefix_def rewrite_Parse_def
        convert_def convert_step_def GetStringAnnotationWithPrefix_def checkAnnotation_def or_else_def
        rewrite_of_def Let_def fun_eq_iff)
qed

section \<open>Witnesses\<close>

definition demo_port :: port_row where
  "demo_port = \<lparr>pr_ID = 1, pr_ServiceID = ''s1'', pr_ContainerPort = 8080, pr_MappingPort = 8080, pr_Protocol = ''http'',
     pr_IsInnerService = Some True, pr_IsOuterService = Some True, pr_K8sServiceName = ''web''\<rparr>"

definition demo_http :: http_rule_row where
  "demo_http = \<lparr>hr_UUID = ''h1'', hr_ServiceID = ''s1'', hr_ContainerPort = 8080, hr_Domain = ''a.io'', hr_Path = [],
     hr_Header = [], hr_Cookie = [], hr_Weight = 3, hr_CertificateID = [], hr_PathRewrite = False\<rparr>"

definition demo_rewrite :: http_rewrite_row where
  "demo_rewrite = \<lparr>rw_HTTPRuleID = ''h1'', rw_Regex = ''^/old'', rw_Replacement = ''/new'', rw_Flag = ''last''\<rparr>"

definition demo_tcp :: tcp_rule_row where
  "demo_tcp = \<lparr>tr_UUID = ''t1'', tr_ServiceID = ''s1'', tr_ContainerPort = 8080, tr_IP = [], tr_Port = 9000\<rparr>"

definition demo_tables :: "port_row list \<Rightarrow> gw_tables" where
  "demo_tables ports = \<lparr>t_ports = ports,
     t_plugin_ports = [\<lparr>pl_ServiceID = ''s1'', pl_ContainerPort = 8080, pl_PluginPort = 65301\<rparr>],
     t_plugin_relations = [\<lparr>rl_ServiceID = ''s1'', rl_PluginModel = ''net-plugin:up'', rl_Switch = True\<rparr>],
     t_http_rules = [demo_http], t_rewrites = [demo_rewrite], t_tcp_rules = [demo_tcp], t_extensions = [], t_configs = [],
     t_certificates = [], t_fails = (\<lambda>_ _. False), ex_domain = [], high_version = True\<rparr>"

definition demo_builder :: AppServiceBuild where
  "demo_builder = \<lparr>ab_serviceID = ''s1'', ab_eventID = [],
     ab_tenantEnv = \<lparr>er_UUID = ''e1'', er_Name = ''env'', er_Namespace = ''ns'', er_TenantID = ''t1'', er_TenantName = ''team''\<rparr>,
     ab_service = sample_row ''s1'' [],
     ab_appService = zero_app\<lparr>ServiceID := ''s1'', K8sApp := ''shop'', K8sComponentName := ''web'',
       tenantEnv := Some \<lparr>o_meta = zero_meta\<lparr>Name := ''ns''\<rparr>, o_data = []\<rparr>\<rparr>,
     ab_replicationType = ''statefulset''\<rparr>"

abbreviation demo_base :: database where
  "demo_base \<equiv> sample_db []"

lemmas demo_rows = demo_tables_def demo_port_def demo_http_def demo_rewrite_def demo_tcp_def
lemmas demo_queries = GetPortsByServiceID_def GetPluginMappingPorts_def checkUpstreamPluginRelation_def
  CheckSomeModelPluginByServiceID_def InBoundNetPlugin_def config_ListByRuleID_def ListByHTTPRuleID_def
  GetRuleExtensionByRuleID_def rows_of_def

lemma demo_namespace: "GetNamespace (ab_appService demo_builder) = Inr ''ns''"
  by (simp add: GetNamespace_def demo_builder_def)

lemma demo_mapping:
  "GetPortsByServiceID (demo_tables [demo_port]) ''s1'' = Inr [demo_port]"
  "checkUpstreamPluginRelation (demo_tables ps) ''s1'' = Inr True"
  "mapped_ports (demo_tables [demo_port]) ''s1'' [demo_port] True =
     Inr ([demo_port\<lparr>pr_ContainerPort := 65301, pr_MappingPort := 65301\<rparr>], [(65301, 8080)])"
  by (simp_all add: demo_rows demo_queries mapped_ports_def CreateUpstreamPluginMappingPort_def map_port_def wrap32_def)

lemma demo_rule_rows:
  "config_ListByRuleID (demo_tables ps) u = Inr []" "GetRuleExtensionByRuleID (demo_tables ps) u = Inr []"
  "ListByHTTPRuleID (demo_tables ps) ''h1'' = Inr [demo_rewrite]"
  by (simp_all add: demo_rows demo_queries)

lemma demo_http_fields:
  "create_ingress (demo_tables ps) = createNtwIngress" "rule_path demo_http = ''/''"
  "replace_byte (CHR '' '') [] (hr_Domain demo_http) = ''a.io''" "hr_UUID demo_http = ''h1''"
  "hr_CertificateID demo_http = []" "hr_Weight demo_http = 3"
  by (simp_all add: create_ingress_def rule_path_def demo_rows replace_byte_def)

lemma demo_answers: "queries_answer (demo_tables ps)"
  by (simp add: demo_tables_def)

lemma apply_demo_http:
  assumes "GetNamespace (ab_appService b) = Inr ''ns''"
  shows "\<exists>annos. parseAnnotations (demo_tables ps) demo_http = Inr annos \<and>
     applyHTTPRule (demo_tables ps) db b demo_http cp pcp s =
       Inr (Inr (SetAnnotations annos (createNtwIngress ''a.io'' ''/'' ''h1'' ''ns'' (Name (ks_meta s))
         (GetCommonLabels (tenant_of db) [] (ab_appService b)) pcp), None))"
  using parseAnnotations_ok [OF demo_answers, of ps demo_http]
  by (auto simp: applyHTTPRule_def assms createSecret_def demo_http_fields)

lemmas demo_apply = apply_demo_http [OF demo_namespace, of _ demo_base]

lemma demo_apply_tcp:
  "ks_ports s = p # ps' \<Longrightarrow> \<exists>ing. applyTCPRule (demo_tables ps) db b demo_tcp s ns = Inr (Inr ing)"
  by (simp add: applyTCPRule_def demo_rule_rows Let_def)

lemma demo_services:
  assumes "GetNamespace (ab_appService b) = Inr ns"
  shows "\<exists>s p ps. inner_service db b port = Inr s \<and> ks_ports s = p # ps"
    and "\<exists>s p ps. createOuterService db b port = Inr s \<and> ks_ports s = p # ps"
    and "\<exists>s p ps. createStatefulService db b [port] = Inr s \<and> ks_ports s = p # ps"
  using assms by (auto simp: service_defs)

lemma demo_rules:
  assumes "ks_ports s = p # ps" and ns: "GetNamespace (ab_appService b) = Inr ''ns''"
  shows "\<exists>ings. ApplyRules (demo_tables [demo_port]) db b ''s1'' 8080 pcp s = Inr (ings, []) \<and> length ings = 2"
proof -
  have "GetHTTPRuleByServiceIDAndContainerPort (demo_tables [demo_port]) ''s1'' 8080 = Inr [demo_http]"
    "GetTCPRuleByServiceIDAndContainerPort (demo_tables [demo_port]) ''s1'' 8080 = Inr [demo_tcp]"
    by (simp_all add: demo_rows GetHTTPRuleByServiceIDAndContainerPort_def GetTCPRuleByServiceIDAndContainerPort_def rows_of_def)
  then show ?thesis
    using apply_demo_http [OF ns, of "[demo_port]" db 8080 pcp s] demo_apply_tcp [OF assms(1), of "[demo_port]" db b "''ns''"]
    by (auto simp: ApplyRules_def rows_or_none_def http_rule_step_def tcp_rule_step_def ns)
qed

lemma demo_port_fields:
  "pr_IsInnerService demo_port = Some True" "pr_IsOuterService demo_port = Some True" "pr_ServiceID demo_port = ''s1''"
  by (simp_all add: demo_port_def)

lemma build_demo:
  assumes b: "GetNamespace (ab_appService b) = Inr ''ns''" "ab_serviceID b = ''s1''" "ab_replicationType b = ''statefulset''"
  shows "\<exists>res. Build (demo_tables [demo_port]) db b = Inr (Inr res) \<and> length (Services res) = 3 \<and> length (Ingresses res) = 2"
proof -
  let ?p = "demo_port\<lparr>pr_ContainerPort := 65301, pr_MappingPort := 65301\<rparr>"
  obtain s1 p1 ps1 s2 p2 ps2 s3 p3 ps3 where
    s: "inner_service db b ?p = Inr s1" "ks_ports s1 = p1 # ps1"
      "createOuterService db b ?p = Inr s2" "ks_ports s2 = p2 # ps2"
      "createStatefulService db b [?p] = Inr s3" "ks_ports s3 = p3 # ps3"
    using demo_services [OF b(1), of db ?p] by blast
  obtain ings where "ApplyRules (demo_tables [demo_port]) db b ''s1'' 8080 65301 s2 = Inr (ings, [])"
    "length ings = 2"
    using demo_rules [OF s(4) b(1), of db 65301] by blast
  then have "build_port (demo_tables [demo_port]) db b [(65301, 8080)]
      \<lparr>Services = [], Secrets = [], Ingresses = []\<rparr> ?p = Inr \<lparr>Services = [s1, s2], Secrets = [], Ingresses = ings\<rparr>"
    using s by (simp add: build_port_def Let_def pp_get_def wrap32_def demo_port_fields)
  then show ?thesis
    using s b(2,3) \<open>length ings = 2\<close>
    by (simp add: Build_def demo_mapping CreateUpstreamPluginMappingService_def origin_label_def)
qed

lemma demo_build: "\<exists>res. Build (demo_tables [demo_port]) demo_base demo_builder = Inr (Inr res) \<and>
    length (Services res) = 3 \<and> length (Ingresses res) = 2"
  by (rule build_demo [OF demo_namespace]) (simp_all add: demo_builder_def)

lemma built_ingresses_backed_witness:
  "\<exists>res. Build (demo_tables [demo_port]) demo_base demo_builder = Inr (Inr res) \<and> length (Ingresses res) = 2 \<and>
     (\<forall>i \<in> set (Ingresses res). \<exists>s \<in> set (Services res). backed_by i s)"
  using demo_build built_ingresses_backed by blast

text \<open>The build reads of the database record only the tenant.\<close>

lemma Build_tenant: "tenant_of db = tenant_of db' \<Longrightarrow> Build g db b = Build g db' b"
proof -
  assume t: "tenant_of db = tenant_of db'"
  have svc: "createInnerService db = createInnerService db'" "createOuterService db = createOuterService db'"
      "createStatefulService db = createStatefulService db'"
    by (intro ext, simp add: createInnerService_def createOuterService_def createStatefulService_def t)+
  have rules: "applyHTTPRule g db = applyHTTPRule g db'" "applyTCPRule g db = applyTCPRule g db'"
    by (intro ext, simp only: applyHTTPRule_def applyTCPRule_def t)+
  have "http_rule_step g db = http_rule_step g db'" "tcp_rule_step g db = tcp_rule_step g db'"
    by (intro ext, simp add: http_rule_step_def tcp_rule_step_def rules)+
  then have "ApplyRules g db = ApplyRules g db'"
    by (intro ext) (simp add: ApplyRules_def)
  then have "build_port g db = build_port g db'"
    by (intro ext) (simp only: build_port_def inner_service_def createKubernetesNativeService_def svc)
  then show ?thesis
    by (simp only: Build_def svc)
qed

lemma registered_routes_complete_witness:
  "\<exists>db a res a'. Build (demo_tables [demo_port]) db
       \<lparr>ab_serviceID = ''s1'', ab_eventID = [], ab_tenantEnv = hd (tenant_envs db), ab_service = sample_row ''s1'' [],
        ab_appService = a, ab_replicationType = ''statefulset''\<rparr> = Inr (Inr res) \<and>
     length (Ingresses res) = 2 \<and> TenantEnvServiceRegist db a = Inr (Inr a') \<and>
     (\<forall>i \<in> set (Ingresses res). \<forall>(n, _) \<in> set (ing_backends i). n \<in> obj_name ` set (services a'))"
proof -
  let ?db = "sample_db [sample_row ''s1'' []]"
  let ?a = "zero_app\<lparr>ServiceID := ''s1'', ServiceType := ''statefulset'',
    tenantEnv := Some \<lparr>o_meta = zero_meta\<lparr>Name := ''ns''\<rparr>, o_data = []\<rparr>\<rparr>"
  let ?b = "\<lparr>ab_serviceID = ''s1'', ab_eventID = [], ab_tenantEnv = hd (tenant_envs ?db), ab_service = sample_row ''s1'' [],
        ab_appService = ?a, ab_replicationType = ''statefulset''\<rparr>"
  have "GetNamespace ?a = Inr ''ns''"
    by (simp add: GetNamespace_def)
  then obtain res where res: "Build (demo_tables [demo_port]) ?db ?b = Inr (Inr res)" "length (Ingresses res) = 2"
    using build_demo [of ?b ?db] by auto
  let ?f = "\<lambda>_. Inr (Inr (Some (resource_objects (\<lambda>_. []) (\<lambda>_. []) (\<lambda>_. []) res)))"
  let ?db' = "?db\<lparr>k8s_build := ?f\<rparr>"
  have tenant: "tenant_of ?db' = tenant_of ?db"
    by (rule ext) (simp add: tenant_of_def GetTenantEnvByUUID_def one_row_def)
  have built: "Build (demo_tables [demo_port]) ?db' ?b = Inr (Inr res)"
    unfolding Build_tenant [OF tenant] by (rule res(1))
  have "AppServiceBuilder ?db' (ServiceID ?a) (ServiceType ?a) ?a = Inr ?b"
    by (simp add: AppServiceBuilder_def db_sample_defs zero_app_def)
  from registered_routes_complete [OF this built, of "\<lambda>_. []" "\<lambda>_. []" "\<lambda>_. []"]
  obtain a' where reg: "TenantEnvServiceRegist ?db' ?a = Inr (Inr a')"
    "\<forall>i \<in> set (Ingresses res). \<forall>(n, _) \<in> set (ing_backends i). n \<in> obj_name ` set (services a')"
    by auto
  have same: "tenant_envs ?db' = tenant_envs ?db" by simp
  show ?thesis
    by (rule exI [of _ ?db'], rule exI [of _ ?a], rule exI [of _ res], rule exI [of _ a'])
      (unfold same, intro conjI built res(2) reg)
qed

lemma service_ports_open_witness:
  "\<exists>res. Build (demo_tables [demo_port]) demo_base demo_builder = Inr (Inr res) \<and> length (Services res) = 3 \<and>
     (\<forall>s \<in> set (Services res). \<forall>kp \<in> set (ks_ports s). kp_TargetPort kp = 65301)"
proof -
  have "createPorts (demo_tables [demo_port]) ''s1'' = [(65301, ''TCP'')]"
    using createPorts_rows [OF demo_mapping]
    by (simp add: container_port_def conversionPortProtocol_def wrap32_def demo_port_def)
  then show ?thesis
    using demo_build service_ports_open [of "demo_tables [demo_port]" demo_base demo_builder]
    by (fastforce simp: demo_builder_def)
qed

lemma failed_rule_query_drops_routes_witness:
  "\<exists>res. Build ((demo_tables [demo_port])\<lparr>t_fails := (\<lambda>q k. q \<in> {QHTTPRules, QTCPRules} \<or> t_fails (demo_tables [demo_port]) q k)\<rparr>)
       demo_base demo_builder = Inr (Inr res) \<and> length (Services res) = 3 \<and> Ingresses res = []"
  using demo_build failed_rule_query_drops_routes by fastforce

lemma rules_converted_exactly_witness:
  "\<exists>res. Build (demo_tables [demo_port]) demo_base demo_builder = Inr (Inr res) \<and>
     map (Name \<circ> ki_meta) (Ingresses res) = [''h1'', ''t1'']"
proof -
  obtain res where res: "Build (demo_tables [demo_port]) demo_base demo_builder = Inr (Inr res)"
    using demo_build by blast
  have id: "ab_serviceID demo_builder = ''s1''"
    by (simp add: demo_builder_def)
  have "clean_plugins (demo_tables [demo_port]) ''s1''"
    by (simp add: clean_plugins_def own_ports_def demo_rows)
  note exact = rules_converted_exactly [OF res demo_answers, unfolded id, OF this]
  have "own_ports (demo_tables [demo_port]) ''s1'' = [demo_port]" "pr_ContainerPort demo_port = 8080"
      "http_rules_of (demo_tables [demo_port]) ''s1'' 8080 = [demo_http]" "hr_UUID demo_http = ''h1''"
      "tcp_rules_of (demo_tables [demo_port]) ''s1'' 8080 = [demo_tcp]" "tr_UUID demo_tcp = ''t1''"
    by (simp_all add: own_ports_def http_rules_of_def tcp_rules_of_def demo_rows)
  moreover have "certificate_ok (demo_tables [demo_port]) demo_http"
    by (simp add: certificate_ok_def demo_http_fields)
  ultimately have "map (Name \<circ> ki_meta) (Ingresses res) = [''h1'', ''t1'']"
    unfolding exact by (simp add: demo_port_fields)
  then show ?thesis
    by (intro exI [of _ res] conjI res)
qed

lemma http_rule_read_back_witness:
  "\<exists>annos. parseAnnotations (demo_tables []) demo_http = Inr annos \<and> weight_Parse (zero_meta\<lparr>Annotations := annos\<rparr>) = 3 \<and>
     mset (Rewrites (rewrite_Parse NewDefault (zero_meta\<lparr>Annotations := annos\<rparr>))) = {#rewrite_of demo_rewrite#}"
proof -
  obtain annos where annos: "parseAnnotations (demo_tables []) demo_http = Inr annos"
    using demo_apply by blast
  have wf: "gm_wf annos"
    using annos by (auto simp: parseAnnotations_def demo_rule_rows demo_http_fields put_configs_def rewrite_step_def
        rule_annotations_def Let_def)
  show ?thesis
    using annos http_rule_read_back [of "demo_tables []" demo_http annos "[]" "[demo_rewrite]" "zero_meta\<lparr>Annotations := annos\<rparr>" NewDefault] wf
    by (simp add: demo_rule_rows demo_http_fields)
qed

lemma tcp_rule_read_back_witness:
  "\<exists>s ing c. applyTCPRule (demo_tables []) demo_base demo_builder demo_tcp s ''ns'' = Inr (Inr ing) \<and>
     l4_Parse (ki_meta ing) = Inr c \<and> L4Port c = 9000 \<and> L4Host c = ''0.0.0.0''"
proof -
  obtain s :: k8s_service and p ps where "ks_ports s = p # ps"
    using demo_services(2) [OF demo_namespace] by blast
  then obtain ing where ing: "applyTCPRule (demo_tables []) demo_base demo_builder demo_tcp s ''ns'' = Inr (Inr ing)"
    using demo_apply_tcp by blast
  then show ?thesis
    using tcp_rule_read_back [OF ing, of "[]"] by (force simp: demo_rule_rows demo_tcp_def)
qed

text \<open>A gateway that sees the ingress of the rule, and one pod behind its service.\<close>

definition demo_svc :: k8s_service where
  "demo_svc = \<lparr>ks_meta = demo_meta ''svc'', ks_ports = [], ks_selector = [], ks_type = [], ks_ClusterIP = [],
     ks_PublishNotReadyAddresses = False\<rparr>"

definition rule_env :: "ingress \<Rightarrow> gw_env" where
  "rule_env i = (demo_env False)\<lparr>g_ingresses := [i],
     g_extract := (\<lambda>m. (demo_anns False)\<lparr>a_weight := weight_Parse m\<rparr>)\<rparr>"

lemma http_rule_reaches_pods_witness:
  "\<exists>ing l7 l4 gb pools7 pools4.
     applyHTTPRule (demo_tables []) demo_base demo_builder demo_http 8080 8080 demo_svc = Inr (Inr (ing, None)) \<and>
     ListVirtualService (rule_env (gateway_view ing)) 0 [] [] = Inr (l7, l4, gb) \<and>
     ListPool (rule_env (gateway_view ing)) gb 0 100 = (pools7, pools4) \<and>
     (\<exists>vs \<in> set l7. ServerName vs = ''a.io'' \<and>
       (\<exists>a loc. Ptr a loc \<in> set (Locations vs) \<and> Path loc = ''/'' \<and>
         (\<exists>pool \<in> set pools7. m_Name (p_Meta pool) \<in> fst ` set (NameCondition loc) \<and>
           (\<exists>a' node. Ptr a' node \<in> set (Nodes pool) \<and> Host node = ''10.0.0.1'' \<and> Port node = 80 \<and> Weight node = 3))))"
proof -
  obtain annos where app: "applyHTTPRule (demo_tables []) demo_base demo_builder demo_http 8080 8080 demo_svc =
      Inr (Inr (SetAnnotations annos (createNtwIngress ''a.io'' ''/'' ''h1'' ''ns'' (Name (ks_meta demo_svc))
         (GetCommonLabels (tenant_of demo_base) [] (ab_appService demo_builder)) 8080), None))"
    using demo_apply by blast
  define ing where "ing = SetAnnotations annos (createNtwIngress ''a.io'' ''/'' ''h1'' ''ns'' (Name (ks_meta demo_svc))
         (GetCommonLabels (tenant_of demo_base) [] (ab_appService demo_builder)) 8080)"
  let ?i = "gateway_view ing" and ?env = "rule_env (gateway_view ing)"
  have view: "i_default ?i = Some \<lparr>ib_service = Some ''svc'', ib_port = wrap32 8080\<rparr>" "i_tls ?i = []"
      "i_rules ?i = [\<lparr>r_host = ''a.io'', r_http = Some [\<lparr>ip_path = ''/'', ip_service = Some ''svc''\<rparr>]\<rparr>]"
      "Namespace (ki_meta ing) = ''ns''" "i_meta ?i = ki_meta ing"
    by (simp_all add: gateway_view_def ing_def SetAnnotations_def createNtwIngress_def createIngressMeta_def demo_svc_def
        demo_meta_def)
  have env: "g_ingresses ?env = [?i]" "g_endpoints ?env = [(''ns/svc'', demo_endpoints)]"
      "g_extract ?env = (\<lambda>m. (demo_anns False)\<lparr>a_weight := weight_Parse m\<rparr>)"
    by (simp_all add: rule_env_def demo_env_def)
  have "env_ok ?env"
    by (simp add: env_ok_def env view rule_ok_def slash_path_def)
  moreover have no_l4: "\<not> l4_wanted (g_extract ?env m)" for m
    by (simp add: env l4_wanted_def demo_anns_def)
  then have "\<forall>i \<in> set (g_ingresses ?env). ing_complete ?env i"
    by (simp add: ing_complete_def env view)
  then obtain l7 l4 gb pools7 pools4 where lists: "ListVirtualService ?env 0 [] [] = Inr (l7, l4, gb)"
      "ListPool ?env gb 0 100 = (pools7, pools4)"
    using ListVirtualService_total [of ?env 0 "[]" "[]"] by (metis surj_pair)
  moreover have "served_l7 ?env ?i"
    using no_l4 by (simp add: served_l7_def ingressIsValid_def getEndpointKey_def ing_service_def view env
        hasReadyAddresses_def demo_endpoints_def)
  moreover have "hostSSLMap ?env ?i = []"
    by (simp add: hostSSLMap_def view)
  moreover have app': "applyHTTPRule (demo_tables []) demo_base demo_builder demo_http 8080 8080 demo_svc = Inr (Inr (ing, None))"
    using app by (simp add: ing_def)
  moreover have "Name (ge_meta demo_endpoints) = Name (ks_meta demo_svc)"
      "\<lparr>Addresses = [''10.0.0.1''], Ports = [80]\<rparr> \<in> set (ge_subsets demo_endpoints)"
    by (simp_all add: demo_endpoints_def demo_svc_def demo_meta_def)
  ultimately have "\<exists>vs \<in> set l7. ServerName vs = ''a.io'' \<and>
       (\<exists>a loc. Ptr a loc \<in> set (Locations vs) \<and> Path loc = ''/'' \<and>
         (\<exists>pool \<in> set pools7. m_Name (p_Meta pool) \<in> fst ` set (NameCondition loc) \<and>
           (\<exists>a' node. Ptr a' node \<in> set (Nodes pool) \<and> Host node = ''10.0.0.1'' \<and> Port node = 80 \<and> Weight node = 3)))"
    using http_rule_reaches_pods [of ?env 0 "[]" "[]" l7 l4 gb 0 100 pools7 pools4 "demo_tables []" demo_base demo_builder
        demo_http 8080 8080 demo_svc ing None "[]" "''a.io''" "''ns/svc''" demo_endpoints
        "\<lparr>Addresses = [''10.0.0.1''], Ports = [80]\<rparr>" 80 "''10.0.0.1''"]
    by (simp add: demo_rule_rows demo_http_fields env)
  with app' lists show ?thesis by blast
qed

lemma stateful_plugin_panics_witness: "Build (demo_tables []) demo_base demo_builder = Inl IndexOutOfRange"
proof -
  have id: "ab_serviceID demo_builder = ''s1''" "ab_replicationType demo_builder = ''statefulset''"
    by (simp_all add: demo_builder_def)
  have "GetPortsByServiceID (demo_tables []) ''s1'' = Inr []"
    by (simp add: GetPortsByServiceID_def rows_of_def demo_tables_def)
  moreover have "\<exists>pls. GetPluginMappingPorts (demo_tables []) ''s1'' = Inr pls"
    by (simp add: GetPluginMappingPorts_def rows_of_def demo_tables_def)
  ultimately show ?thesis
    using stateful_plugin_panics [of "demo_tables []" demo_builder] demo_mapping(2) demo_namespace id by metis
qed

lemma service_name_cut_witness:
  "\<exists>s t. createOuterService demo_base (demo_builder\<lparr>ab_appService := (ab_appService demo_builder)\<lparr>K8sApp := replicate 59 CHR ''a''\<rparr>\<rparr>)
       (demo_port\<lparr>pr_K8sServiceName := []\<rparr>) = Inr s \<and>
     createOuterService demo_base (demo_builder\<lparr>ab_appService := (ab_appService demo_builder)\<lparr>K8sApp := replicate 59 CHR ''a''\<rparr>\<rparr>)
       (demo_port\<lparr>pr_K8sServiceName := [], pr_ID := 2, pr_ContainerPort := 9090\<rparr>) = Inr t \<and> Name (ks_meta s) = Name (ks_meta t)"
proof -
  let ?b = "demo_builder\<lparr>ab_appService := (ab_appService demo_builder)\<lparr>K8sApp := replicate 59 CHR ''a''\<rparr>\<rparr>"
  let ?p = "demo_port\<lparr>pr_K8sServiceName := []\<rparr>"
  let ?q = "demo_port\<lparr>pr_K8sServiceName := [], pr_ID := 2, pr_ContainerPort := 9090\<rparr>"
  have "GetNamespace (ab_appService ?b) = Inr ''ns''"
    using demo_namespace by (simp add: GetNamespace_def)
  then obtain s t s' t' where "createOuterService demo_base ?b ?p = Inr s" "createOuterService demo_base ?b ?q = Inr t"
      "createInnerService demo_base ?b ?p = Inr s'" "createInnerService demo_base ?b ?q = Inr t'"
    by (auto simp: createOuterService_def createInnerService_def Let_def)
  moreover have "59 \<le> length (GetK8sWorkloadName (ab_appService ?b))"
    by (simp add: GetK8sWorkloadName_def)
  ultimately show ?thesis
    using service_name_cut [of demo_base ?b ?p s ?q t s' t'] by auto
qed

end
