(* ===== verification/Spec2Isabelle.thy ===== *)
theory Spec2Isabelle
  imports Store_Status Gateway_Nginx Event_Wire Event_File Third_Component
    Helm_Reconcile Task_Handle Rule_Properties
begin

text \<open>
  A verification library for Wutong, a platform that runs applications on Kubernetes.

  \<^bold>\<open>The program.\<close> Users describe \<^emph>\<open>components\<close>; the API service writes them to a database, the builder
  (\<^verbatim>\<open>src/chaos\<close>) makes images, and the worker (\<^verbatim>\<open>src/worker\<close>) turns components into Kubernetes objects,
  follows the cluster through informers in its \<^emph>\<open>runtime store\<close> and answers what is running. The gateway
  (\<^verbatim>\<open>src/gateway\<close>) derives the configuration of a reverse proxy from ingresses, endpoints and
  certificates. The event log service (\<^verbatim>\<open>src/eventlog\<close>) collects the logs of operations and containers.
  The worker's master (\<^verbatim>\<open>src/worker/master\<close>) also runs controllers, among them the one that probes the
  endpoints of third-party components and publishes them to the cluster, and the one that installs and
  upgrades helm applications. The node agent (\<^verbatim>\<open>src/node\<close>) has the log driver that ships the lines of
  containers to the event log. The development models the stores of these services, which hold the state
  that the rest of the platform relies on, those two controllers, the operations of the worker on the cluster from the
  task that asks for them to the calls they make, and the two paths on which data leaves the
  stores or reaches them: from the gateway rules of a component over the gateway's store to nginx, and from a
  container to the event log.

  \<^bold>\<open>Conventions.\<close> \<open>Go_Prelude\<close> has the parts of Go that the sources use: results that may panic (\<open>'a go\<close>,
  the left summand is the panic), loops over slices (\<open>for_go\<close>), 32- and 64-bit integers with their
  wrap-around written out (\<open>wrap32\<close>, \<open>wrap64\<close>), maps as association lists with distinct keys (\<open>gomap\<close>),
  pointers that carry their address where the code compares addresses (\<open>ptr\<close>), and the string functions.
  Deleting or iterating in Go's map order is order-independent in every modelled operation, so the lists
  stand for maps; where an order is visible the properties speak of sets or of look-ups.

  \<^bold>\<open>Interfaces.\<close> \<open>Named_Store\<close> states the contract of a cache that is updated and deleted by name
  (locales \<open>named_store\<close> and \<open>list_field\<close>): what a look-up returns after a sequence of events. Every cache
  of \<open>App_Service\<close> is an interpretation of it. \<open>result_cache\<close> in \<open>Prober\<close> is what the probe workers rely on
  of the cache of results. \<open>growing_state\<close> in \<open>Go_Prelude\<close> is the contract of a state
  that only grows; the loops of the gateway's store are run under it.

  \<^bold>\<open>The worker.\<close>
  \<^item> \<open>Kube_Objects\<close>: the Kubernetes objects as records, with the fields the code reads.
  \<^item> \<open>App_Service\<close> (\<^verbatim>\<open>src/worker/appm/types/v1/v1.go\<close>, \<^verbatim>\<open>labels.go\<close>, \<^verbatim>\<open>storeage_class.go\<close>): the record of a
    component, its caches and accounting. Shown: the caches follow the events, the deletion lists are
    exact, sums are exact modulo the word size, platform labels win.
  \<^item> \<open>App_Status\<close> (\<^verbatim>\<open>status.go\<close>, \<^verbatim>\<open>pod_status.go\<close>): the status function. Shown: when a component is closed,
    running, upgrading or abnormal, and that deleting its pods closes it.
  \<^item> \<open>App_Init\<close> (\<^verbatim>\<open>src/worker/appm/conversion\<close>, \<^verbatim>\<open>src/db\<close>): a record built from the database for the cache. Building
    its routes can panic; the properties say where they exclude that.
  \<^item> \<open>Rule_Conversion\<close> (\<^verbatim>\<open>src/worker/appm/conversion/gateway.go\<close>, \<^verbatim>\<open>createPorts\<close> of \<^verbatim>\<open>version.go\<close>, the queries in
    \<^verbatim>\<open>src/db/mysql/dao\<close>): the services, ingresses and secrets made from the ports and gateway rules of a component, and
    the ports of its containers, over the tables (\<open>gw_tables\<close>) with one failure flag per query and key.
  \<^item> \<open>Rule_Properties\<close>: shown of it: exactly the rules of the open ports become ingresses, also behind a plugin; every
    ingress leads to a service built with it and every service to a declared container port; the annotations
    are read back by the parsers of the gateway; with \<open>Gateway_Routing\<close>, a rule leads to the pods of its
    component. And the defects: a failed query drops all routes, the order of rewrites is lost, cut service
    names collide, and a stateful component without ports and with a plugin panics.
  \<^item> \<open>Resource_Cache\<close> (\<^verbatim>\<open>src/worker/appm/store/resource.go\<close>): resource totals by namespace and environment.
  \<^item> \<open>App_Store\<close>, \<open>Store_Status\<close> (\<^verbatim>\<open>src/worker/appm/store/store.go\<close>): the informer callbacks and the queries.
    Shown for every sequence of callbacks: the invariant, absence of panics unless a deletion is announced by a
    tombstone or building routes panics, isolation of components, that
    pods and totals follow the cluster, that replica sets are deleted only when obsolete; the queries are
    determinate and agree with each other.

  \<^bold>\<open>The gateway.\<close>
  \<^item> \<open>Gateway_Annotations\<close> (\<^verbatim>\<open>src/gateway/annotations\<close>): the annotation parsers, validation and defaults. Shown: which
    settings validation keeps and which it replaces.
  \<^item> \<open>Gateway_Model\<close> (\<^verbatim>\<open>src/gateway/v1\<close>): the configuration and its comparison.
  \<^item> \<open>Gateway_Store\<close> (\<^verbatim>\<open>src/gateway/store\<close>): the derivation of virtual services and pools, certificates, and
    the extraction of annotations (\<open>Extract\<close>), which the store takes as a parameter.
  \<^item> \<open>Gateway_Routing\<close>: every path of every served ingress reaches a pool with the ready addresses of its
    service; the pools are those of an independent specification (\<open>pools_spec\<close>); server names are unique; complete ingresses never cause a panic; and the defects.
  \<^item> \<open>Gateway_Nginx\<close> (\<^verbatim>\<open>src/gateway/controller/controller.go\<close>, \<^verbatim>\<open>openresty/service.go\<close>, \<^verbatim>\<open>openresty/model\<close>,
    \<^verbatim>\<open>openresty/template\<close>): servers and backends made from the derived lists (\<open>getNgxServer\<close>,
    \<open>CreateBackendByPool\<close>), their validation, the files with back-up, check and roll-back (\<open>writeFile\<close>), and
    the synchronisation (\<open>syncGateway\<close>) over the state of nginx (\<open>ngx_state\<close>). Shown: everything derived from
    clean ingresses validates, the synchronisation succeeds, and the routes of \<open>Gateway_Routing\<close> are in the
    configuration that nginx runs and in the backends it was given; a rejected file counts as applied, and
    hosts that contain the marker for certificates are mangled.

  \<^bold>\<open>The event log.\<close>
  \<^item> \<open>Event_Store\<close> (\<^verbatim>\<open>src/eventlog/store/event_barrel.go\<close>, \<^verbatim>\<open>handle_message_store.go\<close>): operation logs, with
    the goroutines as the step relation \<open>hstep\<close>, in which an insertion has two halves and a write can fail
    with an error or line by line without one; \<open>h_dropped\<close> records what is lost that way. Shown: with one
    insertion under way at a time every message is stored or dropped by a write whose failure is ignored,
    stopping flushes, and two concurrent insertions can lose a message.
  \<^item> \<open>Docker_Log\<close> (\<^verbatim>\<open>docker_log_store.go\<close>, \<^verbatim>\<open>src/eventlog/db/file_plugin.go\<close>, \<^verbatim>\<open>handleDockerLog\<close> in \<^verbatim>\<open>manager.go\<close>):
    container logs, the writing of batches to the log file and the parser of
    their lines, whose buffer shares memory with the line. Shown: every line is held, written or dropped, and
    the three reasons why one is dropped (\<open>drop_reason\<close>); lines of the
    second format survive, lines of the first format are filed under a piece of their text.
  \<^item> \<open>Event_File\<close> (\<^verbatim>\<open>src/eventlog/db/event_file_plugin.go\<close>): the files of operation logs and their round trip.
  \<^item> \<open>Event_Wire\<close> (\<^verbatim>\<open>src/node/nodem/logger/streamlog\<close>, \<^verbatim>\<open>src/eventlog/util/protocol.go\<close>, \<^verbatim>\<open>conn.go\<close>,
    \<^verbatim>\<open>src/eventlog/entry/docker_log_server.go\<close>): the log driver with its bounded queue and connection, the
    framing, the buffered reader of Go's \<^verbatim>\<open>bufio\<close> over the pieces in which the network delivers, and the read
    loop of the server. The read loop has fuel; every round but the last consumes
    bytes, so the number of bytes is enough, and the properties name the fuel they need. Shown: however the network cuts the stream, what is delivered
    is a prefix of what was sent; lines of a container whose frames are read whole reach the
    store of \<open>Docker_Log\<close> with their text, when exactly a message is delivered, and which messages are lost.

  \<^bold>\<open>Third-party components\<close> (\<^verbatim>\<open>src/worker/master/controller/thirdcomponent\<close>).
  \<^item> \<open>Third_Types\<close>: the types and the endpoint addresses, with the parser for IP addresses. Shown: which
    addresses survive being made and read.
  \<^item> \<open>Prober\<close>: probes, workers and their manager; the workers are goroutines, so the manager is a step
    relation as well. Shown: the published result is the last one that was stable for long enough, there
    is one worker for each endpoint in orderly runs, and what a replaced worker does to its successor.
  \<^item> \<open>Third_Component\<close>: discovery, the pool and reconciliation. Shown: ready addresses are probed ones,
    every endpoint is published once, and the defects.

  \<^bold>\<open>Helm applications\<close> (\<^verbatim>\<open>src/worker/master/controller/helmapp\<close>, \<^verbatim>\<open>src/pkg/helm\<close>).
  \<^item> \<open>Helm_Client\<close>: the repository file and the installation, upgrade, status and removal of releases over the
    helm library.
  \<^item> \<open>Helm_App\<close> (also \<^verbatim>\<open>src/pkg/apis/wutong/v1alpha1/helmapp_types.go\<close>, \<^verbatim>\<open>helmapp_status.go\<close>): the application, its
    conditions and phases, what is needed next, and the operations on its status.
  \<^item> \<open>Helm_Reconcile\<close>: the control loop, the detection and the finalizer. Shown: a configured application is
    installed, conditions stay consistent with the phase, releases are touched only when due; and what a
    reverted upgrade and a concurrent edit lead to.

  \<^bold>\<open>Operating components\<close> (\<^verbatim>\<open>src/worker/handle\<close>, \<^verbatim>\<open>src/worker/discover\<close>, \<^verbatim>\<open>src/worker/appm/controller\<close>, \<^verbatim>\<open>src/worker/appm/f\<close>).
  \<^item> \<open>Kube_Calls\<close> (\<^verbatim>\<open>src/worker/appm/f/function.go\<close>, \<^verbatim>\<open>kube-controller.go\<close>): calls to the API server. The state is the
    \<open>history\<close> of calls with their answers, which the parameter \<open>kube_client\<close> gives; \<open>cluster\<close> reads from a history which objects
    the successful calls leave, those of manifests of any kind included. Shown: an upgrade leaves exactly the new objects; an object whose update is refused is deleted;
    rules do not change existing services.
  \<^item> \<open>Upgrade_Patch\<close> (\<^verbatim>\<open>src/worker/appm/types/v1/patch.go\<close>): the comparison of two workloads as JSON documents (\<open>getChange\<close>, with its
    termination) and the patch made from it. Shown: applying the patch as RFC 7386 says (\<open>merge_patch\<close>) to the old document
    gives the new one up to removed fields, and what becomes of those.
  \<^item> \<open>Deploy_Wait\<close> (\<^verbatim>\<open>status.go\<close> and the \<^verbatim>\<open>WaitingReady\<close> methods): the waits for pods. Each round of a wait is an element of a list:
    the store it finds, what other goroutines write to the component, and the channel that fires; a wait that has not ended
    after the last round is \<open>None\<close>. Shown: waits end without a panic once the timer fires or they are cancelled, as long as the component is found
    in the store, and that the wait for a stop panics when it is not; what the check of the pods
    means, that a stop succeeds while everything runs, and that the timeouts of a start do not depend on the component.
  \<^item> \<open>Deploy_Control\<close> (\<^verbatim>\<open>start.go\<close>, \<^verbatim>\<open>stop.go\<close>, \<^verbatim>\<open>restart.go\<close>, \<^verbatim>\<open>scaling.go\<close>, \<^verbatim>\<open>upgrade.go\<close>, \<^verbatim>\<open>refresh_xpa.go\<close>, \<^verbatim>\<open>apply_plugin_config.go\<close>):
    the operations as lists of steps over the history and the runtime store. Shown: what a stop removes, tries to remove and leaves, under the
    contract \<open>truthful\<close> of the server, and that a restart keeps what the stop leaves.
  \<^item> \<open>Task_Handle\<close> (\<^verbatim>\<open>src/worker/handle/manager.go\<close>, \<^verbatim>\<open>src/worker/discover/manager.go\<close>, \<^verbatim>\<open>controller.go\<close>): the handlers of all tasks, the
    map of running controllers and the message loop. Shown: when a task is put back, lost or handled, how many controllers run at most, that
    a running component is not started again, that no task is lost while the queue accepts what is put back and no handler
    panics; and which failures are hidden.

  \<^bold>\<open>Parameters.\<close> Code outside the repository is an argument: the database with its failures (\<open>database\<close>,
  \<open>gw_tables\<close>), unmarshalling of custom objects, parsing of IP addresses and of certificates, the merge of parsed
  annotations (\<open>maps_fields\<close> is its contract), the header checks of the validator; for the event log the parsing of times and
  numbers, whether and how far a write succeeds, the hash in the names of log directories, and the barrel that the object pool hands out; for third-party
  components the answers of the Kubernetes API (\<open>kube_api\<close>), what the HTTP and TCP probers find (\<open>net\<close>), and
  which URLs parse (\<open>url_ok\<close>); for helm applications the helm library and the answers of the API; for nginx
  the templates, the outcome of file operations, the check, the reload and the HTTP interface (\<open>ngx_env\<close>); for the operations
  on components the answers of the API server (\<open>kube_client\<close>), the encoding of workloads as JSON (\<open>patch_env\<close>) and the fields of an
  ingress (\<open>ing_view\<close>). Of code in the repository, the contents that the applicator of \<^verbatim>\<open>src/util/apply\<close> gives the object of a
  manifest are a parameter (\<open>kc_applied\<close>), and the gateway's store has the extraction of annotations as one (\<open>g_extract\<close>), whose weight
  \<open>http_rule_reaches_pods\<close> assumes and \<open>Extract_reads\<close> proves of \<open>Extract\<close>. The full conversion of a component from the database (\<^verbatim>\<open>InitAppService\<close>) is in the repository but not modelled;
  the handlers take it as an argument (\<open>te_init\<close>). \<open>App_Init\<close> takes the built objects as an argument (\<open>k8s_build\<close>);
  \<open>registered_routes_complete\<close> instantiates it with the modelled builder.

  \<^bold>\<open>Not modelled.\<close> HTTP and gRPC front ends, process start-up, the conversion of a whole deployment with volumes and
  plugins, the passage of time in waiting loops (only which channel fires), the export of charts, image building, the archives of log files, history and rollback of
  helm releases, generated clients and the vendored utilities. In the runtime store concurrency is modelled as sequences of callbacks: every
  callback runs to its end before the next one, as the informers guarantee for one kind of object and the
  record's lock for one component. The event log and the prober have their goroutines as steps.
\<close>

end
